(* ===== verification/Prelude.thy ===== *)
theory Prelude
  imports Main "HOL-Library.Word"
begin

text \<open>
  Shared vocabulary of the development: the outcome type of a C function, the combinators in which
  the function bodies are written, their weakest preconditions, and a few facts on lists and words.

  A C function that returns 1 or 0 becomes a program over its state. \<open>Return a s\<close> is ``returned 1''
  (with the output parameters in \<open>a\<close>), \<open>Error s\<close> is ``returned 0'' with the state it leaves behind
  (the error fields of the parser or emitter are part of it), and \<open>Fault\<close> stands for everything
  that must never happen: a failed \<open>assert\<close>, an out-of-bounds or NULL access, or a loop that
  exceeds its fuel.  A statement that a program does not fault is therefore a memory-safety,
  assertion-safety and termination statement at once.
\<close>

named_theorems wp_simps \<open>weakest preconditions of the combinators\<close>
named_theorems prog_defs \<open>definitions of the combinators, for evaluation\<close>

subsection \<open>Outcomes and programs\<close>

datatype ('s, 'a) result = Return 'a 's | Error 's | Fault

type_synonym ('s, 'a) prog = "'s \<Rightarrow> ('s, 'a) result"

definition returnM :: "'a \<Rightarrow> ('s, 'a) prog" where
  "returnM a s = Return a s"

definition errorM :: "('s \<Rightarrow> 's) \<Rightarrow> ('s, 'a) prog" where
  "errorM f s = Error (f s)"

definition faultM :: "('s, 'a) prog" where
  "faultM s = Fault"

definition bindM :: "('s, 'a) prog \<Rightarrow> ('a \<Rightarrow> ('s, 'b) prog) \<Rightarrow> ('s, 'b) prog" where
  "bindM m f s = (case m s of Return a s' \<Rightarrow> f a s' | Error s' \<Rightarrow> Error s' | Fault \<Rightarrow> Fault)"

definition seqM :: "('s, 'a) prog \<Rightarrow> ('s, 'b) prog \<Rightarrow> ('s, 'b) prog" where
  "seqM m n = bindM m (\<lambda>_. n)"

definition getM :: "('s \<Rightarrow> 'a) \<Rightarrow> ('s, 'a) prog" where
  "getM f s = Return (f s) s"

definition readM :: "('s \<Rightarrow> ('s, 'a) prog) \<Rightarrow> ('s, 'a) prog" where
  "readM f s = f s s"

definition modifyM :: "('s \<Rightarrow> 's) \<Rightarrow> ('s, unit) prog" where
  "modifyM f s = Return () (f s)"

text \<open>\<open>assertM\<close> is C's \<open>assert\<close>.\<close>

definition assertM :: "('s \<Rightarrow> bool) \<Rightarrow> ('s, unit) prog" where
  "assertM b s = (if b s then Return () s else Fault)"

text \<open>\<open>cleanupM m c\<close> runs \<open>m\<close> and, where \<open>m\<close> returned 0, the code at the \<open>error:\<close> label.\<close>

definition cleanupM :: "('s, 'a) prog \<Rightarrow> ('s \<Rightarrow> 's) \<Rightarrow> ('s, 'a) prog" where
  "cleanupM m c s = (case m s of Return a s' \<Rightarrow> Return a s' | Error s' \<Rightarrow> Error (c s') | Fault \<Rightarrow> Fault)"

text \<open>\<open>zoomM\<close> runs a program on a part of the state, which \<open>get\<close> reads and \<open>put\<close> writes back.\<close>

definition zoomM :: "('s \<Rightarrow> 't) \<Rightarrow> ('t \<Rightarrow> 's \<Rightarrow> 's) \<Rightarrow> ('t, 'a) prog \<Rightarrow> ('s, 'a) prog" where
  "zoomM get put m s = (case m (get s) of
     Return a t \<Rightarrow> Return a (put t s)
   | Error t \<Rightarrow> Error (put t s)
   | Fault \<Rightarrow> Fault)"

text \<open>A \<open>while\<close> loop with fuel: more than \<open>n\<close> iterations is \<open>Fault\<close>.\<close>

fun whileM :: "nat \<Rightarrow> ('s \<Rightarrow> bool) \<Rightarrow> ('s, unit) prog \<Rightarrow> ('s, unit) prog" where
  "whileM 0 b m s = (if b s then Fault else Return () s)"
| "whileM (Suc n) b m s = (if b s then bindM m (\<lambda>_. whileM n b m) s else Return () s)"

lemmas [prog_defs] = returnM_def errorM_def faultM_def bindM_def seqM_def getM_def readM_def modifyM_def
  assertM_def cleanupM_def zoomM_def

subsection \<open>Weakest preconditions\<close>

text \<open>
  \<open>wp m Q E s\<close>: started in \<open>s\<close>, the program \<open>m\<close> does not fault, and its result satisfies \<open>Q\<close>
  if it returned 1 and \<open>E\<close> if it returned 0.
\<close>

definition wp :: "('s, 'a) prog \<Rightarrow> ('a \<Rightarrow> 's \<Rightarrow> bool) \<Rightarrow> ('s \<Rightarrow> bool) \<Rightarrow> 's \<Rightarrow> bool" where
  "wp m Q E s \<longleftrightarrow> (case m s of Return a s' \<Rightarrow> Q a s' | Error s' \<Rightarrow> E s' | Fault \<Rightarrow> False)"

lemma wp_returnM [wp_simps]: "wp (returnM a) Q E s = Q a s"
  by (simp add: wp_def returnM_def)

lemma wp_errorM [wp_simps]: "wp (errorM f) Q E s = E (f s)"
  by (simp add: wp_def errorM_def)

lemma wp_faultM [wp_simps]: "wp faultM Q E s = False"
  by (simp add: wp_def faultM_def)

lemma wp_bindM [wp_simps]: "wp (bindM m f) Q E s = wp m (\<lambda>a. wp (f a) Q E) E s"
  by (simp add: wp_def bindM_def split: result.split)

lemma wp_seqM [wp_simps]: "wp (seqM m n) Q E s = wp m (\<lambda>_. wp n Q E) E s"
  by (simp add: seqM_def wp_bindM)

lemma wp_getM [wp_simps]: "wp (getM f) Q E s = Q (f s) s"
  by (simp add: wp_def getM_def)

lemma wp_readM [wp_simps]: "wp (readM f) Q E s = wp (f s) Q E s"
  by (simp add: wp_def readM_def)

lemma wp_modifyM [wp_simps]: "wp (modifyM f) Q E s = Q () (f s)"
  by (simp add: wp_def modifyM_def)

lemma wp_assertM [wp_simps]: "wp (assertM b) Q E s = (b s \<and> Q () s)"
  by (simp add: wp_def assertM_def)

lemma wp_cleanupM [wp_simps]: "wp (cleanupM m c) Q E s = wp m Q (\<lambda>s'. E (c s')) s"
  by (simp add: wp_def cleanupM_def split: result.split)

lemma wp_zoomM [wp_simps]:
  "wp (zoomM get put m) Q E s = wp m (\<lambda>a t. Q a (put t s)) (\<lambda>t. E (put t s)) (get s)"
  by (simp add: wp_def zoomM_def split: result.split)

lemma wp_if [wp_simps]:
  "wp (if b then m else n) Q E s = (if b then wp m Q E s else wp n Q E s)"
  by simp

lemma wp_if_state [wp_simps]:
  "wp (\<lambda>s. if b s then m s else n s) Q E s = (if b s then wp m Q E s else wp n Q E s)"
  by (simp add: wp_def)

lemma wp_Return_state [wp_simps]: "wp (Return a) Q E s = Q a s"
  by (simp add: wp_def)

text \<open>The consequence rule, in the form in which a contract of a called function is used.\<close>

lemma wp_mono:
  assumes "wp m Q' E' s"
    and "\<And>a s'. m s = Return a s' \<Longrightarrow> Q' a s' \<Longrightarrow> Q a s'"
    and "\<And>s'. m s = Error s' \<Longrightarrow> E' s' \<Longrightarrow> E s'"
  shows "wp m Q E s"
  using assms by (simp add: wp_def split: result.splits)

lemma wp_conj:
  "wp m Q E s \<Longrightarrow> wp m Q' E' s \<Longrightarrow> wp m (\<lambda>a s'. Q a s' \<and> Q' a s') (\<lambda>s'. E s' \<and> E' s') s"
  by (simp add: wp_def split: result.splits)

lemma wp_no_fault: "wp m Q E s \<Longrightarrow> m s \<noteq> Fault"
  by (auto simp: wp_def)

lemma wp_Return: "wp m Q E s \<Longrightarrow> m s = Return a s' \<Longrightarrow> Q a s'"
  by (simp add: wp_def)

lemma wp_Error: "wp m Q E s \<Longrightarrow> m s = Error s' \<Longrightarrow> E s'"
  by (simp add: wp_def)

lemma no_fault_wp: "m s \<noteq> Fault \<Longrightarrow> wp m (\<lambda>_ _. True) (\<lambda>_. True) s"
  by (simp add: wp_def split: result.split)

text \<open>A loop with an invariant and a measure that bounds the fuel.\<close>

lemma wp_whileM:
  assumes "I s" and "\<mu> s \<le> n"
    and body: "\<And>s. I s \<Longrightarrow> b s \<Longrightarrow> wp m (\<lambda>_ s'. I s' \<and> \<mu> s' < \<mu> s) E s"
    and stop: "\<And>s. I s \<Longrightarrow> \<not> b s \<Longrightarrow> Q () s"
    and pos: "\<And>s. I s \<Longrightarrow> b s \<Longrightarrow> 0 < \<mu> s"
  shows "wp (whileM n b m) Q E s"
  using assms(1,2)
proof (induction n arbitrary: s)
  case 0
  then have "\<not> b s" using pos by fastforce
  with 0 show ?case by (simp add: wp_def stop)
next
  case (Suc n)
  show ?case
  proof (cases "b s")
    case True
    have "wp (bindM m (\<lambda>_. whileM n b m)) Q E s"
      unfolding wp_bindM
      by (rule wp_mono [OF body [OF Suc.prems(1) True]]) (use Suc in auto)
    then show ?thesis using True by (simp add: wp_def)
  next
    case False
    then show ?thesis using Suc.prems by (simp add: wp_def stop)
  qed
qed

subsection \<open>Frames\<close>

text \<open>\<open>keeps f m\<close>: where \<open>m\<close> returns 1 it has not changed the part \<open>f\<close> of the state.\<close>

definition keeps :: "('s \<Rightarrow> 'x) \<Rightarrow> ('s, 'a) prog \<Rightarrow> bool" where
  "keeps f m \<longleftrightarrow> (\<forall>s a s'. m s = Return a s' \<longrightarrow> f s' = f s)"

named_theorems keeps_rules \<open>rules for the part of the state that a program keeps\<close>

lemma keeps_basic [keeps_rules]:
  "keeps f (returnM a)" "keeps f (errorM g)" "keeps f faultM" "keeps f (getM h)" "keeps f (assertM b)"
  by (auto simp: keeps_def prog_defs split: if_splits)

lemma keeps_modifyM [keeps_rules]: "(\<And>s. f (g s) = f s) \<Longrightarrow> keeps f (modifyM g)"
  by (auto simp: keeps_def modifyM_def)

lemma keeps_bindM [keeps_rules]: "keeps f m \<Longrightarrow> (\<And>a. keeps f (n a)) \<Longrightarrow> keeps f (bindM m n)"
  by (force simp: keeps_def bindM_def split: result.splits)

lemma keeps_seqM [keeps_rules]: "keeps f m \<Longrightarrow> keeps f n \<Longrightarrow> keeps f (seqM m n)"
  by (simp add: seqM_def keeps_bindM)

lemma keeps_readM [keeps_rules]: "(\<And>s. keeps f (m s)) \<Longrightarrow> keeps f (readM m)"
  by (auto simp: keeps_def readM_def)

lemma keeps_cleanupM [keeps_rules]: "keeps f m \<Longrightarrow> keeps f (cleanupM m c)"
  by (auto simp: keeps_def cleanupM_def split: result.splits)

lemma keeps_zoomM: "(\<And>s t. f (put t s) = f s) \<Longrightarrow> keeps f (zoomM get put m)"
  by (auto simp: keeps_def zoomM_def split: result.splits)

lemma keeps_if [keeps_rules]: "keeps f m \<Longrightarrow> keeps f n \<Longrightarrow> keeps f (if b then m else n)"
  by simp

lemma keepsD: "keeps f m \<Longrightarrow> m s = Return a s' \<Longrightarrow> f s' = f s"
  by (auto simp: keeps_def)

subsection \<open>Words and arithmetic\<close>

unbundle bit_operations_syntax

lemma unat_and_mask: "unat (w AND mask n) = unat (w :: 'a::len word) mod 2 ^ n"
proof -
  have "unat (take_bit n w) = take_bit n (unat w)" by (rule unsigned_take_bit_eq)
  then show ?thesis by (simp only: take_bit_eq_mask [symmetric] take_bit_eq_mod [of n "unat w"])
qed

lemma and_not_mask_diff: "(w :: 'a::len word) AND NOT (mask n) = w - (w AND mask n)"
proof -
  have "w = (w AND NOT (mask n)) + (w AND mask n)"
    by (subst disjunctive_add) (auto simp: bit_simps intro!: bit_eqI)
  then show ?thesis by (simp add: eq_diff_eq)
qed

lemma unat_and_not_mask: "unat (w AND NOT (mask n)) = 2 ^ n * (unat (w :: 'a::len word) div 2 ^ n)"
proof -
  have "w AND mask n \<le> w" by (simp add: word_le_nat_alt unat_and_mask)
  then have "unat (w AND NOT (mask n)) = unat w - unat w mod 2 ^ n"
    by (simp add: and_not_mask_diff unat_sub unat_and_mask)
  then show ?thesis by (metis minus_mod_eq_mult_div)
qed

lemma div_eq_iff_nat: "0 < n \<Longrightarrow> m div n = q \<longleftrightarrow> n * q \<le> m \<and> m < n * q + (n :: nat)"
  by (metis add.commute div_nat_eqI dividend_less_times_div less_irrefl mult.commute
      mult_Suc_right times_div_less_eq_dividend)

lemma unat_push_bit: "unat (push_bit n (w :: 'a::len word)) = unat w * 2 ^ n mod 2 ^ LENGTH('a)"
proof -
  have "unat (push_bit n w) = take_bit LENGTH('a) (push_bit n (unat w))"
    by (rule unsigned_push_bit_eq)
  then show ?thesis by (simp only: take_bit_eq_mod push_bit_eq_mult [of n "unat w"])
qed

lemma unat_drop_bit: "unat (drop_bit n (w :: 'a::len word)) = unat w div 2 ^ n"
proof -
  have "unat (drop_bit n w) = drop_bit n (unat w)" by (rule unat_drop_bit_eq)
  then show ?thesis by (simp only: drop_bit_eq_div [of n "unat w"])
qed

lemma unat_ucast_down: "unat (ucast (w :: 32 word) :: 8 word) = unat w mod 256"
  by (simp add: unsigned_ucast_eq take_bit_eq_mod)

lemma unat_byte_less: "unat (b :: 8 word) < 256"
  using unsigned_less [of b, where ?'a = nat] by simp

lemma unat_ucast_up: "unat (ucast (b :: 8 word) :: 32 word) = unat b"
  using unat_byte_less [of b] by (simp add: unsigned_ucast_eq take_bit_eq_mod)

end
