(* ===== verification/Memory.thy ===== *)
theory Memory
  imports Prelude
begin

text \<open>
  Memory management of \<open>api.c\<close> and the container macros of \<open>yaml_private.h\<close>: allocation, C strings,
  growing strings, stacks and queues.

  The heap is modelled by what the library can observe of it: whether the next allocations succeed
  (\<open>outcomes\<close>, one entry per call of the allocator; once the list is used up every allocation
  succeeds), and the number of blocks that are allocated and not yet freed (\<open>live\<close>, an integer so
  that freeing too much shows).  Every \<open>malloc\<close>, \<open>realloc\<close> and \<open>free\<close> of the code is mirrored.
\<close>

type_synonym yaml_char = "8 word"
type_synonym ystring = "yaml_char list"

record heap =
  outcomes :: "bool list"
  live :: int

subsection \<open>The allocator\<close>

fun next_outcome :: "heap \<Rightarrow> bool \<times> heap" where
  "next_outcome h = (case outcomes h of [] \<Rightarrow> (True, h) | b # bs \<Rightarrow> (b, h\<lparr>outcomes := bs\<rparr>))"

text \<open>
  The C library's allocator.  A request for 0 bytes may yield NULL by the C standard; the model
  takes that outcome.
\<close>

definition malloc :: "nat \<Rightarrow> (heap, bool) prog" where
  "malloc sz h = (let (granted, h') = next_outcome h in
     if granted \<and> sz \<noteq> 0 then Return True (h'\<lparr>live := live h' + 1\<rparr>) else Return False h')"

definition realloc :: "nat \<Rightarrow> (heap, bool) prog" where
  "realloc sz h = (let (granted, h') = next_outcome h in Return (granted \<and> sz \<noteq> 0) h')"

definition yaml_malloc :: "nat \<Rightarrow> (heap, bool) prog" where
  "yaml_malloc sz = malloc (if sz \<noteq> 0 then sz else 1)"

text \<open>\<open>ptr\<close> says whether the pointer passed in is non-NULL.\<close>

definition yaml_realloc :: "bool \<Rightarrow> nat \<Rightarrow> (heap, bool) prog" where
  "yaml_realloc ptr sz =
     (if ptr then realloc (if sz \<noteq> 0 then sz else 1) else malloc (if sz \<noteq> 0 then sz else 1))"

definition yaml_free :: "bool \<Rightarrow> heap \<Rightarrow> heap" where
  "yaml_free ptr h = (if ptr then h\<lparr>live := live h - 1\<rparr> else h)"

text \<open>
  A \<open>char *\<close> is the byte sequence in memory before the end of its block; what C string
  functions see of it ends at the first NUL.
\<close>

definition c_str :: "ystring \<Rightarrow> ystring" where
  "c_str s = takeWhile (\<lambda>b. b \<noteq> 0) s"

definition strlen :: "ystring \<Rightarrow> nat" where
  "strlen s = length (c_str s)"

definition streq :: "ystring \<Rightarrow> ystring \<Rightarrow> bool" where
  "streq s t \<longleftrightarrow> c_str s = c_str t"

definition yaml_strdup :: "ystring option \<Rightarrow> (heap, ystring option) prog" where
  "yaml_strdup str = (case str of
     None \<Rightarrow> returnM None
   | Some s \<Rightarrow> bindM (malloc (strlen s + 1)) (\<lambda>ok. returnM (if ok then Some (c_str s) else None)))"

lemma wp_malloc [wp_simps]:
  "0 < sz \<Longrightarrow> wp (malloc sz) Q E h =
     (let (ok, h') = next_outcome h in
      if ok then Q True (h'\<lparr>live := live h + 1\<rparr>) else Q False h')"
  by (auto simp: wp_def malloc_def split: list.split)

lemma wp_realloc [wp_simps]:
  "0 < sz \<Longrightarrow> wp (realloc sz) Q E h = (let (ok, h') = next_outcome h in Q ok h')"
  by (auto simp: wp_def realloc_def split: list.split)

lemma live_next_outcome [simp]: "next_outcome h = (ok, h') \<Longrightarrow> live h' = live h"
  by (auto split: list.splits)

lemma next_outcome_Nil [simp]: "outcomes h = [] \<Longrightarrow> next_outcome h = (True, h)"
  by simp

declare next_outcome.simps [simp del]

lemma wp_yaml_malloc:
  assumes "\<And>h'. live h' = live h + 1 \<Longrightarrow> Q True h'"
    and "\<And>h'. live h' = live h \<Longrightarrow> Q False h'"
  shows "wp (yaml_malloc sz) Q E h"
  using assms by (auto simp: yaml_malloc_def wp_simps split: prod.split)

lemma wp_yaml_realloc:
  assumes "\<And>ok h'. live h' = live h + (if ok \<and> \<not> ptr then 1 else 0) \<Longrightarrow> Q ok h'"
  shows "wp (yaml_realloc ptr sz) Q E h"
  using assms by (auto simp: yaml_realloc_def wp_simps split: prod.split)

lemma wp_yaml_strdup:
  assumes "s = None \<Longrightarrow> Q None h"
    and "\<And>t h'. s = Some t \<Longrightarrow> live h' = live h + 1 \<Longrightarrow> Q (Some (c_str t)) h'"
    and "\<And>t h'. s = Some t \<Longrightarrow> live h' = live h \<Longrightarrow> Q None h'"
  shows "wp (yaml_strdup s) Q E h"
  using assms
  by (cases s) (auto simp: yaml_strdup_def wp_simps split: prod.split)

lemma live_yaml_free [simp]: "live (yaml_free ptr h) = live h - (if ptr then 1 else 0)"
  by (simp add: yaml_free_def)

lemma outcomes_yaml_free [simp]: "outcomes (yaml_free ptr h) = outcomes h"
  by (simp add: yaml_free_def)

lemma c_str_idem [simp]: "c_str (c_str s) = c_str s"
  unfolding c_str_def
  by (metis (mono_tags, lifting) set_takeWhileD takeWhile_eq_all_conv)

lemma strlen_le: "strlen s \<le> length s"
  by (simp add: strlen_def c_str_def length_takeWhile_le)

end
