(* ===== verification/Containers.thy ===== *)
theory Containers
  imports Memory
begin

text \<open>
  The growing containers of the library: stacks and queues (\<open>yaml_private.h\<close>, \<open>yaml_stack_extend\<close>
  and \<open>yaml_queue_extend\<close> of \<open>api.c\<close>) and growing strings (\<open>yaml_string_extend\<close>,
  \<open>yaml_string_join\<close>).  A container is given by the part of its block that is in use and by the
  distances between its pointers; a write behind the end of the block is a fault.  The locales
  \<open>lifo\<close> and \<open>fifo\<close> state what the rest of the library relies on: the containers implement lists.
\<close>

definition INT_MAX :: nat where
  "INT_MAX = 2147483647"

subsection \<open>Stacks\<close>

text \<open>
  \<open>elems\<close>: the elements from \<open>start\<close> to \<open>top\<close>, the top last; \<open>cap\<close>: \<open>end - start\<close> in elements;
  \<open>esz\<close>: the size of an element in bytes.  A stack with NULL pointers has \<open>cap = 0\<close>.
\<close>

record 'a ystack =
  elems :: "'a list"
  cap :: nat
  esz :: nat

definition INITIAL_STACK_SIZE :: nat where
  "INITIAL_STACK_SIZE = 16"

definition null_stack :: "nat \<Rightarrow> 'a ystack" where
  "null_stack sz = \<lparr>elems = [], cap = 0, esz = sz\<rparr>"

definition STACK_INIT :: "nat \<Rightarrow> (heap, 'a ystack) prog" where
  "STACK_INIT sz = bindM (yaml_malloc (INITIAL_STACK_SIZE * sz)) (\<lambda>ok.
     if ok then returnM \<lparr>elems = [], cap = INITIAL_STACK_SIZE, esz = sz\<rparr> else errorM id)"

definition STACK_DEL :: "'a ystack \<Rightarrow> heap \<Rightarrow> heap" where
  "STACK_DEL st = yaml_free (cap st \<noteq> 0)"

definition STACK_EMPTY :: "'a ystack \<Rightarrow> bool" where
  "STACK_EMPTY st \<longleftrightarrow> elems st = []"

definition STACK_LIMIT :: "'a ystack \<Rightarrow> nat \<Rightarrow> bool" where
  "STACK_LIMIT st sz \<longleftrightarrow> length (elems st) < sz"

definition yaml_stack_extend :: "('a ystack \<times> heap, unit) prog" where
  "yaml_stack_extend = (\<lambda>(st, h).
     if cap st * esz st \<ge> INT_MAX div 2 then Error (st, h)
     else case yaml_realloc (cap st \<noteq> 0) (cap st * esz st * 2) h of
       Return True h' \<Rightarrow> Return () (st\<lparr>cap := cap st * 2\<rparr>, h')
     | Return False h' \<Rightarrow> Error (st, h')
     | _ \<Rightarrow> Fault)"

text \<open>\<open>*top++ = value\<close> is a fault where \<open>top\<close> is not below \<open>end\<close>.\<close>

definition store_top :: "'a \<Rightarrow> ('a ystack \<times> heap, unit) prog" where
  "store_top v = (\<lambda>(st, h).
     if length (elems st) < cap st then Return () (st\<lparr>elems := elems st @ [v]\<rparr>, h) else Fault)"

definition PUSH :: "'a \<Rightarrow> ('a ystack \<times> heap, unit) prog" where
  "PUSH v = (\<lambda>(st, h).
     if length (elems st) \<noteq> cap st then store_top v (st, h)
     else seqM yaml_stack_extend (store_top v) (st, h))"

definition POP :: "('a ystack, 'a) prog" where
  "POP st = (if elems st = [] then Fault
     else Return (last (elems st)) (st\<lparr>elems := butlast (elems st)\<rparr>))"

definition stack_ok :: "'a ystack \<Rightarrow> bool" where
  "stack_ok st \<longleftrightarrow> 0 < cap st \<and> length (elems st) \<le> cap st"

lemma live_STACK_DEL [simp]: "live (STACK_DEL st h) = live h - (if cap st = 0 then 0 else 1)"
  by (simp add: STACK_DEL_def)

lemma wp_STACK_INIT:
  assumes "\<And>st h'. stack_ok st \<Longrightarrow> elems st = [] \<Longrightarrow> cap st = 16 \<Longrightarrow> live h' = live h + 1 \<Longrightarrow> Q st h'"
    and "\<And>h'. live h' = live h \<Longrightarrow> E h'"
  shows "wp (STACK_INIT sz) Q E h"
  unfolding STACK_INIT_def wp_bindM
  by (rule wp_yaml_malloc) (use assms in \<open>auto simp: wp_simps stack_ok_def INITIAL_STACK_SIZE_def\<close>)

lemma wp_yaml_stack_extend:
  assumes "0 < cap st"
    and "\<And>h'. live h' = live h \<Longrightarrow> Q () (st\<lparr>cap := cap st * 2\<rparr>, h')"
    and "\<And>h'. live h' = live h \<Longrightarrow> E (st, h')"
  shows "wp yaml_stack_extend Q E (st, h)"
  using assms
  by (auto simp: wp_def yaml_stack_extend_def yaml_realloc_def realloc_def Let_def
      split: prod.splits result.splits bool.splits)

lemma wp_PUSH:
  assumes "stack_ok st"
    and ok: "\<And>st' h'. stack_ok st' \<Longrightarrow> elems st' = elems st @ [v] \<Longrightarrow> live h' = live h
      \<Longrightarrow> esz st' = esz st \<Longrightarrow> Q () (st', h')"
    and err: "\<And>h'. live h' = live h \<Longrightarrow> E (st, h')"
  shows "wp (PUSH v) Q E (st, h)"
proof (cases "length (elems st) = cap st")
  case True
  have "wp (seqM yaml_stack_extend (store_top v)) Q E (st, h)"
    unfolding wp_seqM by (rule wp_yaml_stack_extend)
      (use assms True in \<open>auto simp: stack_ok_def store_top_def wp_def\<close>)
  with True show ?thesis by (simp add: PUSH_def wp_def)
next
  case False
  with assms show ?thesis by (auto simp: PUSH_def store_top_def wp_def stack_ok_def)
qed

lemma wp_POP:
  assumes "stack_ok st" "elems st = xs @ [x]"
    and "\<And>st'. stack_ok st' \<Longrightarrow> elems st' = xs \<Longrightarrow> esz st' = esz st \<Longrightarrow> Q x st'"
  shows "wp POP Q E st"
  using assms by (auto simp: POP_def wp_def stack_ok_def)

text \<open>A push can only fail where the allocator refuses or the block has reached its size limit.\<close>

lemma PUSH_succeeds:
  assumes "stack_ok st" "outcomes h = []" "cap st * esz st < INT_MAX div 2" "0 < esz st"
  shows "\<exists>st' h'. PUSH v (st, h) = Return () (st', h') \<and> elems st' = elems st @ [v]"
  using assms
  by (auto simp: PUSH_def seqM_def bindM_def yaml_stack_extend_def yaml_realloc_def realloc_def
      store_top_def stack_ok_def)

subsection \<open>The stack interface\<close>

locale lifo =
  fixes push :: "'a \<Rightarrow> ('c \<times> heap, unit) prog"
    and pop :: "('c, 'a) prog"
    and is_empty :: "'c \<Rightarrow> bool"
    and list_of :: "'c \<Rightarrow> 'a list"
    and invar :: "'c \<Rightarrow> bool"
  assumes push_spec: "invar c \<Longrightarrow>
      wp (push x) (\<lambda>_ (c', h'). invar c' \<and> list_of c' = list_of c @ [x] \<and> live h' = live h)
        (\<lambda>(c', h'). c' = c \<and> live h' = live h) (c, h)"
    and pop_spec: "invar c \<Longrightarrow> list_of c \<noteq> [] \<Longrightarrow>
      wp pop (\<lambda>x c'. invar c' \<and> list_of c = list_of c' @ [x]) (\<lambda>_. False) c"
    and empty_spec: "invar c \<Longrightarrow> is_empty c = (list_of c = [])"
begin

lemma push_pop:
  assumes "invar c" "push x (c, h) = Return () (c', h')"
  shows "\<exists>c''. pop c' = Return x c'' \<and> invar c'' \<and> list_of c'' = list_of c"
proof -
  have c': "invar c'" "list_of c' = list_of c @ [x]"
    using wp_Return [OF push_spec [OF assms(1), of x h] assms(2)] by simp_all
  then have "wp pop (\<lambda>y c''. invar c'' \<and> list_of c' = list_of c'' @ [y]) (\<lambda>_. False) c'"
    by (intro pop_spec) simp_all
  with c' show ?thesis by (auto simp: wp_def split: result.splits)
qed

lemma push_not_empty:
  assumes "invar c" "push x (c, h) = Return () (c', h')"
  shows "\<not> is_empty c'"
  using wp_Return [OF push_spec [OF assms(1), of x h] assms(2)] by (simp add: empty_spec)

lemma push_keeps_on_error:
  assumes "invar c" "push x (c, h) = Error (c', h')"
  shows "c' = c \<and> live h' = live h"
  using wp_Error [OF push_spec [OF assms(1), of x h] assms(2)] by simp

end

interpretation ystk: lifo PUSH POP STACK_EMPTY elems stack_ok
proof
  fix c :: "'a ystack" and x h
  assume "stack_ok c"
  then show "wp (PUSH x) (\<lambda>_ (c', h'). stack_ok c' \<and> elems c' = elems c @ [x] \<and> live h' = live h)
      (\<lambda>(c', h'). c' = c \<and> live h' = live h) (c, h)"
    by (rule wp_PUSH) simp_all
next
  fix c :: "'a ystack"
  assume "stack_ok c" "elems c \<noteq> []"
  then show "wp POP (\<lambda>x c'. stack_ok c' \<and> elems c = elems c' @ [x]) (\<lambda>_. False) c"
    by (intro wp_POP [where xs = "butlast (elems c)" and x = "last (elems c)"]) simp_all
qed (simp add: STACK_EMPTY_def)

subsection \<open>Queues\<close>

text \<open>
  \<open>front\<close>: \<open>head - start\<close>; \<open>items\<close>: the elements from \<open>head\<close> to \<open>tail\<close>; \<open>qcap\<close>: \<open>end - start\<close>.
\<close>

record 'a yqueue =
  front :: nat
  items :: "'a list"
  qcap :: nat
  qesz :: nat

definition QUEUE_INIT :: "nat \<Rightarrow> nat \<Rightarrow> (heap, 'a yqueue) prog" where
  "QUEUE_INIT n sz = bindM (yaml_malloc (n * sz)) (\<lambda>ok.
     if ok then returnM \<lparr>front = 0, items = [], qcap = n, qesz = sz\<rparr> else errorM id)"

definition QUEUE_DEL :: "'a yqueue \<Rightarrow> heap \<Rightarrow> heap" where
  "QUEUE_DEL q = yaml_free (qcap q \<noteq> 0)"

definition QUEUE_EMPTY :: "'a yqueue \<Rightarrow> bool" where
  "QUEUE_EMPTY q \<longleftrightarrow> items q = []"

definition tail_pos :: "'a yqueue \<Rightarrow> nat" where
  "tail_pos q = front q + length (items q)"

text \<open>The second half of \<open>yaml_queue_extend\<close>: move the queue to the beginning of its block.\<close>

definition queue_move :: "'a yqueue \<Rightarrow> 'a yqueue" where
  "queue_move q = (if tail_pos q = qcap q then q\<lparr>front := 0\<rparr> else q)"

definition yaml_queue_extend :: "('a yqueue \<times> heap, unit) prog" where
  "yaml_queue_extend = (\<lambda>(q, h).
     if front q = 0 \<and> tail_pos q = qcap q then
       case yaml_realloc (qcap q \<noteq> 0) (qcap q * qesz q * 2) h of
         Return True h' \<Rightarrow> Return () (queue_move (q\<lparr>qcap := qcap q * 2\<rparr>), h')
       | Return False h' \<Rightarrow> Error (q, h')
       | _ \<Rightarrow> Fault
     else Return () (queue_move q, h))"

text \<open>Insert at position \<open>i\<close> from the head: \<open>memmove\<close> of the rest, the store, \<open>tail++\<close>.\<close>

definition store_at :: "nat \<Rightarrow> 'a \<Rightarrow> ('a yqueue \<times> heap, unit) prog" where
  "store_at i v = (\<lambda>(q, h).
     if tail_pos q < qcap q \<and> i \<le> length (items q)
     then Return () (q\<lparr>items := take i (items q) @ v # drop i (items q)\<rparr>, h)
     else Fault)"

definition QUEUE_INSERT :: "nat \<Rightarrow> 'a \<Rightarrow> ('a yqueue \<times> heap, unit) prog" where
  "QUEUE_INSERT i v = (\<lambda>(q, h).
     if tail_pos q \<noteq> qcap q then store_at i v (q, h)
     else seqM yaml_queue_extend (store_at i v) (q, h))"

definition store_tail :: "'a \<Rightarrow> ('a yqueue \<times> heap, unit) prog" where
  "store_tail v = (\<lambda>(q, h).
     if tail_pos q < qcap q then Return () (q\<lparr>items := items q @ [v]\<rparr>, h) else Fault)"

definition ENQUEUE :: "'a \<Rightarrow> ('a yqueue \<times> heap, unit) prog" where
  "ENQUEUE v = (\<lambda>(q, h).
     if tail_pos q \<noteq> qcap q then store_tail v (q, h)
     else seqM yaml_queue_extend (store_tail v) (q, h))"

definition DEQUEUE :: "('a yqueue, 'a) prog" where
  "DEQUEUE q = (case items q of [] \<Rightarrow> Fault
     | x # xs \<Rightarrow> Return x (q\<lparr>front := front q + 1, items := xs\<rparr>))"

definition queue_ok :: "'a yqueue \<Rightarrow> bool" where
  "queue_ok q \<longleftrightarrow> 0 < qcap q \<and> tail_pos q \<le> qcap q"

lemma wp_yaml_queue_extend:
  assumes "queue_ok q" "tail_pos q = qcap q"
    and "\<And>q' h'. queue_ok q' \<Longrightarrow> tail_pos q' < qcap q' \<Longrightarrow> items q' = items q \<Longrightarrow> live h' = live h
      \<Longrightarrow> Q () (q', h')"
    and "\<And>h'. live h' = live h \<Longrightarrow> E (q, h')"
  shows "wp yaml_queue_extend Q E (q, h)"
  using assms
  by (auto simp: wp_def yaml_queue_extend_def yaml_realloc_def realloc_def Let_def queue_move_def
      queue_ok_def tail_pos_def split: prod.splits result.splits bool.splits)

lemma wp_queue_grow:
  assumes "queue_ok q"
    and store: "\<And>q' h'. queue_ok q' \<Longrightarrow> tail_pos q' < qcap q' \<Longrightarrow> items q' = items q \<Longrightarrow> live h' = live h
      \<Longrightarrow> wp m Q E (q', h')"
    and err: "\<And>h'. live h' = live h \<Longrightarrow> E (q, h')"
  shows "wp (\<lambda>(q, h). if tail_pos q \<noteq> qcap q then m (q, h) else seqM yaml_queue_extend m (q, h)) Q E (q, h)"
proof (cases "tail_pos q = qcap q")
  case True
  have "wp (seqM yaml_queue_extend m) Q E (q, h)"
    unfolding wp_seqM by (rule wp_yaml_queue_extend [OF assms(1) True]) (use store err in auto)
  with True show ?thesis by (simp add: wp_def)
next
  case False
  with assms(1) have "wp m Q E (q, h)" by (intro store) (auto simp: queue_ok_def)
  with False show ?thesis by (simp add: wp_def)
qed

lemma wp_ENQUEUE:
  assumes "queue_ok q"
    and "\<And>q' h'. queue_ok q' \<Longrightarrow> items q' = items q @ [v] \<Longrightarrow> live h' = live h \<Longrightarrow> Q () (q', h')"
    and "\<And>h'. live h' = live h \<Longrightarrow> E (q, h')"
  shows "wp (ENQUEUE v) Q E (q, h)"
  unfolding ENQUEUE_def
  by (rule wp_queue_grow [OF assms(1)])
    (use assms(2,3) in \<open>auto simp: wp_def store_tail_def queue_ok_def tail_pos_def\<close>)

lemma wp_QUEUE_INSERT:
  assumes "queue_ok q" "i \<le> length (items q)"
    and "\<And>q' h'. queue_ok q' \<Longrightarrow> items q' = take i (items q) @ v # drop i (items q)
      \<Longrightarrow> live h' = live h \<Longrightarrow> Q () (q', h')"
    and "\<And>h'. live h' = live h \<Longrightarrow> E (q, h')"
  shows "wp (QUEUE_INSERT i v) Q E (q, h)"
  unfolding QUEUE_INSERT_def
  by (rule wp_queue_grow [OF assms(1)])
    (use assms(2-) in \<open>auto simp: wp_def store_at_def queue_ok_def tail_pos_def\<close>)

lemma wp_DEQUEUE:
  assumes "queue_ok q" "items q = x # xs"
    and "\<And>q'. queue_ok q' \<Longrightarrow> items q' = xs \<Longrightarrow> Q x q'"
  shows "wp DEQUEUE Q E q"
  using assms by (auto simp: DEQUEUE_def wp_def queue_ok_def tail_pos_def)

subsection \<open>The queue interface\<close>

locale fifo =
  fixes enqueue :: "'a \<Rightarrow> ('c \<times> heap, unit) prog"
    and insert_at :: "nat \<Rightarrow> 'a \<Rightarrow> ('c \<times> heap, unit) prog"
    and dequeue :: "('c, 'a) prog"
    and list_of :: "'c \<Rightarrow> 'a list"
    and invar :: "'c \<Rightarrow> bool"
  assumes enqueue_spec: "invar c \<Longrightarrow>
      wp (enqueue x) (\<lambda>_ (c', h'). invar c' \<and> list_of c' = list_of c @ [x] \<and> live h' = live h)
        (\<lambda>(c', h'). c' = c \<and> live h' = live h) (c, h)"
    and insert_spec: "invar c \<Longrightarrow> i \<le> length (list_of c) \<Longrightarrow>
      wp (insert_at i x)
        (\<lambda>_ (c', h'). invar c' \<and> list_of c' = take i (list_of c) @ x # drop i (list_of c) \<and> live h' = live h)
        (\<lambda>(c', h'). c' = c \<and> live h' = live h) (c, h)"
    and dequeue_spec: "invar c \<Longrightarrow> list_of c = x # xs \<Longrightarrow>
      wp dequeue (\<lambda>y c'. y = x \<and> invar c' \<and> list_of c' = xs) (\<lambda>_. False) c"
begin

text \<open>Elements leave in the order in which they were entered.\<close>

lemma enqueue_dequeue:
  assumes "invar c" "list_of c = y # ys" "enqueue x (c, h) = Return () (c', h')"
  shows "\<exists>c''. dequeue c' = Return y c'' \<and> invar c'' \<and> list_of c'' = ys @ [x]"
proof -
  have c': "invar c'" "list_of c' = y # ys @ [x]"
    using wp_Return [OF enqueue_spec [OF assms(1), of x h] assms(3)] assms(2) by simp_all
  from dequeue_spec [OF this] show ?thesis by (auto simp: wp_def split: result.splits)
qed

text \<open>Inserting at the end is enqueueing; an insertion does not reorder the other elements.\<close>

lemma insert_remove:
  assumes "invar c" "i \<le> length (list_of c)" "insert_at i x (c, h) = Return () (c', h')"
  shows "list_of c' ! i = x \<and> take i (list_of c') @ drop (Suc i) (list_of c') = list_of c"
  using wp_Return [OF insert_spec [OF assms(1,2), of x h] assms(3)] assms(2)
  by (simp add: nth_append)

end

interpretation yq: fifo ENQUEUE QUEUE_INSERT DEQUEUE items queue_ok
proof
  fix c :: "'a yqueue" and x h
  assume "queue_ok c"
  then show "wp (ENQUEUE x) (\<lambda>_ (c', h'). queue_ok c' \<and> items c' = items c @ [x] \<and> live h' = live h)
      (\<lambda>(c', h'). c' = c \<and> live h' = live h) (c, h)"
    by (rule wp_ENQUEUE) simp_all
next
  fix c :: "'a yqueue" and i x h
  assume "queue_ok c" "i \<le> length (items c)"
  then show "wp (QUEUE_INSERT i x)
      (\<lambda>_ (c', h'). queue_ok c' \<and> items c' = take i (items c) @ x # drop i (items c) \<and> live h' = live h)
      (\<lambda>(c', h'). c' = c \<and> live h' = live h) (c, h)"
    by (rule wp_QUEUE_INSERT) simp_all
next
  fix c :: "'a yqueue" and x xs
  assume "queue_ok c" "items c = x # xs"
  then show "wp DEQUEUE (\<lambda>y c'. y = x \<and> queue_ok c' \<and> items c' = xs) (\<lambda>_. False) c"
    by (rule wp_DEQUEUE) simp_all
qed

subsection \<open>Growing strings\<close>

text \<open>
  \<open>sbytes\<close>: the whole block from \<open>start\<close> to \<open>end\<close>; \<open>spos\<close>: \<open>pointer - start\<close>.  The bytes from
  \<open>pointer\<close> on are kept 0, so that the contents are always a terminated C string.
\<close>

record ystr =
  sbytes :: ystring
  spos :: nat

definition str_contents :: "ystr \<Rightarrow> ystring" where
  "str_contents s = take (spos s) (sbytes s)"

definition STRING_INIT :: "nat \<Rightarrow> (heap, ystr) prog" where
  "STRING_INIT n = bindM (yaml_malloc n) (\<lambda>ok.
     if ok then returnM \<lparr>sbytes = replicate n 0, spos = 0\<rparr> else errorM id)"

definition yaml_string_extend :: "(ystr \<times> heap, unit) prog" where
  "yaml_string_extend = (\<lambda>(s, h).
     case yaml_realloc (sbytes s \<noteq> []) (length (sbytes s) * 2) h of
       Return True h' \<Rightarrow> Return () (s\<lparr>sbytes := sbytes s @ replicate (length (sbytes s)) 0\<rparr>, h')
     | Return False h' \<Rightarrow> Error (s, h')
     | _ \<Rightarrow> Fault)"

definition STRING_EXTEND :: "(ystr \<times> heap, unit) prog" where
  "STRING_EXTEND = (\<lambda>(s, h).
     if spos s + 5 < length (sbytes s) then Return () (s, h) else yaml_string_extend (s, h))"

definition str_free_space :: "ystr \<Rightarrow> nat" where
  "str_free_space s = length (sbytes s) - spos s"

text \<open>\<open>memcpy\<close> to \<open>pointer\<close>, which is then advanced.\<close>

definition str_append :: "ystring \<Rightarrow> (ystr \<times> heap, unit) prog" where
  "str_append bs = (\<lambda>(s, h).
     if spos s + length bs \<le> length (sbytes s)
     then Return () (\<lparr>sbytes = take (spos s) (sbytes s) @ bs @ drop (spos s + length bs) (sbytes s),
                      spos = spos s + length bs\<rparr>, h)
     else Fault)"

text \<open>Every round doubles the block, so \<open>length bs + 1\<close> rounds make room for \<open>bs\<close>.\<close>

definition yaml_string_join :: "ystr \<Rightarrow> (ystr \<times> heap, unit) prog" where
  "yaml_string_join b = (let bs = str_contents b in
     if bs = [] then returnM ()
     else seqM (whileM (length bs + 1) (\<lambda>(a, h). str_free_space a \<le> length bs) yaml_string_extend)
       (str_append bs))"

definition str_ok :: "ystr \<Rightarrow> bool" where
  "str_ok s \<longleftrightarrow> spos s < length (sbytes s) \<and> (\<forall>i. spos s \<le> i \<and> i < length (sbytes s) \<longrightarrow> sbytes s ! i = 0)"

lemma wp_yaml_string_extend:
  assumes "str_ok s"
    and "\<And>s' h'. str_ok s' \<Longrightarrow> str_contents s' = str_contents s \<Longrightarrow> spos s' = spos s
      \<Longrightarrow> length (sbytes s') = 2 * length (sbytes s) \<Longrightarrow> live h' = live h \<Longrightarrow> Q () (s', h')"
    and "\<And>h'. live h' = live h \<Longrightarrow> E (s, h')"
  shows "wp yaml_string_extend Q E (s, h)"
proof -
  let ?s' = "s\<lparr>sbytes := sbytes s @ replicate (length (sbytes s)) 0\<rparr>"
  have "str_ok ?s'" "str_contents ?s' = str_contents s" "sbytes s \<noteq> []"
    using assms(1) by (auto simp: str_ok_def str_contents_def nth_append)
  with assms(2,3) show ?thesis
    by (auto simp: wp_def yaml_string_extend_def yaml_realloc_def realloc_def Let_def
        split: prod.splits result.splits bool.splits)
qed

lemma wp_STRING_EXTEND:
  assumes "str_ok s"
    and "\<And>s' h'. str_ok s' \<Longrightarrow> str_contents s' = str_contents s \<Longrightarrow> spos s' = spos s
      \<Longrightarrow> (16 \<le> length (sbytes s) \<longrightarrow> spos s' + 5 < length (sbytes s')) \<Longrightarrow> live h' = live h \<Longrightarrow> Q () (s', h')"
    and "\<And>h'. live h' = live h \<Longrightarrow> E (s, h')"
  shows "wp STRING_EXTEND Q E (s, h)"
proof (cases "spos s + 5 < length (sbytes s)")
  case True
  with assms show ?thesis by (auto simp: STRING_EXTEND_def wp_def)
next
  case False
  have "wp yaml_string_extend Q E (s, h)"
    by (rule wp_yaml_string_extend [OF assms(1)]) (use assms in \<open>auto simp: str_ok_def\<close>)
  with False show ?thesis by (simp add: STRING_EXTEND_def wp_def)
qed

lemma str_append_ok:
  assumes "str_ok s" "length bs < str_free_space s"
  shows "\<exists>s'. str_append bs (s, h) = Return () (s', h) \<and> str_ok s'
    \<and> str_contents s' = str_contents s @ bs"
  using assms
  by (auto simp: str_append_def str_ok_def str_contents_def str_free_space_def nth_append)

lemma wp_yaml_string_join:
  assumes "str_ok a"
    and Q: "\<And>a' h'. str_ok a' \<Longrightarrow> str_contents a' = str_contents a @ str_contents b
      \<Longrightarrow> live h' = live h \<Longrightarrow> Q () (a', h')"
    and E: "\<And>a' h'. str_ok a' \<Longrightarrow> str_contents a' = str_contents a \<Longrightarrow> live h' = live h \<Longrightarrow> E (a', h')"
  shows "wp (yaml_string_join b) Q E (a, h)"
proof (cases "str_contents b = []")
  case True
  with assms show ?thesis by (simp add: yaml_string_join_def wp_simps)
next
  case False
  let ?bs = "str_contents b"
  let ?I = "\<lambda>(a', h'). str_ok a' \<and> str_contents a' = str_contents a \<and> live h' = live h"
  let ?\<mu> = "\<lambda>(a', h' :: heap). Suc (length ?bs) - str_free_space a'"
  have "wp (whileM (length ?bs + 1) (\<lambda>(a, h). str_free_space a \<le> length ?bs) yaml_string_extend)
      (\<lambda>_. wp (str_append ?bs) Q E) E (a, h)"
  proof (rule wp_whileM [where I = ?I and \<mu> = ?\<mu>])
    fix s :: "ystr \<times> heap"
    assume "?I s" and "(\<lambda>(a, h). str_free_space a \<le> length ?bs) s"
    then show "wp yaml_string_extend (\<lambda>_ s'. ?I s' \<and> ?\<mu> s' < ?\<mu> s) E s"
      by (cases s) (auto intro!: wp_yaml_string_extend E simp: str_ok_def str_free_space_def)
  next
    fix s :: "ystr \<times> heap"
    assume I: "?I s" and "\<not> (\<lambda>(a, h). str_free_space a \<le> length ?bs) s"
    then obtain a' h' where s: "s = (a', h')" "str_ok a'" "length ?bs < str_free_space a'" "?I (a', h')"
      by (cases s) auto
    from str_append_ok [OF s(2,3), of h'] s(4) show "wp (str_append ?bs) Q E s"
      by (auto simp: wp_def s(1) intro!: Q)
  qed (use assms(1) in auto)
  with False show ?thesis by (simp add: yaml_string_join_def Let_def wp_simps)
qed

text \<open>The contents of a growing string are always NUL-terminated inside its block.\<close>

lemma str_ok_terminated: "str_ok s \<Longrightarrow> sbytes s ! spos s = 0 \<and> spos s < length (sbytes s)"
  by (auto simp: str_ok_def)

end
