(* ===== verification/Types.thy ===== *)
theory Types
  imports Containers
begin

text \<open>
  The data types of \<open>yaml.h\<close>: marks, directives, styles, tokens, events, nodes, documents, and the
  parser and emitter structures.  A tagged union is a datatype with one constructor per tag, and
  the \<open>type\<close> field of the C structure is a function of it.  A pointer that may be NULL is an
  option.  The parser structure is layered (reader, scanner, parser) in the order in which
  \<open>yaml.h\<close> groups its fields, so that the functions of each layer are polymorphic in the layers
  above it.
\<close>

subsection \<open>Basic types\<close>

datatype yaml_encoding =
  YAML_ANY_ENCODING | YAML_UTF8_ENCODING | YAML_UTF16LE_ENCODING | YAML_UTF16BE_ENCODING

datatype yaml_break = YAML_ANY_BREAK | YAML_CR_BREAK | YAML_LN_BREAK | YAML_CRLN_BREAK

datatype yaml_error_type =
  YAML_NO_ERROR | YAML_MEMORY_ERROR | YAML_READER_ERROR | YAML_SCANNER_ERROR | YAML_PARSER_ERROR
| YAML_COMPOSER_ERROR | YAML_WRITER_ERROR | YAML_EMITTER_ERROR

record yaml_mark =
  mark_index :: nat
  mark_line :: nat
  mark_column :: nat

definition null_mark :: yaml_mark where
  "null_mark = \<lparr>mark_index = 0, mark_line = 0, mark_column = 0\<rparr>"

record yaml_version_directive =
  vd_major :: int
  vd_minor :: int

record yaml_tag_directive =
  td_handle :: ystring
  td_prefix :: ystring

datatype yaml_scalar_style =
  YAML_ANY_SCALAR_STYLE | YAML_PLAIN_SCALAR_STYLE | YAML_SINGLE_QUOTED_SCALAR_STYLE
| YAML_DOUBLE_QUOTED_SCALAR_STYLE | YAML_LITERAL_SCALAR_STYLE | YAML_FOLDED_SCALAR_STYLE

datatype yaml_sequence_style =
  YAML_ANY_SEQUENCE_STYLE | YAML_BLOCK_SEQUENCE_STYLE | YAML_FLOW_SEQUENCE_STYLE

datatype yaml_mapping_style =
  YAML_ANY_MAPPING_STYLE | YAML_BLOCK_MAPPING_STYLE | YAML_FLOW_MAPPING_STYLE

subsection \<open>Tokens\<close>

datatype yaml_token_type =
  YAML_NO_TOKEN | YAML_STREAM_START_TOKEN | YAML_STREAM_END_TOKEN | YAML_VERSION_DIRECTIVE_TOKEN
| YAML_TAG_DIRECTIVE_TOKEN | YAML_DOCUMENT_START_TOKEN | YAML_DOCUMENT_END_TOKEN
| YAML_BLOCK_SEQUENCE_START_TOKEN | YAML_BLOCK_MAPPING_START_TOKEN | YAML_BLOCK_END_TOKEN
| YAML_FLOW_SEQUENCE_START_TOKEN | YAML_FLOW_SEQUENCE_END_TOKEN | YAML_FLOW_MAPPING_START_TOKEN
| YAML_FLOW_MAPPING_END_TOKEN | YAML_BLOCK_ENTRY_TOKEN | YAML_FLOW_ENTRY_TOKEN | YAML_KEY_TOKEN
| YAML_VALUE_TOKEN | YAML_ALIAS_TOKEN | YAML_ANCHOR_TOKEN | YAML_TAG_TOKEN | YAML_SCALAR_TOKEN

datatype yaml_token_data =
  NoToken
| StreamStartToken yaml_encoding
| StreamEndToken
| VersionDirectiveToken int int
| TagDirectiveToken ystring ystring
| DocumentStartToken
| DocumentEndToken
| BlockSequenceStartToken
| BlockMappingStartToken
| BlockEndToken
| FlowSequenceStartToken
| FlowSequenceEndToken
| FlowMappingStartToken
| FlowMappingEndToken
| BlockEntryToken
| FlowEntryToken
| KeyToken
| ValueToken
| AliasToken ystring
| AnchorToken ystring
| TagToken ystring ystring
| ScalarToken ystring yaml_scalar_style

record yaml_token =
  t_data :: yaml_token_data
  t_start_mark :: yaml_mark
  t_end_mark :: yaml_mark

fun token_data_type :: "yaml_token_data \<Rightarrow> yaml_token_type" where
  "token_data_type NoToken = YAML_NO_TOKEN"
| "token_data_type (StreamStartToken _) = YAML_STREAM_START_TOKEN"
| "token_data_type StreamEndToken = YAML_STREAM_END_TOKEN"
| "token_data_type (VersionDirectiveToken _ _) = YAML_VERSION_DIRECTIVE_TOKEN"
| "token_data_type (TagDirectiveToken _ _) = YAML_TAG_DIRECTIVE_TOKEN"
| "token_data_type DocumentStartToken = YAML_DOCUMENT_START_TOKEN"
| "token_data_type DocumentEndToken = YAML_DOCUMENT_END_TOKEN"
| "token_data_type BlockSequenceStartToken = YAML_BLOCK_SEQUENCE_START_TOKEN"
| "token_data_type BlockMappingStartToken = YAML_BLOCK_MAPPING_START_TOKEN"
| "token_data_type BlockEndToken = YAML_BLOCK_END_TOKEN"
| "token_data_type FlowSequenceStartToken = YAML_FLOW_SEQUENCE_START_TOKEN"
| "token_data_type FlowSequenceEndToken = YAML_FLOW_SEQUENCE_END_TOKEN"
| "token_data_type FlowMappingStartToken = YAML_FLOW_MAPPING_START_TOKEN"
| "token_data_type FlowMappingEndToken = YAML_FLOW_MAPPING_END_TOKEN"
| "token_data_type BlockEntryToken = YAML_BLOCK_ENTRY_TOKEN"
| "token_data_type FlowEntryToken = YAML_FLOW_ENTRY_TOKEN"
| "token_data_type KeyToken = YAML_KEY_TOKEN"
| "token_data_type ValueToken = YAML_VALUE_TOKEN"
| "token_data_type (AliasToken _) = YAML_ALIAS_TOKEN"
| "token_data_type (AnchorToken _) = YAML_ANCHOR_TOKEN"
| "token_data_type (TagToken _ _) = YAML_TAG_TOKEN"
| "token_data_type (ScalarToken _ _) = YAML_SCALAR_TOKEN"

definition t_type :: "yaml_token \<Rightarrow> yaml_token_type" where
  "t_type t = token_data_type (t_data t)"

subsection \<open>Events\<close>

datatype yaml_event_type =
  YAML_NO_EVENT | YAML_STREAM_START_EVENT | YAML_STREAM_END_EVENT | YAML_DOCUMENT_START_EVENT
| YAML_DOCUMENT_END_EVENT | YAML_ALIAS_EVENT | YAML_SCALAR_EVENT | YAML_SEQUENCE_START_EVENT
| YAML_SEQUENCE_END_EVENT | YAML_MAPPING_START_EVENT | YAML_MAPPING_END_EVENT

datatype yaml_event_data =
  NoEvent
| StreamStartEvent yaml_encoding
| StreamEndEvent
| DocumentStartEvent "yaml_version_directive option" "yaml_tag_directive list" bool
| DocumentEndEvent bool
| AliasEvent ystring
| ScalarEvent "ystring option" "ystring option" ystring bool bool yaml_scalar_style
| SequenceStartEvent "ystring option" "ystring option" bool yaml_sequence_style
| SequenceEndEvent
| MappingStartEvent "ystring option" "ystring option" bool yaml_mapping_style
| MappingEndEvent

record yaml_event =
  ev_data :: yaml_event_data
  ev_start_mark :: yaml_mark
  ev_end_mark :: yaml_mark

fun event_data_type :: "yaml_event_data \<Rightarrow> yaml_event_type" where
  "event_data_type NoEvent = YAML_NO_EVENT"
| "event_data_type (StreamStartEvent _) = YAML_STREAM_START_EVENT"
| "event_data_type StreamEndEvent = YAML_STREAM_END_EVENT"
| "event_data_type (DocumentStartEvent _ _ _) = YAML_DOCUMENT_START_EVENT"
| "event_data_type (DocumentEndEvent _) = YAML_DOCUMENT_END_EVENT"
| "event_data_type (AliasEvent _) = YAML_ALIAS_EVENT"
| "event_data_type (ScalarEvent _ _ _ _ _ _) = YAML_SCALAR_EVENT"
| "event_data_type (SequenceStartEvent _ _ _ _) = YAML_SEQUENCE_START_EVENT"
| "event_data_type SequenceEndEvent = YAML_SEQUENCE_END_EVENT"
| "event_data_type (MappingStartEvent _ _ _ _) = YAML_MAPPING_START_EVENT"
| "event_data_type MappingEndEvent = YAML_MAPPING_END_EVENT"

definition ev_type :: "yaml_event \<Rightarrow> yaml_event_type" where
  "ev_type e = event_data_type (ev_data e)"

text \<open>\<open>EVENT_INIT\<close> and its variants; \<open>memset(event, 0, sizeof(yaml_event_t))\<close>.\<close>

definition EVENT_INIT :: "yaml_event_data \<Rightarrow> yaml_mark \<Rightarrow> yaml_mark \<Rightarrow> yaml_event" where
  "EVENT_INIT d m n = \<lparr>ev_data = d, ev_start_mark = m, ev_end_mark = n\<rparr>"

definition null_event :: yaml_event where
  "null_event = EVENT_INIT NoEvent null_mark null_mark"

subsection \<open>Nodes and documents\<close>

datatype yaml_node_type = YAML_NO_NODE | YAML_SCALAR_NODE | YAML_SEQUENCE_NODE | YAML_MAPPING_NODE

type_synonym yaml_node_item = int

record yaml_node_pair =
  np_key :: int
  np_value :: int

datatype yaml_node_data =
  ScalarNode ystring yaml_scalar_style
| SequenceNode "yaml_node_item ystack" yaml_sequence_style
| MappingNode "yaml_node_pair ystack" yaml_mapping_style

record yaml_node =
  n_tag :: ystring
  n_data :: yaml_node_data
  n_start_mark :: yaml_mark
  n_end_mark :: yaml_mark

fun node_data_type :: "yaml_node_data \<Rightarrow> yaml_node_type" where
  "node_data_type (ScalarNode _ _) = YAML_SCALAR_NODE"
| "node_data_type (SequenceNode _ _) = YAML_SEQUENCE_NODE"
| "node_data_type (MappingNode _ _) = YAML_MAPPING_NODE"

definition n_type :: "yaml_node \<Rightarrow> yaml_node_type" where
  "n_type n = node_data_type (n_data n)"

record yaml_document =
  d_nodes :: "yaml_node ystack"
  d_version_directive :: "yaml_version_directive option"
  d_tag_directives :: "yaml_tag_directive list"
  d_start_implicit :: bool
  d_end_implicit :: bool
  d_start_mark :: yaml_mark
  d_end_mark :: yaml_mark

subsection \<open>Sizes of the container elements (LP64)\<close>

definition sizeof_int :: nat where "sizeof_int = 4"
definition sizeof_mark :: nat where "sizeof_mark = 24"
definition sizeof_tag_directive :: nat where "sizeof_tag_directive = 16"
definition sizeof_simple_key :: nat where "sizeof_simple_key = 40"
definition sizeof_token :: nat where "sizeof_token = 80"
definition sizeof_event :: nat where "sizeof_event = 104"
definition sizeof_node :: nat where "sizeof_node = 96"
definition sizeof_node_pair :: nat where "sizeof_node_pair = 8"
definition sizeof_alias_data :: nat where "sizeof_alias_data = 40"

lemmas sizeof_defs = sizeof_int_def sizeof_mark_def sizeof_tag_directive_def sizeof_simple_key_def
  sizeof_token_def sizeof_event_def sizeof_node_def sizeof_node_pair_def sizeof_alias_data_def

definition null_document :: yaml_document where
  "null_document = \<lparr>d_nodes = null_stack sizeof_node, d_version_directive = None, d_tag_directives = [],
     d_start_implicit = False, d_end_implicit = False, d_start_mark = null_mark, d_end_mark = null_mark\<rparr>"

subsection \<open>Buffers\<close>

text \<open>
  \<open>b_data\<close>: the bytes from \<open>start\<close> to \<open>last\<close>; \<open>b_pos\<close>: \<open>pointer - start\<close>; \<open>b_cap\<close>: \<open>end - start\<close>.
\<close>

record ybuffer =
  b_data :: ystring
  b_pos :: nat
  b_cap :: nat

definition null_buffer :: ybuffer where
  "null_buffer = \<lparr>b_data = [], b_pos = 0, b_cap = 0\<rparr>"

definition b_rest :: "ybuffer \<Rightarrow> ystring" where
  "b_rest b = drop (b_pos b) (b_data b)"

definition buffer_ok :: "ybuffer \<Rightarrow> bool" where
  "buffer_ok b \<longleftrightarrow> b_pos b \<le> length (b_data b) \<and> length (b_data b) \<le> b_cap b"

subsection \<open>The parser structure\<close>

text \<open>
  A read handler is called with its data and the room in the buffer; it returns the C result, the
  bytes it wrote and its updated data.
\<close>

type_synonym 'h read_handler = "'h \<Rightarrow> nat \<Rightarrow> bool \<times> ystring \<times> 'h"

record 'h yaml_reader =
  p_mem :: heap
  p_error :: yaml_error_type
  p_problem :: string
  p_problem_offset :: nat
  p_problem_value :: int
  p_problem_mark :: yaml_mark
  p_context :: string
  p_context_mark :: yaml_mark
  p_read_handler :: "'h read_handler option"
  p_read_handler_data :: 'h
  p_eof :: bool
  p_buffer :: ybuffer
  p_unread :: nat
  p_raw_buffer :: ybuffer
  p_encoding :: yaml_encoding
  p_offset :: nat
  p_mark :: yaml_mark

record yaml_simple_key =
  sk_possible :: bool
  sk_required :: bool
  sk_token_number :: nat
  sk_mark :: yaml_mark

record 'h yaml_scanner = "'h yaml_reader" +
  p_stream_start_produced :: bool
  p_stream_end_produced :: bool
  p_flow_level :: int
  p_tokens :: "yaml_token yqueue"
  p_tokens_parsed :: nat
  p_token_available :: bool
  p_indents :: "int ystack"
  p_indent :: int
  p_simple_key_allowed :: bool
  p_simple_keys :: "yaml_simple_key ystack"

datatype yaml_parser_state =
  YAML_PARSE_STREAM_START_STATE | YAML_PARSE_IMPLICIT_DOCUMENT_START_STATE
| YAML_PARSE_DOCUMENT_START_STATE | YAML_PARSE_DOCUMENT_CONTENT_STATE | YAML_PARSE_DOCUMENT_END_STATE
| YAML_PARSE_BLOCK_NODE_STATE | YAML_PARSE_BLOCK_NODE_OR_INDENTLESS_SEQUENCE_STATE
| YAML_PARSE_FLOW_NODE_STATE | YAML_PARSE_BLOCK_SEQUENCE_FIRST_ENTRY_STATE
| YAML_PARSE_BLOCK_SEQUENCE_ENTRY_STATE | YAML_PARSE_INDENTLESS_SEQUENCE_ENTRY_STATE
| YAML_PARSE_BLOCK_MAPPING_FIRST_KEY_STATE | YAML_PARSE_BLOCK_MAPPING_KEY_STATE
| YAML_PARSE_BLOCK_MAPPING_VALUE_STATE | YAML_PARSE_FLOW_SEQUENCE_FIRST_ENTRY_STATE
| YAML_PARSE_FLOW_SEQUENCE_ENTRY_STATE | YAML_PARSE_FLOW_SEQUENCE_ENTRY_MAPPING_KEY_STATE
| YAML_PARSE_FLOW_SEQUENCE_ENTRY_MAPPING_VALUE_STATE | YAML_PARSE_FLOW_SEQUENCE_ENTRY_MAPPING_END_STATE
| YAML_PARSE_FLOW_MAPPING_FIRST_KEY_STATE | YAML_PARSE_FLOW_MAPPING_KEY_STATE
| YAML_PARSE_FLOW_MAPPING_VALUE_STATE | YAML_PARSE_FLOW_MAPPING_EMPTY_VALUE_STATE
| YAML_PARSE_END_STATE

record yaml_alias_data =
  al_anchor :: ystring
  al_index :: int
  al_mark :: yaml_mark

record 'h yaml_parser = "'h yaml_scanner" +
  p_states :: "yaml_parser_state ystack"
  p_state :: yaml_parser_state
  p_marks :: "yaml_mark ystack"
  p_tag_directives :: "yaml_tag_directive ystack"

record 'h yaml_loader = "'h yaml_parser" +
  p_aliases :: "yaml_alias_data ystack"
  p_document :: "yaml_document option"

subsection \<open>The emitter structure\<close>

type_synonym 'w write_handler = "'w \<Rightarrow> ystring \<Rightarrow> bool \<times> 'w"

record 'w yaml_writer =
  e_mem :: heap
  e_error :: yaml_error_type
  e_problem :: string
  e_write_handler :: "'w write_handler option"
  e_write_handler_data :: 'w
  e_buffer :: ybuffer
  e_raw_buffer :: ybuffer
  e_encoding :: yaml_encoding

datatype yaml_emitter_state =
  YAML_EMIT_STREAM_START_STATE | YAML_EMIT_FIRST_DOCUMENT_START_STATE | YAML_EMIT_DOCUMENT_START_STATE
| YAML_EMIT_DOCUMENT_CONTENT_STATE | YAML_EMIT_DOCUMENT_END_STATE
| YAML_EMIT_FLOW_SEQUENCE_FIRST_ITEM_STATE | YAML_EMIT_FLOW_SEQUENCE_ITEM_STATE
| YAML_EMIT_FLOW_MAPPING_FIRST_KEY_STATE | YAML_EMIT_FLOW_MAPPING_KEY_STATE
| YAML_EMIT_FLOW_MAPPING_SIMPLE_VALUE_STATE | YAML_EMIT_FLOW_MAPPING_VALUE_STATE
| YAML_EMIT_BLOCK_SEQUENCE_FIRST_ITEM_STATE | YAML_EMIT_BLOCK_SEQUENCE_ITEM_STATE
| YAML_EMIT_BLOCK_MAPPING_FIRST_KEY_STATE | YAML_EMIT_BLOCK_MAPPING_KEY_STATE
| YAML_EMIT_BLOCK_MAPPING_SIMPLE_VALUE_STATE | YAML_EMIT_BLOCK_MAPPING_VALUE_STATE
| YAML_EMIT_END_STATE

record yaml_anchors =
  an_references :: int
  an_anchor :: int
  an_serialized :: bool

record 'w yaml_emitter = "'w yaml_writer" +
  e_canonical :: bool
  e_best_indent :: int
  e_best_width :: int
  e_unicode :: bool
  e_line_break :: yaml_break
  e_states :: "yaml_emitter_state ystack"
  e_state :: yaml_emitter_state
  e_events :: "yaml_event yqueue"
  e_indents :: "int ystack"
  e_tag_directives :: "yaml_tag_directive ystack"
  e_indent :: int
  e_flow_level :: int
  e_root_context :: bool
  e_sequence_context :: bool
  e_mapping_context :: bool
  e_simple_key_context :: bool
  e_line :: int
  e_column :: int
  e_whitespace :: bool
  e_indention :: bool
  e_open_ended :: int
  e_anchor :: "ystring option"
  e_alias :: bool
  e_tag_handle :: "ystring option"
  e_tag_suffix :: "ystring option"
  e_scalar :: "ystring option"
  e_multiline :: bool
  e_flow_plain_allowed :: bool
  e_block_plain_allowed :: bool
  e_single_quoted_allowed :: bool
  e_block_allowed :: bool
  e_style :: yaml_scalar_style

record 'w yaml_dumper = "'w yaml_emitter" +
  e_opened :: bool
  e_closed :: bool
  e_anchors :: "yaml_anchors list option"
  e_last_anchor_id :: int
  e_document :: "yaml_document option"

end
