(* ===== verification/Unicode.thy ===== *)
theory Unicode
  imports Types
begin

text \<open>
  The UTF-8 and UTF-16 codecs.  \<open>reader.c\<close>, \<open>writer.c\<close> and \<open>yaml_check_utf8\<close> of \<open>api.c\<close> share the
  same code fragments (width and value of a leading octet, accumulation of trailing octets, the
  length check); they are defined once here.  Characters are \<open>unsigned int\<close>s (32-bit words).
\<close>

unbundle bit_operations_syntax

subsection \<open>UTF-8 fragments\<close>

definition utf8_width :: "8 word \<Rightarrow> nat" where
  "utf8_width octet =
     (if octet AND 0x80 = 0x00 then 1
      else if octet AND 0xE0 = 0xC0 then 2
      else if octet AND 0xF0 = 0xE0 then 3
      else if octet AND 0xF8 = 0xF0 then 4 else 0)"

definition utf8_lead_value :: "8 word \<Rightarrow> 32 word" where
  "utf8_lead_value octet =
     (if octet AND 0x80 = 0x00 then ucast (octet AND 0x7F)
      else if octet AND 0xE0 = 0xC0 then ucast (octet AND 0x1F)
      else if octet AND 0xF0 = 0xE0 then ucast (octet AND 0x0F)
      else if octet AND 0xF8 = 0xF0 then ucast (octet AND 0x07) else 0)"

definition add_trailing :: "32 word \<Rightarrow> 8 word \<Rightarrow> 32 word" where
  "add_trailing value octet = push_bit 6 value + ucast (octet AND 0x3F)"

text \<open>The loop over the trailing octets: the position of the first invalid one, or the value.\<close>

fun utf8_trailing :: "nat \<Rightarrow> 32 word \<Rightarrow> ystring \<Rightarrow> (nat \<times> 8 word) + 32 word" where
  "utf8_trailing k value [] = Inr value"
| "utf8_trailing k value (octet # rest) =
     (if octet AND 0xC0 \<noteq> 0x80 then Inl (k, octet)
      else utf8_trailing (k + 1) (add_trailing value octet) rest)"

definition utf8_length_ok :: "nat \<Rightarrow> 32 word \<Rightarrow> bool" where
  "utf8_length_ok width value \<longleftrightarrow>
     width = 1 \<or> width = 2 \<and> value \<ge> 0x80 \<or> width = 3 \<and> value \<ge> 0x800 \<or> width = 4 \<and> value \<ge> 0x10000"

text \<open>Putting a character into a buffer as UTF-8 (the end of \<open>yaml_parser_update_buffer\<close>).\<close>

definition utf8_put :: "32 word \<Rightarrow> ystring" where
  "utf8_put value =
     (if value \<le> 0x7F then [ucast value]
      else if value \<le> 0x7FF then
        [ucast (0xC0 + drop_bit 6 value), ucast (0x80 + (value AND 0x3F))]
      else if value \<le> 0xFFFF then
        [ucast (0xE0 + drop_bit 12 value), ucast (0x80 + (drop_bit 6 value AND 0x3F)),
         ucast (0x80 + (value AND 0x3F))]
      else
        [ucast (0xF0 + drop_bit 18 value), ucast (0x80 + (drop_bit 12 value AND 0x3F)),
         ucast (0x80 + (drop_bit 6 value AND 0x3F)), ucast (0x80 + (value AND 0x3F))])"

subsection \<open>\<open>yaml_check_utf8\<close>\<close>

function yaml_check_utf8 :: "ystring \<Rightarrow> bool" where
  "yaml_check_utf8 [] = True"
| "yaml_check_utf8 (octet # rest) =
     (let width = utf8_width octet in
      if width = 0 then False
      else if width > length (octet # rest) then False
      else case utf8_trailing 1 (utf8_lead_value octet) (take (width - 1) rest) of
        Inl _ \<Rightarrow> False
      | Inr value \<Rightarrow>
          if \<not> utf8_length_ok width value then False
          else yaml_check_utf8 (drop (width - 1) rest))"
  by pat_completeness auto
termination
  by (relation "measure length") auto

subsection \<open>Arithmetic reading of the bit operations\<close>

lemma mask_forms:
  "(0x80 :: 8 word) = NOT (mask 7)" "(0xC0 :: 8 word) = NOT (mask 6)" "(0xE0 :: 8 word) = NOT (mask 5)"
  "(0xF0 :: 8 word) = NOT (mask 4)" "(0xF8 :: 8 word) = NOT (mask 3)" "(0x7F :: 8 word) = mask 7"
  "(0x3F :: 8 word) = mask 6" "(0x1F :: 8 word) = mask 5" "(0x0F :: 8 word) = mask 4"
  "(0x07 :: 8 word) = mask 3" "(0x3F :: 32 word) = mask 6" "(0xFF :: 32 word) = mask 8"
  "(0x3FF :: 32 word) = mask 10"
  by (simp_all add: mask_eq_exp_minus_1)

lemma lead1: "(b AND 0x80 = (0x00 :: 8 word)) \<longleftrightarrow> unat b < 128"
  unfolding mask_forms(1) word_unat_eq_iff unat_and_not_mask by auto

lemma lead2: "(b AND 0xE0 = (0xC0 :: 8 word)) \<longleftrightarrow> 192 \<le> unat b \<and> unat b < 224"
  unfolding mask_forms(3) word_unat_eq_iff unat_and_not_mask by (simp add: div_eq_iff_nat)

lemma lead3: "(b AND 0xF0 = (0xE0 :: 8 word)) \<longleftrightarrow> 224 \<le> unat b \<and> unat b < 240"
  unfolding mask_forms(4) word_unat_eq_iff unat_and_not_mask by (simp add: div_eq_iff_nat)

lemma lead4: "(b AND 0xF8 = (0xF0 :: 8 word)) \<longleftrightarrow> 240 \<le> unat b \<and> unat b < 248"
  unfolding mask_forms(5) word_unat_eq_iff unat_and_not_mask by (simp add: div_eq_iff_nat)

lemma trail_iff: "(b AND 0xC0 = (0x80 :: 8 word)) \<longleftrightarrow> 128 \<le> unat b \<and> unat b < 192"
  unfolding mask_forms(2) word_unat_eq_iff unat_and_not_mask by (simp add: div_eq_iff_nat)

lemmas lead_iffs = lead1 lead2 lead3 lead4

lemma utf8_width_nat:
  "utf8_width b = (if unat b < 128 then 1 else if unat b < 192 then 0 else if unat b < 224 then 2
     else if unat b < 240 then 3 else if unat b < 248 then 4 else 0)"
  unfolding utf8_width_def lead_iffs by auto

lemma utf8_width_le_4: "utf8_width b \<le> 4"
  by (simp add: utf8_width_nat)

lemma unat_and_lit:
  "unat (b AND 0x7F :: 8 word) = unat b mod 128" "unat (b AND 0x3F :: 8 word) = unat b mod 64"
  "unat (b AND 0x1F :: 8 word) = unat b mod 32" "unat (b AND 0x0F :: 8 word) = unat b mod 16"
  "unat (b AND 0x07 :: 8 word) = unat b mod 8" "unat (v AND 0x3F :: 32 word) = unat v mod 64"
  "unat (v AND 0xFF :: 32 word) = unat v mod 256" "unat (v AND 0x3FF :: 32 word) = unat v mod 1024"
  unfolding mask_forms(6-13) unat_and_mask by simp_all

lemma mod_sub_nat: "k * q \<le> n \<Longrightarrow> n < k * q + k \<Longrightarrow> n mod k = n - k * (q :: nat)"
  by (metis add_less_cancel_left le_add_diff_inverse mod_less mod_mult_self4 mult.commute)

lemma unat_lead_value:
  "unat (utf8_lead_value b) = (if unat b < 128 then unat b else if unat b < 192 then 0
     else if unat b < 224 then unat b - 192 else if unat b < 240 then unat b - 224
     else if unat b < 248 then unat b - 240 else 0)"
  unfolding utf8_lead_value_def lead_iffs
  by (auto simp: unat_ucast_up unat_and_lit mod_sub_nat [where q = 6 and k = 32]
      mod_sub_nat [where q = 14 and k = 16] mod_sub_nat [where q = 30 and k = 8])

lemma unat_add_trailing:
  assumes "unat v < 2 ^ 24"
  shows "unat (add_trailing v b) = unat v * 64 + unat b mod 64"
  using assms by (simp add: add_trailing_def unat_word_ariths unat_push_bit unat_ucast_up unat_and_lit)

subsection \<open>One UTF-8 sequence\<close>

text \<open>\<open>utf8_seq bs v\<close>: the octets \<open>bs\<close> pass the checks shared by the decoders, with value \<open>v\<close>.\<close>

definition utf8_seq :: "ystring \<Rightarrow> 32 word \<Rightarrow> bool" where
  "utf8_seq bs v \<longleftrightarrow> bs \<noteq> [] \<and> utf8_width (hd bs) = length bs
     \<and> utf8_trailing 1 (utf8_lead_value (hd bs)) (tl bs) = Inr v \<and> utf8_length_ok (length bs) v"

lemma utf8_put_nat:
  assumes "unat v < 0x200000"
  shows "map unat (utf8_put v) =
    (if unat v < 128 then [unat v]
     else if unat v < 2048 then [192 + unat v div 64, 128 + unat v mod 64]
     else if unat v < 65536 then [224 + unat v div 4096, 128 + unat v div 64 mod 64, 128 + unat v mod 64]
     else [240 + unat v div 262144, 128 + unat v div 4096 mod 64, 128 + unat v div 64 mod 64,
           128 + unat v mod 64])"
proof -
  have small: "unat v div 64 < 32768" "unat v div 4096 < 512" "unat v div 262144 < 8"
    using assms by auto
  have le: "v \<le> 0x7F \<longleftrightarrow> unat v < 128" "v \<le> 0x7FF \<longleftrightarrow> unat v < 2048" "v \<le> 0xFFFF \<longleftrightarrow> unat v < 65536"
    by (auto simp: word_le_nat_alt)
  show ?thesis
    unfolding utf8_put_def le
    using assms small
    by (auto simp: unat_ucast_down unat_word_ariths unat_drop_bit unat_and_lit)
qed

lemma utf8_trailing_Inr:
  "utf8_trailing k v (b # bs) = Inr w \<longleftrightarrow>
     128 \<le> unat b \<and> unat b < 192 \<and> utf8_trailing (k + 1) (add_trailing v b) bs = Inr w"
  by (auto simp: trail_iff)

lemma utf8_length_ok_nat:
  "utf8_length_ok n v \<longleftrightarrow> n = 1 \<or> n = 2 \<and> 128 \<le> unat v \<or> n = 3 \<and> 2048 \<le> unat v \<or> n = 4 \<and> 65536 \<le> unat v"
  by (simp add: utf8_length_ok_def word_le_nat_alt)

declare utf8_trailing.simps(2) [simp del]

lemma trail_mod: "128 \<le> n \<Longrightarrow> n < 192 \<Longrightarrow> n mod 64 = n - (128 :: nat)"
  using mod_sub_nat [of 64 2 n] by simp

lemma map_unat_eq: "map unat xs = map unat ys \<Longrightarrow> xs = (ys :: 8 word list)"
  by (rule map_injective [where f = unat]) (auto intro: injI)

definition trail_byte :: "8 word \<Rightarrow> bool" where
  "trail_byte b \<longleftrightarrow> 128 \<le> unat b \<and> unat b < 192"

text \<open>\<open>utf8_trailing\<close> as arithmetic, for the at most three trailing octets of a sequence.\<close>

lemma trailing1:
  "unat u < 2 ^ 24 \<Longrightarrow> utf8_trailing k u [b] = Inr v \<longleftrightarrow>
     trail_byte b \<and> unat v = unat u * 64 + (unat b - 128)"
  by (auto simp: utf8_trailing_Inr trail_byte_def unat_add_trailing trail_mod word_unat_eq_iff)

lemma trailing2:
  "unat u < 2 ^ 17 \<Longrightarrow> utf8_trailing k u [b, c] = Inr v \<longleftrightarrow>
     trail_byte b \<and> trail_byte c \<and> unat v = (unat u * 64 + (unat b - 128)) * 64 + (unat c - 128)"
  by (auto simp: utf8_trailing_Inr [of _ _ _ "[c]"] trailing1 unat_add_trailing trail_mod trail_byte_def)

lemma trailing3:
  "unat u < 2 ^ 10 \<Longrightarrow> utf8_trailing k u [b, c, d] = Inr v \<longleftrightarrow>
     trail_byte b \<and> trail_byte c \<and> trail_byte d \<and>
     unat v = ((unat u * 64 + (unat b - 128)) * 64 + (unat c - 128)) * 64 + (unat d - 128)"
  by (auto simp: utf8_trailing_Inr [of _ _ _ "[c, d]"] trailing2 unat_add_trailing trail_mod trail_byte_def)

lemma lead_value_small: "unat (utf8_lead_value b) < 128"
  by (auto simp: unat_lead_value)

lemma utf8_seq1: "utf8_seq [a] v \<longleftrightarrow> unat a < 128 \<and> unat v = unat a"
  by (auto simp: utf8_seq_def utf8_width_nat utf8_length_ok_nat unat_lead_value word_unat_eq_iff)

lemma utf8_seq2: "utf8_seq [a, b] v \<longleftrightarrow> 192 \<le> unat a \<and> unat a < 224 \<and> trail_byte b
    \<and> unat v = (unat a - 192) * 64 + (unat b - 128) \<and> 128 \<le> unat v"
proof -
  have u: "unat (utf8_lead_value a) < 2 ^ 24" using lead_value_small [of a] by simp
  show ?thesis
    by (auto simp: utf8_seq_def utf8_width_nat utf8_length_ok_nat trailing1 [OF u] unat_lead_value)
qed

lemma utf8_seq3: "utf8_seq [a, b, c] v \<longleftrightarrow> 224 \<le> unat a \<and> unat a < 240 \<and> trail_byte b \<and> trail_byte c
    \<and> unat v = ((unat a - 224) * 64 + (unat b - 128)) * 64 + (unat c - 128) \<and> 2048 \<le> unat v"
proof -
  have u: "unat (utf8_lead_value a) < 2 ^ 17" using lead_value_small [of a] by simp
  show ?thesis
    by (auto simp: utf8_seq_def utf8_width_nat utf8_length_ok_nat trailing2 [OF u] unat_lead_value)
qed

lemma utf8_seq4: "utf8_seq [a, b, c, d] v \<longleftrightarrow>
    240 \<le> unat a \<and> unat a < 248 \<and> trail_byte b \<and> trail_byte c \<and> trail_byte d
    \<and> unat v = (((unat a - 240) * 64 + (unat b - 128)) * 64 + (unat c - 128)) * 64 + (unat d - 128)
    \<and> 65536 \<le> unat v"
proof -
  have u: "unat (utf8_lead_value a) < 2 ^ 10" using lead_value_small [of a] by simp
  show ?thesis
    by (auto simp: utf8_seq_def utf8_width_nat utf8_length_ok_nat trailing3 [OF u] unat_lead_value)
qed

lemma utf8_seq_lengths:
  assumes "utf8_seq bs v"
  obtains a where "bs = [a]" "utf8_seq [a] v" | a b where "bs = [a, b]" "utf8_seq [a, b] v"
  | a b c where "bs = [a, b, c]" "utf8_seq [a, b, c] v"
  | a b c d where "bs = [a, b, c, d]" "utf8_seq [a, b, c, d] v"
proof -
  have "0 < length bs" "length bs \<le> 4"
    using assms utf8_width_le_4 [of "hd bs"] by (auto simp: utf8_seq_def)
  then consider "length bs = 1" | "length bs = 2" | "length bs = 3" | "length bs = 4" by linarith
  then show ?thesis
    using assms by cases (auto simp: length_Suc_conv numeral_eq_Suc intro: that)
qed

lemma base64_digits:
  "unat v = unat v div 64 * 64 + unat v mod 64"
  "unat v div 64 = unat v div 4096 * 64 + unat v div 64 mod 64"
  "unat v div 4096 = unat v div 262144 * 64 + unat v div 4096 mod 64"
  using div_mult_mod_eq [of "unat v" 64] div_mult_mod_eq [of "unat v div 64" 64]
    div_mult_mod_eq [of "unat v div 4096" 64] by (simp_all add: div_mult2_eq [symmetric])

lemma utf8_seq_put:
  assumes v: "unat v < 0x200000"
  shows "utf8_seq (utf8_put v) v"
proof -
  note put = utf8_put_nat [OF v]
  consider "unat v < 128" | "128 \<le> unat v" "unat v < 2048" | "2048 \<le> unat v" "unat v < 65536"
    | "65536 \<le> unat v" by linarith
  then show ?thesis
  proof cases
    case 1
    with put obtain a where "utf8_put v = [a]" "unat a = unat v" by auto
    with 1 show ?thesis by (simp add: utf8_seq1)
  next
    case 2
    with put obtain a b where ab: "utf8_put v = [a, b]" "unat a = 192 + unat v div 64" "unat b = 128 + unat v mod 64"
      by auto
    with 2 base64_digits(1) [of v] show ?thesis by (auto simp: utf8_seq2 trail_byte_def)
  next
    case 3
    with put obtain a b c where "utf8_put v = [a, b, c]" "unat a = 224 + unat v div 4096"
      "unat b = 128 + unat v div 64 mod 64" "unat c = 128 + unat v mod 64" by auto
    with 3 base64_digits [of v] show ?thesis by (auto simp: utf8_seq3 trail_byte_def)
  next
    case 4
    with put obtain a b c d where "utf8_put v = [a, b, c, d]" "unat a = 240 + unat v div 262144"
      "unat b = 128 + unat v div 4096 mod 64" "unat c = 128 + unat v div 64 mod 64"
      "unat d = 128 + unat v mod 64" by auto
    moreover have "unat v div 262144 < 8" using v by (simp add: less_mult_imp_div_less)
    ultimately show ?thesis using 4 base64_digits [of v] by (auto simp: utf8_seq4 trail_byte_def)
  qed
qed

lemma digits_inj: "a * 64 + b = a' * 64 + b' \<Longrightarrow> b < 64 \<Longrightarrow> b' < 64 \<Longrightarrow> a = a' \<and> b = (b' :: nat)"
  by (metis div_mult_self3 mod_less mod_mult_self3 add_left_cancel div_less zero_neq_numeral add.right_neutral)

lemmas utf8_seq_arith = utf8_seq1 utf8_seq2 utf8_seq3 utf8_seq4 trail_byte_def

lemma utf8_seq_bound: "utf8_seq bs v \<Longrightarrow> unat v < 0x200000"
  by (erule utf8_seq_lengths; simp add: utf8_seq_arith; linarith)

lemma utf8_seq_length:
  "utf8_seq bs v \<Longrightarrow> length bs = (if unat v < 128 then 1 else if unat v < 2048 then 2
     else if unat v < 65536 then 3 else 4)"
  by (erule utf8_seq_lengths; simp add: utf8_seq_arith; linarith)

lemma trail_inj:
  assumes "x * 64 + (unat b - 128) = y * 64 + (unat c - 128)" "trail_byte b" "trail_byte c"
  shows "x = y \<and> b = c"
proof -
  have "x = y \<and> unat b - 128 = unat c - 128"
    by (rule digits_inj [OF assms(1)]) (use assms(2,3) in \<open>auto simp: trail_byte_def\<close>)
  then show ?thesis using assms(2,3) by (auto simp: trail_byte_def word_unat_eq_iff)
qed

lemma lead_inj: "unat a - k = unat b - k \<Longrightarrow> k \<le> unat a \<Longrightarrow> k \<le> unat b \<Longrightarrow> a = (b :: 8 word)"
  by (simp add: word_unat_eq_iff)

lemma utf8_seq_unique:
  assumes bs: "utf8_seq bs v" and cs: "utf8_seq cs v"
  shows "bs = cs"
  using bs
proof (cases rule: utf8_seq_lengths)
  case (1 a)
  with utf8_seq_length [OF bs] utf8_seq_length [OF cs] have "length cs = 1" by simp
  then obtain a' where "cs = [a']" by (auto simp: length_Suc_conv)
  with 1 cs show ?thesis by (simp add: utf8_seq1 word_unat_eq_iff)
next
  case (2 a b)
  with utf8_seq_length [OF bs] utf8_seq_length [OF cs] have "length cs = 2" by simp
  then obtain a' b' where cs': "cs = [a', b']" by (auto simp: length_Suc_conv numeral_eq_Suc)
  from 2 cs cs' have "unat a - 192 = unat a' - 192 \<and> b = b'"
    by (intro trail_inj) (simp_all add: utf8_seq2)
  with 2 cs cs' show ?thesis by (auto simp: utf8_seq2 intro: lead_inj)
next
  case (3 a b c)
  with utf8_seq_length [OF bs] utf8_seq_length [OF cs] have "length cs = 3" by simp
  then obtain a' b' c' where cs': "cs = [a', b', c']" by (auto simp: length_Suc_conv numeral_eq_Suc)
  from 3 cs cs' have "(unat a - 224) * 64 + (unat b - 128) = (unat a' - 224) * 64 + (unat b' - 128) \<and> c = c'"
    by (intro trail_inj) (simp_all add: utf8_seq3)
  moreover from this 3 cs cs' have "unat a - 224 = unat a' - 224 \<and> b = b'"
    by (intro trail_inj) (simp_all add: utf8_seq3)
  ultimately show ?thesis using 3 cs cs' by (auto simp: utf8_seq3 intro: lead_inj)
next
  case (4 a b c d)
  with utf8_seq_length [OF bs] utf8_seq_length [OF cs] have "length cs = 4" by simp
  then obtain a' b' c' d' where cs': "cs = [a', b', c', d']" by (auto simp: length_Suc_conv numeral_eq_Suc)
  from 4 cs cs' have "((unat a - 240) * 64 + (unat b - 128)) * 64 + (unat c - 128) =
      ((unat a' - 240) * 64 + (unat b' - 128)) * 64 + (unat c' - 128) \<and> d = d'"
    by (intro trail_inj) (simp_all add: utf8_seq4)
  moreover from this 4 cs cs' have "(unat a - 240) * 64 + (unat b - 128) =
      (unat a' - 240) * 64 + (unat b' - 128) \<and> c = c'"
    by (intro trail_inj) (simp_all add: utf8_seq4)
  moreover from this 4 cs cs' have "unat a - 240 = unat a' - 240 \<and> b = b'"
    by (intro trail_inj) (simp_all add: utf8_seq4)
  ultimately show ?thesis using 4 cs cs' by (auto simp: utf8_seq4 intro: lead_inj)
qed

text \<open>The sequences that pass the checks are exactly the shortest encodings of values below \<open>2^21\<close>.\<close>

lemma utf8_seq_iff: "utf8_seq bs v \<longleftrightarrow> unat v < 0x200000 \<and> bs = utf8_put v"
  using utf8_seq_put utf8_seq_unique utf8_seq_bound by blast

lemma utf8_put_nonempty [simp]: "utf8_put v \<noteq> []"
  by (simp add: utf8_put_def)

lemma length_utf8_put_le: "length (utf8_put v) \<le> 4"
  by (simp add: utf8_put_def)

lemma length_utf8_put_pos: "0 < length (utf8_put v)"
  by (simp add: utf8_put_def)

subsection \<open>What \<open>yaml_check_utf8\<close> accepts\<close>

lemma check_utf8_append:
  assumes "utf8_seq bs v"
  shows "yaml_check_utf8 (bs @ rest) = yaml_check_utf8 rest"
proof -
  from assms obtain b bs' where b: "bs = b # bs'" by (auto simp: utf8_seq_def neq_Nil_conv)
  with assms show ?thesis by (simp add: utf8_seq_def)
qed

lemma check_utf8_split:
  assumes "yaml_check_utf8 (b # bs)"
  obtains v rest where "unat v < 0x200000" "b # bs = utf8_put v @ rest" "yaml_check_utf8 rest"
    "length rest < length (b # bs)"
proof -
  let ?w = "utf8_width b" and ?t = "take (utf8_width b - 1) bs"
  from assms obtain v where w: "0 < ?w" "?w \<le> Suc (length bs)"
    and v: "utf8_trailing 1 (utf8_lead_value b) ?t = Inr v" "utf8_length_ok ?w v"
    and rest: "yaml_check_utf8 (drop (?w - 1) bs)"
    by (auto simp: Let_def split: if_splits sum.splits)
  have "utf8_seq (b # ?t) v" using w v by (auto simp: utf8_seq_def)
  then have "unat v < 0x200000" "b # ?t = utf8_put v" by (simp_all add: utf8_seq_iff)
  moreover have "b # bs = (b # ?t) @ drop (?w - 1) bs" by simp
  ultimately show ?thesis using rest by (intro that [of v "drop (?w - 1) bs"]) auto
qed

lemma check_utf8_iff:
  "yaml_check_utf8 bs \<longleftrightarrow> (\<exists>vs. (\<forall>v\<in>set vs. unat v < 0x200000) \<and> bs = concat (map utf8_put vs))"
    (is "_ \<longleftrightarrow> ?spec bs")
proof
  show "yaml_check_utf8 bs \<Longrightarrow> ?spec bs"
  proof (induction "length bs" arbitrary: bs rule: less_induct)
    case less
    show ?case
    proof (cases bs)
      case Nil
      then show ?thesis by (intro exI [of _ "[]"]) simp
    next
      case (Cons b bs')
      with less.prems obtain v rest where v: "unat v < 0x200000" "bs = utf8_put v @ rest"
        and rest: "yaml_check_utf8 rest" "length rest < length bs"
        by (auto elim!: check_utf8_split simp del: yaml_check_utf8.simps)
      from less.hyps [OF rest(2,1)] obtain vs
        where "\<forall>v\<in>set vs. unat v < 0x200000" "rest = concat (map utf8_put vs)" by blast
      with v show ?thesis by (intro exI [of _ "v # vs"]) simp
    qed
  qed
  assume "?spec bs"
  then obtain vs where "\<forall>v\<in>set vs. unat v < 0x200000" "bs = concat (map utf8_put vs)" by blast
  then show "yaml_check_utf8 bs"
    by (induction vs arbitrary: bs) (auto simp: check_utf8_append [OF utf8_seq_put])
qed

lemma put_ascii: "v \<le> 0x7F \<Longrightarrow> utf8_put (ucast v) = [v]"
proof -
  assume v: "v \<le> (0x7F :: 8 word)"
  then have "unat (ucast v :: 32 word) \<le> 0x7F" by (simp add: unat_ucast_up word_le_nat_alt)
  moreover have "ucast (ucast v :: 32 word) = v" by (simp add: word_unat_eq_iff unat_ucast_down unat_ucast_up unat_byte_less)
  ultimately show ?thesis by (simp add: utf8_put_def word_le_nat_alt)
qed

lemma check_utf8_ascii: "\<forall>v\<in>set vs. v \<le> 0x7F \<Longrightarrow> yaml_check_utf8 vs"
proof -
  assume "\<forall>v\<in>set vs. v \<le> (0x7F :: 8 word)"
  then have "vs = concat (map utf8_put (map ucast vs))" by (induction vs) (simp_all add: put_ascii)
  moreover have "unat (ucast v :: 32 word) < 0x200000" for v :: "8 word"
    using unat_byte_less [of v] by (simp add: unat_ucast_up)
  ultimately show ?thesis unfolding check_utf8_iff by (intro exI [of _ "map ucast vs"]) simp
qed

lemma utf8_put_prefix:
  assumes "unat v < 0x200000" "unat w < 0x200000" "utf8_put v @ xs = utf8_put w @ ys"
  shows "v = w \<and> xs = ys"
proof -
  have v: "utf8_seq (utf8_put v) v" and w: "utf8_seq (utf8_put w) w" using assms(1,2) by (simp_all add: utf8_seq_iff)
  have "hd (utf8_put v) = hd (utf8_put w)" using assms(3) by (metis hd_append2 utf8_put_nonempty)
  then have "length (utf8_put v) = length (utf8_put w)" using v w by (simp add: utf8_seq_def)
  then have "utf8_put v = utf8_put w" "xs = ys" using assms(3) by simp_all
  with v w show ?thesis by (simp add: utf8_seq_def)
qed

lemma utf8_readings_eq:
  "\<forall>v\<in>set vs. unat v < 0x200000 \<Longrightarrow> \<forall>w\<in>set ws. unat w < 0x200000
    \<Longrightarrow> concat (map utf8_put vs) = concat (map utf8_put ws) \<Longrightarrow> vs = ws"
proof (induction vs arbitrary: ws)
  case Nil
  then show ?case by (cases ws) simp_all
next
  case (Cons v vs)
  from Cons.prems(3) obtain w ws' where ws: "ws = w # ws'" by (cases ws) auto
  from Cons.prems [unfolded ws] have "v = w \<and> concat (map utf8_put vs) = concat (map utf8_put ws')" by (intro utf8_put_prefix) simp_all
  with Cons.IH [of ws'] Cons.prems(1,2) [unfolded ws] show ?case by (simp add: ws)
qed

text \<open>C26: \<open>yaml_check_utf8\<close> accepts exactly the byte strings that are sequences of shortest encodings of values below \<open>2^21\<close>,
  and each of them in one reading only.  So overlong forms, stray trailing bytes and truncated sequences are rejected, but
  encoded surrogates and values above U+10FFFF, which the reader rejects, are accepted.\<close>

theorem check_utf8_equivalence:
  "yaml_check_utf8 bs \<longleftrightarrow> (\<exists>!vs. (\<forall>v\<in>set vs. unat v < 0x200000) \<and> bs = concat (map utf8_put vs))"
  unfolding check_utf8_iff using utf8_readings_eq by blast

theorem check_utf8_equivalence_witness:
  "yaml_check_utf8 [0xED, 0xA0, 0x80] \<and> (\<exists>vs. [0xED, 0xA0, 0x80] = concat (map utf8_put vs)) \<and> \<not> yaml_check_utf8 [0xC0, 0x80]"
proof -
  have "yaml_check_utf8 [0xED, 0xA0, 0x80]" "\<not> yaml_check_utf8 [0xC0, 0x80]" by code_simp+
  with check_utf8_equivalence [of "[0xED, 0xA0, 0x80]"] show ?thesis by blast
qed

end
