(* ===== verification/Reader.thy ===== *)
theory Reader
  imports Unicode
begin

text \<open>
  The reader (\<open>reader.c\<close>): it fills the raw buffer from the read handler, detects the encoding,
  and recodes the raw bytes to UTF-8 in the working buffer, checking every character.  The two
  standard read handlers of \<open>api.c\<close> are modelled here as well.  The locale \<open>byte_source\<close> is the
  documented contract of a read handler; what the reader guarantees is proved in it once and holds
  for both handlers by interpretation.
\<close>

unbundle bit_operations_syntax

definition MAX_FILE_SIZE :: nat where
  "MAX_FILE_SIZE = (2 ^ 64 - 1) div 2"

definition INPUT_RAW_BUFFER_SIZE :: nat where
  "INPUT_RAW_BUFFER_SIZE = 16384"

definition INPUT_BUFFER_SIZE :: nat where
  "INPUT_BUFFER_SIZE = INPUT_RAW_BUFFER_SIZE * 3"

subsection \<open>Read handlers\<close>

record string_input =
  si_string :: ystring
  si_current :: nat

definition yaml_string_read_handler :: "string_input read_handler" where
  "yaml_string_read_handler d room =
     (if si_current d = length (si_string d) then (True, [], d)
      else let n = (if room > length (si_string d) - si_current d
                    then length (si_string d) - si_current d else room)
        in (True, take n (drop (si_current d) (si_string d)), d\<lparr>si_current := si_current d + n\<rparr>))"

text \<open>
  A C stream: the bytes not yet read, the number of bytes before a read error strikes (if one
  does), and the error indicator.  \<open>fread\<close> delivers what it can and sets the indicator when the
  error position is reached.
\<close>

record c_file =
  f_rest :: ystring
  f_fails_in :: "nat option"
  f_error :: bool

definition fread :: "c_file \<Rightarrow> nat \<Rightarrow> ystring \<times> c_file" where
  "fread f n = (case f_fails_in f of
     None \<Rightarrow> (take n (f_rest f), f\<lparr>f_rest := drop n (f_rest f)\<rparr>)
   | Some k \<Rightarrow>
       (take (min n k) (f_rest f),
        f\<lparr>f_rest := drop (min n k) (f_rest f), f_fails_in := Some (k - min n k),
          f_error := f_error f \<or> k < n \<and> k < length (f_rest f)\<rparr>))"

definition yaml_file_read_handler :: "c_file read_handler" where
  "yaml_file_read_handler f room = (let (bytes, f') = fread f room in (\<not> f_error f', bytes, f'))"

subsection \<open>Errors and the raw buffer\<close>

definition yaml_parser_set_reader_error ::
    "string \<Rightarrow> nat \<Rightarrow> int \<Rightarrow> (('h, 'z) yaml_reader_scheme, 'a) prog" where
  "yaml_parser_set_reader_error problem offset value = errorM (\<lambda>p. p\<lparr>p_error := YAML_READER_ERROR,
     p_problem := problem, p_problem_offset := offset, p_problem_value := value\<rparr>)"

abbreviation raw_rest :: "('h, 'z) yaml_reader_scheme \<Rightarrow> ystring" where
  "raw_rest p \<equiv> b_rest (p_raw_buffer p)"

text \<open>
  The remaining bytes are moved to the beginning of the raw buffer, then the read handler fills the
  room behind them.  A handler that writes more bytes than there is room for overruns the buffer.
\<close>

definition yaml_parser_update_raw_buffer :: "(('h, 'z) yaml_reader_scheme, unit) prog" where
  "yaml_parser_update_raw_buffer p =
     (let r = p_raw_buffer p in
      if b_pos r = 0 \<and> length (b_data r) = b_cap r then Return () p
      else if p_eof p then Return () p
      else case p_read_handler p of
        None \<Rightarrow> Fault
      | Some handler \<Rightarrow>
          let kept = b_rest r;
              room = b_cap r - length kept;
              (ok, bytes, d) = handler (p_read_handler_data p) room
          in if length bytes > room then Fault
             else if \<not> ok then
               yaml_parser_set_reader_error ''input error'' (p_offset p) (-1)
                 (p\<lparr>p_raw_buffer := r\<lparr>b_data := kept, b_pos := 0\<rparr>, p_read_handler_data := d\<rparr>)
             else Return () (p\<lparr>p_raw_buffer := r\<lparr>b_data := kept @ bytes, b_pos := 0\<rparr>,
                 p_read_handler_data := d, p_eof := (bytes = [])\<rparr>))"

definition skip_raw :: "nat \<Rightarrow> ('h, 'z) yaml_reader_scheme \<Rightarrow> ('h, 'z) yaml_reader_scheme" where
  "skip_raw n p = p\<lparr>p_raw_buffer := (p_raw_buffer p)\<lparr>b_pos := b_pos (p_raw_buffer p) + n\<rparr>,
     p_offset := p_offset p + n\<rparr>"

definition BOM_UTF8 :: ystring where "BOM_UTF8 = [0xEF, 0xBB, 0xBF]"
definition BOM_UTF16LE :: ystring where "BOM_UTF16LE = [0xFF, 0xFE]"
definition BOM_UTF16BE :: ystring where "BOM_UTF16BE = [0xFE, 0xFF]"

text \<open>Every round of the loop reads at least one byte or meets the end of the input: 4 rounds do.\<close>

definition yaml_parser_determine_encoding :: "(('h, 'z) yaml_reader_scheme, unit) prog" where
  "yaml_parser_determine_encoding =
     seqM (whileM 4 (\<lambda>p. \<not> p_eof p \<and> length (raw_rest p) < 3) yaml_parser_update_raw_buffer)
       (modifyM (\<lambda>p.
          if length (raw_rest p) \<ge> 2 \<and> take 2 (raw_rest p) = BOM_UTF16LE then
            skip_raw 2 (p\<lparr>p_encoding := YAML_UTF16LE_ENCODING\<rparr>)
          else if length (raw_rest p) \<ge> 2 \<and> take 2 (raw_rest p) = BOM_UTF16BE then
            skip_raw 2 (p\<lparr>p_encoding := YAML_UTF16BE_ENCODING\<rparr>)
          else if length (raw_rest p) \<ge> 3 \<and> take 3 (raw_rest p) = BOM_UTF8 then
            skip_raw 3 (p\<lparr>p_encoding := YAML_UTF8_ENCODING\<rparr>)
          else p\<lparr>p_encoding := YAML_UTF8_ENCODING\<rparr>))"

subsection \<open>Decoding one character\<close>

text \<open>
  The outcome of the \<open>switch\<close> over the encoding: a character and its width, an incomplete sequence
  at the end of the raw buffer, or an error (message, distance of the offending byte, value).
\<close>

datatype decoded = Decoded "32 word" nat | Incomplete | Invalid string nat int

definition decode_utf8 :: "bool \<Rightarrow> ystring \<Rightarrow> decoded" where
  "decode_utf8 eof raw =
     (let octet = hd raw; width = utf8_width octet in
      if width = 0 then Invalid ''invalid leading UTF-8 octet'' 0 (uint octet)
      else if width > length raw then
        (if eof then Invalid ''incomplete UTF-8 octet sequence'' 0 (-1) else Incomplete)
      else case utf8_trailing 1 (utf8_lead_value octet) (take (width - 1) (tl raw)) of
        Inl (k, bad) \<Rightarrow> Invalid ''invalid trailing UTF-8 octet'' k (uint bad)
      | Inr value \<Rightarrow>
          if \<not> utf8_length_ok width value then Invalid ''invalid length of a UTF-8 sequence'' 0 (-1)
          else if (value \<ge> 0xD800 \<and> value \<le> 0xDFFF) \<or> value > 0x10FFFF
            then Invalid ''invalid Unicode character'' 0 (uint value)
          else Decoded value width)"

definition utf16_unit :: "bool \<Rightarrow> ystring \<Rightarrow> nat \<Rightarrow> 32 word" where
  "utf16_unit le raw i =
     (let low = (if le then 0 else 1); high = (if le then 1 else 0)
      in ucast (raw ! (i + low)) + push_bit 8 (ucast (raw ! (i + high))))"

definition decode_utf16 :: "bool \<Rightarrow> bool \<Rightarrow> ystring \<Rightarrow> decoded" where
  "decode_utf16 le eof raw =
     (if length raw < 2 then
        (if eof then Invalid ''incomplete UTF-16 character'' 0 (-1) else Incomplete)
      else let value = utf16_unit le raw 0 in
        if value AND 0xFC00 = 0xDC00 then Invalid ''unexpected low surrogate area'' 0 (uint value)
        else if value AND 0xFC00 = 0xD800 then
          (if length raw < 4 then
             (if eof then Invalid ''incomplete UTF-16 surrogate pair'' 0 (-1) else Incomplete)
           else let value2 = utf16_unit le raw 2 in
             if value2 AND 0xFC00 \<noteq> 0xDC00
             then Invalid ''expected low surrogate area'' 2 (uint value2)
             else Decoded (0x10000 + push_bit 10 (value AND 0x3FF) + (value2 AND 0x3FF)) 4)
        else Decoded value 2)"

text \<open>With no encoding set the \<open>switch\<close> falls through with \<open>value = 0\<close> and \<open>width = 0\<close>.\<close>

definition decode_char :: "yaml_encoding \<Rightarrow> bool \<Rightarrow> ystring \<Rightarrow> decoded" where
  "decode_char enc eof raw = (case enc of
     YAML_UTF8_ENCODING \<Rightarrow> decode_utf8 eof raw
   | YAML_UTF16LE_ENCODING \<Rightarrow> decode_utf16 True eof raw
   | YAML_UTF16BE_ENCODING \<Rightarrow> decode_utf16 False eof raw
   | YAML_ANY_ENCODING \<Rightarrow> Decoded 0 0)"

definition allowed_char :: "32 word \<Rightarrow> bool" where
  "allowed_char value \<longleftrightarrow> value = 0x09 \<or> value = 0x0A \<or> value = 0x0D
     \<or> (value \<ge> 0x20 \<and> value \<le> 0x7E) \<or> value = 0x85 \<or> (value \<ge> 0xA0 \<and> value \<le> 0xD7FF)
     \<or> (value \<ge> 0xE000 \<and> value \<le> 0xFFFD) \<or> (value \<ge> 0x10000 \<and> value \<le> 0x10FFFF)"

subsection \<open>Filling the buffer\<close>

definition put_buffer :: "ystring \<Rightarrow> (('h, 'z) yaml_reader_scheme, unit) prog" where
  "put_buffer bs p =
     (if length (b_data (p_buffer p)) + length bs \<le> b_cap (p_buffer p)
      then Return () (p\<lparr>p_buffer := (p_buffer p)\<lparr>b_data := b_data (p_buffer p) @ bs\<rparr>,
             p_unread := p_unread p + 1\<rparr>)
      else Fault)"

text \<open>One round of the inner loop; \<open>False\<close>: the loop is left on an incomplete character.\<close>

definition decode_step :: "(('h, 'z) yaml_reader_scheme, bool) prog" where
  "decode_step p = (case decode_char (p_encoding p) (p_eof p) (raw_rest p) of
     Invalid problem k value \<Rightarrow> yaml_parser_set_reader_error problem (p_offset p + k) value p
   | Incomplete \<Rightarrow> Return False p
   | Decoded value width \<Rightarrow>
       if \<not> allowed_char value then
         yaml_parser_set_reader_error ''control characters are not allowed'' (p_offset p) (uint value) p
       else seqM (modifyM (skip_raw width)) (seqM (put_buffer (utf8_put value)) (returnM True)) p)"

fun decode_loop :: "nat \<Rightarrow> (('h, 'z) yaml_reader_scheme, unit) prog" where
  "decode_loop 0 p = (if raw_rest p \<noteq> [] then Fault else Return () p)"
| "decode_loop (Suc n) p =
     (if raw_rest p \<noteq> [] then bindM decode_step (\<lambda>continue. if continue then decode_loop n else returnM ()) p
      else Return () p)"

text \<open>
  The outer loop.  A round decodes the whole raw buffer up to an incomplete character of at most
  three bytes, and every round but the first reads at least one byte or meets the end of the input;
  so four rounds per requested character, and some for the first, are enough.
\<close>

fun fill_loop :: "nat \<Rightarrow> bool \<Rightarrow> nat \<Rightarrow> (('h, 'z) yaml_reader_scheme, unit) prog" where
  "fill_loop 0 first len p = Fault"
| "fill_loop (Suc n) first len p =
     (if p_unread p < len then
        seqM (if \<not> first \<or> raw_rest p = [] then yaml_parser_update_raw_buffer else returnM ())
          (seqM (\<lambda>p. decode_loop (length (raw_rest p)) p)
            (\<lambda>p. if p_eof p then put_buffer [0] p else fill_loop n False len p)) p
      else if p_offset p \<ge> MAX_FILE_SIZE then
        yaml_parser_set_reader_error ''input is too long'' (p_offset p) (-1) p
      else Return () p)"

definition move_unread :: "('h, 'z) yaml_reader_scheme \<Rightarrow> ('h, 'z) yaml_reader_scheme" where
  "move_unread p = (let b = p_buffer p in
     if 0 < b_pos b \<and> b_pos b < length (b_data b) then
       p\<lparr>p_buffer := b\<lparr>b_data := b_rest b, b_pos := 0\<rparr>\<rparr>
     else if b_pos b = length (b_data b) then
       p\<lparr>p_buffer := b\<lparr>b_data := [], b_pos := 0\<rparr>\<rparr>
     else p)"

definition yaml_parser_update_buffer :: "nat \<Rightarrow> (('h, 'z) yaml_reader_scheme, unit) prog" where
  "yaml_parser_update_buffer len =
     seqM (assertM (\<lambda>p. p_read_handler p \<noteq> None))
       (\<lambda>p. if p_eof p \<and> raw_rest p = [] then Return () p
            else if p_unread p \<ge> len then Return () p
            else seqM (if p_encoding p = YAML_ANY_ENCODING then yaml_parser_determine_encoding else returnM ())
              (seqM (modifyM move_unread) (fill_loop (4 * len + 5) True len)) p)"

subsection \<open>Properties of the decoders\<close>

lemma decode_utf8_Decoded:
  assumes "raw \<noteq> []" "decode_utf8 eof raw = Decoded v w"
  shows "w = utf8_width (hd raw) \<and> w \<le> length raw \<and> 0 < w \<and> utf8_seq (take w raw) v
    \<and> \<not> (0xD800 \<le> v \<and> v \<le> 0xDFFF) \<and> v \<le> 0x10FFFF"
proof -
  have "take (Suc n) raw = hd raw # take n (tl raw)" for n
    using assms(1) by (cases raw) auto
  from this [of "utf8_width (hd raw) - 1"] assms show ?thesis
    by (auto simp: decode_utf8_def Let_def utf8_seq_def not_less split: if_splits sum.splits prod.splits)
qed

lemma decode_utf8_append:
  assumes "raw \<noteq> []" "utf8_width (hd raw) \<le> length raw"
  shows "decode_utf8 eof (raw @ ext) = decode_utf8 eof' raw"
proof -
  have "take (utf8_width (hd raw) - 1) (tl raw @ ext) = take (utf8_width (hd raw) - 1) (tl raw)"
    using assms by (cases raw) auto
  with assms show ?thesis by (simp add: decode_utf8_def Let_def)
qed

lemma decode_utf8_seq:
  assumes "utf8_seq bs v" "\<not> (0xD800 \<le> v \<and> v \<le> 0xDFFF)" "v \<le> 0x10FFFF"
  shows "decode_utf8 eof (bs @ ext) = Decoded v (length bs)"
proof -
  from assms(1) have ne: "bs \<noteq> []" and w: "utf8_width (hd bs) = length bs" by (auto simp: utf8_seq_def)
  from ne have t: "take (length bs - 1) (tl bs) = tl bs" by simp
  have "decode_utf8 eof (bs @ ext) = decode_utf8 eof bs"
    by (rule decode_utf8_append) (simp_all add: ne w)
  also have "\<dots> = Decoded v (length bs)"
    using assms ne w t by (simp add: decode_utf8_def Let_def utf8_seq_def not_less)
  finally show ?thesis .
qed

lemma unat_utf16_unit: "unat (utf16_unit le raw i) =
    unat (raw ! (if le then i else i + 1)) + 256 * unat (raw ! (if le then i + 1 else i))"
proof -
  let ?a = "raw ! (if le then i else i + 1)" and ?b = "raw ! (if le then i + 1 else i)"
  have "utf16_unit le raw i = ucast ?a + push_bit 8 (ucast ?b)"
    by (simp add: utf16_unit_def)
  moreover have "unat (ucast ?a + push_bit 8 (ucast ?b) :: 32 word) = unat ?a + 256 * unat ?b"
    using unat_byte_less [of ?a] unat_byte_less [of ?b]
    by (simp add: unat_word_ariths unat_push_bit unat_ucast_up)
  ultimately show ?thesis by simp
qed

lemma utf16_unit_less: "unat (utf16_unit le raw i) < 65536"
  using unat_byte_less [of "raw ! (if le then i else i + 1)"] unat_byte_less [of "raw ! (if le then i + 1 else i)"]
  unfolding unat_utf16_unit by linarith

lemma utf16_unit_append: "i + 1 < length raw \<Longrightarrow> utf16_unit le (raw @ ext) i = utf16_unit le raw i"
  by (simp add: utf16_unit_def nth_append)

lemma unat_and_FC00: "unat (v AND 0xFC00 :: 32 word) = unat v mod 65536 div 1024 * 1024"
proof -
  have "(0xFC00 :: 32 word) = mask 16 AND NOT (mask 10)" by (simp add: mask_eq_exp_minus_1)
  then have "v AND 0xFC00 = (v AND mask 16) AND NOT (mask 10)" by (simp only: and.assoc)
  then show ?thesis by (simp only: unat_and_not_mask unat_and_mask) simp
qed

lemma low_surrogate_iff: "unat (v :: 32 word) < 65536 \<Longrightarrow> v AND 0xFC00 = 0xDC00 \<longleftrightarrow> 0xDC00 \<le> unat v \<and> unat v < 0xE000"
  unfolding word_unat_eq_iff unat_and_FC00 by (auto simp: div_eq_iff_nat)

lemma high_surrogate_iff: "unat (v :: 32 word) < 65536 \<Longrightarrow> v AND 0xFC00 = 0xD800 \<longleftrightarrow> 0xD800 \<le> unat v \<and> unat v < 0xDC00"
  unfolding word_unat_eq_iff unat_and_FC00 by (auto simp: div_eq_iff_nat)

lemma unat_surrogate_pair:
  "unat (0x10000 + push_bit 10 (v AND 0x3FF) + (w AND 0x3FF) :: 32 word)
     = 0x10000 + unat v mod 1024 * 1024 + unat w mod 1024"
proof -
  have "unat (0x10000 + push_bit 10 x + y :: 32 word) = 0x10000 + unat x * 1024 + unat y"
    if "unat x < 1024" "unat y < 1024" for x y :: "32 word"
    using that by (simp add: unat_word_ariths unat_push_bit)
  from this [of "v AND 0x3FF" "w AND 0x3FF"] show ?thesis by (simp add: unat_and_lit)
qed

lemma decode_utf16_Decoded:
  assumes "decode_utf16 le eof raw = Decoded v w"
  shows "(w = 2 \<and> unat v < 65536 \<or> w = 4 \<and> 65536 \<le> unat v \<and> unat v < 0x110000) \<and> w \<le> length raw"
proof -
  have "unat (0x10000 + push_bit 10 (x AND 0x3FF) + (y AND 0x3FF) :: 32 word) < 0x110000" for x y :: "32 word"
  proof -
    have "unat x mod 1024 \<le> 1023" "unat y mod 1024 \<le> 1023" by (simp_all add: less_Suc_eq_le [symmetric])
    then show ?thesis unfolding unat_surrogate_pair by linarith
  qed
  moreover have "65536 \<le> unat (0x10000 + push_bit 10 (x AND 0x3FF) + (y AND 0x3FF) :: 32 word)" for x y :: "32 word"
    unfolding unat_surrogate_pair by linarith
  ultimately show ?thesis
    using assms utf16_unit_less [of le raw 0]
    by (auto simp: decode_utf16_def Let_def not_less split: if_splits)
qed

lemma decode_utf16_append:
  assumes "decode_utf16 le eof' raw = r"
    and "(\<exists>v w. r = Decoded v w) \<or> \<not> eof' \<and> r \<noteq> Incomplete"
  shows "decode_utf16 le eof (raw @ ext) = r"
  using assms(1) assms(2)
  by (auto simp: decode_utf16_def Let_def utf16_unit_append split: if_splits)

text \<open>
  The same facts for \<open>decode_char\<close>: a decoded character is below \<open>0x110000\<close>, its width is positive
  and lies in the raw bytes, its UTF-8 form is at most twice as long; an incomplete sequence has
  fewer than four bytes; and more input does not change a verdict other than \<open>Incomplete\<close>.
\<close>

lemma decode_char_Decoded:
  assumes "raw \<noteq> []" "enc \<noteq> YAML_ANY_ENCODING" "decode_char enc eof raw = Decoded v w"
  shows "0 < w \<and> w \<le> length raw \<and> unat v < 0x110000 \<and> length (utf8_put v) \<le> 2 * w"
proof (cases enc)
  case YAML_UTF8_ENCODING
  with assms have "decode_utf8 eof raw = Decoded v w" by (simp add: decode_char_def)
  from decode_utf8_Decoded [OF assms(1) this]
  have w: "w \<le> length raw" "0 < w" "v \<le> 0x10FFFF" and put: "take w raw = utf8_put v"
    by (auto simp: utf8_seq_iff)
  have "length (utf8_put v) = w" using w(1) by (simp flip: put)
  moreover have "unat v < 0x110000" using w(3) by (simp add: word_le_nat_alt)
  ultimately show ?thesis using w by simp
next
  case YAML_UTF16LE_ENCODING
  with assms have "decode_utf16 True eof raw = Decoded v w" by (simp add: decode_char_def)
  from decode_utf16_Decoded [OF this] show ?thesis
    by (auto simp: utf8_put_def word_le_nat_alt)
next
  case YAML_UTF16BE_ENCODING
  with assms have "decode_utf16 False eof raw = Decoded v w" by (simp add: decode_char_def)
  from decode_utf16_Decoded [OF this] show ?thesis
    by (auto simp: utf8_put_def word_le_nat_alt)
qed (use assms in auto)

lemma decode_char_Incomplete: "decode_char enc eof raw = Incomplete \<Longrightarrow> length raw < 4 \<and> \<not> eof"
  using utf8_width_le_4 [of "hd raw"]
  by (auto simp: decode_char_def decode_utf8_def decode_utf16_def Let_def
      split: yaml_encoding.splits if_splits sum.splits)

lemma decode_char_append:
  assumes "raw \<noteq> []" "decode_char enc eof' raw = r"
    and "(\<exists>v w. r = Decoded v w) \<or> \<not> eof' \<and> r \<noteq> Incomplete"
  shows "decode_char enc eof (raw @ ext) = r"
proof (cases enc)
  case YAML_UTF8_ENCODING
  with assms(2) have r: "decode_utf8 eof' raw = r" by (simp add: decode_char_def)
  show ?thesis
  proof (cases "utf8_width (hd raw) \<le> length raw")
    case True
    with r YAML_UTF8_ENCODING show ?thesis
      by (simp add: decode_char_def decode_utf8_append [OF assms(1), of eof ext eof'])
  next
    case False
    with r assms(3) show ?thesis by (auto simp: decode_utf8_def Let_def split: if_splits)
  qed
next
  case YAML_UTF16LE_ENCODING
  with decode_utf16_append [of True eof' raw r eof ext] assms show ?thesis by (simp add: decode_char_def)
next
  case YAML_UTF16BE_ENCODING
  with decode_utf16_append [of False eof' raw r eof ext] assms show ?thesis by (simp add: decode_char_def)
qed (use assms in \<open>auto simp: decode_char_def\<close>)

subsection \<open>Reference decoding of a whole input\<close>

text \<open>
  What an input means, independently of buffers: its characters, or \<open>None\<close> if some byte sequence is
  malformed or some character is not allowed.
\<close>

function decode_all :: "yaml_encoding \<Rightarrow> ystring \<Rightarrow> 32 word list option" where
  "decode_all enc bs =
     (if bs = [] then Some []
      else if enc = YAML_ANY_ENCODING then None
      else case decode_char enc True bs of
        Decoded v w \<Rightarrow> if allowed_char v then map_option ((#) v) (decode_all enc (drop w bs)) else None
      | _ \<Rightarrow> None)"
  by pat_completeness auto
termination
  by (relation "measure (\<lambda>(enc, bs). length bs)") (auto dest: decode_char_Decoded)

declare decode_all.simps [simp del]

lemma decode_all_Nil [simp]: "decode_all enc [] = Some []"
  by (simp add: decode_all.simps)

definition detect_encoding :: "ystring \<Rightarrow> yaml_encoding \<times> nat" where
  "detect_encoding bs =
     (if take 2 bs = BOM_UTF16LE then (YAML_UTF16LE_ENCODING, 2)
      else if take 2 bs = BOM_UTF16BE then (YAML_UTF16BE_ENCODING, 2)
      else if take 3 bs = BOM_UTF8 then (YAML_UTF8_ENCODING, 3)
      else (YAML_UTF8_ENCODING, 0))"

text \<open>With no encoding set yet, the byte order mark decides and is skipped.\<close>

definition decode_stream :: "yaml_encoding \<Rightarrow> ystring \<Rightarrow> 32 word list option" where
  "decode_stream enc bs =
     (if enc = YAML_ANY_ENCODING then let (enc', n) = detect_encoding bs in decode_all enc' (drop n bs)
      else decode_all enc bs)"

lemma allowed_char_scalar:
  "allowed_char v \<Longrightarrow> \<not> (0xD800 \<le> v \<and> v \<le> 0xDFFF) \<and> v \<le> 0x10FFFF \<and> unat v < 0x200000"
  by (auto simp: allowed_char_def word_le_nat_alt word_unat_eq_iff)

text \<open>For UTF-8 input, \<open>decode_all\<close> is the inverse of the encoder on allowed characters.\<close>

lemma decode_all_utf8_put:
  assumes "\<forall>v\<in>set vs. allowed_char v"
  shows "decode_all YAML_UTF8_ENCODING (concat (map utf8_put vs)) = Some vs"
  using assms
proof (induction vs)
  case (Cons v vs)
  then have v: "allowed_char v" by simp
  have "decode_utf8 True (utf8_put v @ concat (map utf8_put vs)) = Decoded v (length (utf8_put v))"
    using allowed_char_scalar [OF v] by (intro decode_utf8_seq) (auto simp: utf8_seq_iff)
  with Cons show ?case
    by (subst decode_all.simps) (simp add: decode_char_def)
qed simp

lemma decode_all_utf8_Some:
  "decode_all YAML_UTF8_ENCODING bs = Some vs \<Longrightarrow> bs = concat (map utf8_put vs) \<and> (\<forall>v\<in>set vs. allowed_char v)"
proof (induction "length bs" arbitrary: bs vs rule: less_induct)
  case less
  show ?case
  proof (cases "bs = []")
    case True
    with less.prems show ?thesis by simp
  next
    case False
    from less.prems False obtain v w vs' where d: "decode_utf8 True bs = Decoded v w" "allowed_char v"
      and vs: "vs = v # vs'" "decode_all YAML_UTF8_ENCODING (drop w bs) = Some vs'"
      by (subst (asm) decode_all.simps) (auto simp: decode_char_def split: decoded.splits if_splits)
    from decode_utf8_Decoded [OF False d(1)] have w: "0 < w" "take w bs = utf8_put v"
      by (auto simp: utf8_seq_iff)
    with False have "length (drop w bs) < length bs" by simp
    from less.hyps [OF this vs(2)] have "drop w bs = concat (map utf8_put vs')" "\<forall>v\<in>set vs'. allowed_char v"
      by simp_all
    with w vs d show ?thesis by (metis append_take_drop_id concat.simps(2) list.simps(9) set_ConsD)
  qed
qed

end
