(* ===== verification/Reader_Correct.thy ===== *)
theory Reader_Correct
  imports Reader
begin

text \<open>
  What the reader guarantees.  For every read handler that fulfils its documented contract (locale
  \<open>byte_source\<close>), \<open>yaml_parser_update_buffer\<close> never overruns a buffer and always returns; the
  characters it appends to the working buffer are the next characters of the input as the
  reference decoder \<open>decode_stream\<close> reads it, however the handler cuts the input into pieces; and it
  fails only where the input is malformed or too long.
\<close>

definition bytes_left :: "('h \<Rightarrow> ystring) \<Rightarrow> ('h, 'z) yaml_reader_scheme \<Rightarrow> ystring" where
  "bytes_left pending p = raw_rest p @ pending (p_read_handler_data p)"

text \<open>The working buffer holds exactly the unread characters \<open>cs\<close>, as UTF-8.\<close>

definition holds :: "('h, 'z) yaml_reader_scheme \<Rightarrow> 32 word list \<Rightarrow> bool" where
  "holds p cs \<longleftrightarrow> b_rest (p_buffer p) = concat (map utf8_put cs) \<and> length cs = p_unread p"

text \<open>The characters still to come: those of the bytes left and the NUL that marks the end.\<close>

definition source_chars :: "('h \<Rightarrow> ystring) \<Rightarrow> ('h, 'z) yaml_reader_scheme \<Rightarrow> 32 word list option" where
  "source_chars pending p =
     (if p_eof p then Some []
      else map_option (\<lambda>cs. cs @ [0]) (decode_stream (p_encoding p) (bytes_left pending p)))"

definition reader_inv ::
    "'h read_handler \<Rightarrow> ('h \<Rightarrow> ystring) \<Rightarrow> ('h \<Rightarrow> bool) \<Rightarrow> ('h, 'z) yaml_reader_scheme \<Rightarrow> bool" where
  "reader_inv handler pending src_ok p \<longleftrightarrow>
     p_read_handler p = Some handler \<and> src_ok (p_read_handler_data p)
     \<and> buffer_ok (p_raw_buffer p) \<and> b_cap (p_raw_buffer p) = INPUT_RAW_BUFFER_SIZE
     \<and> buffer_ok (p_buffer p) \<and> b_cap (p_buffer p) = INPUT_BUFFER_SIZE
     \<and> (p_eof p \<longrightarrow> pending (p_read_handler_data p) = [])"

text \<open>Between two calls the raw buffer is empty at the end of the input.\<close>

definition reader_ok ::
    "'h read_handler \<Rightarrow> ('h \<Rightarrow> ystring) \<Rightarrow> ('h \<Rightarrow> bool) \<Rightarrow> ('h, 'z) yaml_reader_scheme \<Rightarrow> bool" where
  "reader_ok handler pending src_ok p \<longleftrightarrow>
     reader_inv handler pending src_ok p \<and> (p_eof p \<longrightarrow> raw_rest p = [])"

lemma length_concat_put: "length (concat (map utf8_put cs)) \<le> 4 * length cs"
proof (induction cs)
  case (Cons c cs)
  with length_utf8_put_le [of c] show ?case by simp
qed simp

text \<open>\<open>p'\<close> differs from \<open>p\<close> in the raw side of the reader only.\<close>

definition raw_changed :: "('h, 'z) yaml_reader_scheme \<Rightarrow> ('h, 'z) yaml_reader_scheme \<Rightarrow> bool" where
  "raw_changed p p' \<longleftrightarrow> p' = p\<lparr>p_raw_buffer := p_raw_buffer p',
     p_read_handler_data := p_read_handler_data p', p_eof := p_eof p'\<rparr>"

lemma raw_changedD:
  assumes "raw_changed p p'"
  shows "p_buffer p' = p_buffer p" "p_unread p' = p_unread p" "p_encoding p' = p_encoding p"
    "p_offset p' = p_offset p" "p_error p' = p_error p" "p_read_handler p' = p_read_handler p"
    "holds p' cs = holds p cs"
proof -
  obtain r d e where "p' = p\<lparr>p_raw_buffer := r, p_read_handler_data := d, p_eof := e\<rparr>"
    using assms unfolding raw_changed_def by blast
  then show "p_buffer p' = p_buffer p" "p_unread p' = p_unread p" "p_encoding p' = p_encoding p"
    "p_offset p' = p_offset p" "p_error p' = p_error p" "p_read_handler p' = p_read_handler p"
    "holds p' cs = holds p cs"
    by (simp_all add: holds_def)
qed

lemma raw_changed_refl [simp]: "raw_changed p p"
  by (simp add: raw_changed_def)

lemma raw_changed_trans: "raw_changed p q \<Longrightarrow> raw_changed q r \<Longrightarrow> raw_changed p r"
proof -
  assume "raw_changed p q" "raw_changed q r"
  then obtain a b c a' b' c' where
    "q = p\<lparr>p_raw_buffer := a, p_read_handler_data := b, p_eof := c\<rparr>"
    "r = q\<lparr>p_raw_buffer := a', p_read_handler_data := b', p_eof := c'\<rparr>"
    unfolding raw_changed_def by blast
  then show ?thesis by (simp add: raw_changed_def)
qed

lemma skip_raw_0 [simp]: "skip_raw 0 p = p"
  by (simp add: skip_raw_def)

text \<open>A bound on the number of characters still to come: those unread, one for each byte left, and the NUL.\<close>

definition chars_bound :: "('h \<Rightarrow> ystring) \<Rightarrow> ('h, 'z) yaml_reader_scheme \<Rightarrow> nat" where
  "chars_bound pending p = p_unread p + length (bytes_left pending p) + (if p_eof p then 0 else 1)"

subsection \<open>The contract of a read handler\<close>

locale byte_source =
  fixes handler :: "'h read_handler"
    and pending :: "'h \<Rightarrow> ystring"
    and src_ok :: "'h \<Rightarrow> bool"
  assumes handler_spec: "src_ok d \<Longrightarrow> 0 < room \<Longrightarrow>
      \<exists>bs d'. handler d room = (True, bs, d') \<and> length bs \<le> room \<and> src_ok d'
        \<and> pending d = bs @ pending d' \<and> (bs = [] \<longrightarrow> pending d = [])"
begin

abbreviation inv :: "('h, 'z) yaml_reader_scheme \<Rightarrow> bool" where
  "inv \<equiv> reader_inv handler pending src_ok"

abbreviation left :: "('h, 'z) yaml_reader_scheme \<Rightarrow> ystring" where
  "left \<equiv> bytes_left pending"

lemma raw_rest_length: "inv p \<Longrightarrow> length (raw_rest p) \<le> INPUT_RAW_BUFFER_SIZE"
  by (auto simp: reader_inv_def buffer_ok_def b_rest_def)

lemma wp_update_raw_buffer:
  assumes inv: "inv p"
    and Q: "\<And>p'. inv p' \<Longrightarrow> left p' = left p \<Longrightarrow> raw_changed p p'
      \<Longrightarrow> length (raw_rest p) < INPUT_RAW_BUFFER_SIZE \<longrightarrow> p_eof p' \<or> length (raw_rest p) < length (raw_rest p')
      \<Longrightarrow> Q () p'"
  shows "wp yaml_parser_update_raw_buffer Q E p"
proof -
  let ?r = "p_raw_buffer p" and ?d = "p_read_handler_data p"
  let ?room = "b_cap ?r - length (b_rest ?r)"
  consider "b_pos ?r = 0 \<and> length (b_data ?r) = b_cap ?r" | "p_eof p"
    | "\<not> (b_pos ?r = 0 \<and> length (b_data ?r) = b_cap ?r)" "\<not> p_eof p" by blast
  then show ?thesis
  proof cases
    case 1
    then have "length (raw_rest p) = INPUT_RAW_BUFFER_SIZE" using inv by (auto simp: reader_inv_def b_rest_def)
    with 1 inv show ?thesis
      by (simp add: wp_def yaml_parser_update_raw_buffer_def Let_def Q)
  next
    case 2
    with inv show ?thesis by (simp add: wp_def yaml_parser_update_raw_buffer_def Let_def Q)
  next
    case 3
    then have room: "0 < ?room" using inv by (auto simp: reader_inv_def buffer_ok_def b_rest_def)
    have "src_ok ?d" "p_read_handler p = Some handler" using inv by (simp_all add: reader_inv_def)
    from handler_spec [OF this(1) room] this(2) obtain bs d' where h: "handler ?d ?room = (True, bs, d')"
        "length bs \<le> ?room" "src_ok d'" "pending ?d = bs @ pending d'" "bs = [] \<longrightarrow> pending ?d = []"
      and hd: "p_read_handler p = Some handler" by blast
    let ?p' = "p\<lparr>p_raw_buffer := ?r\<lparr>b_data := b_rest ?r @ bs, b_pos := 0\<rparr>, p_read_handler_data := d', p_eof := (bs = [])\<rparr>"
    have "inv ?p'" using inv h by (auto simp: reader_inv_def buffer_ok_def b_rest_def)
    moreover have "left ?p' = left p" using h(4) by (simp add: bytes_left_def b_rest_def)
    moreover have "raw_changed p ?p'" by (simp add: raw_changed_def)
    moreover have "p_eof ?p' \<or> length (raw_rest p) < length (raw_rest ?p')" by (simp add: b_rest_def)
    ultimately have "Q () ?p'" by (intro Q) auto
    with 3 hd h show ?thesis by (auto simp: wp_def yaml_parser_update_raw_buffer_def Let_def)
  qed
qed

lemma raw_changed_left: "inv p' \<Longrightarrow> raw_changed p p' \<Longrightarrow> left p' = left p \<Longrightarrow> p_eof p' \<Longrightarrow> raw_rest p' = left p"
  by (simp add: reader_inv_def bytes_left_def)

text \<open>The encoding is determined from the first bytes of the input, whatever pieces they come in.\<close>

lemma wp_determine_encoding:
  fixes p :: "('h, 'z) yaml_reader_scheme"
  assumes inv: "inv p"
    and Q: "\<And>p' q n. inv p' \<Longrightarrow> raw_changed p q \<Longrightarrow> p' = skip_raw n (q\<lparr>p_encoding := fst (detect_encoding (left p))\<rparr>)
      \<Longrightarrow> n = snd (detect_encoding (left p)) \<Longrightarrow> left p' = drop n (left p) \<Longrightarrow> Q () p'"
  shows "wp yaml_parser_determine_encoding Q E p"
  unfolding yaml_parser_determine_encoding_def wp_seqM
proof (rule wp_whileM [where I = "\<lambda>q. inv q \<and> raw_changed p q \<and> left q = left p"
      and \<mu> = "\<lambda>q. if p_eof q then 0 else 4 - length (raw_rest q)"])
  fix q :: "('h, 'z) yaml_reader_scheme"
  assume I: "inv q \<and> raw_changed p q \<and> left q = left p" and b: "\<not> p_eof q \<and> length (raw_rest q) < 3"
  from I have "inv q" by simp
  then show "wp yaml_parser_update_raw_buffer (\<lambda>_ q'. (inv q' \<and> raw_changed p q' \<and> left q' = left p)
      \<and> (if p_eof q' then 0 else 4 - length (raw_rest q')) < (if p_eof q then 0 else 4 - length (raw_rest q))) E q"
    by (rule wp_update_raw_buffer)
      (use I b in \<open>auto intro: raw_changed_trans simp: INPUT_RAW_BUFFER_SIZE_def\<close>)
next
  fix q :: "('h, 'z) yaml_reader_scheme"
  assume I: "inv q \<and> raw_changed p q \<and> left q = left p" and "\<not> (\<not> p_eof q \<and> length (raw_rest q) < 3)"
  then have long: "3 \<le> length (raw_rest q) \<or> raw_rest q = left p"
    using raw_changed_left by fastforce
  have lp: "left p = raw_rest q @ pending (p_read_handler_data q)" using I by (simp add: bytes_left_def)
  from this long have t: "take 2 (raw_rest q) = take 2 (left p)" "take 3 (raw_rest q) = take 3 (left p)"
    by auto
  let ?e = "fst (detect_encoding (left p))" and ?n = "snd (detect_encoding (left p))"
  let ?p' = "skip_raw ?n (q\<lparr>p_encoding := ?e\<rparr>)"
  have len: "take 2 (left p) = BOM_UTF16LE \<longrightarrow> 2 \<le> length (raw_rest q)"
    "take 2 (left p) = BOM_UTF16BE \<longrightarrow> 2 \<le> length (raw_rest q)"
    "take 3 (left p) = BOM_UTF8 \<longrightarrow> 3 \<le> length (raw_rest q)"
    unfolding t [symmetric] by (auto simp: BOM_UTF8_def BOM_UTF16LE_def BOM_UTF16BE_def dest!: arg_cong [where f = length])
  then have n: "?n \<le> length (raw_rest q)" by (simp add: detect_encoding_def)
  have inv': "inv ?p'" using I n by (auto simp: reader_inv_def skip_raw_def buffer_ok_def b_rest_def)
  have left': "left ?p' = drop ?n (left p)"
  proof -
    have "left ?p' = drop ?n (raw_rest q) @ pending (p_read_handler_data q)"
      by (simp add: skip_raw_def bytes_left_def b_rest_def add.commute)
    then show ?thesis using n by (simp add: lp)
  qed
  have "(if 2 \<le> length (raw_rest q) \<and> take 2 (raw_rest q) = BOM_UTF16LE then
            skip_raw 2 (q\<lparr>p_encoding := YAML_UTF16LE_ENCODING\<rparr>)
          else if 2 \<le> length (raw_rest q) \<and> take 2 (raw_rest q) = BOM_UTF16BE then
            skip_raw 2 (q\<lparr>p_encoding := YAML_UTF16BE_ENCODING\<rparr>)
          else if 3 \<le> length (raw_rest q) \<and> take 3 (raw_rest q) = BOM_UTF8 then
            skip_raw 3 (q\<lparr>p_encoding := YAML_UTF8_ENCODING\<rparr>)
          else q\<lparr>p_encoding := YAML_UTF8_ENCODING\<rparr>) = ?p'"
  proof -
    have "(2 \<le> length (raw_rest q) \<and> take 2 (raw_rest q) = BOM_UTF16LE) = (take 2 (left p) = BOM_UTF16LE)"
      "(2 \<le> length (raw_rest q) \<and> take 2 (raw_rest q) = BOM_UTF16BE) = (take 2 (left p) = BOM_UTF16BE)"
      "(3 \<le> length (raw_rest q) \<and> take 3 (raw_rest q) = BOM_UTF8) = (take 3 (left p) = BOM_UTF8)"
      using len by (auto simp: t)
    then show ?thesis unfolding detect_encoding_def by (simp only: skip_raw_0 if_split fst_conv snd_conv) simp
  qed
  then show "wp (modifyM (\<lambda>p. if 2 \<le> length (raw_rest p) \<and> take 2 (raw_rest p) = BOM_UTF16LE then
            skip_raw 2 (p\<lparr>p_encoding := YAML_UTF16LE_ENCODING\<rparr>)
          else if 2 \<le> length (raw_rest p) \<and> take 2 (raw_rest p) = BOM_UTF16BE then
            skip_raw 2 (p\<lparr>p_encoding := YAML_UTF16BE_ENCODING\<rparr>)
          else if 3 \<le> length (raw_rest p) \<and> take 3 (raw_rest p) = BOM_UTF8 then
            skip_raw 3 (p\<lparr>p_encoding := YAML_UTF8_ENCODING\<rparr>)
          else p\<lparr>p_encoding := YAML_UTF8_ENCODING\<rparr>)) Q E q"
    unfolding wp_modifyM using Q [OF inv' _ refl refl left'] I by simp
qed (use inv in auto)

text \<open>
  \<open>decodes p vs p'\<close>: going from \<open>p\<close> to \<open>p'\<close> the characters \<open>vs\<close> were moved from the raw buffer to
  the end of the working buffer.
\<close>

definition decodes :: "('h, 'z) yaml_reader_scheme \<Rightarrow> 32 word list \<Rightarrow> ('h, 'z) yaml_reader_scheme \<Rightarrow> bool" where
  "decodes p vs p' \<longleftrightarrow> inv p' \<and> p_encoding p' = p_encoding p \<and> p_eof p' = p_eof p
     \<and> b_pos (p_buffer p') = b_pos (p_buffer p) \<and> p_unread p' = p_unread p + length vs
     \<and> b_data (p_buffer p') = b_data (p_buffer p) @ concat (map utf8_put vs)
     \<and> decode_all (p_encoding p) (left p) = map_option ((@) vs) (decode_all (p_encoding p) (left p'))
     \<and> length (raw_rest p') + length vs \<le> length (raw_rest p) \<and> (vs = [] \<longrightarrow> p' = p)
     \<and> length (left p') + length vs \<le> length (left p) \<and> (\<forall>v\<in>set vs. allowed_char v)
     \<and> length (b_data (p_buffer p')) + 2 * length (raw_rest p')
         \<le> length (b_data (p_buffer p)) + 2 * length (raw_rest p)"

lemma decodes_refl: "inv p \<Longrightarrow> decodes p [] p"
  by (cases "decode_all (p_encoding p) (left p)") (simp_all add: decodes_def)

lemma decodes_trans: "decodes p vs q \<Longrightarrow> decodes q ws r \<Longrightarrow> decodes p (vs @ ws) r"
  unfolding decodes_def by (cases "decode_all (p_encoding p) (left r)") auto

abbreviation raw_room :: "('h, 'z) yaml_reader_scheme \<Rightarrow> bool" where
  "raw_room p \<equiv> length (b_data (p_buffer p)) + 2 * length (raw_rest p) < INPUT_BUFFER_SIZE"

lemma wp_decode_step:
  assumes inv: "inv p" and ne: "raw_rest p \<noteq> []" and enc: "p_encoding p \<noteq> YAML_ANY_ENCODING"
    and room: "raw_room p"
    and step: "\<And>p' v. decodes p [v] p' \<Longrightarrow> Q True p'"
    and stop: "length (raw_rest p) < 4 \<Longrightarrow> \<not> p_eof p \<Longrightarrow> Q False p"
    and err: "\<And>p'. p_error p' = YAML_READER_ERROR \<Longrightarrow> decode_all (p_encoding p) (left p) = None \<Longrightarrow> E p'"
  shows "wp decode_step Q E p"
proof -
  let ?ext = "pending (p_read_handler_data p)" and ?e = "p_encoding p"
  have left: "left p = raw_rest p @ ?ext" and left_ne: "left p \<noteq> []"
    using ne by (simp_all add: bytes_left_def)
  have more_input: "decode_char ?e True (left p) = r"
    if "decode_char ?e (p_eof p) (raw_rest p) = r" "r \<noteq> Incomplete" for r
  proof (cases "p_eof p")
    case True
    with inv have "?ext = []" by (simp add: reader_inv_def)
    with True that left show ?thesis by simp
  next
    case False
    with that show ?thesis unfolding left by (intro decode_char_append [OF ne]) auto
  qed
  show ?thesis
  proof (cases "decode_char ?e (p_eof p) (raw_rest p)")
    case (Decoded v w)
    from decode_char_Decoded [OF ne enc Decoded]
    have w: "0 < w" "w \<le> length (raw_rest p)" "length (utf8_put v) \<le> 2 * w" by auto
    have all: "decode_all ?e (left p) = (if allowed_char v then map_option ((#) v) (decode_all ?e (drop w (left p))) else None)"
      using more_input [OF Decoded] left_ne enc by (subst decode_all.simps) simp
    let ?p' = "(skip_raw w p)\<lparr>p_buffer := (p_buffer p)\<lparr>b_data := b_data (p_buffer p) @ utf8_put v\<rparr>,
        p_unread := p_unread p + 1\<rparr>"
    have raw': "raw_rest ?p' = drop w (raw_rest p)" by (simp add: skip_raw_def b_rest_def add.commute)
    have fits: "length (b_data (p_buffer p)) + length (utf8_put v) \<le> INPUT_BUFFER_SIZE"
      using room w by linarith
    have "left ?p' = drop w (left p)" 
      unfolding bytes_left_def raw' using w by (simp add: skip_raw_def)
    moreover have "inv ?p'" using inv w fits
      by (auto simp: reader_inv_def skip_raw_def buffer_ok_def b_rest_def)
    moreover have "w \<le> length (left p)" using w(2) by (simp add: bytes_left_def)
    ultimately have "decodes p [v] ?p'" if "allowed_char v"
      using that all w raw' by (cases "decode_all ?e (drop w (left p))") (auto simp: decodes_def skip_raw_def)
    then have "Q True ?p'" if "allowed_char v" using that by (auto intro: step)
    then show ?thesis using Decoded all fits inv err
      by (simp add: wp_def decode_step_def prog_defs put_buffer_def skip_raw_def reader_inv_def
          yaml_parser_set_reader_error_def)
  next
    case Incomplete
    with decode_char_Incomplete [OF Incomplete] show ?thesis by (simp add: wp_def decode_step_def stop)
  next
    case (Invalid m k v)
    have "decode_all ?e (left p) = None"
      using more_input [OF Invalid] left_ne enc by (subst decode_all.simps) simp
    then show ?thesis using Invalid by (simp add: wp_def decode_step_def yaml_parser_set_reader_error_def errorM_def err)
  qed
qed

text \<open>The inner loop ends with at most three bytes left in the raw buffer, none at the end of the input.\<close>

lemma wp_decode_loop:
  assumes "inv p" "p_encoding p \<noteq> YAML_ANY_ENCODING" "raw_room p" "length (raw_rest p) \<le> n"
    and "\<And>p' vs. decodes p vs p' \<Longrightarrow> length (raw_rest p') < 4 \<Longrightarrow> p_eof p \<longrightarrow> raw_rest p' = []
      \<Longrightarrow> Q () p'"
    and "\<And>p'. p_error p' = YAML_READER_ERROR \<Longrightarrow> decode_all (p_encoding p) (left p) = None \<Longrightarrow> E p'"
  shows "wp (decode_loop n) Q E p"
  using assms
proof (induction n arbitrary: p)
  case 0
  then show ?case by (simp add: wp_def 0(5) [OF decodes_refl])
next
  case (Suc n)
  show ?case
  proof (cases "raw_rest p = []")
    case True
    with Suc.prems show ?thesis by (simp add: wp_def Suc.prems(5) [OF decodes_refl])
  next
    case False
    have "wp (bindM decode_step (\<lambda>c. if c then decode_loop n else returnM ())) Q E p"
      unfolding wp_bindM
    proof (rule wp_decode_step [OF Suc.prems(1) False Suc.prems(2,3)])
      fix p' v
      assume d: "decodes p [v] p'"
      show "wp (if True then decode_loop n else returnM ()) Q E p'"
        unfolding if_True
      proof (rule Suc.IH)
        fix p'' vs
        assume "decodes p' vs p''" "length (raw_rest p'') < 4" "p_eof p' \<longrightarrow> raw_rest p'' = []"
        with d show "Q () p''" by (intro Suc.prems(5) [OF decodes_trans [OF d]]) (auto simp: decodes_def)
      next
        fix p'' :: "('h, 'a) yaml_reader_scheme"
        assume "p_error p'' = YAML_READER_ERROR" "decode_all (p_encoding p') (left p') = None"
        with d show "E p''" by (intro Suc.prems(6)) (auto simp: decodes_def)
      qed (use d Suc.prems in \<open>auto simp: decodes_def\<close>)
    next
      assume "length (raw_rest p) < 4" "\<not> p_eof p"
      with Suc.prems(1) show "wp (if False then decode_loop n else returnM ()) Q E p"
        by (auto simp: wp_simps intro!: Suc.prems(5) [of "[]" p] decodes_refl)
    qed (rule Suc.prems(6))
    with False show ?thesis by (simp add: wp_def)
  qed
qed

text \<open>One round of the outer loop: refill the raw buffer, then decode it.\<close>

definition round_done :: "('h, 'z) yaml_reader_scheme \<Rightarrow> 32 word list \<Rightarrow> ('h, 'z) yaml_reader_scheme \<Rightarrow> bool" where
  "round_done p vs p' \<longleftrightarrow> inv p' \<and> p_encoding p' = p_encoding p \<and> b_pos (p_buffer p') = b_pos (p_buffer p)
     \<and> p_unread p' = p_unread p + length vs
     \<and> b_data (p_buffer p') = b_data (p_buffer p) @ concat (map utf8_put vs)
     \<and> decode_all (p_encoding p) (left p) = map_option ((@) vs) (decode_all (p_encoding p) (left p'))
     \<and> length (raw_rest p') < 4 \<and> (p_eof p' \<longrightarrow> raw_rest p' = [])
     \<and> length (left p') + length vs \<le> length (left p) \<and> (\<forall>v\<in>set vs. allowed_char v)
     \<and> length (b_data (p_buffer p')) < INPUT_BUFFER_SIZE"

lemma wp_fill_round:
  assumes inv: "inv p" and enc: "p_encoding p \<noteq> YAML_ANY_ENCODING"
    and small: "length (b_data (p_buffer p)) + 2 * INPUT_RAW_BUFFER_SIZE < INPUT_BUFFER_SIZE"
    and nxt: "\<And>p' vs. round_done p vs p'
      \<Longrightarrow> \<not> first \<and> length (raw_rest p) < 4 \<and> vs = [] \<and> \<not> p_eof p' \<longrightarrow> length (raw_rest p) < length (raw_rest p')
      \<Longrightarrow> wp k Q E p'"
    and err: "\<And>p'. p_error p' = YAML_READER_ERROR \<Longrightarrow> decode_all (p_encoding p) (left p) = None \<Longrightarrow> E p'"
  shows "wp (seqM (if \<not> first \<or> raw_rest p = [] then yaml_parser_update_raw_buffer else returnM ())
           (seqM (\<lambda>p. decode_loop (length (raw_rest p)) p) k)) Q E p"
proof -
  have decode: "wp (\<lambda>p. decode_loop (length (raw_rest p)) p) (\<lambda>_. wp k Q E) E q"
    if q: "inv q" "left q = left p" "raw_changed p q"
      "\<not> first \<and> length (raw_rest p) < 4 \<and> \<not> p_eof q \<longrightarrow> length (raw_rest p) < length (raw_rest q)" for q
  proof -
    note same = raw_changedD [OF q(3)]
    have "wp (decode_loop (length (raw_rest q))) (\<lambda>_. wp k Q E) E q"
    proof (rule wp_decode_loop [OF q(1)])
      fix p' vs
      assume d: "decodes q vs p'" "length (raw_rest p') < 4" "p_eof q \<longrightarrow> raw_rest p' = []"
      have "length (b_data (p_buffer p')) \<le> length (b_data (p_buffer p)) + 2 * length (raw_rest q)"
        using d(1) by (auto simp: decodes_def same)
      with small raw_rest_length [OF q(1)] have "length (b_data (p_buffer p')) < INPUT_BUFFER_SIZE" by linarith
      with d q have "round_done p vs p'" by (auto simp: round_done_def decodes_def same)
      then show "wp k Q E p'" by (rule nxt) (use d q in \<open>auto simp: decodes_def\<close>)
    next
      show "raw_room q" using small raw_rest_length [OF q(1)] by (simp add: same) 
    qed (use enc err in \<open>auto simp: same q(2)\<close>)
    then show ?thesis by (simp add: wp_def)
  qed
  show ?thesis
  proof (cases "\<not> first \<or> raw_rest p = []")
    case True
    then show ?thesis unfolding wp_seqM if_P [OF True]
      by (intro wp_update_raw_buffer [OF inv] decode) (auto simp: INPUT_RAW_BUFFER_SIZE_def)
  next
    case False
    then show ?thesis unfolding wp_seqM if_not_P [OF False] wp_returnM
      by (intro decode inv) auto
  qed
qed

text \<open>
  The characters still to come while the encoding is known, and what the outer loop achieves.
\<close>

abbreviation chars_left :: "('h, 'z) yaml_reader_scheme \<Rightarrow> 32 word list option" where
  "chars_left p \<equiv> map_option (\<lambda>cs. cs @ [0]) (decode_all (p_encoding p) (left p))"

text \<open>The characters that a call appends: allowed ones, and a NUL behind them where it reaches the end of the input.\<close>

definition appended :: "bool \<Rightarrow> 32 word list \<Rightarrow> ('h, 'z) yaml_reader_scheme \<Rightarrow> bool" where
  "appended ended new p' \<longleftrightarrow> (\<exists>vs. (\<forall>v\<in>set vs. allowed_char v) \<and> new = vs @ (if p_eof p' \<and> \<not> ended then [0] else []))"

lemma appended_append: "\<forall>v\<in>set vs. allowed_char v \<Longrightarrow> appended e new q \<Longrightarrow> appended e (vs @ new) q"
proof -
  assume vs: "\<forall>v\<in>set vs. allowed_char v" and "appended e new q"
  then obtain ws where "\<forall>v\<in>set ws. allowed_char v" "new = ws @ (if p_eof q \<and> \<not> e then [0] else [])"
    unfolding appended_def by blast
  with vs show ?thesis unfolding appended_def by (intro exI [of _ "vs @ ws"]) auto
qed

definition filled :: "bool \<Rightarrow> 32 word list \<Rightarrow> 32 word list option \<Rightarrow> nat \<Rightarrow> nat \<Rightarrow> ('h, 'z) yaml_reader_scheme \<Rightarrow> bool" where
  "filled ended cs rest len n p' \<longleftrightarrow> reader_ok handler pending src_ok p' \<and> (len \<le> p_unread p' \<or> p_eof p')
     \<and> chars_bound pending p' \<le> n
     \<and> (\<exists>new. holds p' (cs @ new) \<and> rest = map_option ((@) new) (source_chars pending p') \<and> appended ended new p')"

definition fill_failed :: "32 word list option \<Rightarrow> ('h, 'z) yaml_reader_scheme \<Rightarrow> bool" where
  "fill_failed rest p' \<longleftrightarrow> p_error p' = YAML_READER_ERROR \<and> (rest = None \<or> MAX_FILE_SIZE \<le> p_offset p')"

lemma filled_extend:
  assumes "filled e (cs @ vs) rest len n q" and vs: "\<forall>v\<in>set vs. allowed_char v"
  shows "filled e cs (map_option ((@) vs) rest) len n q"
proof -
  obtain new where "holds q (cs @ vs @ new)" and rest: "rest = map_option ((@) new) (source_chars pending q)"
      and "appended e new q"
    using assms(1) by (auto simp: filled_def)
  moreover have "map_option ((@) vs) rest = map_option ((@) (vs @ new)) (source_chars pending q)"
    unfolding rest by (cases "source_chars pending q") simp_all
  ultimately show ?thesis
    using assms appended_append [OF vs] unfolding filled_def by (intro conjI exI [of _ "vs @ new"]) simp_all
qed

lemma put_buffer_end:
  assumes "round_done p vs p'" "p_eof p'" "b_pos (p_buffer p) = 0" "holds p cs"
  shows "wp (put_buffer [0]) (\<lambda>_. filled False cs (chars_left p) len (p_unread p + length (left p) + 1)) E p'"
proof -
  let ?p'' = "p'\<lparr>p_buffer := (p_buffer p')\<lparr>b_data := b_data (p_buffer p') @ [0]\<rparr>, p_unread := p_unread p' + 1\<rparr>"
  have "left p' = []" using assms(1,2) by (simp add: round_done_def bytes_left_def reader_inv_def)
  then have "chars_left p = Some (vs @ [0])" using assms(1) by (simp add: round_done_def)
  moreover have "holds ?p'' (cs @ vs @ [0])"
    using assms by (simp add: round_done_def holds_def b_rest_def utf8_put_def)
  moreover have "reader_ok handler pending src_ok ?p''"
    using assms by (auto simp: round_done_def reader_ok_def reader_inv_def buffer_ok_def)
  moreover have "source_chars pending ?p'' = Some []" using assms(2) by (simp add: source_chars_def)
  moreover have "chars_bound pending ?p'' \<le> p_unread p + length (left p) + 1"
    using assms(1,2) by (simp add: chars_bound_def round_done_def bytes_left_def)
  moreover have "appended False (vs @ [0]) ?p''"
    unfolding appended_def by (intro exI [of _ vs]) (use assms(1,2) in \<open>simp add: round_done_def\<close>)
  ultimately have "filled False cs (chars_left p) len (p_unread p + length (left p) + 1) ?p''"
    using assms(2) unfolding filled_def by (intro conjI exI [of _ "vs @ [0]"]) simp_all
  moreover have "length (b_data (p_buffer p')) + 1 \<le> b_cap (p_buffer p')"
    using assms(1) by (auto simp: round_done_def reader_inv_def)
  ultimately show ?thesis by (simp add: wp_def put_buffer_def)
qed

lemma filled_mono: "filled e cs rest len n q \<Longrightarrow> n \<le> m \<Longrightarrow> filled e cs rest len m q"
  by (auto simp: filled_def)

lemma wp_fill_loop:
  assumes "inv p" "p_encoding p \<noteq> YAML_ANY_ENCODING" "b_pos (p_buffer p) = 0" "holds p cs" "len \<le> 4095"
    and "first \<longrightarrow> p_unread p < len \<and> 4 * (len - p_unread p) + 5 \<le> n"
    and "\<not> first \<longrightarrow> \<not> p_eof p \<and> length (raw_rest p) < 4 \<and> 4 * (len - p_unread p) + 4 \<le> n + length (raw_rest p)"
  shows "wp (fill_loop n first len) (\<lambda>_. filled False cs (chars_left p) len (p_unread p + length (left p) + 1)) (fill_failed (chars_left p)) p"
  using assms
proof (induction n arbitrary: p cs first)
  case 0
  then show ?case by (cases first) auto
next
  case (Suc n)
  show ?case
  proof (cases "p_unread p < len")
    case False
    with Suc.prems have "\<not> p_eof p" by auto
    with Suc.prems have "source_chars pending p = chars_left p" "reader_ok handler pending src_ok p"
      by (simp_all add: source_chars_def decode_stream_def reader_ok_def)
    moreover have "chars_left p = map_option ((@) []) (chars_left p)" by (cases "chars_left p") auto
    moreover have "appended False [] p" using \<open>\<not> p_eof p\<close> by (simp add: appended_def)
    moreover have "chars_bound pending p = p_unread p + length (left p) + 1" using \<open>\<not> p_eof p\<close> by (simp add: chars_bound_def)
    ultimately have "filled False cs (chars_left p) len (p_unread p + length (left p) + 1) p"
      using False Suc.prems(4) unfolding filled_def by (intro conjI exI [of _ "[]"]) simp_all
    then show ?thesis using False
      by (simp add: wp_def yaml_parser_set_reader_error_def errorM_def fill_failed_def)
  next
    case True
    have "length (b_data (p_buffer p)) \<le> 4 * p_unread p"
      using Suc.prems(3,4) length_concat_put [of cs] by (simp add: holds_def b_rest_def)
    then have small: "length (b_data (p_buffer p)) + 2 * INPUT_RAW_BUFFER_SIZE < INPUT_BUFFER_SIZE"
      using True Suc.prems(5) by (simp add: INPUT_RAW_BUFFER_SIZE_def INPUT_BUFFER_SIZE_def)
    have "wp (seqM (if \<not> first \<or> raw_rest p = [] then yaml_parser_update_raw_buffer else returnM ())
          (seqM (\<lambda>p. decode_loop (length (raw_rest p)) p)
            (\<lambda>p. if p_eof p then put_buffer [0] p else fill_loop n False len p)))
        (\<lambda>_. filled False cs (chars_left p) len (p_unread p + length (left p) + 1)) (fill_failed (chars_left p)) p"
    proof (rule wp_fill_round [OF Suc.prems(1,2) small])
      fix p' vs
      assume r: "round_done p vs p'"
        and grow: "\<not> first \<and> length (raw_rest p) < 4 \<and> vs = [] \<and> \<not> p_eof p' \<longrightarrow> length (raw_rest p) < length (raw_rest p')"
      show "wp (\<lambda>p. if p_eof p then put_buffer [0] p else fill_loop n False len p)
          (\<lambda>_. filled False cs (chars_left p) len (p_unread p + length (left p) + 1)) (fill_failed (chars_left p)) p'"
      proof (cases "p_eof p'")
        case True
        from put_buffer_end [OF r this Suc.prems(3,4)] True show ?thesis by (simp add: wp_def)
      next
        case False
        have rest: "chars_left p = map_option ((@) vs) (chars_left p')"
          using r by (cases "decode_all (p_encoding p) (left p')") (simp_all add: round_done_def)
        have unread: "p_unread p' = p_unread p + length vs" using r by (simp add: round_done_def)
        have vs: "\<forall>v\<in>set vs. allowed_char v" using r by (simp add: round_done_def)
        have le: "p_unread p' + length (left p') + 1 \<le> p_unread p + length (left p) + 1" using r by (simp add: round_done_def)
        have "wp (fill_loop n False len) (\<lambda>_. filled False (cs @ vs) (chars_left p') len (p_unread p' + length (left p') + 1)) (fill_failed (chars_left p')) p'"
        proof (rule Suc.IH)
          show "holds p' (cs @ vs)"
            using r Suc.prems(3,4) by (simp add: round_done_def holds_def b_rest_def)
          have "4 * (len - p_unread p') + 4 \<le> n + length (raw_rest p')"
          proof (cases "vs = []")
            case True
            with unread grow False Suc.prems(6,7) show ?thesis by (cases first) auto
          next
            case ne: False
            then obtain k where "length vs = Suc k" by (cases vs) auto
            with unread True Suc.prems(6,7) show ?thesis by (cases first) auto
          qed
          then show "\<not> False \<longrightarrow> \<not> p_eof p' \<and> length (raw_rest p') < 4 \<and> 4 * (len - p_unread p') + 4 \<le> n + length (raw_rest p')"
            using r False by (simp add: round_done_def)
        qed (use r Suc.prems in \<open>auto simp: round_done_def\<close>)
        then have "wp (fill_loop n False len) (\<lambda>_. filled False cs (chars_left p) len (p_unread p + length (left p) + 1)) (fill_failed (chars_left p)) p'"
          by (rule wp_mono) (use le vs in \<open>auto simp: rest fill_failed_def intro: filled_extend filled_mono\<close>)
        with False show ?thesis by (simp add: wp_def)
      qed
    qed (auto simp: fill_failed_def)
    with True show ?thesis by (simp add: wp_def)
  qed
qed

lemma wp_update_buffer:
  assumes ok: "reader_ok handler pending src_ok p" and holds: "holds p cs" and len: "len \<le> 4095"
  shows "wp (yaml_parser_update_buffer len) (\<lambda>_. filled (p_eof p) cs (source_chars pending p) len (chars_bound pending p))
      (fill_failed (source_chars pending p)) p"
proof -
  have handler: "p_read_handler p \<noteq> None" and inv: "inv p" using ok by (simp_all add: reader_ok_def reader_inv_def)
  have "source_chars pending p = map_option ((@) []) (source_chars pending p)"
    by (cases "source_chars pending p") auto
  then have now: "filled (p_eof p) cs (source_chars pending p) len (chars_bound pending p) p" if "len \<le> p_unread p \<or> p_eof p"
    using that ok holds unfolding filled_def appended_def by (intro conjI exI [of _ "[]"]) simp_all
  let ?det = "if p_encoding p = YAML_ANY_ENCODING then yaml_parser_determine_encoding else returnM ()"
  let ?Q = "\<lambda>_. filled (p_eof p) cs (source_chars pending p) len (chars_bound pending p)" and ?E = "fill_failed (source_chars pending p)"
  have fill: "wp (seqM (modifyM move_unread) (fill_loop (4 * len + 5) True len)) ?Q ?E q"
    if q: "inv q" "p_buffer q = p_buffer p" "p_unread q = p_unread p" "p_encoding q \<noteq> YAML_ANY_ENCODING"
      "chars_left q = source_chars pending p" "length (left q) \<le> length (left p)" "\<not> p_eof p"
      and lt: "p_unread p < len" for q
  proof -
    let ?m = "move_unread q"
    have "inv ?m" "b_pos (p_buffer ?m) = 0"
      using q(1) by (auto simp: move_unread_def Let_def reader_inv_def buffer_ok_def b_rest_def)
    moreover have "holds ?m cs" using holds q(2,3) by (auto simp: move_unread_def Let_def b_rest_def holds_def)
    moreover have "p_encoding ?m = p_encoding q" "p_unread ?m = p_unread q" "left ?m = left q"
      by (simp_all add: move_unread_def Let_def bytes_left_def)
    moreover have "p_unread q + length (left q) + 1 \<le> chars_bound pending p" using q by (simp add: chars_bound_def)
    ultimately show ?thesis using wp_fill_loop [of ?m cs len True "4 * len + 5"] q lt len
      by (auto simp: wp_simps elim!: wp_mono intro: filled_mono)
  qed
  have "wp (seqM ?det (seqM (modifyM move_unread) (fill_loop (4 * len + 5) True len))) ?Q ?E p"
    if lt: "p_unread p < len" "\<not> p_eof p"
  proof (cases "p_encoding p = YAML_ANY_ENCODING")
    case True
    show ?thesis unfolding if_P [OF True] wp_seqM [of yaml_parser_determine_encoding]
    proof (rule wp_determine_encoding [OF inv])
      fix p' q n
      assume *: "inv p'" "raw_changed p q" "p' = skip_raw n (q\<lparr>p_encoding := fst (detect_encoding (left p))\<rparr>)"
        "n = snd (detect_encoding (left p))" "left p' = drop n (left p)"
      have e: "p_encoding p' = fst (detect_encoding (left p))" using *(3) by (simp add: skip_raw_def)
      have "chars_left p' = source_chars pending p" unfolding e *(5)
        using lt(2) True by (simp add: source_chars_def decode_stream_def *(4) split: prod.split)
      moreover have "fst (detect_encoding (left p)) \<noteq> YAML_ANY_ENCODING" by (simp add: detect_encoding_def)
      ultimately show "wp (seqM (modifyM move_unread) (fill_loop (4 * len + 5) True len)) ?Q ?E p'"
        using e * raw_changedD [OF *(2)] lt by (intro fill) (simp_all add: skip_raw_def)
    qed
  next
    case False
    with lt have "chars_left p = source_chars pending p" by (simp add: source_chars_def decode_stream_def)
    with False inv lt show ?thesis unfolding if_not_P [OF False] wp_seqM [of "returnM ()"] wp_returnM by (intro fill) simp_all
  qed
  with now ok handler show ?thesis
    by (auto simp: yaml_parser_update_buffer_def wp_if_state wp_Return_state wp_seqM [of "assertM _"]
        wp_assertM reader_ok_def) (simp_all add: wp_def)
qed

end

subsection \<open>The standard handlers\<close>

definition string_pending :: "string_input \<Rightarrow> ystring" where
  "string_pending d = drop (si_current d) (si_string d)"

definition string_input_ok :: "string_input \<Rightarrow> bool" where
  "string_input_ok d \<longleftrightarrow> si_current d \<le> length (si_string d)"

interpretation string_src: byte_source yaml_string_read_handler string_pending string_input_ok
proof
  fix d :: string_input and room :: nat
  assume ok: "string_input_ok d" "0 < room"
  let ?rest = "string_pending d" and ?n = "min room (length (string_pending d))"
  let ?d' = "d\<lparr>si_current := si_current d + ?n\<rparr>"
  show "\<exists>bs d'. yaml_string_read_handler d room = (True, bs, d') \<and> length bs \<le> room \<and> string_input_ok d'
        \<and> string_pending d = bs @ string_pending d' \<and> (bs = [] \<longrightarrow> string_pending d = [])"
  proof (cases "?rest = []")
    case True
    with ok have "yaml_string_read_handler d room = (True, [], d)"
      by (simp add: yaml_string_read_handler_def string_pending_def string_input_ok_def)
    with True ok show ?thesis by simp
  next
    case False
    have "yaml_string_read_handler d room = (True, take ?n ?rest, ?d')"
      using False ok by (auto simp: yaml_string_read_handler_def string_pending_def Let_def min_def)
    moreover have "?rest = take ?n ?rest @ string_pending ?d'"
    proof -
      have "string_pending ?d' = drop ?n ?rest"
        unfolding string_pending_def by (simp add: add.commute)
      then show ?thesis by (simp only: append_take_drop_id)
    qed
    moreover have "string_input_ok ?d'" using ok by (auto simp: string_input_ok_def string_pending_def)
    ultimately show ?thesis using False ok by auto
  qed
qed

definition file_ok :: "c_file \<Rightarrow> bool" where
  "file_ok f \<longleftrightarrow> f_fails_in f = None \<and> \<not> f_error f"

interpretation file_src: byte_source yaml_file_read_handler f_rest file_ok
  by unfold_locales (auto simp: yaml_file_read_handler_def fread_def file_ok_def)

subsection \<open>The reader on the standard handlers\<close>

definition sample_reader :: "'h read_handler \<Rightarrow> 'h \<Rightarrow> 'h yaml_reader" where
  "sample_reader handler d = \<lparr>p_mem = \<lparr>outcomes = [], live = 0\<rparr>, p_error = YAML_NO_ERROR, p_problem = [],
     p_problem_offset = 0, p_problem_value = 0, p_problem_mark = null_mark, p_context = [],
     p_context_mark = null_mark, p_read_handler = Some handler, p_read_handler_data = d, p_eof = False,
     p_buffer = \<lparr>b_data = [], b_pos = 0, b_cap = INPUT_BUFFER_SIZE\<rparr>, p_unread = 0,
     p_raw_buffer = \<lparr>b_data = [], b_pos = 0, b_cap = INPUT_RAW_BUFFER_SIZE\<rparr>,
     p_encoding = YAML_ANY_ENCODING, p_offset = 0, p_mark = null_mark\<rparr>"

lemma sample_reader_ok:
  "src_ok d \<Longrightarrow> reader_ok handler pending src_ok (sample_reader handler d) \<and> holds (sample_reader handler d) []"
  by (simp add: sample_reader_def reader_ok_def reader_inv_def holds_def b_rest_def buffer_ok_def)

lemmas decode_simps = sample_reader_def source_chars_def bytes_left_def b_rest_def decode_stream_def
  detect_encoding_def BOM_UTF8_def BOM_UTF16LE_def BOM_UTF16BE_def decode_all.simps decode_char_def
  decode_utf8_def utf8_width_def utf8_lead_value_def utf8_length_ok_def allowed_char_def
  decode_utf16_def utf16_unit_def

text \<open>C8: On input from memory, \<open>yaml_parser_update_buffer\<close> never overruns the raw or the working
  buffer, always returns, appends to the unread characters exactly the next characters of the input
  as the reference decoder sees them (a NUL marks the end), delivers the number of characters asked
  for or reaches the end, and fails only where the rest of the input is malformed, contains a
  character that is not allowed, or is too long.\<close>

theorem update_buffer_string:
  assumes "reader_ok yaml_string_read_handler string_pending string_input_ok p" "holds p cs" "len \<le> 4095"
  shows "wp (yaml_parser_update_buffer len)
      (\<lambda>_ p'. reader_ok yaml_string_read_handler string_pending string_input_ok p'
        \<and> (len \<le> p_unread p' \<or> p_eof p')
        \<and> (\<exists>new. holds p' (cs @ new)
             \<and> source_chars string_pending p = map_option ((@) new) (source_chars string_pending p')))
      (\<lambda>p'. p_error p' = YAML_READER_ERROR
        \<and> (source_chars string_pending p = None \<or> MAX_FILE_SIZE \<le> p_offset p')) p"
  using string_src.wp_update_buffer [OF assms]
  by (rule wp_mono) (auto simp: string_src.filled_def string_src.fill_failed_def)

definition sample_string_reader :: "string_input yaml_reader" where
  "sample_string_reader = sample_reader yaml_string_read_handler \<lparr>si_string = [0x61, 0x3A], si_current = 0\<rparr>"

theorem update_buffer_string_witness:
  "reader_ok yaml_string_read_handler string_pending string_input_ok sample_string_reader
   \<and> holds sample_string_reader []
   \<and> wp (yaml_parser_update_buffer 2)
       (\<lambda>_ p'. (2 \<le> p_unread p' \<or> p_eof p')
         \<and> (\<exists>new. holds p' new \<and> Some [0x61, 0x3A, 0] = map_option ((@) new) (source_chars string_pending p')))
       (\<lambda>p'. MAX_FILE_SIZE \<le> p_offset p') sample_string_reader"
proof -
  have ok: "reader_ok yaml_string_read_handler string_pending string_input_ok sample_string_reader"
      "holds sample_string_reader []"
    using sample_reader_ok [of string_input_ok] by (simp_all add: sample_string_reader_def string_input_ok_def)
  moreover have chars: "source_chars string_pending sample_string_reader = Some [0x61, 0x3A, 0]"
    by (simp add: sample_string_reader_def string_pending_def decode_simps)
  moreover have "wp (yaml_parser_update_buffer 2)
       (\<lambda>_ p'. (2 \<le> p_unread p' \<or> p_eof p')
         \<and> (\<exists>new. holds p' new \<and> Some [0x61, 0x3A, 0] = map_option ((@) new) (source_chars string_pending p')))
       (\<lambda>p'. MAX_FILE_SIZE \<le> p_offset p') sample_string_reader"
    using update_buffer_string [OF ok, of 2] by (rule wp_mono) (auto simp: chars)
  ultimately show ?thesis by simp
qed

text \<open>C29: The same holds on input from a C stream that reports no read error.\<close>

theorem update_buffer_file:
  assumes "reader_ok yaml_file_read_handler f_rest file_ok p" "holds p cs" "len \<le> 4095"
  shows "wp (yaml_parser_update_buffer len)
      (\<lambda>_ p'. reader_ok yaml_file_read_handler f_rest file_ok p' \<and> (len \<le> p_unread p' \<or> p_eof p')
        \<and> (\<exists>new. holds p' (cs @ new) \<and> source_chars f_rest p = map_option ((@) new) (source_chars f_rest p')))
      (\<lambda>p'. p_error p' = YAML_READER_ERROR \<and> (source_chars f_rest p = None \<or> MAX_FILE_SIZE \<le> p_offset p')) p"
  using file_src.wp_update_buffer [OF assms]
  by (rule wp_mono) (auto simp: file_src.filled_def file_src.fill_failed_def)

definition sample_file_reader :: "c_file yaml_reader" where
  "sample_file_reader = sample_reader yaml_file_read_handler
     \<lparr>f_rest = [0xFF, 0xFE, 0x61, 0x00], f_fails_in = None, f_error = False\<rparr>"

theorem update_buffer_file_witness:
  "reader_ok yaml_file_read_handler f_rest file_ok sample_file_reader \<and> holds sample_file_reader []
   \<and> wp (yaml_parser_update_buffer 2)
       (\<lambda>_ p'. (2 \<le> p_unread p' \<or> p_eof p')
         \<and> (\<exists>new. holds p' new \<and> Some [0x61, 0] = map_option ((@) new) (source_chars f_rest p')))
       (\<lambda>p'. MAX_FILE_SIZE \<le> p_offset p') sample_file_reader"
proof -
  have ok: "reader_ok yaml_file_read_handler f_rest file_ok sample_file_reader" "holds sample_file_reader []"
    using sample_reader_ok [of file_ok] by (simp_all add: sample_file_reader_def file_ok_def)
  moreover have chars: "source_chars f_rest sample_file_reader = Some [0x61, 0]"
    by (simp add: sample_file_reader_def decode_simps)
  moreover have "wp (yaml_parser_update_buffer 2)
       (\<lambda>_ p'. (2 \<le> p_unread p' \<or> p_eof p')
         \<and> (\<exists>new. holds p' new \<and> Some [0x61, 0] = map_option ((@) new) (source_chars f_rest p')))
       (\<lambda>p'. MAX_FILE_SIZE \<le> p_offset p') sample_file_reader"
    using update_buffer_file [OF ok, of 2] by (rule wp_mono) (auto simp: chars)
  ultimately show ?thesis by simp
qed

end
