(* ===== verification/Writer.thy ===== *)
theory Writer
  imports Reader_Correct
begin

text \<open>
  The writer (\<open>writer.c\<close>): \<open>yaml_emitter_flush\<close> hands the output buffer to the write handler,
  recoding it to UTF-16 where that is the output encoding.  The two standard write handlers of
  \<open>api.c\<close> are modelled here as well; the locale \<open>byte_sink\<close> is their contract.
\<close>

unbundle bit_operations_syntax

definition OUTPUT_BUFFER_SIZE :: nat where
  "OUTPUT_BUFFER_SIZE = 16384"

definition OUTPUT_RAW_BUFFER_SIZE :: nat where
  "OUTPUT_RAW_BUFFER_SIZE = OUTPUT_BUFFER_SIZE * 2 + 2"

subsection \<open>Write handlers\<close>

text \<open>\<open>so_bytes\<close>: the part of the user's buffer that is filled, so \<open>*size_written\<close> is its length.\<close>

record string_output =
  so_size :: nat
  so_bytes :: ystring

definition yaml_string_write_handler :: "string_output write_handler" where
  "yaml_string_write_handler d bytes =
     (if so_size d - length (so_bytes d) < length bytes
      then (False, d\<lparr>so_bytes := so_bytes d @ take (so_size d - length (so_bytes d)) bytes\<rparr>)
      else (True, d\<lparr>so_bytes := so_bytes d @ bytes\<rparr>))"

text \<open>A C stream open for writing; \<open>o_room\<close>: how many more bytes it accepts, if that is limited.\<close>

record c_ofile =
  o_bytes :: ystring
  o_room :: "nat option"

definition fwrite :: "c_ofile \<Rightarrow> ystring \<Rightarrow> nat \<times> c_ofile" where
  "fwrite f bytes = (case o_room f of
     None \<Rightarrow> (length bytes, f\<lparr>o_bytes := o_bytes f @ bytes\<rparr>)
   | Some n \<Rightarrow> (min n (length bytes),
       f\<lparr>o_bytes := o_bytes f @ take n bytes, o_room := Some (n - min n (length bytes))\<rparr>))"

definition yaml_file_write_handler :: "c_ofile write_handler" where
  "yaml_file_write_handler f bytes = (let (n, f') = fwrite f bytes in (n = length bytes, f'))"

subsection \<open>Flushing\<close>

definition yaml_emitter_set_writer_error :: "string \<Rightarrow> (('w, 'z) yaml_writer_scheme, 'a) prog" where
  "yaml_emitter_set_writer_error problem =
     errorM (\<lambda>e. e\<lparr>e_error := YAML_WRITER_ERROR, e_problem := problem\<rparr>)"

text \<open>
  The value of the UTF-8 sequence at the pointer; the trailing bytes are not checked.
\<close>

definition utf8_value :: "ystring \<Rightarrow> 32 word" where
  "utf8_value bs = foldl add_trailing (utf8_lead_value (hd bs)) (tl bs)"

text \<open>The bytes of one or two 16-bit units, in the order of the addresses they are stored at.\<close>

definition utf16_bytes :: "bool \<Rightarrow> 8 word \<Rightarrow> 8 word \<Rightarrow> ystring" where
  "utf16_bytes le high low = (if le then [low, high] else [high, low])"

definition utf16_put :: "bool \<Rightarrow> 32 word \<Rightarrow> ystring" where
  "utf16_put le value =
     (if value < 0x10000 then utf16_bytes le (ucast (drop_bit 8 value)) (ucast (value AND 0xFF))
      else let value = value - 0x10000 in
        utf16_bytes le (ucast (0xD8 + drop_bit 18 value)) (ucast (drop_bit 10 value AND 0xFF))
        @ utf16_bytes le (ucast (0xDC + (drop_bit 8 value AND 0xFF))) (ucast (value AND 0xFF)))"

text \<open>
  One round of the recoding loop.  An octet that cannot start a sequence (the loop would never end)
  and a sequence cut by the end of the buffer (the loop would run past it) are faults, and so is a
  write behind the end of the raw buffer.
\<close>

definition recode_step :: "bool \<Rightarrow> (('w, 'z) yaml_writer_scheme, unit) prog" where
  "recode_step le e = (let b = e_buffer e; r = e_raw_buffer e; width = utf8_width (hd (b_rest b)) in
     if width = 0 \<or> width > length (b_rest b) then Fault
     else let bytes = utf16_put le (utf8_value (take width (b_rest b))) in
       if length (b_data r) + length bytes > b_cap r then Fault
       else Return () (e\<lparr>e_buffer := b\<lparr>b_pos := b_pos b + width\<rparr>,
              e_raw_buffer := r\<lparr>b_data := b_data r @ bytes\<rparr>\<rparr>))"

definition write_out :: "ystring \<Rightarrow> (('w, 'z) yaml_writer_scheme, bool) prog" where
  "write_out bytes e = (case e_write_handler e of
     None \<Rightarrow> Fault
   | Some handler \<Rightarrow> let (ok, d) = handler (e_write_handler_data e) bytes
       in Return ok (e\<lparr>e_write_handler_data := d\<rparr>))"

definition reset_buffer :: "ybuffer \<Rightarrow> ybuffer" where
  "reset_buffer b = b\<lparr>b_data := [], b_pos := 0\<rparr>"

definition yaml_emitter_flush :: "(('w, 'z) yaml_writer_scheme, unit) prog" where
  "yaml_emitter_flush =
     seqM (assertM (\<lambda>e. e_write_handler e \<noteq> None))
     (seqM (assertM (\<lambda>e. e_encoding e \<noteq> YAML_ANY_ENCODING))
     (seqM (modifyM (\<lambda>e. e\<lparr>e_buffer := (e_buffer e)\<lparr>
          b_data := take (b_pos (e_buffer e)) (b_data (e_buffer e)), b_pos := 0\<rparr>\<rparr>))
     (readM (\<lambda>e. if b_data (e_buffer e) = [] then returnM ()
          else if e_encoding e = YAML_UTF8_ENCODING then
            bindM (write_out (b_data (e_buffer e))) (\<lambda>ok.
              if ok then modifyM (\<lambda>e. e\<lparr>e_buffer := reset_buffer (e_buffer e)\<rparr>)
              else yaml_emitter_set_writer_error ''write error'')
          else
            seqM (whileM (length (b_data (e_buffer e))) (\<lambda>e. b_rest (e_buffer e) \<noteq> [])
                   (recode_step (e_encoding e = YAML_UTF16LE_ENCODING)))
              (readM (\<lambda>e. bindM (write_out (b_data (e_raw_buffer e))) (\<lambda>ok.
                 if ok then modifyM (\<lambda>e. e\<lparr>e_buffer := reset_buffer (e_buffer e),
                                           e_raw_buffer := reset_buffer (e_raw_buffer e)\<rparr>)
                 else yaml_emitter_set_writer_error ''write error'')))))))"

subsection \<open>Encoding one character\<close>

lemma utf8_trailing_foldl: "utf8_trailing k v bs = Inr w \<Longrightarrow> foldl add_trailing v bs = w"
  by (induction k v bs rule: utf8_trailing.induct) (auto simp: utf8_trailing.simps split: if_splits)

lemma utf8_value_put: "unat v < 0x200000 \<Longrightarrow> utf8_value (utf8_put v) = v"
  using utf8_seq_iff [of "utf8_put v" v]
  by (auto simp: utf8_seq_def utf8_value_def dest: utf8_trailing_foldl)

lemma utf8_width_put: "unat v < 0x200000 \<Longrightarrow> utf8_width (hd (utf8_put v)) = length (utf8_put v)"
  using utf8_seq_iff [of "utf8_put v" v] by (auto simp: utf8_seq_def)

lemma length_utf16_put: "length (utf16_put le v) = (if v < 0x10000 then 2 else 4)"
  by (simp add: utf16_put_def utf16_bytes_def Let_def)

lemma length_utf16_put_le: "length (utf16_put le v) \<le> 2 * length (utf8_put v)"
  by (simp add: utf16_put_def utf16_bytes_def Let_def utf8_put_def word_less_nat_alt word_le_nat_alt)

lemma utf16_unit_bytes: "unat (utf16_unit le (utf16_bytes le h l @ ext) 0) = 256 * unat h + unat l"
  by (simp add: unat_utf16_unit utf16_bytes_def)

lemma utf16_unit_bytes2:
  "unat (utf16_unit le (utf16_bytes le a b @ utf16_bytes le h l @ ext) 2) = 256 * unat h + unat l"
  by (simp add: unat_utf16_unit utf16_bytes_def numeral_eq_Suc)

text \<open>Below \<open>0x10000\<close>, and outside of the surrogate range, the reader gets back what was written.\<close>

lemma decode_utf16_put:
  assumes "unat v < 0x10000" "\<not> (0xD800 \<le> v \<and> v \<le> 0xDFFF)"
  shows "decode_utf16 le eof (utf16_put le v @ ext) = Decoded v 2"
proof -
  let ?h = "ucast (drop_bit 8 v) :: 8 word" and ?l = "ucast (v AND 0xFF) :: 8 word"
  have put: "utf16_put le v = utf16_bytes le ?h ?l"
    using assms(1) by (simp add: utf16_put_def word_less_nat_alt)
  have "unat ?h = unat v div 256" "unat ?l = unat v mod 256"
    using assms(1) by (simp_all add: unat_ucast_down unat_drop_bit unat_and_lit)
  then have "unat (utf16_unit le (utf16_put le v @ ext) 0) = unat v"
    by (simp add: put utf16_unit_bytes)
  then have u: "utf16_unit le (utf16_put le v @ ext) 0 = v" by (simp add: word_unat_eq_iff)
  have "length (utf16_put le v) = 2" using assms(1) by (simp add: length_utf16_put word_less_nat_alt)
  moreover have "v AND 0xFC00 \<noteq> 0xDC00" "v AND 0xFC00 \<noteq> 0xD800"
    using assms by (auto simp: low_surrogate_iff high_surrogate_iff word_le_nat_alt)
  ultimately show ?thesis by (simp add: decode_utf16_def u)
qed

text \<open>
  Above, \<open>writer.c\<close> masks the high byte of the second unit with \<open>0xFF\<close> instead of \<open>0x03\<close>: the pair
  is right only where bits 10 to 15 of the value are 0, and no surrogate pair at all otherwise.
\<close>

lemma surrogate_bytes:
  assumes "n < (0x100000 :: nat)"
  shows "256 * (0xD8 + n div 262144) + n div 1024 mod 256 = 0xD800 + n div 1024"
proof -
  have "n div 262144 = n div 1024 div 256" by (simp add: div_mult2_eq [symmetric])
  then show ?thesis by simp
qed

lemma low_unit_ok_iff:
  "(\<exists>q. (0xDC + x) mod 256 = q \<and> 0xDC \<le> q \<and> q < 0xE0) \<longleftrightarrow> x < 4" if "x < (256 :: nat)"
proof (cases "x < 36")
  case True
  then show ?thesis by auto
next
  case False
  with that have "(0xDC + x) mod 256 = x - 36" by (simp add: mod_if)
  with that False show ?thesis by auto
qed

lemma utf16_put_units:
  assumes "0x10000 \<le> unat v" "unat v < 0x110000"
  defines "n \<equiv> unat v - 0x10000"
  shows "unat (utf16_unit le (utf16_put le v @ ext) 0) = 0xD800 + n div 1024"
    and "unat (utf16_unit le (utf16_put le v @ ext) 2) = 256 * ((0xDC + n div 256 mod 256) mod 256) + n mod 256"
proof -
  let ?w = "v - 0x10000"
  let ?a = "ucast (0xD8 + drop_bit 18 ?w) :: 8 word" and ?b = "ucast (drop_bit 10 ?w AND 0xFF) :: 8 word"
  let ?c = "ucast (0xDC + (drop_bit 8 ?w AND 0xFF)) :: 8 word" and ?d = "ucast (?w AND 0xFF) :: 8 word"
  have put: "utf16_put le v = utf16_bytes le ?a ?b @ utf16_bytes le ?c ?d"
    using assms(1) by (simp add: utf16_put_def word_less_nat_alt Let_def)
  have n: "unat ?w = n" using assms(1) by (simp add: n_def unat_sub word_le_nat_alt)
  have lt: "n < 0x100000" using assms(1,2) by (simp add: n_def)
  then have "n div 262144 < 4" by (simp add: less_mult_imp_div_less)
  then have a: "unat ?a = 0xD8 + n div 262144"
    by (simp add: unat_ucast_down unat_word_ariths unat_drop_bit n)
  have b: "unat ?b = n div 1024 mod 256" and d: "unat ?d = n mod 256"
    by (simp_all add: unat_ucast_down unat_and_lit unat_drop_bit n)
  have "unat (drop_bit 8 ?w AND 0xFF) = n div 256 mod 256" by (simp add: unat_and_lit unat_drop_bit n)
  moreover have "n div 256 mod 256 < 256" by simp
  ultimately have "unat (0xDC + (drop_bit 8 ?w AND 0xFF)) = 0xDC + n div 256 mod 256"
    by (simp add: unat_word_ariths)
  then have c: "unat ?c = (0xDC + n div 256 mod 256) mod 256"
    by (simp only: unat_ucast_down)
  show "unat (utf16_unit le (utf16_put le v @ ext) 0) = 0xD800 + n div 1024"
    unfolding put append_assoc utf16_unit_bytes a b surrogate_bytes [OF lt] ..
  show "unat (utf16_unit le (utf16_put le v @ ext) 2) = 256 * ((0xDC + n div 256 mod 256) mod 256) + n mod 256"
    unfolding put append_assoc utf16_unit_bytes2 c d ..
qed

lemma bits_10_15: "n div 1024 mod 64 = 0 \<longleftrightarrow> n div 256 mod 256 < (4 :: nat)"
proof -
  have "n div 256 mod 256 = 4 * (n div 256 div 4 mod 64) + n div 256 mod 4"
    using mod_mult2_eq [of "n div 256" 4 64] by simp
  moreover have "n div 256 div 4 = n div 1024" by (simp add: div_mult2_eq [symmetric])
  moreover have "n div 256 mod 4 < 4" by simp
  ultimately show ?thesis by (cases "n div 1024 mod 64") auto
qed

lemma low_bits:
  assumes "n div 256 mod 256 < (4 :: nat)"
  shows "256 * (n div 256 mod 256) + n mod 256 = n mod 1024"
proof -
  have "n div 256 mod 256 = n div 256 mod 256 mod 4" using assms by simp
  also have "\<dots> = n div 256 mod 4" by (simp add: mod_mod_cancel)
  finally show ?thesis using mod_mult2_eq [of n 256 4] by simp
qed

lemma decode_surrogate_put:
  assumes v: "0x10000 \<le> unat v" "unat v < 0x110000"
  shows "decode_utf16 le eof (utf16_put le v @ ext) = Decoded v 4 \<longleftrightarrow> (unat v - 0x10000) div 1024 mod 64 = 0"
proof -
  define n where "n = unat v - 0x10000"
  let ?s = "utf16_put le v @ ext" and ?x = "n div 256 mod 256"
  let ?u = "utf16_unit le ?s 0" and ?w = "utf16_unit le ?s 2"
  note units = utf16_put_units [OF v, of le ext, folded n_def]
  have "n < 0x100000" using v by (simp add: n_def)
  then have d: "n div 1024 < 1024" by (simp add: less_mult_imp_div_less)
  have len: "4 \<le> length ?s" using v by (simp add: length_utf16_put word_less_nat_alt)
  have u: "?u AND 0xFC00 = 0xD800" "?u AND 0xFC00 \<noteq> 0xDC00"
    using d by (simp_all add: high_surrogate_iff low_surrogate_iff units)
  have x: "?x < 256" by simp
  have "?w AND 0xFC00 = 0xDC00 \<longleftrightarrow> 0xDC \<le> (0xDC + ?x) mod 256 \<and> (0xDC + ?x) mod 256 < 0xE0"
  proof -
    have "0xDC00 \<le> 256 * q + r \<and> 256 * q + r < 0xE000 \<longleftrightarrow> 0xDC \<le> q \<and> q < 0xE0" if "r < 256" for q r :: nat
      using that by auto
    from this [of "n mod 256" "(0xDC + ?x) mod 256"] show ?thesis
      by (simp add: low_surrogate_iff utf16_unit_less units)
  qed
  then have w: "?w AND 0xFC00 = 0xDC00 \<longleftrightarrow> ?x < 4" using low_unit_ok_iff [OF x] by simp
  have val: "0x10000 + push_bit 10 (?u AND 0x3FF) + (?w AND 0x3FF) = v" if "?x < 4"
  proof -
    have "unat ?w = 0xDC00 + n mod 1024" using that low_bits [OF that] by (simp add: units)
    then have "unat ?w mod 1024 = n mod 1024" by (simp add: mod_add_eq [of 56320 1024 "n mod 1024", symmetric])
    moreover have "unat ?u mod 1024 = n div 1024" using d by (simp add: units mod_add_eq [of 55296 1024 "n div 1024", symmetric])
    ultimately have "unat (0x10000 + push_bit 10 (?u AND 0x3FF) + (?w AND 0x3FF)) = unat v"
      unfolding unat_surrogate_pair using v by (simp add: n_def)
    then show ?thesis by (simp only: word_unat_eq_iff)
  qed
  show ?thesis unfolding n_def [symmetric] bits_10_15
    using len u w val by (auto simp: decode_utf16_def Let_def)
qed

subsection \<open>The contract of a write handler\<close>

text \<open>
  The octets of a character, by the arithmetic of RFC 3629 and RFC 2781 and not by the bit operations of the code.
  \<open>utf16_octets low\<close> encodes a supplementary character as the high surrogate and the unit \<open>low n\<close>, where \<open>n\<close> is
  the distance of the character from U+10000: the ten low bits of \<open>n\<close> in the standard; \<open>writer.c\<close>, which masks with
  \<open>0xFF\<close> instead of \<open>0x03\<close>, adds all 16 low bits of \<open>n\<close> to \<open>0xDC00\<close>.
\<close>

definition utf8_octets :: "nat \<Rightarrow> nat list" where
  "utf8_octets n =
     (if n < 0x80 then [n]
      else if n < 0x800 then [0xC0 + n div 0x40, 0x80 + n mod 0x40]
      else if n < 0x10000 then [0xE0 + n div 0x1000, 0x80 + n div 0x40 mod 0x40, 0x80 + n mod 0x40]
      else [0xF0 + n div 0x40000, 0x80 + n div 0x1000 mod 0x40, 0x80 + n div 0x40 mod 0x40, 0x80 + n mod 0x40])"

definition unit_octets :: "bool \<Rightarrow> nat \<Rightarrow> nat list" where
  "unit_octets le u = (if le then [u mod 0x100, u div 0x100] else [u div 0x100, u mod 0x100])"

definition utf16_octets :: "(nat \<Rightarrow> nat) \<Rightarrow> bool \<Rightarrow> nat \<Rightarrow> nat list" where
  "utf16_octets low le c =
     (if c < 0x10000 then unit_octets le c
      else let n = c - 0x10000 in unit_octets le (0xD800 + n div 0x400) @ unit_octets le (low n))"

definition low_surrogate :: "nat \<Rightarrow> nat" where
  "low_surrogate n = 0xDC00 + n mod 0x400"

definition low_unit_written :: "nat \<Rightarrow> nat" where
  "low_unit_written n = (0xDC00 + n) mod 0x10000"

definition encoded :: "(nat \<Rightarrow> nat) \<Rightarrow> yaml_encoding \<Rightarrow> 32 word list \<Rightarrow> ystring" where
  "encoded low enc cs = concat (map (\<lambda>c. map of_nat
     (if enc = YAML_UTF8_ENCODING then utf8_octets (unat c) else utf16_octets low (enc = YAML_UTF16LE_ENCODING) (unat c))) cs)"

abbreviation output_bytes :: "yaml_encoding \<Rightarrow> 32 word list \<Rightarrow> ystring" where
  "output_bytes \<equiv> encoded low_unit_written"

abbreviation standard_bytes :: "yaml_encoding \<Rightarrow> 32 word list \<Rightarrow> ystring" where
  "standard_bytes \<equiv> encoded low_surrogate"

lemma encoded_simps [simp]:
  "encoded low enc [] = []" "encoded low enc (cs @ ds) = encoded low enc cs @ encoded low enc ds"
  by (simp_all add: encoded_def)

lemma octets_put: "map unat (bs :: ystring) = ns \<Longrightarrow> map of_nat ns = bs"
  by (induction bs arbitrary: ns) auto

lemma utf8_octets_put: "unat v < 0x200000 \<Longrightarrow> map of_nat (utf8_octets (unat v)) = utf8_put v"
  by (rule octets_put) (simp add: utf8_put_nat utf8_octets_def)

lemma utf16_octets_put:
  assumes "unat v < 0x200000"
  shows "map of_nat (utf16_octets low_unit_written le (unat v)) = utf16_put le v"
proof (rule octets_put, cases "unat v < 0x10000")
  case True
  have "unat v div 256 < 256" using True by (simp add: less_mult_imp_div_less)
  then show "map unat (utf16_put le v) = utf16_octets low_unit_written le (unat v)" using True
    by (simp add: utf16_put_def utf16_octets_def unit_octets_def utf16_bytes_def word_less_nat_alt unat_ucast_down unat_drop_bit unat_and_lit)
next
  case False
  define n where "n = unat v - 0x10000"
  let ?w = "v - 0x10000"
  have n: "unat ?w = n" using False by (simp add: n_def unat_sub word_le_nat_alt)
  have lt: "n < 0x1F0000" using assms False by (simp add: n_def)
  then have "n div 262144 < 8" by (simp add: less_mult_imp_div_less)
  then have a: "unat (ucast (0xD8 + drop_bit 18 ?w) :: 8 word) = 0xD8 + n div 262144"
    by (simp add: unat_ucast_down unat_word_ariths unat_drop_bit n)
  have b: "unat (ucast (drop_bit 10 ?w AND 0xFF) :: 8 word) = n div 1024 mod 256" and d: "unat (ucast (?w AND 0xFF) :: 8 word) = n mod 256"
    by (simp_all add: unat_ucast_down unat_and_lit unat_drop_bit n)
  have "unat (drop_bit 8 ?w AND 0xFF) = n div 256 mod 256" by (simp add: unat_and_lit unat_drop_bit n)
  moreover have "n div 256 mod 256 < 256" by simp
  ultimately have "unat (0xDC + (drop_bit 8 ?w AND 0xFF)) = 0xDC + n div 256 mod 256" by (simp add: unat_word_ariths)
  then have c: "unat (ucast (0xDC + (drop_bit 8 ?w AND 0xFF)) :: 8 word) = (0xDC + n div 256 mod 256) mod 256"
    by (simp only: unat_ucast_down)
  have hi: "(0xD800 + n div 1024) div 256 = 0xD8 + n div 262144" "(0xD800 + n div 1024) mod 256 = n div 1024 mod 256"
    by (simp_all add: div_mult2_eq [symmetric] mod_add_eq [of "0xD800" 256, symmetric] div_add1_eq)
  have lo: "(0xDC00 + n) mod 65536 div 256 = (0xDC + n div 256 mod 256) mod 256" "(0xDC00 + n) mod 65536 mod 256 = n mod 256"
    using mod_mult2_eq [of "0xDC00 + n" 256 256] mod_add_eq [of "0xDC00" 256 n]
    by (simp_all add: div_add1_eq mod_simps mod_mod_cancel)
  have put: "utf16_put le v = utf16_bytes le (ucast (0xD8 + drop_bit 18 ?w)) (ucast (drop_bit 10 ?w AND 0xFF))
      @ utf16_bytes le (ucast (0xDC + (drop_bit 8 ?w AND 0xFF))) (ucast (?w AND 0xFF))"
    using False by (simp add: utf16_put_def word_less_nat_alt Let_def)
  show "map unat (utf16_put le v) = utf16_octets low_unit_written le (unat v)"
    using False by (simp add: put utf16_bytes_def utf16_octets_def unit_octets_def low_unit_written_def Let_def a b c d hi lo n_def [symmetric])
qed

lemma output_bytes_put:
  assumes "\<forall>c\<in>set cs. unat c < 0x200000"
  shows "output_bytes enc cs = (if enc = YAML_UTF8_ENCODING then concat (map utf8_put cs)
     else concat (map (utf16_put (enc = YAML_UTF16LE_ENCODING)) cs))"
  using assms by (induction cs) (auto simp: encoded_def utf8_octets_put utf16_octets_put)

text \<open>The characters whose encoding is the standard one.\<close>

definition encoded_right :: "yaml_encoding \<Rightarrow> 32 word \<Rightarrow> bool" where
  "encoded_right enc c \<longleftrightarrow> enc = YAML_UTF8_ENCODING \<or> unat c < 0x10000 \<or> (unat c - 0x10000) div 1024 mod 64 = 0"

lemma low_unit_standard: "low_unit_written n = low_surrogate n" if "n div 1024 mod 64 = 0"
proof -
  have "n mod 65536 = n mod 1024" using mod_mult2_eq [of n 1024 64] that by simp
  moreover have "(0xDC00 + n) mod 65536 = (0xDC00 + n mod 65536) mod 65536" by (simp add: mod_simps)
  moreover have "n mod 1024 < 1024" by simp
  ultimately show ?thesis by (simp add: low_unit_written_def low_surrogate_def)
qed

lemma output_bytes_standard: "\<forall>c\<in>set cs. encoded_right enc c \<Longrightarrow> output_bytes enc cs = standard_bytes enc cs"
  by (induction cs) (auto simp: encoded_def encoded_right_def utf16_octets_def low_unit_standard)

text \<open>The output buffer holds the characters \<open>cs\<close>, the raw buffer nothing.\<close>

definition writer_ok :: "'w write_handler \<Rightarrow> 32 word list \<Rightarrow> ('w, 'z) yaml_writer_scheme \<Rightarrow> bool" where
  "writer_ok handler cs e \<longleftrightarrow> e_write_handler e = Some handler \<and> e_encoding e \<noteq> YAML_ANY_ENCODING
     \<and> buffer_ok (e_buffer e) \<and> b_cap (e_buffer e) = OUTPUT_BUFFER_SIZE
     \<and> take (b_pos (e_buffer e)) (b_data (e_buffer e)) = concat (map utf8_put cs)
     \<and> (\<forall>c\<in>set cs. unat c < 0x200000)
     \<and> b_data (e_raw_buffer e) = [] \<and> b_pos (e_raw_buffer e) = 0
     \<and> b_cap (e_raw_buffer e) = OUTPUT_RAW_BUFFER_SIZE"

lemma length_concat_utf16: "length (concat (map (utf16_put le) cs)) \<le> 2 * length (concat (map utf8_put cs))"
proof (induction cs)
  case (Cons c cs)
  with length_utf16_put_le [of le c] show ?case by simp
qed simp

text \<open>
  The recoding loop.  The raw buffer is twice as large as the output buffer, and no character gets
  more than twice as long in UTF-16.
\<close>

definition recoding :: "bool \<Rightarrow> ('w, 'z) yaml_writer_scheme \<Rightarrow> 32 word list \<Rightarrow> ('w, 'z) yaml_writer_scheme \<Rightarrow> bool" where
  "recoding le e0 cs e \<longleftrightarrow> (\<exists>written rest. cs = written @ rest \<and> b_rest (e_buffer e) = concat (map utf8_put rest)
     \<and> b_data (e_raw_buffer e) = concat (map (utf16_put le) written)
     \<and> e = e0\<lparr>e_buffer := e_buffer e, e_raw_buffer := e_raw_buffer e\<rparr>
     \<and> b_cap (e_raw_buffer e) = OUTPUT_RAW_BUFFER_SIZE \<and> b_pos (e_raw_buffer e) = 0
     \<and> b_cap (e_buffer e) = OUTPUT_BUFFER_SIZE)"

lemma wp_recode_step:
  assumes I: "recoding le e0 cs e" and ne: "b_rest (e_buffer e) \<noteq> []"
    and cs: "\<forall>c\<in>set cs. unat c < 0x200000" "length (concat (map utf8_put cs)) \<le> OUTPUT_BUFFER_SIZE"
  shows "wp (recode_step le) (\<lambda>_ e'. recoding le e0 cs e'
     \<and> length (b_rest (e_buffer e')) < length (b_rest (e_buffer e))) E e"
proof -
  obtain written rest where r: "cs = written @ rest" "b_rest (e_buffer e) = concat (map utf8_put rest)"
      "b_data (e_raw_buffer e) = concat (map (utf16_put le) written)"
      "e = e0\<lparr>e_buffer := e_buffer e, e_raw_buffer := e_raw_buffer e\<rparr>"
      "b_cap (e_raw_buffer e) = OUTPUT_RAW_BUFFER_SIZE" "b_pos (e_raw_buffer e) = 0"
      "b_cap (e_buffer e) = OUTPUT_BUFFER_SIZE"
    using I by (auto simp: recoding_def)
  from ne r(2) obtain c rest' where c: "rest = c # rest'" by (cases rest) auto
  let ?b = "e_buffer e" and ?w = "length (utf8_put c)"
  have small: "unat c < 0x200000" using cs(1) r(1) c by simp
  have b: "b_rest ?b = utf8_put c @ concat (map utf8_put rest')" using r(2) c by simp
  then have w: "utf8_width (hd (b_rest ?b)) = ?w" "take ?w (b_rest ?b) = utf8_put c" "?w \<le> length (b_rest ?b)"
    using utf8_width_put [OF small] by simp_all
  have "length (concat (map (utf16_put le) (written @ [c]))) \<le> 2 * OUTPUT_BUFFER_SIZE"
    using length_concat_utf16 [of le "written @ [c]"] cs(2) r(1) c by simp
  then have fits: "length (b_data (e_raw_buffer e)) + length (utf16_put le c) \<le> b_cap (e_raw_buffer e)"
    by (simp add: r(3,5) OUTPUT_RAW_BUFFER_SIZE_def)
  let ?e' = "e\<lparr>e_buffer := ?b\<lparr>b_pos := b_pos ?b + ?w\<rparr>,
      e_raw_buffer := (e_raw_buffer e)\<lparr>b_data := b_data (e_raw_buffer e) @ utf16_put le c\<rparr>\<rparr>"
  have b': "b_rest (e_buffer ?e') = concat (map utf8_put rest')"
    using b by (simp add: b_rest_def add.commute) (metis append_eq_conv_conj drop_drop add.commute)
  obtain x y where e0: "e = e0\<lparr>e_buffer := x, e_raw_buffer := y\<rparr>" using r(4) by blast
  have "recoding le e0 cs ?e'"
    unfolding recoding_def by (rule exI [of _ "written @ [c]"], rule exI [of _ rest'])
      (use r b' c e0 in auto)
  moreover have "length (b_rest (e_buffer ?e')) < length (b_rest ?b)" unfolding b' b by simp
  moreover have "recode_step le e = Return () ?e'"
    using fits w utf8_value_put [OF small] by (simp add: recode_step_def Let_def)
  ultimately show ?thesis by (simp add: wp_def)
qed

locale byte_sink =
  fixes handler :: "'w write_handler"
    and delivered :: "'w \<Rightarrow> ystring"
  assumes write_spec: "handler d bs = (True, d') \<Longrightarrow> delivered d' = delivered d @ bs"
    and fail_spec: "handler d bs = (False, d') \<Longrightarrow> \<exists>k. delivered d' = delivered d @ take k bs"
begin

lemma wp_write_out:
  assumes "e_write_handler e = Some handler"
    and "\<And>d. delivered d = delivered (e_write_handler_data e) @ bs \<Longrightarrow> Q True (e\<lparr>e_write_handler_data := d\<rparr>)"
    and "\<And>d k. delivered d = delivered (e_write_handler_data e) @ take k bs \<Longrightarrow> Q False (e\<lparr>e_write_handler_data := d\<rparr>)"
  shows "wp (write_out bs) Q E e"
proof (cases "handler (e_write_handler_data e) bs")
  case (Pair ok d)
  then show ?thesis using assms write_spec [of "e_write_handler_data e" bs d] fail_spec [of "e_write_handler_data e" bs d]
    by (cases ok) (auto simp: wp_def write_out_def)
qed

lemma wp_flush:
  assumes ok: "writer_ok handler cs e"
  shows "wp yaml_emitter_flush
      (\<lambda>_ e'. writer_ok handler [] e'
        \<and> delivered (e_write_handler_data e') = delivered (e_write_handler_data e) @ output_bytes (e_encoding e) cs)
      (\<lambda>e'. e_error e' = YAML_WRITER_ERROR \<and> (\<exists>k. delivered (e_write_handler_data e')
         = delivered (e_write_handler_data e) @ take k (output_bytes (e_encoding e) cs))) e"
proof -
  let ?e1 = "e\<lparr>e_buffer := (e_buffer e)\<lparr>b_data := take (b_pos (e_buffer e)) (b_data (e_buffer e)), b_pos := 0\<rparr>\<rparr>"
  let ?le = "e_encoding e = YAML_UTF16LE_ENCODING"
  have data: "b_data (e_buffer ?e1) = concat (map utf8_put cs)" using ok by (simp add: writer_ok_def)
  have len: "length (concat (map utf8_put cs)) \<le> OUTPUT_BUFFER_SIZE"
  proof -
    from ok have c: "concat (map utf8_put cs) = take (b_pos (e_buffer e)) (b_data (e_buffer e))"
      by (simp add: writer_ok_def)
    have "length (b_data (e_buffer e)) \<le> OUTPUT_BUFFER_SIZE"
      using ok by (simp add: writer_ok_def buffer_ok_def)
    then show ?thesis unfolding c by simp
  qed
  consider (none) "cs = []" | (utf8) "cs \<noteq> []" "e_encoding e = YAML_UTF8_ENCODING"
    | (utf16) "cs \<noteq> []" "e_encoding e \<noteq> YAML_UTF8_ENCODING" by blast
  then show ?thesis
  proof cases
    case none
    with ok data show ?thesis
      by (simp add: yaml_emitter_flush_def wp_simps writer_ok_def buffer_ok_def)
  next
    case utf8
    then have "concat (map utf8_put cs) \<noteq> []" by (cases cs) simp_all
    with ok utf8 data show ?thesis
      by (auto simp: yaml_emitter_flush_def wp_simps yaml_emitter_set_writer_error_def writer_ok_def
          reset_buffer_def buffer_ok_def output_bytes_put intro!: wp_write_out)
  next
    case utf16
    then have ne: "concat (map utf8_put cs) \<noteq> []" by (cases cs) simp_all
    let ?Q = "\<lambda>_ e'. writer_ok handler [] e'
        \<and> delivered (e_write_handler_data e') = delivered (e_write_handler_data e) @ output_bytes (e_encoding e) cs"
    let ?E = "\<lambda>e'. e_error e' = YAML_WRITER_ERROR \<and> (\<exists>k. delivered (e_write_handler_data e')
         = delivered (e_write_handler_data e) @ take k (output_bytes (e_encoding e) cs))"
    let ?send = "readM (\<lambda>e. bindM (write_out (b_data (e_raw_buffer e))) (\<lambda>ok.
        if ok then modifyM (\<lambda>e. e\<lparr>e_buffer := reset_buffer (e_buffer e), e_raw_buffer := reset_buffer (e_raw_buffer e)\<rparr>)
        else yaml_emitter_set_writer_error ''write error''))"
    have send: "wp ?send ?Q ?E e'" if rec: "recoding ?le ?e1 cs e'" "b_rest (e_buffer e') = []" for e'
    proof -
      have raw: "b_data (e_raw_buffer e') = output_bytes (e_encoding e) cs"
        using rec utf16 ok by (auto simp: recoding_def writer_ok_def output_bytes_put)
      obtain x y where "e' = ?e1\<lparr>e_buffer := x, e_raw_buffer := y\<rparr>"
          "b_cap (e_buffer e') = OUTPUT_BUFFER_SIZE" "b_cap (e_raw_buffer e') = OUTPUT_RAW_BUFFER_SIZE"
        using rec(1) unfolding recoding_def by blast
      then show ?thesis using ok raw
        by (auto simp: wp_simps yaml_emitter_set_writer_error_def writer_ok_def reset_buffer_def
            buffer_ok_def intro!: wp_write_out)
    qed
    have "wp (whileM (length (b_data (e_buffer ?e1))) (\<lambda>e. b_rest (e_buffer e) \<noteq> []) (recode_step ?le))
        (\<lambda>_. wp ?send ?Q ?E) ?E ?e1"
    proof (rule wp_whileM [where I = "recoding ?le ?e1 cs" and \<mu> = "\<lambda>e. length (b_rest (e_buffer e))"])
      show "recoding ?le ?e1 cs ?e1"
        unfolding recoding_def by (rule exI [of _ "[]"], rule exI [of _ cs])
          (use ok in \<open>simp add: writer_ok_def b_rest_def\<close>)
    qed (use send wp_recode_step ok len in \<open>auto simp: writer_ok_def b_rest_def\<close>)
    with ok ne utf16 data show ?thesis
      by (simp add: yaml_emitter_flush_def wp_assertM wp_seqM [of "assertM _"] wp_seqM [of "modifyM _"]
          wp_seqM [of "whileM _ _ _"] wp_modifyM wp_readM writer_ok_def)
  qed
qed

end

interpretation string_sink: byte_sink yaml_string_write_handler so_bytes
  by unfold_locales (auto simp: yaml_string_write_handler_def split: if_splits)

interpretation file_sink: byte_sink yaml_file_write_handler o_bytes
  by unfold_locales (auto simp: yaml_file_write_handler_def fwrite_def min_def split: option.splits if_splits)

subsection \<open>Properties of the writer\<close>

lemma decode_all_utf16_put:
  assumes "\<forall>c\<in>set cs. allowed_char c \<and> unat c < 0x10000" "enc = YAML_UTF16LE_ENCODING \<or> enc = YAML_UTF16BE_ENCODING"
  shows "decode_all enc (concat (map (utf16_put (enc = YAML_UTF16LE_ENCODING)) cs)) = Some cs"
  using assms(1)
proof (induction cs)
  case (Cons c cs)
  let ?le = "enc = YAML_UTF16LE_ENCODING"
  have "decode_char enc True (utf16_put ?le c @ rest) = Decoded c 2" for rest
    using assms(2) Cons.prems decode_utf16_put [of c _ True rest] allowed_char_scalar [of c]
    by (auto simp: decode_char_def)
  moreover have "length (utf16_put ?le c) = 2" "utf16_put ?le c \<noteq> []"
    using Cons.prems by (auto simp: length_utf16_put word_less_nat_alt utf16_put_def utf16_bytes_def)
  ultimately show ?case using Cons assms(2) by (subst decode_all.simps) auto
qed simp

text \<open>The writer is the inverse of the reader's decoder, but for supplementary characters in UTF-16.\<close>

lemma decode_output_bytes:
  assumes "\<forall>c\<in>set cs. allowed_char c \<and> (enc \<noteq> YAML_UTF8_ENCODING \<longrightarrow> unat c < 0x10000)" "enc \<noteq> YAML_ANY_ENCODING"
  shows "decode_all enc (output_bytes enc cs) = Some cs"
proof -
  have "\<forall>c\<in>set cs. unat c < 0x200000" using assms(1) allowed_char_scalar by blast
  then show ?thesis using assms decode_all_utf8_put [of cs] decode_all_utf16_put [of cs enc]
    by (cases enc) (simp_all add: output_bytes_put)
qed

text \<open>C10: Flushing to a memory buffer never overruns the recoding buffer and always returns; on success the buffer
  has got the characters of the output buffer, their octets given by the arithmetic of the encodings, and both internal
  buffers are empty; on failure the writer error is set and a prefix was delivered.  The octets are those of the standard
  for every character in UTF-8, and in UTF-16 for every character of the basic plane, in the byte order of the encoding, and
  for every supplementary one with zeros in bits 10 to 15 of its distance from U+10000; for the other ones the second unit
  is \<open>0xDC00\<close> plus that distance, modulo \<open>2^16\<close>.\<close>

theorem flush_string:
  assumes "writer_ok yaml_string_write_handler cs e"
  shows "wp yaml_emitter_flush
      (\<lambda>_ e'. writer_ok yaml_string_write_handler [] e'
        \<and> so_bytes (e_write_handler_data e') = so_bytes (e_write_handler_data e) @ encoded low_unit_written (e_encoding e) cs)
      (\<lambda>e'. e_error e' = YAML_WRITER_ERROR \<and> (\<exists>k. so_bytes (e_write_handler_data e')
         = so_bytes (e_write_handler_data e) @ take k (encoded low_unit_written (e_encoding e) cs))) e
    \<and> ((\<forall>c\<in>set cs. encoded_right (e_encoding e) c) \<longrightarrow>
         encoded low_unit_written (e_encoding e) cs = encoded low_surrogate (e_encoding e) cs)"
  using string_sink.wp_flush [OF assms] output_bytes_standard by blast

definition sample_writer :: "yaml_encoding \<Rightarrow> nat \<Rightarrow> string_output yaml_writer" where
  "sample_writer enc room = \<lparr>e_mem = \<lparr>outcomes = [], live = 0\<rparr>, e_error = YAML_NO_ERROR, e_problem = [],
     e_write_handler = Some yaml_string_write_handler, e_write_handler_data = \<lparr>so_size = room, so_bytes = []\<rparr>,
     e_buffer = \<lparr>b_data = [0x61, 0xC3, 0xA9], b_pos = 3, b_cap = OUTPUT_BUFFER_SIZE\<rparr>,
     e_raw_buffer = \<lparr>b_data = [], b_pos = 0, b_cap = OUTPUT_RAW_BUFFER_SIZE\<rparr>, e_encoding = enc\<rparr>"

lemma sample_writer_ok:
  "enc \<noteq> YAML_ANY_ENCODING \<Longrightarrow> writer_ok yaml_string_write_handler [0x61, 0xE9] (sample_writer enc room)"
  by (simp add: sample_writer_def writer_ok_def buffer_ok_def OUTPUT_BUFFER_SIZE_def utf8_put_def)

theorem flush_string_witness:
  "writer_ok yaml_string_write_handler [0x61, 0xE9] (sample_writer YAML_UTF16BE_ENCODING 3)
   \<and> wp yaml_emitter_flush
       (\<lambda>_ e'. writer_ok yaml_string_write_handler [] e' \<and> so_bytes (e_write_handler_data e') = [0, 0x61, 0, 0xE9])
       (\<lambda>e'. e_error e' = YAML_WRITER_ERROR \<and> (\<exists>k. so_bytes (e_write_handler_data e') = take k [0, 0x61, 0, 0xE9]))
       (sample_writer YAML_UTF16BE_ENCODING 3)"
proof -
  have ok: "writer_ok yaml_string_write_handler [0x61, 0xE9] (sample_writer YAML_UTF16BE_ENCODING 3)"
    by (rule sample_writer_ok) simp
  have out: "output_bytes YAML_UTF16BE_ENCODING [0x61, 0xE9] = [0, 0x61, 0, 0xE9]"
    by (simp add: encoded_def utf16_octets_def unit_octets_def)
  show ?thesis using ok flush_string [OF ok] out by (simp add: sample_writer_def)
qed

text \<open>C11: What the writer flushed, the reader decodes to the same characters: for every character
  in UTF-8, and for every character of the basic plane in both UTF-16 encodings.\<close>

theorem flush_decode_roundtrip:
  assumes "writer_ok yaml_string_write_handler cs e" "so_bytes (e_write_handler_data e) = []"
    and "\<forall>c\<in>set cs. allowed_char c \<and> (e_encoding e \<noteq> YAML_UTF8_ENCODING \<longrightarrow> unat c < 0x10000)"
    and "yaml_emitter_flush e = Return () e'"
  shows "decode_all (e_encoding e) (so_bytes (e_write_handler_data e')) = Some cs"
proof -
  have "so_bytes (e_write_handler_data e') = output_bytes (e_encoding e) cs"
    using wp_Return [OF string_sink.wp_flush [OF assms(1)] assms(4)] assms(2) by simp
  then show ?thesis using decode_output_bytes assms(1,3) by (simp add: writer_ok_def)
qed

lemma sample_flush_utf8:
  "yaml_emitter_flush (sample_writer YAML_UTF8_ENCODING 9) = Return () ((sample_writer YAML_UTF8_ENCODING 9)
     \<lparr>e_buffer := \<lparr>b_data = [], b_pos = 0, b_cap = OUTPUT_BUFFER_SIZE\<rparr>,
      e_write_handler_data := \<lparr>so_size = 9, so_bytes = [0x61, 0xC3, 0xA9]\<rparr>\<rparr>)"
  by (simp add: yaml_emitter_flush_def prog_defs sample_writer_def write_out_def
      yaml_string_write_handler_def reset_buffer_def)

theorem flush_decode_roundtrip_witness:
  "decode_all YAML_UTF8_ENCODING [0x61, 0xC3, 0xA9] = Some [0x61, 0xE9]"
  using flush_decode_roundtrip [OF sample_writer_ok _ _ sample_flush_utf8]
  by (simp add: sample_writer_def allowed_char_def)

text \<open>C40: A supplementary character that the writer recodes to UTF-16 is read back only where bits
  10 to 15 of its value are 0; all the other ones are written as an ill-formed surrogate pair.\<close>

theorem utf16_supplementary_broken:
  assumes "0x10000 \<le> unat v" "unat v < 0x110000"
  shows "decode_utf16 le eof (utf16_put le v) = Decoded v 4 \<longleftrightarrow> (unat v - 0x10000) div 1024 mod 64 = 0"
  using decode_surrogate_put [OF assms, of le eof "[]"] by simp

theorem utf16_supplementary_broken_witness:
  "decode_utf16 True True (utf16_put True 0x10400) \<noteq> Decoded 0x10400 4
   \<and> decode_utf16 True True (utf16_put True 0x10000) = Decoded 0x10000 4"
  using utf16_supplementary_broken [of "0x10400" True True] utf16_supplementary_broken [of "0x10000" True True]
  by simp

end
