(* ===== verification/Events.thy ===== *)
theory Events
  imports Unicode
begin

text \<open>
  Tokens and events (\<open>api.c\<close>): the functions that create an event from the caller's strings, and
  the functions that free a token or an event.  The initialisers are programs over the heap that
  return the event; the code at an \<open>error:\<close> label is the clean-up of \<open>cleanupM\<close>.  The locale
  \<open>heap_object\<close> is the contract they share: what is created owns exactly the blocks that its
  destructor frees, and a failure leaves no block behind.
\<close>

subsection \<open>Freeing tokens and events\<close>

definition free_string :: "ystring option \<Rightarrow> heap \<Rightarrow> heap" where
  "free_string s = yaml_free (s \<noteq> None)"

definition free_tag_directive :: "yaml_tag_directive \<Rightarrow> heap \<Rightarrow> heap" where
  "free_tag_directive td h = yaml_free True (yaml_free True h)"

definition free_tag_directives :: "yaml_tag_directive list \<Rightarrow> heap \<Rightarrow> heap" where
  "free_tag_directives tds h = fold free_tag_directive tds h"

definition null_token :: yaml_token where
  "null_token = \<lparr>t_data = NoToken, t_start_mark = null_mark, t_end_mark = null_mark\<rparr>"

text \<open>The heap after \<open>yaml_token_delete\<close>; the token itself becomes \<open>null_token\<close>.\<close>

definition yaml_token_delete :: "yaml_token \<Rightarrow> heap \<Rightarrow> heap" where
  "yaml_token_delete t h = (case t_data t of
     TagDirectiveToken handle prefix \<Rightarrow> yaml_free True (yaml_free True h)
   | AliasToken v \<Rightarrow> yaml_free True h
   | AnchorToken v \<Rightarrow> yaml_free True h
   | TagToken handle suffix \<Rightarrow> yaml_free True (yaml_free True h)
   | ScalarToken v style \<Rightarrow> yaml_free True h
   | _ \<Rightarrow> h)"

definition yaml_event_delete :: "yaml_event \<Rightarrow> heap \<Rightarrow> heap" where
  "yaml_event_delete e h = (case ev_data e of
     DocumentStartEvent vd tds implicit \<Rightarrow>
       yaml_free (tds \<noteq> []) (free_tag_directives tds (yaml_free (vd \<noteq> None) h))
   | AliasEvent anchor \<Rightarrow> yaml_free True h
   | ScalarEvent anchor tag v plain quoted style \<Rightarrow>
       yaml_free True (free_string tag (free_string anchor h))
   | SequenceStartEvent anchor tag implicit style \<Rightarrow> free_string tag (free_string anchor h)
   | MappingStartEvent anchor tag implicit style \<Rightarrow> free_string tag (free_string anchor h)
   | _ \<Rightarrow> h)"

definition string_blocks :: "ystring option \<Rightarrow> int" where
  "string_blocks s = (if s = None then 0 else 1)"

definition tag_directives_blocks :: "yaml_tag_directive list \<Rightarrow> int" where
  "tag_directives_blocks tds = (if tds = [] then 0 else 1 + 2 * int (length tds))"

text \<open>The number of heap blocks that a token or an event owns.\<close>

definition token_blocks :: "yaml_token \<Rightarrow> int" where
  "token_blocks t = (case t_data t of
     TagDirectiveToken _ _ \<Rightarrow> 2 | AliasToken _ \<Rightarrow> 1 | AnchorToken _ \<Rightarrow> 1 | TagToken _ _ \<Rightarrow> 2
   | ScalarToken _ _ \<Rightarrow> 1 | _ \<Rightarrow> 0)"

definition event_data_blocks :: "yaml_event_data \<Rightarrow> int" where
  "event_data_blocks d = (case d of
     DocumentStartEvent vd tds _ \<Rightarrow> (if vd = None then 0 else 1) + tag_directives_blocks tds
   | AliasEvent _ \<Rightarrow> 1
   | ScalarEvent anchor tag _ _ _ _ \<Rightarrow> string_blocks anchor + string_blocks tag + 1
   | SequenceStartEvent anchor tag _ _ \<Rightarrow> string_blocks anchor + string_blocks tag
   | MappingStartEvent anchor tag _ _ \<Rightarrow> string_blocks anchor + string_blocks tag
   | _ \<Rightarrow> 0)"

definition event_blocks :: "yaml_event \<Rightarrow> int" where
  "event_blocks e = event_data_blocks (ev_data e)"

lemma live_free_string [simp]: "live (free_string s h) = live h - string_blocks s"
  by (simp add: free_string_def string_blocks_def)

lemma live_free_tag_directives [simp]:
  "live (free_tag_directives tds h) = live h - 2 * int (length tds)"
  unfolding free_tag_directives_def by (induction tds arbitrary: h) (simp_all add: free_tag_directive_def)

lemma live_yaml_token_delete [simp]: "live (yaml_token_delete t h) = live h - token_blocks t"
  by (simp add: yaml_token_delete_def token_blocks_def split: yaml_token_data.split)

text \<open>Every string of the event is valid UTF-8, which is what the functions that create events check.\<close>

definition utf8_opt :: "ystring option \<Rightarrow> bool" where
  "utf8_opt s \<longleftrightarrow> (case s of None \<Rightarrow> True | Some s \<Rightarrow> yaml_check_utf8 s)"

definition td_utf8 :: "yaml_tag_directive \<Rightarrow> bool" where
  "td_utf8 td \<longleftrightarrow> yaml_check_utf8 (td_handle td) \<and> yaml_check_utf8 (td_prefix td)"

fun event_utf8 :: "yaml_event_data \<Rightarrow> bool" where
  "event_utf8 (DocumentStartEvent vd tds implicit) = (\<forall>td\<in>set tds. td_utf8 td)"
| "event_utf8 (AliasEvent a) = yaml_check_utf8 a"
| "event_utf8 (ScalarEvent a t v p q y) = (utf8_opt a \<and> utf8_opt t \<and> yaml_check_utf8 v)"
| "event_utf8 (SequenceStartEvent a t i y) = (utf8_opt a \<and> utf8_opt t)"
| "event_utf8 (MappingStartEvent a t i y) = (utf8_opt a \<and> utf8_opt t)"
| "event_utf8 _ = True"

lemma live_yaml_event_delete [simp]: "live (yaml_event_delete e h) = live h - event_blocks e"
  by (simp add: yaml_event_delete_def event_blocks_def event_data_blocks_def tag_directives_blocks_def
      split: yaml_event_data.split)

subsection \<open>Copying the caller's strings\<close>

text \<open>
  \<open>if (s) { if (!yaml_check_utf8(s, strlen(s))) goto error; copy = yaml_strdup(s);
  if (!copy) goto error; }\<close>
\<close>

definition copy_string :: "ystring option \<Rightarrow> (heap, ystring option) prog" where
  "copy_string s = (case s of
     None \<Rightarrow> returnM None
   | Some t \<Rightarrow>
       if \<not> yaml_check_utf8 (c_str t) then errorM id
       else bindM (yaml_strdup s) (\<lambda>copy. if copy = None then errorM id else returnM copy))"

text \<open>
  The copy of a scalar value; \<open>len < 0\<close> stands for \<open>strlen\<close>.  Reading behind the end of the
  caller's memory and the overflow of \<open>length + 1\<close> are faults.
\<close>

definition copy_value :: "ystring \<Rightarrow> int \<Rightarrow> (heap, ystring) prog" where
  "copy_value v len =
     (let n = (if len < 0 then strlen v else nat len) in
      if n > length v \<or> n \<ge> INT_MAX then faultM
      else if \<not> yaml_check_utf8 (take n v) then errorM id
      else bindM (yaml_malloc (n + 1)) (\<lambda>ok. if ok then returnM (take n v) else errorM id))"

definition copy_version :: "yaml_version_directive option \<Rightarrow> (heap, yaml_version_directive option) prog" where
  "copy_version vd = (case vd of
     None \<Rightarrow> returnM None
   | Some v \<Rightarrow> bindM (yaml_malloc 8) (\<lambda>ok. if ok then returnM (Some v) else errorM id))"

text \<open>One round of the loop over the tag directives; \<open>value\<close> is freed at the \<open>error\<close> label.\<close>

definition copy_tag_directive :: "yaml_tag_directive \<Rightarrow> (yaml_tag_directive ystack \<times> heap, unit) prog" where
  "copy_tag_directive td =
     (if \<not> yaml_check_utf8 (c_str (td_handle td)) then errorM id
      else if \<not> yaml_check_utf8 (c_str (td_prefix td)) then errorM id
      else
        bindM (zoomM snd (\<lambda>h (st, _). (st, h)) (yaml_strdup (Some (td_handle td)))) (\<lambda>handle.
        bindM (zoomM snd (\<lambda>h (st, _). (st, h)) (yaml_strdup (Some (td_prefix td)))) (\<lambda>prefix.
        cleanupM
          (case (handle, prefix) of
             (Some h, Some p) \<Rightarrow> PUSH \<lparr>td_handle = h, td_prefix = p\<rparr>
           | _ \<Rightarrow> errorM id)
          (\<lambda>(st, h). (st, free_string prefix (free_string handle h))))))"

primrec copy_tag_directive_list :: "yaml_tag_directive list \<Rightarrow> (yaml_tag_directive ystack \<times> heap, unit) prog" where
  "copy_tag_directive_list [] = returnM ()"
| "copy_tag_directive_list (td # tds) = seqM (copy_tag_directive td) (copy_tag_directive_list tds)"

text \<open>The clean-up of a partial copy: every element of the stack, then the stack itself.\<close>

definition del_tag_stack :: "yaml_tag_directive ystack \<Rightarrow> heap \<Rightarrow> heap" where
  "del_tag_stack st h = STACK_DEL st (free_tag_directives (rev (elems st)) h)"

definition copy_tag_directives :: "yaml_tag_directive list \<Rightarrow> (heap, yaml_tag_directive list) prog" where
  "copy_tag_directives tds =
     (if tds = [] then returnM []
      else bindM (STACK_INIT sizeof_tag_directive) (\<lambda>st.
        \<lambda>h. case copy_tag_directive_list tds (st, h) of
              Return _ (st', h') \<Rightarrow> Return (elems st') h'
            | Error (st', h') \<Rightarrow> Error (del_tag_stack st' h')
            | Fault \<Rightarrow> Fault))"

subsection \<open>Creating events\<close>

definition yaml_stream_start_event_initialize :: "yaml_encoding \<Rightarrow> (heap, yaml_event) prog" where
  "yaml_stream_start_event_initialize enc = returnM (EVENT_INIT (StreamStartEvent enc) null_mark null_mark)"

definition yaml_stream_end_event_initialize :: "(heap, yaml_event) prog" where
  "yaml_stream_end_event_initialize = returnM (EVENT_INIT StreamEndEvent null_mark null_mark)"

definition yaml_document_start_event_initialize ::
    "yaml_version_directive option \<Rightarrow> yaml_tag_directive list \<Rightarrow> bool \<Rightarrow> (heap, yaml_event) prog" where
  "yaml_document_start_event_initialize vd tds implicit =
     bindM (copy_version vd) (\<lambda>vd'.
     cleanupM
       (bindM (copy_tag_directives tds) (\<lambda>tds'.
          returnM (EVENT_INIT (DocumentStartEvent vd' tds' implicit) null_mark null_mark)))
       (yaml_free (vd' \<noteq> None)))"

definition yaml_document_end_event_initialize :: "bool \<Rightarrow> (heap, yaml_event) prog" where
  "yaml_document_end_event_initialize implicit =
     returnM (EVENT_INIT (DocumentEndEvent implicit) null_mark null_mark)"

definition yaml_alias_event_initialize :: "ystring option \<Rightarrow> (heap, yaml_event) prog" where
  "yaml_alias_event_initialize anchor =
     seqM (assertM (\<lambda>_. anchor \<noteq> None))
       (bindM (copy_string anchor) (\<lambda>copy.
          returnM (EVENT_INIT (AliasEvent (the copy)) null_mark null_mark)))"

definition yaml_scalar_event_initialize ::
    "ystring option \<Rightarrow> ystring option \<Rightarrow> ystring option \<Rightarrow> int \<Rightarrow> bool \<Rightarrow> bool \<Rightarrow> yaml_scalar_style
     \<Rightarrow> (heap, yaml_event) prog" where
  "yaml_scalar_event_initialize anchor tag v len plain_implicit quoted_implicit style =
     seqM (assertM (\<lambda>_. v \<noteq> None))
       (bindM (copy_string anchor) (\<lambda>anchor'.
        cleanupM (bindM (copy_string tag) (\<lambda>tag'.
          cleanupM (bindM (copy_value (the v) len) (\<lambda>v'.
            returnM (EVENT_INIT (ScalarEvent anchor' tag' v' plain_implicit quoted_implicit style)
              null_mark null_mark)))
            (free_string tag')))
          (free_string anchor')))"

definition yaml_sequence_start_event_initialize ::
    "ystring option \<Rightarrow> ystring option \<Rightarrow> bool \<Rightarrow> yaml_sequence_style \<Rightarrow> (heap, yaml_event) prog" where
  "yaml_sequence_start_event_initialize anchor tag implicit style =
     bindM (copy_string anchor) (\<lambda>anchor'.
     cleanupM (bindM (copy_string tag) (\<lambda>tag'.
         returnM (EVENT_INIT (SequenceStartEvent anchor' tag' implicit style) null_mark null_mark)))
       (free_string anchor'))"

definition yaml_sequence_end_event_initialize :: "(heap, yaml_event) prog" where
  "yaml_sequence_end_event_initialize = returnM (EVENT_INIT SequenceEndEvent null_mark null_mark)"

definition yaml_mapping_start_event_initialize ::
    "ystring option \<Rightarrow> ystring option \<Rightarrow> bool \<Rightarrow> yaml_mapping_style \<Rightarrow> (heap, yaml_event) prog" where
  "yaml_mapping_start_event_initialize anchor tag implicit style =
     bindM (copy_string anchor) (\<lambda>anchor'.
     cleanupM (bindM (copy_string tag) (\<lambda>tag'.
         returnM (EVENT_INIT (MappingStartEvent anchor' tag' implicit style) null_mark null_mark)))
       (free_string anchor'))"

definition yaml_mapping_end_event_initialize :: "(heap, yaml_event) prog" where
  "yaml_mapping_end_event_initialize = returnM (EVENT_INIT MappingEndEvent null_mark null_mark)"

subsection \<open>Contracts of the copies\<close>

definition valid_string :: "ystring option \<Rightarrow> bool" where
  "valid_string s \<longleftrightarrow> (case s of None \<Rightarrow> True | Some t \<Rightarrow> yaml_check_utf8 (c_str t))"

definition valid_tag_directive :: "yaml_tag_directive \<Rightarrow> bool" where
  "valid_tag_directive td \<longleftrightarrow> yaml_check_utf8 (c_str (td_handle td)) \<and> yaml_check_utf8 (c_str (td_prefix td))"

definition tag_directive_copy :: "yaml_tag_directive \<Rightarrow> yaml_tag_directive" where
  "tag_directive_copy td = \<lparr>td_handle = c_str (td_handle td), td_prefix = c_str (td_prefix td)\<rparr>"

lemma string_blocks_simps [simp]: "string_blocks None = 0" "string_blocks (Some s) = 1"
  by (simp_all add: string_blocks_def)

lemma wp_copy_string:
  assumes "\<And>h'. valid_string s \<Longrightarrow> live h' = live h + string_blocks s \<Longrightarrow> Q (map_option c_str s) h'"
    and "\<And>h'. live h' = live h \<Longrightarrow> E h'"
  shows "wp (copy_string s) Q E h"
proof (cases s)
  case None
  with assms show ?thesis by (simp add: copy_string_def wp_simps valid_string_def)
next
  case (Some t)
  with assms show ?thesis
    by (auto simp: copy_string_def wp_simps valid_string_def intro!: wp_yaml_strdup)
qed

lemma wp_copy_value:
  assumes "nat len \<le> length v" "length v < INT_MAX"
    and "\<And>h' n. n = (if len < 0 then strlen v else nat len) \<Longrightarrow> yaml_check_utf8 (take n v)
      \<Longrightarrow> live h' = live h + 1 \<Longrightarrow> Q (take n v) h'"
    and "\<And>h'. live h' = live h \<Longrightarrow> E h'"
  shows "wp (copy_value v len) Q E h"
  using assms strlen_le [of v]
  by (auto simp: copy_value_def Let_def wp_simps intro!: wp_yaml_malloc)

lemma wp_copy_version:
  assumes "\<And>h'. live h' = live h + (if vd = None then 0 else 1) \<Longrightarrow> Q vd h'"
    and "\<And>h'. live h' = live h \<Longrightarrow> E h'"
  shows "wp (copy_version vd) Q E h"
  using assms by (cases vd) (auto simp: copy_version_def wp_simps intro!: wp_yaml_malloc)

lemma wp_copy_tag_directive:
  assumes "stack_ok st"
    and "\<And>st' h'. valid_tag_directive td \<Longrightarrow> stack_ok st' \<Longrightarrow> elems st' = elems st @ [tag_directive_copy td]
      \<Longrightarrow> live h' = live h + 2 \<Longrightarrow> Q () (st', h')"
    and "\<And>h'. live h' = live h \<Longrightarrow> E (st, h')"
  shows "wp (copy_tag_directive td) Q E (st, h)"
  using assms
  by (auto simp: copy_tag_directive_def wp_simps valid_tag_directive_def tag_directive_copy_def
      intro!: wp_yaml_strdup wp_PUSH)

lemma wp_copy_tag_directive_list:
  assumes "stack_ok st"
    and "\<And>st' h'. \<forall>td\<in>set tds. valid_tag_directive td \<Longrightarrow> stack_ok st'
      \<Longrightarrow> elems st' = elems st @ map tag_directive_copy tds \<Longrightarrow> live h' = live h + 2 * int (length tds) \<Longrightarrow> Q () (st', h')"
    and "\<And>st' h' n. stack_ok st' \<Longrightarrow> length (elems st') = length (elems st) + n \<Longrightarrow> live h' = live h + 2 * int n
      \<Longrightarrow> E (st', h')"
  shows "wp (copy_tag_directive_list tds) Q E (st, h)"
  using assms
proof (induction tds arbitrary: st h)
  case Nil
  then show ?case by (simp add: wp_simps)
next
  case (Cons td tds)
  have "wp (copy_tag_directive td) (\<lambda>_. wp (copy_tag_directive_list tds) Q E) E (st, h)"
  proof (rule wp_copy_tag_directive [OF Cons.prems(1)])
    fix st' :: "yaml_tag_directive ystack" and h' :: heap
    assume td: "valid_tag_directive td" "stack_ok st'" "elems st' = elems st @ [tag_directive_copy td]"
      "live h' = live h + 2"
    show "wp (copy_tag_directive_list tds) Q E (st', h')"
    proof (rule Cons.IH [OF td(2)])
      fix st'' :: "yaml_tag_directive ystack" and h'' :: heap
      assume "\<forall>td\<in>set tds. valid_tag_directive td" "stack_ok st''"
        "elems st'' = elems st' @ map tag_directive_copy tds" "live h'' = live h' + 2 * int (length tds)"
      with td show "Q () (st'', h'')" by (intro Cons.prems(2)) auto
    next
      fix st'' :: "yaml_tag_directive ystack" and h'' :: heap and n
      assume "stack_ok st''" "length (elems st'') = length (elems st') + n" "live h'' = live h' + 2 * int n"
      with td show "E (st'', h'')" by (intro Cons.prems(3) [where n = "Suc n"]) auto
    qed
  qed (use Cons.prems(1) Cons.prems(3) [where n = 0] in auto)
  then show ?case by (simp add: wp_simps)
qed

lemma live_del_tag_stack: "stack_ok st \<Longrightarrow> live (del_tag_stack st h) = live h - 1 - 2 * int (length (elems st))"
  by (simp add: del_tag_stack_def STACK_DEL_def stack_ok_def)

lemma wp_copy_tag_directives:
  assumes Q: "\<And>h'. \<forall>td\<in>set tds. valid_tag_directive td
      \<Longrightarrow> live h' = live h + tag_directives_blocks tds \<Longrightarrow> Q (map tag_directive_copy tds) h'"
    and E: "\<And>h'. live h' = live h \<Longrightarrow> E h'"
  shows "wp (copy_tag_directives tds) Q E h"
proof (cases "tds = []")
  case True
  with Q show ?thesis by (simp add: copy_tag_directives_def wp_simps tag_directives_blocks_def)
next
  case False
  let ?rest = "\<lambda>st h. case copy_tag_directive_list tds (st, h) of
      Return _ (st', h') \<Rightarrow> Return (elems st') h' | Error (st', h') \<Rightarrow> Error (del_tag_stack st' h') | Fault \<Rightarrow> Fault"
  have "wp (?rest st) Q E h1" if st: "stack_ok st" "elems st = []" "live h1 = live h + 1" for st and h1 :: heap
  proof -
    have "wp (copy_tag_directive_list tds) (\<lambda>_ (st', h'). Q (elems st') h') (\<lambda>(st', h'). E (del_tag_stack st' h')) (st, h1)"
      by (rule wp_copy_tag_directive_list [OF st(1)])
        (use st False in \<open>auto simp: live_del_tag_stack tag_directives_blocks_def intro!: Q E\<close>)
    then show ?thesis by (auto simp: wp_def split: result.splits)
  qed
  then show ?thesis using False
    unfolding copy_tag_directives_def
    by (simp add: wp_simps) (rule wp_STACK_INIT, auto intro: E)
qed

subsection \<open>The contract of an initialiser and its destructor\<close>

locale heap_object =
  fixes make :: "'i \<Rightarrow> (heap, 'a) prog"
    and pre :: "'i \<Rightarrow> bool"
    and del :: "'a \<Rightarrow> heap \<Rightarrow> heap"
    and blocks :: "'a \<Rightarrow> int"
  assumes make_spec: "pre i \<Longrightarrow> wp (make i) (\<lambda>x h'. live h' = live h + blocks x) (\<lambda>h'. live h' = live h) h"
    and del_spec: "live (del x h) = live h - blocks x"
begin

text \<open>Creating and deleting an object, or failing to create it, leaves the heap as it was.\<close>

lemma no_leak: "pre i \<Longrightarrow> wp (make i) (\<lambda>x h'. live (del x h') = live h) (\<lambda>h'. live h' = live h) h"
  by (rule wp_mono [OF make_spec]) (simp_all add: del_spec)

end

lemmas event_init_simps = wp_simps EVENT_INIT_def event_blocks_def event_data_blocks_def

lemma wp_alias_event:
  assumes "anchor = Some a"
  shows "wp (yaml_alias_event_initialize anchor)
      (\<lambda>e h'. e = EVENT_INIT (AliasEvent (c_str a)) null_mark null_mark \<and> valid_string anchor
        \<and> live h' = live h + event_blocks e)
      (\<lambda>h'. live h' = live h) h"
  using assms by (auto simp: yaml_alias_event_initialize_def event_init_simps intro!: wp_copy_string)

lemma wp_scalar_event:
  assumes "v = Some s" "nat len \<le> length s" "length s < INT_MAX"
  shows "wp (yaml_scalar_event_initialize anchor tag v len plain quoted style)
      (\<lambda>e h'. let n = (if len < 0 then strlen s else nat len) in
         e = EVENT_INIT (ScalarEvent (map_option c_str anchor) (map_option c_str tag) (take n s) plain quoted style)
               null_mark null_mark
         \<and> valid_string anchor \<and> valid_string tag \<and> yaml_check_utf8 (take n s)
         \<and> live h' = live h + event_blocks e)
      (\<lambda>h'. live h' = live h) h"
  using assms unfolding yaml_scalar_event_initialize_def Let_def
  by (auto simp: event_init_simps intro!: wp_copy_string wp_copy_value) (simp_all add: string_blocks_def)

lemma wp_sequence_start_event:
  "wp (yaml_sequence_start_event_initialize anchor tag implicit style)
     (\<lambda>e h'. e = EVENT_INIT (SequenceStartEvent (map_option c_str anchor) (map_option c_str tag) implicit style)
           null_mark null_mark
        \<and> valid_string anchor \<and> valid_string tag \<and> live h' = live h + event_blocks e)
     (\<lambda>h'. live h' = live h) h"
  unfolding yaml_sequence_start_event_initialize_def
  by (auto simp: event_init_simps intro!: wp_copy_string) (simp_all add: string_blocks_def)

lemma wp_mapping_start_event:
  "wp (yaml_mapping_start_event_initialize anchor tag implicit style)
     (\<lambda>e h'. e = EVENT_INIT (MappingStartEvent (map_option c_str anchor) (map_option c_str tag) implicit style)
           null_mark null_mark
        \<and> valid_string anchor \<and> valid_string tag \<and> live h' = live h + event_blocks e)
     (\<lambda>h'. live h' = live h) h"
  unfolding yaml_mapping_start_event_initialize_def
  by (auto simp: event_init_simps intro!: wp_copy_string) (simp_all add: string_blocks_def)

lemma wp_document_start_event:
  "wp (yaml_document_start_event_initialize vd tds implicit)
     (\<lambda>e h'. e = EVENT_INIT (DocumentStartEvent vd (map tag_directive_copy tds) implicit) null_mark null_mark
        \<and> (\<forall>td\<in>set tds. valid_tag_directive td) \<and> live h' = live h + event_blocks e)
     (\<lambda>h'. live h' = live h) h"
  unfolding yaml_document_start_event_initialize_def
  by (auto simp: event_init_simps tag_directives_blocks_def intro!: wp_copy_version wp_copy_tag_directives)

interpretation alias_event: heap_object yaml_alias_event_initialize "\<lambda>a. a \<noteq> None" yaml_event_delete event_blocks
  by unfold_locales (auto intro: wp_mono [OF wp_alias_event])

interpretation scalar_event: heap_object
  "\<lambda>(anchor, tag, v, len, plain, quoted, style). yaml_scalar_event_initialize anchor tag v len plain quoted style"
  "\<lambda>(anchor, tag, v, len, plain, quoted, style). \<exists>s. v = Some s \<and> nat len \<le> length s \<and> length s < INT_MAX"
  yaml_event_delete event_blocks
  by unfold_locales (auto simp: Let_def intro: wp_mono [OF wp_scalar_event])

interpretation sequence_start_event: heap_object
  "\<lambda>(anchor, tag, implicit, style). yaml_sequence_start_event_initialize anchor tag implicit style"
  "\<lambda>_. True" yaml_event_delete event_blocks
  by unfold_locales (auto intro: wp_mono [OF wp_sequence_start_event])

interpretation mapping_start_event: heap_object
  "\<lambda>(anchor, tag, implicit, style). yaml_mapping_start_event_initialize anchor tag implicit style"
  "\<lambda>_. True" yaml_event_delete event_blocks
  by unfold_locales (auto intro: wp_mono [OF wp_mapping_start_event])

interpretation document_start_event: heap_object
  "\<lambda>(vd, tds, implicit). yaml_document_start_event_initialize vd tds implicit"
  "\<lambda>_. True" yaml_event_delete event_blocks
  by unfold_locales (auto intro: wp_mono [OF wp_document_start_event])

subsection \<open>With an allocator that never refuses\<close>

lemma copy_string_plenty:
  "outcomes h = [] \<Longrightarrow> copy_string s h =
     (if valid_string s then Return (map_option c_str s) (h\<lparr>live := live h + string_blocks s\<rparr>) else Error h)"
  by (cases s) (auto simp: copy_string_def valid_string_def prog_defs yaml_strdup_def malloc_def)

lemma copy_value_plenty:
  assumes "outcomes h = []" "nat len \<le> length v" "length v < INT_MAX"
  shows "copy_value v len h = (let n = (if len < 0 then strlen v else nat len) in
     if yaml_check_utf8 (take n v) then Return (take n v) (h\<lparr>live := live h + 1\<rparr>) else Error h)"
  using assms strlen_le [of v]
  by (auto simp: copy_value_def Let_def prog_defs yaml_malloc_def malloc_def)

subsection \<open>Properties of the event initialisers\<close>

text \<open>C12: \<open>yaml_scalar_event_initialize\<close> copies its arguments (anchor and tag up to their NUL, the
  value up to its length), accepts only valid UTF-8, owns exactly the blocks that
  \<open>yaml_event_delete\<close> frees, and leaves no block behind when it fails, whatever allocation fails.\<close>

theorem scalar_event_contract:
  assumes "v = Some s" "nat len \<le> length s" "length s < INT_MAX"
  shows "wp (yaml_scalar_event_initialize anchor tag v len plain quoted style)
      (\<lambda>e h'. let n = (if len < 0 then strlen s else nat len) in
         ev_data e = ScalarEvent (map_option c_str anchor) (map_option c_str tag) (take n s) plain quoted style
         \<and> valid_string anchor \<and> valid_string tag \<and> yaml_check_utf8 (take n s)
         \<and> live (yaml_event_delete e h') = live h)
      (\<lambda>h'. live h' = live h) h"
  by (rule wp_mono [OF wp_scalar_event [OF assms]]) (auto simp: Let_def EVENT_INIT_def)

theorem scalar_event_contract_witness:
  "wp (yaml_scalar_event_initialize (Some [0x61]) None (Some [0x62, 0x63, 0]) (- 1) True True YAML_PLAIN_SCALAR_STYLE)
      (\<lambda>e h'. ev_data e = ScalarEvent (Some [0x61]) None [0x62, 0x63] True True YAML_PLAIN_SCALAR_STYLE
         \<and> live (yaml_event_delete e h') = 0)
      (\<lambda>h'. live h' = 0) \<lparr>outcomes = [True, False], live = 0\<rparr>"
  by (rule wp_mono [OF scalar_event_contract [where s = "[0x62, 0x63, 0]"]])
    (auto simp: INT_MAX_def Let_def strlen_def c_str_def)

text \<open>C30: With an allocator that never refuses, \<open>yaml_scalar_event_initialize\<close> succeeds exactly when the
  anchor, the tag and the value are valid UTF-8.\<close>

theorem scalar_event_succeeds_iff:
  assumes "outcomes h = []" "nat len \<le> length s" "length s < INT_MAX"
  shows "(\<exists>e h'. yaml_scalar_event_initialize anchor tag (Some s) len plain quoted style h = Return e h')
    \<longleftrightarrow> valid_string anchor \<and> valid_string tag \<and> yaml_check_utf8 (take (if len < 0 then strlen s else nat len) s)"
  using assms
  by (auto simp: yaml_scalar_event_initialize_def prog_defs copy_string_plenty copy_value_plenty Let_def)

theorem scalar_event_succeeds_iff_witness:
  "\<not> (\<exists>e h'. yaml_scalar_event_initialize None None (Some [0xFF, 0]) (- 1) True True YAML_PLAIN_SCALAR_STYLE
        \<lparr>outcomes = [], live = 0\<rparr> = Return e h')"
  using scalar_event_succeeds_iff [of "\<lparr>outcomes = [], live = 0\<rparr>" "- 1" "[0xFF, 0]" None None True True
      YAML_PLAIN_SCALAR_STYLE]
  by (simp add: INT_MAX_def strlen_def c_str_def yaml_check_utf8.simps utf8_width_def)

text \<open>C28: \<open>yaml_document_start_event_initialize\<close> copies the version and all tag directives, and neither its
  success followed by \<open>yaml_event_delete\<close> nor a failure at any point of the loop over the tag
  directives leaves a block behind.\<close>

theorem document_start_event_contract:
  "wp (yaml_document_start_event_initialize vd tds implicit)
     (\<lambda>e h'. ev_data e = DocumentStartEvent vd (map tag_directive_copy tds) implicit
        \<and> (\<forall>td\<in>set tds. valid_tag_directive td) \<and> live (yaml_event_delete e h') = live h)
     (\<lambda>h'. live h' = live h) h"
  by (rule wp_mono [OF wp_document_start_event]) (auto simp: EVENT_INIT_def)

theorem document_start_event_contract_witness:
  "wp (yaml_document_start_event_initialize None [\<lparr>td_handle = [0x21, 0], td_prefix = [0x78, 0]\<rparr>] True)
     (\<lambda>e h'. ev_data e = DocumentStartEvent None [\<lparr>td_handle = [0x21], td_prefix = [0x78]\<rparr>] True
        \<and> live (yaml_event_delete e h') = 0)
     (\<lambda>h'. live h' = 0) \<lparr>outcomes = [True, True, False], live = 0\<rparr>"
  by (rule wp_mono [OF document_start_event_contract]) (auto simp: tag_directive_copy_def c_str_def)

end
