(* ===== verification/Document.thy ===== *)
theory Document
  imports Events
begin

text \<open>
  Documents (\<open>api.c\<close>): a document is a stack of nodes, and collections refer to their members by
  index (1 is the root).  The operations are programs over the document and the heap.  An abstract
  document is the list of its nodes with plain lists as contents; every operation refines the
  obvious operation on it.
\<close>

type_synonym doc_state = "yaml_document \<times> heap"

definition lit :: "string \<Rightarrow> ystring" where
  "lit s = map (\<lambda>c. of_nat (of_char c)) s"

definition YAML_DEFAULT_SCALAR_TAG :: ystring where
  "YAML_DEFAULT_SCALAR_TAG = lit ''tag:yaml.org,2002:str''"

definition YAML_DEFAULT_SEQUENCE_TAG :: ystring where
  "YAML_DEFAULT_SEQUENCE_TAG = lit ''tag:yaml.org,2002:seq''"

definition YAML_DEFAULT_MAPPING_TAG :: ystring where
  "YAML_DEFAULT_MAPPING_TAG = lit ''tag:yaml.org,2002:map''"

subsection \<open>Creating and deleting documents\<close>

definition yaml_document_initialize ::
    "yaml_version_directive option \<Rightarrow> yaml_tag_directive list \<Rightarrow> bool \<Rightarrow> bool \<Rightarrow> (heap, yaml_document) prog" where
  "yaml_document_initialize vd tds start_implicit end_implicit =
     bindM (STACK_INIT sizeof_node) (\<lambda>nodes.
     cleanupM
       (bindM (copy_version vd) (\<lambda>vd'.
        cleanupM
          (bindM (copy_tag_directives tds) (\<lambda>tds'.
             returnM \<lparr>d_nodes = nodes, d_version_directive = vd', d_tag_directives = tds',
               d_start_implicit = start_implicit, d_end_implicit = end_implicit,
               d_start_mark = null_mark, d_end_mark = null_mark\<rparr>))
          (yaml_free (vd' \<noteq> None))))
       (STACK_DEL nodes))"

definition free_node :: "yaml_node \<Rightarrow> heap \<Rightarrow> heap" where
  "free_node n h = (let h' = yaml_free True h in case n_data n of
     ScalarNode v style \<Rightarrow> yaml_free True h'
   | SequenceNode sis style \<Rightarrow> STACK_DEL sis h'
   | MappingNode pairs style \<Rightarrow> STACK_DEL pairs h')"

text \<open>The heap after \<open>yaml_document_delete\<close>; the document itself becomes \<open>null_document\<close>.\<close>

definition yaml_document_delete :: "yaml_document \<Rightarrow> heap \<Rightarrow> heap" where
  "yaml_document_delete d h =
     yaml_free (d_tag_directives d \<noteq> [])
       (free_tag_directives (d_tag_directives d)
         (yaml_free (d_version_directive d \<noteq> None)
           (STACK_DEL (d_nodes d) (fold free_node (rev (elems (d_nodes d))) h))))"

subsection \<open>Reading\<close>

abbreviation doc_nodes :: "yaml_document \<Rightarrow> yaml_node list" where
  "doc_nodes d \<equiv> elems (d_nodes d)"

definition yaml_document_get_node :: "yaml_document \<Rightarrow> int \<Rightarrow> yaml_node option" where
  "yaml_document_get_node d index =
     (if index > 0 \<and> index \<le> int (length (doc_nodes d)) then Some (doc_nodes d ! nat (index - 1)) else None)"

definition yaml_document_get_root_node :: "yaml_document \<Rightarrow> yaml_node option" where
  "yaml_document_get_root_node d = (if doc_nodes d \<noteq> [] then Some (doc_nodes d ! 0) else None)"

subsection \<open>Adding nodes\<close>

definition on_heap :: "(heap, 'a) prog \<Rightarrow> ('s \<times> heap, 'a) prog" where
  "on_heap = zoomM snd (\<lambda>h (s, _). (s, h))"

definition push_node :: "yaml_node \<Rightarrow> (doc_state, int) prog" where
  "push_node n =
     seqM (zoomM (\<lambda>(d, h). (d_nodes d, h)) (\<lambda>(st, h) (d, _). (d\<lparr>d_nodes := st\<rparr>, h)) (PUSH n))
       (getM (\<lambda>(d, h). int (length (doc_nodes d))))"

definition NODE_INIT :: "ystring \<Rightarrow> yaml_node_data \<Rightarrow> yaml_mark \<Rightarrow> yaml_mark \<Rightarrow> yaml_node" where
  "NODE_INIT tag d m m' = \<lparr>n_tag = tag, n_data = d, n_start_mark = m, n_end_mark = m'\<rparr>"

definition tag_or :: "ystring option \<Rightarrow> ystring \<Rightarrow> ystring" where
  "tag_or tag dflt = (case tag of None \<Rightarrow> dflt | Some t \<Rightarrow> t)"

definition yaml_document_add_scalar ::
    "ystring option \<Rightarrow> ystring option \<Rightarrow> int \<Rightarrow> yaml_scalar_style \<Rightarrow> (doc_state, int) prog" where
  "yaml_document_add_scalar tag v len style =
     seqM (assertM (\<lambda>_. v \<noteq> None))
       (bindM (on_heap (copy_string (Some (tag_or tag YAML_DEFAULT_SCALAR_TAG)))) (\<lambda>tag_copy.
        cleanupM
          (bindM (on_heap (copy_value (the v) len)) (\<lambda>value_copy.
           cleanupM
             (push_node (NODE_INIT (the tag_copy) (ScalarNode value_copy style) null_mark null_mark))
             (apsnd (yaml_free True))))
          (apsnd (free_string tag_copy))))"

definition yaml_document_add_sequence ::
    "ystring option \<Rightarrow> yaml_sequence_style \<Rightarrow> (doc_state, int) prog" where
  "yaml_document_add_sequence tag style =
     bindM (on_heap (copy_string (Some (tag_or tag YAML_DEFAULT_SEQUENCE_TAG)))) (\<lambda>tag_copy.
     cleanupM
       (bindM (on_heap (STACK_INIT sizeof_int)) (\<lambda>sis.
        cleanupM
          (push_node (NODE_INIT (the tag_copy) (SequenceNode sis style) null_mark null_mark))
          (apsnd (STACK_DEL sis))))
       (apsnd (free_string tag_copy)))"

definition yaml_document_add_mapping ::
    "ystring option \<Rightarrow> yaml_mapping_style \<Rightarrow> (doc_state, int) prog" where
  "yaml_document_add_mapping tag style =
     bindM (on_heap (copy_string (Some (tag_or tag YAML_DEFAULT_MAPPING_TAG)))) (\<lambda>tag_copy.
     cleanupM
       (bindM (on_heap (STACK_INIT sizeof_node_pair)) (\<lambda>pairs.
        cleanupM
          (push_node (NODE_INIT (the tag_copy) (MappingNode pairs style) null_mark null_mark))
          (apsnd (STACK_DEL pairs))))
       (apsnd (free_string tag_copy)))"

definition valid_id :: "yaml_document \<Rightarrow> int \<Rightarrow> bool" where
  "valid_id d i \<longleftrightarrow> i > 0 \<and> i \<le> int (length (doc_nodes d))"

definition node_at :: "yaml_document \<Rightarrow> int \<Rightarrow> yaml_node" where
  "node_at d i = doc_nodes d ! nat (i - 1)"

definition set_node_data :: "int \<Rightarrow> yaml_node_data \<Rightarrow> yaml_document \<Rightarrow> yaml_document" where
  "set_node_data i nd d = d\<lparr>d_nodes := (d_nodes d)\<lparr>
     elems := (doc_nodes d)[nat (i - 1) := (node_at d i)\<lparr>n_data := nd\<rparr>]\<rparr>\<rparr>"

text \<open>\<open>PUSH\<close> on the items of a sequence node and on the pairs of a mapping node.\<close>

definition push_item :: "int \<Rightarrow> int \<Rightarrow> (doc_state, unit) prog" where
  "push_item i x = (\<lambda>(d, h). case n_data (node_at d i) of
     SequenceNode sis style \<Rightarrow>
       (case PUSH x (sis, h) of
          Return _ (sis', h') \<Rightarrow> Return () (set_node_data i (SequenceNode sis' style) d, h')
        | Error (_, h') \<Rightarrow> Error (d, h')
        | Fault \<Rightarrow> Fault)
   | _ \<Rightarrow> Fault)"

definition push_pair :: "int \<Rightarrow> yaml_node_pair \<Rightarrow> (doc_state, unit) prog" where
  "push_pair i x = (\<lambda>(d, h). case n_data (node_at d i) of
     MappingNode pairs style \<Rightarrow>
       (case PUSH x (pairs, h) of
          Return _ (pairs', h') \<Rightarrow> Return () (set_node_data i (MappingNode pairs' style) d, h')
        | Error (_, h') \<Rightarrow> Error (d, h')
        | Fault \<Rightarrow> Fault)
   | _ \<Rightarrow> Fault)"

definition yaml_document_append_sequence_item :: "int \<Rightarrow> int \<Rightarrow> (doc_state, unit) prog" where
  "yaml_document_append_sequence_item sq item =
     seqM (assertM (\<lambda>(d, _). valid_id d sq))
     (seqM (assertM (\<lambda>(d, _). n_type (node_at d sq) = YAML_SEQUENCE_NODE))
     (seqM (assertM (\<lambda>(d, _). valid_id d item))
       (push_item sq item)))"

definition yaml_document_append_mapping_pair :: "int \<Rightarrow> int \<Rightarrow> int \<Rightarrow> (doc_state, unit) prog" where
  "yaml_document_append_mapping_pair mp key v =
     seqM (assertM (\<lambda>(d, _). valid_id d mp))
     (seqM (assertM (\<lambda>(d, _). n_type (node_at d mp) = YAML_MAPPING_NODE))
     (seqM (assertM (\<lambda>(d, _). valid_id d key))
     (seqM (assertM (\<lambda>(d, _). valid_id d v))
       (push_pair mp \<lparr>np_key = key, np_value = v\<rparr>))))"

subsection \<open>The abstract document\<close>

datatype anode = AScalar ystring ystring | ASequence ystring "int list" | AMapping ystring "(int \<times> int) list"

fun abs_data :: "ystring \<Rightarrow> yaml_node_data \<Rightarrow> anode" where
  "abs_data tag (ScalarNode v _) = AScalar tag v"
| "abs_data tag (SequenceNode sis _) = ASequence tag (elems sis)"
| "abs_data tag (MappingNode pairs _) = AMapping tag (map (\<lambda>p. (np_key p, np_value p)) (elems pairs))"

definition abs_node :: "yaml_node \<Rightarrow> anode" where
  "abs_node n = abs_data (n_tag n) (n_data n)"

definition abs_doc :: "yaml_document \<Rightarrow> anode list" where
  "abs_doc d = map abs_node (doc_nodes d)"

fun append_item :: "int \<Rightarrow> anode \<Rightarrow> anode" where
  "append_item i (ASequence tag xs) = ASequence tag (xs @ [i])"
| "append_item i n = n"

fun append_pair :: "int \<Rightarrow> int \<Rightarrow> anode \<Rightarrow> anode" where
  "append_pair k v (AMapping tag ps) = AMapping tag (ps @ [(k, v)])"
| "append_pair k v n = n"

text \<open>Well-formed documents: every reference leads to a node of the document.\<close>

fun data_ok :: "nat \<Rightarrow> yaml_node_data \<Rightarrow> bool" where
  "data_ok N (ScalarNode _ _) = True"
| "data_ok N (SequenceNode sis _) = (stack_ok sis \<and> (\<forall>i\<in>set (elems sis). 0 < i \<and> i \<le> int N))"
| "data_ok N (MappingNode pairs _) = (stack_ok pairs
     \<and> (\<forall>p\<in>set (elems pairs). 0 < np_key p \<and> np_key p \<le> int N \<and> 0 < np_value p \<and> np_value p \<le> int N))"

definition doc_ok :: "yaml_document \<Rightarrow> bool" where
  "doc_ok d \<longleftrightarrow> stack_ok (d_nodes d) \<and> (\<forall>n\<in>set (doc_nodes d). data_ok (length (doc_nodes d)) (n_data n))"

fun data_blocks :: "yaml_node_data \<Rightarrow> int" where
  "data_blocks (ScalarNode _ _) = 1"
| "data_blocks (SequenceNode sis _) = (if cap sis = 0 then 0 else 1)"
| "data_blocks (MappingNode pairs _) = (if cap pairs = 0 then 0 else 1)"

definition node_blocks :: "yaml_node \<Rightarrow> int" where
  "node_blocks n = 1 + data_blocks (n_data n)"

definition document_blocks :: "yaml_document \<Rightarrow> int" where
  "document_blocks d = (if cap (d_nodes d) = 0 then 0 else 1) + sum_list (map node_blocks (doc_nodes d))
     + (if d_version_directive d = None then 0 else 1) + tag_directives_blocks (d_tag_directives d)"

lemma data_ok_mono: "data_ok M nd \<Longrightarrow> M \<le> N \<Longrightarrow> data_ok N nd"
  by (cases nd) fastforce+

lemma live_free_node [simp]: "live (free_node n h) = live h - node_blocks n"
  by (simp add: free_node_def Let_def node_blocks_def split: yaml_node_data.split)

lemma live_free_nodes: "live (fold free_node ns h) = live h - sum_list (map node_blocks ns)"
  by (induction ns arbitrary: h) simp_all

lemma live_yaml_document_delete: "live (yaml_document_delete d h) = live h - document_blocks d"
proof -
  have "sum_list (map node_blocks (rev (doc_nodes d))) = sum_list (map node_blocks (doc_nodes d))"
    by (simp add: rev_map [symmetric])
  then show ?thesis
    by (simp add: yaml_document_delete_def document_blocks_def tag_directives_blocks_def live_free_nodes)
qed

lemma wp_document_initialize:
  "wp (yaml_document_initialize vd tds start_implicit end_implicit)
     (\<lambda>d h'. doc_ok d \<and> abs_doc d = [] \<and> d_version_directive d = vd
        \<and> d_tag_directives d = map tag_directive_copy tds
        \<and> d_start_implicit d = start_implicit \<and> d_end_implicit d = end_implicit
        \<and> (\<forall>td\<in>set tds. valid_tag_directive td) \<and> live h' = live h + document_blocks d)
     (\<lambda>h'. live h' = live h) h"
  unfolding yaml_document_initialize_def
  by (auto simp: wp_simps doc_ok_def abs_doc_def document_blocks_def tag_directives_blocks_def stack_ok_def
      intro!: wp_STACK_INIT wp_copy_version wp_copy_tag_directives)

interpretation document_object: heap_object
  "\<lambda>(vd, tds, si, ei). yaml_document_initialize vd tds si ei" "\<lambda>_. True" yaml_document_delete document_blocks
  by unfold_locales (auto simp: live_yaml_document_delete intro: wp_mono [OF wp_document_initialize])

subsection \<open>Contracts of the operations\<close>

text \<open>
  \<open>added d nd\<close>: what every function that adds a node guarantees of the new document and heap.
\<close>

definition added :: "doc_state \<Rightarrow> anode \<Rightarrow> int \<Rightarrow> doc_state \<Rightarrow> bool" where
  "added s nd i s' \<longleftrightarrow> doc_ok (fst s') \<and> i = int (length (doc_nodes (fst s))) + 1
     \<and> abs_doc (fst s') = abs_doc (fst s) @ [nd]
     \<and> live (snd s') - document_blocks (fst s') = live (snd s) - document_blocks (fst s)
     \<and> fst s' = (fst s)\<lparr>d_nodes := d_nodes (fst s')\<rparr>"

lemma wp_on_heap: "wp (on_heap m) Q E (s, h) = wp m (\<lambda>a h'. Q a (s, h')) (\<lambda>h'. E (s, h')) h"
  by (simp add: on_heap_def wp_simps)

lemma wp_push_node_any:
  assumes "stack_ok (d_nodes d)"
    and Q: "\<And>st' h'. stack_ok st' \<Longrightarrow> elems st' = doc_nodes d @ [n] \<Longrightarrow> live h' = live h
      \<Longrightarrow> document_blocks (d\<lparr>d_nodes := st'\<rparr>) = document_blocks d + node_blocks n
      \<Longrightarrow> Q (int (length (doc_nodes d)) + 1) (d\<lparr>d_nodes := st'\<rparr>, h')"
    and E: "\<And>h'. live h' = live h \<Longrightarrow> E (d, h')"
  shows "wp (push_node n) Q E (d, h)"
proof -
  have "wp (PUSH n) (\<lambda>_ (st, h'). Q (int (length (elems st))) (d\<lparr>d_nodes := st\<rparr>, h'))
      (\<lambda>(st, h'). E (d\<lparr>d_nodes := st\<rparr>, h')) (d_nodes d, h)"
  proof (rule wp_PUSH [OF assms(1)])
    fix st' :: "yaml_node ystack" and h' :: heap
    assume st': "stack_ok st'" "elems st' = doc_nodes d @ [n]" "live h' = live h"
    have "document_blocks (d\<lparr>d_nodes := st'\<rparr>) = document_blocks d + node_blocks n"
      using assms(1) st' by (auto simp: document_blocks_def stack_ok_def)
    then show "case (st', h') of (st, h') \<Rightarrow> Q (int (length (elems st))) (d\<lparr>d_nodes := st\<rparr>, h')"
      using Q [OF st'] st'(2) by (simp add: add.commute)
  qed (use E in auto)
  then show ?thesis by (simp add: push_node_def wp_simps case_prod_unfold)
qed

lemma wp_push_node:
  assumes "doc_ok d" "data_ok (length (doc_nodes d)) (n_data n)"
    and Q: "\<And>st' h'. stack_ok st' \<Longrightarrow> elems st' = doc_nodes d @ [n] \<Longrightarrow> live h' = live h
      \<Longrightarrow> doc_ok (d\<lparr>d_nodes := st'\<rparr>)
      \<Longrightarrow> document_blocks (d\<lparr>d_nodes := st'\<rparr>) = document_blocks d + node_blocks n
      \<Longrightarrow> Q (int (length (doc_nodes d)) + 1) (d\<lparr>d_nodes := st'\<rparr>, h')"
    and E: "\<And>h'. live h' = live h \<Longrightarrow> E (d, h')"
  shows "wp (push_node n) Q E (d, h)"
proof (rule wp_push_node_any)
  fix st' :: "yaml_node ystack" and h' :: heap
  assume st': "stack_ok st'" "elems st' = doc_nodes d @ [n]" "live h' = live h"
    and blocks: "document_blocks (d\<lparr>d_nodes := st'\<rparr>) = document_blocks d + node_blocks n"
  have "doc_ok (d\<lparr>d_nodes := st'\<rparr>)"
    using assms(1,2) st' by (auto simp: doc_ok_def intro: data_ok_mono)
  from Q [OF st' this blocks] show "Q (int (length (doc_nodes d)) + 1) (d\<lparr>d_nodes := st'\<rparr>, h')" .
qed (use assms(1) E in \<open>auto simp: doc_ok_def\<close>)

lemma wp_add_scalar:
  assumes "doc_ok d" "v = Some s" "nat len \<le> length s" "length s < INT_MAX"
  defines "n \<equiv> if len < 0 then strlen s else nat len"
  shows "wp (yaml_document_add_scalar tag v len style)
      (\<lambda>i s'. added (d, h) (AScalar (c_str (tag_or tag YAML_DEFAULT_SCALAR_TAG)) (take n s)) i s')
      (\<lambda>(d', h'). d' = d \<and> live h' = live h) (d, h)"
  using assms unfolding yaml_document_add_scalar_def
  by (auto simp: wp_simps wp_on_heap NODE_INIT_def added_def abs_doc_def abs_node_def node_blocks_def
      intro!: wp_copy_string wp_copy_value wp_push_node)

lemma wp_add_sequence:
  assumes "doc_ok d"
  shows "wp (yaml_document_add_sequence tag style)
      (\<lambda>i s'. added (d, h) (ASequence (c_str (tag_or tag YAML_DEFAULT_SEQUENCE_TAG)) []) i s')
      (\<lambda>(d', h'). d' = d \<and> live h' = live h) (d, h)"
  using assms unfolding yaml_document_add_sequence_def
  by (auto simp: wp_simps wp_on_heap NODE_INIT_def added_def abs_doc_def abs_node_def node_blocks_def
      intro!: wp_copy_string wp_STACK_INIT wp_push_node)

lemma wp_add_mapping:
  assumes "doc_ok d"
  shows "wp (yaml_document_add_mapping tag style)
      (\<lambda>i s'. added (d, h) (AMapping (c_str (tag_or tag YAML_DEFAULT_MAPPING_TAG)) []) i s')
      (\<lambda>(d', h'). d' = d \<and> live h' = live h) (d, h)"
  using assms unfolding yaml_document_add_mapping_def
  by (auto simp: wp_simps wp_on_heap NODE_INIT_def added_def abs_doc_def abs_node_def node_blocks_def
      intro!: wp_copy_string wp_STACK_INIT wp_push_node)

text \<open>Replacing the contents of a node keeps the document well formed and the other nodes.\<close>

lemma set_node_data_frame:
  assumes "valid_id d i" "data_blocks nd = data_blocks (n_data (node_at d i))"
  shows "document_blocks (set_node_data i nd d) = document_blocks d"
    "abs_doc (set_node_data i nd d) = (abs_doc d)[nat (i - 1) := abs_data (n_tag (node_at d i)) nd]"
    "length (doc_nodes (set_node_data i nd d)) = length (doc_nodes d)"
proof -
  let ?k = "nat (i - 1)"
  have k: "?k < length (doc_nodes d)" using assms(1) by (auto simp: valid_id_def)
  have "map node_blocks ((doc_nodes d)[?k := (node_at d i)\<lparr>n_data := nd\<rparr>]) = map node_blocks (doc_nodes d)"
    using k assms(2) by (auto simp: map_update node_blocks_def node_at_def intro!: list_update_same_conv [THEN iffD2])
  then have "sum_list (map node_blocks ((doc_nodes d)[?k := (node_at d i)\<lparr>n_data := nd\<rparr>]))
      = sum_list (map node_blocks (doc_nodes d))" by simp
  then show "document_blocks (set_node_data i nd d) = document_blocks d"
    by (simp add: document_blocks_def set_node_data_def)
  show "abs_doc (set_node_data i nd d) = (abs_doc d)[?k := abs_data (n_tag (node_at d i)) nd]"
    by (simp add: abs_doc_def set_node_data_def map_update abs_node_def)
  show "length (doc_nodes (set_node_data i nd d)) = length (doc_nodes d)"
    by (simp add: set_node_data_def)
qed

lemma set_node_data_facts:
  assumes "doc_ok d" "valid_id d i" "data_ok (length (doc_nodes d)) nd" "data_blocks nd = data_blocks (n_data (node_at d i))"
  shows "doc_ok (set_node_data i nd d)" "document_blocks (set_node_data i nd d) = document_blocks d"
    "abs_doc (set_node_data i nd d) = (abs_doc d)[nat (i - 1) := abs_data (n_tag (node_at d i)) nd]"
    "length (doc_nodes (set_node_data i nd d)) = length (doc_nodes d)"
proof -
  show "doc_ok (set_node_data i nd d)"
    using assms(1,3) unfolding doc_ok_def set_node_data_def stack_ok_def
    by (auto dest!: set_update_subset_insert [THEN subsetD])
qed (rule set_node_data_frame [OF assms(2,4)])+

lemma data_ok_node_at: "doc_ok d \<Longrightarrow> valid_id d i \<Longrightarrow> data_ok (length (doc_nodes d)) (n_data (node_at d i))"
  by (auto simp: doc_ok_def valid_id_def node_at_def)

lemma wp_push_item:
  assumes d: "doc_ok d" "valid_id d sq" "valid_id d x" and data: "n_data (node_at d sq) = SequenceNode sis style"
  shows "wp (push_item sq x)
     (\<lambda>_ (d', h'). doc_ok d' \<and> abs_doc d' = (abs_doc d)[nat (sq - 1) := append_item x (abs_doc d ! nat (sq - 1))]
        \<and> length (doc_nodes d') = length (doc_nodes d) \<and> document_blocks d' = document_blocks d \<and> live h' = live h
        \<and> (\<exists>nodes. d' = d\<lparr>d_nodes := nodes\<rparr>))
     (\<lambda>(d', h'). d' = d \<and> live h' = live h) (d, h)"
proof -
  have ok: "data_ok (length (doc_nodes d)) (SequenceNode sis style)" using data_ok_node_at [OF d(1,2)] data by simp
  have at: "abs_doc d ! nat (sq - 1) = ASequence (n_tag (node_at d sq)) (elems sis)"
    using d(2) data by (auto simp: abs_doc_def abs_node_def valid_id_def node_at_def)
  have "wp (PUSH x) (\<lambda>_ (sis', h'). stack_ok sis' \<and> elems sis' = elems sis @ [x] \<and> live h' = live h)
     (\<lambda>(sis', h'). live h' = live h) (sis, h)"
    by (rule wp_PUSH) (use ok in auto)
  moreover have "data_ok (length (doc_nodes d)) (SequenceNode sis' style)
       \<and> data_blocks (SequenceNode sis' style) = data_blocks (n_data (node_at d sq))"
    if "stack_ok sis'" "elems sis' = elems sis @ [x]" for sis'
    using that ok d(3) data by (auto simp: valid_id_def stack_ok_def)
  note facts = set_node_data_facts [OF d(1,2) conjunct1 [OF this] conjunct2 [OF this]]
  ultimately show ?thesis
    using data at by (auto simp: wp_def push_item_def facts split: result.splits) (auto simp: set_node_data_def)
qed

lemma wp_push_pair:
  assumes d: "doc_ok d" "valid_id d mp" "valid_id d k" "valid_id d v"
    and data: "n_data (node_at d mp) = MappingNode pairs style"
  shows "wp (push_pair mp \<lparr>np_key = k, np_value = v\<rparr>)
     (\<lambda>_ (d', h'). doc_ok d' \<and> abs_doc d' = (abs_doc d)[nat (mp - 1) := append_pair k v (abs_doc d ! nat (mp - 1))]
        \<and> length (doc_nodes d') = length (doc_nodes d) \<and> document_blocks d' = document_blocks d \<and> live h' = live h
        \<and> (\<exists>nodes. d' = d\<lparr>d_nodes := nodes\<rparr>))
     (\<lambda>(d', h'). d' = d \<and> live h' = live h) (d, h)"
proof -
  let ?x = "\<lparr>np_key = k, np_value = v\<rparr>"
  have ok: "data_ok (length (doc_nodes d)) (MappingNode pairs style)" using data_ok_node_at [OF d(1,2)] data by simp
  have at: "abs_doc d ! nat (mp - 1) = AMapping (n_tag (node_at d mp)) (map (\<lambda>p. (np_key p, np_value p)) (elems pairs))"
    using d(2) data by (auto simp: abs_doc_def abs_node_def valid_id_def node_at_def)
  have "wp (PUSH ?x) (\<lambda>_ (ps, h'). stack_ok ps \<and> elems ps = elems pairs @ [?x] \<and> live h' = live h)
     (\<lambda>(ps, h'). live h' = live h) (pairs, h)"
    by (rule wp_PUSH) (use ok in auto)
  moreover have "data_ok (length (doc_nodes d)) (MappingNode ps style)
       \<and> data_blocks (MappingNode ps style) = data_blocks (n_data (node_at d mp))"
    if "stack_ok ps" "elems ps = elems pairs @ [?x]" for ps
    using that ok d(3,4) data by (auto simp: valid_id_def stack_ok_def)
  note facts = set_node_data_facts [OF d(1,2) conjunct1 [OF this] conjunct2 [OF this]]
  ultimately show ?thesis
    using data at by (auto simp: wp_def push_pair_def facts split: result.splits) (auto simp: set_node_data_def)
qed

lemma n_type_cases:
  "n_type n = YAML_SEQUENCE_NODE \<longleftrightarrow> (\<exists>sis style. n_data n = SequenceNode sis style)"
  "n_type n = YAML_MAPPING_NODE \<longleftrightarrow> (\<exists>pairs style. n_data n = MappingNode pairs style)"
  by (cases "n_data n"; simp add: n_type_def)+

lemma wp_append_sequence_item:
  assumes "doc_ok d" "valid_id d sq" "n_type (node_at d sq) = YAML_SEQUENCE_NODE" "valid_id d x"
  shows "wp (yaml_document_append_sequence_item sq x)
     (\<lambda>_ (d', h'). doc_ok d' \<and> abs_doc d' = (abs_doc d)[nat (sq - 1) := append_item x (abs_doc d ! nat (sq - 1))]
        \<and> length (doc_nodes d') = length (doc_nodes d) \<and> document_blocks d' = document_blocks d \<and> live h' = live h
        \<and> (\<exists>nodes. d' = d\<lparr>d_nodes := nodes\<rparr>))
     (\<lambda>(d', h'). d' = d \<and> live h' = live h) (d, h)"
  using assms wp_push_item [OF assms(1,2,4)]
  by (auto simp: yaml_document_append_sequence_item_def wp_simps n_type_cases)

lemma wp_append_mapping_pair:
  assumes "doc_ok d" "valid_id d mp" "n_type (node_at d mp) = YAML_MAPPING_NODE" "valid_id d k" "valid_id d v"
  shows "wp (yaml_document_append_mapping_pair mp k v)
     (\<lambda>_ (d', h'). doc_ok d' \<and> abs_doc d' = (abs_doc d)[nat (mp - 1) := append_pair k v (abs_doc d ! nat (mp - 1))]
        \<and> length (doc_nodes d') = length (doc_nodes d) \<and> document_blocks d' = document_blocks d \<and> live h' = live h
        \<and> (\<exists>nodes. d' = d\<lparr>d_nodes := nodes\<rparr>))
     (\<lambda>(d', h'). d' = d \<and> live h' = live h) (d, h)"
  using assms wp_push_pair [OF assms(1,2,4,5)]
  by (auto simp: yaml_document_append_mapping_pair_def wp_simps n_type_cases)

subsection \<open>Sequences of calls\<close>

text \<open>
  A client builds a document by any sequence of calls, and may go on after a call that failed.
  \<open>op_allowed\<close> is what the documentation asks of the arguments; the abstract effect of a call is
  \<open>abs_op\<close>, or nothing where the call failed.
\<close>

datatype doc_op =
  AddScalar "ystring option" ystring int yaml_scalar_style
| AddSequence "ystring option" yaml_sequence_style
| AddMapping "ystring option" yaml_mapping_style
| AppendItem int int
| AppendPair int int int

fun run_op :: "doc_op \<Rightarrow> (doc_state, unit) prog" where
  "run_op (AddScalar tag v len style) = seqM (yaml_document_add_scalar tag (Some v) len style) (returnM ())"
| "run_op (AddSequence tag style) = seqM (yaml_document_add_sequence tag style) (returnM ())"
| "run_op (AddMapping tag style) = seqM (yaml_document_add_mapping tag style) (returnM ())"
| "run_op (AppendItem sq x) = yaml_document_append_sequence_item sq x"
| "run_op (AppendPair mp k v) = yaml_document_append_mapping_pair mp k v"

fun op_allowed :: "doc_op \<Rightarrow> yaml_document \<Rightarrow> bool" where
  "op_allowed (AddScalar tag v len style) d = (nat len \<le> length v \<and> length v < INT_MAX)"
| "op_allowed (AddSequence tag style) d = True"
| "op_allowed (AddMapping tag style) d = True"
| "op_allowed (AppendItem sq x) d = (valid_id d sq \<and> n_type (node_at d sq) = YAML_SEQUENCE_NODE \<and> valid_id d x)"
| "op_allowed (AppendPair mp k v) d =
     (valid_id d mp \<and> n_type (node_at d mp) = YAML_MAPPING_NODE \<and> valid_id d k \<and> valid_id d v)"

fun abs_op :: "doc_op \<Rightarrow> anode list \<Rightarrow> anode list" where
  "abs_op (AddScalar tag v len style) ns =
     ns @ [AScalar (c_str (tag_or tag YAML_DEFAULT_SCALAR_TAG)) (take (if len < 0 then strlen v else nat len) v)]"
| "abs_op (AddSequence tag style) ns = ns @ [ASequence (c_str (tag_or tag YAML_DEFAULT_SEQUENCE_TAG)) []]"
| "abs_op (AddMapping tag style) ns = ns @ [AMapping (c_str (tag_or tag YAML_DEFAULT_MAPPING_TAG)) []]"
| "abs_op (AppendItem sq x) ns = ns[nat (sq - 1) := append_item x (ns ! nat (sq - 1))]"
| "abs_op (AppendPair mp k v) ns = ns[nat (mp - 1) := append_pair k v (ns ! nat (mp - 1))]"

lemma wp_run_op:
  assumes "doc_ok d" "op_allowed op d"
  shows "wp (run_op op)
     (\<lambda>_ (d', h'). doc_ok d' \<and> abs_doc d' = abs_op op (abs_doc d)
        \<and> live h' - document_blocks d' = live h - document_blocks d)
     (\<lambda>(d', h'). d' = d \<and> live h' = live h) (d, h)"
proof (cases op)
  case (AddScalar tag v len style)
  with assms show ?thesis
    by (auto simp: wp_simps added_def intro!: wp_mono [OF wp_add_scalar])
next
  case (AddSequence tag style)
  with assms show ?thesis by (auto simp: wp_simps added_def intro!: wp_mono [OF wp_add_sequence])
next
  case (AddMapping tag style)
  with assms show ?thesis by (auto simp: wp_simps added_def intro!: wp_mono [OF wp_add_mapping])
next
  case (AppendItem sq x)
  with assms show ?thesis by (auto intro!: wp_mono [OF wp_append_sequence_item])
next
  case (AppendPair mp k v)
  with assms show ?thesis by (auto intro!: wp_mono [OF wp_append_mapping_pair])
qed

text \<open>The calls of a client one after the other; the list of the calls that took effect is returned.\<close>

fun run_ops :: "doc_op list \<Rightarrow> doc_state \<Rightarrow> (doc_state, doc_op list) result" where
  "run_ops [] s = Return [] s"
| "run_ops (op # ops) s =
     (case run_op op s of
        Fault \<Rightarrow> Fault
      | Error s' \<Rightarrow> run_ops ops s'
      | Return _ s' \<Rightarrow> (case run_ops ops s' of Return eff s'' \<Rightarrow> Return (op # eff) s'' | r \<Rightarrow> r))"

fun ops_allowed :: "doc_op list \<Rightarrow> doc_state \<Rightarrow> bool" where
  "ops_allowed [] s = True"
| "ops_allowed (op # ops) s =
     (op_allowed op (fst s) \<and> (case run_op op s of Fault \<Rightarrow> True | Error s' \<Rightarrow> ops_allowed ops s'
        | Return _ s' \<Rightarrow> ops_allowed ops s'))"

lemma run_ops_ok:
  assumes "doc_ok d" "ops_allowed ops (d, h)"
  shows "\<exists>eff d' h'. run_ops ops (d, h) = Return eff (d', h') \<and> doc_ok d' \<and> abs_doc d' = fold abs_op eff (abs_doc d)
    \<and> live h' - document_blocks d' = live h - document_blocks d"
  using assms
proof (induction ops arbitrary: d h)
  case (Cons op ops)
  then have "op_allowed op d" by simp
  note step = wp_run_op [OF Cons.prems(1) this, of h]
  show ?case
  proof (cases "run_op op (d, h)")
    case (Return u s')
    then obtain d' h' where s': "run_op op (d, h) = Return () (d', h')" by (cases s') auto
    with step have d': "doc_ok d'" "abs_doc d' = abs_op op (abs_doc d)"
      "live h' - document_blocks d' = live h - document_blocks d" by (auto simp: wp_def)
    from Cons.IH [OF d'(1), of h'] Cons.prems(2) s' d' show ?thesis by fastforce
  next
    case (Error s')
    then obtain d' h' where s': "run_op op (d, h) = Error (d', h')" by (cases s') auto
    with step have d': "d' = d" "live h' = live h" by (auto simp: wp_def)
    from Cons.IH [OF Cons.prems(1), of h'] Cons.prems(2) s' d' show ?thesis by auto
  next
    case Fault
    with step show ?thesis by (simp add: wp_def)
  qed
qed simp

subsection \<open>Properties of documents\<close>

lemma get_node_abs:
  "map_option abs_node (yaml_document_get_node d i)
     = (if valid_id d i then Some (abs_doc d ! nat (i - 1)) else None)"
  by (auto simp: yaml_document_get_node_def valid_id_def abs_doc_def)

lemma length_abs_doc: "length (abs_doc d) = length (doc_nodes d)"
  by (simp add: abs_doc_def)

definition sample_document :: yaml_document where
  "sample_document = null_document\<lparr>d_nodes := \<lparr>elems = [], cap = 16, esz = sizeof_node\<rparr>\<rparr>"

lemma sample_document_ok: "doc_ok sample_document" "document_blocks sample_document = 1"
  "abs_doc sample_document = []"
  by (simp_all add: sample_document_def null_document_def doc_ok_def stack_ok_def document_blocks_def
      tag_directives_blocks_def abs_doc_def)

text \<open>C9: A client that builds a document by any sequence of calls with arguments as documented, going
  on after calls that fail, never trips an assertion or an invalid access; the document stays well
  formed (every item of a sequence and every key and value of a mapping is a node of it); it is
  the abstract document that the successful calls describe; and deleting it frees exactly the
  blocks that were allocated for it.\<close>

theorem document_calls_refine:
  assumes "doc_ok d" "ops_allowed ops (d, h)"
  shows "\<exists>eff d' h'. run_ops ops (d, h) = Return eff (d', h') \<and> doc_ok d'
    \<and> abs_doc d' = fold abs_op eff (abs_doc d)
    \<and> live (yaml_document_delete d' h') = live (yaml_document_delete d h)"
  using run_ops_ok [OF assms] by (auto simp: live_yaml_document_delete)

lemma sample_ops_allowed:
  "ops_allowed [AddSequence (Some [0x78]) YAML_ANY_SEQUENCE_STYLE, AppendItem 1 1]
     (sample_document, \<lparr>outcomes = [], live = 1\<rparr>)"
  by (simp add: sample_document_def null_document_def yaml_document_add_sequence_def prog_defs on_heap_def
      copy_string_plenty valid_string_def tag_or_def c_str_def yaml_check_utf8.simps utf8_width_def
      utf8_length_ok_def STACK_INIT_def yaml_malloc_def malloc_def push_node_def PUSH_def store_top_def
      utf8_trailing.simps INITIAL_STACK_SIZE_def sizeof_defs valid_id_def node_at_def NODE_INIT_def n_type_def
      yaml_document_append_sequence_item_def push_item_def)

theorem document_calls_refine_witness:
  "\<exists>eff d' h'. run_ops [AddSequence (Some [0x78]) YAML_ANY_SEQUENCE_STYLE, AppendItem 1 1]
      (sample_document, \<lparr>outcomes = [], live = 1\<rparr>) = Return eff (d', h')
    \<and> doc_ok d' \<and> abs_doc d' = fold abs_op eff [] \<and> live (yaml_document_delete d' h') = 0"
  using document_calls_refine [OF sample_document_ok(1) sample_ops_allowed]
  by (simp add: sample_document_ok live_yaml_document_delete)

text \<open>
  \<open>node_added d tag data i d'\<close>: of all indices only \<open>i\<close> leads to another node in \<open>d'\<close> than in \<open>d\<close>, a new one with
  this tag, no marks and such data.
\<close>

definition node_added :: "yaml_document \<Rightarrow> ystring \<Rightarrow> (yaml_node_data \<Rightarrow> bool) \<Rightarrow> int \<Rightarrow> yaml_document \<Rightarrow> bool" where
  "node_added d tag data i d' \<longleftrightarrow> i = int (length (doc_nodes d)) + 1
     \<and> (\<exists>n. n_tag n = tag \<and> data (n_data n) \<and> n_start_mark n = null_mark \<and> n_end_mark n = null_mark
          \<and> (\<forall>j. yaml_document_get_node d' j = (if j = i then Some n else yaml_document_get_node d j)))
     \<and> yaml_document_get_root_node d' = yaml_document_get_node d' 1"

lemma node_added_push:
  assumes "elems st' = doc_nodes d @ [n]" "n_tag n = tag" "data (n_data n)" "n_start_mark n = null_mark" "n_end_mark n = null_mark"
  shows "node_added d tag data (int (length (doc_nodes d)) + 1) (d\<lparr>d_nodes := st'\<rparr>)"
proof -
  have "yaml_document_get_node (d\<lparr>d_nodes := st'\<rparr>) j
      = (if j = int (length (doc_nodes d)) + 1 then Some n else yaml_document_get_node d j)" for j
    using assms(1) by (auto simp: yaml_document_get_node_def nth_append)
  with assms show ?thesis
    by (auto simp: node_added_def yaml_document_get_root_node_def yaml_document_get_node_def intro!: exI [of _ n])
qed

text \<open>C27: Each of the three functions that add a node returns the index one behind the last: under it \<open>yaml_document_get_node\<close>
  finds the new node, with the given tag or the default one of its kind, the first \<open>length\<close> octets of the value or no
  children, the style and no marks; every other index, valid or not, leads to where it led before, and the root is the node 1.\<close>

theorem get_node_after_add:
  assumes "doc_ok d"
  shows "(nat len \<le> length s \<and> length s < INT_MAX \<and> yaml_document_add_scalar tag (Some s) len style (d, h) = Return i (d', h') \<longrightarrow>
       node_added d (c_str (tag_or tag YAML_DEFAULT_SCALAR_TAG))
         (\<lambda>nd. nd = ScalarNode (take (if len < 0 then strlen s else nat len) s) style) i d')
    \<and> (yaml_document_add_sequence tag sequence_style (d, h) = Return i (d', h') \<longrightarrow>
       node_added d (c_str (tag_or tag YAML_DEFAULT_SEQUENCE_TAG))
         (\<lambda>nd. \<exists>sis. nd = SequenceNode sis sequence_style \<and> elems sis = []) i d')
    \<and> (yaml_document_add_mapping tag mapping_style (d, h) = Return i (d', h') \<longrightarrow>
       node_added d (c_str (tag_or tag YAML_DEFAULT_MAPPING_TAG))
         (\<lambda>nd. \<exists>pairs. nd = MappingNode pairs mapping_style \<and> elems pairs = []) i d')"
proof -
  have ok: "stack_ok (d_nodes d)" using assms by (simp add: doc_ok_def)
  have scalar: "wp (yaml_document_add_scalar tag (Some s) len style) (\<lambda>i s'. node_added d (c_str (tag_or tag YAML_DEFAULT_SCALAR_TAG))
      (\<lambda>nd. nd = ScalarNode (take (if len < 0 then strlen s else nat len) s) style) i (fst s')) (\<lambda>_. True) (d, h)"
    if "nat len \<le> length s" "length s < INT_MAX"
    using ok that unfolding yaml_document_add_scalar_def
    by (auto simp: wp_simps wp_on_heap NODE_INIT_def intro!: wp_copy_string wp_copy_value wp_push_node_any node_added_push)
  have sequence: "wp (yaml_document_add_sequence tag sequence_style) (\<lambda>i s'. node_added d (c_str (tag_or tag YAML_DEFAULT_SEQUENCE_TAG))
      (\<lambda>nd. \<exists>sis. nd = SequenceNode sis sequence_style \<and> elems sis = []) i (fst s')) (\<lambda>_. True) (d, h)"
    using ok unfolding yaml_document_add_sequence_def
    by (auto simp: wp_simps wp_on_heap NODE_INIT_def intro!: wp_copy_string wp_STACK_INIT wp_push_node_any node_added_push)
  have mapping: "wp (yaml_document_add_mapping tag mapping_style) (\<lambda>i s'. node_added d (c_str (tag_or tag YAML_DEFAULT_MAPPING_TAG))
      (\<lambda>nd. \<exists>pairs. nd = MappingNode pairs mapping_style \<and> elems pairs = []) i (fst s')) (\<lambda>_. True) (d, h)"
    using ok unfolding yaml_document_add_mapping_def
    by (auto simp: wp_simps wp_on_heap NODE_INIT_def intro!: wp_copy_string wp_STACK_INIT wp_push_node_any node_added_push)
  show ?thesis using wp_Return [OF scalar] wp_Return [OF sequence] wp_Return [OF mapping] by (intro conjI impI) (blast | force)+
qed

lemma sample_add_scalar:
  "yaml_document_add_scalar (Some [0x78]) (Some [0x79]) 1 YAML_PLAIN_SCALAR_STYLE
     (sample_document, \<lparr>outcomes = [], live = 1\<rparr>) =
   Return 1 (sample_document\<lparr>d_nodes := \<lparr>elems = [NODE_INIT [0x78] (ScalarNode [0x79] YAML_PLAIN_SCALAR_STYLE)
       null_mark null_mark], cap = 16, esz = sizeof_node\<rparr>\<rparr>, \<lparr>outcomes = [], live = 3\<rparr>)"
  by (simp add: sample_document_def null_document_def yaml_document_add_scalar_def prog_defs on_heap_def
      copy_string_plenty valid_string_def tag_or_def c_str_def yaml_check_utf8.simps utf8_width_def
      utf8_length_ok_def push_node_def PUSH_def store_top_def utf8_trailing.simps copy_value_plenty INT_MAX_def
      Let_def)

theorem get_node_after_add_witness:
  "\<exists>d' h'. yaml_document_add_scalar (Some [0x78]) (Some [0x79]) 1 YAML_PLAIN_SCALAR_STYLE
      (sample_document, \<lparr>outcomes = [], live = 1\<rparr>) = Return 1 (d', h')
    \<and> (\<exists>n. yaml_document_get_node d' 1 = Some n \<and> n_tag n = [0x78] \<and> n_data n = ScalarNode [0x79] YAML_PLAIN_SCALAR_STYLE)
    \<and> yaml_document_get_node d' 2 = None"
proof -
  let ?d' = "sample_document\<lparr>d_nodes := \<lparr>elems = [NODE_INIT [0x78] (ScalarNode [0x79] YAML_PLAIN_SCALAR_STYLE)
       null_mark null_mark], cap = 16, esz = sizeof_node\<rparr>\<rparr>"
  have "node_added sample_document [0x78] (\<lambda>nd. nd = ScalarNode [0x79] YAML_PLAIN_SCALAR_STYLE) 1 ?d'"
    using get_node_after_add [OF sample_document_ok(1), THEN conjunct1, THEN mp, OF conjI [OF _ conjI [OF _ sample_add_scalar]]]
    by (simp add: INT_MAX_def tag_or_def c_str_def)
  moreover have "yaml_document_get_node sample_document 2 = None" by (simp add: sample_document_def yaml_document_get_node_def)
  ultimately show ?thesis unfolding node_added_def using sample_add_scalar by (intro exI) auto
qed

text \<open>C33: \<open>yaml_document_initialize\<close> followed by \<open>yaml_document_delete\<close> leaves no block behind, and neither
  does a failure at any allocation; the new document is well formed and empty.\<close>

theorem document_initialize_contract:
  "wp (yaml_document_initialize vd tds start_implicit end_implicit)
     (\<lambda>d h'. doc_ok d \<and> abs_doc d = [] \<and> d_version_directive d = vd
        \<and> d_tag_directives d = map tag_directive_copy tds \<and> live (yaml_document_delete d h') = live h)
     (\<lambda>h'. live h' = live h) h"
  by (rule wp_mono [OF wp_document_initialize]) (auto simp: live_yaml_document_delete)

end
