(* ===== verification/Objects.thy ===== *)
theory Objects
  imports Writer Events
begin

text \<open>
  The parser and emitter objects (\<open>api.c\<close>): creation, destruction, and the functions that set their
  input, output and options.
\<close>

subsection \<open>Memory operations of an object\<close>

text \<open>
  The macros of \<open>yaml_private.h\<close> set \<open>error\<close> of their context to \<open>YAML_MEMORY_ERROR\<close> where they fail.
\<close>

definition memP :: "(heap, 'a) prog \<Rightarrow> (('h, 'z) yaml_reader_scheme, 'a) prog" where
  "memP m = cleanupM (zoomM p_mem (\<lambda>h p. p\<lparr>p_mem := h\<rparr>) m) (\<lambda>p. p\<lparr>p_error := YAML_MEMORY_ERROR\<rparr>)"

definition memE :: "(heap, 'a) prog \<Rightarrow> (('w, 'z) yaml_writer_scheme, 'a) prog" where
  "memE m = cleanupM (zoomM e_mem (\<lambda>h e. e\<lparr>e_mem := h\<rparr>) m) (\<lambda>e. e\<lparr>e_error := YAML_MEMORY_ERROR\<rparr>)"

definition freeP :: "(heap \<Rightarrow> heap) \<Rightarrow> ('h, 'z) yaml_reader_scheme \<Rightarrow> ('h, 'z) yaml_reader_scheme" where
  "freeP f p = p\<lparr>p_mem := f (p_mem p)\<rparr>"

definition freeE :: "(heap \<Rightarrow> heap) \<Rightarrow> ('w, 'z) yaml_writer_scheme \<Rightarrow> ('w, 'z) yaml_writer_scheme" where
  "freeE f e = e\<lparr>e_mem := f (e_mem e)\<rparr>"

definition BUFFER_INIT :: "nat \<Rightarrow> (heap, ybuffer) prog" where
  "BUFFER_INIT n = bindM (yaml_malloc n) (\<lambda>ok.
     if ok then returnM \<lparr>b_data = [], b_pos = 0, b_cap = n\<rparr> else errorM id)"

definition BUFFER_DEL :: "ybuffer \<Rightarrow> heap \<Rightarrow> heap" where
  "BUFFER_DEL b = yaml_free (b_cap b \<noteq> 0)"

definition INITIAL_QUEUE_SIZE :: nat where
  "INITIAL_QUEUE_SIZE = 16"

definition null_queue :: "nat \<Rightarrow> 'a yqueue" where
  "null_queue sz = \<lparr>front = 0, items = [], qcap = 0, qesz = sz\<rparr>"

subsection \<open>The parser object\<close>

text \<open>
  \<open>memset(parser, 0, sizeof(yaml_parser_t))\<close>.  The handler's data, which is not read while there is
  no handler, is kept.
\<close>

definition zero_parser :: "'h yaml_parser \<Rightarrow> 'h yaml_parser" where
  "zero_parser p = \<lparr>p_mem = p_mem p, p_error = YAML_NO_ERROR, p_problem = [], p_problem_offset = 0,
     p_problem_value = 0, p_problem_mark = null_mark, p_context = [], p_context_mark = null_mark,
     p_read_handler = None, p_read_handler_data = p_read_handler_data p, p_eof = False,
     p_buffer = null_buffer, p_unread = 0, p_raw_buffer = null_buffer, p_encoding = YAML_ANY_ENCODING,
     p_offset = 0, p_mark = null_mark, p_stream_start_produced = False, p_stream_end_produced = False,
     p_flow_level = 0, p_tokens = null_queue sizeof_token, p_tokens_parsed = 0, p_token_available = False,
     p_indents = null_stack sizeof_int, p_indent = 0, p_simple_key_allowed = False,
     p_simple_keys = null_stack sizeof_simple_key, p_states = null_stack sizeof_int,
     p_state = YAML_PARSE_STREAM_START_STATE, p_marks = null_stack sizeof_mark,
     p_tag_directives = null_stack sizeof_tag_directive\<rparr>"

text \<open>The code at the \<open>error\<close> label, which is also the first half of \<open>yaml_parser_delete\<close>.\<close>

definition parser_free_containers :: "'h yaml_parser \<Rightarrow> 'h yaml_parser" where
  "parser_free_containers p =
     (freeP (STACK_DEL (p_tag_directives p)) (freeP (STACK_DEL (p_marks p)) (freeP (STACK_DEL (p_states p))
       (freeP (STACK_DEL (p_simple_keys p)) (freeP (STACK_DEL (p_indents p)) (freeP (QUEUE_DEL (p_tokens p))
         (freeP (BUFFER_DEL (p_buffer p)) (freeP (BUFFER_DEL (p_raw_buffer p)) p))))))))
     \<lparr>p_raw_buffer := null_buffer, p_buffer := null_buffer, p_tokens := null_queue sizeof_token,
      p_indents := null_stack sizeof_int, p_simple_keys := null_stack sizeof_simple_key,
      p_states := null_stack sizeof_int, p_marks := null_stack sizeof_mark,
      p_tag_directives := null_stack sizeof_tag_directive\<rparr>"

definition yaml_parser_initialize :: "('h yaml_parser, unit) prog" where
  "yaml_parser_initialize =
     seqM (modifyM zero_parser)
       (cleanupM
         (bindM (memP (BUFFER_INIT INPUT_RAW_BUFFER_SIZE)) (\<lambda>b. seqM (modifyM (\<lambda>p. p\<lparr>p_raw_buffer := b\<rparr>))
         (bindM (memP (BUFFER_INIT INPUT_BUFFER_SIZE)) (\<lambda>b. seqM (modifyM (\<lambda>p. p\<lparr>p_buffer := b\<rparr>))
         (bindM (memP (QUEUE_INIT INITIAL_QUEUE_SIZE sizeof_token)) (\<lambda>q. seqM (modifyM (\<lambda>p. p\<lparr>p_tokens := q\<rparr>))
         (bindM (memP (STACK_INIT sizeof_int)) (\<lambda>st. seqM (modifyM (\<lambda>p. p\<lparr>p_indents := st\<rparr>))
         (bindM (memP (STACK_INIT sizeof_simple_key)) (\<lambda>st. seqM (modifyM (\<lambda>p. p\<lparr>p_simple_keys := st\<rparr>))
         (bindM (memP (STACK_INIT sizeof_int)) (\<lambda>st. seqM (modifyM (\<lambda>p. p\<lparr>p_states := st\<rparr>))
         (bindM (memP (STACK_INIT sizeof_mark)) (\<lambda>st. seqM (modifyM (\<lambda>p. p\<lparr>p_marks := st\<rparr>))
         (bindM (memP (STACK_INIT sizeof_tag_directive)) (\<lambda>st. modifyM (\<lambda>p. p\<lparr>p_tag_directives := st\<rparr>)))))))))))))))))
         parser_free_containers)"

definition yaml_parser_delete :: "'h yaml_parser \<Rightarrow> 'h yaml_parser" where
  "yaml_parser_delete p =
     zero_parser (parser_free_containers
       (freeP (free_tag_directives (rev (elems (p_tag_directives p))))
         (freeP (fold yaml_token_delete (items (p_tokens p))) p)))"

definition yaml_parser_set_input :: "'h read_handler \<Rightarrow> 'h \<Rightarrow> (('h, 'z) yaml_reader_scheme, unit) prog" where
  "yaml_parser_set_input handler d =
     seqM (assertM (\<lambda>p. p_read_handler p = None))
       (modifyM (\<lambda>p. p\<lparr>p_read_handler := Some handler, p_read_handler_data := d\<rparr>))"

definition yaml_parser_set_input_string :: "ystring \<Rightarrow> ((string_input, 'z) yaml_reader_scheme, unit) prog" where
  "yaml_parser_set_input_string input =
     seqM (assertM (\<lambda>p. p_read_handler p = None))
       (modifyM (\<lambda>p. p\<lparr>p_read_handler := Some yaml_string_read_handler,
          p_read_handler_data := \<lparr>si_string = input, si_current = 0\<rparr>\<rparr>))"

definition yaml_parser_set_input_file :: "c_file \<Rightarrow> ((c_file, 'z) yaml_reader_scheme, unit) prog" where
  "yaml_parser_set_input_file f =
     seqM (assertM (\<lambda>p. p_read_handler p = None))
       (modifyM (\<lambda>p. p\<lparr>p_read_handler := Some yaml_file_read_handler, p_read_handler_data := f\<rparr>))"

definition yaml_parser_set_encoding :: "yaml_encoding \<Rightarrow> (('h, 'z) yaml_reader_scheme, unit) prog" where
  "yaml_parser_set_encoding enc =
     seqM (assertM (\<lambda>p. p_encoding p = YAML_ANY_ENCODING)) (modifyM (\<lambda>p. p\<lparr>p_encoding := enc\<rparr>))"

subsection \<open>The emitter object\<close>

definition zero_emitter :: "'w yaml_dumper \<Rightarrow> 'w yaml_dumper" where
  "zero_emitter e = \<lparr>e_mem = e_mem e, e_error = YAML_NO_ERROR, e_problem = [], e_write_handler = None,
     e_write_handler_data = e_write_handler_data e, e_buffer = null_buffer, e_raw_buffer = null_buffer,
     e_encoding = YAML_ANY_ENCODING, e_canonical = False, e_best_indent = 0, e_best_width = 0,
     e_unicode = False, e_line_break = YAML_ANY_BREAK, e_states = null_stack sizeof_int,
     e_state = YAML_EMIT_STREAM_START_STATE, e_events = null_queue sizeof_event,
     e_indents = null_stack sizeof_int, e_tag_directives = null_stack sizeof_tag_directive,
     e_indent = 0, e_flow_level = 0, e_root_context = False, e_sequence_context = False, e_mapping_context = False,
     e_simple_key_context = False, e_line = 0, e_column = 0, e_whitespace = False, e_indention = False,
     e_open_ended = 0, e_anchor = None, e_alias = False, e_tag_handle = None, e_tag_suffix = None,
     e_scalar = None, e_multiline = False, e_flow_plain_allowed = False, e_block_plain_allowed = False,
     e_single_quoted_allowed = False, e_block_allowed = False, e_style = YAML_ANY_SCALAR_STYLE,
     e_opened = False, e_closed = False, e_anchors = None, e_last_anchor_id = 0, e_document = None\<rparr>"

definition emitter_free_containers :: "'w yaml_dumper \<Rightarrow> 'w yaml_dumper" where
  "emitter_free_containers e =
     (freeE (STACK_DEL (e_tag_directives e)) (freeE (STACK_DEL (e_indents e)) (freeE (QUEUE_DEL (e_events e))
       (freeE (STACK_DEL (e_states e)) (freeE (BUFFER_DEL (e_raw_buffer e)) (freeE (BUFFER_DEL (e_buffer e)) e))))))
     \<lparr>e_buffer := null_buffer, e_raw_buffer := null_buffer, e_states := null_stack sizeof_int,
      e_events := null_queue sizeof_event, e_indents := null_stack sizeof_int,
      e_tag_directives := null_stack sizeof_tag_directive\<rparr>"

definition yaml_emitter_initialize :: "('w yaml_dumper, unit) prog" where
  "yaml_emitter_initialize =
     seqM (modifyM zero_emitter)
       (cleanupM
         (bindM (memE (BUFFER_INIT OUTPUT_BUFFER_SIZE)) (\<lambda>b. seqM (modifyM (\<lambda>e. e\<lparr>e_buffer := b\<rparr>))
         (bindM (memE (BUFFER_INIT OUTPUT_RAW_BUFFER_SIZE)) (\<lambda>b. seqM (modifyM (\<lambda>e. e\<lparr>e_raw_buffer := b\<rparr>))
         (bindM (memE (STACK_INIT sizeof_int)) (\<lambda>st. seqM (modifyM (\<lambda>e. e\<lparr>e_states := st\<rparr>))
         (bindM (memE (QUEUE_INIT INITIAL_QUEUE_SIZE sizeof_event)) (\<lambda>q. seqM (modifyM (\<lambda>e. e\<lparr>e_events := q\<rparr>))
         (bindM (memE (STACK_INIT sizeof_int)) (\<lambda>st. seqM (modifyM (\<lambda>e. e\<lparr>e_indents := st\<rparr>))
         (bindM (memE (STACK_INIT sizeof_tag_directive)) (\<lambda>st. modifyM (\<lambda>e. e\<lparr>e_tag_directives := st\<rparr>)))))))))))))
         emitter_free_containers)"

definition yaml_emitter_delete :: "'w yaml_dumper \<Rightarrow> 'w yaml_dumper" where
  "yaml_emitter_delete e =
     zero_emitter (freeE (yaml_free (e_anchors e \<noteq> None))
       (emitter_free_containers
         (freeE (free_tag_directives (rev (elems (e_tag_directives e))))
           (freeE (fold yaml_event_delete (items (e_events e))) e))))"

definition yaml_emitter_set_output :: "'w write_handler \<Rightarrow> 'w \<Rightarrow> (('w, 'z) yaml_writer_scheme, unit) prog" where
  "yaml_emitter_set_output handler d =
     seqM (assertM (\<lambda>e. e_write_handler e = None))
       (modifyM (\<lambda>e. e\<lparr>e_write_handler := Some handler, e_write_handler_data := d\<rparr>))"

definition yaml_emitter_set_output_string :: "nat \<Rightarrow> ((string_output, 'z) yaml_writer_scheme, unit) prog" where
  "yaml_emitter_set_output_string room =
     seqM (assertM (\<lambda>e. e_write_handler e = None))
       (modifyM (\<lambda>e. e\<lparr>e_write_handler := Some yaml_string_write_handler,
          e_write_handler_data := \<lparr>so_size = room, so_bytes = []\<rparr>\<rparr>))"

definition yaml_emitter_set_output_file :: "c_ofile \<Rightarrow> ((c_ofile, 'z) yaml_writer_scheme, unit) prog" where
  "yaml_emitter_set_output_file f =
     seqM (assertM (\<lambda>e. e_write_handler e = None))
       (modifyM (\<lambda>e. e\<lparr>e_write_handler := Some yaml_file_write_handler, e_write_handler_data := f\<rparr>))"

definition yaml_emitter_set_encoding :: "yaml_encoding \<Rightarrow> (('w, 'z) yaml_writer_scheme, unit) prog" where
  "yaml_emitter_set_encoding enc =
     seqM (assertM (\<lambda>e. e_encoding e = YAML_ANY_ENCODING)) (modifyM (\<lambda>e. e\<lparr>e_encoding := enc\<rparr>))"

definition yaml_emitter_set_canonical :: "int \<Rightarrow> 'w yaml_dumper \<Rightarrow> 'w yaml_dumper" where
  "yaml_emitter_set_canonical canonical e = e\<lparr>e_canonical := (canonical \<noteq> 0)\<rparr>"

definition yaml_emitter_set_indent :: "int \<Rightarrow> 'w yaml_dumper \<Rightarrow> 'w yaml_dumper" where
  "yaml_emitter_set_indent indent e = e\<lparr>e_best_indent := (if 1 < indent \<and> indent < 10 then indent else 2)\<rparr>"

definition yaml_emitter_set_width :: "int \<Rightarrow> 'w yaml_dumper \<Rightarrow> 'w yaml_dumper" where
  "yaml_emitter_set_width width e = e\<lparr>e_best_width := (if width \<ge> 0 then width else -1)\<rparr>"

definition yaml_emitter_set_unicode :: "int \<Rightarrow> 'w yaml_dumper \<Rightarrow> 'w yaml_dumper" where
  "yaml_emitter_set_unicode u e = e\<lparr>e_unicode := (u \<noteq> 0)\<rparr>"

definition yaml_emitter_set_break :: "yaml_break \<Rightarrow> 'w yaml_dumper \<Rightarrow> 'w yaml_dumper" where
  "yaml_emitter_set_break line_break e = e\<lparr>e_line_break := line_break\<rparr>"

subsection \<open>Blocks owned by the objects\<close>

abbreviation block_if :: "nat \<Rightarrow> int" where
  "block_if n \<equiv> (if n = 0 then 0 else 1)"

definition parser_blocks :: "'h yaml_parser \<Rightarrow> int" where
  "parser_blocks p = block_if (b_cap (p_raw_buffer p)) + block_if (b_cap (p_buffer p))
     + block_if (qcap (p_tokens p)) + sum_list (map token_blocks (items (p_tokens p)))
     + block_if (cap (p_indents p)) + block_if (cap (p_simple_keys p)) + block_if (cap (p_states p))
     + block_if (cap (p_marks p)) + block_if (cap (p_tag_directives p))
     + 2 * int (length (elems (p_tag_directives p)))"

definition emitter_blocks :: "'w yaml_dumper \<Rightarrow> int" where
  "emitter_blocks e = block_if (b_cap (e_buffer e)) + block_if (b_cap (e_raw_buffer e))
     + block_if (qcap (e_events e)) + sum_list (map event_blocks (items (e_events e)))
     + block_if (cap (e_states e)) + block_if (cap (e_indents e)) + block_if (cap (e_tag_directives e))
     + 2 * int (length (elems (e_tag_directives e))) + (if e_anchors e = None then 0 else 1)"

lemma wp_memP [wp_simps]:
  "wp (memP m) Q E p = wp m (\<lambda>a h. Q a (p\<lparr>p_mem := h\<rparr>)) (\<lambda>h. E (p\<lparr>p_mem := h, p_error := YAML_MEMORY_ERROR\<rparr>)) (p_mem p)"
  by (simp add: memP_def wp_simps)

lemma wp_memE [wp_simps]:
  "wp (memE m) Q E e = wp m (\<lambda>a h. Q a (e\<lparr>e_mem := h\<rparr>)) (\<lambda>h. E (e\<lparr>e_mem := h, e_error := YAML_MEMORY_ERROR\<rparr>)) (e_mem e)"
  by (simp add: memE_def wp_simps)

lemma wp_BUFFER_INIT:
  assumes "0 < n"
    and "\<And>h'. live h' = live h + 1 \<Longrightarrow> Q \<lparr>b_data = [], b_pos = 0, b_cap = n\<rparr> h'"
    and "\<And>h'. live h' = live h \<Longrightarrow> E h'"
  shows "wp (BUFFER_INIT n) Q E h"
  unfolding BUFFER_INIT_def wp_bindM by (rule wp_yaml_malloc) (use assms in \<open>auto simp: wp_simps\<close>)

lemma wp_QUEUE_INIT:
  assumes "0 < n"
    and "\<And>h'. live h' = live h + 1 \<Longrightarrow> Q \<lparr>front = 0, items = [], qcap = n, qesz = sz\<rparr> h'"
    and "\<And>h'. live h' = live h \<Longrightarrow> E h'"
  shows "wp (QUEUE_INIT n sz) Q E h"
  unfolding QUEUE_INIT_def wp_bindM by (rule wp_yaml_malloc) (use assms in \<open>auto simp: wp_simps\<close>)

lemma live_BUFFER_DEL [simp]: "live (BUFFER_DEL b h) = live h - block_if (b_cap b)"
  by (simp add: BUFFER_DEL_def)

lemma live_QUEUE_DEL [simp]: "live (QUEUE_DEL q h) = live h - block_if (qcap q)"
  by (simp add: QUEUE_DEL_def)

lemma live_delete_tokens: "live (fold yaml_token_delete ts h) = live h - sum_list (map token_blocks ts)"
  by (induction ts arbitrary: h) simp_all

lemma live_delete_events: "live (fold yaml_event_delete es h) = live h - sum_list (map event_blocks es)"
  by (induction es arbitrary: h) simp_all

subsection \<open>Properties of the objects\<close>

text \<open>A parser as \<open>yaml_parser_initialize\<close> leaves it.\<close>

definition parser_start :: "'h yaml_parser \<Rightarrow> bool" where
  "parser_start p \<longleftrightarrow> p_error p = YAML_NO_ERROR \<and> p_read_handler p = None \<and> p_encoding p = YAML_ANY_ENCODING
     \<and> \<not> p_eof p \<and> p_unread p = 0 \<and> p_offset p = 0 \<and> p_flow_level p = 0
     \<and> p_raw_buffer p = \<lparr>b_data = [], b_pos = 0, b_cap = INPUT_RAW_BUFFER_SIZE\<rparr>
     \<and> p_buffer p = \<lparr>b_data = [], b_pos = 0, b_cap = INPUT_BUFFER_SIZE\<rparr>
     \<and> p_state p = YAML_PARSE_STREAM_START_STATE \<and> \<not> p_stream_start_produced p \<and> \<not> p_stream_end_produced p
     \<and> \<not> p_token_available p \<and> queue_ok (p_tokens p) \<and> items (p_tokens p) = []
     \<and> stack_ok (p_indents p) \<and> elems (p_indents p) = [] \<and> stack_ok (p_simple_keys p) \<and> elems (p_simple_keys p) = []
     \<and> stack_ok (p_states p) \<and> elems (p_states p) = [] \<and> stack_ok (p_marks p) \<and> elems (p_marks p) = []
     \<and> stack_ok (p_tag_directives p) \<and> elems (p_tag_directives p) = []"

lemma live_yaml_parser_delete: "live (p_mem (yaml_parser_delete p)) = live (p_mem p) - parser_blocks p"
  by (simp add: yaml_parser_delete_def zero_parser_def parser_free_containers_def freeP_def parser_blocks_def
      live_delete_tokens)

lemma live_yaml_emitter_delete: "live (e_mem (yaml_emitter_delete e)) = live (e_mem e) - emitter_blocks e"
  by (simp add: yaml_emitter_delete_def zero_emitter_def emitter_free_containers_def freeE_def emitter_blocks_def
      live_delete_events)

lemmas object_simps = null_buffer_def null_stack_def null_queue_def queue_ok_def tail_pos_def INPUT_RAW_BUFFER_SIZE_def INPUT_BUFFER_SIZE_def OUTPUT_BUFFER_SIZE_def
  OUTPUT_RAW_BUFFER_SIZE_def INITIAL_QUEUE_SIZE_def

text \<open>C31: \<open>yaml_parser_initialize\<close> yields a parser in its start state whose blocks
  \<open>yaml_parser_delete\<close> frees; whichever of its eight allocations fails, it reports a memory error
  and frees the ones made before.\<close>

theorem parser_initialize_contract:
  "wp yaml_parser_initialize
     (\<lambda>_ p'. parser_start p' \<and> live (p_mem (yaml_parser_delete p')) = live (p_mem p))
     (\<lambda>p'. p_error p' = YAML_MEMORY_ERROR \<and> live (p_mem p') = live (p_mem p)) p"
  unfolding yaml_parser_initialize_def live_yaml_parser_delete
  by (auto simp: wp_simps object_simps parser_start_def parser_blocks_def parser_free_containers_def freeP_def
      zero_parser_def intro!: wp_BUFFER_INIT wp_QUEUE_INIT wp_STACK_INIT)

text \<open>C32: \<open>yaml_emitter_initialize\<close> yields an emitter whose blocks \<open>yaml_emitter_delete\<close> frees; whichever
  of its six allocations fails, it reports a memory error and frees the ones made before.\<close>

theorem emitter_initialize_contract:
  "wp yaml_emitter_initialize
     (\<lambda>_ e'. e_error e' = YAML_NO_ERROR \<and> e_state e' = YAML_EMIT_STREAM_START_STATE \<and> e_write_handler e' = None
        \<and> \<not> e_opened e' \<and> \<not> e_closed e'
        \<and> live (e_mem (yaml_emitter_delete e')) = live (e_mem e))
     (\<lambda>e'. e_error e' = YAML_MEMORY_ERROR \<and> live (e_mem e') = live (e_mem e)) e"
  unfolding yaml_emitter_initialize_def live_yaml_emitter_delete
  by (auto simp: wp_simps object_simps emitter_blocks_def emitter_free_containers_def freeE_def
      zero_emitter_def intro!: wp_BUFFER_INIT wp_QUEUE_INIT wp_STACK_INIT)

text \<open>After its creation and the setting of the output, the emitter is in the state the writer expects.\<close>

lemma emitter_output_string:
  assumes "yaml_emitter_initialize e = Return () e'" "enc \<noteq> YAML_ANY_ENCODING"
    "seqM (yaml_emitter_set_output_string room) (yaml_emitter_set_encoding enc) e' = Return () e''"
  shows "writer_ok yaml_string_write_handler [] e''"
proof -
  have "wp yaml_emitter_initialize (\<lambda>_ e. b_data (e_buffer e) = [] \<and> b_pos (e_buffer e) = 0
      \<and> b_cap (e_buffer e) = OUTPUT_BUFFER_SIZE \<and> b_data (e_raw_buffer e) = [] \<and> b_pos (e_raw_buffer e) = 0
      \<and> b_cap (e_raw_buffer e) = OUTPUT_RAW_BUFFER_SIZE) (\<lambda>_. True) e"
    unfolding yaml_emitter_initialize_def
    by (auto simp: wp_simps object_simps zero_emitter_def intro!: wp_BUFFER_INIT wp_QUEUE_INIT wp_STACK_INIT)
  from wp_Return [OF this assms(1)] assms(2,3) show ?thesis
    by (auto simp: yaml_emitter_set_output_string_def yaml_emitter_set_encoding_def prog_defs writer_ok_def
        buffer_ok_def split: if_splits)
qed

text \<open>The parser in its start state, with an input set, is in the state the reader expects.\<close>

lemma parser_input_string:
  assumes "parser_start p" "yaml_parser_set_input_string s p = Return () p'"
  shows "reader_ok yaml_string_read_handler string_pending string_input_ok p' \<and> holds p' []
    \<and> bytes_left string_pending p' = s \<and> \<not> p_eof p' \<and> p_encoding p' = YAML_ANY_ENCODING"
  using assms
  by (auto simp: yaml_parser_set_input_string_def prog_defs parser_start_def reader_ok_def reader_inv_def
      holds_def bytes_left_def b_rest_def buffer_ok_def string_pending_def string_input_ok_def split: if_splits)

end
