(* ===== verification/Parser.thy ===== *)
theory Parser
  imports Objects Document
begin

text \<open>
  The parser (\<open>parser.c\<close>): a state machine that turns tokens into events.  Its states that are still
  to be resumed are on the stack \<open>states\<close>, and the start marks of the open collections on the
  stack \<open>marks\<close>.  One definition per function of \<open>parser.c\<close>; the scanner's entry point
  \<open>yaml_parser_fetch_more_tokens\<close> is the argument \<open>fetch\<close> of them all.

  Strings move from tokens to events without being copied: a token that is skipped is not freed,
  and what the event does not take over is freed explicitly.
\<close>

subsection \<open>Tokens and memory\<close>

text \<open>
  \<open>PEEK_TOKEN\<close> returns 0 where the scanner fails.  Reading the head of an empty queue is a fault.
\<close>

definition PEEK_TOKEN :: "('h yaml_parser, unit) prog \<Rightarrow> ('h yaml_parser, yaml_token) prog" where
  "PEEK_TOKEN fetch =
     seqM (readM (\<lambda>p. if p_token_available p then returnM () else fetch))
       (readM (\<lambda>p. case items (p_tokens p) of [] \<Rightarrow> faultM | t # _ \<Rightarrow> returnM t))"

text \<open>The result of \<open>PEEK_TOKEN\<close> is dereferenced without a check: a NULL is a fault.\<close>

definition deref :: "('s, 'a) prog \<Rightarrow> ('s, 'a) prog" where
  "deref m s = (case m s of Error _ \<Rightarrow> Fault | r \<Rightarrow> r)"

definition SKIP_TOKEN :: "('h yaml_parser, unit) prog" where
  "SKIP_TOKEN p = (case DEQUEUE (p_tokens p) of
     Return t q \<Rightarrow> Return () (p\<lparr>p_token_available := False, p_tokens_parsed := p_tokens_parsed p + 1,
       p_stream_end_produced := (t_type t = YAML_STREAM_END_TOKEN), p_tokens := q\<rparr>)
   | _ \<Rightarrow> Fault)"

definition yaml_parser_set_parser_error :: "string \<Rightarrow> yaml_mark \<Rightarrow> ('h yaml_parser, 'a) prog" where
  "yaml_parser_set_parser_error problem mark = errorM (\<lambda>p. p\<lparr>p_error := YAML_PARSER_ERROR,
     p_problem := problem, p_problem_mark := mark\<rparr>)"

definition yaml_parser_set_parser_error_context ::
    "string \<Rightarrow> yaml_mark \<Rightarrow> string \<Rightarrow> yaml_mark \<Rightarrow> ('h yaml_parser, 'a) prog" where
  "yaml_parser_set_parser_error_context ctxt context_mark problem mark =
     errorM (\<lambda>p. p\<lparr>p_error := YAML_PARSER_ERROR, p_context := ctxt, p_context_mark := context_mark,
       p_problem := problem, p_problem_mark := mark\<rparr>)"

definition parser_malloc :: "nat \<Rightarrow> ('h yaml_parser, unit) prog" where
  "parser_malloc n = memP (bindM (yaml_malloc n) (\<lambda>ok. if ok then returnM () else errorM id))"

definition push_stack ::
    "(('h, 'z) yaml_reader_scheme \<Rightarrow> 'a ystack) \<Rightarrow> ('a ystack \<Rightarrow> ('h, 'z) yaml_reader_scheme \<Rightarrow> ('h, 'z) yaml_reader_scheme)
     \<Rightarrow> 'a \<Rightarrow> (('h, 'z) yaml_reader_scheme, unit) prog" where
  "push_stack get put x p = (case PUSH x (get p, p_mem p) of
     Return _ (st, h) \<Rightarrow> Return () (put st (p\<lparr>p_mem := h\<rparr>))
   | Error (st, h) \<Rightarrow> Error (put st (p\<lparr>p_mem := h, p_error := YAML_MEMORY_ERROR\<rparr>))
   | Fault \<Rightarrow> Fault)"

definition PUSH_STATE :: "yaml_parser_state \<Rightarrow> ('h yaml_parser, unit) prog" where
  "PUSH_STATE = push_stack p_states (\<lambda>st p. p\<lparr>p_states := st\<rparr>)"

definition PUSH_MARK :: "yaml_mark \<Rightarrow> ('h yaml_parser, unit) prog" where
  "PUSH_MARK = push_stack p_marks (\<lambda>st p. p\<lparr>p_marks := st\<rparr>)"

text \<open>\<open>parser->state = POP(parser, parser->states)\<close> and \<open>POP(parser, parser->marks)\<close>.\<close>

definition POP_STATE :: "('h yaml_parser, unit) prog" where
  "POP_STATE = bindM (zoomM p_states (\<lambda>st p. p\<lparr>p_states := st\<rparr>) POP) (\<lambda>s. modifyM (\<lambda>p. p\<lparr>p_state := s\<rparr>))"

definition POP_MARK :: "('h yaml_parser, yaml_mark) prog" where
  "POP_MARK = zoomM p_marks (\<lambda>st p. p\<lparr>p_marks := st\<rparr>) POP"

abbreviation set_state :: "yaml_parser_state \<Rightarrow> ('h yaml_parser, unit) prog" where
  "set_state s \<equiv> modifyM (\<lambda>p. p\<lparr>p_state := s\<rparr>)"

abbreviation event :: "yaml_event_data \<Rightarrow> yaml_mark \<Rightarrow> yaml_mark \<Rightarrow> ('h yaml_parser, yaml_event) prog" where
  "event d m m' \<equiv> returnM (EVENT_INIT d m m')"

subsection \<open>Empty scalars and directives\<close>

definition yaml_parser_process_empty_scalar :: "yaml_mark \<Rightarrow> ('h yaml_parser, yaml_event) prog" where
  "yaml_parser_process_empty_scalar mark =
     seqM (parser_malloc 1) (event (ScalarEvent None None [] True False YAML_PLAIN_SCALAR_STYLE) mark mark)"

definition copy_of :: "ystring \<Rightarrow> (('h, 'z) yaml_reader_scheme, ystring option) prog" where
  "copy_of s = zoomM p_mem (\<lambda>h p. p\<lparr>p_mem := h\<rparr>) (yaml_strdup (Some s))"

definition yaml_parser_append_tag_directive ::
    "yaml_tag_directive \<Rightarrow> bool \<Rightarrow> yaml_mark \<Rightarrow> ('h yaml_parser, unit) prog" where
  "yaml_parser_append_tag_directive v allow_duplicates mark =
     readM (\<lambda>p.
       if \<exists>td\<in>set (elems (p_tag_directives p)). streq (td_handle v) (td_handle td) then
         (if allow_duplicates then returnM ()
          else yaml_parser_set_parser_error ''found duplicate %TAG directive'' mark)
       else
         bindM (copy_of (td_handle v)) (\<lambda>handle.
         bindM (copy_of (td_prefix v)) (\<lambda>prefix.
         cleanupM
           (case (handle, prefix) of
              (Some h, Some pr) \<Rightarrow>
                push_stack p_tag_directives (\<lambda>st p. p\<lparr>p_tag_directives := st\<rparr>) \<lparr>td_handle = h, td_prefix = pr\<rparr>
            | _ \<Rightarrow> errorM (\<lambda>p. p\<lparr>p_error := YAML_MEMORY_ERROR\<rparr>))
           (freeP (\<lambda>h. free_string prefix (free_string handle h))))))"

definition default_tag_directives :: "yaml_tag_directive list" where
  "default_tag_directives =
     [\<lparr>td_handle = lit ''!'', td_prefix = lit ''!''\<rparr>,
      \<lparr>td_handle = lit ''!!'', td_prefix = lit ''tag:yaml.org,2002:''\<rparr>]"

primrec append_default_tag_directives ::
    "yaml_tag_directive list \<Rightarrow> yaml_mark \<Rightarrow> ('h yaml_parser, unit) prog" where
  "append_default_tag_directives [] mark = returnM ()"
| "append_default_tag_directives (td # tds) mark =
     seqM (yaml_parser_append_tag_directive td True mark) (append_default_tag_directives tds mark)"

text \<open>
  The local variables of \<open>yaml_parser_process_directives\<close>: the version directive (a block of its
  own) and the stack of tag directives.
\<close>

type_synonym directives = "yaml_version_directive option \<times> yaml_tag_directive ystack"

definition free_directives :: "directives \<Rightarrow> heap \<Rightarrow> heap" where
  "free_directives ds h = del_tag_stack (snd ds) (yaml_free (fst ds \<noteq> None) h)"

text \<open>\<open>PUSH(parser, tag_directives, value)\<close> on the local stack.\<close>

definition push_local :: "yaml_tag_directive \<Rightarrow> directives \<Rightarrow> ('h yaml_parser, directives) prog" where
  "push_local v ds p = (case PUSH v (snd ds, p_mem p) of
     Return _ (st, h) \<Rightarrow> Return (fst ds, st) (p\<lparr>p_mem := h\<rparr>)
   | Error (st, h) \<Rightarrow> Error (p\<lparr>p_mem := h, p_error := YAML_MEMORY_ERROR\<rparr>)
   | Fault \<Rightarrow> Fault)"

text \<open>The body of the loop, up to \<open>SKIP_TOKEN\<close>; \<open>None\<close>: the token is not a directive.\<close>

definition process_directive :: "yaml_token \<Rightarrow> directives \<Rightarrow> ('h yaml_parser, directives) prog option" where
  "process_directive token ds = (case t_data token of
     VersionDirectiveToken major minor \<Rightarrow> Some
       (if fst ds \<noteq> None then
          yaml_parser_set_parser_error ''found duplicate %YAML directive'' (t_start_mark token)
        else if major \<noteq> 1 \<or> minor \<noteq> 1 \<and> minor \<noteq> 2 then
          yaml_parser_set_parser_error ''found incompatible YAML document'' (t_start_mark token)
        else seqM (parser_malloc 8) (returnM (Some \<lparr>vd_major = major, vd_minor = minor\<rparr>, snd ds)))
   | TagDirectiveToken handle prefix \<Rightarrow> Some
       (let v = \<lparr>td_handle = handle, td_prefix = prefix\<rparr> in
        seqM (yaml_parser_append_tag_directive v False (t_start_mark token)) (push_local v ds))
   | _ \<Rightarrow> None)"

text \<open>
  The loop ends when the next token is not a directive; if the tokens never end, neither does the
  loop, and the result is \<open>None\<close>.  On an error the local variables are freed.
\<close>

partial_function (option) directives_loop ::
    "('h yaml_parser, unit) prog \<Rightarrow> directives \<Rightarrow> 'h yaml_parser
     \<Rightarrow> ('h yaml_parser, yaml_token \<times> directives) result option" where
  "directives_loop fetch ds p =
     (case PEEK_TOKEN fetch p of
        Fault \<Rightarrow> Some Fault
      | Error p1 \<Rightarrow> Some (Error (freeP (free_directives ds) p1))
      | Return token p1 \<Rightarrow>
          (case process_directive token ds of
             None \<Rightarrow> Some (Return (token, ds) p1)
           | Some m \<Rightarrow>
               (case bindM m (\<lambda>ds'. seqM SKIP_TOKEN (returnM ds')) p1 of
                  Fault \<Rightarrow> Some Fault
                | Error p2 \<Rightarrow> Some (Error (freeP (free_directives ds) p2))
                | Return ds' p2 \<Rightarrow> directives_loop fetch ds' p2)))"

declare directives_loop.simps [code]

definition returns :: "('s \<Rightarrow> ('s, 'a) result option) \<Rightarrow> ('s, 'a) prog" where
  "returns m s = (case m s of None \<Rightarrow> Fault | Some r \<Rightarrow> r)"

text \<open>
  \<open>wanted\<close>: whether the caller passes references for the results; without them the version and the
  stack (not its elements) are freed.
\<close>

definition yaml_parser_process_directives ::
    "('h yaml_parser, unit) prog \<Rightarrow> bool
     \<Rightarrow> ('h yaml_parser, yaml_version_directive option \<times> yaml_tag_directive list) prog" where
  "yaml_parser_process_directives fetch wanted =
     bindM (memP (STACK_INIT sizeof_tag_directive)) (\<lambda>st0.
     bindM (returns (directives_loop fetch (None, st0))) (\<lambda>(token, vd, st).
     seqM (cleanupM (append_default_tag_directives default_tag_directives (t_start_mark token))
             (freeP (free_directives (vd, st))))
       (if wanted then
          seqM (if STACK_EMPTY st then modifyM (freeP (STACK_DEL st)) else returnM ())
            (returnM (vd, elems st))
        else
          seqM (modifyM (freeP (STACK_DEL st)))
            (seqM (modifyM (freeP (yaml_free (vd \<noteq> None)))) (returnM (None, []))))))"

subsection \<open>Streams and documents\<close>

definition yaml_parser_parse_stream_start ::
    "('h yaml_parser, unit) prog \<Rightarrow> ('h yaml_parser, yaml_event) prog" where
  "yaml_parser_parse_stream_start fetch =
     bindM (PEEK_TOKEN fetch) (\<lambda>token. case t_data token of
       StreamStartToken enc \<Rightarrow>
         seqM (set_state YAML_PARSE_IMPLICIT_DOCUMENT_START_STATE)
           (seqM SKIP_TOKEN (event (StreamStartEvent enc) (t_start_mark token) (t_start_mark token)))
     | _ \<Rightarrow> yaml_parser_set_parser_error ''did not find expected <stream-start>'' (t_start_mark token))"

text \<open>Extra document end indicators are skipped, however many there are.\<close>

partial_function (option) skip_document_ends ::
    "('h yaml_parser, unit) prog \<Rightarrow> 'h yaml_parser \<Rightarrow> ('h yaml_parser, yaml_token) result option" where
  "skip_document_ends fetch p =
     (case PEEK_TOKEN fetch p of
        Fault \<Rightarrow> Some Fault
      | Error p1 \<Rightarrow> Some (Error p1)
      | Return token p1 \<Rightarrow>
          if t_type token = YAML_DOCUMENT_END_TOKEN then
            (case SKIP_TOKEN p1 of
               Return _ p2 \<Rightarrow> skip_document_ends fetch p2
             | Error p2 \<Rightarrow> Some (Error p2)
             | Fault \<Rightarrow> Some Fault)
          else Some (Return token p1))"

declare skip_document_ends.simps [code]

definition free_document_start :: "yaml_version_directive option \<Rightarrow> yaml_tag_directive list \<Rightarrow> heap \<Rightarrow> heap" where
  "free_document_start vd tds h =
     yaml_free (tds \<noteq> []) (free_tag_directives (rev tds) (yaml_free (vd \<noteq> None) h))"

definition yaml_parser_parse_document_start ::
    "('h yaml_parser, unit) prog \<Rightarrow> bool \<Rightarrow> ('h yaml_parser, yaml_event) prog" where
  "yaml_parser_parse_document_start fetch implicit =
     bindM (if implicit then PEEK_TOKEN fetch else returns (skip_document_ends fetch)) (\<lambda>token.
       if implicit \<and> t_type token \<notin> {YAML_VERSION_DIRECTIVE_TOKEN, YAML_TAG_DIRECTIVE_TOKEN,
            YAML_DOCUMENT_START_TOKEN, YAML_STREAM_END_TOKEN} then
         seqM (yaml_parser_process_directives fetch False)
         (seqM (PUSH_STATE YAML_PARSE_DOCUMENT_END_STATE)
         (seqM (set_state YAML_PARSE_BLOCK_NODE_STATE)
           (event (DocumentStartEvent None [] True) (t_start_mark token) (t_start_mark token))))
       else if t_type token \<noteq> YAML_STREAM_END_TOKEN then
         bindM (yaml_parser_process_directives fetch True) (\<lambda>(vd, tds).
         cleanupM
           (bindM (PEEK_TOKEN fetch) (\<lambda>token'.
              if t_type token' \<noteq> YAML_DOCUMENT_START_TOKEN then
                yaml_parser_set_parser_error ''did not find expected <document start>'' (t_start_mark token')
              else
                seqM (PUSH_STATE YAML_PARSE_DOCUMENT_END_STATE)
                (seqM (set_state YAML_PARSE_DOCUMENT_CONTENT_STATE)
                (seqM SKIP_TOKEN
                  (event (DocumentStartEvent vd tds False) (t_start_mark token) (t_end_mark token'))))))
           (freeP (free_document_start vd tds)))
       else
         seqM (set_state YAML_PARSE_END_STATE)
           (seqM SKIP_TOKEN (event StreamEndEvent (t_start_mark token) (t_end_mark token))))"

definition pop_tag_directives :: "'h yaml_parser \<Rightarrow> 'h yaml_parser" where
  "pop_tag_directives p =
     (freeP (free_tag_directives (rev (elems (p_tag_directives p)))) p)
       \<lparr>p_tag_directives := (p_tag_directives p)\<lparr>elems := []\<rparr>\<rparr>"

definition yaml_parser_parse_document_end ::
    "('h yaml_parser, unit) prog \<Rightarrow> ('h yaml_parser, yaml_event) prog" where
  "yaml_parser_parse_document_end fetch =
     bindM (PEEK_TOKEN fetch) (\<lambda>token.
       let explicit = (t_type token = YAML_DOCUMENT_END_TOKEN) in
       seqM (if explicit then SKIP_TOKEN else returnM ())
       (seqM (modifyM pop_tag_directives)
       (seqM (set_state YAML_PARSE_DOCUMENT_START_STATE)
         (event (DocumentEndEvent (\<not> explicit)) (t_start_mark token)
           (if explicit then t_end_mark token else t_start_mark token)))))"

subsection \<open>Nodes\<close>

text \<open>
  The properties of a node: its anchor, its tag as handle, suffix and mark, and the marks of the
  node so far.
\<close>

type_synonym properties =
  "ystring option \<times> (ystring \<times> ystring \<times> yaml_mark) option \<times> yaml_mark \<times> yaml_mark"

abbreviation free2 :: "heap \<Rightarrow> heap" where
  "free2 h \<equiv> yaml_free True (yaml_free True h)"

definition parse_properties ::
    "('h yaml_parser, unit) prog \<Rightarrow> yaml_token \<Rightarrow> ('h yaml_parser, properties \<times> yaml_token) prog" where
  "parse_properties fetch token = (case t_data token of
     AnchorToken a \<Rightarrow>
       seqM SKIP_TOKEN (cleanupM
         (bindM (PEEK_TOKEN fetch) (\<lambda>token1. case t_data token1 of
            TagToken h sf \<Rightarrow>
              seqM SKIP_TOKEN (cleanupM
                (bindM (PEEK_TOKEN fetch) (\<lambda>token2. returnM
                   ((Some a, Some (h, sf, t_start_mark token1), t_start_mark token, t_end_mark token1), token2)))
                (freeP free2))
          | _ \<Rightarrow> returnM ((Some a, None, t_start_mark token, t_end_mark token), token1)))
         (freeP (yaml_free True)))
   | TagToken h sf \<Rightarrow>
       seqM SKIP_TOKEN (cleanupM
         (bindM (PEEK_TOKEN fetch) (\<lambda>token1. case t_data token1 of
            AnchorToken a \<Rightarrow>
              seqM SKIP_TOKEN (cleanupM
                (bindM (PEEK_TOKEN fetch) (\<lambda>token2. returnM
                   ((Some a, Some (h, sf, t_start_mark token), t_start_mark token, t_end_mark token1), token2)))
                (freeP (yaml_free True)))
          | _ \<Rightarrow> returnM ((None, Some (h, sf, t_start_mark token), t_start_mark token, t_end_mark token), token1)))
         (freeP free2))
   | _ \<Rightarrow> returnM ((None, None, t_start_mark token, t_start_mark token), token))"

text \<open>
  The tag of a node: the suffix alone where the handle is empty, else the prefix of the handle's
  directive and the suffix in a new block.
\<close>

definition resolve_tag ::
    "(ystring \<times> ystring \<times> yaml_mark) option \<Rightarrow> yaml_mark \<Rightarrow> ('h yaml_parser, ystring option) prog" where
  "resolve_tag t start_mark = (case t of
     None \<Rightarrow> returnM None
   | Some (handle, sf, tag_mark) \<Rightarrow>
       if c_str handle = [] then seqM (modifyM (freeP (yaml_free True))) (returnM (Some sf))
       else readM (\<lambda>p. case find (\<lambda>td. streq (td_handle td) handle) (elems (p_tag_directives p)) of
           Some td \<Rightarrow>
             seqM (cleanupM (parser_malloc (strlen (td_prefix td) + strlen sf + 1)) (freeP free2))
             (seqM (modifyM (freeP free2)) (returnM (Some (c_str (td_prefix td) @ c_str sf))))
         | None \<Rightarrow>
             cleanupM (yaml_parser_set_parser_error_context ''while parsing a node'' start_mark
                 ''found undefined tag handle'' tag_mark)
               (freeP free2)))"

text \<open>The content of a node whose properties are known.\<close>

definition parse_node_content ::
    "bool \<Rightarrow> bool \<Rightarrow> ystring option \<Rightarrow> ystring option \<Rightarrow> yaml_mark \<Rightarrow> yaml_mark \<Rightarrow> yaml_token
     \<Rightarrow> ('h yaml_parser, yaml_event) prog" where
  "parse_node_content block indentless_sequence anchor tag start_mark end_mark token =
     (let implicit = (case tag of None \<Rightarrow> True | Some t \<Rightarrow> c_str t = []);
          tok_end = t_end_mark token in
      if indentless_sequence \<and> t_type token = YAML_BLOCK_ENTRY_TOKEN then
        seqM (set_state YAML_PARSE_INDENTLESS_SEQUENCE_ENTRY_STATE)
          (event (SequenceStartEvent anchor tag implicit YAML_BLOCK_SEQUENCE_STYLE) start_mark tok_end)
      else case t_data token of
        ScalarToken v style \<Rightarrow>
          let plain = (style = YAML_PLAIN_SCALAR_STYLE \<and> tag = None
                         \<or> (case tag of None \<Rightarrow> False | Some t \<Rightarrow> streq t (lit ''!'')));
              quoted = (\<not> plain \<and> tag = None) in
          seqM POP_STATE (seqM SKIP_TOKEN
            (event (ScalarEvent anchor tag v plain quoted style) start_mark tok_end))
      | FlowSequenceStartToken \<Rightarrow>
          seqM (set_state YAML_PARSE_FLOW_SEQUENCE_FIRST_ENTRY_STATE)
            (event (SequenceStartEvent anchor tag implicit YAML_FLOW_SEQUENCE_STYLE) start_mark tok_end)
      | FlowMappingStartToken \<Rightarrow>
          seqM (set_state YAML_PARSE_FLOW_MAPPING_FIRST_KEY_STATE)
            (event (MappingStartEvent anchor tag implicit YAML_FLOW_MAPPING_STYLE) start_mark tok_end)
      | _ \<Rightarrow>
          if block \<and> t_type token = YAML_BLOCK_SEQUENCE_START_TOKEN then
            seqM (set_state YAML_PARSE_BLOCK_SEQUENCE_FIRST_ENTRY_STATE)
              (event (SequenceStartEvent anchor tag implicit YAML_BLOCK_SEQUENCE_STYLE) start_mark tok_end)
          else if block \<and> t_type token = YAML_BLOCK_MAPPING_START_TOKEN then
            seqM (set_state YAML_PARSE_BLOCK_MAPPING_FIRST_KEY_STATE)
              (event (MappingStartEvent anchor tag implicit YAML_BLOCK_MAPPING_STYLE) start_mark tok_end)
          else if anchor \<noteq> None \<or> tag \<noteq> None then
            seqM (parser_malloc 1) (seqM POP_STATE
              (event (ScalarEvent anchor tag [] implicit False YAML_PLAIN_SCALAR_STYLE) start_mark end_mark))
          else
            yaml_parser_set_parser_error_context
              (if block then ''while parsing a block node'' else ''while parsing a flow node'') start_mark
              ''did not find expected node content'' (t_start_mark token))"

definition yaml_parser_parse_node ::
    "('h yaml_parser, unit) prog \<Rightarrow> bool \<Rightarrow> bool \<Rightarrow> ('h yaml_parser, yaml_event) prog" where
  "yaml_parser_parse_node fetch block indentless_sequence =
     bindM (PEEK_TOKEN fetch) (\<lambda>token. case t_data token of
       AliasToken v \<Rightarrow>
         seqM POP_STATE (seqM SKIP_TOKEN (event (AliasEvent v) (t_start_mark token) (t_end_mark token)))
     | _ \<Rightarrow>
         bindM (parse_properties fetch token) (\<lambda>((anchor, tag, start_mark, end_mark), token').
         cleanupM
           (bindM (resolve_tag tag start_mark) (\<lambda>tag'.
            cleanupM (parse_node_content block indentless_sequence anchor tag' start_mark end_mark token')
              (freeP (free_string tag'))))
           (freeP (free_string anchor))))"

definition yaml_parser_parse_document_content ::
    "('h yaml_parser, unit) prog \<Rightarrow> ('h yaml_parser, yaml_event) prog" where
  "yaml_parser_parse_document_content fetch =
     bindM (PEEK_TOKEN fetch) (\<lambda>token.
       if t_type token \<in> {YAML_VERSION_DIRECTIVE_TOKEN, YAML_TAG_DIRECTIVE_TOKEN, YAML_DOCUMENT_START_TOKEN,
            YAML_DOCUMENT_END_TOKEN, YAML_STREAM_END_TOKEN} then
         seqM POP_STATE (yaml_parser_process_empty_scalar (t_start_mark token))
       else yaml_parser_parse_node fetch True False)"

subsection \<open>Block collections\<close>

text \<open>The prologue of a collection: the mark of its first token is pushed and the token skipped.\<close>

definition open_collection :: "('h yaml_parser, unit) prog \<Rightarrow> bool \<Rightarrow> ('h yaml_parser, unit) prog" where
  "open_collection fetch first =
     (if first then
        bindM (deref (PEEK_TOKEN fetch)) (\<lambda>token. seqM (PUSH_MARK (t_start_mark token)) SKIP_TOKEN)
      else returnM ())"

text \<open>
  The rest of an entry whose indicator was skipped: an empty scalar where the next token is in
  \<open>stop\<close>, else a node, after which \<open>resume\<close> is entered.
\<close>

definition entry_node ::
    "('h yaml_parser, unit) prog \<Rightarrow> yaml_token_type set \<Rightarrow> yaml_parser_state \<Rightarrow> bool \<Rightarrow> bool \<Rightarrow> yaml_mark
     \<Rightarrow> ('h yaml_parser, yaml_event) prog" where
  "entry_node fetch stop resume block indentless mark =
     bindM (PEEK_TOKEN fetch) (\<lambda>token.
       if t_type token \<notin> stop then
         seqM (PUSH_STATE resume) (yaml_parser_parse_node fetch block indentless)
       else
         seqM (set_state resume) (yaml_parser_process_empty_scalar mark))"

definition close_collection :: "yaml_token \<Rightarrow> yaml_event_data \<Rightarrow> ('h yaml_parser, yaml_event) prog" where
  "close_collection token d =
     seqM POP_STATE (bindM POP_MARK (\<lambda>_. seqM SKIP_TOKEN (event d (t_start_mark token) (t_end_mark token))))"

definition collection_error :: "string \<Rightarrow> string \<Rightarrow> yaml_token \<Rightarrow> ('h yaml_parser, yaml_event) prog" where
  "collection_error ctxt problem token =
     bindM POP_MARK (\<lambda>mark. yaml_parser_set_parser_error_context ctxt mark problem (t_start_mark token))"

definition yaml_parser_parse_block_sequence_entry ::
    "('h yaml_parser, unit) prog \<Rightarrow> bool \<Rightarrow> ('h yaml_parser, yaml_event) prog" where
  "yaml_parser_parse_block_sequence_entry fetch first =
     seqM (open_collection fetch first)
       (bindM (PEEK_TOKEN fetch) (\<lambda>token.
          if t_type token = YAML_BLOCK_ENTRY_TOKEN then
            seqM SKIP_TOKEN
              (entry_node fetch {YAML_BLOCK_ENTRY_TOKEN, YAML_BLOCK_END_TOKEN}
                YAML_PARSE_BLOCK_SEQUENCE_ENTRY_STATE True False (t_end_mark token))
          else if t_type token = YAML_BLOCK_END_TOKEN then close_collection token SequenceEndEvent
          else collection_error ''while parsing a block collection'' ''did not find expected '-' indicator'' token))"

definition yaml_parser_parse_indentless_sequence_entry ::
    "('h yaml_parser, unit) prog \<Rightarrow> ('h yaml_parser, yaml_event) prog" where
  "yaml_parser_parse_indentless_sequence_entry fetch =
     bindM (PEEK_TOKEN fetch) (\<lambda>token.
       if t_type token = YAML_BLOCK_ENTRY_TOKEN then
         seqM SKIP_TOKEN
           (entry_node fetch {YAML_BLOCK_ENTRY_TOKEN, YAML_KEY_TOKEN, YAML_VALUE_TOKEN, YAML_BLOCK_END_TOKEN}
             YAML_PARSE_INDENTLESS_SEQUENCE_ENTRY_STATE True False (t_end_mark token))
       else
         seqM POP_STATE (event SequenceEndEvent (t_start_mark token) (t_start_mark token)))"

definition yaml_parser_parse_block_mapping_key ::
    "('h yaml_parser, unit) prog \<Rightarrow> bool \<Rightarrow> ('h yaml_parser, yaml_event) prog" where
  "yaml_parser_parse_block_mapping_key fetch first =
     seqM (open_collection fetch first)
       (bindM (PEEK_TOKEN fetch) (\<lambda>token.
          if t_type token = YAML_KEY_TOKEN then
            seqM SKIP_TOKEN
              (entry_node fetch {YAML_KEY_TOKEN, YAML_VALUE_TOKEN, YAML_BLOCK_END_TOKEN}
                YAML_PARSE_BLOCK_MAPPING_VALUE_STATE True True (t_end_mark token))
          else if t_type token = YAML_BLOCK_END_TOKEN then close_collection token MappingEndEvent
          else collection_error ''while parsing a block mapping'' ''did not find expected key'' token))"

definition yaml_parser_parse_block_mapping_value ::
    "('h yaml_parser, unit) prog \<Rightarrow> ('h yaml_parser, yaml_event) prog" where
  "yaml_parser_parse_block_mapping_value fetch =
     bindM (PEEK_TOKEN fetch) (\<lambda>token.
       if t_type token = YAML_VALUE_TOKEN then
         seqM SKIP_TOKEN
           (entry_node fetch {YAML_KEY_TOKEN, YAML_VALUE_TOKEN, YAML_BLOCK_END_TOKEN}
             YAML_PARSE_BLOCK_MAPPING_KEY_STATE True True (t_end_mark token))
       else
         seqM (set_state YAML_PARSE_BLOCK_MAPPING_KEY_STATE)
           (yaml_parser_process_empty_scalar (t_start_mark token)))"

subsection \<open>Flow collections\<close>

text \<open>Behind an entry there is a comma or the end; \<open>None\<close> where there is neither.\<close>

definition skip_flow_entry ::
    "('h yaml_parser, unit) prog \<Rightarrow> bool \<Rightarrow> yaml_token \<Rightarrow> ('h yaml_parser, yaml_token option) prog" where
  "skip_flow_entry fetch first token =
     (if first then returnM (Some token)
      else if t_type token = YAML_FLOW_ENTRY_TOKEN then
        seqM SKIP_TOKEN (bindM (PEEK_TOKEN fetch) (\<lambda>token'. returnM (Some token')))
      else returnM None)"

definition yaml_parser_parse_flow_sequence_entry ::
    "('h yaml_parser, unit) prog \<Rightarrow> bool \<Rightarrow> ('h yaml_parser, yaml_event) prog" where
  "yaml_parser_parse_flow_sequence_entry fetch first =
     seqM (open_collection fetch first)
       (bindM (PEEK_TOKEN fetch) (\<lambda>token.
          if t_type token = YAML_FLOW_SEQUENCE_END_TOKEN then close_collection token SequenceEndEvent
          else bindM (skip_flow_entry fetch first token) (\<lambda>token'. case token' of
            None \<Rightarrow> collection_error ''while parsing a flow sequence'' (''did not find expected ',' or ']'' @ [CHR 0x27]) token
          | Some token \<Rightarrow>
              if t_type token = YAML_KEY_TOKEN then
                seqM (set_state YAML_PARSE_FLOW_SEQUENCE_ENTRY_MAPPING_KEY_STATE)
                (seqM SKIP_TOKEN
                  (event (MappingStartEvent None None True YAML_FLOW_MAPPING_STYLE)
                    (t_start_mark token) (t_end_mark token)))
              else if t_type token \<noteq> YAML_FLOW_SEQUENCE_END_TOKEN then
                seqM (PUSH_STATE YAML_PARSE_FLOW_SEQUENCE_ENTRY_STATE) (yaml_parser_parse_node fetch False False)
              else close_collection token SequenceEndEvent)))"

definition yaml_parser_parse_flow_sequence_entry_mapping_key ::
    "('h yaml_parser, unit) prog \<Rightarrow> ('h yaml_parser, yaml_event) prog" where
  "yaml_parser_parse_flow_sequence_entry_mapping_key fetch =
     bindM (PEEK_TOKEN fetch) (\<lambda>token.
       if t_type token \<notin> {YAML_VALUE_TOKEN, YAML_FLOW_ENTRY_TOKEN, YAML_FLOW_SEQUENCE_END_TOKEN} then
         seqM (PUSH_STATE YAML_PARSE_FLOW_SEQUENCE_ENTRY_MAPPING_VALUE_STATE)
           (yaml_parser_parse_node fetch False False)
       else
         seqM SKIP_TOKEN
         (seqM (set_state YAML_PARSE_FLOW_SEQUENCE_ENTRY_MAPPING_VALUE_STATE)
           (yaml_parser_process_empty_scalar (t_end_mark token))))"

text \<open>A value after an optional \<open>VALUE\<close> token; the empty scalar stands at the last token seen.\<close>

definition flow_value ::
    "('h yaml_parser, unit) prog \<Rightarrow> yaml_token_type set \<Rightarrow> yaml_parser_state \<Rightarrow> yaml_token
     \<Rightarrow> ('h yaml_parser, yaml_event) prog" where
  "flow_value fetch stop resume token =
     (if t_type token = YAML_VALUE_TOKEN then
        seqM SKIP_TOKEN (bindM (PEEK_TOKEN fetch) (\<lambda>token'.
          if t_type token' \<notin> stop then
            seqM (PUSH_STATE resume) (yaml_parser_parse_node fetch False False)
          else seqM (set_state resume) (yaml_parser_process_empty_scalar (t_start_mark token'))))
      else seqM (set_state resume) (yaml_parser_process_empty_scalar (t_start_mark token)))"

definition yaml_parser_parse_flow_sequence_entry_mapping_value ::
    "('h yaml_parser, unit) prog \<Rightarrow> ('h yaml_parser, yaml_event) prog" where
  "yaml_parser_parse_flow_sequence_entry_mapping_value fetch =
     bindM (PEEK_TOKEN fetch)
       (flow_value fetch {YAML_FLOW_ENTRY_TOKEN, YAML_FLOW_SEQUENCE_END_TOKEN}
         YAML_PARSE_FLOW_SEQUENCE_ENTRY_MAPPING_END_STATE)"

definition yaml_parser_parse_flow_sequence_entry_mapping_end ::
    "('h yaml_parser, unit) prog \<Rightarrow> ('h yaml_parser, yaml_event) prog" where
  "yaml_parser_parse_flow_sequence_entry_mapping_end fetch =
     bindM (PEEK_TOKEN fetch) (\<lambda>token.
       seqM (set_state YAML_PARSE_FLOW_SEQUENCE_ENTRY_STATE)
         (event MappingEndEvent (t_start_mark token) (t_start_mark token)))"

definition yaml_parser_parse_flow_mapping_key ::
    "('h yaml_parser, unit) prog \<Rightarrow> bool \<Rightarrow> ('h yaml_parser, yaml_event) prog" where
  "yaml_parser_parse_flow_mapping_key fetch first =
     seqM (open_collection fetch first)
       (bindM (PEEK_TOKEN fetch) (\<lambda>token.
          if t_type token = YAML_FLOW_MAPPING_END_TOKEN then close_collection token MappingEndEvent
          else bindM (skip_flow_entry fetch first token) (\<lambda>token'. case token' of
            None \<Rightarrow> collection_error ''while parsing a flow mapping'' (''did not find expected ',' or '}'' @ [CHR 0x27]) token
          | Some token \<Rightarrow>
              if t_type token = YAML_KEY_TOKEN then
                seqM SKIP_TOKEN (bindM (PEEK_TOKEN fetch) (\<lambda>token2.
                  if t_type token2 \<notin> {YAML_VALUE_TOKEN, YAML_FLOW_ENTRY_TOKEN, YAML_FLOW_MAPPING_END_TOKEN} then
                    seqM (PUSH_STATE YAML_PARSE_FLOW_MAPPING_VALUE_STATE) (yaml_parser_parse_node fetch False False)
                  else
                    seqM (set_state YAML_PARSE_FLOW_MAPPING_VALUE_STATE)
                      (yaml_parser_process_empty_scalar (t_start_mark token2))))
              else if t_type token \<noteq> YAML_FLOW_MAPPING_END_TOKEN then
                seqM (PUSH_STATE YAML_PARSE_FLOW_MAPPING_EMPTY_VALUE_STATE)
                  (yaml_parser_parse_node fetch False False)
              else close_collection token MappingEndEvent)))"

definition yaml_parser_parse_flow_mapping_value ::
    "('h yaml_parser, unit) prog \<Rightarrow> bool \<Rightarrow> ('h yaml_parser, yaml_event) prog" where
  "yaml_parser_parse_flow_mapping_value fetch is_empty =
     bindM (PEEK_TOKEN fetch) (\<lambda>token.
       if is_empty then
         seqM (set_state YAML_PARSE_FLOW_MAPPING_KEY_STATE)
           (yaml_parser_process_empty_scalar (t_start_mark token))
       else
         flow_value fetch {YAML_FLOW_ENTRY_TOKEN, YAML_FLOW_MAPPING_END_TOKEN}
           YAML_PARSE_FLOW_MAPPING_KEY_STATE token)"

subsection \<open>The state machine\<close>

definition yaml_parser_state_machine ::
    "('h yaml_parser, unit) prog \<Rightarrow> ('h yaml_parser, yaml_event) prog" where
  "yaml_parser_state_machine fetch = readM (\<lambda>p. case p_state p of
     YAML_PARSE_STREAM_START_STATE \<Rightarrow> yaml_parser_parse_stream_start fetch
   | YAML_PARSE_IMPLICIT_DOCUMENT_START_STATE \<Rightarrow> yaml_parser_parse_document_start fetch True
   | YAML_PARSE_DOCUMENT_START_STATE \<Rightarrow> yaml_parser_parse_document_start fetch False
   | YAML_PARSE_DOCUMENT_CONTENT_STATE \<Rightarrow> yaml_parser_parse_document_content fetch
   | YAML_PARSE_DOCUMENT_END_STATE \<Rightarrow> yaml_parser_parse_document_end fetch
   | YAML_PARSE_BLOCK_NODE_STATE \<Rightarrow> yaml_parser_parse_node fetch True False
   | YAML_PARSE_BLOCK_NODE_OR_INDENTLESS_SEQUENCE_STATE \<Rightarrow> yaml_parser_parse_node fetch True True
   | YAML_PARSE_FLOW_NODE_STATE \<Rightarrow> yaml_parser_parse_node fetch False False
   | YAML_PARSE_BLOCK_SEQUENCE_FIRST_ENTRY_STATE \<Rightarrow> yaml_parser_parse_block_sequence_entry fetch True
   | YAML_PARSE_BLOCK_SEQUENCE_ENTRY_STATE \<Rightarrow> yaml_parser_parse_block_sequence_entry fetch False
   | YAML_PARSE_INDENTLESS_SEQUENCE_ENTRY_STATE \<Rightarrow> yaml_parser_parse_indentless_sequence_entry fetch
   | YAML_PARSE_BLOCK_MAPPING_FIRST_KEY_STATE \<Rightarrow> yaml_parser_parse_block_mapping_key fetch True
   | YAML_PARSE_BLOCK_MAPPING_KEY_STATE \<Rightarrow> yaml_parser_parse_block_mapping_key fetch False
   | YAML_PARSE_BLOCK_MAPPING_VALUE_STATE \<Rightarrow> yaml_parser_parse_block_mapping_value fetch
   | YAML_PARSE_FLOW_SEQUENCE_FIRST_ENTRY_STATE \<Rightarrow> yaml_parser_parse_flow_sequence_entry fetch True
   | YAML_PARSE_FLOW_SEQUENCE_ENTRY_STATE \<Rightarrow> yaml_parser_parse_flow_sequence_entry fetch False
   | YAML_PARSE_FLOW_SEQUENCE_ENTRY_MAPPING_KEY_STATE \<Rightarrow>
       yaml_parser_parse_flow_sequence_entry_mapping_key fetch
   | YAML_PARSE_FLOW_SEQUENCE_ENTRY_MAPPING_VALUE_STATE \<Rightarrow>
       yaml_parser_parse_flow_sequence_entry_mapping_value fetch
   | YAML_PARSE_FLOW_SEQUENCE_ENTRY_MAPPING_END_STATE \<Rightarrow>
       yaml_parser_parse_flow_sequence_entry_mapping_end fetch
   | YAML_PARSE_FLOW_MAPPING_FIRST_KEY_STATE \<Rightarrow> yaml_parser_parse_flow_mapping_key fetch True
   | YAML_PARSE_FLOW_MAPPING_KEY_STATE \<Rightarrow> yaml_parser_parse_flow_mapping_key fetch False
   | YAML_PARSE_FLOW_MAPPING_VALUE_STATE \<Rightarrow> yaml_parser_parse_flow_mapping_value fetch False
   | YAML_PARSE_FLOW_MAPPING_EMPTY_VALUE_STATE \<Rightarrow> yaml_parser_parse_flow_mapping_value fetch True
   | YAML_PARSE_END_STATE \<Rightarrow> errorM id)"

definition yaml_parser_parse :: "('h yaml_parser, unit) prog \<Rightarrow> ('h yaml_parser, yaml_event) prog" where
  "yaml_parser_parse fetch = readM (\<lambda>p.
     if p_stream_end_produced p \<or> p_error p \<noteq> YAML_NO_ERROR \<or> p_state p = YAML_PARSE_END_STATE
     then returnM null_event
     else yaml_parser_state_machine fetch)"

end
