(* ===== verification/Parser_Correct.thy ===== *)
theory Parser_Correct
  imports Parser
begin

text \<open>
  What the parser guarantees: whatever tokens the scanner delivers, no state handler dereferences a
  NULL token, pops an empty stack or loops; the events form a well-nested stream (the acceptor
  \<open>accept\<close> below); a failure always leaves an error behind; no block is leaked, whichever
  allocation fails; and on a finite token stream the parser comes to the end.
\<close>

subsection \<open>The grammar of events\<close>

text \<open>
  The frames of the open collections, innermost first: in a sequence, before a key of a mapping,
  before a value of a mapping.
\<close>

datatype frame = InSeq | AtKey | AtValue

datatype astate = AStart | ADocs | ANode "frame list" | ADocEnd | AEnd

text \<open>The state after a complete node in the context \<open>fs\<close>.\<close>

fun after_node :: "frame list \<Rightarrow> astate" where
  "after_node [] = ADocEnd"
| "after_node (InSeq # fs) = ANode (InSeq # fs)"
| "after_node (AtKey # fs) = ANode (AtValue # fs)"
| "after_node (AtValue # fs) = ANode (AtKey # fs)"

fun accept :: "astate \<Rightarrow> yaml_event_type \<Rightarrow> astate option" where
  "accept AStart YAML_STREAM_START_EVENT = Some ADocs"
| "accept ADocs YAML_DOCUMENT_START_EVENT = Some (ANode [])"
| "accept ADocs YAML_STREAM_END_EVENT = Some AEnd"
| "accept ADocEnd YAML_DOCUMENT_END_EVENT = Some ADocs"
| "accept (ANode fs) YAML_ALIAS_EVENT = Some (after_node fs)"
| "accept (ANode fs) YAML_SCALAR_EVENT = Some (after_node fs)"
| "accept (ANode fs) YAML_SEQUENCE_START_EVENT = Some (ANode (InSeq # fs))"
| "accept (ANode fs) YAML_MAPPING_START_EVENT = Some (ANode (AtKey # fs))"
| "accept (ANode (InSeq # fs)) YAML_SEQUENCE_END_EVENT = Some (after_node fs)"
| "accept (ANode (AtKey # fs)) YAML_MAPPING_END_EVENT = Some (after_node fs)"
| "accept _ _ = None"

subsection \<open>The control state of the parser\<close>

text \<open>What a state on the stack stands for: the context of the node that is parsed before it resumes.\<close>

fun resume_frames :: "yaml_parser_state \<Rightarrow> frame list" where
  "resume_frames YAML_PARSE_BLOCK_SEQUENCE_ENTRY_STATE = [InSeq]"
| "resume_frames YAML_PARSE_INDENTLESS_SEQUENCE_ENTRY_STATE = [InSeq]"
| "resume_frames YAML_PARSE_FLOW_SEQUENCE_ENTRY_STATE = [InSeq]"
| "resume_frames YAML_PARSE_BLOCK_MAPPING_VALUE_STATE = [AtKey]"
| "resume_frames YAML_PARSE_FLOW_MAPPING_VALUE_STATE = [AtKey]"
| "resume_frames YAML_PARSE_FLOW_MAPPING_EMPTY_VALUE_STATE = [AtKey]"
| "resume_frames YAML_PARSE_BLOCK_MAPPING_KEY_STATE = [AtValue]"
| "resume_frames YAML_PARSE_FLOW_MAPPING_KEY_STATE = [AtValue]"
| "resume_frames YAML_PARSE_FLOW_SEQUENCE_ENTRY_MAPPING_VALUE_STATE = [AtKey, InSeq]"
| "resume_frames YAML_PARSE_FLOW_SEQUENCE_ENTRY_MAPPING_END_STATE = [AtValue, InSeq]"
| "resume_frames _ = []"

definition inner_state :: "yaml_parser_state \<Rightarrow> bool" where
  "inner_state s \<longleftrightarrow> resume_frames s \<noteq> []"

text \<open>The stack, top first: the end of the document at the bottom, collections above it.\<close>

fun stack_wf :: "yaml_parser_state list \<Rightarrow> bool" where
  "stack_wf [] = False"
| "stack_wf (s # ss) = (if ss = [] then s = YAML_PARSE_DOCUMENT_END_STATE else inner_state s \<and> stack_wf ss)"

definition frames :: "yaml_parser_state list \<Rightarrow> frame list" where
  "frames ss = concat (map resume_frames ss)"

fun abs_state :: "yaml_parser_state \<Rightarrow> yaml_parser_state list \<Rightarrow> astate" where
  "abs_state YAML_PARSE_STREAM_START_STATE ss = AStart"
| "abs_state YAML_PARSE_IMPLICIT_DOCUMENT_START_STATE ss = ADocs"
| "abs_state YAML_PARSE_DOCUMENT_START_STATE ss = ADocs"
| "abs_state YAML_PARSE_DOCUMENT_CONTENT_STATE ss = ANode (frames ss)"
| "abs_state YAML_PARSE_DOCUMENT_END_STATE ss = ADocEnd"
| "abs_state YAML_PARSE_BLOCK_NODE_STATE ss = ANode (frames ss)"
| "abs_state YAML_PARSE_BLOCK_NODE_OR_INDENTLESS_SEQUENCE_STATE ss = ANode (frames ss)"
| "abs_state YAML_PARSE_FLOW_NODE_STATE ss = ANode (frames ss)"
| "abs_state YAML_PARSE_BLOCK_SEQUENCE_FIRST_ENTRY_STATE ss = ANode (InSeq # frames ss)"
| "abs_state YAML_PARSE_BLOCK_SEQUENCE_ENTRY_STATE ss = ANode (InSeq # frames ss)"
| "abs_state YAML_PARSE_INDENTLESS_SEQUENCE_ENTRY_STATE ss = ANode (InSeq # frames ss)"
| "abs_state YAML_PARSE_BLOCK_MAPPING_FIRST_KEY_STATE ss = ANode (AtKey # frames ss)"
| "abs_state YAML_PARSE_BLOCK_MAPPING_KEY_STATE ss = ANode (AtKey # frames ss)"
| "abs_state YAML_PARSE_BLOCK_MAPPING_VALUE_STATE ss = ANode (AtValue # frames ss)"
| "abs_state YAML_PARSE_FLOW_SEQUENCE_FIRST_ENTRY_STATE ss = ANode (InSeq # frames ss)"
| "abs_state YAML_PARSE_FLOW_SEQUENCE_ENTRY_STATE ss = ANode (InSeq # frames ss)"
| "abs_state YAML_PARSE_FLOW_SEQUENCE_ENTRY_MAPPING_KEY_STATE ss = ANode (AtKey # InSeq # frames ss)"
| "abs_state YAML_PARSE_FLOW_SEQUENCE_ENTRY_MAPPING_VALUE_STATE ss = ANode (AtValue # InSeq # frames ss)"
| "abs_state YAML_PARSE_FLOW_SEQUENCE_ENTRY_MAPPING_END_STATE ss = ANode (AtKey # InSeq # frames ss)"
| "abs_state YAML_PARSE_FLOW_MAPPING_FIRST_KEY_STATE ss = ANode (AtKey # frames ss)"
| "abs_state YAML_PARSE_FLOW_MAPPING_KEY_STATE ss = ANode (AtKey # frames ss)"
| "abs_state YAML_PARSE_FLOW_MAPPING_VALUE_STATE ss = ANode (AtValue # frames ss)"
| "abs_state YAML_PARSE_FLOW_MAPPING_EMPTY_VALUE_STATE ss = ANode (AtValue # frames ss)"
| "abs_state YAML_PARSE_END_STATE ss = AEnd"

text \<open>Resuming a state from the stack is what the grammar does after a complete node.\<close>

lemma after_node_resume: "stack_wf (s # ss) \<Longrightarrow> after_node (frames (s # ss)) = abs_state s ss"
  by (cases s) (auto simp: frames_def inner_state_def split: if_splits)

definition between_nodes :: "yaml_parser_state \<Rightarrow> bool" where
  "between_nodes s \<longleftrightarrow> s \<in> {YAML_PARSE_STREAM_START_STATE, YAML_PARSE_IMPLICIT_DOCUMENT_START_STATE,
     YAML_PARSE_DOCUMENT_START_STATE, YAML_PARSE_DOCUMENT_END_STATE, YAML_PARSE_END_STATE}"

definition state_wf :: "yaml_parser_state \<Rightarrow> yaml_parser_state list \<Rightarrow> bool" where
  "state_wf s ss \<longleftrightarrow> (if between_nodes s then ss = [] else stack_wf ss)"

lemma state_wf_resume: "stack_wf (s # ss) \<Longrightarrow> state_wf s ss"
  by (cases s) (auto simp: state_wf_def between_nodes_def inner_state_def split: if_splits)

text \<open>How many marks a state accounts for, as current state and on the stack.\<close>

fun state_marks :: "yaml_parser_state \<Rightarrow> nat" where
  "state_marks YAML_PARSE_BLOCK_SEQUENCE_ENTRY_STATE = 1"
| "state_marks YAML_PARSE_BLOCK_MAPPING_KEY_STATE = 1"
| "state_marks YAML_PARSE_BLOCK_MAPPING_VALUE_STATE = 1"
| "state_marks YAML_PARSE_FLOW_SEQUENCE_ENTRY_STATE = 1"
| "state_marks YAML_PARSE_FLOW_SEQUENCE_ENTRY_MAPPING_KEY_STATE = 1"
| "state_marks YAML_PARSE_FLOW_SEQUENCE_ENTRY_MAPPING_VALUE_STATE = 1"
| "state_marks YAML_PARSE_FLOW_SEQUENCE_ENTRY_MAPPING_END_STATE = 1"
| "state_marks YAML_PARSE_FLOW_MAPPING_KEY_STATE = 1"
| "state_marks YAML_PARSE_FLOW_MAPPING_VALUE_STATE = 1"
| "state_marks YAML_PARSE_FLOW_MAPPING_EMPTY_VALUE_STATE = 1"
| "state_marks _ = 0"

definition marks_needed :: "yaml_parser_state \<Rightarrow> yaml_parser_state list \<Rightarrow> nat" where
  "marks_needed s ss = state_marks s + sum_list (map state_marks ss)"

text \<open>In the first state of a collection the token that starts it is available and not yet skipped.\<close>

fun first_token :: "yaml_parser_state \<Rightarrow> yaml_token_type option" where
  "first_token YAML_PARSE_BLOCK_SEQUENCE_FIRST_ENTRY_STATE = Some YAML_BLOCK_SEQUENCE_START_TOKEN"
| "first_token YAML_PARSE_BLOCK_MAPPING_FIRST_KEY_STATE = Some YAML_BLOCK_MAPPING_START_TOKEN"
| "first_token YAML_PARSE_FLOW_SEQUENCE_FIRST_ENTRY_STATE = Some YAML_FLOW_SEQUENCE_START_TOKEN"
| "first_token YAML_PARSE_FLOW_MAPPING_FIRST_KEY_STATE = Some YAML_FLOW_MAPPING_START_TOKEN"
| "first_token _ = None"

definition token_ready :: "'h yaml_parser \<Rightarrow> yaml_token_type \<Rightarrow> bool" where
  "token_ready p tt \<longleftrightarrow> p_token_available p \<and> (\<exists>t ts. items (p_tokens p) = t # ts \<and> t_type t = tt)"

abbreviation stk :: "'h yaml_parser \<Rightarrow> yaml_parser_state list" where
  "stk p \<equiv> rev (elems (p_states p))"

abbreviation scn :: "'h yaml_parser \<Rightarrow> 'h yaml_scanner" where
  "scn p \<equiv> yaml_scanner.truncate p"

text \<open>Blocks that are live and not owned by the parser; the balance of every operation.\<close>

definition balance :: "'h yaml_parser \<Rightarrow> int" where
  "balance p = live (p_mem p) - parser_blocks p"

definition base_inv :: "('h yaml_scanner \<Rightarrow> bool) \<Rightarrow> 'h yaml_parser \<Rightarrow> bool" where
  "base_inv I p \<longleftrightarrow> I (scn p) \<and> p_error p = YAML_NO_ERROR \<and> p_stream_start_produced p \<and> \<not> p_stream_end_produced p
     \<and> (p_token_available p \<longrightarrow> items (p_tokens p) \<noteq> [])
     \<and> stack_ok (p_states p) \<and> stack_ok (p_marks p) \<and> stack_ok (p_tag_directives p)"

text \<open>Before the first call the scanner has not started yet.\<close>

definition start_inv :: "('h yaml_scanner \<Rightarrow> bool) \<Rightarrow> 'h yaml_parser \<Rightarrow> bool" where
  "start_inv I p \<longleftrightarrow> I (scn p) \<and> p_error p = YAML_NO_ERROR \<and> \<not> p_stream_start_produced p \<and> \<not> p_stream_end_produced p
     \<and> \<not> p_token_available p
     \<and> stack_ok (p_states p) \<and> stack_ok (p_marks p) \<and> stack_ok (p_tag_directives p)"

definition control_inv :: "'h yaml_parser \<Rightarrow> bool" where
  "control_inv p \<longleftrightarrow> state_wf (p_state p) (stk p)
     \<and> length (elems (p_marks p)) = marks_needed (p_state p) (stk p)
     \<and> (\<forall>tt. first_token (p_state p) = Some tt \<longrightarrow> token_ready p tt)"

definition parser_inv :: "('h yaml_scanner \<Rightarrow> bool) \<Rightarrow> 'h yaml_parser \<Rightarrow> bool" where
  "parser_inv I p \<longleftrightarrow> control_inv p \<and>
     (if p_state p = YAML_PARSE_STREAM_START_STATE then start_inv I p
      else if p_state p = YAML_PARSE_END_STATE
      then p_stream_start_produced p \<and> p_stream_end_produced p \<and> p_error p = YAML_NO_ERROR
      else base_inv I p)"

subsection \<open>The contract of the scanner\<close>

text \<open>
  What the parser relies on in \<open>yaml_parser_fetch_more_tokens\<close>: it either delivers a token or reports
  an error; once it has delivered a token the stream is started; it does not touch the fields of the parser proper; it does not leak; and the measure
  \<open>left\<close>, an upper bound of the tokens to come, does not grow and decreases when a token is skipped.
  The scanner's own invariant \<open>I\<close> does not depend on the allocator.
\<close>

definition fetch_contract ::
    "('h yaml_parser, unit) prog \<Rightarrow> ('h yaml_scanner \<Rightarrow> bool) \<Rightarrow> ('h yaml_scanner \<Rightarrow> nat) \<Rightarrow> bool" where
  "fetch_contract fetch I left \<longleftrightarrow>
     (\<forall>p. I (scn p) \<and> \<not> p_token_available p \<and> p_error p = YAML_NO_ERROR \<and> \<not> p_stream_end_produced p \<longrightarrow>
        wp fetch
          (\<lambda>_ p'. I (scn p') \<and> left (scn p') \<le> left (scn p) \<and> p_token_available p' \<and> items (p_tokens p') \<noteq> []
             \<and> p_error p' = YAML_NO_ERROR \<and> p_stream_start_produced p' \<and> \<not> p_stream_end_produced p'
             \<and> yaml_scanner.more p' = yaml_scanner.more p \<and> balance p' = balance p)
          (\<lambda>p'. p_error p' \<noteq> YAML_COMPOSER_ERROR \<and> yaml_scanner.more p' = yaml_scanner.more p
             \<and> balance p' = balance p) p)
     \<and> (\<forall>p. I (scn p) \<and> p_token_available p \<and> items (p_tokens p) \<noteq> [] \<longrightarrow>
          wp SKIP_TOKEN (\<lambda>_ p'. I (scn p') \<and> left (scn p') < left (scn p)) (\<lambda>_. False) p)
     \<and> (\<forall>s h. I (s\<lparr>p_mem := h\<rparr>) = I s \<and> left (s\<lparr>p_mem := h\<rparr>) = left s)"

subsection \<open>Rules for the basic operations\<close>

text \<open>
  \<open>pview I left p s ss m tk n b\<close>: the parser \<open>p\<close> is in state \<open>s\<close> with the stack \<open>ss\<close> and \<open>m\<close> marks; the
  tokens available are \<open>tk\<close>, if known; at most \<open>n\<close> tokens are left; the balance is \<open>b\<close>.
\<close>

definition pview ::
    "('h yaml_scanner \<Rightarrow> bool) \<Rightarrow> ('h yaml_scanner \<Rightarrow> nat) \<Rightarrow> 'h yaml_parser \<Rightarrow> yaml_parser_state
     \<Rightarrow> yaml_parser_state list \<Rightarrow> nat \<Rightarrow> yaml_token list option \<Rightarrow> nat \<Rightarrow> int \<Rightarrow> bool" where
  "pview I left p s ss m tk n b \<longleftrightarrow> base_inv I p \<and> p_state p = s \<and> stk p = ss \<and> length (elems (p_marks p)) = m
     \<and> (case tk of None \<Rightarrow> True | Some ts \<Rightarrow> p_token_available p \<and> items (p_tokens p) = ts)
     \<and> left (scn p) \<le> n \<and> balance p = b"

definition failed :: "int \<Rightarrow> 'h yaml_parser \<Rightarrow> bool" where
  "failed b p \<longleftrightarrow> p_error p \<noteq> YAML_COMPOSER_ERROR \<and> balance p = b"

lemma scn_simps [simp]:
  "scn (p\<lparr>p_states := a\<rparr>) = scn p" "scn (p\<lparr>p_state := c\<rparr>) = scn p" "scn (p\<lparr>p_marks := d\<rparr>) = scn p"
  "scn (p\<lparr>p_tag_directives := e\<rparr>) = scn p" "scn (p\<lparr>p_mem := h\<rparr>) = (scn p)\<lparr>p_mem := h\<rparr>"
  by (simp_all add: yaml_scanner.truncate_def)

lemma more_eq:
  assumes "yaml_scanner.more p' = yaml_scanner.more (p :: 'h yaml_parser)"
  shows "p_states p' = p_states p" "p_state p' = p_state p" "p_marks p' = p_marks p"
    "p_tag_directives p' = p_tag_directives p"
  using assms by (cases p; cases p'; simp)+

lemma fetch_contract_mem:
  "fetch_contract fetch I left \<Longrightarrow> I (s\<lparr>p_mem := h\<rparr>) = I s \<and> left (s\<lparr>p_mem := h\<rparr>) = left s"
  unfolding fetch_contract_def by blast

lemma wp_PEEK_TOKEN:
  assumes C: "fetch_contract fetch I left" and p: "pview I left p s ss m tk n b"
    and Q: "\<And>t ts p'. pview I left p' s ss m (Some (t # ts)) n b \<Longrightarrow> (\<forall>ts'. tk = Some ts' \<longrightarrow> ts' = t # ts)
      \<Longrightarrow> Q t p'"
    and E: "\<And>p'. failed b p' \<Longrightarrow> E p'"
  shows "wp (PEEK_TOKEN fetch) Q E p"
proof -
  let ?head = "readM (\<lambda>p. case items (p_tokens p) of [] \<Rightarrow> faultM | t # _ \<Rightarrow> returnM t)"
  have head: "wp ?head Q E p'"
    if "pview I left p' s ss m (Some us) n b" "us \<noteq> []" "\<forall>ts'. tk = Some ts' \<longrightarrow> ts' = us" for p' us
    using that by (cases us) (auto simp: wp_simps pview_def intro!: Q)
  show ?thesis
  proof (cases "p_token_available p")
    case True
    have "wp ?head Q E p"
      by (rule head [of p "items (p_tokens p)"]) (use p True in \<open>auto simp: pview_def base_inv_def\<close>)
    with True show ?thesis by (simp add: PEEK_TOKEN_def wp_seqM wp_readM wp_returnM)
  next
    case False
    then have tk: "tk = None" using p by (auto simp: pview_def split: option.splits)
    have "wp fetch
          (\<lambda>_ p'. I (scn p') \<and> left (scn p') \<le> left (scn p) \<and> p_token_available p' \<and> items (p_tokens p') \<noteq> []
             \<and> p_error p' = YAML_NO_ERROR \<and> p_stream_start_produced p' \<and> \<not> p_stream_end_produced p'
             \<and> yaml_scanner.more p' = yaml_scanner.more p \<and> balance p' = balance p)
          (\<lambda>p'. p_error p' \<noteq> YAML_COMPOSER_ERROR \<and> yaml_scanner.more p' = yaml_scanner.more p
             \<and> balance p' = balance p) p"
      using C False p unfolding fetch_contract_def pview_def base_inv_def by blast
    then have "wp fetch (\<lambda>_. wp ?head Q E) E p"
    proof (rule wp_mono)
      fix a p'
      assume *: "I (scn p') \<and> left (scn p') \<le> left (scn p) \<and> p_token_available p' \<and> items (p_tokens p') \<noteq> []
             \<and> p_error p' = YAML_NO_ERROR \<and> p_stream_start_produced p' \<and> \<not> p_stream_end_produced p'
             \<and> yaml_scanner.more p' = yaml_scanner.more p \<and> balance p' = balance p"
      then show "wp ?head Q E p'" using p tk more_eq [of p' p]
        by (intro head [of p' "items (p_tokens p')"]) (auto simp: pview_def base_inv_def)
    qed (use p E in \<open>auto simp: failed_def pview_def\<close>)
    with False show ?thesis by (simp add: PEEK_TOKEN_def wp_seqM wp_readM)
  qed
qed

lemma balance_skip:
  assumes "items (p_tokens p) = t # ts"
  shows "balance (p\<lparr>p_token_available := a, p_tokens_parsed := c, p_stream_end_produced := d,
      p_tokens := (p_tokens p)\<lparr>front := f, items := ts\<rparr>\<rparr>) = balance p + token_blocks t"
  using assms by (simp add: balance_def parser_blocks_def)

lemma SKIP_TOKEN_eq:
  "items (p_tokens p) = t # ts \<Longrightarrow> SKIP_TOKEN p = Return () (p\<lparr>p_token_available := False,
     p_tokens_parsed := p_tokens_parsed p + 1, p_stream_end_produced := (t_type t = YAML_STREAM_END_TOKEN),
     p_tokens := (p_tokens p)\<lparr>front := front (p_tokens p) + 1, items := ts\<rparr>\<rparr>)"
  by (simp add: SKIP_TOKEN_def DEQUEUE_def)

lemma skip_contract:
  assumes "fetch_contract fetch I left" "I (scn p)" "p_token_available p" "items (p_tokens p) = t # ts"
    "SKIP_TOKEN p = Return () p'"
  shows "I (scn p') \<and> left (scn p') < left (scn p)"
proof -
  have "wp SKIP_TOKEN (\<lambda>_ p'. I (scn p') \<and> left (scn p') < left (scn p)) (\<lambda>_. False) p"
  proof -
    have "\<forall>p. I (scn p) \<and> p_token_available p \<and> items (p_tokens p) \<noteq> [] \<longrightarrow>
        wp SKIP_TOKEN (\<lambda>_ p'. I (scn p') \<and> left (scn p') < left (scn p)) (\<lambda>_. False) p"
      using assms(1) unfolding fetch_contract_def by (elim conjE)
    with assms(2-4) show ?thesis by simp
  qed
  from wp_Return [OF this assms(5)] show ?thesis .
qed

lemma wp_SKIP_TOKEN:
  assumes C: "fetch_contract fetch I left" and p: "pview I left p s ss m (Some (t # ts)) n b"
    and "t_type t \<noteq> YAML_STREAM_END_TOKEN"
    and Q: "\<And>p'. pview I left p' s ss m None (n - 1) (b + token_blocks t) \<Longrightarrow> 0 < n \<Longrightarrow> Q () p'"
  shows "wp SKIP_TOKEN Q E p"
proof -
  have it: "items (p_tokens p) = t # ts" using p by (simp add: pview_def)
  note eq = SKIP_TOKEN_eq [OF it]
  have I: "I (scn p)" "p_token_available p" using p by (simp_all add: pview_def base_inv_def)
  note sk = skip_contract [OF C I it eq]
  have "pview I left (p\<lparr>p_token_available := False, p_tokens_parsed := p_tokens_parsed p + 1,
      p_stream_end_produced := (t_type t = YAML_STREAM_END_TOKEN),
      p_tokens := (p_tokens p)\<lparr>front := front (p_tokens p) + 1, items := ts\<rparr>\<rparr>) s ss m None (n - 1) (b + token_blocks t)"
    using p sk assms(3) unfolding pview_def balance_skip [OF it] by (auto simp: base_inv_def)
  moreover have "0 < n" using sk p by (auto simp: pview_def)
  ultimately show ?thesis using Q eq by (simp add: wp_def)
qed

lemma balance_push:
  assumes "stack_ok st" "stack_ok (p_states p)" "live h = live (p_mem p)"
  shows "balance (p\<lparr>p_mem := h, p_states := st\<rparr>) = balance p"
  using assms by (auto simp: balance_def parser_blocks_def stack_ok_def)

lemma balance_push_mark:
  assumes "stack_ok st" "stack_ok (p_marks p)" "live h = live (p_mem p)"
  shows "balance (p\<lparr>p_mem := h, p_marks := st\<rparr>) = balance p"
  using assms by (auto simp: balance_def parser_blocks_def stack_ok_def)

lemma balance_simps [simp]:
  "balance (p\<lparr>p_state := s\<rparr>) = balance p" "balance (p\<lparr>p_error := e\<rparr>) = balance p"
  "balance (freeP f p) = balance p + (live (f (p_mem p)) - live (p_mem p))"
  "balance (p\<lparr>p_mem := h\<rparr>) = balance p + (live h - live (p_mem p))"
  by (simp_all add: balance_def parser_blocks_def freeP_def)

lemma wp_PUSH_STATE:
  assumes C: "fetch_contract fetch I left" and p: "pview I left p s ss m tk n b"
    and Q: "\<And>p'. pview I left p' s (x # ss) m tk n b \<Longrightarrow> Q () p'"
    and E: "\<And>p'. failed b p' \<Longrightarrow> E p'"
  shows "wp (PUSH_STATE x) Q E p"
proof -
  have ok: "stack_ok (p_states p)" using p by (simp add: pview_def base_inv_def)
  have "wp (PUSH x) (\<lambda>_ (st, h). Q () (p\<lparr>p_mem := h, p_states := st\<rparr>))
      (\<lambda>(st, h). E (p\<lparr>p_mem := h, p_error := YAML_MEMORY_ERROR, p_states := st\<rparr>)) (p_states p, p_mem p)"
  proof (rule wp_PUSH [OF ok])
    fix st' :: "yaml_parser_state ystack" and h' :: heap
    assume "stack_ok st'" "elems st' = elems (p_states p) @ [x]" "live h' = live (p_mem p)"
    with p ok show "case (st', h') of (st, h) \<Rightarrow> Q () (p\<lparr>p_mem := h, p_states := st\<rparr>)"
      by (auto intro!: Q simp: pview_def base_inv_def balance_push fetch_contract_mem [OF C] split: option.splits)
  next
    fix h' :: heap
    assume "live h' = live (p_mem p)"
    with p ok show "case (p_states p, h') of (st, h) \<Rightarrow> E (p\<lparr>p_mem := h, p_error := YAML_MEMORY_ERROR, p_states := st\<rparr>)"
      by (auto intro!: E simp: failed_def pview_def balance_def parser_blocks_def)
  qed
  then show ?thesis by (auto simp: wp_def PUSH_STATE_def push_stack_def split: result.splits)
qed

lemma wp_PUSH_MARK:
  assumes C: "fetch_contract fetch I left" and p: "pview I left p s ss m tk n b"
    and Q: "\<And>p'. pview I left p' s ss (Suc m) tk n b \<Longrightarrow> Q () p'"
    and E: "\<And>p'. failed b p' \<Longrightarrow> E p'"
  shows "wp (PUSH_MARK x) Q E p"
proof -
  have ok: "stack_ok (p_marks p)" using p by (simp add: pview_def base_inv_def)
  have "wp (PUSH x) (\<lambda>_ (st, h). Q () (p\<lparr>p_mem := h, p_marks := st\<rparr>))
      (\<lambda>(st, h). E (p\<lparr>p_mem := h, p_error := YAML_MEMORY_ERROR, p_marks := st\<rparr>)) (p_marks p, p_mem p)"
  proof (rule wp_PUSH [OF ok])
    fix st' :: "yaml_mark ystack" and h' :: heap
    assume "stack_ok st'" "elems st' = elems (p_marks p) @ [x]" "live h' = live (p_mem p)"
    with p ok show "case (st', h') of (st, h) \<Rightarrow> Q () (p\<lparr>p_mem := h, p_marks := st\<rparr>)"
      by (auto intro!: Q simp: pview_def base_inv_def balance_push_mark fetch_contract_mem [OF C] split: option.splits)
  next
    fix h' :: heap
    assume "live h' = live (p_mem p)"
    with p ok show "case (p_marks p, h') of (st, h) \<Rightarrow> E (p\<lparr>p_mem := h, p_error := YAML_MEMORY_ERROR, p_marks := st\<rparr>)"
      by (auto intro!: E simp: failed_def pview_def balance_def parser_blocks_def)
  qed
  then show ?thesis by (auto simp: wp_def PUSH_MARK_def push_stack_def split: result.splits)
qed

lemma wp_POP_STATE:
  assumes p: "pview I left p s (x # ss) m tk n b"
    and Q: "\<And>p'. pview I left p' x ss m tk n b \<Longrightarrow> Q () p'"
  shows "wp POP_STATE Q E p"
proof -
  from p have "rev (elems (p_states p)) = x # ss" "stack_ok (p_states p)" by (simp_all add: pview_def base_inv_def)
  then have st: "elems (p_states p) = rev ss @ [x]" by (simp add: rev_eq_Cons_iff)
  show ?thesis unfolding POP_STATE_def wp_bindM wp_zoomM wp_modifyM
    by (rule wp_POP [OF \<open>stack_ok _\<close> st])
      (use p in \<open>auto intro!: Q simp: pview_def base_inv_def balance_def parser_blocks_def stack_ok_def split: option.splits\<close>)
qed

lemma wp_POP_MARK:
  assumes p: "pview I left p s ss (Suc m) tk n b"
    and Q: "\<And>x p'. pview I left p' s ss m tk n b \<Longrightarrow> Q x p'"
  shows "wp POP_MARK Q E p"
proof -
  from p have "length (elems (p_marks p)) = Suc m" "stack_ok (p_marks p)" by (simp_all add: pview_def base_inv_def)
  then obtain xs x where st: "elems (p_marks p) = xs @ [x]" by (cases "elems (p_marks p)" rule: rev_cases) auto
  show ?thesis unfolding POP_MARK_def wp_zoomM
    by (rule wp_POP [OF \<open>stack_ok _\<close> st])
      (use p st in \<open>auto intro!: Q simp: pview_def base_inv_def balance_def parser_blocks_def stack_ok_def split: option.splits\<close>)
qed

lemma pview_set_state: "pview I left p s ss m tk n b \<Longrightarrow> pview I left (p\<lparr>p_state := x\<rparr>) x ss m tk n b"
  by (auto simp: pview_def base_inv_def split: option.splits)

lemma pview_freeP:
  assumes "fetch_contract fetch I left" "pview I left p s ss m tk n b" "\<And>h. live (f h) = live h - k"
  shows "pview I left (freeP f p) s ss m tk n (b - k)"
  using assms(2,3) fetch_contract_mem [OF assms(1)]
  by (auto simp: pview_def base_inv_def) (auto simp: freeP_def split: option.splits)

lemma failed_freeP: "failed b p \<Longrightarrow> (\<And>h. live (f h) = live h - k) \<Longrightarrow> failed (b - k) (freeP f p)"
  by (simp add: failed_def) (simp add: freeP_def)

lemma wp_parser_malloc:
  assumes C: "fetch_contract fetch I left" and p: "pview I left p s ss m tk n b"
    and Q: "\<And>p'. pview I left p' s ss m tk n (b + 1) \<Longrightarrow> Q () p'"
    and E: "\<And>p'. failed b p' \<Longrightarrow> E p'"
  shows "wp (parser_malloc k) Q E p"
  unfolding parser_malloc_def wp_memP wp_bindM
  by (rule wp_yaml_malloc)
    (use p fetch_contract_mem [OF C] in \<open>auto intro!: Q E simp: wp_simps pview_def base_inv_def failed_def split: option.splits\<close>)

subsection \<open>The result of a handler\<close>

text \<open>
  The measure that every event decreases: mostly the tokens left, then the depth of the stack, then
  the number of events that a state may produce without consuming a token.
\<close>

fun rank :: "yaml_parser_state \<Rightarrow> nat" where
  "rank YAML_PARSE_IMPLICIT_DOCUMENT_START_STATE = 5"
| "rank YAML_PARSE_FLOW_SEQUENCE_ENTRY_MAPPING_KEY_STATE = 4"
| "rank YAML_PARSE_FLOW_SEQUENCE_ENTRY_MAPPING_VALUE_STATE = 2"
| "rank YAML_PARSE_FLOW_SEQUENCE_ENTRY_MAPPING_END_STATE = 1"
| "rank YAML_PARSE_DOCUMENT_CONTENT_STATE = 1"
| "rank YAML_PARSE_DOCUMENT_END_STATE = 1"
| "rank YAML_PARSE_BLOCK_NODE_STATE = 1"
| "rank YAML_PARSE_BLOCK_NODE_OR_INDENTLESS_SEQUENCE_STATE = 1"
| "rank YAML_PARSE_FLOW_NODE_STATE = 1"
| "rank YAML_PARSE_BLOCK_MAPPING_VALUE_STATE = 1"
| "rank YAML_PARSE_FLOW_MAPPING_VALUE_STATE = 1"
| "rank YAML_PARSE_FLOW_MAPPING_EMPTY_VALUE_STATE = 1"
| "rank _ = 0"

definition mu :: "nat \<Rightarrow> yaml_parser_state \<Rightarrow> yaml_parser_state list \<Rightarrow> nat" where
  "mu n s ss = 16 * n + 3 * length ss + rank s"

definition work :: "('h yaml_scanner \<Rightarrow> nat) \<Rightarrow> 'h yaml_parser \<Rightarrow> nat" where
  "work left p = mu (left (scn p)) (p_state p) (stk p)"

definition parsed ::
    "('h yaml_scanner \<Rightarrow> bool) \<Rightarrow> ('h yaml_scanner \<Rightarrow> nat) \<Rightarrow> astate \<Rightarrow> nat \<Rightarrow> int \<Rightarrow> yaml_event
     \<Rightarrow> 'h yaml_parser \<Rightarrow> bool" where
  "parsed I left a k b e p' \<longleftrightarrow> parser_inv I p'
     \<and> accept a (ev_type e) = Some (abs_state (p_state p') (stk p'))
     \<and> balance p' = b + event_blocks e \<and> work left p' < k"

text \<open>Fine-grained: what has to be checked of a new control state.\<close>

definition next_ok :: "yaml_parser_state \<Rightarrow> yaml_parser_state list \<Rightarrow> nat \<Rightarrow> yaml_token list option \<Rightarrow> bool" where
  "next_ok s ss m tk \<longleftrightarrow> s \<noteq> YAML_PARSE_STREAM_START_STATE \<and> s \<noteq> YAML_PARSE_END_STATE \<and> state_wf s ss \<and> m = marks_needed s ss
     \<and> (\<forall>tt. first_token s = Some tt \<longrightarrow> (\<exists>t ts. tk = Some (t # ts) \<and> t_type t = tt))"

lemma parsedI:
  assumes p: "pview I left p' s ss m tk n (b + event_data_blocks d)" and nxt: "next_ok s ss m tk"
    and "accept a (event_data_type d) = Some (abs_state s ss)" "mu n s ss < k"
  shows "parsed I left a k b (EVENT_INIT d x y) p'"
proof -
  have "left (scn p') \<le> n" "p_state p' = s" "stk p' = ss" using p by (simp_all add: pview_def)
  then have "work left p' < k" using assms(4) by (simp add: work_def mu_def)
  moreover have "control_inv p'"
    using p nxt by (auto simp: control_inv_def pview_def next_ok_def token_ready_def)
  ultimately show ?thesis using p nxt assms(3)
    by (simp add: parsed_def parser_inv_def pview_def next_ok_def EVENT_INIT_def ev_type_def event_blocks_def)
qed

lemma pview_mono: "pview I left p s ss m tk n b \<Longrightarrow> n \<le> n' \<Longrightarrow> pview I left p s ss m tk n' b"
  by (simp add: pview_def)

lemma next_ok_resume:
  "stack_wf (s # ss) \<Longrightarrow> m = sum_list (map state_marks (s # ss)) \<Longrightarrow> next_ok s ss m tk"
  using state_wf_resume [of s ss]
  by (cases s) (auto simp: next_ok_def marks_needed_def inner_state_def split: if_splits)

lemma rank_resume: "stack_wf (s # ss) \<Longrightarrow> rank s \<le> 2"
  by (cases s) (auto simp: inner_state_def split: if_splits)

lemma token_blocks_type:
  "token_blocks t = (case t_type t of YAML_TAG_DIRECTIVE_TOKEN \<Rightarrow> 2 | YAML_ALIAS_TOKEN \<Rightarrow> 1
     | YAML_ANCHOR_TOKEN \<Rightarrow> 1 | YAML_TAG_TOKEN \<Rightarrow> 2 | YAML_SCALAR_TOKEN \<Rightarrow> 1 | _ \<Rightarrow> 0)"
  by (cases "t_data t") (simp_all add: token_blocks_def t_type_def)

text \<open>A scalar or an alias is complete: the state on top of the stack is resumed.\<close>

lemma parsed_scalar:
  assumes "pview I left p' x ss m tk n (b + event_data_blocks d)" "stack_wf (x # ss)"
    "m = sum_list (map state_marks (x # ss))" "mu n x ss < k"
    "event_data_type d = YAML_SCALAR_EVENT \<or> event_data_type d = YAML_ALIAS_EVENT"
  shows "parsed I left (ANode (frames (x # ss))) k b (EVENT_INIT d y z) p'"
  by (rule parsedI [OF assms(1) next_ok_resume [OF assms(2,3)] _ assms(4)])
    (use assms(2,5) after_node_resume in auto)

lemma wp_process_empty_scalar:
  assumes C: "fetch_contract fetch I left" and p: "pview I left p s ss m tk n b" and nxt: "next_ok s ss m tk"
    and a: "accept a YAML_SCALAR_EVENT = Some (abs_state s ss)" "mu n s ss < k"
  shows "wp (yaml_parser_process_empty_scalar mark) (parsed I left a k b) (failed b) p"
  unfolding yaml_parser_process_empty_scalar_def wp_seqM
  by (rule wp_parser_malloc [OF C p])
    (use nxt a in \<open>auto simp: wp_returnM event_data_blocks_def intro!: parsedI\<close>)

text \<open>A token whose strings are taken over is skipped; where the next one is missing they are freed.\<close>

lemma wp_take_token:
  fixes p :: "'h yaml_parser"
  assumes C: "fetch_contract fetch I left" and p: "pview I left p s ss m (Some (t # ts)) n b"
    and t: "t_type t \<noteq> YAML_STREAM_END_TOKEN" and g: "\<And>h. live (g h) = live h - token_blocks t"
    and Q: "\<And>t' ts' p'. pview I left p' s ss m (Some (t' # ts')) n (b + token_blocks t)
      \<Longrightarrow> wp (f t') Q (\<lambda>p'. E (freeP g p')) p'"
    and E: "\<And>p'. failed b p' \<Longrightarrow> E p'"
  shows "wp (seqM SKIP_TOKEN (cleanupM (bindM (PEEK_TOKEN fetch) f) (freeP g))) Q E p"
  unfolding wp_seqM wp_cleanupM wp_bindM
proof (rule wp_SKIP_TOKEN [OF C p t])
  fix p'
  assume p': "pview I left p' s ss m None (n - 1) (b + token_blocks t)"
  show "wp (PEEK_TOKEN fetch) (\<lambda>a. wp (f a) Q (\<lambda>s'. E (freeP g s'))) (\<lambda>s'. E (freeP g s')) p'"
  proof (rule wp_PEEK_TOKEN [OF C p'])
    fix p'' :: "'h yaml_parser"
    assume "failed (b + token_blocks t) p''"
    from failed_freeP [OF this g] show "E (freeP g p'')" by (intro E) simp
  qed (auto intro!: Q elim: pview_mono)
qed

lemma wp_parse_properties:
  assumes C: "fetch_contract fetch I left" and p: "pview I left p s ss m (Some (token # ts)) n b"
    and Q: "\<And>anchor tag sm em t ts' p'. pview I left p' s ss m (Some (t # ts')) n
        (b + string_blocks anchor + (if tag = None then 0 else 2)) \<Longrightarrow> Q ((anchor, tag, sm, em), t) p'"
    and E: "\<And>p'. failed b p' \<Longrightarrow> E p'"
  shows "wp (parse_properties fetch token) Q E p"
proof -
  have E1: "failed (b + 1) p' \<Longrightarrow> E (freeP (yaml_free True) p')" for p'
    using failed_freeP [of "b + 1" p' "yaml_free True" 1] by (auto intro: E)
  have E2: "failed (b + 2) p' \<Longrightarrow> E (freeP free2 p')" for p'
    using failed_freeP [of "b + 2" p' free2 2] by (auto intro: E)
  consider (anchor) a where "t_data token = AnchorToken a" | (tag) h sf where "t_data token = TagToken h sf"
    | (none) "\<forall>a. t_data token \<noteq> AnchorToken a" "\<forall>h sf. t_data token \<noteq> TagToken h sf" by blast
  then show ?thesis
  proof cases
    case anchor
    then have t: "t_type token \<noteq> YAML_STREAM_END_TOKEN" "token_blocks token = 1"
      by (simp_all add: t_type_def token_blocks_def)
    show ?thesis unfolding parse_properties_def anchor yaml_token_data.case
    proof (rule wp_take_token [OF C p t(1)])
      fix t1 ts1 p1
      assume p1: "pview I left p1 s ss m (Some (t1 # ts1)) n (b + token_blocks token)"
      note p1' = p1 [unfolded t(2)]
      show "wp (case t_data t1 of TagToken h sf \<Rightarrow>
              seqM SKIP_TOKEN (cleanupM (bindM (PEEK_TOKEN fetch) (\<lambda>token2. returnM
                ((Some a, Some (h, sf, t_start_mark t1), t_start_mark token, t_end_mark t1), token2))) (freeP free2))
          | _ \<Rightarrow> returnM ((Some a, None, t_start_mark token, t_end_mark token), t1)) Q
          (\<lambda>p'. E (freeP (yaml_free True) p')) p1"
      proof (cases "t_data t1")
        case (TagToken h sf)
        then have t1: "t_type t1 \<noteq> YAML_STREAM_END_TOKEN" "token_blocks t1 = 2"
          by (simp_all add: t_type_def token_blocks_def)
        show ?thesis unfolding TagToken yaml_token_data.case
          by (rule wp_take_token [OF C p1' t1(1)])
            (use t1 in \<open>auto simp: wp_returnM string_blocks_def algebra_simps intro!: Q E1\<close>)
      qed (use p1' in \<open>auto simp: wp_returnM intro!: Q\<close>)
    qed (use t E in auto)
  next
    case tag
    then have t: "t_type token \<noteq> YAML_STREAM_END_TOKEN" "token_blocks token = 2"
      by (simp_all add: t_type_def token_blocks_def)
    show ?thesis unfolding parse_properties_def tag yaml_token_data.case
    proof (rule wp_take_token [OF C p t(1)])
      fix t1 ts1 p1
      assume p1: "pview I left p1 s ss m (Some (t1 # ts1)) n (b + token_blocks token)"
      note p1' = p1 [unfolded t(2)]
      show "wp (case t_data t1 of AnchorToken a \<Rightarrow>
              seqM SKIP_TOKEN (cleanupM (bindM (PEEK_TOKEN fetch) (\<lambda>token2. returnM
                ((Some a, Some (h, sf, t_start_mark token), t_start_mark token, t_end_mark t1), token2)))
                (freeP (yaml_free True)))
          | _ \<Rightarrow> returnM ((None, Some (h, sf, t_start_mark token), t_start_mark token, t_end_mark token), t1)) Q
          (\<lambda>p'. E (freeP free2 p')) p1"
      proof (cases "t_data t1")
        case (AnchorToken a)
        then have t1: "t_type t1 \<noteq> YAML_STREAM_END_TOKEN" "token_blocks t1 = 1"
          by (simp_all add: t_type_def token_blocks_def)
        show ?thesis unfolding AnchorToken yaml_token_data.case
          by (rule wp_take_token [OF C p1' t1(1)])
            (use t1 in \<open>auto simp: wp_returnM string_blocks_def algebra_simps intro!: Q E2\<close>)
      qed (use p1' in \<open>auto simp: wp_returnM intro!: Q\<close>)
    qed (use t E in auto)
  next
    case none
    then have "parse_properties fetch token = returnM ((None, None, t_start_mark token, t_start_mark token), token)"
      by (cases "t_data token") (auto simp: parse_properties_def)
    with p show ?thesis by (auto simp: wp_returnM intro!: Q)
  qed
qed

lemma wp_resolve_tag:
  fixes p :: "'h yaml_parser"
  assumes C: "fetch_contract fetch I left" and p: "pview I left p s ss m tk n (b + (if t = None then 0 else 2))"
    and Q: "\<And>tag p'. pview I left p' s ss m tk n (b + string_blocks tag) \<Longrightarrow> Q tag p'"
    and E: "\<And>p'. failed b p' \<Longrightarrow> E p'"
  shows "wp (resolve_tag t start_mark) Q E p"
proof -
  have E2: "failed (b + 2) p' \<Longrightarrow> E (freeP free2 p')" for p'
    using failed_freeP [of "b + 2" p' free2 2] by (auto intro: E)
  show ?thesis
  proof (cases t)
    case None
    with p Q show ?thesis by (simp add: resolve_tag_def wp_returnM)
  next
    case (Some x)
    obtain handle sf tag_mark where t: "t = Some (handle, sf, tag_mark)" using Some by (cases x) auto
    then have p2: "pview I left p s ss m tk n (b + 2)" using p by simp
    consider (verbatim) "c_str handle = []"
      | (known) td where "c_str handle \<noteq> []" "find (\<lambda>td. streq (td_handle td) handle) (elems (p_tag_directives p)) = Some td"
      | (unknown) "c_str handle \<noteq> []" "find (\<lambda>td. streq (td_handle td) handle) (elems (p_tag_directives p)) = None"
      by fastforce
    then show ?thesis
    proof cases
      case verbatim
      have "pview I left (freeP (yaml_free True) p) s ss m tk n (b + 1)"
        using pview_freeP [OF C p2, of "yaml_free True" 1] by (simp add: add.commute)
      with verbatim t show ?thesis by (auto simp: resolve_tag_def wp_simps intro!: Q)
    next
      case known
      have "wp (parser_malloc (strlen (td_prefix td) + strlen sf + 1))
          (\<lambda>_ p. Q (Some (c_str (td_prefix td) @ c_str sf)) (freeP free2 p)) (\<lambda>p. E (freeP free2 p)) p"
      proof (rule wp_parser_malloc [OF C p2])
        fix p'
        assume "pview I left p' s ss m tk n (b + 2 + 1)"
        from pview_freeP [OF C this, of free2 2]
        show "Q (Some (c_str (td_prefix td) @ c_str sf)) (freeP free2 p')" by (auto intro!: Q simp: add.commute)
      qed (rule E2)
      with known t show ?thesis by (auto simp: resolve_tag_def wp_simps elim!: wp_mono)
    next
      case unknown
      have "E (freeP free2 (p\<lparr>p_error := YAML_PARSER_ERROR, p_context := ''while parsing a node'',
          p_context_mark := start_mark, p_problem := ''found undefined tag handle'', p_problem_mark := tag_mark\<rparr>))"
        using p2 by (intro E2) (auto simp: failed_def pview_def balance_def parser_blocks_def)
      with unknown t show ?thesis
        by (simp add: resolve_tag_def wp_simps yaml_parser_set_parser_error_context_def)
    qed
  qed
qed

text \<open>Setting the parser's error keeps the balance.\<close>

lemma failed_error:
  "pview I left p s ss m tk n b \<Longrightarrow> failed b (p\<lparr>p_error := YAML_PARSER_ERROR, p_problem := x, p_problem_mark := y\<rparr>)"
  "pview I left p s ss m tk n b \<Longrightarrow> failed b (p\<lparr>p_error := YAML_PARSER_ERROR, p_context := c, p_context_mark := d,
     p_problem := x, p_problem_mark := y\<rparr>)"
  by (auto simp: failed_def pview_def balance_def parser_blocks_def)

lemma parsed_collection:
  assumes "pview I left p s ss m tk n (b + event_data_blocks d)" "stack_wf ss" "m = sum_list (map state_marks ss)"
    "16 * n + 3 * length ss < k" "(q, event_data_type d) \<in> {
      (YAML_PARSE_INDENTLESS_SEQUENCE_ENTRY_STATE, YAML_SEQUENCE_START_EVENT),
      (YAML_PARSE_FLOW_SEQUENCE_FIRST_ENTRY_STATE, YAML_SEQUENCE_START_EVENT),
      (YAML_PARSE_BLOCK_SEQUENCE_FIRST_ENTRY_STATE, YAML_SEQUENCE_START_EVENT),
      (YAML_PARSE_FLOW_MAPPING_FIRST_KEY_STATE, YAML_MAPPING_START_EVENT),
      (YAML_PARSE_BLOCK_MAPPING_FIRST_KEY_STATE, YAML_MAPPING_START_EVENT)}"
    "\<forall>tt. first_token q = Some tt \<longrightarrow> (\<exists>t ts. tk = Some (t # ts) \<and> t_type t = tt)"
  shows "parsed I left (ANode (frames ss)) k b (EVENT_INIT d y z) (p\<lparr>p_state := q\<rparr>)"
proof (rule parsedI [OF pview_set_state [OF assms(1), of q]])
  show "next_ok q ss m tk"
    using assms(2,3,5,6) by (auto simp: next_ok_def state_wf_def between_nodes_def marks_needed_def)
  show "accept (ANode (frames ss)) (event_data_type d) = Some (abs_state q ss)" using assms(5) by auto
  show "mu n q ss < k" using assms(4,5) by (auto simp: mu_def)
qed

lemma wp_parse_node_content:
  assumes C: "fetch_contract fetch I left"
    and p: "pview I left p s ss m (Some (t # ts)) n (b + string_blocks anchor + string_blocks tag)"
    and wf: "stack_wf ss" "m = sum_list (map state_marks ss)" "16 * n + 3 * length ss < k"
  shows "wp (parse_node_content block indentless anchor tag sm em t) (parsed I left (ANode (frames ss)) k b)
    (failed (b + string_blocks anchor + string_blocks tag)) p"
proof -
  let ?b = "b + string_blocks anchor + string_blocks tag"
  obtain x ss' where ss: "ss = x # ss'" using wf(1) by (cases ss) auto
  have rank: "rank x \<le> 2" using wf(1) rank_resume by (simp add: ss)
  note coll = parsed_collection [OF _ wf]
  have seq: "wp (seqM (set_state q) (event (SequenceStartEvent anchor tag impl style) sm em'))
      (parsed I left (ANode (frames ss)) k b) (failed ?b) p"
    if "q \<in> {YAML_PARSE_INDENTLESS_SEQUENCE_ENTRY_STATE, YAML_PARSE_FLOW_SEQUENCE_FIRST_ENTRY_STATE,
        YAML_PARSE_BLOCK_SEQUENCE_FIRST_ENTRY_STATE}" "\<forall>tt. first_token q = Some tt \<longrightarrow> t_type t = tt" for q impl style em'
    using that p by (auto simp: wp_simps event_data_blocks_def add.assoc intro!: coll)
  have mp: "wp (seqM (set_state q) (event (MappingStartEvent anchor tag impl style) sm em'))
      (parsed I left (ANode (frames ss)) k b) (failed ?b) p"
    if "q \<in> {YAML_PARSE_FLOW_MAPPING_FIRST_KEY_STATE, YAML_PARSE_BLOCK_MAPPING_FIRST_KEY_STATE}"
      "\<forall>tt. first_token q = Some tt \<longrightarrow> t_type t = tt" for q impl style em'
    using that p by (auto simp: wp_simps event_data_blocks_def add.assoc intro!: coll)
  have scalar: "wp (seqM POP_STATE (seqM SKIP_TOKEN (event (ScalarEvent anchor tag v plain quoted style) sm em')))
      (parsed I left (ANode (frames ss)) k b) (failed ?b) p" if t: "t_type t = YAML_SCALAR_TOKEN" for v plain quoted style em'
    unfolding wp_seqM
  proof (rule wp_POP_STATE [OF p [unfolded ss]])
    fix p1
    assume p1: "pview I left p1 x ss' m (Some (t # ts)) n ?b"
    show "wp SKIP_TOKEN (\<lambda>_. wp (event (ScalarEvent anchor tag v plain quoted style) sm em')
        (parsed I left (ANode (frames ss)) k b) (failed ?b)) (failed ?b) p1"
      by (rule wp_SKIP_TOKEN [OF C p1])
        (use t wf rank in \<open>auto simp: ss wp_returnM token_blocks_type event_data_blocks_def mu_def add.assoc intro!: parsed_scalar\<close>)
  qed
  have empty: "wp (seqM (parser_malloc 1) (seqM POP_STATE (event (ScalarEvent anchor tag [] impl False style) sm em)))
      (parsed I left (ANode (frames ss)) k b) (failed ?b) p" for impl style
    unfolding wp_seqM
  proof (rule wp_parser_malloc [OF C p])
    fix p1
    assume p1: "pview I left p1 s ss m (Some (t # ts)) n (?b + 1)"
    show "wp POP_STATE (\<lambda>_. wp (event (ScalarEvent anchor tag [] impl False style) sm em)
        (parsed I left (ANode (frames ss)) k b) (failed ?b)) (failed ?b) p1"
      by (rule wp_POP_STATE [OF p1 [unfolded ss]])
        (use wf rank in \<open>auto simp: ss wp_returnM event_data_blocks_def mu_def add.assoc intro!: parsed_scalar\<close>)
  qed
  have err: "failed ?b (p\<lparr>p_error := YAML_PARSER_ERROR, p_context := c, p_context_mark := d,
     p_problem := x', p_problem_mark := y'\<rparr>)" for c d x' y'
    by (rule failed_error(2) [OF p])
  then have err0: "anchor = None \<Longrightarrow> tag = None \<Longrightarrow> failed b (p\<lparr>p_error := YAML_PARSER_ERROR, p_context := c,
     p_context_mark := d, p_problem := x', p_problem_mark := y'\<rparr>)" for c d x' y' by simp
  show ?thesis
    by (cases "t_data t")
      (simp_all add: parse_node_content_def Let_def t_type_def wp_if wp_errorM
        yaml_parser_set_parser_error_context_def err0 seq mp scalar empty del: One_nat_def)
qed

lemma wp_parse_node:
  fixes p :: "'h yaml_parser"
  assumes C: "fetch_contract fetch I left" and p: "pview I left p s ss m tk n b"
    and wf: "stack_wf ss" "m = sum_list (map state_marks ss)" "16 * n + 3 * length ss < k"
  shows "wp (yaml_parser_parse_node fetch block indentless) (parsed I left (ANode (frames ss)) k b) (failed b) p"
  unfolding yaml_parser_parse_node_def wp_bindM
proof (rule wp_PEEK_TOKEN [OF C p])
  fix t ts p1
  assume p1: "pview I left p1 s ss m (Some (t # ts)) n b"
  obtain x ss' where ss: "ss = x # ss'" using wf(1) by (cases ss) auto
  have rank: "rank x \<le> 2" using wf(1) rank_resume by (simp add: ss)
  let ?rest = "bindM (parse_properties fetch t) (\<lambda>((anchor, tag, sm, em), t').
      cleanupM (bindM (resolve_tag tag sm) (\<lambda>tag'.
          cleanupM (parse_node_content block indentless anchor tag' sm em t') (freeP (free_string tag'))))
        (freeP (free_string anchor)))"
  have rest: "wp ?rest (parsed I left (ANode (frames ss)) k b) (failed b) p1"
    unfolding wp_bindM
  proof (rule wp_parse_properties [OF C p1], simp only: prod.case wp_cleanupM wp_bindM)
    fix anchor :: "ystring option" and tag :: "(ystring \<times> ystring \<times> yaml_mark) option"
      and sm em t' ts' and p2 :: "'h yaml_parser"
    assume p2: "pview I left p2 s ss m (Some (t' # ts')) n (b + string_blocks anchor + (if tag = None then 0 else 2))"
    have Ea: "failed b (freeP (free_string anchor) q)" if "failed (b + string_blocks anchor) q" for q :: "'h yaml_parser"
      using failed_freeP [OF that, of "free_string anchor" "string_blocks anchor"] by simp
    show "wp (resolve_tag tag sm)
        (\<lambda>tag'. wp (cleanupM (parse_node_content block indentless anchor tag' sm em t') (freeP (free_string tag')))
           (parsed I left (ANode (frames ss)) k b) (\<lambda>q. failed b (freeP (free_string anchor) q)))
        (\<lambda>q. failed b (freeP (free_string anchor) q)) p2"
    proof (rule wp_resolve_tag [OF C p2], simp only: wp_cleanupM)
      fix tag' and p3 :: "'h yaml_parser"
      assume p3: "pview I left p3 s ss m (Some (t' # ts')) n (b + string_blocks anchor + string_blocks tag')"
      show "wp (parse_node_content block indentless anchor tag' sm em t') (parsed I left (ANode (frames ss)) k b)
         (\<lambda>q. failed b (freeP (free_string anchor) (freeP (free_string tag') q))) p3"
      proof (rule wp_mono [OF wp_parse_node_content [OF C p3 wf]])
        fix q :: "'h yaml_parser"
        assume "failed (b + string_blocks anchor + string_blocks tag') q"
        from failed_freeP [OF this, of "free_string tag'" "string_blocks tag'"]
        show "failed b (freeP (free_string anchor) (freeP (free_string tag') q))" by (intro Ea) simp
      qed
    qed (rule Ea)
  qed
  have al: "wp (seqM POP_STATE (seqM SKIP_TOKEN (event (AliasEvent v) (t_start_mark t) (t_end_mark t))))
      (parsed I left (ANode (frames ss)) k b) (failed b) p1" if t: "t_type t = YAML_ALIAS_TOKEN" for v
    unfolding wp_seqM
  proof (rule wp_POP_STATE [OF p1 [unfolded ss]])
    fix p2
    assume p2: "pview I left p2 x ss' m (Some (t # ts)) n b"
    show "wp SKIP_TOKEN (\<lambda>_. wp (event (AliasEvent v) (t_start_mark t) (t_end_mark t))
        (parsed I left (ANode (frames ss)) k b) (failed b)) (failed b) p2"
      by (rule wp_SKIP_TOKEN [OF C p2])
        (use t wf rank in \<open>auto simp: ss wp_returnM token_blocks_type event_data_blocks_def mu_def intro!: parsed_scalar\<close>)
  qed
  show "wp (case t_data t of AliasToken v \<Rightarrow>
        seqM POP_STATE (seqM SKIP_TOKEN (event (AliasEvent v) (t_start_mark t) (t_end_mark t)))
      | _ \<Rightarrow> ?rest) (parsed I left (ANode (frames ss)) k b) (failed b) p1"
    using rest al by (cases "t_data t") (simp_all add: t_type_def)
qed simp

subsection \<open>Collections\<close>

text \<open>A node or an empty scalar in the context of the state \<open>r\<close> that is resumed after it.\<close>

lemma wp_node_in:
  assumes C: "fetch_contract fetch I left" and p: "pview I left p s ss m tk n b"
    and r: "inner_state r" "stack_wf ss" "m = marks_needed r ss" "16 * n + 3 * length ss + 3 < k"
  shows "wp (seqM (PUSH_STATE r) (yaml_parser_parse_node fetch block indentless))
      (parsed I left (ANode (frames (r # ss))) k b) (failed b) p"
  unfolding wp_seqM
proof (rule wp_PUSH_STATE [OF C p])
  fix p'
  assume p': "pview I left p' s (r # ss) m tk n b"
  show "wp (yaml_parser_parse_node fetch block indentless) (parsed I left (ANode (frames (r # ss))) k b) (failed b) p'"
    by (rule wp_parse_node [OF C p']) (use r in \<open>auto simp: marks_needed_def\<close>)
qed simp

lemma wp_empty_in:
  assumes C: "fetch_contract fetch I left" and p: "pview I left p s ss m tk n b"
    and r: "inner_state r" "stack_wf ss" "m = marks_needed r ss" "16 * n + 3 * length ss + rank r < k"
  shows "wp (seqM (set_state r) (yaml_parser_process_empty_scalar mark))
      (parsed I left (ANode (frames (r # ss))) k b) (failed b) p"
proof -
  have wf: "stack_wf (r # ss)" using r by (cases ss) auto
  have "wp (yaml_parser_process_empty_scalar mark) (parsed I left (ANode (frames (r # ss))) k b) (failed b) (p\<lparr>p_state := r\<rparr>)"
    by (rule wp_process_empty_scalar [OF C pview_set_state [OF p] next_ok_resume [OF wf]])
      (use r wf after_node_resume [OF wf] in \<open>auto simp: marks_needed_def mu_def\<close>)
  then show ?thesis by (simp add: wp_simps)
qed

lemma inner_rank: "inner_state r \<Longrightarrow> rank r \<le> 2"
  by (cases r) (auto simp: inner_state_def)

lemma wp_entry_node:
  assumes C: "fetch_contract fetch I left" and p: "pview I left p s ss m tk n b"
    and r: "inner_state r" "stack_wf ss" "m = marks_needed r ss" "16 * n + 3 * length ss + 3 < k"
  shows "wp (entry_node fetch stop r block indentless mark) (parsed I left (ANode (frames (r # ss))) k b) (failed b) p"
  unfolding entry_node_def wp_bindM
  by (rule wp_PEEK_TOKEN [OF C p])
    (use r inner_rank [OF r(1)] in \<open>auto simp: wp_if intro!: wp_node_in [OF C] wp_empty_in [OF C]\<close>)

lemma wp_close_collection:
  assumes C: "fetch_contract fetch I left" and p: "pview I left p s ss m (Some (t # ts)) n b"
    and t: "t_type t \<noteq> YAML_STREAM_END_TOKEN" "token_blocks t = 0"
    and wf: "stack_wf ss" "m = Suc (sum_list (map state_marks ss))" "16 * n + 3 * length ss \<le> k"
    and d: "event_data_type d = YAML_SEQUENCE_END_EVENT \<and> f = InSeq
      \<or> event_data_type d = YAML_MAPPING_END_EVENT \<and> f = AtKey" "event_data_blocks d = 0"
  shows "wp (close_collection t d) (parsed I left (ANode (f # frames ss)) k b) (failed b) p"
proof -
  obtain x ss' where ss: "ss = x # ss'" using wf(1) by (cases ss) auto
  have rank: "rank x \<le> 2" using wf(1) rank_resume by (simp add: ss)
  have acc: "accept (ANode (f # frames ss)) (event_data_type d) = Some (abs_state x ss')"
    using d(1) after_node_resume [of x ss'] wf(1) by (auto simp: ss)
  show ?thesis unfolding close_collection_def wp_seqM [of POP_STATE] wp_bindM
  proof (rule wp_POP_STATE [OF p [unfolded ss]])
    fix p1
    assume p1: "pview I left p1 x ss' m (Some (t # ts)) n b"
    show "wp POP_MARK (\<lambda>_. wp (seqM SKIP_TOKEN (event d (t_start_mark t) (t_end_mark t)))
        (parsed I left (ANode (f # frames ss)) k b) (failed b)) (failed b) p1"
    proof (rule wp_POP_MARK [OF p1 [unfolded wf(2)]], simp only: wp_seqM)
      fix p2
      assume p2: "pview I left p2 x ss' (sum_list (map state_marks ss)) (Some (t # ts)) n b"
      show "wp SKIP_TOKEN (\<lambda>_. wp (event d (t_start_mark t) (t_end_mark t))
          (parsed I left (ANode (f # frames ss)) k b) (failed b)) (failed b) p2"
      proof (rule wp_SKIP_TOKEN [OF C p2 t(1)], simp only: wp_returnM)
        fix p3
        assume p3: "pview I left p3 x ss' (sum_list (map state_marks ss)) None (n - 1) (b + token_blocks t)" "0 < n"
        show "parsed I left (ANode (f # frames ss)) k b (EVENT_INIT d (t_start_mark t) (t_end_mark t)) p3"
          by (rule parsedI [where tk = None and m = "sum_list (map state_marks ss)" and n = "n - 1", OF _ next_ok_resume acc])
            (use p3 t d wf rank in \<open>auto simp: ss mu_def\<close>)
      qed
    qed
  qed
qed

lemma wp_collection_error:
  assumes "pview I left p s ss (Suc m) tk n b"
  shows "wp (collection_error c x t) Q (failed b) p"
  unfolding collection_error_def wp_bindM
  by (rule wp_POP_MARK [OF assms])
    (auto simp: yaml_parser_set_parser_error_context_def wp_errorM intro: failed_error)

text \<open>The prologue of a first state; the token that starts the collection is there.\<close>

lemma wp_open_collection:
  assumes C: "fetch_contract fetch I left" and p: "pview I left p s ss m tk n b"
    and first: "first \<longrightarrow> (\<exists>t ts. tk = Some (t # ts) \<and> t_type t \<noteq> YAML_STREAM_END_TOKEN \<and> token_blocks t = 0)"
    and Q: "\<And>p'. pview I left p' s ss (if first then Suc m else m) None (if first then n - 1 else n) b
      \<Longrightarrow> first \<longrightarrow> 0 < n \<Longrightarrow> Q () p'"
    and E: "\<And>p'. failed b p' \<Longrightarrow> E p'"
  shows "wp (open_collection fetch first) Q E p"
proof (cases first)
  case True
  then obtain t ts where t: "tk = Some (t # ts)" "t_type t \<noteq> YAML_STREAM_END_TOKEN" "token_blocks t = 0"
    using first by blast
  have peek: "deref (PEEK_TOKEN fetch) p = Return t p"
    using p t(1) by (simp add: deref_def PEEK_TOKEN_def prog_defs pview_def)
  have "wp (PUSH_MARK (t_start_mark t)) (\<lambda>_. wp SKIP_TOKEN Q E) E p"
  proof (rule wp_PUSH_MARK [OF C p])
    fix p1
    assume p1: "pview I left p1 s ss (Suc m) tk n b"
    show "wp SKIP_TOKEN Q E p1"
      by (rule wp_SKIP_TOKEN [OF C p1 [unfolded t(1)] t(2)]) (use t(3) True in \<open>auto intro!: Q\<close>)
  qed (rule E)
  then have "wp (seqM (PUSH_MARK (t_start_mark t)) SKIP_TOKEN) Q E p" by (simp add: wp_seqM)
  with True peek show ?thesis by (simp add: open_collection_def wp_def bindM_def)
next
  case False
  have "pview I left p s ss m None n b" using p by (simp add: pview_def)
  with False Q show ?thesis by (simp add: open_collection_def wp_returnM)
qed

text \<open>The token that opens a collection, in the first state of it.\<close>

definition opens :: "bool \<Rightarrow> yaml_token list option \<Rightarrow> bool" where
  "opens first tk \<longleftrightarrow> (first \<longrightarrow> (\<exists>t ts. tk = Some (t # ts) \<and> t_type t \<noteq> YAML_STREAM_END_TOKEN \<and> token_blocks t = 0))"

text \<open>An entry: its indicator is skipped, then a node or an empty scalar follows.\<close>

lemma wp_skip_entry:
  assumes C: "fetch_contract fetch I left" and p: "pview I left p s ss m (Some (t # ts)) n b"
    and t: "t_type t \<noteq> YAML_STREAM_END_TOKEN" "token_blocks t = 0"
    and r: "inner_state r" "stack_wf ss" "m = marks_needed r ss" "16 * n + 3 * length ss \<le> k"
  shows "wp (seqM SKIP_TOKEN (entry_node fetch stop r block indentless mark))
      (parsed I left (ANode (frames (r # ss))) k b) (failed b) p"
  unfolding wp_seqM
proof (rule wp_SKIP_TOKEN [OF C p t(1)])
  fix p'
  assume p': "pview I left p' s ss m None (n - 1) (b + token_blocks t)" "0 < n"
  show "wp (entry_node fetch stop r block indentless mark) (parsed I left (ANode (frames (r # ss))) k b) (failed b) p'"
    by (rule wp_entry_node [OF C _ r(1-3)]) (use p' t(2) r(4) in auto)
qed

lemma frames_Cons: "frames (s # ss) = resume_frames s @ frames ss"
  by (simp add: frames_def)

lemmas control_simps = frames_Cons inner_state_def marks_needed_def token_blocks_type
  event_data_blocks_def state_wf_def between_nodes_def

lemma wp_open:
  assumes C: "fetch_contract fetch I left" and p: "pview I left p s ss m tk n b" and first: "opens first tk"
    and m: "(if first then Suc m else m) = Suc M"
    and Q: "\<And>p'. pview I left p' s ss (Suc M) None n b \<Longrightarrow> wp k Q (failed b) p'"
  shows "wp (seqM (open_collection fetch first) k) Q (failed b) p"
  unfolding wp_seqM
  by (rule wp_open_collection [OF C p first [unfolded opens_def]])
    (use m in \<open>auto intro!: Q elim: pview_mono split: if_splits\<close>)

text \<open>The handlers of the block collections.  \<open>M\<close> is the number of marks of the states on the stack.\<close>

lemma wp_block_sequence_entry:
  assumes C: "fetch_contract fetch I left" and p: "pview I left p s ss m tk n b" and first: "opens first tk"
    and wf: "stack_wf ss" "(if first then Suc m else m) = Suc (sum_list (map state_marks ss))" "16 * n + 3 * length ss \<le> k"
  shows "wp (yaml_parser_parse_block_sequence_entry fetch first) (parsed I left (ANode (InSeq # frames ss)) k b) (failed b) p"
  unfolding yaml_parser_parse_block_sequence_entry_def
  by (rule wp_open [OF C p first wf(2)], unfold wp_bindM, rule wp_PEEK_TOKEN [OF C], assumption)
    (use wf in \<open>auto simp: wp_if control_simps intro!: wp_close_collection [OF C] wp_collection_error
      wp_skip_entry [OF C, where r = YAML_PARSE_BLOCK_SEQUENCE_ENTRY_STATE, unfolded control_simps, simplified]\<close>)

lemma wp_indentless_sequence_entry:
  assumes C: "fetch_contract fetch I left" and p: "pview I left p s ss m tk n b"
    and wf: "stack_wf ss" "m = sum_list (map state_marks ss)" "16 * n + 3 * length ss \<le> k"
  shows "wp (yaml_parser_parse_indentless_sequence_entry fetch) (parsed I left (ANode (InSeq # frames ss)) k b) (failed b) p"
proof -
  obtain x ss' where ss: "ss = x # ss'" using wf(1) by (cases ss) auto
  have rank: "rank x \<le> 2" and wf': "stack_wf (x # ss')" using wf(1) rank_resume by (simp_all add: ss)
  have pop: "wp (seqM POP_STATE (event SequenceEndEvent y z)) (parsed I left (ANode (InSeq # frames ss)) k b) (failed b) p2"
    if p2: "pview I left p2 s ss m (Some (t # ts)) n b" for p2 t ts y z
    unfolding wp_seqM
    by (rule wp_POP_STATE [OF p2 [unfolded ss]], simp only: wp_returnM, rule parsedI [OF _ next_ok_resume])
      (use wf rank after_node_resume [OF wf'] in \<open>auto simp: ss event_data_blocks_def mu_def\<close>)
  show ?thesis unfolding yaml_parser_parse_indentless_sequence_entry_def wp_bindM
    by (rule wp_PEEK_TOKEN [OF C p])
      (use wf in \<open>auto simp: wp_if control_simps intro!: pop wp_skip_entry [OF C,
        where r = YAML_PARSE_INDENTLESS_SEQUENCE_ENTRY_STATE, unfolded control_simps, simplified]\<close>)
qed

lemma wp_block_mapping_key:
  assumes C: "fetch_contract fetch I left" and p: "pview I left p s ss m tk n b" and first: "opens first tk"
    and wf: "stack_wf ss" "(if first then Suc m else m) = Suc (sum_list (map state_marks ss))" "16 * n + 3 * length ss \<le> k"
  shows "wp (yaml_parser_parse_block_mapping_key fetch first) (parsed I left (ANode (AtKey # frames ss)) k b) (failed b) p"
  unfolding yaml_parser_parse_block_mapping_key_def
  by (rule wp_open [OF C p first wf(2)], unfold wp_bindM, rule wp_PEEK_TOKEN [OF C], assumption)
    (use wf in \<open>auto simp: wp_if control_simps intro!: wp_close_collection [OF C] wp_collection_error
      wp_skip_entry [OF C, where r = YAML_PARSE_BLOCK_MAPPING_VALUE_STATE, unfolded control_simps, simplified]\<close>)

lemma wp_block_mapping_value:
  assumes C: "fetch_contract fetch I left" and p: "pview I left p s ss m tk n b"
    and wf: "stack_wf ss" "m = Suc (sum_list (map state_marks ss))" "16 * n + 3 * length ss + 1 \<le> k"
  shows "wp (yaml_parser_parse_block_mapping_value fetch) (parsed I left (ANode (AtValue # frames ss)) k b) (failed b) p"
  unfolding yaml_parser_parse_block_mapping_value_def wp_bindM
  by (rule wp_PEEK_TOKEN [OF C p])
    (use wf in \<open>auto simp: wp_if control_simps
      intro!: wp_skip_entry [OF C, where r = YAML_PARSE_BLOCK_MAPPING_KEY_STATE, unfolded control_simps, simplified]
        wp_empty_in [OF C, where r = YAML_PARSE_BLOCK_MAPPING_KEY_STATE, unfolded control_simps, simplified]\<close>)

text \<open>The handlers of the flow collections.\<close>

lemma wp_flow_value:
  assumes C: "fetch_contract fetch I left" and p: "pview I left p s ss m (Some (t # ts)) n b"
    and r: "inner_state r" "stack_wf ss" "m = marks_needed r ss" "16 * n + 3 * length ss + rank r < k"
  shows "wp (flow_value fetch stop r t) (parsed I left (ANode (frames (r # ss))) k b) (failed b) p"
proof (cases "t_type t = YAML_VALUE_TOKEN")
  case True
  then have t: "t_type t \<noteq> YAML_STREAM_END_TOKEN" "token_blocks t = 0" by (simp_all add: token_blocks_type)
  show ?thesis unfolding flow_value_def if_P [OF True] wp_seqM [of SKIP_TOKEN]
  proof (rule wp_SKIP_TOKEN [OF C p t(1)], unfold wp_bindM)
    fix p'
    assume p': "pview I left p' s ss m None (n - 1) (b + token_blocks t)" "0 < n"
    then have p'': "pview I left p' s ss m None (n - 1) b" using t by simp
    show "wp (PEEK_TOKEN fetch) (\<lambda>token'. wp (if t_type token' \<notin> stop
          then seqM (PUSH_STATE r) (yaml_parser_parse_node fetch False False)
          else seqM (set_state r) (yaml_parser_process_empty_scalar (t_start_mark token')))
         (parsed I left (ANode (frames (r # ss))) k b) (failed b)) (failed b) p'"
      by (rule wp_PEEK_TOKEN [OF C p''])
        (use r p'(2) inner_rank [OF r(1)] in \<open>auto simp: wp_if intro!: wp_node_in [OF C] wp_empty_in [OF C]\<close>)
  qed
next
  case False
  then show ?thesis using p r by (auto simp: flow_value_def intro!: wp_empty_in [OF C])
qed

lemma wp_skip_flow_entry:
  assumes C: "fetch_contract fetch I left" and p: "pview I left p s ss m (Some (t # ts)) n b"
    and none: "\<not> first \<Longrightarrow> Q None p"
    and some: "\<And>t' ts' n' p'. pview I left p' s ss m (Some (t' # ts')) n' b
      \<Longrightarrow> n' + (if first then 0 else 1) \<le> n \<Longrightarrow> first \<longrightarrow> t' = t \<Longrightarrow> Q (Some t') p'"
    and E: "\<And>p'. failed b p' \<Longrightarrow> E p'"
  shows "wp (skip_flow_entry fetch first t) Q E p"
proof -
  consider first | "\<not> first" "t_type t = YAML_FLOW_ENTRY_TOKEN" | "\<not> first" "t_type t \<noteq> YAML_FLOW_ENTRY_TOKEN" by blast
  then show ?thesis
  proof cases
    case 2
    then have t: "t_type t \<noteq> YAML_STREAM_END_TOKEN" "token_blocks t = 0" by (simp_all add: token_blocks_type)
    have "wp (seqM SKIP_TOKEN (bindM (PEEK_TOKEN fetch) (\<lambda>token'. returnM (Some token')))) Q E p"
      unfolding wp_seqM
    proof (rule wp_SKIP_TOKEN [OF C p t(1)], unfold wp_bindM)
      fix p'
      assume p': "pview I left p' s ss m None (n - 1) (b + token_blocks t)" "0 < n"
      then have p'': "pview I left p' s ss m None (n - 1) b" using t by simp
      show "wp (PEEK_TOKEN fetch) (\<lambda>a. wp (returnM (Some a)) Q E) E p'"
        by (rule wp_PEEK_TOKEN [OF C p'']) (use 2 p'(2) in \<open>auto simp: wp_returnM intro!: some E\<close>)
    qed
    with 2 show ?thesis by (simp add: skip_flow_entry_def)
  qed (use p none some in \<open>auto simp: skip_flow_entry_def wp_returnM\<close>)
qed

text \<open>
  The common part of the two handlers that expect an entry of a flow collection: where the end is
  not found, a comma is skipped, and \<open>body\<close> handles the entry with one token less.
\<close>

lemma wp_flow_entry:
  assumes C: "fetch_contract fetch I left" and p: "pview I left p s ss m tk n b" and first: "opens first tk"
    and wf: "stack_wf ss" "(if first then Suc m else m) = Suc M" "M = sum_list (map state_marks ss)"
      "16 * n + 3 * length ss \<le> k"
    and stop: "stop \<noteq> YAML_STREAM_END_TOKEN"
      "\<And>t. t_type t = stop \<Longrightarrow> token_blocks t = 0"
    and d: "event_data_type d = YAML_SEQUENCE_END_EVENT \<and> f = InSeq
      \<or> event_data_type d = YAML_MAPPING_END_EVENT \<and> f = AtKey" "event_data_blocks d = 0"
    and body: "\<And>t ts n' p'. pview I left p' s ss (Suc M) (Some (t # ts)) n' b \<Longrightarrow> 16 * n' + 16 + 3 * length ss \<le> k
      \<Longrightarrow> wp (body t) (parsed I left (ANode (f # frames ss)) k b) (failed b) p'"
  shows "wp (seqM (open_collection fetch first) (bindM (PEEK_TOKEN fetch) (\<lambda>token.
      if t_type token = stop then close_collection token d
      else bindM (skip_flow_entry fetch first token) (\<lambda>token'. case token' of
          None \<Rightarrow> collection_error c x token
        | Some token \<Rightarrow> body token)))) (parsed I left (ANode (f # frames ss)) k b) (failed b) p"
  unfolding wp_seqM
proof (rule wp_open_collection [OF C p first [unfolded opens_def]], unfold wp_bindM wf(2))
  fix p1
  let ?n = "if first then n - 1 else n"
  let ?post = "parsed I left (ANode (f # frames ss)) k b"
  assume p1: "pview I left p1 s ss (Suc M) None ?n b" and n: "first \<longrightarrow> 0 < n"
  show "wp (PEEK_TOKEN fetch) (\<lambda>token. wp (if t_type token = stop then close_collection token d
      else bindM (skip_flow_entry fetch first token) (\<lambda>token'. case token' of
          None \<Rightarrow> collection_error c x token | Some token \<Rightarrow> body token)) ?post (failed b)) (failed b) p1"
  proof (rule wp_PEEK_TOKEN [OF C p1])
    fix t ts p2
    assume p2: "pview I left p2 s ss (Suc M) (Some (t # ts)) ?n b"
    have "wp (close_collection t d) ?post (failed b) p2" if "t_type t = stop"
      by (rule wp_close_collection [OF C p2]) (use that stop wf d in auto)
    moreover have "wp (skip_flow_entry fetch first t)
        (\<lambda>token'. wp (case token' of None \<Rightarrow> collection_error c x t | Some token \<Rightarrow> body token) ?post (failed b)) (failed b) p2"
    proof (rule wp_skip_flow_entry [OF C p2])
      fix t' ts' n' p'
      assume "pview I left p' s ss (Suc M) (Some (t' # ts')) n' b" and "n' + (if first then 0 else 1) \<le> ?n"
      with n wf(4) show "wp (case Some t' of None \<Rightarrow> collection_error c x t | Some token \<Rightarrow> body token) ?post (failed b) p'"
        by (auto intro!: body split: if_splits)
    qed (use wp_collection_error [OF p2] in auto)
    ultimately show "wp (if t_type t = stop then close_collection t d
      else bindM (skip_flow_entry fetch first t) (\<lambda>token'. case token' of
          None \<Rightarrow> collection_error c x t | Some token \<Rightarrow> body token)) ?post (failed b) p2"
      by (simp add: wp_if wp_bindM)
  qed simp
qed simp

lemma wp_flow_sequence_entry:
  assumes C: "fetch_contract fetch I left" and p: "pview I left p s ss m tk n b" and first: "opens first tk"
    and wf: "stack_wf ss" "(if first then Suc m else m) = Suc (sum_list (map state_marks ss))" "16 * n + 3 * length ss \<le> k"
  shows "wp (yaml_parser_parse_flow_sequence_entry fetch first) (parsed I left (ANode (InSeq # frames ss)) k b) (failed b) p"
  unfolding yaml_parser_parse_flow_sequence_entry_def
proof (rule wp_flow_entry [OF C p first wf(1,2) refl wf(3)])
  fix t ts n' and p' :: "'a yaml_parser"
  let ?post = "parsed I left (ANode (InSeq # frames ss)) k b"
  assume p': "pview I left p' s ss (Suc (sum_list (map state_marks ss))) (Some (t # ts)) n' b"
    and k: "16 * n' + 16 + 3 * length ss \<le> k"
  have key: "wp (seqM (set_state YAML_PARSE_FLOW_SEQUENCE_ENTRY_MAPPING_KEY_STATE) (seqM SKIP_TOKEN
      (event (MappingStartEvent None None True YAML_FLOW_MAPPING_STYLE) (t_start_mark t) (t_end_mark t)))) ?post (failed b) p'"
    if t: "t_type t = YAML_KEY_TOKEN"
    unfolding wp_seqM [of "set_state _"] wp_modifyM wp_seqM [of SKIP_TOKEN]
    by (rule wp_SKIP_TOKEN [OF C pview_set_state [OF p']])
      (use t k wf in \<open>auto simp: wp_returnM control_simps next_ok_def mu_def intro!: parsedI\<close>)
  show "wp (if t_type t = YAML_KEY_TOKEN then
        seqM (set_state YAML_PARSE_FLOW_SEQUENCE_ENTRY_MAPPING_KEY_STATE) (seqM SKIP_TOKEN
          (event (MappingStartEvent None None True YAML_FLOW_MAPPING_STYLE) (t_start_mark t) (t_end_mark t)))
      else if t_type t \<noteq> YAML_FLOW_SEQUENCE_END_TOKEN then
        seqM (PUSH_STATE YAML_PARSE_FLOW_SEQUENCE_ENTRY_STATE) (yaml_parser_parse_node fetch False False)
      else close_collection t SequenceEndEvent) ?post (failed b) p'"
    using key p' k wf
    by (auto simp: wp_if control_simps intro!: wp_close_collection [OF C]
        wp_node_in [OF C, where r = YAML_PARSE_FLOW_SEQUENCE_ENTRY_STATE, unfolded control_simps, simplified])
qed (auto simp: control_simps)

lemma wp_flow_sequence_entry_mapping_key:
  assumes C: "fetch_contract fetch I left" and p: "pview I left p s ss m tk n b"
    and wf: "stack_wf ss" "m = Suc (sum_list (map state_marks ss))" "16 * n + 3 * length ss + 4 \<le> k"
  shows "wp (yaml_parser_parse_flow_sequence_entry_mapping_key fetch)
    (parsed I left (ANode (AtKey # InSeq # frames ss)) k b) (failed b) p"
proof -
  let ?r = YAML_PARSE_FLOW_SEQUENCE_ENTRY_MAPPING_VALUE_STATE
  have skip: "wp (seqM SKIP_TOKEN (seqM (set_state ?r) (yaml_parser_process_empty_scalar mk)))
      (parsed I left (ANode (AtKey # InSeq # frames ss)) k b) (failed b) p2"
    if p2: "pview I left p2 s ss m (Some (t # ts)) n b" and t: "token_blocks t = 0" "t_type t \<noteq> YAML_STREAM_END_TOKEN"
    for p2 t ts mk
    unfolding wp_seqM [of SKIP_TOKEN]
    by (rule wp_SKIP_TOKEN [OF C p2 t(2)])
      (use t wf in \<open>auto simp: control_simps
        intro!: wp_empty_in [OF C, where r = ?r, unfolded control_simps, simplified]\<close>)
  show ?thesis unfolding yaml_parser_parse_flow_sequence_entry_mapping_key_def wp_bindM
    by (rule wp_PEEK_TOKEN [OF C p])
      (use wf in \<open>auto simp: wp_if control_simps
        intro!: skip wp_node_in [OF C, where r = ?r, unfolded control_simps, simplified]\<close>)
qed

lemma wp_flow_sequence_entry_mapping_value:
  assumes C: "fetch_contract fetch I left" and p: "pview I left p s ss m tk n b"
    and wf: "stack_wf ss" "m = Suc (sum_list (map state_marks ss))" "16 * n + 3 * length ss + 2 \<le> k"
  shows "wp (yaml_parser_parse_flow_sequence_entry_mapping_value fetch)
    (parsed I left (ANode (AtValue # InSeq # frames ss)) k b) (failed b) p"
  unfolding yaml_parser_parse_flow_sequence_entry_mapping_value_def wp_bindM
  by (rule wp_PEEK_TOKEN [OF C p])
    (use wf in \<open>auto intro!: wp_flow_value [OF C, where r = YAML_PARSE_FLOW_SEQUENCE_ENTRY_MAPPING_END_STATE,
      unfolded control_simps, simplified]\<close>)

lemma wp_flow_sequence_entry_mapping_end:
  assumes C: "fetch_contract fetch I left" and p: "pview I left p s ss m tk n b"
    and wf: "stack_wf ss" "m = Suc (sum_list (map state_marks ss))" "16 * n + 3 * length ss + 1 \<le> k"
  shows "wp (yaml_parser_parse_flow_sequence_entry_mapping_end fetch)
    (parsed I left (ANode (AtKey # InSeq # frames ss)) k b) (failed b) p"
  unfolding yaml_parser_parse_flow_sequence_entry_mapping_end_def wp_bindM
  by (rule wp_PEEK_TOKEN [OF C p])
    (use wf in \<open>auto simp: wp_simps control_simps next_ok_def mu_def intro!: parsedI pview_set_state\<close>)

lemma wp_flow_mapping_key:
  assumes C: "fetch_contract fetch I left" and p: "pview I left p s ss m tk n b" and first: "opens first tk"
    and wf: "stack_wf ss" "(if first then Suc m else m) = Suc (sum_list (map state_marks ss))" "16 * n + 3 * length ss \<le> k"
  shows "wp (yaml_parser_parse_flow_mapping_key fetch first) (parsed I left (ANode (AtKey # frames ss)) k b) (failed b) p"
  unfolding yaml_parser_parse_flow_mapping_key_def
proof (rule wp_flow_entry [OF C p first wf(1,2) refl wf(3)])
  fix t ts n' and p' :: "'a yaml_parser"
  let ?post = "parsed I left (ANode (AtKey # frames ss)) k b" and ?r = YAML_PARSE_FLOW_MAPPING_VALUE_STATE
  let ?key = "bindM (PEEK_TOKEN fetch) (\<lambda>token2.
      if t_type token2 \<notin> {YAML_VALUE_TOKEN, YAML_FLOW_ENTRY_TOKEN, YAML_FLOW_MAPPING_END_TOKEN} then
        seqM (PUSH_STATE ?r) (yaml_parser_parse_node fetch False False)
      else seqM (set_state ?r) (yaml_parser_process_empty_scalar (t_start_mark token2)))"
  assume p': "pview I left p' s ss (Suc (sum_list (map state_marks ss))) (Some (t # ts)) n' b"
    and k: "16 * n' + 16 + 3 * length ss \<le> k"
  have key: "wp (seqM SKIP_TOKEN ?key) ?post (failed b) p'" if t: "t_type t = YAML_KEY_TOKEN"
    unfolding wp_seqM [of SKIP_TOKEN]
  proof (rule wp_SKIP_TOKEN [OF C p'], unfold wp_bindM)
    fix p2
    assume "pview I left p2 s ss (Suc (sum_list (map state_marks ss))) None (n' - 1) (b + token_blocks t)"
    then have p2: "pview I left p2 s ss (Suc (sum_list (map state_marks ss))) None (n' - 1) b"
      using t by (simp add: token_blocks_type)
    show "wp (PEEK_TOKEN fetch) (\<lambda>a. wp (if t_type a \<notin> {YAML_VALUE_TOKEN, YAML_FLOW_ENTRY_TOKEN, YAML_FLOW_MAPPING_END_TOKEN}
        then seqM (PUSH_STATE ?r) (yaml_parser_parse_node fetch False False)
        else seqM (set_state ?r) (yaml_parser_process_empty_scalar (t_start_mark a))) ?post (failed b)) (failed b) p2"
      by (rule wp_PEEK_TOKEN [OF C p2])
        (use wf k in \<open>auto simp: wp_if intro!: wp_node_in [OF C, where r = ?r, unfolded control_simps, simplified]
          wp_empty_in [OF C, where r = ?r, unfolded control_simps, simplified]\<close>)
  qed (use t in auto)
  show "wp (if t_type t = YAML_KEY_TOKEN then seqM SKIP_TOKEN ?key
      else if t_type t \<noteq> YAML_FLOW_MAPPING_END_TOKEN then
        seqM (PUSH_STATE YAML_PARSE_FLOW_MAPPING_EMPTY_VALUE_STATE) (yaml_parser_parse_node fetch False False)
      else close_collection t MappingEndEvent) ?post (failed b) p'"
    using key p' k wf
    by (auto simp: wp_if control_simps intro!: wp_close_collection [OF C]
        wp_node_in [OF C, where r = YAML_PARSE_FLOW_MAPPING_EMPTY_VALUE_STATE, unfolded control_simps, simplified])
qed (auto simp: control_simps)

lemma wp_flow_mapping_value:
  assumes C: "fetch_contract fetch I left" and p: "pview I left p s ss m tk n b"
    and wf: "stack_wf ss" "m = Suc (sum_list (map state_marks ss))" "16 * n + 3 * length ss + 1 \<le> k"
  shows "wp (yaml_parser_parse_flow_mapping_value fetch is_empty) (parsed I left (ANode (AtValue # frames ss)) k b) (failed b) p"
  unfolding yaml_parser_parse_flow_mapping_value_def wp_bindM
  by (rule wp_PEEK_TOKEN [OF C p])
    (use wf in \<open>auto simp: wp_if
      intro!: wp_empty_in [OF C, where r = YAML_PARSE_FLOW_MAPPING_KEY_STATE, unfolded control_simps, simplified]
        wp_flow_value [OF C, where r = YAML_PARSE_FLOW_MAPPING_KEY_STATE, unfolded control_simps, simplified]\<close>)

subsection \<open>Directives\<close>

lemma wp_copy_of:
  assumes C: "fetch_contract fetch I left" and p: "pview I left p s ss m tk n b"
    and "\<And>p'. pview I left p' s ss m tk n (b + 1) \<Longrightarrow> Q (Some (c_str x)) p'"
    and "\<And>p'. pview I left p' s ss m tk n b \<Longrightarrow> Q None p'"
  shows "wp (copy_of x) Q E p"
  unfolding copy_of_def wp_zoomM
  by (rule wp_yaml_strdup)
    (use assms fetch_contract_mem [OF C] in \<open>auto simp: pview_def base_inv_def split: option.splits\<close>)

lemma wp_push_tag_directive:
  assumes C: "fetch_contract fetch I left" and p: "pview I left p s ss m tk n (b + 2)"
    and Q: "\<And>p'. pview I left p' s ss m tk n b \<Longrightarrow> Q () p'"
    and E: "\<And>p'. failed (b + 2) p' \<Longrightarrow> E p'"
  shows "wp (push_stack p_tag_directives (\<lambda>st p. p\<lparr>p_tag_directives := st\<rparr>) x) Q E p"
proof -
  have ok: "stack_ok (p_tag_directives p)" using p by (simp add: pview_def base_inv_def)
  have "wp (PUSH x) (\<lambda>_ (st, h). Q () (p\<lparr>p_mem := h, p_tag_directives := st\<rparr>))
      (\<lambda>(st, h). E (p\<lparr>p_mem := h, p_error := YAML_MEMORY_ERROR, p_tag_directives := st\<rparr>)) (p_tag_directives p, p_mem p)"
  proof (rule wp_PUSH [OF ok])
    fix st' :: "yaml_tag_directive ystack" and h' :: heap
    assume *: "stack_ok st'" "elems st' = elems (p_tag_directives p) @ [x]" "live h' = live (p_mem p)"
    then have "balance (p\<lparr>p_mem := h', p_tag_directives := st'\<rparr>) = b"
      using p ok by (auto simp: balance_def parser_blocks_def stack_ok_def pview_def)
    with p * show "case (st', h') of (st, h) \<Rightarrow> Q () (p\<lparr>p_mem := h, p_tag_directives := st\<rparr>)"
      by (auto intro!: Q simp: pview_def base_inv_def fetch_contract_mem [OF C] split: option.splits)
  next
    fix h' :: heap
    assume "live h' = live (p_mem p)"
    with p ok show "case (p_tag_directives p, h') of (st, h) \<Rightarrow>
        E (p\<lparr>p_mem := h, p_error := YAML_MEMORY_ERROR, p_tag_directives := st\<rparr>)"
      by (auto intro!: E simp: failed_def pview_def balance_def parser_blocks_def)
  qed
  then show ?thesis by (auto simp: wp_def push_stack_def split: result.splits)
qed

lemma wp_append_tag_directive:
  fixes p :: "'h yaml_parser"
  assumes C: "fetch_contract fetch I left" and p: "pview I left p s ss m tk n b"
    and Q: "\<And>p'. pview I left p' s ss m tk n b \<Longrightarrow> Q () p'"
    and E: "\<And>p'. failed b p' \<Longrightarrow> E p'"
  shows "wp (yaml_parser_append_tag_directive v dup mark) Q E p"
proof -
  let ?att = "\<lambda>handle prefix. cleanupM
      (case (handle, prefix) of
         (Some h, Some pr) \<Rightarrow> push_stack p_tag_directives (\<lambda>st p. p\<lparr>p_tag_directives := st\<rparr>) \<lparr>td_handle = h, td_prefix = pr\<rparr>
       | _ \<Rightarrow> errorM (\<lambda>p. p\<lparr>p_error := YAML_MEMORY_ERROR\<rparr>))
      (freeP (\<lambda>h. free_string prefix (free_string handle h)))"
  have freed: "E (freeP (\<lambda>h. free_string prefix (free_string handle h)) q)"
    if "failed (b + (string_blocks handle + string_blocks prefix)) q" for handle prefix and q :: "'h yaml_parser"
    using failed_freeP [OF that, of "\<lambda>h. free_string prefix (free_string handle h)" "string_blocks handle + string_blocks prefix"]
    by (intro E) simp
  have attempt: "wp (?att handle prefix) Q E q"
    if q: "pview I left q s ss m tk n (b + (string_blocks handle + string_blocks prefix))" for handle prefix q
  proof (cases "handle \<noteq> None \<and> prefix \<noteq> None")
    case True
    then obtain h pr where eq: "handle = Some h" "prefix = Some pr" by auto
    then have q2: "pview I left q s ss m tk n (b + 2)" using q by simp
    show ?thesis unfolding wp_cleanupM eq prod.case option.case
      by (rule wp_push_tag_directive [OF C q2]) (use Q freed [of "Some h" "Some pr"] in auto)
  next
    case False
    have "failed (b + (string_blocks handle + string_blocks prefix)) (q\<lparr>p_error := YAML_MEMORY_ERROR\<rparr>)"
      using q by (simp add: failed_def pview_def)
    from freed [OF this] False show ?thesis by (auto simp: wp_cleanupM wp_errorM split: option.splits)
  qed
  have err: "E (p\<lparr>p_error := YAML_PARSER_ERROR, p_problem := x, p_problem_mark := y\<rparr>)" for x y
    by (rule E, rule failed_error(1) [OF p])
  have copies: "wp (bindM (copy_of (td_handle v)) (\<lambda>handle. bindM (copy_of (td_prefix v)) (?att handle))) Q E p"
    unfolding wp_bindM
  proof (rule wp_copy_of [OF C p])
    fix p1
    assume p1: "pview I left p1 s ss m tk n (b + 1)"
    show "wp (copy_of (td_prefix v)) (\<lambda>a. wp (?att (Some (c_str (td_handle v))) a) Q E) E p1"
      by (rule wp_copy_of [OF C p1]; rule attempt; simp add: add.assoc)
  next
    fix p1
    assume p1: "pview I left p1 s ss m tk n b"
    show "wp (copy_of (td_prefix v)) (\<lambda>a. wp (?att None a) Q E) E p1"
      by (rule wp_copy_of [OF C p1]; rule attempt; simp)
  qed
  show ?thesis
    unfolding yaml_parser_append_tag_directive_def wp_readM wp_if
    using copies p Q err by (simp add: wp_returnM yaml_parser_set_parser_error_def wp_errorM)
qed

lemma wp_append_default_tag_directives:
  assumes C: "fetch_contract fetch I left" and p: "pview I left p s ss m tk n b"
    and Q: "\<And>p'. pview I left p' s ss m tk n b \<Longrightarrow> Q () p'"
    and E: "\<And>p'. failed b p' \<Longrightarrow> E p'"
  shows "wp (append_default_tag_directives tds mark) Q E p"
  using p
proof (induction tds arbitrary: p)
  case Nil
  then show ?case by (simp add: wp_returnM Q)
next
  case (Cons td tds)
  show ?case unfolding append_default_tag_directives.simps wp_seqM
    by (rule wp_append_tag_directive [OF C Cons.prems]) (use Cons.IH E in auto)
qed

text \<open>The blocks of the local variables of \<open>yaml_parser_process_directives\<close>.\<close>

definition directives_blocks :: "directives \<Rightarrow> int" where
  "directives_blocks ds = (if fst ds = None then 0 else 1) + 1 + 2 * int (length (elems (snd ds)))"

lemma live_free_directives:
  "stack_ok (snd ds) \<Longrightarrow> live (free_directives ds h) = live h - directives_blocks ds"
  by (simp add: free_directives_def live_del_tag_stack directives_blocks_def)

definition is_directive :: "yaml_token \<Rightarrow> bool" where
  "is_directive t \<longleftrightarrow> t_type t = YAML_VERSION_DIRECTIVE_TOKEN \<or> t_type t = YAML_TAG_DIRECTIVE_TOKEN"

lemma process_directive_None: "process_directive t ds = None \<longleftrightarrow> \<not> is_directive t"
  by (cases "t_data t") (simp_all add: process_directive_def is_directive_def t_type_def Let_def)

lemma wp_push_local:
  assumes C: "fetch_contract fetch I left" and p: "pview I left p s ss m tk n b" and ds: "stack_ok (snd ds)"
    and Q: "\<And>ds' p'. pview I left p' s ss m tk n b \<Longrightarrow> stack_ok (snd ds') \<Longrightarrow> directives_blocks ds' = directives_blocks ds + 2
      \<Longrightarrow> Q ds' p'"
    and E: "\<And>p'. failed b p' \<Longrightarrow> E p'"
  shows "wp (push_local v ds) Q E p"
proof -
  have "wp (PUSH v) (\<lambda>_ (st, h). Q (fst ds, st) (p\<lparr>p_mem := h\<rparr>))
      (\<lambda>(st, h). E (p\<lparr>p_mem := h, p_error := YAML_MEMORY_ERROR\<rparr>)) (snd ds, p_mem p)"
    by (rule wp_PUSH [OF ds])
      (use p fetch_contract_mem [OF C] in \<open>auto intro!: Q E simp: directives_blocks_def pview_def base_inv_def
        failed_def split: option.splits\<close>)
  then show ?thesis by (auto simp: wp_def push_local_def split: result.splits)
qed

text \<open>A directive: what it allocates and takes over from its token is in the local variables.\<close>

lemma wp_process_directive:
  assumes C: "fetch_contract fetch I left" and p: "pview I left p s ss m (Some (t # ts)) n b" and ds: "stack_ok (snd ds)"
    and d: "process_directive t ds = Some d"
    and Q: "\<And>ds' p' n'. pview I left p' s ss m None n' (b + directives_blocks ds' - directives_blocks ds)
      \<Longrightarrow> n' < n \<Longrightarrow> stack_ok (snd ds') \<Longrightarrow> Q ds' p'"
    and E: "\<And>p'. failed b p' \<Longrightarrow> E p'"
  shows "wp (bindM d (\<lambda>ds'. seqM SKIP_TOKEN (returnM ds'))) Q E p"
proof -
  have skip: "wp (seqM SKIP_TOKEN (returnM ds')) Q E p'"
    if p': "pview I left p' s ss m (Some (t # ts)) n (b + directives_blocks ds' - directives_blocks ds - token_blocks t)"
      and t: "t_type t \<noteq> YAML_STREAM_END_TOKEN" and ds': "stack_ok (snd ds')" for ds' p'
    unfolding wp_seqM
    by (rule wp_SKIP_TOKEN [OF C p' t]) (auto simp: wp_returnM intro!: Q ds')
  show ?thesis
  proof (cases "t_data t")
    case (VersionDirectiveToken major minor)
    then have t: "t_type t \<noteq> YAML_STREAM_END_TOKEN" "token_blocks t = 0" by (simp_all add: t_type_def token_blocks_def)
    have err: "E (p\<lparr>p_error := YAML_PARSER_ERROR, p_problem := x, p_problem_mark := y\<rparr>)" for x y
      by (rule E, rule failed_error(1) [OF p])
    have ok: "wp (seqM (parser_malloc 8) (returnM (Some v, snd ds))) (\<lambda>ds'. wp (seqM SKIP_TOKEN (returnM ds')) Q E) E p"
      if "fst ds = None" for v
      unfolding wp_seqM [of "parser_malloc 8"]
      by (rule wp_parser_malloc [OF C p])
        (use that t ds E in \<open>auto simp: wp_returnM directives_blocks_def add.commute intro!: skip\<close>)
    show ?thesis using d VersionDirectiveToken ok err
      by (auto simp: process_directive_def wp_bindM wp_if yaml_parser_set_parser_error_def wp_errorM split: if_splits)
  next
    case (TagDirectiveToken h pr)
    then have t: "t_type t \<noteq> YAML_STREAM_END_TOKEN" "token_blocks t = 2" by (simp_all add: t_type_def token_blocks_def)
    have "wp (yaml_parser_append_tag_directive v False (t_start_mark t))
       (\<lambda>_. wp (push_local v ds) (\<lambda>ds'. wp (seqM SKIP_TOKEN (returnM ds')) Q E) E) E p" for v
    proof (rule wp_append_tag_directive [OF C p])
      fix p1
      assume p1: "pview I left p1 s ss m (Some (t # ts)) n b"
      show "wp (push_local v ds) (\<lambda>ds'. wp (seqM SKIP_TOKEN (returnM ds')) Q E) E p1"
        by (rule wp_push_local [OF C p1 ds]) (use t E in \<open>auto intro!: skip\<close>)
    qed (rule E)
    then show ?thesis using d TagDirectiveToken by (auto simp: process_directive_def Let_def wp_bindM wp_seqM)
  qed (use d in \<open>auto simp: process_directive_def\<close>)
qed

lemma returns_directives_loop:
  "returns (directives_loop fetch ds) p = (case PEEK_TOKEN fetch p of
     Fault \<Rightarrow> Fault
   | Error p1 \<Rightarrow> Error (freeP (free_directives ds) p1)
   | Return t p1 \<Rightarrow>
       (case process_directive t ds of
          None \<Rightarrow> Return (t, ds) p1
        | Some m \<Rightarrow>
            (case bindM m (\<lambda>ds'. seqM SKIP_TOKEN (returnM ds')) p1 of
               Fault \<Rightarrow> Fault
             | Error p2 \<Rightarrow> Error (freeP (free_directives ds) p2)
             | Return ds' p2 \<Rightarrow> returns (directives_loop fetch ds') p2)))"
  unfolding returns_def by (subst directives_loop.simps) (simp split: result.splits option.splits)

lemma returns_skip_document_ends:
  "returns (skip_document_ends fetch) p = (case PEEK_TOKEN fetch p of
     Fault \<Rightarrow> Fault
   | Error p1 \<Rightarrow> Error p1
   | Return t p1 \<Rightarrow>
       if t_type t = YAML_DOCUMENT_END_TOKEN then
         (case SKIP_TOKEN p1 of
            Return _ p2 \<Rightarrow> returns (skip_document_ends fetch) p2
          | Error p2 \<Rightarrow> Error p2
          | Fault \<Rightarrow> Fault)
       else Return t p1)"
  unfolding returns_def by (subst skip_document_ends.simps) (simp split: result.splits)

lemma wp_directives_loop:
  fixes p :: "'h yaml_parser"
  assumes C: "fetch_contract fetch I left"
    and p: "pview I left p s ss m tk n (b + directives_blocks ds)" and ds: "stack_ok (snd ds)"
    and Q: "\<And>t ts ds' p'. pview I left p' s ss m (Some (t # ts)) n (b + directives_blocks ds')
      \<Longrightarrow> stack_ok (snd ds') \<Longrightarrow> (\<forall>t0 ts0. tk = Some (t0 # ts0) \<and> \<not> is_directive t0 \<longrightarrow> ds' = ds)
      \<Longrightarrow> Q (t, ds') p'"
    and E: "\<And>p'. failed b p' \<Longrightarrow> E p'"
  shows "wp (returns (directives_loop fetch ds)) Q E p"
  using p ds Q
proof (induction n arbitrary: p tk ds rule: less_induct)
  case (less n)
  have free: "E (freeP (free_directives ds) q)" if "failed (b + directives_blocks ds) q" for q
    using failed_freeP [OF that live_free_directives [OF less.prems(2)]] by (intro E) simp
  have peek: "wp (PEEK_TOKEN fetch)
      (\<lambda>t p1. \<exists>ts. pview I left p1 s ss m (Some (t # ts)) n (b + directives_blocks ds)
         \<and> (\<forall>ts'. tk = Some ts' \<longrightarrow> ts' = t # ts)) (failed (b + directives_blocks ds)) p"
    by (rule wp_PEEK_TOKEN [OF C less.prems(1)]) auto
  show ?case
  proof (cases "PEEK_TOKEN fetch p")
    case (Return t p1)
    obtain ts where p1: "pview I left p1 s ss m (Some (t # ts)) n (b + directives_blocks ds)"
      and same: "\<forall>ts'. tk = Some ts' \<longrightarrow> ts' = t # ts" using wp_Return [OF peek Return] by blast
    show ?thesis
    proof (cases "process_directive t ds :: ('h yaml_parser, directives) prog option")
      case None
      have "Q (t, ds) p1" by (rule less.prems(3) [OF p1 less.prems(2)]) auto
      with Return None show ?thesis
        by (simp add: wp_def returns_directives_loop)
    next
      case (Some d)
      have "wp (bindM d (\<lambda>ds'. seqM SKIP_TOKEN (returnM ds')))
          (\<lambda>ds'. wp (returns (directives_loop fetch ds')) Q E) (\<lambda>q. E (freeP (free_directives ds) q)) p1"
      proof (rule wp_process_directive [OF C p1 less.prems(2) Some])
        fix ds' p2 n'
        assume "pview I left p2 s ss m None n' (b + directives_blocks ds + directives_blocks ds' - directives_blocks ds)"
          and n': "n' < n" and ds': "stack_ok (snd ds')"
        then have p2: "pview I left p2 s ss m None n' (b + directives_blocks ds')" by simp
        show "wp (returns (directives_loop fetch ds')) Q E p2"
        proof (rule less.IH [OF n' p2 ds'])
          fix t' ts' ds'' and p' :: "'h yaml_parser"
          assume p': "pview I left p' s ss m (Some (t' # ts')) n' (b + directives_blocks ds'')" and ok: "stack_ok (snd ds'')"
          have dir: "is_directive t"
          proof (rule ccontr)
            assume "\<not> is_directive t"
            then have "process_directive t ds = (None :: ('h yaml_parser, directives) prog option)"
              by (simp add: process_directive_None)
            with Some show False by simp
          qed
          show "Q (t', ds'') p'"
            by (rule less.prems(3) [OF pview_mono [OF p'] ok]) (use n' dir same in auto)
        qed
      qed (rule free)
      with Return Some show ?thesis unfolding wp_def returns_directives_loop [of fetch ds p]
        by (cases "bindM d (\<lambda>ds'. seqM SKIP_TOKEN (returnM ds')) p1") simp_all
    qed
  next
    case (Error q)
    from wp_Error [OF peek this] have "E (freeP (free_directives ds) q)" by (rule free)
    with Error show ?thesis by (simp add: wp_def returns_directives_loop)
  next
    case Fault
    with wp_no_fault [OF peek] show ?thesis by simp
  qed
qed

lemma wp_process_directives:
  fixes p :: "'h yaml_parser"
  assumes C: "fetch_contract fetch I left" and p: "pview I left p s ss m tk n b"
    and none: "\<not> wanted \<Longrightarrow> \<exists>t ts. tk = Some (t # ts) \<and> \<not> is_directive t"
    and Q: "\<And>vd tds t ts p'. pview I left p' s ss m (Some (t # ts)) n
        (b + (if vd = None then 0 else 1) + tag_directives_blocks tds) \<Longrightarrow> \<not> wanted \<longrightarrow> vd = None \<and> tds = []
      \<Longrightarrow> Q (vd, tds) p'"
    and E: "\<And>p'. failed b p' \<Longrightarrow> E p'"
  shows "wp (yaml_parser_process_directives fetch wanted) Q E p"
  unfolding yaml_parser_process_directives_def wp_bindM wp_memP
proof (rule wp_STACK_INIT)
  fix st0 :: "yaml_tag_directive ystack" and h :: heap
  assume st0: "stack_ok st0" "elems st0 = []" "live h = live (p_mem p) + 1"
  let ?fin = "\<lambda>(token, vd, st). seqM (cleanupM (append_default_tag_directives default_tag_directives (t_start_mark token))
             (freeP (free_directives (vd, st))))
       (if wanted then
          seqM (if STACK_EMPTY st then modifyM (freeP (STACK_DEL st)) else returnM ()) (returnM (vd, elems st))
        else
          seqM (modifyM (freeP (STACK_DEL st)))
            (seqM (modifyM (freeP (yaml_free (vd \<noteq> None)))) (returnM (None, []))))"
  have p1: "pview I left (p\<lparr>p_mem := h\<rparr>) s ss m tk n (b + directives_blocks (None, st0))"
    using p st0 fetch_contract_mem [OF C]
    by (auto simp: pview_def base_inv_def directives_blocks_def split: option.splits)
  show "wp (returns (directives_loop fetch (None, st0))) (\<lambda>a. wp (?fin a) Q E) E (p\<lparr>p_mem := h\<rparr>)"
  proof (rule wp_directives_loop [OF C p1])
    fix t ts ds and p2 :: "'h yaml_parser"
    assume p2: "pview I left p2 s ss m (Some (t # ts)) n (b + directives_blocks ds)" and ds: "stack_ok (snd ds)"
      and same: "\<forall>t0 ts0. tk = Some (t0 # ts0) \<and> \<not> is_directive t0 \<longrightarrow> ds = (None, st0)"
    obtain vd st where d: "ds = (vd, st)" by (cases ds)
    have stack: "cap st \<noteq> 0" using ds d by (auto simp: stack_ok_def)
    have free: "E (freeP (free_directives ds) q)" if "failed (b + directives_blocks ds) q" for q
      using failed_freeP [OF that live_free_directives [OF ds]] by (intro E) simp
    show "wp (?fin (t, ds)) Q E p2"
      unfolding d prod.case wp_seqM wp_cleanupM
    proof (rule wp_append_default_tag_directives [OF C p2 [unfolded d]])
      fix p3 :: "'h yaml_parser"
      assume p3: "pview I left p3 s ss m (Some (t # ts)) n (b + directives_blocks (vd, st))"
      have del: "pview I left (freeP (STACK_DEL st) p3) s ss m (Some (t # ts)) n (b + directives_blocks (vd, st) - 1)"
        by (rule pview_freeP [OF C p3]) (simp add: stack)
      have del2: "pview I left (freeP (yaml_free (vd \<noteq> None)) (freeP (STACK_DEL st) p3)) s ss m (Some (t # ts)) n
          (b + directives_blocks (vd, st) - 1 - (if vd = None then 0 else 1))"
        by (rule pview_freeP [OF C del]) simp
      show "wp (if wanted then
          seqM (if STACK_EMPTY st then modifyM (freeP (STACK_DEL st)) else returnM ()) (returnM (vd, elems st))
        else
          seqM (modifyM (freeP (STACK_DEL st)))
            (seqM (modifyM (freeP (yaml_free (vd \<noteq> None)))) (returnM (None, [])))) Q E p3"
      proof (cases wanted)
        case True
        have "Q (vd, elems st) (if STACK_EMPTY st then freeP (STACK_DEL st) p3 else p3)"
          using True p3 del
          by (intro Q [of _ t ts]) (auto simp: directives_blocks_def tag_directives_blocks_def STACK_EMPTY_def algebra_simps)
        with True show ?thesis by (auto simp: wp_simps split: if_splits)
      next
        case False
        with none same d st0 have "elems st = []" by auto
        then have "Q (None, []) (freeP (yaml_free (vd \<noteq> None)) (freeP (STACK_DEL st) p3))"
          using del2 by (intro Q [of _ t ts]) (auto simp: directives_blocks_def tag_directives_blocks_def)
        with False show ?thesis by (simp add: wp_simps)
      qed
    qed (use free d in auto)
  qed (use st0 E in auto)
next
  fix h :: heap
  assume "live h = live (p_mem p)"
  then show "E (p\<lparr>p_mem := h, p_error := YAML_MEMORY_ERROR\<rparr>)"
    using p by (intro E) (simp add: failed_def pview_def)
qed

subsection \<open>Streams and documents\<close>

text \<open>The first token: the scanner is started.\<close>

lemma wp_PEEK_TOKEN_start:
  assumes C: "fetch_contract fetch I left" and p: "start_inv I p"
    and Q: "\<And>t ts p'. pview I left p' (p_state p) (stk p) (length (elems (p_marks p))) (Some (t # ts)) (left (scn p)) (balance p)
      \<Longrightarrow> Q t p'"
    and E: "\<And>p'. failed (balance p) p' \<Longrightarrow> E p'"
  shows "wp (PEEK_TOKEN fetch) Q E p"
proof -
  let ?head = "readM (\<lambda>p. case items (p_tokens p) of [] \<Rightarrow> faultM | t # _ \<Rightarrow> returnM t)"
  have "wp fetch
          (\<lambda>_ p'. I (scn p') \<and> left (scn p') \<le> left (scn p) \<and> p_token_available p' \<and> items (p_tokens p') \<noteq> []
             \<and> p_error p' = YAML_NO_ERROR \<and> p_stream_start_produced p' \<and> \<not> p_stream_end_produced p'
             \<and> yaml_scanner.more p' = yaml_scanner.more p \<and> balance p' = balance p)
          (\<lambda>p'. p_error p' \<noteq> YAML_COMPOSER_ERROR \<and> yaml_scanner.more p' = yaml_scanner.more p
             \<and> balance p' = balance p) p"
    using C p unfolding fetch_contract_def start_inv_def by blast
  then have "wp fetch (\<lambda>_. wp ?head Q E) E p"
  proof (rule wp_mono)
    fix a p'
    assume *: "I (scn p') \<and> left (scn p') \<le> left (scn p) \<and> p_token_available p' \<and> items (p_tokens p') \<noteq> []
             \<and> p_error p' = YAML_NO_ERROR \<and> p_stream_start_produced p' \<and> \<not> p_stream_end_produced p'
             \<and> yaml_scanner.more p' = yaml_scanner.more p \<and> balance p' = balance p"
    obtain t ts where t: "items (p_tokens p') = t # ts" using * by (cases "items (p_tokens p')") auto
    have "pview I left p' (p_state p) (stk p) (length (elems (p_marks p))) (Some (t # ts)) (left (scn p)) (balance p)"
      using * p t more_eq [of p' p] by (auto simp: pview_def base_inv_def start_inv_def)
    with t show "wp ?head Q E p'" by (simp add: wp_simps Q)
  qed (use E in \<open>auto simp: failed_def\<close>)
  moreover have "\<not> p_token_available p" using p by (simp add: start_inv_def)
  ultimately show ?thesis by (simp add: PEEK_TOKEN_def wp_seqM wp_readM)
qed

lemma wp_stream_start:
  assumes C: "fetch_contract fetch I left" and p: "start_inv I p" "stk p = []" "elems (p_marks p) = []"
  defines "b \<equiv> balance p" and "n \<equiv> left (scn p)" and "k \<equiv> 16 * left (scn p)" and "s \<equiv> p_state p"
  shows "wp (yaml_parser_parse_stream_start fetch) (parsed I left AStart k b) (failed b) p"
  unfolding yaml_parser_parse_stream_start_def wp_bindM
proof (rule wp_PEEK_TOKEN_start [OF C p(1)])
  fix t ts p1
  assume "pview I left p1 (p_state p) (stk p) (length (elems (p_marks p))) (Some (t # ts)) (left (scn p)) (balance p)"
  then have p1: "pview I left p1 s [] 0 (Some (t # ts)) n b" using p by (simp add: b_def n_def s_def)
  have k: "16 * n \<le> k" by (simp add: n_def k_def)
  have start: "wp (seqM (set_state YAML_PARSE_IMPLICIT_DOCUMENT_START_STATE)
           (seqM SKIP_TOKEN (event (StreamStartEvent enc) (t_start_mark t) (t_start_mark t)))) (parsed I left AStart k b) (failed b) p1"
    if t: "t_type t = YAML_STREAM_START_TOKEN" for enc
    unfolding wp_seqM [of "set_state _"] wp_modifyM wp_seqM [of SKIP_TOKEN]
    by (rule wp_SKIP_TOKEN [OF C pview_set_state [OF p1]])
      (use t k in \<open>auto simp: wp_returnM control_simps next_ok_def mu_def intro!: parsedI\<close>)
  show "wp (case t_data t of StreamStartToken enc \<Rightarrow> seqM (set_state YAML_PARSE_IMPLICIT_DOCUMENT_START_STATE)
           (seqM SKIP_TOKEN (event (StreamStartEvent enc) (t_start_mark t) (t_start_mark t)))
        | _ \<Rightarrow> yaml_parser_set_parser_error ''did not find expected <stream-start>'' (t_start_mark t))
      (parsed I left AStart k b) (failed b) p1"
    using start failed_error(1) [OF p1]
    by (cases "t_data t") (simp_all add: t_type_def yaml_parser_set_parser_error_def wp_errorM)
qed (simp add: b_def)

lemma pview_pop_tag_directives:
  assumes "fetch_contract fetch I left" "pview I left p s ss m tk n b"
  shows "pview I left (pop_tag_directives p) s ss m tk n b"
proof -
  have "balance (pop_tag_directives p) = balance p"
    by (simp add: balance_def parser_blocks_def pop_tag_directives_def freeP_def)
  moreover have "scn (pop_tag_directives p) = (scn p)\<lparr>p_mem := p_mem (pop_tag_directives p)\<rparr>"
    by (simp add: pop_tag_directives_def freeP_def)
  ultimately show ?thesis
    using assms(2) fetch_contract_mem [OF assms(1), where s = "scn p"]
    by (auto simp: pview_def base_inv_def) (auto simp: pop_tag_directives_def freeP_def stack_ok_def split: option.splits)
qed

lemma wp_document_end:
  assumes C: "fetch_contract fetch I left" and p: "pview I left p s [] 0 tk n b" and k: "16 * n < k"
  shows "wp (yaml_parser_parse_document_end fetch) (parsed I left ADocEnd k b) (failed b) p"
proof -
  have fin: "parsed I left ADocEnd k b (EVENT_INIT (DocumentEndEvent impl) y z)
      ((pop_tag_directives q)\<lparr>p_state := YAML_PARSE_DOCUMENT_START_STATE\<rparr>)" if "pview I left q s [] 0 tk' n b" for q tk' impl y z
    by (rule parsedI [OF pview_set_state [OF pview_pop_tag_directives [OF C]]])
      (use that k in \<open>auto simp: control_simps next_ok_def mu_def\<close>)
  show ?thesis unfolding yaml_parser_parse_document_end_def wp_bindM Let_def
  proof (rule wp_PEEK_TOKEN [OF C p])
    fix t ts p1
    assume p1: "pview I left p1 s [] 0 (Some (t # ts)) n b"
    have skip: "wp SKIP_TOKEN Q E p1"
      if "t_type t = YAML_DOCUMENT_END_TOKEN" "\<And>q. pview I left q s [] 0 None n b \<Longrightarrow> Q () q" for Q E
      by (rule wp_SKIP_TOKEN [OF C p1]) (use that(1) in \<open>auto simp: token_blocks_type intro!: that(2) elim: pview_mono\<close>)
    show "wp (seqM (if t_type t = YAML_DOCUMENT_END_TOKEN then SKIP_TOKEN else returnM ())
       (seqM (modifyM pop_tag_directives)
       (seqM (set_state YAML_PARSE_DOCUMENT_START_STATE)
         (event (DocumentEndEvent (t_type t \<noteq> YAML_DOCUMENT_END_TOKEN)) (t_start_mark t)
           (if t_type t = YAML_DOCUMENT_END_TOKEN then t_end_mark t else t_start_mark t)))))
       (parsed I left ADocEnd k b) (failed b) p1"
      using p1 by (auto simp: wp_simps intro!: skip fin)
  qed simp
qed

lemma wp_document_content:
  assumes C: "fetch_contract fetch I left" and p: "pview I left p s ss m tk n b"
    and wf: "stack_wf ss" "m = sum_list (map state_marks ss)" "16 * n + 3 * length ss < k"
  shows "wp (yaml_parser_parse_document_content fetch) (parsed I left (ANode (frames ss)) k b) (failed b) p"
proof -
  obtain x ss' where ss: "ss = x # ss'" using wf(1) by (cases ss) auto
  have wf': "stack_wf (x # ss')" and rank: "rank x \<le> 2" using wf(1) rank_resume by (simp_all add: ss)
  have pop: "wp (seqM POP_STATE (yaml_parser_process_empty_scalar mk)) (parsed I left (ANode (frames ss)) k b) (failed b) p1"
    if p1: "pview I left p1 s ss m (Some (t # ts)) n b" for p1 t ts mk
    unfolding wp_seqM
    by (rule wp_POP_STATE [OF p1 [unfolded ss]], rule wp_process_empty_scalar [OF C _ next_ok_resume [OF wf']])
      (use wf rank after_node_resume [OF wf'] in \<open>auto simp: ss mu_def\<close>)
  show ?thesis unfolding yaml_parser_parse_document_content_def wp_bindM
    by (rule wp_PEEK_TOKEN [OF C p]) (use wf in \<open>auto simp: wp_if intro!: pop wp_parse_node [OF C]\<close>)
qed

lemma wp_skip_document_ends:
  fixes p :: "'h yaml_parser"
  assumes C: "fetch_contract fetch I left" and p: "pview I left p s ss m tk n b"
    and Q: "\<And>t ts p'. pview I left p' s ss m (Some (t # ts)) n b \<Longrightarrow> Q t p'"
    and E: "\<And>p'. failed b p' \<Longrightarrow> E p'"
  shows "wp (returns (skip_document_ends fetch)) Q E p"
  using p Q
proof (induction n arbitrary: p tk rule: less_induct)
  case (less n)
  have peek: "wp (PEEK_TOKEN fetch) (\<lambda>t p1. \<exists>ts. pview I left p1 s ss m (Some (t # ts)) n b) (failed b) p"
    by (rule wp_PEEK_TOKEN [OF C less.prems(1)]) auto
  show ?case
  proof (cases "PEEK_TOKEN fetch p")
    case (Return t p1)
    obtain ts where p1: "pview I left p1 s ss m (Some (t # ts)) n b" using wp_Return [OF peek Return] by blast
    show ?thesis
    proof (cases "t_type t = YAML_DOCUMENT_END_TOKEN")
      case False
      with Return less.prems(2) [OF p1] show ?thesis
        by (simp add: wp_def returns_skip_document_ends)
    next
      case True
      have "wp SKIP_TOKEN (\<lambda>_. wp (returns (skip_document_ends fetch)) Q E) (\<lambda>_. False) p1"
      proof (rule wp_SKIP_TOKEN [OF C p1])
        fix p2
        assume "pview I left p2 s ss m None (n - 1) (b + token_blocks t)" and n: "0 < n"
        then have p2: "pview I left p2 s ss m None (n - 1) b" using True by (simp add: token_blocks_type)
        show "wp (returns (skip_document_ends fetch)) Q E p2"
          by (rule less.IH [OF _ p2]) (use n in \<open>auto intro!: less.prems(2) elim: pview_mono\<close>)
      qed (use True in auto)
      with Return True show ?thesis
        by (simp add: wp_def returns_skip_document_ends [of fetch p] split: result.splits)
    qed
  next
    case (Error q)
    from E [OF wp_Error [OF peek this]] Error show ?thesis
      by (simp add: wp_def returns_skip_document_ends)
  next
    case Fault
    with wp_no_fault [OF peek] show ?thesis by simp
  qed
qed

end
