(* ===== verification/Parser_Errors.thy ===== *)
theory Parser_Errors
  imports Parser
begin

text \<open>
  Every failure of the parser is reported: a program with \<open>sets_error\<close> leaves \<open>error\<close> set where it returns 0.
  The parser has this property if the scanner has it.  \<open>reports True\<close> is what can be said of a scanner that does not
  set an error where an allocation is refused: without an error in the parser, an allocation was refused.
\<close>

subsection \<open>The allocations of a program\<close>

text \<open>Between the heaps \<open>h\<close> and \<open>h'\<close> the allocator was called, and it refused a request, respectively.\<close>

definition spent :: "heap \<Rightarrow> heap \<Rightarrow> bool" where
  "spent h h' \<longleftrightarrow> (\<exists>bs. outcomes h = bs @ outcomes h')"

definition refused :: "heap \<Rightarrow> heap \<Rightarrow> bool" where
  "refused h h' \<longleftrightarrow> (\<exists>bs. outcomes h = bs @ outcomes h' \<and> False \<in> set bs)"

lemma spent_same: "outcomes h' = outcomes h \<Longrightarrow> spent h h'"
  by (simp add: spent_def)

lemma spent_trans: "spent h1 h2 \<Longrightarrow> spent h2 h3 \<Longrightarrow> spent h1 h3"
  by (force simp: spent_def)

lemma refused_trans: "spent h1 h2 \<Longrightarrow> refused h2 h3 \<Longrightarrow> refused h1 h3"
  by (force simp: spent_def refused_def)

lemma spent_next: "next_outcome h = (b, h') \<Longrightarrow> spent h h' \<and> (\<not> b \<longrightarrow> refused h h')"
  by (auto simp: next_outcome.simps spent_def refused_def split: list.splits intro: exI [of _ "[False]"])

lemma spent_live [simp]: "spent h (h'\<lparr>live := x\<rparr>) = spent h h'"
  by (simp add: spent_def)

text \<open>The heap is the part \<open>H\<close> of the state.\<close>

definition spends :: "('s \<Rightarrow> heap) \<Rightarrow> ('s, 'a) prog \<Rightarrow> bool" where
  "spends H m \<longleftrightarrow> (\<forall>s. (\<forall>a s'. m s = Return a s' \<longrightarrow> spent (H s) (H s')) \<and> (\<forall>s'. m s = Error s' \<longrightarrow> spent (H s) (H s')))"

named_theorems spends_rules \<open>rules for programs that only use the allocator\<close>

lemma spendsD: "spends H m \<Longrightarrow> m s = Return a s' \<Longrightarrow> spent (H s) (H s')" "spends H m \<Longrightarrow> m s = Error s' \<Longrightarrow> spent (H s) (H s')"
  by (auto simp: spends_def)

lemma spends_basic [spends_rules]: "spends H (returnM a)" "spends H faultM" "spends H (getM f)" "spends H (assertM b)"
  by (auto simp: spends_def prog_defs spent_same)

lemma spends_bindM [spends_rules]: "spends H m \<Longrightarrow> (\<And>a. spends H (f a)) \<Longrightarrow> spends H (bindM m f)"
  unfolding spends_def bindM_def by (fastforce split: result.splits intro: spent_trans)

lemma spends_seqM [spends_rules]: "spends H m \<Longrightarrow> spends H n \<Longrightarrow> spends H (seqM m n)"
  by (simp add: seqM_def spends_bindM)

lemma spends_if [spends_rules]: "spends H m \<Longrightarrow> spends H n \<Longrightarrow> spends H (if b then m else n)"
  by simp

lemma spends_errorM [spends_rules]: "(\<And>s. outcomes (H (f s)) = outcomes (H s)) \<Longrightarrow> spends H (errorM f)"
  by (auto simp: spends_def errorM_def spent_same)

lemma spends_whileM [spends_rules]: "spends H m \<Longrightarrow> spends H (whileM n b m)"
proof (induction n)
  case (Suc n)
  then have "spends H (bindM m (\<lambda>_. whileM n b m))" by (intro spends_rules)
  then show ?case by (auto simp: spends_def spent_same)
qed (auto simp: spends_def spent_same)

lemma spends_malloc [spends_rules]: "spends id (malloc n)" "spends id (realloc n)" "spends id (yaml_malloc n)"
  "spends id (yaml_realloc b n)" "spends id (yaml_strdup t)"
proof -
  show m: "spends id (malloc n)" "spends id (realloc n)" for n
    by (auto simp: spends_def malloc_def realloc_def dest!: spent_next split: prod.splits if_splits)
  show "spends id (yaml_malloc n)" "spends id (yaml_realloc b n)" unfolding yaml_malloc_def yaml_realloc_def
    by (intro m spends_rules)+
  show "spends id (yaml_strdup t)" unfolding yaml_strdup_def by (auto intro!: m spends_rules split: option.split)
qed

lemma spends_inits [spends_rules]: "spends id (STACK_INIT n)" "spends id (STRING_INIT n)"
  unfolding STACK_INIT_def STRING_INIT_def by (intro spends_rules; simp)+

lemma spends_containers [spends_rules]:
  "spends snd (PUSH v)" "spends snd (ENQUEUE w)" "spends snd (QUEUE_INSERT i w)"
  "spends snd STRING_EXTEND" "spends snd yaml_string_extend" "spends snd (str_append bs)" "spends snd (yaml_string_join b)"
proof -
  have "spends snd yaml_stack_extend" "spends snd yaml_queue_extend" and e: "spends snd yaml_string_extend"
    by (auto simp: spends_def yaml_stack_extend_def yaml_queue_extend_def yaml_string_extend_def spent_same
        split: result.splits bool.splits if_splits dest: spendsD [OF spends_malloc(4)])
  moreover have "spends snd (store_top v)" "spends snd (store_tail w)" "spends snd (store_at i w)" and a: "spends snd (str_append bs)" for bs
    by (auto simp: spends_def store_top_def store_tail_def store_at_def str_append_def spent_same split: if_splits)
  ultimately have s: "spends snd (seqM yaml_stack_extend (store_top v))" "spends snd (seqM yaml_queue_extend (store_tail w))"
      "spends snd (seqM yaml_queue_extend (store_at i w))" "spends snd (store_top v)" "spends snd (store_tail w)" "spends snd (store_at i w)"
    by (auto intro: spends_rules)
  from s show "spends snd (PUSH v)" "spends snd (ENQUEUE w)" "spends snd (QUEUE_INSERT i w)"
    by (simp_all add: spends_def PUSH_def ENQUEUE_def QUEUE_INSERT_def)
  from e show "spends snd STRING_EXTEND" by (auto simp: spends_def STRING_EXTEND_def spent_same)
  from e show "spends snd yaml_string_extend" .
  from a show "spends snd (str_append bs)" .
  from e a show "spends snd (yaml_string_join b)" unfolding yaml_string_join_def Let_def by (intro spends_rules)
qed

subsection \<open>Reports of failures\<close>

definition sets_error :: "(('h, 'z) yaml_reader_scheme, 'a) prog \<Rightarrow> bool" where
  "sets_error m \<longleftrightarrow> (\<forall>p p'. m p = Error p' \<longrightarrow> p_error p' \<noteq> YAML_NO_ERROR)"

text \<open>\<open>g\<close>: whether a refused allocation excuses a missing error.\<close>

definition reported :: "bool \<Rightarrow> ('h, 'z) yaml_reader_scheme \<Rightarrow> (('h, 'z) yaml_reader_scheme, 'a) result \<Rightarrow> bool" where
  "reported g p r \<longleftrightarrow> (case r of
     Return _ p' \<Rightarrow> g \<longrightarrow> spent (p_mem p) (p_mem p')
   | Error p' \<Rightarrow> (g \<longrightarrow> spent (p_mem p) (p_mem p')) \<and> (p_error p' = YAML_NO_ERROR \<longrightarrow> g \<and> refused (p_mem p) (p_mem p'))
   | Fault \<Rightarrow> True)"

definition reports :: "bool \<Rightarrow> (('h, 'z) yaml_reader_scheme, 'a) prog \<Rightarrow> bool" where
  "reports g m \<longleftrightarrow> (\<forall>p. reported g p (m p))"

named_theorems sets_error_rules \<open>rules for programs that report their failures\<close>

lemma reported_simps [simp]:
  "reported g p (Return a p') \<longleftrightarrow> (g \<longrightarrow> spent (p_mem p) (p_mem p'))" "reported g p Fault"
  "reported g p (Error p') \<longleftrightarrow> (g \<longrightarrow> spent (p_mem p) (p_mem p')) \<and> (p_error p' = YAML_NO_ERROR \<longrightarrow> g \<and> refused (p_mem p) (p_mem p'))"
  by (simp_all add: reported_def)

lemma reported_trans: "(g \<Longrightarrow> spent (p_mem p) (p_mem q)) \<Longrightarrow> reported g q r \<Longrightarrow> reported g p r"
  by (auto simp: reported_def split: result.splits intro: spent_trans refused_trans)

lemma reported_free: "(\<And>h. outcomes (f h) = outcomes h) \<Longrightarrow> reported g p (Error (freeP f p') :: (_, 'a) result) = reported g p (Error p' :: (_, 'b) result)"
  by (simp add: freeP_def spent_def refused_def)

lemma reportsD: "reports g m \<Longrightarrow> m p = r \<Longrightarrow> reported g p r"
  by (auto simp: reports_def)

lemma sets_error_reports: "sets_error m = reports False m"
  by (auto simp: sets_error_def reports_def reported_def split: result.splits)

lemma sets_errorD: "sets_error m \<Longrightarrow> m p = Error p' \<Longrightarrow> p_error p' \<noteq> YAML_NO_ERROR"
  by (auto simp: sets_error_def)

lemma reports_basic [sets_error_rules]:
  "reports g (returnM a)" "reports g faultM" "reports g (getM f)" "reports g (assertM b)"
  by (auto simp: reports_def prog_defs spent_same reported_def)

lemma reports_modifyM [sets_error_rules]: "(\<And>p. outcomes (p_mem (f p)) = outcomes (p_mem p)) \<Longrightarrow> reports g (modifyM f)"
  by (auto simp: reports_def prog_defs spent_same reported_def)

lemma reports_modify_free [sets_error_rules]: "(\<And>h. outcomes (f h) = outcomes h) \<Longrightarrow> reports g (modifyM (freeP f))"
  by (rule reports_modifyM) (simp add: freeP_def)

lemma reports_errorM [sets_error_rules]:
  "(\<And>p. p_error (f p) \<noteq> YAML_NO_ERROR) \<Longrightarrow> (\<And>p. outcomes (p_mem (f p)) = outcomes (p_mem p)) \<Longrightarrow> reports g (errorM f)"
  by (auto simp: reports_def errorM_def spent_same)

lemma reports_bindM [sets_error_rules]:
  assumes "reports g m" "\<And>a. reports g (f a)" shows "reports g (bindM m f)"
  unfolding reports_def
proof
  fix p
  show "reported g p (bindM m f p)"
  proof (cases "m p")
    case (Return a q)
    then have "g \<longrightarrow> spent (p_mem p) (p_mem q)" using reportsD [OF assms(1) Return] by simp
    with assms(2) [of a] have "reported g p (f a q)" by (auto simp: reports_def intro: reported_trans)
    with Return show ?thesis by (simp add: bindM_def)
  next
    case (Error q)
    with reportsD [OF assms(1) Error] show ?thesis by (simp add: bindM_def)
  next
    case Fault
    then show ?thesis by (simp add: bindM_def)
  qed
qed

lemma reports_seqM [sets_error_rules]: "reports g m \<Longrightarrow> reports g n \<Longrightarrow> reports g (seqM m n)"
  by (simp add: seqM_def reports_bindM)

lemma reports_readM [sets_error_rules]: "(\<And>p. reports g (f p)) \<Longrightarrow> reports g (readM f)"
  by (simp add: reports_def readM_def)

lemma reports_cleanup [sets_error_rules]:
  "reports g m \<Longrightarrow> (\<And>h. outcomes (f h) = outcomes h) \<Longrightarrow> reports g (cleanupM m (freeP f))"
proof -
  assume m: "reports g m" and f: "\<And>h. outcomes (f h) = outcomes h"
  have "reported g p (cleanupM m (freeP f) p)" for p
    using reportsD [OF m, of p] by (cases "m p") (simp_all add: cleanupM_def freeP_def spent_def refused_def f)
  then show ?thesis by (simp add: reports_def)
qed

lemma reports_if [sets_error_rules]: "(b \<Longrightarrow> reports g m) \<Longrightarrow> (\<not> b \<Longrightarrow> reports g n) \<Longrightarrow> reports g (if b then m else n)"
  by simp

lemma reports_case_option [sets_error_rules]:
  "reports g m \<Longrightarrow> (\<And>x. reports g (f x)) \<Longrightarrow> reports g (case x of None \<Rightarrow> m | Some y \<Rightarrow> f y)"
  by (cases x) simp_all

lemma reports_case_prod [sets_error_rules]: "(\<And>x y. reports g (f x y)) \<Longrightarrow> reports g (case z of (x, y) \<Rightarrow> f x y)"
  by (cases z) simp

lemma reports_case_list [sets_error_rules]:
  "reports g m \<Longrightarrow> (\<And>x xs. reports g (f x xs)) \<Longrightarrow> reports g (case l of [] \<Rightarrow> m | x # xs \<Rightarrow> f x xs)"
  by (cases l) simp_all

lemma reports_push_stack [sets_error_rules]:
  assumes "\<And>st p. p_error (put st p) = p_error p" "\<And>st p. p_mem (put st p) = p_mem p"
  shows "reports g (push_stack get put x)"
  unfolding reports_def push_stack_def
  using spendsD [OF spends_containers(1) [of x]] by (fastforce simp: assms reported_def split: result.splits)

lemma reports_memP [sets_error_rules]: "spends id m \<Longrightarrow> reports g (memP m)"
  by (auto simp: reports_def reported_def memP_def prog_defs split: result.splits dest: spendsD)

lemma reports_heap [sets_error_rules]:
  "spends id m \<Longrightarrow> (\<And>h h'. m h \<noteq> Error h') \<Longrightarrow> reports g (zoomM p_mem (\<lambda>h p. p\<lparr>p_mem := h\<rparr>) m)"
  by (auto simp: reports_def reported_def zoomM_def split: result.splits dest: spendsD)

lemma reports_pop [sets_error_rules]: "(\<And>t p. p_mem (put t p) = p_mem p) \<Longrightarrow> reports g (zoomM get put POP)"
  by (auto simp: reports_def reported_def zoomM_def POP_def spent_same split: result.splits if_splits)

lemma strdup_no_error: "yaml_strdup t h \<noteq> Error h'"
  by (cases t) (auto simp: yaml_strdup_def prog_defs malloc_def split: prod.splits result.splits if_splits)

lemma outcomes_free [simp]: "outcomes (free_string x h) = outcomes h" "outcomes (STACK_DEL st h) = outcomes h"
  by (simp_all add: free_string_def STACK_DEL_def)

subsection \<open>The operations of the parser\<close>

lemma reports_SKIP_TOKEN [sets_error_rules]: "reports g SKIP_TOKEN"
  by (auto simp: reports_def reported_def SKIP_TOKEN_def spent_same split: result.splits)

lemma reports_deref [sets_error_rules]: "reports g m \<Longrightarrow> reports g (deref m)"
  by (auto simp: reports_def reported_def deref_def split: result.splits)

lemma reports_push_local [sets_error_rules]: "reports g (push_local v ds)"
  by (auto simp: reports_def reported_def push_local_def split: result.splits dest: spendsD [OF spends_containers(1)])

lemma reports_primitives [sets_error_rules]:
  "reports g (yaml_parser_set_parser_error x m)" "reports g (yaml_parser_set_parser_error_context c m x m')"
  "reports g (parser_malloc k)" "reports g (PUSH_STATE s)" "reports g (PUSH_MARK m)" "reports g POP_STATE" "reports g POP_MARK"
  "reports g (copy_of t)"
  unfolding yaml_parser_set_parser_error_def yaml_parser_set_parser_error_context_def parser_malloc_def
      PUSH_STATE_def PUSH_MARK_def POP_STATE_def POP_MARK_def copy_of_def
  by (intro sets_error_rules spends_rules; simp add: strdup_no_error)+

lemma sets_error_PEEK_TOKEN [sets_error_rules]: "reports g fetch \<Longrightarrow> reports g (PEEK_TOKEN fetch)"
  unfolding PEEK_TOKEN_def by (intro sets_error_rules)

lemma sets_error_append_tag_directive [sets_error_rules]: "reports g (yaml_parser_append_tag_directive v d m)"
  unfolding yaml_parser_append_tag_directive_def by (intro sets_error_rules) simp_all

lemma sets_error_append_default [sets_error_rules]: "reports g (append_default_tag_directives tds m)"
  by (induction tds) (auto intro!: sets_error_rules)

lemma sets_error_process_directive: "process_directive token ds = Some m \<Longrightarrow> reports g m"
  by (auto simp: process_directive_def Let_def split: yaml_token_data.splits intro!: sets_error_rules)

lemma outcomes_free_tags [simp]: "outcomes (free_tag_directives tds h) = outcomes h" "outcomes (free_directives ds h) = outcomes h"
proof -
  show "outcomes (free_tag_directives tds h) = outcomes h" for tds h
    unfolding free_tag_directives_def by (induction tds arbitrary: h) (simp_all add: free_tag_directive_def)
  from this [of _ "yaml_free (fst ds \<noteq> None) h"] show "outcomes (free_directives ds h) = outcomes h"
    by (simp add: free_directives_def del_tag_stack_def)
qed

lemma directives_loop_reported:
  assumes "reports g fetch" "directives_loop fetch ds p = Some r"
  shows "reported g p r"
proof -
  have "reports g fetch \<longrightarrow> reported g p r" if "directives_loop fetch ds p = Some r"
  proof (rule directives_loop.raw_induct [OF _ that, where P = "\<lambda>fetch ds p r. reports g fetch \<longrightarrow> reported g p r"], intro impI)
    fix loop :: "('h yaml_parser, unit) prog \<Rightarrow> directives \<Rightarrow> 'h yaml_parser \<Rightarrow> ('h yaml_parser, yaml_token \<times> directives) result option"
      and fetch ds p r
    assume IH: "\<And>fetch ds p r. loop fetch ds p = Some r \<Longrightarrow> reports g fetch \<longrightarrow> reported g p r" and fetch: "reports g fetch"
      and run: "(case PEEK_TOKEN fetch p of
        Return token p1 \<Rightarrow> (case process_directive token ds of
          None \<Rightarrow> Some (Return (token, ds) p1)
        | Some m \<Rightarrow> (case bindM m (\<lambda>ds'. seqM SKIP_TOKEN (returnM ds')) p1 of
              Return ds' p2 \<Rightarrow> loop fetch ds' p2
            | Error p2 \<Rightarrow> Some (Error (freeP (free_directives ds) p2)) | Fault \<Rightarrow> Some Fault))
        | Error p1 \<Rightarrow> Some (Error (freeP (free_directives ds) p1)) | Fault \<Rightarrow> Some Fault) = Some r"
    note peek = reportsD [OF sets_error_PEEK_TOKEN [OF fetch], of p]
    have free: "reported g q (Error (freeP (free_directives ds) q') :: (_, 'b) result) = reported g q (Error q' :: (_, 'b) result)" for q q'
      by (rule reported_free) simp
    show "reported g p r"
    proof (cases "PEEK_TOKEN fetch p")
      case (Return token p1)
      with peek have p1: "g \<Longrightarrow> spent (p_mem p) (p_mem p1)" by auto
      show ?thesis
      proof (cases "process_directive token ds :: ('h yaml_parser, directives) prog option")
        case None
        with run Return p1 show ?thesis by auto
      next
        case (Some m)
        have "reports g (bindM m (\<lambda>ds'. seqM SKIP_TOKEN (returnM ds')))"
          using sets_error_process_directive [OF Some] by (intro sets_error_rules)
        note step = reportsD [OF this, of p1]
        have "reported g p1 r"
        proof (cases "bindM m (\<lambda>ds'. seqM SKIP_TOKEN (returnM ds')) p1")
          case (Return ds' p2)
          with step have "g \<Longrightarrow> spent (p_mem p1) (p_mem p2)" by auto
          moreover have "reported g p2 r" using IH fetch run Return \<open>PEEK_TOKEN fetch p = Return token p1\<close> Some by auto
          ultimately show ?thesis by (blast intro: reported_trans)
        qed (use step run Some Return in \<open>auto simp: freeP_def spent_def refused_def\<close>)
        with p1 show ?thesis by (blast intro: reported_trans)
      qed
    qed (use peek run in \<open>auto simp: freeP_def spent_def refused_def\<close>)
  qed
  with assms show ?thesis by blast
qed

lemma skip_document_ends_reported:
  assumes "reports g fetch" "skip_document_ends fetch p = Some r"
  shows "reported g p r"
proof -
  have "reports g fetch \<longrightarrow> reported g p r" if "skip_document_ends fetch p = Some r"
  proof (rule skip_document_ends.raw_induct [OF _ that, where P = "\<lambda>fetch p r. reports g fetch \<longrightarrow> reported g p r"], intro impI)
    fix loop :: "('h yaml_parser, unit) prog \<Rightarrow> 'h yaml_parser \<Rightarrow> ('h yaml_parser, yaml_token) result option" and fetch p r
    assume IH: "\<And>fetch p r. loop fetch p = Some r \<Longrightarrow> reports g fetch \<longrightarrow> reported g p r" and fetch: "reports g fetch"
      and run: "(case PEEK_TOKEN fetch p of
        Return token p1 \<Rightarrow> if t_type token = YAML_DOCUMENT_END_TOKEN
          then (case SKIP_TOKEN p1 of Return _ p2 \<Rightarrow> loop fetch p2 | Error p2 \<Rightarrow> Some (Error p2) | Fault \<Rightarrow> Some Fault)
          else Some (Return token p1)
        | Error p1 \<Rightarrow> Some (Error p1) | Fault \<Rightarrow> Some Fault) = Some r"
    note peek = reportsD [OF sets_error_PEEK_TOKEN [OF fetch], of p]
    show "reported g p r"
    proof (cases "PEEK_TOKEN fetch p")
      case (Return token p1)
      with peek have p1: "g \<Longrightarrow> spent (p_mem p) (p_mem p1)" by auto
      note skip = reportsD [OF reports_SKIP_TOKEN [of g], of p1]
      have "reported g p1 r"
      proof (cases "t_type token = YAML_DOCUMENT_END_TOKEN")
        case True
        with run Return skip IH fetch show ?thesis
          by (cases "SKIP_TOKEN p1") (auto intro: reported_trans)
      qed (use run Return in \<open>auto simp: spent_same\<close>)
      with p1 show ?thesis by (blast intro: reported_trans)
    qed (use peek run in fastforce)+
  qed
  with assms show ?thesis by blast
qed

lemma sets_error_loops [sets_error_rules]:
  assumes "reports g fetch"
  shows "reports g (returns (directives_loop fetch ds))" "reports g (returns (skip_document_ends fetch))"
  using directives_loop_reported [OF assms, of ds] skip_document_ends_reported [OF assms]
  by (auto simp: reports_def returns_def split: option.splits)

lemmas small_operations = yaml_parser_process_empty_scalar_def yaml_parser_process_directives_def close_collection_def
  collection_error_def open_collection_def skip_flow_entry_def resolve_tag_def

lemma sets_error_small [sets_error_rules]:
  "reports g (yaml_parser_process_empty_scalar m)" "reports g (close_collection t d)" "reports g (collection_error c x t)"
  "reports g (resolve_tag tag m)"
  "reports g fetch \<Longrightarrow> reports g (yaml_parser_process_directives fetch wanted)"
  "reports g fetch \<Longrightarrow> reports g (open_collection fetch first)"
  "reports g fetch \<Longrightarrow> reports g (skip_flow_entry fetch first t)"
  unfolding small_operations by (intro sets_error_rules spends_rules; (assumption | simp)?)+

lemma sets_error_parse_properties [sets_error_rules]: "reports g fetch \<Longrightarrow> reports g (parse_properties fetch t)"
  by (auto simp: parse_properties_def split: yaml_token_data.splits intro!: sets_error_rules)

lemma sets_error_node_content [sets_error_rules]: "reports g (parse_node_content b i a t sm em token)"
  by (auto simp: parse_node_content_def Let_def split: yaml_token_data.splits option.splits intro!: sets_error_rules)

lemma sets_error_parse_node [sets_error_rules]: "reports g fetch \<Longrightarrow> reports g (yaml_parser_parse_node fetch b i)"
  by (auto simp: yaml_parser_parse_node_def split: yaml_token_data.splits intro!: sets_error_rules)

lemma sets_error_entry [sets_error_rules]:
  "reports g fetch \<Longrightarrow> reports g (entry_node fetch stop r b i m)"
  "reports g fetch \<Longrightarrow> reports g (flow_value fetch stop r t)"
  unfolding entry_node_def flow_value_def by (intro sets_error_rules; (assumption | simp)?)+

lemmas state_handlers = yaml_parser_parse_stream_start_def yaml_parser_parse_document_start_def yaml_parser_parse_document_content_def
  yaml_parser_parse_document_end_def yaml_parser_parse_block_sequence_entry_def yaml_parser_parse_indentless_sequence_entry_def
  yaml_parser_parse_block_mapping_key_def yaml_parser_parse_block_mapping_value_def yaml_parser_parse_flow_sequence_entry_def
  yaml_parser_parse_flow_sequence_entry_mapping_key_def yaml_parser_parse_flow_sequence_entry_mapping_value_def
  yaml_parser_parse_flow_sequence_entry_mapping_end_def yaml_parser_parse_flow_mapping_key_def yaml_parser_parse_flow_mapping_value_def

lemma state_machine_reported:
  assumes "reports g fetch" "p_state p \<noteq> YAML_PARSE_END_STATE"
  shows "reported g p (yaml_parser_state_machine fetch p)"
proof -
  have start: "reports g (yaml_parser_parse_stream_start fetch)"
    using assms(1) by (auto simp: yaml_parser_parse_stream_start_def split: yaml_token_data.splits intro!: sets_error_rules)
  have others: "reports g (yaml_parser_parse_document_start fetch b)" "reports g (yaml_parser_parse_document_content fetch)"
    "reports g (yaml_parser_parse_document_end fetch)" "reports g (yaml_parser_parse_block_sequence_entry fetch b)"
    "reports g (yaml_parser_parse_indentless_sequence_entry fetch)" "reports g (yaml_parser_parse_block_mapping_key fetch b)"
    "reports g (yaml_parser_parse_block_mapping_value fetch)" "reports g (yaml_parser_parse_flow_sequence_entry fetch b)"
    "reports g (yaml_parser_parse_flow_sequence_entry_mapping_key fetch)"
    "reports g (yaml_parser_parse_flow_sequence_entry_mapping_value fetch)"
    "reports g (yaml_parser_parse_flow_sequence_entry_mapping_end fetch)"
    "reports g (yaml_parser_parse_flow_mapping_key fetch b)" "reports g (yaml_parser_parse_flow_mapping_value fetch b)" for b
    using assms(1) unfolding state_handlers Let_def by (intro sets_error_rules spends_rules; (assumption | simp add: free_document_start_def pop_tag_directives_def freeP_def)?)+
  note handlers = start [THEN reportsD, OF refl] others [THEN reportsD, OF refl] sets_error_parse_node [OF assms(1), THEN reportsD, OF refl]
  show ?thesis using assms(2)
    by (cases "p_state p") (simp_all add: yaml_parser_state_machine_def readM_def handlers)
qed

lemma parse_reports:
  assumes "reports g fetch" shows "reports g (yaml_parser_parse fetch)"
  using state_machine_reported [OF assms]
  by (auto simp: reports_def yaml_parser_parse_def readM_def returnM_def spent_same)

lemma parse_sets_error: "sets_error fetch \<Longrightarrow> sets_error (yaml_parser_parse fetch)"
  unfolding sets_error_reports by (rule parse_reports)

end
