(* ===== verification/Parser_Runs.thy ===== *)
theory Parser_Runs
  imports Parser_Correct Parser_Errors
begin

text \<open>
  The dispatcher of the parser and whole runs of it: the handler of document starts, the state
  machine, and what a program sees that calls \<open>yaml_parser_parse\<close> until the end of the stream.
\<close>

subsection \<open>The start of a document\<close>

lemma live_free_document_start:
  "live (free_document_start vd tds h) = live h - ((if vd = None then 0 else 1) + tag_directives_blocks tds)"
  by (simp add: free_document_start_def tag_directives_blocks_def)

lemma wp_implicit_document:
  assumes C: "fetch_contract fetch I left" and p: "pview I left p s [] 0 (Some (t # ts)) n b"
    and t: "\<not> is_directive t" and k: "16 * n + 5 \<le> k"
  shows "wp (seqM (yaml_parser_process_directives fetch False)
         (seqM (PUSH_STATE YAML_PARSE_DOCUMENT_END_STATE)
         (seqM (set_state YAML_PARSE_BLOCK_NODE_STATE)
           (event (DocumentStartEvent None [] True) y z)))) (parsed I left ADocs k b) (failed b) p"
  unfolding wp_seqM [of "yaml_parser_process_directives fetch False"]
proof (rule wp_process_directives [OF C p])
  fix vd and tds :: "yaml_tag_directive list" and t' ts' p1
  assume "pview I left p1 s [] 0 (Some (t' # ts')) n (b + (if vd = None then 0 else 1) + tag_directives_blocks tds)"
    and "\<not> False \<longrightarrow> vd = None \<and> tds = []"
  then have p1: "pview I left p1 s [] 0 (Some (t' # ts')) n b" by (simp add: tag_directives_blocks_def)
  show "wp (seqM (PUSH_STATE YAML_PARSE_DOCUMENT_END_STATE) (seqM (set_state YAML_PARSE_BLOCK_NODE_STATE)
           (event (DocumentStartEvent None [] True) y z))) (parsed I left ADocs k b) (failed b) p1"
    unfolding wp_seqM [of "PUSH_STATE _"]
    by (rule wp_PUSH_STATE [OF C p1])
      (use k in \<open>auto simp: wp_simps event_data_blocks_def tag_directives_blocks_def control_simps next_ok_def
        state_wf_def between_nodes_def mu_def frames_def intro!: parsedI pview_set_state\<close>)
qed (use t in auto)

lemma wp_explicit_document:
  fixes p :: "'h yaml_parser"
  assumes C: "fetch_contract fetch I left" and p: "pview I left p s [] 0 tk n b" and k: "16 * n \<le> k"
  shows "wp (bindM (yaml_parser_process_directives fetch True) (\<lambda>(vd, tds).
         cleanupM
           (bindM (PEEK_TOKEN fetch) (\<lambda>token'.
              if t_type token' \<noteq> YAML_DOCUMENT_START_TOKEN then
                yaml_parser_set_parser_error ''did not find expected <document start>'' (t_start_mark token')
              else
                seqM (PUSH_STATE YAML_PARSE_DOCUMENT_END_STATE)
                (seqM (set_state YAML_PARSE_DOCUMENT_CONTENT_STATE)
                (seqM SKIP_TOKEN
                  (event (DocumentStartEvent vd tds False) y (t_end_mark token'))))))
           (freeP (free_document_start vd tds)))) (parsed I left ADocs k b) (failed b) p"
  unfolding wp_bindM [of "yaml_parser_process_directives fetch True"]
proof (rule wp_process_directives [OF C p], simp)
  fix vd :: "yaml_version_directive option" and tds t ts and p1 :: "'h yaml_parser"
  let ?b = "b + (if vd = None then 0 else 1) + tag_directives_blocks tds"
  assume p1: "pview I left p1 s [] 0 (Some (t # ts)) n ?b"
  have free: "failed b (freeP (free_document_start vd tds) q)" if "failed ?b q" for q :: "'h yaml_parser"
    using failed_freeP [OF that live_free_document_start [of vd tds]] by simp
  have fin: "wp (seqM (PUSH_STATE YAML_PARSE_DOCUMENT_END_STATE)
        (seqM (set_state YAML_PARSE_DOCUMENT_CONTENT_STATE)
        (seqM SKIP_TOKEN (event (DocumentStartEvent vd tds False) y z))))
      (parsed I left ADocs k b) (\<lambda>q. failed b (freeP (free_document_start vd tds) q)) p2"
    if p2: "pview I left p2 s [] 0 (Some (t' # ts')) n ?b" and t': "t_type t' = YAML_DOCUMENT_START_TOKEN"
    for p2 t' ts' z
    unfolding wp_seqM [of "PUSH_STATE _"]
  proof (rule wp_PUSH_STATE [OF C p2], unfold wp_seqM wp_modifyM)
    fix p3
    assume p3: "pview I left p3 s [YAML_PARSE_DOCUMENT_END_STATE] 0 (Some (t' # ts')) n ?b"
    show "wp SKIP_TOKEN (\<lambda>_. wp (event (DocumentStartEvent vd tds False) y z) (parsed I left ADocs k b)
        (\<lambda>q. failed b (freeP (free_document_start vd tds) q)))
        (\<lambda>q. failed b (freeP (free_document_start vd tds) q)) (p3\<lparr>p_state := YAML_PARSE_DOCUMENT_CONTENT_STATE\<rparr>)"
      by (rule wp_SKIP_TOKEN [OF C pview_set_state [OF p3]])
        (use k t' in \<open>auto simp: wp_returnM event_data_blocks_def control_simps next_ok_def
        state_wf_def between_nodes_def mu_def frames_def add.assoc intro!: parsedI\<close>)
  qed (rule free)
  show "wp (case (vd, tds) of (vd, tds) \<Rightarrow> cleanupM
           (bindM (PEEK_TOKEN fetch) (\<lambda>token'.
              if t_type token' \<noteq> YAML_DOCUMENT_START_TOKEN then
                yaml_parser_set_parser_error ''did not find expected <document start>'' (t_start_mark token')
              else
                seqM (PUSH_STATE YAML_PARSE_DOCUMENT_END_STATE)
                (seqM (set_state YAML_PARSE_DOCUMENT_CONTENT_STATE)
                (seqM SKIP_TOKEN (event (DocumentStartEvent vd tds False) y (t_end_mark token'))))))
           (freeP (free_document_start vd tds))) (parsed I left ADocs k b) (failed b) p1"
    unfolding prod.case wp_cleanupM wp_bindM
    by (rule wp_PEEK_TOKEN [OF C p1])
      (auto simp: wp_if yaml_parser_set_parser_error_def wp_errorM intro!: free fin failed_error(1))
qed simp

lemma wp_stream_end:
  fixes p :: "'h yaml_parser"
  assumes C: "fetch_contract fetch I left" and p: "pview I left p s [] 0 (Some (t # ts)) n b"
    and t: "t_type t = YAML_STREAM_END_TOKEN" and k: "16 * n \<le> k"
  shows "wp (seqM (set_state YAML_PARSE_END_STATE)
           (seqM SKIP_TOKEN (event StreamEndEvent y z))) (parsed I left ADocs k b) (failed b) p"
proof -
  let ?p = "p\<lparr>p_state := YAML_PARSE_END_STATE\<rparr>"
  have p': "pview I left ?p YAML_PARSE_END_STATE [] 0 (Some (t # ts)) n b" by (rule pview_set_state [OF p])
  then have it: "items (p_tokens ?p) = t # ts" and I: "I (scn ?p)" "p_token_available ?p"
    by (simp_all add: pview_def base_inv_def)
  note eq = SKIP_TOKEN_eq [OF it]
  note sk = skip_contract [OF C I it eq]
  have "wp SKIP_TOKEN (\<lambda>_ q. parsed I left ADocs k b (EVENT_INIT StreamEndEvent y z) q) (failed b) ?p"
    unfolding wp_def eq result.case parsed_def work_def parser_inv_def balance_skip [OF it]
    using p' sk t k
    by (auto simp: pview_def base_inv_def control_inv_def state_wf_def between_nodes_def marks_needed_def
        ev_type_def EVENT_INIT_def event_blocks_def event_data_blocks_def token_blocks_type mu_def)
  then show ?thesis unfolding wp_seqM wp_modifyM by (rule wp_mono) (simp_all add: wp_returnM)
qed

lemma wp_document_start:
  assumes C: "fetch_contract fetch I left" and p: "pview I left p s [] 0 tk n b"
    and k: "16 * n + (if implicit then 5 else 0) \<le> k"
  shows "wp (yaml_parser_parse_document_start fetch implicit) (parsed I left ADocs k b) (failed b) p"
proof -
  have main: "wp (if implicit \<and> t_type t \<notin> {YAML_VERSION_DIRECTIVE_TOKEN, YAML_TAG_DIRECTIVE_TOKEN,
            YAML_DOCUMENT_START_TOKEN, YAML_STREAM_END_TOKEN} then
         seqM (yaml_parser_process_directives fetch False)
         (seqM (PUSH_STATE YAML_PARSE_DOCUMENT_END_STATE)
         (seqM (set_state YAML_PARSE_BLOCK_NODE_STATE)
           (event (DocumentStartEvent None [] True) (t_start_mark t) (t_start_mark t))))
       else if t_type t \<noteq> YAML_STREAM_END_TOKEN then
         bindM (yaml_parser_process_directives fetch True) (\<lambda>(vd, tds).
         cleanupM
           (bindM (PEEK_TOKEN fetch) (\<lambda>token'.
              if t_type token' \<noteq> YAML_DOCUMENT_START_TOKEN then
                yaml_parser_set_parser_error ''did not find expected <document start>'' (t_start_mark token')
              else
                seqM (PUSH_STATE YAML_PARSE_DOCUMENT_END_STATE)
                (seqM (set_state YAML_PARSE_DOCUMENT_CONTENT_STATE)
                (seqM SKIP_TOKEN
                  (event (DocumentStartEvent vd tds False) (t_start_mark t) (t_end_mark token'))))))
           (freeP (free_document_start vd tds)))
       else
         seqM (set_state YAML_PARSE_END_STATE)
           (seqM SKIP_TOKEN (event StreamEndEvent (t_start_mark t) (t_end_mark t))))
       (parsed I left ADocs k b) (failed b) p1" if p1: "pview I left p1 s [] 0 (Some (t # ts)) n b" for p1 t ts
    using wp_implicit_document [OF C p1] wp_explicit_document [OF C p1] wp_stream_end [OF C p1] k
    by (auto simp: wp_if is_directive_def)
  have peek: "wp (if implicit then PEEK_TOKEN fetch else returns (skip_document_ends fetch))
      (\<lambda>t p1. \<exists>ts. pview I left p1 s [] 0 (Some (t # ts)) n b) (failed b) p"
    by (cases implicit) (auto intro!: wp_PEEK_TOKEN [OF C p] wp_skip_document_ends [OF C p])
  show ?thesis unfolding yaml_parser_parse_document_start_def wp_bindM
    by (rule wp_mono [OF peek], erule exE, rule main, assumption)
qed

subsection \<open>The state machine\<close>

text \<open>One call: the event is accepted by the grammar, the invariant is kept and the measure decreases.\<close>

lemmas document_rules = wp_document_start wp_document_end

lemmas handler_rules = wp_document_content wp_parse_node
  wp_block_sequence_entry wp_indentless_sequence_entry wp_block_mapping_key wp_block_mapping_value
  wp_flow_sequence_entry wp_flow_sequence_entry_mapping_key wp_flow_sequence_entry_mapping_value
  wp_flow_sequence_entry_mapping_end wp_flow_mapping_key wp_flow_mapping_value

lemma wp_state_machine_view:
  assumes C: "fetch_contract fetch I left" and p: "pview I left p s ss m tk n b" and nxt: "next_ok s ss m tk"
  shows "wp (yaml_parser_state_machine fetch) (parsed I left (abs_state s ss) (mu n s ss) b) (failed b) p"
proof -
  have s: "p_state p = s" using p by (simp add: pview_def)
  have opens: "opens False tk" "first_token s \<noteq> None \<Longrightarrow> opens True tk"
    using nxt by (cases s; auto simp: opens_def next_ok_def token_blocks_type)+
  from nxt have "s \<noteq> YAML_PARSE_STREAM_START_STATE" "s \<noteq> YAML_PARSE_END_STATE" "state_wf s ss" "m = marks_needed s ss"
    by (simp_all add: next_ok_def)
  moreover have "pview I left p s [] 0 tk n b" if "between_nodes s"
    using p calculation that by (cases s) (simp_all add: state_wf_def between_nodes_def marks_needed_def)
  ultimately show ?thesis using opens unfolding yaml_parser_state_machine_def wp_readM s
    by (cases s) (auto simp: mu_def state_wf_def between_nodes_def marks_needed_def
      intro!: handler_rules [OF C p] document_rules [OF C \<open>between_nodes s \<Longrightarrow> pview I left p s [] 0 tk n b\<close>])
qed

lemma wp_state_machine:
  assumes C: "fetch_contract fetch I left" and inv: "parser_inv I p" and s: "p_state p \<noteq> YAML_PARSE_END_STATE"
  shows "wp (yaml_parser_state_machine fetch)
    (parsed I left (abs_state (p_state p) (stk p)) (work left p) (balance p)) (failed (balance p)) p"
proof (cases "p_state p = YAML_PARSE_STREAM_START_STATE")
  case True
  then have "start_inv I p" "stk p = []" "elems (p_marks p) = []"
    using inv by (auto simp: parser_inv_def control_inv_def state_wf_def between_nodes_def marks_needed_def)
  from wp_stream_start [OF C this] True this show ?thesis
    by (simp add: yaml_parser_state_machine_def wp_readM work_def mu_def)
next
  case False
  let ?tk = "if p_token_available p then Some (items (p_tokens p)) else None"
  have p: "pview I left p (p_state p) (stk p) (length (elems (p_marks p))) ?tk (left (scn p)) (balance p)"
    using inv s False by (simp add: pview_def parser_inv_def)
  have "next_ok (p_state p) (stk p) (length (elems (p_marks p))) ?tk"
    using inv s False by (auto simp: next_ok_def parser_inv_def control_inv_def token_ready_def)
  from wp_state_machine_view [OF C p this] show ?thesis by (simp add: work_def)
qed

subsection \<open>Whole runs\<close>

text \<open>
  \<open>parses fetch p es p'\<close>: a program that calls \<open>yaml_parser_parse\<close> from \<open>p\<close> on gets the events \<open>es\<close> and then
  has the parser \<open>p'\<close>.
\<close>

inductive parses ::
    "('h yaml_parser, unit) prog \<Rightarrow> 'h yaml_parser \<Rightarrow> yaml_event list \<Rightarrow> 'h yaml_parser \<Rightarrow> bool"
  for fetch where
  parses_Nil: "parses fetch p [] p"
| parses_Cons: "yaml_parser_parse fetch p = Return e p1 \<Longrightarrow> ev_type e \<noteq> YAML_NO_EVENT
    \<Longrightarrow> parses fetch p1 es p' \<Longrightarrow> parses fetch p (e # es) p'"

fun accepts :: "astate \<Rightarrow> yaml_event_type list \<Rightarrow> astate option" where
  "accepts a [] = Some a"
| "accepts a (x # xs) = (case accept a x of None \<Rightarrow> None | Some a' \<Rightarrow> accepts a' xs)"

lemma parse_at_end: "parser_inv I p \<Longrightarrow> p_state p = YAML_PARSE_END_STATE \<Longrightarrow> yaml_parser_parse fetch p = Return null_event p"
  by (simp add: yaml_parser_parse_def parser_inv_def prog_defs)

lemma null_event_type [simp]: "ev_type null_event = YAML_NO_EVENT"
  by (simp add: null_event_def ev_type_def EVENT_INIT_def)

lemma wp_parse:
  assumes C: "fetch_contract fetch I left" and inv: "parser_inv I p" and s: "p_state p \<noteq> YAML_PARSE_END_STATE"
  shows "wp (yaml_parser_parse fetch)
    (parsed I left (abs_state (p_state p) (stk p)) (work left p) (balance p)) (failed (balance p)) p"
proof -
  from inv s have "p_error p = YAML_NO_ERROR" "\<not> p_stream_end_produced p"
    by (auto simp: parser_inv_def base_inv_def start_inv_def split: if_splits)
  then have "yaml_parser_parse fetch p = yaml_parser_state_machine fetch p"
    using s by (simp add: yaml_parser_parse_def readM_def)
  with wp_state_machine [OF assms] show ?thesis by (simp add: wp_def)
qed

lemma parse_step:
  assumes "fetch_contract fetch I left" "parser_inv I p" "yaml_parser_parse fetch p = Return e p1" "ev_type e \<noteq> YAML_NO_EVENT"
  shows "parsed I left (abs_state (p_state p) (stk p)) (work left p) (balance p) e p1"
proof -
  have "p_state p \<noteq> YAML_PARSE_END_STATE" using parse_at_end [OF assms(2)] assms(3,4) by auto
  from wp_Return [OF wp_parse [OF assms(1,2) this] assms(3)] show ?thesis .
qed

lemma parses_invariant:
  assumes "parses fetch p es p'" "fetch_contract fetch I left" "parser_inv I p"
  shows "parser_inv I p' \<and> accepts (abs_state (p_state p) (stk p)) (map ev_type es) = Some (abs_state (p_state p') (stk p'))
    \<and> balance p' = balance p + sum_list (map event_blocks es) \<and> work left p' + length es \<le> work left p"
  using assms(1,3)
proof (induction rule: parses.induct)
  case (parses_Cons p e p1 es p')
  have "parsed I left (abs_state (p_state p) (stk p)) (work left p) (balance p) e p1"
    by (rule parse_step [OF assms(2) parses_Cons.prems parses_Cons.hyps(1,2)])
  with parses_Cons.IH show ?case by (auto simp: parsed_def)
qed simp

lemma accept_NO_EVENT [simp]: "accept a YAML_NO_EVENT = None"
  by (cases a) (auto split: list.splits frame.splits elim: accept.elims)

lemma parses_to_end:
  assumes C: "fetch_contract fetch I left" and "parser_inv I p"
  shows "\<exists>es p'. parses fetch p es p' \<and> parser_inv I p' \<and> (p_state p' = YAML_PARSE_END_STATE
    \<or> (\<exists>p''. yaml_parser_parse fetch p' = Error p'' \<and> p_error p'' \<noteq> YAML_COMPOSER_ERROR \<and> balance p'' = balance p'))"
  using assms(2)
proof (induction "work left p" arbitrary: p rule: less_induct)
  case less
  show ?case
  proof (cases "p_state p = YAML_PARSE_END_STATE")
    case True
    with less.prems show ?thesis by (blast intro: parses_Nil)
  next
    case False
    note wp = wp_parse [OF C less.prems False]
    show ?thesis
    proof (cases "yaml_parser_parse fetch p")
      case (Return e p1)
      then have p1: "parsed I left (abs_state (p_state p) (stk p)) (work left p) (balance p) e p1"
        by (rule wp_Return [OF wp])
      then have "ev_type e \<noteq> YAML_NO_EVENT" "work left p1 < work left p" "parser_inv I p1"
        by (auto simp: parsed_def)
      with less.hyps [of p1] Return show ?thesis by (meson parses_Cons)
    next
      case (Error q)
      then have "failed (balance p) q" by (rule wp_Error [OF wp])
      with Error less.prems show ?thesis unfolding failed_def by (blast intro: parses_Nil)
    next
      case Fault
      with wp_no_fault [OF wp] show ?thesis by simp
    qed
  qed
qed

subsection \<open>Runs from the start\<close>

text \<open>
  A parser before the first call: \<open>yaml_parser_initialize\<close> yields one (\<open>parser_start\<close>), and setting its
  input and its encoding does not change that.
\<close>

definition fresh_parser :: "'h yaml_parser \<Rightarrow> bool" where
  "fresh_parser p \<longleftrightarrow> p_state p = YAML_PARSE_STREAM_START_STATE \<and> p_error p = YAML_NO_ERROR
     \<and> \<not> p_stream_start_produced p \<and> \<not> p_stream_end_produced p \<and> \<not> p_token_available p
     \<and> stack_ok (p_states p) \<and> elems (p_states p) = [] \<and> stack_ok (p_marks p) \<and> elems (p_marks p) = []
     \<and> stack_ok (p_tag_directives p)"

lemma fresh_parser_start: "parser_start p \<Longrightarrow> fresh_parser p"
  by (simp add: parser_start_def fresh_parser_def)

lemma fresh_parser_inv: "fresh_parser p \<Longrightarrow> I (scn p) \<Longrightarrow> parser_inv I p"
  by (simp add: fresh_parser_def parser_inv_def start_inv_def control_inv_def state_wf_def between_nodes_def marks_needed_def)

lemma fresh_abs_state: "fresh_parser p \<Longrightarrow> abs_state (p_state p) (stk p) = AStart"
  by (simp add: fresh_parser_def)

lemma fresh_work: "fresh_parser p \<Longrightarrow> work left p = 16 * left (scn p)"
  by (simp add: fresh_parser_def work_def mu_def)

text \<open>
  A scanner that meets the contract: it delivers the tokens of a list, which the parser's handler data
  hold, and then reports an error.
\<close>

definition replay :: "(yaml_token list yaml_parser, unit) prog" where
  "replay = readM (\<lambda>p. if items (p_tokens p) \<noteq> []
     then modifyM (\<lambda>p. p\<lparr>p_stream_start_produced := True, p_token_available := True\<rparr>)
     else case p_read_handler_data p of
       [] \<Rightarrow> errorM (\<lambda>p. p\<lparr>p_error := YAML_SCANNER_ERROR\<rparr>)
     | t # ts \<Rightarrow> modifyM (\<lambda>p. p\<lparr>p_mem := (p_mem p)\<lparr>live := live (p_mem p) + token_blocks t\<rparr>,
         p_read_handler_data := ts, p_stream_start_produced := True, p_tokens := (p_tokens p)\<lparr>items := [t]\<rparr>,
         p_token_available := True\<rparr>))"

definition replay_left :: "yaml_token list yaml_scanner \<Rightarrow> nat" where
  "replay_left s = length (items (p_tokens s)) + length (p_read_handler_data s)"

lemma replay_contract: "fetch_contract replay (\<lambda>_. True) replay_left"
proof -
  have "wp SKIP_TOKEN (\<lambda>_ p'. True \<and> replay_left (scn p') < replay_left (scn p)) (\<lambda>_. False) p"
    if "items (p_tokens p) \<noteq> []" for p
    using that by (cases "items (p_tokens p)")
      (simp_all add: wp_def SKIP_TOKEN_eq replay_left_def yaml_scanner.truncate_def)
  moreover have "wp replay
          (\<lambda>_ p'. True \<and> replay_left (scn p') \<le> replay_left (scn p) \<and> p_token_available p' \<and> items (p_tokens p') \<noteq> []
             \<and> p_error p' = YAML_NO_ERROR \<and> p_stream_start_produced p' \<and> \<not> p_stream_end_produced p'
             \<and> yaml_scanner.more p' = yaml_scanner.more p \<and> balance p' = balance p)
          (\<lambda>p'. p_error p' \<noteq> YAML_COMPOSER_ERROR \<and> yaml_scanner.more p' = yaml_scanner.more p
             \<and> balance p' = balance p) p"
    if "p_error p = YAML_NO_ERROR" "\<not> p_stream_end_produced p" for p
    using that by (cases p; cases "items (p_tokens p)"; cases "p_read_handler_data p")
      (auto simp: replay_def wp_simps replay_left_def yaml_scanner.truncate_def balance_def parser_blocks_def)
  ultimately show ?thesis unfolding fetch_contract_def by (simp add: replay_left_def)
qed

definition sample_parser :: "yaml_token_data list \<Rightarrow> yaml_token list yaml_parser" where
  "sample_parser ts = \<lparr>p_mem = \<lparr>outcomes = [], live = 0\<rparr>, p_error = YAML_NO_ERROR, p_problem = [], p_problem_offset = 0,
     p_problem_value = 0, p_problem_mark = null_mark, p_context = [], p_context_mark = null_mark,
     p_read_handler = None,
     p_read_handler_data = map (\<lambda>d. \<lparr>t_data = d, t_start_mark = null_mark, t_end_mark = null_mark\<rparr>) ts, p_eof = False,
     p_buffer = null_buffer, p_unread = 0, p_raw_buffer = null_buffer, p_encoding = YAML_ANY_ENCODING,
     p_offset = 0, p_mark = null_mark, p_stream_start_produced = False, p_stream_end_produced = False,
     p_flow_level = 0, p_tokens = null_queue sizeof_token, p_tokens_parsed = 0, p_token_available = False,
     p_indents = null_stack sizeof_int, p_indent = 0, p_simple_key_allowed = False,
     p_simple_keys = null_stack sizeof_simple_key, p_states = \<lparr>elems = [], cap = 16, esz = sizeof_int\<rparr>,
     p_state = YAML_PARSE_STREAM_START_STATE, p_marks = \<lparr>elems = [], cap = 16, esz = sizeof_mark\<rparr>,
     p_tag_directives = \<lparr>elems = [], cap = 16, esz = sizeof_tag_directive\<rparr>\<rparr>"

lemma fresh_sample: "fresh_parser (sample_parser ts)"
  by (simp add: fresh_parser_def sample_parser_def stack_ok_def)

lemma sample_left: "replay_left (scn (sample_parser ts)) = length ts"
  by (simp add: replay_left_def sample_parser_def yaml_scanner.truncate_def null_queue_def)

lemma sample_first_step:
  "\<exists>e p'. parses replay (sample_parser (StreamStartToken enc # ts)) [e] p' \<and> ev_type e = YAML_STREAM_START_EVENT"
proof -
  have "\<exists>p'. yaml_parser_parse replay (sample_parser (StreamStartToken enc # ts))
      = Return (EVENT_INIT (StreamStartEvent enc) null_mark null_mark) p'"
    by (simp add: yaml_parser_parse_def yaml_parser_state_machine_def yaml_parser_parse_stream_start_def prog_defs
        sample_parser_def PEEK_TOKEN_def replay_def null_queue_def SKIP_TOKEN_def DEQUEUE_def)
  then obtain p' where step: "yaml_parser_parse replay (sample_parser (StreamStartToken enc # ts))
      = Return (EVENT_INIT (StreamStartEvent enc) null_mark null_mark) p'" ..
  have type: "ev_type (EVENT_INIT (StreamStartEvent enc) null_mark null_mark) = YAML_STREAM_START_EVENT"
    by (simp add: ev_type_def EVENT_INIT_def)
  have "parses replay (sample_parser (StreamStartToken enc # ts)) [EVENT_INIT (StreamStartEvent enc) null_mark null_mark] p'"
    by (rule parses_Cons [OF step _ parses_Nil]) (simp add: type)
  with type show ?thesis by blast
qed

subsection \<open>Properties\<close>

text \<open>C5: Whatever tokens the scanner delivers, the events a fresh parser produces are well nested (a prefix
  of a stream accepted by the grammar; all of it once the parser is at its end), there are at most 16 per
  token, and every block that is live afterwards belongs to the parser or to one of the events.\<close>

theorem parse_events_well_nested:
  assumes "fetch_contract fetch I left" "fresh_parser p" "I (scn p)" "parses fetch p es p'"
  shows "accepts AStart (map ev_type es) = Some (abs_state (p_state p') (stk p'))
    \<and> (p_state p' = YAML_PARSE_END_STATE \<longrightarrow> accepts AStart (map ev_type es) = Some AEnd)
    \<and> length es \<le> 16 * left (scn p)
    \<and> live (p_mem (yaml_parser_delete p')) = live (p_mem (yaml_parser_delete p)) + sum_list (map event_blocks es)"
  using parses_invariant [OF assms(4,1) fresh_parser_inv [where I = I, OF assms(2,3)]]
  by (auto simp: fresh_abs_state [OF assms(2)] fresh_work [OF assms(2)] balance_def live_yaml_parser_delete)

theorem parse_events_well_nested_witness:
  "\<exists>es p'. parses replay (sample_parser [StreamStartToken YAML_UTF8_ENCODING]) es p' \<and> map ev_type es = [YAML_STREAM_START_EVENT]
    \<and> accepts AStart (map ev_type es) = Some (abs_state (p_state p') (stk p')) \<and> length es \<le> 16"
proof -
  obtain e p' where "parses replay (sample_parser [StreamStartToken YAML_UTF8_ENCODING]) [e] p'" "ev_type e = YAML_STREAM_START_EVENT"
    using sample_first_step by blast
  with parse_events_well_nested [OF replay_contract fresh_sample TrueI this(1)] show ?thesis
    by (intro exI [of _ "[e]"]) (auto simp: sample_left)
qed

text \<open>At every point of a run the next call does not fault, whatever scanner that meets the contract is used.\<close>

lemma parse_never_faults:
  assumes "fetch_contract fetch I left" "fresh_parser p" "I (scn p)" "parses fetch p es p'"
  shows "wp (yaml_parser_parse fetch) (\<lambda>e p''. live (p_mem (yaml_parser_delete p''))
        = live (p_mem (yaml_parser_delete p')) + event_blocks e)
      (\<lambda>p''. p_error p'' \<noteq> YAML_COMPOSER_ERROR \<and> live (p_mem (yaml_parser_delete p'')) = live (p_mem (yaml_parser_delete p'))) p'"
proof (cases "p_state p' = YAML_PARSE_END_STATE")
  case True
  have "parser_inv I p'" using parses_invariant [OF assms(4,1) fresh_parser_inv [where I = I, OF assms(2,3)]] by simp
  from parse_at_end [OF this True] show ?thesis
    by (simp add: wp_def null_event_def EVENT_INIT_def event_blocks_def event_data_blocks_def)
next
  case False
  have inv: "parser_inv I p'" using parses_invariant [OF assms(4,1) fresh_parser_inv [where I = I, OF assms(2,3)]] by simp
  show ?thesis
    by (rule wp_mono [OF wp_parse [OF assms(1) inv False]])
      (auto simp: parsed_def failed_def balance_def live_yaml_parser_delete)
qed

lemma replay_sets_error: "sets_error replay"
  unfolding replay_def sets_error_reports by (intro sets_error_rules) (simp_all add: reports_def reported_def modifyM_def)

text \<open>C7: A program that keeps calling the parser comes to an end: after finitely many events (at most 16 per
  token) the stream is complete or a call fails, with an error set if the scanner sets one whenever it fails.\<close>

theorem parse_terminates:
  assumes "fetch_contract fetch I left" "fresh_parser p" "I (scn p)"
  shows "\<exists>es p'. parses fetch p es p' \<and> length es \<le> 16 * left (scn p)
    \<and> (accepts AStart (map ev_type es) = Some AEnd \<and> yaml_parser_parse fetch p' = Return null_event p'
      \<or> (\<exists>p''. yaml_parser_parse fetch p' = Error p'' \<and> (sets_error fetch \<longrightarrow> p_error p'' \<noteq> YAML_NO_ERROR)))"
proof -
  note inv = fresh_parser_inv [where I = I, OF assms(2,3)]
  obtain es p' where run: "parses fetch p es p'" "parser_inv I p'" and fin: "p_state p' = YAML_PARSE_END_STATE
    \<or> (\<exists>p''. yaml_parser_parse fetch p' = Error p'')"
    using parses_to_end [OF assms(1) inv] by blast
  have "length es \<le> 16 * left (scn p)"
    and "p_state p' = YAML_PARSE_END_STATE \<longrightarrow> accepts AStart (map ev_type es) = Some AEnd"
    using parses_invariant [OF run(1) assms(1) inv] fresh_abs_state [OF assms(2)] fresh_work [OF assms(2), of left] by auto
  moreover have "p_error p'' \<noteq> YAML_NO_ERROR" if "sets_error fetch" "yaml_parser_parse fetch p' = Error p''" for p''
    using sets_errorD [OF parse_sets_error] that by blast
  ultimately show ?thesis using run fin parse_at_end [OF run(2)] by blast
qed

theorem parse_terminates_witness:
  "\<exists>es p'. parses replay (sample_parser [StreamStartToken YAML_UTF8_ENCODING, StreamEndToken]) es p' \<and> length es \<le> 32
    \<and> (accepts AStart (map ev_type es) = Some AEnd \<and> yaml_parser_parse replay p' = Return null_event p'
      \<or> (\<exists>p''. yaml_parser_parse replay p' = Error p'' \<and> p_error p'' \<noteq> YAML_NO_ERROR))"
  using parse_terminates [OF replay_contract fresh_sample TrueI, of "[StreamStartToken YAML_UTF8_ENCODING, StreamEndToken]"]
  by (simp add: sample_left replay_sets_error)

text \<open>C36: After the \<open>?\<close> of a pair in a flow sequence, a missing key makes the parser drop the token that
  follows: the \<open>:\<close> of \<open>[ ? : x ]\<close> is consumed as if it were the key, so that the state for the value is
  entered without its \<open>VALUE\<close> token (the production in the comment allows an empty key).\<close>

theorem flow_pair_empty_key_drops_token:
  assumes "p_token_available p" "items (p_tokens p) = t # ts"
    and "t_type t \<in> {YAML_VALUE_TOKEN, YAML_FLOW_ENTRY_TOKEN, YAML_FLOW_SEQUENCE_END_TOKEN}"
    and "yaml_parser_parse_flow_sequence_entry_mapping_key fetch p = Return e p'"
  shows "items (p_tokens p') = ts \<and> p_state p' = YAML_PARSE_FLOW_SEQUENCE_ENTRY_MAPPING_VALUE_STATE
    \<and> ev_data e = ScalarEvent None None [] True False YAML_PLAIN_SCALAR_STYLE"
proof -
  let ?p = "p\<lparr>p_token_available := False, p_tokens_parsed := p_tokens_parsed p + 1,
      p_stream_end_produced := (t_type t = YAML_STREAM_END_TOKEN),
      p_tokens := (p_tokens p)\<lparr>front := front (p_tokens p) + 1, items := ts\<rparr>\<rparr>"
  have peek: "PEEK_TOKEN fetch p = Return t p" using assms(1,2) by (simp add: PEEK_TOKEN_def prog_defs)
  let ?m = "seqM (set_state YAML_PARSE_FLOW_SEQUENCE_ENTRY_MAPPING_VALUE_STATE) (yaml_parser_process_empty_scalar (t_end_mark t))"
  have "?m ?p = Return e p'"
    using assms(3,4) unfolding yaml_parser_parse_flow_sequence_entry_mapping_key_def
    by (auto simp: bindM_def seqM_def peek SKIP_TOKEN_eq [OF assms(2)])
  moreover have "wp ?m (\<lambda>e p'. items (p_tokens p') = ts \<and> p_state p' = YAML_PARSE_FLOW_SEQUENCE_ENTRY_MAPPING_VALUE_STATE
    \<and> ev_data e = ScalarEvent None None [] True False YAML_PLAIN_SCALAR_STYLE) (\<lambda>_. True) ?p"
    by (auto simp: yaml_parser_process_empty_scalar_def parser_malloc_def wp_simps EVENT_INIT_def intro!: wp_yaml_malloc)
  ultimately show ?thesis by (rule wp_Return [rotated])
qed

lemma parser_malloc_succeeds:
  "outcomes (p_mem p) = [] \<Longrightarrow> 0 < k \<Longrightarrow>
     parser_malloc k p = Return () (p\<lparr>p_mem := (p_mem p)\<lparr>live := live (p_mem p) + 1\<rparr>\<rparr>)"
  by (simp add: parser_malloc_def memP_def yaml_malloc_def malloc_def prog_defs)

definition pair_parser :: "yaml_token list yaml_parser" where
  "pair_parser = (sample_parser [])\<lparr>p_state := YAML_PARSE_FLOW_SEQUENCE_ENTRY_MAPPING_KEY_STATE, p_token_available := True,
     p_tokens := \<lparr>front = 0, items = [\<lparr>t_data = ValueToken, t_start_mark = null_mark, t_end_mark = null_mark\<rparr>], qcap = 16, qesz = 1\<rparr>\<rparr>"

theorem flow_pair_empty_key_drops_token_witness:
  "\<exists>e p'. yaml_parser_parse_flow_sequence_entry_mapping_key replay pair_parser = Return e p' \<and> items (p_tokens p') = []"
proof -
  let ?t = "\<lparr>t_data = ValueToken, t_start_mark = null_mark, t_end_mark = null_mark\<rparr>"
  have it: "p_token_available pair_parser" "items (p_tokens pair_parser) = [?t]" "outcomes (p_mem pair_parser) = []"
    by (simp_all add: pair_parser_def sample_parser_def)
  have peek: "PEEK_TOKEN replay pair_parser = Return ?t pair_parser" using it by (simp add: PEEK_TOKEN_def prog_defs)
  have "\<exists>e p'. yaml_parser_parse_flow_sequence_entry_mapping_key replay pair_parser = Return e p'"
    unfolding yaml_parser_parse_flow_sequence_entry_mapping_key_def
    using it(3) by (simp add: bindM_def seqM_def peek SKIP_TOKEN_eq [OF it(2)] t_type_def modifyM_def
        yaml_parser_process_empty_scalar_def parser_malloc_succeeds returnM_def)
  then obtain e p' where run: "yaml_parser_parse_flow_sequence_entry_mapping_key replay pair_parser = Return e p'" by blast
  have "items (p_tokens p') = []"
    using flow_pair_empty_key_drops_token [OF _ _ _ run, of ?t "[]"] by (simp add: pair_parser_def t_type_def)
  with run show ?thesis by blast
qed

end
