(* ===== verification/Loader.thy ===== *)
theory Loader
  imports Parser_Runs
begin

text \<open>
  The loader (\<open>loader.c\<close>): it composes the events of a document into a \<open>yaml_document_t\<close>.  The fields
  \<open>aliases\<close> and \<open>document\<close> of the parser structure belong to it alone; \<open>yaml_parser_parse\<close> works on the
  other ones.  \<open>struct loader_ctx\<close>, the stack of the indices of the open collections, is a second
  component of the state.
\<close>

subsection \<open>Access to the parser and to the document\<close>

type_synonym 'h loading = "'h yaml_loader \<times> int ystack"

definition parse_event :: "('h yaml_parser, unit) prog \<Rightarrow> ('h yaml_loader, yaml_event) prog" where
  "parse_event fetch = zoomM yaml_parser.truncate (\<lambda>p l. yaml_parser.extend p (yaml_parser.more l)) (yaml_parser_parse fetch)"

text \<open>An operation on \<open>parser->document\<close>; the macros set the error of the parser where they fail.\<close>

definition on_document :: "(doc_state, 'a) prog \<Rightarrow> ('h yaml_loader, 'a) prog" where
  "on_document m p = (case p_document p of
     None \<Rightarrow> Fault
   | Some d \<Rightarrow> (case m (d, p_mem p) of
       Return a (d', h) \<Rightarrow> Return a (p\<lparr>p_mem := h, p_document := Some d'\<rparr>)
     | Error (d', h) \<Rightarrow> Error (p\<lparr>p_mem := h, p_document := Some d', p_error := YAML_MEMORY_ERROR\<rparr>)
     | Fault \<Rightarrow> Fault))"

definition limitM :: "('s \<Rightarrow> bool) \<Rightarrow> ('s, unit) prog" where
  "limitM b s = (if b s then Return () s else Error s)"

definition node_limit :: "(doc_state, unit) prog" where
  "node_limit = limitM (\<lambda>(d, _). STACK_LIMIT (d_nodes d) (INT_MAX - 1))"

definition inP :: "('h yaml_loader, 'a) prog \<Rightarrow> ('h loading, 'a) prog" where
  "inP = zoomM fst (\<lambda>p (_, ctx). (p, ctx))"

subsection \<open>Errors and cleaning up\<close>

definition yaml_parser_set_composer_error :: "string \<Rightarrow> yaml_mark \<Rightarrow> ('h yaml_loader, 'a) prog" where
  "yaml_parser_set_composer_error problem mark =
     errorM (\<lambda>p. p\<lparr>p_error := YAML_COMPOSER_ERROR, p_problem := problem, p_problem_mark := mark\<rparr>)"

definition yaml_parser_set_composer_error_context ::
    "string \<Rightarrow> yaml_mark \<Rightarrow> string \<Rightarrow> yaml_mark \<Rightarrow> ('h yaml_loader, 'a) prog" where
  "yaml_parser_set_composer_error_context c c_mark problem mark =
     errorM (\<lambda>p. p\<lparr>p_error := YAML_COMPOSER_ERROR, p_context := c, p_context_mark := c_mark,
       p_problem := problem, p_problem_mark := mark\<rparr>)"

definition yaml_parser_delete_aliases :: "'h yaml_loader \<Rightarrow> 'h yaml_loader" where
  "yaml_parser_delete_aliases p =
     (freeP (STACK_DEL (p_aliases p)) (freeP (fold (\<lambda>_. yaml_free True) (rev (elems (p_aliases p)))) p))
       \<lparr>p_aliases := null_stack sizeof_alias_data\<rparr>"

definition free_strings :: "ystring option list \<Rightarrow> heap \<Rightarrow> heap" where
  "free_strings xs = fold free_string xs"

subsection \<open>Anchors and parents\<close>

definition yaml_parser_register_anchor :: "int \<Rightarrow> ystring option \<Rightarrow> ('h yaml_loader, unit) prog" where
  "yaml_parser_register_anchor index anchor = (case anchor of
     None \<Rightarrow> returnM ()
   | Some a \<Rightarrow>
       bindM (on_document (\<lambda>(d, h). if valid_id d index then Return (n_start_mark (node_at d index)) (d, h) else Fault)) (\<lambda>mark.
       readM (\<lambda>p. case find (\<lambda>x. streq (al_anchor x) a) (elems (p_aliases p)) of
         Some x \<Rightarrow>
           seqM (modifyM (freeP (yaml_free True)))
             (yaml_parser_set_composer_error_context ''found duplicate anchor; first occurrence'' (al_mark x)
               ''second occurrence'' mark)
       | None \<Rightarrow>
           cleanupM (push_stack p_aliases (\<lambda>st p. p\<lparr>p_aliases := st\<rparr>) \<lparr>al_anchor = a, al_index = index, al_mark = mark\<rparr>)
             (freeP (yaml_free True)))))"

text \<open>The pair that waits for its value, if there is one, is the last one.\<close>

definition value_pending :: "yaml_node_pair list \<Rightarrow> bool" where
  "value_pending ps \<longleftrightarrow> ps \<noteq> [] \<and> np_key (last ps) \<noteq> 0 \<and> np_value (last ps) = 0"

definition add_to_parent :: "int \<Rightarrow> int \<Rightarrow> (doc_state, unit) prog" where
  "add_to_parent parent index = readM (\<lambda>(d, _). if \<not> valid_id d parent then faultM else
     (case n_data (node_at d parent) of
        SequenceNode sis _ \<Rightarrow>
          seqM (limitM (\<lambda>_. STACK_LIMIT sis (INT_MAX - 1))) (push_item parent index)
      | MappingNode pairs style \<Rightarrow>
          if value_pending (elems pairs) then
            modifyM (\<lambda>(d, h). (set_node_data parent (MappingNode (pairs\<lparr>elems :=
              butlast (elems pairs) @ [(last (elems pairs))\<lparr>np_value := index\<rparr>]\<rparr>) style) d, h))
          else
            seqM (limitM (\<lambda>_. STACK_LIMIT pairs (INT_MAX - 1))) (push_pair parent \<lparr>np_key = index, np_value = 0\<rparr>)
      | ScalarNode _ _ \<Rightarrow> faultM))"

definition yaml_parser_load_node_add :: "int \<Rightarrow> ('h loading, unit) prog" where
  "yaml_parser_load_node_add index = readM (\<lambda>(_, ctx).
     if STACK_EMPTY ctx then returnM () else inP (on_document (add_to_parent (last (elems ctx)) index)))"

subsection \<open>Nodes\<close>

definition yaml_parser_load_alias :: "ystring \<Rightarrow> yaml_mark \<Rightarrow> ('h loading, unit) prog" where
  "yaml_parser_load_alias anchor start_mark = readM (\<lambda>(p, _).
     seqM (inP (modifyM (freeP (yaml_free True))))
       (case find (\<lambda>x. streq (al_anchor x) anchor) (elems (p_aliases p)) of
          Some x \<Rightarrow> yaml_parser_load_node_add (al_index x)
        | None \<Rightarrow> inP (yaml_parser_set_composer_error ''found undefined alias'' start_mark)))"

text \<open>
  A missing or non-specific tag is replaced by the default one.  Where \<open>yaml_strdup\<close> fails the
  error of the parser is not set.
\<close>

definition strdup_tag :: "ystring \<Rightarrow> ('h yaml_loader, ystring) prog" where
  "strdup_tag t = bindM (zoomM p_mem (\<lambda>h p. p\<lparr>p_mem := h\<rparr>) (yaml_strdup (Some t)))
     (\<lambda>copy. case copy of None \<Rightarrow> errorM id | Some t' \<Rightarrow> returnM t')"

definition default_tag :: "ystring \<Rightarrow> ystring option \<Rightarrow> ('h yaml_loader, ystring) prog" where
  "default_tag dflt tag = (case tag of
     Some t \<Rightarrow> if streq t (lit ''!'') then seqM (modifyM (freeP (yaml_free True))) (strdup_tag dflt) else returnM t
   | None \<Rightarrow> strdup_tag dflt)"

text \<open>A new node: \<open>contents\<close> yields its data, which are lost where the node cannot be pushed.\<close>

definition new_node ::
    "ystring \<Rightarrow> ystring option \<Rightarrow> ystring option list \<Rightarrow> ('h yaml_loader, yaml_node_data) prog
     \<Rightarrow> yaml_mark \<Rightarrow> yaml_mark \<Rightarrow> ('h yaml_loader, int) prog" where
  "new_node dflt tag strings contents start_mark end_mark =
     seqM (cleanupM (on_document node_limit) (freeP (free_strings (tag # strings))))
     (bindM (cleanupM (default_tag dflt tag) (freeP (free_strings strings))) (\<lambda>tag'.
      cleanupM (bindM contents (\<lambda>nd. on_document (push_node (NODE_INIT tag' nd start_mark end_mark))))
        (freeP (free_strings (Some tag' # strings)))))"

definition yaml_parser_load_scalar ::
    "ystring option \<Rightarrow> ystring option \<Rightarrow> ystring \<Rightarrow> yaml_scalar_style \<Rightarrow> yaml_mark \<Rightarrow> yaml_mark
     \<Rightarrow> ('h loading, unit) prog" where
  "yaml_parser_load_scalar anchor tag v style start_mark end_mark =
     bindM (inP (new_node YAML_DEFAULT_SCALAR_TAG tag [anchor, Some v] (returnM (ScalarNode v style)) start_mark end_mark))
       (\<lambda>index. seqM (inP (yaml_parser_register_anchor index anchor)) (yaml_parser_load_node_add index))"

definition push_ctx :: "int \<Rightarrow> ('h loading, unit) prog" where
  "push_ctx index = (\<lambda>(p, ctx).
     if \<not> STACK_LIMIT ctx (INT_MAX - 1) then Error (p\<lparr>p_error := YAML_MEMORY_ERROR\<rparr>, ctx)
     else (case PUSH index (ctx, p_mem p) of
       Return _ (ctx', h) \<Rightarrow> Return () (p\<lparr>p_mem := h\<rparr>, ctx')
     | Error (ctx', h) \<Rightarrow> Error (p\<lparr>p_mem := h, p_error := YAML_MEMORY_ERROR\<rparr>, ctx')
     | Fault \<Rightarrow> Fault))"

definition load_collection ::
    "ystring \<Rightarrow> ystring option \<Rightarrow> ystring option \<Rightarrow> ('h yaml_loader, yaml_node_data) prog
     \<Rightarrow> yaml_mark \<Rightarrow> yaml_mark \<Rightarrow> ('h loading, unit) prog" where
  "load_collection dflt anchor tag contents start_mark end_mark =
     bindM (inP (new_node dflt tag [anchor] contents start_mark end_mark)) (\<lambda>index.
       seqM (inP (yaml_parser_register_anchor index anchor))
       (seqM (yaml_parser_load_node_add index)
         (push_ctx index)))"

definition yaml_parser_load_sequence ::
    "ystring option \<Rightarrow> ystring option \<Rightarrow> yaml_sequence_style \<Rightarrow> yaml_mark \<Rightarrow> yaml_mark \<Rightarrow> ('h loading, unit) prog" where
  "yaml_parser_load_sequence anchor tag style =
     load_collection YAML_DEFAULT_SEQUENCE_TAG anchor tag
       (bindM (memP (STACK_INIT sizeof_int)) (\<lambda>sis. returnM (SequenceNode sis style)))"

definition yaml_parser_load_mapping ::
    "ystring option \<Rightarrow> ystring option \<Rightarrow> yaml_mapping_style \<Rightarrow> yaml_mark \<Rightarrow> yaml_mark \<Rightarrow> ('h loading, unit) prog" where
  "yaml_parser_load_mapping anchor tag style =
     load_collection YAML_DEFAULT_MAPPING_TAG anchor tag
       (bindM (memP (STACK_INIT sizeof_node_pair)) (\<lambda>pairs. returnM (MappingNode pairs style)))"

definition set_end_mark :: "int \<Rightarrow> yaml_mark \<Rightarrow> yaml_document \<Rightarrow> yaml_document" where
  "set_end_mark i m d = d\<lparr>d_nodes := (d_nodes d)\<lparr>
     elems := (doc_nodes d)[nat (i - 1) := (node_at d i)\<lparr>n_end_mark := m\<rparr>]\<rparr>\<rparr>"

text \<open>The end of a collection of type \<open>ty\<close>.\<close>

definition load_collection_end :: "yaml_node_type \<Rightarrow> yaml_mark \<Rightarrow> ('h loading, unit) prog" where
  "load_collection_end ty end_mark =
     seqM (assertM (\<lambda>(_, ctx). elems ctx \<noteq> []))
     (seqM (readM (\<lambda>(_, ctx). let index = last (elems ctx) in
        inP (on_document (\<lambda>(d, h). if valid_id d index \<and> n_type (node_at d index) = ty
           then Return () (set_end_mark index end_mark d, h) else Fault))))
       (seqM (zoomM snd (\<lambda>ctx (p, _). (p, ctx)) POP) (returnM ())))"

definition yaml_parser_load_sequence_end :: "yaml_mark \<Rightarrow> ('h loading, unit) prog" where
  "yaml_parser_load_sequence_end = load_collection_end YAML_SEQUENCE_NODE"

definition yaml_parser_load_mapping_end :: "yaml_mark \<Rightarrow> ('h loading, unit) prog" where
  "yaml_parser_load_mapping_end = load_collection_end YAML_MAPPING_NODE"

subsection \<open>Documents\<close>

definition load_event :: "yaml_event \<Rightarrow> ('h loading, unit) prog" where
  "load_event e = (case ev_data e of
     AliasEvent anchor \<Rightarrow> yaml_parser_load_alias anchor (ev_start_mark e)
   | ScalarEvent anchor tag v _ _ style \<Rightarrow>
       yaml_parser_load_scalar anchor tag v style (ev_start_mark e) (ev_end_mark e)
   | SequenceStartEvent anchor tag _ style \<Rightarrow>
       yaml_parser_load_sequence anchor tag style (ev_start_mark e) (ev_end_mark e)
   | SequenceEndEvent \<Rightarrow> yaml_parser_load_sequence_end (ev_end_mark e)
   | MappingStartEvent anchor tag _ style \<Rightarrow>
       yaml_parser_load_mapping anchor tag style (ev_start_mark e) (ev_end_mark e)
   | MappingEndEvent \<Rightarrow> yaml_parser_load_mapping_end (ev_end_mark e)
   | DocumentEndEvent _ \<Rightarrow> returnM ()
   | _ \<Rightarrow> faultM)"

partial_function (option) load_loop ::
    "('h yaml_parser, unit) prog \<Rightarrow> 'h loading \<Rightarrow> ('h loading, yaml_event) result option" where
  "load_loop fetch s =
     (case bindM (inP (parse_event fetch)) (\<lambda>e. seqM (load_event e) (returnM e)) s of
        Fault \<Rightarrow> Some Fault
      | Error s' \<Rightarrow> Some (Error s')
      | Return e s' \<Rightarrow> if ev_type e = YAML_DOCUMENT_END_EVENT then Some (Return e s') else load_loop fetch s')"

definition update_document :: "(yaml_document \<Rightarrow> yaml_document) \<Rightarrow> ('h yaml_loader, unit) prog" where
  "update_document f = on_document (modifyM (\<lambda>(d, h). (f d, h)))"

definition yaml_parser_load_nodes :: "('h yaml_parser, unit) prog \<Rightarrow> ('h loading, unit) prog" where
  "yaml_parser_load_nodes fetch =
     bindM (returns (load_loop fetch)) (\<lambda>e. inP (update_document (\<lambda>d. d\<lparr>
       d_end_implicit := (case ev_data e of DocumentEndEvent impl \<Rightarrow> impl | _ \<Rightarrow> False), d_end_mark := ev_end_mark e\<rparr>)))"

text \<open>The context is a local variable: its stack is deleted on both ways out.\<close>

definition with_ctx :: "int ystack \<Rightarrow> ('h loading, 'a) prog \<Rightarrow> ('h yaml_loader, 'a) prog" where
  "with_ctx ctx0 m p = (case m (p, ctx0) of
     Return a (p', ctx) \<Rightarrow> Return a (freeP (STACK_DEL ctx) p')
   | Error (p', ctx) \<Rightarrow> Error (freeP (STACK_DEL ctx) p')
   | Fault \<Rightarrow> Fault)"

definition yaml_parser_load_document :: "('h yaml_parser, unit) prog \<Rightarrow> yaml_event \<Rightarrow> ('h yaml_loader, unit) prog" where
  "yaml_parser_load_document fetch e = (case ev_data e of
     DocumentStartEvent vd tds implicit \<Rightarrow>
       seqM (update_document (\<lambda>d. d\<lparr>d_version_directive := vd, d_tag_directives := tds,
         d_start_implicit := implicit, d_start_mark := ev_start_mark e\<rparr>))
       (bindM (memP (STACK_INIT sizeof_int)) (\<lambda>ctx. with_ctx ctx (yaml_parser_load_nodes fetch)))
   | _ \<Rightarrow> faultM)"

text \<open>
  The code at the label \<open>error\<close>.  The document is the caller's; from the assignment to
  \<open>parser->document\<close> on it is the one of the parser.
\<close>

definition load_cleanup :: "yaml_document \<Rightarrow> 'h yaml_loader \<Rightarrow> 'h yaml_loader" where
  "load_cleanup d p = (freeP (yaml_document_delete d) (yaml_parser_delete_aliases p))\<lparr>p_document := None\<rparr>"

definition own_document :: "'h yaml_loader \<Rightarrow> yaml_document" where
  "own_document p = (case p_document p of None \<Rightarrow> null_document | Some d \<Rightarrow> d)"

definition load_start :: "('h yaml_parser, unit) prog \<Rightarrow> ('h yaml_loader, unit) prog" where
  "load_start fetch = readM (\<lambda>p. if p_stream_start_produced p then returnM ()
     else bindM (parse_event fetch) (\<lambda>e. assertM (\<lambda>_. ev_type e = YAML_STREAM_START_EVENT)))"

text \<open>The document that starts with the event \<open>e\<close>, and what follows the start of the stream.\<close>

definition load_next ::
    "('h yaml_parser, unit) prog \<Rightarrow> yaml_document \<Rightarrow> yaml_event \<Rightarrow> ('h yaml_loader, yaml_document) prog" where
  "load_next fetch document e =
     seqM (cleanupM (bindM (memP (STACK_INIT sizeof_alias_data)) (\<lambda>al. modifyM (\<lambda>p. p\<lparr>p_aliases := al\<rparr>)))
            (load_cleanup document))
     (seqM (modifyM (\<lambda>p. p\<lparr>p_document := Some document\<rparr>))
     (seqM (cleanupM (yaml_parser_load_document fetch e) (\<lambda>p. load_cleanup (own_document p) p))
     (readM (\<lambda>p.
       seqM (modifyM (\<lambda>p. (yaml_parser_delete_aliases p)\<lparr>p_document := None\<rparr>))
         (returnM (own_document p))))))"

definition load_rest ::
    "('h yaml_parser, unit) prog \<Rightarrow> yaml_document \<Rightarrow> ('h yaml_loader, yaml_document) prog" where
  "load_rest fetch document = readM (\<lambda>p. if p_stream_end_produced p then returnM document else
     bindM (cleanupM (parse_event fetch) (load_cleanup document)) (\<lambda>e.
       if ev_type e = YAML_STREAM_END_EVENT then returnM document else load_next fetch document e))"

definition yaml_parser_load :: "('h yaml_parser, unit) prog \<Rightarrow> ('h yaml_loader, yaml_document) prog" where
  "yaml_parser_load fetch =
     bindM (cleanupM (memP (STACK_INIT sizeof_node)) (load_cleanup null_document)) (\<lambda>nodes.
     let document = null_document\<lparr>d_nodes := nodes\<rparr> in
     seqM (cleanupM (load_start fetch) (load_cleanup document))
       (load_rest fetch document))"

end
