(* ===== verification/Loader_Correct.thy ===== *)
theory Loader_Correct
  imports Loader
begin

text \<open>
  Correctness of the loader: it composes exactly the nodes that an abstract composer yields for the
  events of the document, its assertions hold on every event stream the parser can produce, the
  documents it returns are well formed, and failures lose no block unless memory runs out.
\<close>

subsection \<open>The abstract composer\<close>

text \<open>Nodes so far, open collections (innermost first), anchors with the nodes they stand for.\<close>

type_synonym composing = "anode list \<times> int list \<times> (ystring \<times> int) list"

fun adopt :: "int \<Rightarrow> anode \<Rightarrow> anode" where
  "adopt i (ASequence tag xs) = ASequence tag (xs @ [i])"
| "adopt i (AMapping tag ps) = (if ps \<noteq> [] \<and> snd (last ps) = 0
     then AMapping tag (butlast ps @ [(fst (last ps), i)]) else AMapping tag (ps @ [(i, 0)]))"
| "adopt i (AScalar tag v) = AScalar tag v"

fun add_child :: "int \<Rightarrow> composing \<Rightarrow> composing" where
  "add_child i (ns, [], as) = (ns, [], as)"
| "add_child i (ns, c # cs, as) = (ns[nat (c - 1) := adopt i (ns ! nat (c - 1))], c # cs, as)"

definition find_anchor :: "ystring \<Rightarrow> (ystring \<times> int) list \<Rightarrow> int option" where
  "find_anchor a as = map_option snd (find (\<lambda>x. streq (fst x) a) as)"

definition add_anchor :: "int \<Rightarrow> ystring option \<Rightarrow> (ystring \<times> int) list \<Rightarrow> (ystring \<times> int) list option" where
  "add_anchor i anchor as = (case anchor of
     None \<Rightarrow> Some as
   | Some a \<Rightarrow> if find_anchor a as = None then Some (as @ [(a, i)]) else None)"

definition node_tag :: "ystring \<Rightarrow> ystring option \<Rightarrow> ystring" where
  "node_tag dflt tag = (case tag of None \<Rightarrow> dflt | Some t \<Rightarrow> if streq t (lit ''!'') then dflt else t)"

definition add_node :: "anode \<Rightarrow> ystring option \<Rightarrow> composing \<Rightarrow> composing option" where
  "add_node n anchor = (\<lambda>(ns, cs, as). let i = int (length ns) + 1 in
     map_option (\<lambda>as'. add_child i (ns @ [n], cs, as')) (add_anchor i anchor as))"

definition open_node :: "anode \<Rightarrow> ystring option \<Rightarrow> composing \<Rightarrow> composing option" where
  "open_node n anchor st = map_option (\<lambda>(ns, cs, as). (ns, int (length ns) # cs, as)) (add_node n anchor st)"

fun compose_step :: "yaml_event_data \<Rightarrow> composing \<Rightarrow> composing option" where
  "compose_step (AliasEvent a) (ns, cs, as) = map_option (\<lambda>i. add_child i (ns, cs, as)) (find_anchor a as)"
| "compose_step (ScalarEvent anchor tag v pi qi style) st =
     add_node (AScalar (node_tag YAML_DEFAULT_SCALAR_TAG tag) v) anchor st"
| "compose_step (SequenceStartEvent anchor tag impl style) st =
     open_node (ASequence (node_tag YAML_DEFAULT_SEQUENCE_TAG tag) []) anchor st"
| "compose_step (MappingStartEvent anchor tag impl style) st =
     open_node (AMapping (node_tag YAML_DEFAULT_MAPPING_TAG tag) []) anchor st"
| "compose_step SequenceEndEvent (ns, cs, as) = Some (ns, tl cs, as)"
| "compose_step MappingEndEvent (ns, cs, as) = Some (ns, tl cs, as)"
| "compose_step _ st = Some st"

subsection \<open>The invariant of a document under construction\<close>

text \<open>
  The frames of the open collections: the innermost one is the one of the grammar, the outer ones
  have already got the node that is being composed.
\<close>

fun frame_next :: "frame \<Rightarrow> frame" where
  "frame_next InSeq = InSeq"
| "frame_next AtKey = AtValue"
| "frame_next AtValue = AtKey"

fun doc_frames :: "astate \<Rightarrow> frame list" where
  "doc_frames (ANode (f # fs)) = f # map frame_next fs"
| "doc_frames _ = []"

definition id_ok :: "nat \<Rightarrow> int \<Rightarrow> bool" where
  "id_ok N i \<longleftrightarrow> 0 < i \<and> i \<le> int N"

definition pending_ok :: "nat \<Rightarrow> yaml_node_pair list \<Rightarrow> bool" where
  "pending_ok N ps \<longleftrightarrow> (\<exists>qs p. ps = qs @ [p] \<and> (\<forall>q\<in>set qs. id_ok N (np_key q) \<and> id_ok N (np_value q))
     \<and> id_ok N (np_key p) \<and> np_value p = 0)"

fun node_inv :: "nat \<Rightarrow> frame option \<Rightarrow> yaml_node_data \<Rightarrow> bool" where
  "node_inv N None nd = data_ok N nd"
| "node_inv N (Some InSeq) (SequenceNode sis style) = data_ok N (SequenceNode sis style)"
| "node_inv N (Some AtKey) (MappingNode pairs style) = data_ok N (MappingNode pairs style)"
| "node_inv N (Some AtValue) (MappingNode pairs style) = (stack_ok pairs \<and> pending_ok N (elems pairs))"
| "node_inv N _ _ = False"

definition tree_inv :: "yaml_document \<Rightarrow> int list \<Rightarrow> frame list \<Rightarrow> bool" where
  "tree_inv d cs fs \<longleftrightarrow> stack_ok (d_nodes d) \<and> length cs = length fs \<and> distinct cs
     \<and> (\<forall>i\<in>set cs. valid_id d i)
     \<and> (\<forall>i. valid_id d i \<longrightarrow> node_inv (length (doc_nodes d)) (map_of (zip cs fs) i) (n_data (node_at d i)))"

lemma data_ok_alt:
  "data_ok N (SequenceNode sis style) \<longleftrightarrow> stack_ok sis \<and> (\<forall>i\<in>set (elems sis). id_ok N i)"
  "data_ok N (MappingNode pairs style') \<longleftrightarrow>
     stack_ok pairs \<and> (\<forall>p\<in>set (elems pairs). id_ok N (np_key p) \<and> id_ok N (np_value p))"
  by (auto simp: id_ok_def)

lemma id_ok_mono: "id_ok M i \<Longrightarrow> M \<le> N \<Longrightarrow> id_ok N i"
  by (simp add: id_ok_def)

lemma node_inv_mono: "node_inv M f nd \<Longrightarrow> M \<le> N \<Longrightarrow> node_inv N f nd"
  by (induction M f nd rule: node_inv.induct)
    (auto simp del: data_ok.simps simp: pending_ok_def intro: data_ok_mono id_ok_mono)

lemma tree_inv_doc_ok: "tree_inv d [] [] \<Longrightarrow> doc_ok d"
  unfolding tree_inv_def doc_ok_def
proof (elim conjE, intro conjI ballI, assumption)
  fix n
  assume all: "\<forall>i. valid_id d i \<longrightarrow> node_inv (length (doc_nodes d)) (map_of (zip [] []) i) (n_data (node_at d i))"
    and "n \<in> set (doc_nodes d)"
  then obtain k where k: "k < length (doc_nodes d)" "n = doc_nodes d ! k" by (auto simp: in_set_conv_nth)
  then have "valid_id d (int k + 1)" "node_at d (int k + 1) = n" by (simp_all add: valid_id_def node_at_def)
  with all have "node_inv (length (doc_nodes d)) None (n_data n)" by fastforce
  then show "data_ok (length (doc_nodes d)) (n_data n)" by simp
qed

lemma map_of_zip_fresh: "i \<notin> set cs \<Longrightarrow> map_of (zip cs fs) i = None"
  by (auto simp: map_of_eq_None_iff dest: set_zip_leftD)

text \<open>A new node.\<close>

lemma tree_inv_push:
  assumes t: "tree_inv d cs fs" and st: "stack_ok st" "elems st = doc_nodes d @ [n]"
    and n: "data_ok (length (doc_nodes d)) (n_data n)"
  shows "tree_inv (d\<lparr>d_nodes := st\<rparr>) cs fs"
    "map_of (zip cs fs) (int (length (doc_nodes d)) + 1) = None"
    "int (length (doc_nodes d)) + 1 \<notin> set cs"
proof -
  let ?N = "length (doc_nodes d)"
  show fresh: "int ?N + 1 \<notin> set cs" using t by (auto simp: tree_inv_def valid_id_def)
  then show none: "map_of (zip cs fs) (int ?N + 1) = None"
    by (rule map_of_zip_fresh)
  have "node_inv (length (elems st)) (map_of (zip cs fs) i) (n_data (node_at (d\<lparr>d_nodes := st\<rparr>) i))"
    if i: "valid_id (d\<lparr>d_nodes := st\<rparr>) i" for i
  proof (cases "valid_id d i")
    case True
    then have "node_at (d\<lparr>d_nodes := st\<rparr>) i = node_at d i"
      using st by (auto simp: node_at_def valid_id_def nth_append)
    with True t st show ?thesis by (auto simp: tree_inv_def intro: node_inv_mono)
  next
    case False
    then have [simp]: "i = int ?N + 1" using i st by (auto simp: valid_id_def)
    have "node_at (d\<lparr>d_nodes := st\<rparr>) i = n" using st by (simp add: node_at_def)
    with n none st show ?thesis by (auto intro: data_ok_mono)
  qed
  with t st show "tree_inv (d\<lparr>d_nodes := st\<rparr>) cs fs" by (auto simp: tree_inv_def valid_id_def)
qed

text \<open>A new innermost collection, and the end of it.\<close>

lemma tree_inv_open:
  assumes "tree_inv d cs fs" "valid_id d i" "i \<notin> set cs" "node_inv (length (doc_nodes d)) (Some f) (n_data (node_at d i))"
  shows "tree_inv d (i # cs) (f # fs)"
  using assms by (auto simp: tree_inv_def)

lemma tree_inv_close:
  assumes t: "tree_inv d (c # cs) (f # fs)" and "f \<noteq> AtValue"
  shows "tree_inv d cs fs"
proof -
  have "map_of (zip cs fs) c = None"
    using t by (auto simp: tree_inv_def intro!: map_of_zip_fresh)
  moreover have "node_inv (length (doc_nodes d)) (Some f) (n_data (node_at d c))" "valid_id d c"
    using t by (auto simp: tree_inv_def split: if_splits)
  then have "data_ok (length (doc_nodes d)) (n_data (node_at d c))"
    using assms(2) by (cases f; cases "n_data (node_at d c)") auto
  ultimately have "node_inv (length (doc_nodes d)) (map_of (zip cs fs) i) (n_data (node_at d i))" if "valid_id d i" for i
    using t that by (cases "i = c") (auto simp: tree_inv_def map_of_zip_fresh split: if_splits)
  with t show ?thesis by (auto simp: tree_inv_def)
qed

lemma tree_inv_top:
  assumes "tree_inv d (c # cs) (f # fs)"
  shows "valid_id d c" "node_inv (length (doc_nodes d)) (Some f) (n_data (node_at d c))"
  using assms by (auto simp: tree_inv_def)

text \<open>New contents of the innermost collection.\<close>

lemma tree_inv_set_top:
  assumes t: "tree_inv d (c # cs) (f # fs)" and nd: "node_inv (length (doc_nodes d)) (Some g) nd"
  shows "tree_inv (set_node_data c nd d) (c # cs) (g # fs)"
proof -
  have c: "valid_id d c" using tree_inv_top [OF t] by simp
  have at: "node_at (set_node_data c nd d) i = (if i = c then (node_at d c)\<lparr>n_data := nd\<rparr> else node_at d i)"
    if "valid_id d i" for i
    using that c by (auto simp: node_at_def set_node_data_def valid_id_def nth_list_update)
  have "valid_id (set_node_data c nd d) = valid_id d" by (auto simp: valid_id_def set_node_data_def)
  then show ?thesis using t nd at by (auto simp: tree_inv_def set_node_data_def [of c nd d] stack_ok_def)
qed

lemma tree_inv_end_mark: "tree_inv d cs fs \<Longrightarrow> valid_id d i \<Longrightarrow> tree_inv (set_end_mark i m d) cs fs"
proof -
  assume t: "tree_inv d cs fs" and i: "valid_id d i"
  have "n_data (node_at (set_end_mark i m d) j) = n_data (node_at d j)" if "valid_id d j" for j
    using that i by (auto simp: node_at_def set_end_mark_def valid_id_def nth_list_update)
  moreover have "valid_id (set_end_mark i m d) = valid_id d" by (auto simp: valid_id_def set_end_mark_def)
  ultimately show ?thesis using t by (auto simp: tree_inv_def set_end_mark_def [of i m d] stack_ok_def)
qed

subsection \<open>Adding a node to its parent\<close>

lemma wp_limitM [wp_simps]: "wp (limitM b) Q E s = (if b s then Q () s else E s)"
  by (simp add: wp_def limitM_def)

lemma abs_doc_nth: "valid_id d i \<Longrightarrow> abs_doc d ! nat (i - 1) = abs_data (n_tag (node_at d i)) (n_data (node_at d i))"
  by (auto simp: abs_doc_def abs_node_def node_at_def valid_id_def)

definition adopted :: "yaml_document \<Rightarrow> int list \<Rightarrow> frame list \<Rightarrow> int \<Rightarrow> heap \<Rightarrow> doc_state \<Rightarrow> bool" where
  "adopted d cs fs x h s' \<longleftrightarrow> (case s' of (d', h') \<Rightarrow> tree_inv d' cs (frame_next (hd fs) # tl fs)
     \<and> abs_doc d' = (abs_doc d)[nat (hd cs - 1) := adopt x (abs_doc d ! nat (hd cs - 1))]
     \<and> document_blocks d' = document_blocks d \<and> length (doc_nodes d') = length (doc_nodes d) \<and> live h' = live h)"

text \<open>New contents \<open>nd\<close> of the innermost collection \<open>c\<close>, which are those with \<open>x\<close> added.\<close>

lemma adoptedI:
  assumes t: "tree_inv d (c # cs) (f # fs)" and nd: "node_inv (length (doc_nodes d)) (Some (frame_next f)) nd"
    and "data_blocks nd = data_blocks (n_data (node_at d c))" "live h' = live h"
    and a: "abs_data (n_tag (node_at d c)) nd = adopt x (abs_data (n_tag (node_at d c)) (n_data (node_at d c)))"
  shows "adopted d (c # cs) (f # fs) x h (set_node_data c nd d, h')"
proof -
  have c: "valid_id d c" by (rule tree_inv_top [OF t])
  show ?thesis
    unfolding adopted_def using tree_inv_set_top [OF t nd] set_node_data_frame [OF c assms(3)] a assms(4)
    by (simp add: abs_doc_nth [OF c])
qed

lemma last_value:
  "\<forall>p\<in>set ps. id_ok N (np_key p) \<and> id_ok N (np_value p) \<Longrightarrow> ps \<noteq> [] \<Longrightarrow> np_value (last ps) \<noteq> 0"
  using last_in_set [of ps] by (fastforce simp: id_ok_def)

lemma wp_push_item_tree:
  assumes t: "tree_inv d (c # cs) (InSeq # fs)" and x: "id_ok (length (doc_nodes d)) x"
    and data: "n_data (node_at d c) = SequenceNode sis style"
  shows "wp (push_item c x) (\<lambda>_. adopted d (c # cs) (InSeq # fs) x h) (\<lambda>(d', h'). d' = d \<and> live h' = live h) (d, h)"
proof -
  have ok: "stack_ok sis" "\<forall>i\<in>set (elems sis). id_ok (length (doc_nodes d)) i"
    using tree_inv_top(2) [OF t] data by (simp_all add: data_ok_alt del: data_ok.simps)
  have "wp (PUSH x) (\<lambda>_ (sis', h'). adopted d (c # cs) (InSeq # fs) x h (set_node_data c (SequenceNode sis' style) d, h'))
     (\<lambda>(sis', h'). live h' = live h) (sis, h)"
    by (rule wp_PUSH [OF ok(1)])
      (use ok x data t in \<open>auto simp: data_ok_alt stack_ok_def simp del: data_ok.simps intro!: adoptedI\<close>)
  then show ?thesis using data by (auto simp: wp_def push_item_def split: result.splits)
qed

lemma wp_push_pair_tree:
  assumes t: "tree_inv d (c # cs) (AtKey # fs)" and x: "id_ok (length (doc_nodes d)) x"
    and data: "n_data (node_at d c) = MappingNode pairs style"
  shows "wp (push_pair c \<lparr>np_key = x, np_value = 0\<rparr>) (\<lambda>_. adopted d (c # cs) (AtKey # fs) x h)
     (\<lambda>(d', h'). d' = d \<and> live h' = live h) (d, h)"
proof -
  have ok: "stack_ok pairs" "\<forall>p\<in>set (elems pairs). id_ok (length (doc_nodes d)) (np_key p) \<and> id_ok (length (doc_nodes d)) (np_value p)"
    using tree_inv_top(2) [OF t] data by (simp_all add: data_ok_alt del: data_ok.simps)
  have "elems pairs \<noteq> [] \<Longrightarrow> np_value (last (elems pairs)) \<noteq> 0" by (rule last_value [OF ok(2)])
  then have ad: "adopt x (abs_data tag (MappingNode pairs style))
      = abs_data tag (MappingNode (pairs\<lparr>elems := elems pairs @ [\<lparr>np_key = x, np_value = 0\<rparr>]\<rparr>) style)" for tag
    by (auto simp: last_map)
  have "wp (PUSH \<lparr>np_key = x, np_value = 0\<rparr>)
     (\<lambda>_ (ps, h'). adopted d (c # cs) (AtKey # fs) x h (set_node_data c (MappingNode ps style) d, h'))
     (\<lambda>(ps, h'). live h' = live h) (pairs, h)"
    by (rule wp_PUSH [OF ok(1)])
      (use ok x data t ad in \<open>auto simp: pending_ok_def stack_ok_def simp del: adopt.simps intro!: adoptedI\<close>)
  then show ?thesis using data by (auto simp: wp_def push_pair_def split: result.splits)
qed

lemma adopted_value:
  assumes t: "tree_inv d (c # cs) (AtValue # fs)" and x: "id_ok (length (doc_nodes d)) x"
    and data: "n_data (node_at d c) = MappingNode pairs style"
  shows "value_pending (elems pairs)" "adopted d (c # cs) (AtValue # fs) x h (set_node_data c (MappingNode (pairs\<lparr>elems :=
      butlast (elems pairs) @ [(last (elems pairs))\<lparr>np_value := x\<rparr>]\<rparr>) style) d, h)"
proof -
  have ok: "stack_ok pairs" "pending_ok (length (doc_nodes d)) (elems pairs)"
    using tree_inv_top(2) [OF t] data by simp_all
  then obtain qs p where ps: "elems pairs = qs @ [p]" "id_ok (length (doc_nodes d)) (np_key p)" "np_value p = 0"
      "\<forall>q\<in>set qs. id_ok (length (doc_nodes d)) (np_key q) \<and> id_ok (length (doc_nodes d)) (np_value q)"
    by (auto simp: pending_ok_def)
  then show "value_pending (elems pairs)" by (simp add: value_pending_def id_ok_def)
  show "adopted d (c # cs) (AtValue # fs) x h (set_node_data c (MappingNode (pairs\<lparr>elems :=
      butlast (elems pairs) @ [(last (elems pairs))\<lparr>np_value := x\<rparr>]\<rparr>) style) d, h)"
    by (rule adoptedI [OF t]) (use ok ps x data in \<open>auto simp: data_ok_alt stack_ok_def simp del: data_ok.simps\<close>)
qed

lemma wp_add_to_parent:
  assumes t: "tree_inv d (c # cs) (f # fs)" and x: "id_ok (length (doc_nodes d)) x"
  shows "wp (add_to_parent c x) (\<lambda>_. adopted d (c # cs) (f # fs) x h) (\<lambda>(d', h'). d' = d \<and> live h' = live h) (d, h)"
proof -
  note top = tree_inv_top [OF t]
  show ?thesis
  proof (cases f)
    case InSeq
    then obtain sis style where "n_data (node_at d c) = SequenceNode sis style"
      using top(2) by (cases "n_data (node_at d c)") auto
    with top(1) wp_push_item_tree [of d c cs fs x] t x InSeq show ?thesis
      by (simp add: add_to_parent_def wp_simps)
  next
    case AtKey
    then obtain pairs style where data: "n_data (node_at d c) = MappingNode pairs style"
      using top(2) by (cases "n_data (node_at d c)") auto
    then have "\<not> value_pending (elems pairs)"
      using top(2) AtKey last_value by (auto simp: value_pending_def data_ok_alt simp del: data_ok.simps)
    with data top(1) wp_push_pair_tree [of d c cs fs x] t x AtKey show ?thesis
      by (simp add: add_to_parent_def wp_simps)
  next
    case AtValue
    then obtain pairs style where data: "n_data (node_at d c) = MappingNode pairs style"
      using top(2) by (cases "n_data (node_at d c)") auto
    with AtValue top(1) adopted_value [OF t [unfolded AtValue] x data] show ?thesis
      by (simp add: add_to_parent_def wp_simps)
  qed
qed

subsection \<open>The state of the loader\<close>

definition alias_blocks :: "yaml_alias_data ystack \<Rightarrow> int" where
  "alias_blocks al = block_if (cap al) + int (length (elems al))"

definition aliases_ok :: "nat \<Rightarrow> yaml_alias_data ystack \<Rightarrow> bool" where
  "aliases_ok N al \<longleftrightarrow> stack_ok al \<and> (\<forall>x\<in>set (elems al). id_ok N (al_index x))"

definition abs_aliases :: "yaml_alias_data ystack \<Rightarrow> (ystring \<times> int) list" where
  "abs_aliases al = map (\<lambda>x. (al_anchor x, al_index x)) (elems al)"

text \<open>
  \<open>lstate q b st fs (p, ctx)\<close>: apart from the heap the parser proper is \<open>q\<close>, the document, the context and
  the aliases represent the abstract state \<open>st\<close> with the frames \<open>fs\<close>, and \<open>b\<close> blocks are live besides those
  of the document, the aliases and the context.  \<open>lfailed q b C\<close>: the same accounts after a failure; only a
  memory error may lose blocks, and a composer error has the reason \<open>C\<close>.
\<close>

fun lstate :: "'h yaml_parser \<Rightarrow> int \<Rightarrow> composing \<Rightarrow> frame list \<Rightarrow> 'h loading \<Rightarrow> bool" where
  "lstate q b st fs (p, ctx) \<longleftrightarrow> yaml_parser.truncate p = q\<lparr>p_mem := p_mem p\<rparr> \<and> p_error q = YAML_NO_ERROR
     \<and> stack_ok ctx
     \<and> (\<exists>d. p_document p = Some d \<and> tree_inv d (rev (elems ctx)) fs
        \<and> aliases_ok (length (doc_nodes d)) (p_aliases p)
        \<and> st = (abs_doc d, rev (elems ctx), abs_aliases (p_aliases p))
        \<and> live (p_mem p) = b + document_blocks d + alias_blocks (p_aliases p) + 1)"

fun lfailed :: "'h yaml_parser \<Rightarrow> int \<Rightarrow> bool \<Rightarrow> 'h loading \<Rightarrow> bool" where
  "lfailed q b C (p, ctx) \<longleftrightarrow> parser_blocks (yaml_parser.truncate p) = parser_blocks q \<and> cap ctx \<noteq> 0
     \<and> (p_error p = YAML_COMPOSER_ERROR \<longrightarrow> C)
     \<and> (\<exists>d. p_document p = Some d
        \<and> b + document_blocks d + alias_blocks (p_aliases p) + 1 \<le> live (p_mem p)
        \<and> (p_error p = YAML_MEMORY_ERROR \<or> live (p_mem p) = b + document_blocks d + alias_blocks (p_aliases p) + 1))"

lemma truncate_simps [simp]:
  "yaml_parser.truncate (p\<lparr>p_mem := h\<rparr>) = (yaml_parser.truncate p)\<lparr>p_mem := h\<rparr>"
  "yaml_parser.truncate (p\<lparr>p_error := x\<rparr>) = (yaml_parser.truncate p)\<lparr>p_error := x\<rparr>"
  "yaml_parser.truncate (p\<lparr>p_aliases := al\<rparr>) = yaml_parser.truncate p"
  "yaml_parser.truncate (p\<lparr>p_document := d\<rparr>) = yaml_parser.truncate p"
  "yaml_parser.truncate (freeP f p) = freeP f (yaml_parser.truncate p)"
  "p_mem (yaml_parser.truncate p) = p_mem p" "p_error (yaml_parser.truncate p) = p_error p"
  "p_stream_start_produced (yaml_parser.truncate p) = p_stream_start_produced p"
  "p_stream_end_produced (yaml_parser.truncate p) = p_stream_end_produced p"
  "p_state (yaml_parser.truncate p) = p_state p"
  by (simp_all add: yaml_parser.truncate_def freeP_def)

lemma parser_blocks_simps [simp]:
  "parser_blocks (q\<lparr>p_mem := h\<rparr>) = parser_blocks q" "parser_blocks (q\<lparr>p_error := x\<rparr>) = parser_blocks q"
  "parser_blocks (freeP f q) = parser_blocks q"
  by (simp_all add: parser_blocks_def freeP_def)

lemma freeP_simps [simp]:
  "p_mem (freeP f p) = f (p_mem p)" "p_document (freeP f p) = p_document p" "p_aliases (freeP f p) = p_aliases p"
  "p_error (freeP f p) = p_error p"
  by (simp_all add: freeP_def)

lemma live_free_strings [simp]: "live (free_strings xs h) = live h - sum_list (map string_blocks xs)"
  by (induction xs arbitrary: h) (simp_all add: free_strings_def)

lemma wp_on_document:
  assumes "p_document p = Some d"
    and "wp m (\<lambda>a (d', h). Q a (p\<lparr>p_mem := h, p_document := Some d'\<rparr>))
      (\<lambda>(d', h). E (p\<lparr>p_mem := h, p_document := Some d', p_error := YAML_MEMORY_ERROR\<rparr>)) (d, p_mem p)"
  shows "wp (on_document m) Q E p"
  using assms by (auto simp: wp_def on_document_def split: result.splits)

lemma wp_inP [wp_simps]: "wp (inP m) Q E (p, ctx) = wp m (\<lambda>a p'. Q a (p', ctx)) (\<lambda>p'. E (p', ctx)) p"
  by (simp add: inP_def wp_simps)

lemma lstate_error: "lstate q b st fs (p, ctx) \<Longrightarrow> p_error p = YAML_NO_ERROR"
  by (metis lstate.simps truncate_simps(7) yaml_reader.select_convs(2) yaml_reader.surjective yaml_reader.update_convs(1))

text \<open>Freeing and failing.\<close>

lemma lstate_free:
  "lstate q b st fs (p, ctx) \<Longrightarrow> (\<And>h. live (f h) = live h - k) \<Longrightarrow> lstate q (b - k) st fs (freeP f p, ctx)"
  by (auto simp: freeP_def)

lemma lfailed_free:
  "lfailed q b C (p, ctx) \<Longrightarrow> (\<And>h. live (f h) = live h - k) \<Longrightarrow> lfailed q (b - k) C (freeP f p, ctx)"
  by auto

lemma lfailed_memory:
  "lstate q b st fs (p, ctx) \<Longrightarrow> b' \<le> b \<Longrightarrow> live h = live (p_mem p) \<Longrightarrow>
     lfailed q b' C (p\<lparr>p_mem := h, p_error := YAML_MEMORY_ERROR\<rparr>, ctx)"
  by (auto simp: stack_ok_def)

lemma lfailed_composer:
  "lstate q b st fs (p, ctx) \<Longrightarrow> C \<Longrightarrow>
     lfailed q b C (p\<lparr>p_error := YAML_COMPOSER_ERROR, p_problem := w, p_problem_mark := m\<rparr>, ctx)"
  "lstate q b st fs (p, ctx) \<Longrightarrow> C \<Longrightarrow>
     lfailed q b C (p\<lparr>p_error := YAML_COMPOSER_ERROR, p_context := u, p_context_mark := v, p_problem := w, p_problem_mark := m\<rparr>, ctx)"
proof -
  have "parser_blocks (yaml_parser.truncate (p\<lparr>p_error := x, p_problem := w, p_problem_mark := m\<rparr>)) = parser_blocks (yaml_parser.truncate p)"
    "parser_blocks (yaml_parser.truncate (p\<lparr>p_error := x, p_context := u, p_context_mark := v, p_problem := w, p_problem_mark := m\<rparr>))
      = parser_blocks (yaml_parser.truncate p)" for x
    by (simp_all add: parser_blocks_def yaml_parser.truncate_def)
  then show "lstate q b st fs (p, ctx) \<Longrightarrow> C \<Longrightarrow>
     lfailed q b C (p\<lparr>p_error := YAML_COMPOSER_ERROR, p_problem := w, p_problem_mark := m\<rparr>, ctx)"
    "lstate q b st fs (p, ctx) \<Longrightarrow> C \<Longrightarrow>
     lfailed q b C (p\<lparr>p_error := YAML_COMPOSER_ERROR, p_context := u, p_context_mark := v, p_problem := w, p_problem_mark := m\<rparr>, ctx)"
    by (auto simp: stack_ok_def)
qed

lemma lfailed_lstate: "lstate q b st fs (p, ctx) \<Longrightarrow> lfailed q b C (p, ctx)"
  using lstate_error [of q b st fs p ctx] by (auto simp: stack_ok_def)

subsection \<open>The steps of the loader\<close>

fun advance :: "frame list \<Rightarrow> frame list" where
  "advance [] = []"
| "advance (f # fs) = frame_next f # fs"

lemma wp_load_node_add:
  fixes p :: "'h yaml_loader"
  assumes L: "lstate q b (ns, cs, as) fs (p, ctx)" and i: "id_ok (length ns) i"
    and Q: "\<And>p'. lstate q b (add_child i (ns, cs, as)) (advance fs) (p', ctx) \<Longrightarrow> Q () (p', ctx)"
    and E: "\<And>p'. lfailed q b C (p', ctx) \<Longrightarrow> E (p', ctx)"
  shows "wp (yaml_parser_load_node_add i) Q E (p, ctx)"
proof (cases "elems ctx = []")
  case True
  with L have "cs = []" "fs = []" by (auto simp: tree_inv_def)
  with True Q [of p] L show ?thesis by (simp add: yaml_parser_load_node_add_def wp_simps STACK_EMPTY_def)
next
  case False
  obtain d where d: "p_document p = Some d" "tree_inv d (rev (elems ctx)) fs" "ns = abs_doc d"
    using L by auto
  obtain c cs' where c: "rev (elems ctx) = c # cs'" "last (elems ctx) = c"
    using False by (metis hd_rev list.collapse rev_is_Nil_conv)
  then obtain f fs' where fs: "fs = f # fs'" using d(2) by (cases fs) (auto simp: tree_inv_def)
  have len: "length ns = length (doc_nodes d)" by (simp add: d(3) abs_doc_def)
  have "wp (on_document (add_to_parent c i)) (\<lambda>a p'. Q a (p', ctx)) (\<lambda>p'. E (p', ctx)) p"
  proof (rule wp_on_document [OF d(1)], rule wp_mono [OF wp_add_to_parent])
    show "tree_inv d (c # cs') (f # fs')" using d(2) c fs by simp
    show "id_ok (length (doc_nodes d)) i" using i len by simp
  next
    fix a s'
    assume ad: "adopted d (c # cs') (f # fs') i (p_mem p) s'"
    obtain d' h' where s': "s' = (d', h')" by (cases s')
    have "lstate q b (add_child i (ns, cs, as)) (advance fs) (p\<lparr>p_mem := h', p_document := Some d'\<rparr>, ctx)"
      using L d ad c fs len by (auto simp: adopted_def s' aliases_ok_def)
    from Q [OF this] show "case s' of (d', h) \<Rightarrow> Q a (p\<lparr>p_mem := h, p_document := Some d'\<rparr>, ctx)"
      by (simp add: s')
  next
    fix s' :: doc_state
    assume "case s' of (d', h') \<Rightarrow> d' = d \<and> live h' = live (p_mem p)"
    then show "case s' of (d', h) \<Rightarrow> E (p\<lparr>p_mem := h, p_document := Some d', p_error := YAML_MEMORY_ERROR\<rparr>, ctx)"
      using L d by (auto intro!: E simp: stack_ok_def)
  qed
  with False c show ?thesis by (simp add: yaml_parser_load_node_add_def wp_simps STACK_EMPTY_def)
qed

lemma find_map: "find P (map f xs) = map_option f (find (P \<circ> f) xs)"
  by (induction xs) auto

lemma find_anchor_abs: "find_anchor a (abs_aliases al) = map_option al_index (find (\<lambda>x. streq (al_anchor x) a) (elems al))"
  by (simp add: find_anchor_def abs_aliases_def find_map comp_def option.map_comp)

lemma wp_register_anchor:
  fixes p :: "'h yaml_loader"
  assumes L: "lstate q (b + string_blocks anchor) (ns, cs, as) fs (p, ctx)" and i: "id_ok (length ns) i"
    and Q: "\<And>p' as'. lstate q b (ns, cs, as') fs (p', ctx) \<Longrightarrow> add_anchor i anchor as = Some as' \<Longrightarrow> Q () p'"
    and E: "\<And>p'. lfailed q b (add_anchor i anchor as = None) (p', ctx) \<Longrightarrow> E p'"
  shows "wp (yaml_parser_register_anchor i anchor) Q E p"
proof (cases anchor)
  case None
  with L Q [of as p] show ?thesis
    by (simp add: yaml_parser_register_anchor_def wp_simps add_anchor_def string_blocks_def)
next
  case (Some a)
  obtain d where d: "p_document p = Some d" "ns = abs_doc d" "as = abs_aliases (p_aliases p)"
      "aliases_ok (length (doc_nodes d)) (p_aliases p)" using L by auto
  have id: "valid_id d i" using i by (simp add: d(2) abs_doc_def id_ok_def valid_id_def)
  have len: "length ns = length (doc_nodes d)" by (simp add: d(2) abs_doc_def)
  have L1: "lstate q (b + 1) (ns, cs, as) fs (p, ctx)" using L Some by (simp add: string_blocks_def)
  have keep: "p\<lparr>p_document := Some d\<rparr> = p" using d(1) by (cases p) simp
  have mark: "wp (on_document (\<lambda>(d, h). if valid_id d i then Return (n_start_mark (node_at d i)) (d, h) else Fault)) Q' E p
      = Q' (n_start_mark (node_at d i)) p" for Q'
    using d(1) id by (simp add: wp_def on_document_def keep)
  show ?thesis
  proof (cases "find (\<lambda>x. streq (al_anchor x) a) (elems (p_aliases p))")
    case None
    then have new: "add_anchor i anchor as = Some (as @ [(a, i)])"
      by (simp add: add_anchor_def Some d(3) find_anchor_abs)
    have "wp (push_stack p_aliases (\<lambda>st p. p\<lparr>p_aliases := st\<rparr>) \<lparr>al_anchor = a, al_index = i, al_mark = mark\<rparr>) Q
        (\<lambda>p'. E (freeP (yaml_free True) p')) p" for mark
    proof -
      let ?x = "\<lparr>al_anchor = a, al_index = i, al_mark = mark\<rparr>"
      have "wp (PUSH ?x) (\<lambda>_ (st, h). Q () (p\<lparr>p_mem := h, p_aliases := st\<rparr>))
          (\<lambda>(st, h). E (freeP (yaml_free True) (p\<lparr>p_mem := h, p_error := YAML_MEMORY_ERROR, p_aliases := st\<rparr>)))
          (p_aliases p, p_mem p)"
      proof (rule wp_PUSH)
        show "stack_ok (p_aliases p)" using d(4) by (simp add: aliases_ok_def)
      next
        fix st :: "yaml_alias_data ystack" and h :: heap
        assume st: "stack_ok st" "elems st = elems (p_aliases p) @ [?x]" "live h = live (p_mem p)"
        have "lstate q b (ns, cs, as @ [(a, i)]) fs (p\<lparr>p_mem := h, p_aliases := st\<rparr>, ctx)"
          using L1 d st i len by (auto simp: aliases_ok_def abs_aliases_def alias_blocks_def stack_ok_def)
        from Q [OF this new] show "case (st, h) of (st, h) \<Rightarrow> Q () (p\<lparr>p_mem := h, p_aliases := st\<rparr>)" by simp
      next
        fix h :: heap
        assume h: "live h = live (p_mem p)"
        have "lfailed q (b + 1 - 1) (add_anchor i anchor as = None)
            (freeP (yaml_free True) (p\<lparr>p_mem := h, p_error := YAML_MEMORY_ERROR\<rparr>), ctx)"
          by (rule lfailed_free [OF lfailed_memory [OF L1]]) (use h in auto)
        then show "case (p_aliases p, h) of (st, h) \<Rightarrow>
            E (freeP (yaml_free True) (p\<lparr>p_mem := h, p_error := YAML_MEMORY_ERROR, p_aliases := st\<rparr>))"
          by (auto intro!: E)
      qed
      then show ?thesis by (auto simp: wp_def push_stack_def split: result.splits)
    qed
    with None show ?thesis by (simp add: yaml_parser_register_anchor_def Some wp_simps mark)
  next
    case (Some x)
    then have dup: "add_anchor i anchor as = None"
      by (simp add: add_anchor_def \<open>anchor = Some a\<close> d(3) find_anchor_abs)
    have L0: "lstate q (b + 1 - 1) (ns, cs, as) fs (freeP (yaml_free True) p, ctx)"
      by (rule lstate_free [OF L1]) simp
    have "E ((freeP (yaml_free True) p)\<lparr>p_error := YAML_COMPOSER_ERROR, p_context := u, p_context_mark := v,
        p_problem := w, p_problem_mark := m\<rparr>)" for u v w m
      using lfailed_composer(2) [OF L0 dup] by (intro E) simp
    with Some show ?thesis
      by (simp add: yaml_parser_register_anchor_def \<open>anchor = Some a\<close> wp_simps mark yaml_parser_set_composer_error_context_def)
  qed
qed

text \<open>New nodes.\<close>

lemma wp_strdup_tag:
  assumes L: "lstate q b st fs (p, ctx)"
    and Q: "\<And>p'. lstate q (b + 1) st fs (p', ctx) \<Longrightarrow> Q (c_str t) p'"
    and E: "\<And>p'. lfailed q b C (p', ctx) \<Longrightarrow> E p'"
  shows "wp (strdup_tag t) Q E p"
  unfolding strdup_tag_def wp_bindM wp_zoomM
proof (rule wp_yaml_strdup)
  fix t' and h' :: heap
  assume "Some t = Some t'" "live h' = live (p_mem p) + 1"
  then have "lstate q (b + 1) st fs (p\<lparr>p_mem := h'\<rparr>, ctx)" "t' = t" using L by auto
  then show "wp (case Some (c_str t') of None \<Rightarrow> errorM id | Some t' \<Rightarrow> returnM t') Q E (p\<lparr>p_mem := h'\<rparr>)"
    using Q by (simp add: wp_simps)
next
  fix t' and h' :: heap
  assume "live h' = live (p_mem p)"
  then have "lfailed q b C (p\<lparr>p_mem := h'\<rparr>, ctx)" using L lstate_error [OF L] by (auto simp: stack_ok_def)
  then show "wp (case None of None \<Rightarrow> errorM id | Some t' \<Rightarrow> returnM t') Q E (p\<lparr>p_mem := h'\<rparr>)"
    using E by (simp add: wp_simps)
qed simp

lemma wp_default_tag:
  assumes L: "lstate q (b + string_blocks tag) st fs (p, ctx)" and dflt: "c_str dflt = dflt"
    and Q: "\<And>p'. lstate q (b + 1) st fs (p', ctx) \<Longrightarrow> Q (node_tag dflt tag) p'"
    and E: "\<And>p'. lfailed q b C (p', ctx) \<Longrightarrow> E p'"
  shows "wp (default_tag dflt tag) Q E p"
proof (cases tag)
  case None
  then have "lstate q b st fs (p, ctx)" using L by (simp add: string_blocks_def)
  note dup = wp_strdup_tag [OF this, of Q dflt C E, unfolded dflt]
  have "wp (strdup_tag dflt) Q E p" by (rule dup) (use Q E None in \<open>auto simp: node_tag_def simp del: lstate.simps lfailed.simps\<close>)
  with None show ?thesis by (simp add: default_tag_def)
next
  case (Some t)
  then have L1: "lstate q (b + 1) st fs (p, ctx)" using L by (simp add: string_blocks_def)
  have "lstate q (b + 1 - 1) st fs (freeP (yaml_free True) p, ctx)" by (rule lstate_free [OF L1]) simp
  then have "lstate q b st fs (freeP (yaml_free True) p, ctx)" by simp
  note dup = wp_strdup_tag [OF this, of Q dflt C E, unfolded dflt]
  have "wp (strdup_tag dflt) Q E (freeP (yaml_free True) p)" if "streq t (lit ''!'')"
    by (rule dup) (use Q E Some that in \<open>auto simp: node_tag_def simp del: lstate.simps lfailed.simps\<close>)
  with Some Q [OF L1] show ?thesis by (auto simp: default_tag_def wp_simps node_tag_def split: if_splits)
qed

text \<open>
  \<open>own\<close>: the blocks that the contents take over from the strings of the event; \<open>fresh\<close>: the blocks
  allocated for them.
\<close>

lemma wp_new_node:
  fixes p :: "'h yaml_loader"
  assumes L: "lstate q (b + string_blocks tag + sum_list (map string_blocks strings)) (ns, cs, as) fs (p, ctx)"
    and dflt: "c_str dflt = dflt"
    and contents: "\<And>b p Q E. lstate q b (ns, cs, as) fs (p, ctx) \<Longrightarrow>
        (\<And>p'. lstate q (b + fresh) (ns, cs, as) fs (p', ctx) \<Longrightarrow> Q nd p') \<Longrightarrow> (\<And>p'. lfailed q b C (p', ctx) \<Longrightarrow> E p')
        \<Longrightarrow> wp contents Q E p"
    and nd: "data_ok 0 nd" "data_blocks nd = own + fresh" "0 \<le> fresh" "\<And>tag. abs_data tag nd = mk tag"
    and Q: "\<And>p'. lstate q (b + sum_list (map string_blocks strings) - own) (ns @ [mk (node_tag dflt tag)], cs, as) fs (p', ctx)
        \<Longrightarrow> Q (int (length ns) + 1) p'"
    and E: "\<And>p'. lfailed q b C (p', ctx) \<Longrightarrow> E p'"
  shows "wp (new_node dflt tag strings contents sm em) Q E p"
proof -
  let ?K = "sum_list (map string_blocks strings)"
  obtain d where d: "p_document p = Some d" using L by auto
  have free: "E (freeP (free_strings xs) p')" if "lfailed q (b + k) C (p', ctx)" "k = sum_list (map string_blocks xs)" for p' xs k
    using lfailed_free [OF that(1), of "free_strings xs" k] that(2) by (intro E) simp
  have lim: "wp (on_document node_limit) Q' E' p" if "Q' () p"
      "\<And>p'. lfailed q (b + (string_blocks tag + ?K)) C (p', ctx) \<Longrightarrow> E' p'" for Q' :: "unit \<Rightarrow> 'h yaml_loader \<Rightarrow> bool" and E'
  proof (rule wp_on_document [OF d])
    have "p\<lparr>p_document := Some d\<rparr> = p" using d by (cases p) simp
    moreover have "lfailed q (b + (string_blocks tag + ?K)) C (p\<lparr>p_document := Some d, p_error := YAML_MEMORY_ERROR\<rparr>, ctx)"
      using L d by (auto simp: stack_ok_def)
    ultimately show "wp node_limit (\<lambda>a (d', h). Q' a (p\<lparr>p_mem := h, p_document := Some d'\<rparr>))
      (\<lambda>(d', h). E' (p\<lparr>p_mem := h, p_document := Some d', p_error := YAML_MEMORY_ERROR\<rparr>)) (d, p_mem p)"
      using that by (auto simp: node_limit_def wp_simps)
  qed
  have push: "wp (on_document (push_node (NODE_INIT t nd sm em))) Q (\<lambda>p'. E (freeP (free_strings (Some t # strings)) p')) p2"
    if L2: "lstate q (b + (?K + 1) + fresh) (ns, cs, as) fs (p2, ctx)" and t: "t = node_tag dflt tag" for p2 t
  proof -
    obtain d2 where d2: "p_document p2 = Some d2" "tree_inv d2 cs fs" "ns = abs_doc d2" using L2 by auto
    have len: "length ns = length (doc_nodes d2)" by (simp add: d2(3) abs_doc_def)
    have ok: "data_ok (length (doc_nodes d2)) (n_data (NODE_INIT t nd sm em))"
      using nd(1) by (auto simp: NODE_INIT_def intro: data_ok_mono)
    show ?thesis
    proof (rule wp_on_document [OF d2(1)], rule wp_push_node_any)
      show "stack_ok (d_nodes d2)" using d2(2) by (simp add: tree_inv_def)
    next
      fix st' :: "yaml_node ystack" and h' :: heap
      assume st': "stack_ok st'" "elems st' = doc_nodes d2 @ [NODE_INIT t nd sm em]" "live h' = live (p_mem p2)"
        and blocks: "document_blocks (d2\<lparr>d_nodes := st'\<rparr>) = document_blocks d2 + node_blocks (NODE_INIT t nd sm em)"
      have "lstate q (b + ?K - own) (ns @ [mk t], cs, as) fs (p2\<lparr>p_mem := h', p_document := Some (d2\<lparr>d_nodes := st'\<rparr>)\<rparr>, ctx)"
        using L2 d2 st' blocks nd tree_inv_push(1) [OF d2(2) st'(1,2) ok]
        by (auto simp: abs_doc_def abs_node_def NODE_INIT_def node_blocks_def aliases_ok_def id_ok_def)
      then show "case (d2\<lparr>d_nodes := st'\<rparr>, h') of (d', h) \<Rightarrow>
          Q (int (length (doc_nodes d2)) + 1) (p2\<lparr>p_mem := h, p_document := Some d'\<rparr>)"
        using Q t len by simp
    next
      fix h' :: heap
      assume h': "live h' = live (p_mem p2)"
      have "lfailed q (b + (?K + 1)) C (p2\<lparr>p_mem := h', p_document := Some d2, p_error := YAML_MEMORY_ERROR\<rparr>, ctx)"
        using L2 d2 nd(3) h' by (auto simp: stack_ok_def)
      from free [OF this, of "Some t # strings"] show "case (d2, h') of (d', h) \<Rightarrow> E (freeP (free_strings (Some t # strings))
          (p2\<lparr>p_mem := h, p_document := Some d', p_error := YAML_MEMORY_ERROR\<rparr>))"
        by (simp add: string_blocks_def)
    qed
  qed
  have L0: "lstate q (b + ?K + string_blocks tag) (ns, cs, as) fs (p, ctx)" using L by (simp add: algebra_simps)
  have tagged: "wp (default_tag dflt tag)
      (\<lambda>t. wp (cleanupM (bindM contents (\<lambda>nd. on_document (push_node (NODE_INIT t nd sm em))))
         (freeP (free_strings (Some t # strings)))) Q E) (\<lambda>p'. E (freeP (free_strings strings) p')) p"
  proof (rule wp_default_tag [OF L0 dflt])
    fix p1
    assume L1: "lstate q (b + ?K + 1) (ns, cs, as) fs (p1, ctx)"
    show "wp (cleanupM (bindM contents (\<lambda>nd. on_document (push_node (NODE_INIT (node_tag dflt tag) nd sm em))))
         (freeP (free_strings (Some (node_tag dflt tag) # strings)))) Q E p1"
      unfolding wp_cleanupM wp_bindM
    proof (rule contents [OF L1])
      fix p2
      assume "lstate q (b + ?K + 1 + fresh) (ns, cs, as) fs (p2, ctx)"
      then show "wp (on_document (push_node (NODE_INIT (node_tag dflt tag) nd sm em))) Q
          (\<lambda>p'. E (freeP (free_strings (Some (node_tag dflt tag) # strings)) p')) p2"
        by (intro push) (simp_all add: algebra_simps)
    next
      fix p'
      assume "lfailed q (b + ?K + 1) C (p', ctx)"
      then show "E (freeP (free_strings (Some (node_tag dflt tag) # strings)) p')"
        by (intro free [of "?K + 1"]) (simp_all add: string_blocks_def algebra_simps)
    qed
  qed (rule free, assumption, rule refl)
  have "wp (bindM (cleanupM (default_tag dflt tag) (freeP (free_strings strings))) (\<lambda>t.
      cleanupM (bindM contents (\<lambda>nd. on_document (push_node (NODE_INIT t nd sm em))))
        (freeP (free_strings (Some t # strings))))) Q E p"
    unfolding wp_bindM [of "cleanupM _ _"] wp_cleanupM [of "default_tag _ _"] by (rule tagged)
  then show ?thesis unfolding new_node_def wp_seqM wp_cleanupM
    by (rule lim) (rule free, assumption, simp)
qed

text \<open>The result of a step: the abstract composer does it too, or it is the composer's error.\<close>

definition stepped :: "'h yaml_parser \<Rightarrow> int \<Rightarrow> composing option \<Rightarrow> frame list \<Rightarrow> 'h loading \<Rightarrow> bool" where
  "stepped q b st fs s \<longleftrightarrow> (\<exists>st'. st = Some st' \<and> lstate q b st' fs s)"

lemma default_tag_strings:
  "c_str YAML_DEFAULT_SCALAR_TAG = YAML_DEFAULT_SCALAR_TAG" "c_str YAML_DEFAULT_SEQUENCE_TAG = YAML_DEFAULT_SEQUENCE_TAG"
  "c_str YAML_DEFAULT_MAPPING_TAG = YAML_DEFAULT_MAPPING_TAG"
  by (simp_all add: c_str_def YAML_DEFAULT_SCALAR_TAG_def YAML_DEFAULT_SEQUENCE_TAG_def YAML_DEFAULT_MAPPING_TAG_def lit_def)

lemma wp_load_scalar:
  fixes p :: "'h yaml_loader" and v :: ystring
  assumes L: "lstate q (b + string_blocks anchor + string_blocks tag + 1) st fs (p, ctx)"
  defines "st' \<equiv> add_node (AScalar (node_tag YAML_DEFAULT_SCALAR_TAG tag) v) anchor st"
  shows "wp (yaml_parser_load_scalar anchor tag v style sm em) (\<lambda>_. stepped q b st' (advance fs)) (lfailed q b (st' = None)) (p, ctx)"
proof -
  obtain ns cs as where st: "st = (ns, cs, as)" by (cases st)
  let ?i = "int (length ns) + 1" and ?n = "AScalar (node_tag YAML_DEFAULT_SCALAR_TAG tag) v"
  have L0: "lstate q (b + string_blocks tag + sum_list (map string_blocks [anchor, Some v])) (ns, cs, as) fs (p, ctx)"
    using L by (simp add: st string_blocks_def algebra_simps)
  show ?thesis unfolding yaml_parser_load_scalar_def wp_bindM wp_inP
  proof (rule wp_new_node [OF L0 default_tag_strings(1), where own = 1 and fresh = 0 and nd = "ScalarNode v style" and mk = "\<lambda>t. AScalar t v"])
    fix p1
    assume "lstate q (b + sum_list (map string_blocks [anchor, Some v]) - 1) (ns @ [?n], cs, as) fs (p1, ctx)"
    then have L1: "lstate q (b + string_blocks anchor) (ns @ [?n], cs, as) fs (p1, ctx)" by (simp add: string_blocks_def)
    show "wp (seqM (inP (yaml_parser_register_anchor ?i anchor)) (yaml_parser_load_node_add ?i))
        (\<lambda>_. stepped q b st' (advance fs)) (lfailed q b (st' = None)) (p1, ctx)"
      unfolding wp_seqM wp_inP
    proof (rule wp_register_anchor [OF L1])
      fix p2 as'
      assume L2: "lstate q b (ns @ [?n], cs, as') fs (p2, ctx)" and as': "add_anchor ?i anchor as = Some as'"
      show "wp (yaml_parser_load_node_add ?i) (\<lambda>_. stepped q b st' (advance fs)) (lfailed q b (st' = None)) (p2, ctx)"
        by (rule wp_load_node_add [OF L2])
          (use as' in \<open>simp_all add: stepped_def st'_def st add_node_def id_ok_def del: lstate.simps lfailed.simps\<close>)
    qed (simp_all add: st'_def st add_node_def id_ok_def Let_def del: lfailed.simps)
  qed (auto simp: wp_simps simp del: lfailed.simps lstate.simps)
qed

fun opens_frame :: "frame \<Rightarrow> anode \<Rightarrow> bool" where
  "opens_frame InSeq (ASequence tag xs) = True"
| "opens_frame AtKey (AMapping tag ps) = True"
| "opens_frame _ _ = False"

lemma node_inv_open:
  assumes "tree_inv d cs fs" "valid_id d i" "i \<notin> set cs" "opens_frame f (abs_doc d ! nat (i - 1))"
  shows "node_inv (length (doc_nodes d)) (Some f) (n_data (node_at d i))"
proof -
  have "node_inv (length (doc_nodes d)) (map_of (zip cs fs) i) (n_data (node_at d i))"
    using assms(1,2) by (simp add: tree_inv_def)
  then have "data_ok (length (doc_nodes d)) (n_data (node_at d i))"
    by (simp add: map_of_zip_fresh [OF assms(3)])
  with assms(4) show ?thesis
    by (cases f; cases "n_data (node_at d i)") (simp_all add: abs_doc_nth [OF assms(2)])
qed

lemma wp_push_ctx:
  assumes L: "lstate q b (ns, cs, as) fs (p, ctx)" and i: "id_ok (length ns) i" "i \<notin> set cs"
    and f: "opens_frame f (ns ! nat (i - 1))"
    and Q: "\<And>p' ctx'. lstate q b (ns, i # cs, as) (f # fs) (p', ctx') \<Longrightarrow> Q () (p', ctx')"
    and E: "\<And>p'. lfailed q b C (p', ctx) \<Longrightarrow> E (p', ctx)"
  shows "wp (push_ctx i) Q E (p, ctx)"
proof -
  obtain d where d: "p_document p = Some d" "tree_inv d cs fs" "ns = abs_doc d" "cs = rev (elems ctx)" "stack_ok ctx"
    using L by auto
  have id: "valid_id d i" using i d(3) by (simp add: valid_id_def id_ok_def abs_doc_def)
  have tree: "tree_inv d (i # cs) (f # fs)"
    by (rule tree_inv_open [OF d(2) id i(2) node_inv_open [OF d(2) id i(2)]]) (use f d(3) in simp)
  have "wp (PUSH i) (\<lambda>_ (ctx', h). Q () (p\<lparr>p_mem := h\<rparr>, ctx'))
      (\<lambda>(ctx', h). E (p\<lparr>p_mem := h, p_error := YAML_MEMORY_ERROR\<rparr>, ctx')) (ctx, p_mem p)"
    by (rule wp_PUSH [OF d(5)])
      (use L d tree in \<open>auto intro!: Q E simp: stack_ok_def\<close>)
  moreover have "E (p\<lparr>p_error := YAML_MEMORY_ERROR\<rparr>, ctx)"
    using L by (intro E) (auto simp: stack_ok_def)
  ultimately show ?thesis by (auto simp: wp_def push_ctx_def split: result.splits)
qed

lemma lstate_ctx:
  assumes "lstate q b (ns, cs, as) fs (p, ctx)" shows "\<forall>c\<in>set cs. id_ok (length ns) c"
  using assms by (auto simp: tree_inv_def valid_id_def id_ok_def abs_doc_def)

lemma wp_load_collection:
  fixes p :: "'h yaml_loader"
  assumes L: "lstate q (b + string_blocks anchor + string_blocks tag) st fs (p, ctx)"
    and dflt: "c_str dflt = dflt"
    and contents: "\<And>b st p Q E. lstate q b st fs (p, ctx) \<Longrightarrow>
        (\<And>p'. lstate q (b + 1) st fs (p', ctx) \<Longrightarrow> Q nd p') \<Longrightarrow> (\<And>p'. lfailed q b (st' = None) (p', ctx) \<Longrightarrow> E p')
        \<Longrightarrow> wp contents Q E p"
    and nd: "data_ok 0 nd" "data_blocks nd = 1" "\<And>tag. abs_data tag nd = mk tag" "\<And>tag. opens_frame f (mk tag)"
    and st': "st' = open_node (mk (node_tag dflt tag)) anchor st"
  shows "wp (load_collection dflt anchor tag contents sm em) (\<lambda>_. stepped q b st' (f # advance fs)) (lfailed q b (st' = None)) (p, ctx)"
proof -
  obtain ns cs as where st: "st = (ns, cs, as)" by (cases st)
  let ?i = "int (length ns) + 1" and ?n = "mk (node_tag dflt tag)"
  let ?post = "\<lambda>_. stepped q b st' (f # advance fs)" and ?fail = "lfailed q b (st' = None)"
  have L0: "lstate q (b + string_blocks tag + sum_list (map string_blocks [anchor])) (ns, cs, as) fs (p, ctx)"
    using L by (simp add: st algebra_simps)
  show ?thesis unfolding load_collection_def wp_bindM wp_inP
  proof (rule wp_new_node [OF L0 dflt contents, where own = 0 and mk = mk])
    fix p1
    assume "lstate q (b + sum_list (map string_blocks [anchor]) - 0) (ns @ [?n], cs, as) fs (p1, ctx)"
    then have L1: "lstate q (b + string_blocks anchor) (ns @ [?n], cs, as) fs (p1, ctx)" by (simp add: string_blocks_def)
    show "wp (seqM (inP (yaml_parser_register_anchor ?i anchor)) (seqM (yaml_parser_load_node_add ?i) (push_ctx ?i))) ?post ?fail (p1, ctx)"
      unfolding wp_seqM wp_inP
    proof (rule wp_register_anchor [OF L1])
      fix p2 as'
      assume L2: "lstate q b (ns @ [?n], cs, as') fs (p2, ctx)" and as': "add_anchor ?i anchor as = Some as'"
      show "wp (yaml_parser_load_node_add ?i) (\<lambda>_. wp (push_ctx ?i) ?post ?fail) ?fail (p2, ctx)"
      proof (rule wp_load_node_add [OF L2])
        fix p3
        assume L3: "lstate q b (add_child ?i (ns @ [?n], cs, as')) (advance fs) (p3, ctx)"
        obtain ns' where ns': "add_child ?i (ns @ [?n], cs, as') = (ns', cs, as')" "length ns' = Suc (length ns)"
          "ns' ! length ns = ?n"
        proof (cases cs)
          case (Cons c cs')
          then have "0 < c" "c \<le> int (length ns)"
            using lstate_ctx [OF L0] by (auto simp: id_ok_def)
          with that Cons show ?thesis by (auto simp: nth_list_update)
        qed simp
        have "?i \<notin> set cs" using lstate_ctx [OF L0] by (auto simp: id_ok_def)
        then show "wp (push_ctx ?i) ?post ?fail (p3, ctx)"
          using as' ns' nd(4) L3
          by (intro wp_push_ctx [where f = f and C = "st' = None"])
            (auto simp: stepped_def st' st open_node_def add_node_def id_ok_def Let_def add.commute
              simp del: lstate.simps lfailed.simps)
      qed (simp_all add: id_ok_def del: lfailed.simps)
    qed (simp_all add: st' st open_node_def add_node_def id_ok_def Let_def del: lfailed.simps)
  qed (use nd in \<open>auto simp del: lfailed.simps lstate.simps\<close>)
qed

abbreviation new_stack :: "nat \<Rightarrow> 'a ystack" where
  "new_stack sz \<equiv> \<lparr>elems = [], cap = INITIAL_STACK_SIZE, esz = sz\<rparr>"

lemma wp_alloc_stack:
  assumes L: "lstate q b st fs (p, ctx)"
    and Q: "\<And>p'. lstate q (b + 1) st fs (p', ctx) \<Longrightarrow> Q (new_stack sz) p'"
    and E: "\<And>p'. lfailed q b C (p', ctx) \<Longrightarrow> E p'"
  shows "wp (memP (STACK_INIT sz)) Q E p"
  unfolding wp_memP STACK_INIT_def wp_bindM
  by (rule wp_yaml_malloc) (use L in \<open>auto intro!: Q E simp: wp_simps stack_ok_def\<close>)

lemma wp_load_sequence:
  assumes L: "lstate q (b + string_blocks anchor + string_blocks tag) st fs (p, ctx)"
  defines "st' \<equiv> open_node (ASequence (node_tag YAML_DEFAULT_SEQUENCE_TAG tag) []) anchor st"
  shows "wp (yaml_parser_load_sequence anchor tag style sm em) (\<lambda>_. stepped q b st' (InSeq # advance fs)) (lfailed q b (st' = None)) (p, ctx)"
  unfolding yaml_parser_load_sequence_def
proof (rule wp_load_collection [OF L default_tag_strings(2), where nd = "SequenceNode (new_stack sizeof_int) style" and mk = "\<lambda>t. ASequence t []"])
  fix b st p and Q :: "yaml_node_data \<Rightarrow> 'a yaml_loader \<Rightarrow> bool" and E
  assume L: "lstate q b st fs (p, ctx)" and Q: "\<And>p'. lstate q (b + 1) st fs (p', ctx) \<Longrightarrow> Q (SequenceNode (new_stack sizeof_int) style) p'"
    and E: "\<And>p'. lfailed q b (st' = None) (p', ctx) \<Longrightarrow> E p'"
  show "wp (bindM (memP (STACK_INIT sizeof_int)) (\<lambda>sis. returnM (SequenceNode sis style))) Q E p"
    unfolding wp_bindM by (rule wp_alloc_stack [OF L, where C = "st' = None"]) (simp_all only: wp_returnM Q E)
qed (simp_all add: st'_def stack_ok_def INITIAL_STACK_SIZE_def)

lemma wp_load_mapping:
  assumes L: "lstate q (b + string_blocks anchor + string_blocks tag) st fs (p, ctx)"
  defines "st' \<equiv> open_node (AMapping (node_tag YAML_DEFAULT_MAPPING_TAG tag) []) anchor st"
  shows "wp (yaml_parser_load_mapping anchor tag style sm em) (\<lambda>_. stepped q b st' (AtKey # advance fs)) (lfailed q b (st' = None)) (p, ctx)"
  unfolding yaml_parser_load_mapping_def
proof (rule wp_load_collection [OF L default_tag_strings(3), where nd = "MappingNode (new_stack sizeof_node_pair) style" and mk = "\<lambda>t. AMapping t []"])
  fix b st p and Q :: "yaml_node_data \<Rightarrow> 'a yaml_loader \<Rightarrow> bool" and E
  assume L: "lstate q b st fs (p, ctx)" and Q: "\<And>p'. lstate q (b + 1) st fs (p', ctx) \<Longrightarrow> Q (MappingNode (new_stack sizeof_node_pair) style) p'"
    and E: "\<And>p'. lfailed q b (st' = None) (p', ctx) \<Longrightarrow> E p'"
  show "wp (bindM (memP (STACK_INIT sizeof_node_pair)) (\<lambda>pairs. returnM (MappingNode pairs style))) Q E p"
    unfolding wp_bindM by (rule wp_alloc_stack [OF L, where C = "st' = None"]) (simp_all only: wp_returnM Q E)
qed (simp_all add: st'_def stack_ok_def INITIAL_STACK_SIZE_def)

lemma wp_load_alias:
  fixes p :: "'h yaml_loader" and a :: ystring
  assumes L: "lstate q (b + 1) st fs (p, ctx)"
  defines "st' \<equiv> compose_step (AliasEvent a) st"
  shows "wp (yaml_parser_load_alias a sm) (\<lambda>_. stepped q b st' (advance fs)) (lfailed q b (st' = None)) (p, ctx)"
proof -
  obtain ns cs as where st: "st = (ns, cs, as)" by (cases st)
  have "lstate q (b + 1 - 1) st fs (freeP (yaml_free True) p, ctx)" by (rule lstate_free [OF L]) simp
  then have L1: "lstate q b (ns, cs, as) fs (freeP (yaml_free True) p, ctx)" by (simp add: st del: lstate.simps)
  have as: "as = abs_aliases (p_aliases p)" using L st by auto
  have ids: "\<forall>x\<in>set (elems (p_aliases p)). id_ok (length ns) (al_index x)"
    using L st by (auto simp: aliases_ok_def abs_doc_def)
  show ?thesis
  proof (cases "find (\<lambda>x. streq (al_anchor x) a) (elems (p_aliases p))")
    case None
    then have "st' = None" by (simp add: st'_def st as find_anchor_abs)
    with None lfailed_composer(1) [OF L1, of "st' = None"] show ?thesis
      by (simp add: yaml_parser_load_alias_def wp_simps yaml_parser_set_composer_error_def del: lfailed.simps)
  next
    case (Some x)
    then have x: "id_ok (length ns) (al_index x)" using ids by (auto simp: find_Some_iff)
    have "st' = Some (add_child (al_index x) (ns, cs, as))" using Some by (simp add: st'_def st as find_anchor_abs)
    then have "wp (yaml_parser_load_node_add (al_index x)) (\<lambda>_. stepped q b st' (advance fs)) (lfailed q b (st' = None))
        (freeP (yaml_free True) p, ctx)"
      by (intro wp_load_node_add [OF L1 x]) (auto simp: stepped_def simp del: lstate.simps lfailed.simps)
    with Some show ?thesis by (simp add: yaml_parser_load_alias_def wp_simps)
  qed
qed

lemma document_blocks_end_mark: "valid_id d i \<Longrightarrow> document_blocks (set_end_mark i m d) = document_blocks d"
  "valid_id d i \<Longrightarrow> abs_doc (set_end_mark i m d) = abs_doc d"
  "length (doc_nodes (set_end_mark i m d)) = length (doc_nodes d)"
proof -
  have "map f ((doc_nodes d)[nat (i - 1) := (node_at d i)\<lparr>n_end_mark := m\<rparr>]) = map f (doc_nodes d)"
    if "valid_id d i" "f ((node_at d i)\<lparr>n_end_mark := m\<rparr>) = f (node_at d i)" for f :: "yaml_node \<Rightarrow> 'a"
    using that by (auto simp: map_update node_at_def valid_id_def intro!: list_update_same_conv [THEN iffD2])
  note same = this
  show "valid_id d i \<Longrightarrow> document_blocks (set_end_mark i m d) = document_blocks d"
    using same [of node_blocks] by (simp add: document_blocks_def set_end_mark_def node_blocks_def)
  show "valid_id d i \<Longrightarrow> abs_doc (set_end_mark i m d) = abs_doc d"
    using same [of abs_node] by (simp add: abs_doc_def set_end_mark_def abs_node_def)
qed (simp add: set_end_mark_def)

lemma wp_load_collection_end:
  fixes p :: "'h yaml_loader"
  assumes L: "lstate q b (ns, cs, as) (f # fs) (p, ctx)"
    and f: "f = InSeq \<and> ty = YAML_SEQUENCE_NODE \<or> f = AtKey \<and> ty = YAML_MAPPING_NODE"
  shows "wp (load_collection_end ty em) (\<lambda>_. stepped q b (Some (ns, tl cs, as)) fs) E (p, ctx)"
proof -
  obtain d where d: "p_document p = Some d" "tree_inv d (rev (elems ctx)) (f # fs)" "ns = abs_doc d"
    "cs = rev (elems ctx)" "stack_ok ctx" "aliases_ok (length (doc_nodes d)) (p_aliases p)" using L by auto
  have "cs \<noteq> []" using d(2,4) by (auto simp: tree_inv_def)
  then obtain c cs' where c: "cs = c # cs'" by (cases cs) auto
  then have ctx: "elems ctx = rev cs' @ [c]" using d(4) by (metis rev.simps(2) rev_rev_ident)
  note top = tree_inv_top [OF d(2) [folded d(4), unfolded c]]
  have ty: "n_type (node_at d c) = ty"
    using top(2) f by (cases "n_data (node_at d c)") (auto simp: n_type_def)
  let ?d = "set_end_mark c em d"
  have tree: "tree_inv ?d cs' fs"
    by (rule tree_inv_close [OF tree_inv_end_mark [OF d(2) [folded d(4), unfolded c] top(1)]]) (use f in auto)
  have "wp POP (\<lambda>_ ctx'. stepped q b (Some (ns, tl cs, as)) fs (p\<lparr>p_document := Some ?d\<rparr>, ctx')) (\<lambda>ctx'. E (p\<lparr>p_document := Some ?d\<rparr>, ctx')) ctx"
    by (rule wp_POP [OF d(5) ctx])
      (use L d tree top(1) in \<open>auto simp: ctx stepped_def document_blocks_end_mark\<close>)
  then have "wp (seqM (zoomM snd (\<lambda>ctx (p, _). (p, ctx)) POP) (returnM ())) (\<lambda>_. stepped q b (Some (ns, tl cs, as)) fs) E
      (p\<lparr>p_document := Some ?d\<rparr>, ctx)" by (simp add: wp_simps)
  then show ?thesis using ctx d(1) top(1) ty
    by (simp add: load_collection_end_def wp_simps) (simp add: wp_def on_document_def)
qed

text \<open>The frames follow the grammar.\<close>

lemma doc_frames_after: "doc_frames (after_node fs) = map frame_next fs"
  by (induction fs rule: after_node.induct) auto

lemma advance_doc_frames: "advance (doc_frames (ANode fs)) = map frame_next fs"
  by (cases fs) auto

lemma wp_load_event:
  assumes L: "lstate q (b + event_blocks e) st (doc_frames a) (p, ctx)" and a: "a = ANode fs \<or> a = ADocEnd"
    and e: "accept a (ev_type e) = Some a'"
  shows "wp (load_event e) (\<lambda>_. stepped q b (compose_step (ev_data e) st) (doc_frames a'))
    (lfailed q b (compose_step (ev_data e) st = None)) (p, ctx)"
proof -
  obtain ns cs as where st: "st = (ns, cs, as)" by (cases st)
  note steps = wp_load_alias wp_load_scalar wp_load_sequence wp_load_mapping
  show ?thesis
  proof (cases "ev_data e")
    case (AliasEvent x)
    then have "a = ANode fs" "a' = after_node fs" using a e by (auto simp: ev_type_def split: list.splits frame.splits)
    moreover have "lstate q (b + 1) st (doc_frames a) (p, ctx)"
      using L AliasEvent by (simp add: event_blocks_def event_data_blocks_def del: lstate.simps)
    ultimately show ?thesis
      using wp_load_alias [of q b st "doc_frames a" p ctx x] AliasEvent
      by (simp add: load_event_def advance_doc_frames doc_frames_after del: lstate.simps lfailed.simps compose_step.simps)
  next
    case (ScalarEvent x t v pi qi style)
    then have "a = ANode fs" "a' = after_node fs" using a e by (auto simp: ev_type_def split: list.splits frame.splits)
    moreover have "lstate q (b + string_blocks x + string_blocks t + 1) st (doc_frames a) (p, ctx)"
      using L ScalarEvent by (simp add: event_blocks_def event_data_blocks_def algebra_simps del: lstate.simps)
    ultimately show ?thesis
      using wp_load_scalar [of q b x t st "doc_frames a" p ctx v] ScalarEvent
      by (simp add: load_event_def advance_doc_frames doc_frames_after del: lstate.simps lfailed.simps)
  next
    case (SequenceStartEvent x t impl style)
    then have "a = ANode fs" "a' = ANode (InSeq # fs)" using a e by (auto simp: ev_type_def split: list.splits frame.splits)
    moreover have "lstate q (b + string_blocks x + string_blocks t) st (doc_frames a) (p, ctx)"
      using L SequenceStartEvent by (simp add: event_blocks_def event_data_blocks_def algebra_simps del: lstate.simps)
    ultimately show ?thesis
      using wp_load_sequence [of q b x t st "doc_frames a" p ctx] SequenceStartEvent
      by (simp add: load_event_def advance_doc_frames doc_frames_after del: lstate.simps lfailed.simps)
  next
    case (MappingStartEvent x t impl style)
    then have "a = ANode fs" "a' = ANode (AtKey # fs)" using a e by (auto simp: ev_type_def split: list.splits frame.splits)
    moreover have "lstate q (b + string_blocks x + string_blocks t) st (doc_frames a) (p, ctx)"
      using L MappingStartEvent by (simp add: event_blocks_def event_data_blocks_def algebra_simps del: lstate.simps)
    ultimately show ?thesis
      using wp_load_mapping [of q b x t st "doc_frames a" p ctx] MappingStartEvent
      by (simp add: load_event_def advance_doc_frames doc_frames_after del: lstate.simps lfailed.simps)
  next
    case SequenceEndEvent
    then obtain gs where "fs = InSeq # gs" "a = ANode fs" "a' = after_node gs"
      using a e by (auto simp: ev_type_def split: list.splits frame.splits elim!: accept.elims)
    then show ?thesis
      using wp_load_collection_end [of q b ns cs as InSeq "map frame_next gs" p ctx YAML_SEQUENCE_NODE] L SequenceEndEvent
      by (simp add: load_event_def yaml_parser_load_sequence_end_def st event_blocks_def event_data_blocks_def doc_frames_after del: lstate.simps lfailed.simps)
  next
    case MappingEndEvent
    then obtain gs where "fs = AtKey # gs" "a = ANode fs" "a' = after_node gs"
      using a e by (auto simp: ev_type_def split: list.splits frame.splits elim!: accept.elims)
    then show ?thesis
      using wp_load_collection_end [of q b ns cs as AtKey "map frame_next gs" p ctx YAML_MAPPING_NODE] L MappingEndEvent
      by (simp add: load_event_def yaml_parser_load_mapping_end_def st event_blocks_def event_data_blocks_def doc_frames_after del: lstate.simps lfailed.simps)
  next
    case (DocumentEndEvent impl)
    then have "a = ADocEnd" "a' = ADocs" using a e by (auto simp: ev_type_def split: list.splits frame.splits)
    then show ?thesis using L DocumentEndEvent
      by (simp add: load_event_def wp_simps stepped_def st event_blocks_def event_data_blocks_def del: lstate.simps)
  qed (use a e in \<open>auto simp: ev_type_def split: list.splits frame.splits\<close>)
qed

subsection \<open>The events of a document\<close>

text \<open>
  \<open>delivers fetch q es q'\<close>: calls of \<open>yaml_parser_parse\<close> deliver the events \<open>es\<close>; between the calls the
  program may use the heap.
\<close>

inductive delivers ::
    "('h yaml_parser, unit) prog \<Rightarrow> 'h yaml_parser \<Rightarrow> yaml_event list \<Rightarrow> 'h yaml_parser \<Rightarrow> bool"
  for fetch where
  delivers_Nil: "delivers fetch q [] (q\<lparr>p_mem := h\<rparr>)"
| delivers_Cons: "yaml_parser_parse fetch (q\<lparr>p_mem := h\<rparr>) = Return e q1 \<Longrightarrow> ev_type e \<noteq> YAML_NO_EVENT
    \<Longrightarrow> delivers fetch q1 es q2 \<Longrightarrow> delivers fetch q (e # es) q2"

fun compose :: "yaml_event list \<Rightarrow> composing \<Rightarrow> composing option" where
  "compose [] st = Some st"
| "compose (e # es) st = Option.bind (compose_step (ev_data e) st) (compose es)"

lemma parser_inv_mem:
  assumes C: "fetch_contract fetch I left"
  shows "parser_inv I (q\<lparr>p_mem := h\<rparr>) = parser_inv I q" "work left (q\<lparr>p_mem := h\<rparr>) = work left q"
  using fetch_contract_mem [OF C]
  by (simp_all add: parser_inv_def control_inv_def base_inv_def start_inv_def token_ready_def work_def)

lemma extend_simps [simp]:
  "yaml_parser.truncate (yaml_parser.extend (q :: 'h yaml_parser) (yaml_parser.more (p :: 'h yaml_loader))) = q"
  "p_document (yaml_parser.extend (q :: 'h yaml_parser) (yaml_parser.more (p :: 'h yaml_loader))) = p_document p"
  "p_aliases (yaml_parser.extend (q :: 'h yaml_parser) (yaml_parser.more (p :: 'h yaml_loader))) = p_aliases p"
  "p_mem (yaml_parser.extend (q :: 'h yaml_parser) (yaml_parser.more (p :: 'h yaml_loader))) = p_mem q"
  "p_error (yaml_parser.extend (q :: 'h yaml_parser) (yaml_parser.more (p :: 'h yaml_loader))) = p_error q"
  "p_stream_end_produced (yaml_parser.extend (q :: 'h yaml_parser) (yaml_parser.more (p :: 'h yaml_loader))) = p_stream_end_produced q"
  by (cases p; simp add: yaml_parser.extend_def yaml_parser.truncate_def)+

lemma wp_parse_event:
  "wp (parse_event fetch) Q E p = wp (yaml_parser_parse fetch) (\<lambda>e q. Q e (yaml_parser.extend q (yaml_parser.more p)))
     (\<lambda>q. E (yaml_parser.extend q (yaml_parser.more p))) (yaml_parser.truncate p)"
  by (simp add: parse_event_def wp_simps)

lemma returns_load_loop:
  "returns (load_loop fetch) s = (case bindM (inP (parse_event fetch)) (\<lambda>e. seqM (load_event e) (returnM e)) s of
     Fault \<Rightarrow> Fault
   | Error s' \<Rightarrow> Error s'
   | Return e s' \<Rightarrow> if ev_type e = YAML_DOCUMENT_END_EVENT then Return e s' else returns (load_loop fetch) s')"
  unfolding returns_def by (subst load_loop.simps) (simp split: result.splits)

text \<open>Between two events: the parser is in the state \<open>a\<close> of the grammar.\<close>

definition lready ::
    "('h yaml_scanner \<Rightarrow> bool) \<Rightarrow> int \<Rightarrow> composing \<Rightarrow> astate \<Rightarrow> 'h loading \<Rightarrow> bool" where
  "lready I b st a s \<longleftrightarrow> (let q = yaml_parser.truncate (fst s) in
     lstate q (b + parser_blocks q) st (doc_frames a) s \<and> parser_inv I q \<and> a = abs_state (p_state q) (stk q)
       \<and> (a = ADocEnd \<longrightarrow> fst st \<noteq> []))"

definition lerror :: "int \<Rightarrow> bool \<Rightarrow> 'h loading \<Rightarrow> bool" where
  "lerror b C s \<longleftrightarrow> lfailed (yaml_parser.truncate (fst s)) (b + parser_blocks (yaml_parser.truncate (fst s))) C s"

lemma lstate_retarget:
  assumes "lstate q b st fs (p, ctx)" shows "lstate (yaml_parser.truncate p) b st fs (p, ctx)"
proof -
  have "(yaml_parser.truncate p)\<lparr>p_mem := p_mem p\<rparr> = yaml_parser.truncate p"
    by (cases p) (simp add: yaml_parser.truncate_def)
  with assms lstate_error [OF assms] show ?thesis by auto
qed

lemma length_add_child [simp]: "length (fst (add_child i st)) = length (fst st)"
  by (induction i st rule: add_child.induct) auto

lemma find_anchor_mem: "find_anchor a as = Some i \<Longrightarrow> \<exists>x\<in>set as. i = snd x"
  by (induction as) (auto simp: find_anchor_def split: if_splits)

lemma step_nonempty:
  assumes "compose_step d st = Some st'" "accept (ANode fs) (event_data_type d) = Some a'"
    and L: "lstate q b st (doc_frames (ANode fs)) s"
  shows "fst st' \<noteq> []"
proof -
  obtain ns cs as p ctx where st: "st = (ns, cs, as)" and s: "s = (p, ctx)" by (cases st; cases s)
  have as: "\<forall>x\<in>set as. id_ok (length ns) (snd x)"
    using L by (auto simp: st s aliases_ok_def abs_aliases_def abs_doc_def)
  have cs: "ns \<noteq> []" if "fs \<noteq> []"
  proof -
    obtain d where d: "tree_inv d (rev (elems ctx)) (doc_frames (ANode fs))" "ns = abs_doc d"
      using L by (auto simp: st s)
    moreover obtain c cs' where "rev (elems ctx) = c # cs'"
      using d(1) \<open>fs \<noteq> []\<close> by (cases fs; cases "rev (elems ctx)"; simp add: tree_inv_def)
    ultimately show ?thesis by (auto simp: tree_inv_def valid_id_def abs_doc_def)
  qed
  have new: "fst st' \<noteq> []" if "add_node n anchor st = Some st'" for n anchor st'
    using that length_add_child [of "int (length ns) + 1" "(ns @ [n], cs, _)"]
    by (auto simp: add_node_def st Let_def simp del: length_add_child) (metis fst_conv length_0_conv length_append_singleton nat.distinct(1))
  show ?thesis
  proof (cases d)
    case (AliasEvent a)
    then obtain i where "find_anchor a as = Some i" "st' = add_child i (ns, cs, as)" using assms(1) by (auto simp: st)
    moreover then obtain x where "x \<in> set as" "i = snd x" using find_anchor_mem by blast
    then have "ns \<noteq> []" using as by (auto simp: id_ok_def)
    ultimately show ?thesis using length_add_child [of i "(ns, cs, as)"] by (metis fst_conv length_0_conv)
  next
    case (ScalarEvent x t v pi qi style)
    with assms(1) new show ?thesis by (cases st) simp
  next
    case (SequenceStartEvent x t impl style)
    with assms(1) new show ?thesis by (cases st) (auto simp: open_node_def)
  next
    case (MappingStartEvent x t impl style)
    with assms(1) new show ?thesis by (cases st) (auto simp: open_node_def)
  next
    case SequenceEndEvent
    with assms cs show ?thesis by (auto simp: st split: list.splits frame.splits elim!: accept.elims)
  next
    case MappingEndEvent
    with assms cs show ?thesis by (auto simp: st split: list.splits frame.splits elim!: accept.elims)
  qed (use assms(2) in \<open>auto split: list.splits frame.splits\<close>)
qed

end
