(* ===== verification/Loader_Runs.thy ===== *)
theory Loader_Runs
  imports Loader_Correct
begin

text \<open>
  Whole documents: the loop over the events of a document, \<open>yaml_parser_load_document\<close> and
  \<open>yaml_parser_load\<close>, with the contract of the loader as a program that uses it sees it.
\<close>

declare split_paired_Ex [simp del]

lemma freeP_state [simp]: "p_state (freeP f p) = p_state p"
  by (simp add: freeP_def)

lemma truncate_mem [simp]: "(yaml_parser.truncate p)\<lparr>p_mem := p_mem p\<rparr> = yaml_parser.truncate p"
  by (cases p) (simp add: yaml_parser.truncate_def)

subsection \<open>The loop over the events\<close>

lemma delivers_mem: "delivers fetch (q\<lparr>p_mem := h\<rparr>) es q' \<Longrightarrow> delivers fetch q es q'"
  by (erule delivers.cases) (auto intro: delivers_Nil delivers_Cons)

lemma delivers_step:
  assumes "yaml_parser_parse fetch q = Return e q1" "accept a (ev_type e) = Some a'" "delivers fetch (q1\<lparr>p_mem := h\<rparr>) es q'"
  shows "delivers fetch q (e # es) q'"
proof -
  have "yaml_parser_parse fetch (q\<lparr>p_mem := p_mem q\<rparr>) = Return e q1" using assms(1) by simp
  moreover have "ev_type e \<noteq> YAML_NO_EVENT" using assms(2) by auto
  ultimately show ?thesis by (rule delivers_Cons) (rule delivers_mem [OF assms(3)])
qed

lemma delivers_end_mem: "delivers fetch q es q' \<Longrightarrow> delivers fetch q es (q'\<lparr>p_mem := h\<rparr>)"
proof (induction rule: delivers.induct)
  case (delivers_Nil q h')
  show ?case using delivers.delivers_Nil [of fetch q h] by simp
qed (rule delivers_Cons)

definition uncomposable :: "('h yaml_parser, unit) prog \<Rightarrow> 'h yaml_parser \<Rightarrow> composing \<Rightarrow> bool" where
  "uncomposable fetch q st \<longleftrightarrow> (\<exists>es q'. delivers fetch q es q' \<and> compose es st = None)"

definition composed ::
    "('h yaml_parser, unit) prog \<Rightarrow> 'h yaml_parser \<Rightarrow> composing \<Rightarrow> yaml_event \<Rightarrow> composing \<Rightarrow> 'h yaml_parser \<Rightarrow> bool" where
  "composed fetch q st e st' q' \<longleftrightarrow> ev_type e = YAML_DOCUMENT_END_EVENT
     \<and> (\<exists>es. delivers fetch q (es @ [e]) q' \<and> compose es st = Some st')"

lemma lerror_mono: "lerror b C s \<Longrightarrow> (C \<Longrightarrow> C') \<Longrightarrow> lerror b C' s"
  by (cases s) (auto simp: lerror_def)

lemma lstate_parsed:
  fixes q1 :: "'h yaml_parser" and p :: "'h yaml_loader"
  assumes L: "lstate q (b + parser_blocks q) st fs (p, ctx)" and q: "q = yaml_parser.truncate p"
    and "balance q1 = balance q + k" "p_error q1 = YAML_NO_ERROR"
  shows "lstate q1 (b + parser_blocks q1 + k) st fs (yaml_parser.extend q1 (yaml_parser.more p), ctx)"
  using assms by (auto simp: balance_def)

lemma lerror_parse:
  fixes q1 :: "'h yaml_parser" and p :: "'h yaml_loader"
  assumes L: "lstate q (b + parser_blocks q) st fs (p, ctx)" and q: "q = yaml_parser.truncate p"
    and "failed (balance q) q1"
  shows "lerror b C (yaml_parser.extend q1 (yaml_parser.more p), ctx)"
  using assms by (auto simp: lerror_def failed_def balance_def stack_ok_def)

lemma lerror_event:
  assumes "lfailed q1 (b + parser_blocks q1) C s"
  shows "lerror b C s"
  using assms by (cases s) (auto simp: lerror_def)

lemma parser_inv_error: "parser_inv I q \<Longrightarrow> p_error q = YAML_NO_ERROR"
  by (auto simp: parser_inv_def base_inv_def start_inv_def split: if_splits)

text \<open>One round of the loop.\<close>

lemma wp_load_step:
  assumes C: "fetch_contract fetch I left" and L: "lready I b st a (p, ctx)" and a: "a = ANode fs \<or> a = ADocEnd"
  shows "wp (bindM (inP (parse_event fetch)) (\<lambda>e. seqM (load_event e) (returnM e)))
    (\<lambda>e (p', ctx'). \<exists>st' a' q1 h. yaml_parser_parse fetch (yaml_parser.truncate p) = Return e q1
       \<and> yaml_parser.truncate p' = q1\<lparr>p_mem := h\<rparr> \<and> compose_step (ev_data e) st = Some st'
       \<and> accept a (ev_type e) = Some a' \<and> lready I b st' a' (p', ctx')
       \<and> work left (yaml_parser.truncate p') < work left (yaml_parser.truncate p))
    (lerror b (uncomposable fetch (yaml_parser.truncate p) st)) (p, ctx)"
proof -
  let ?q = "yaml_parser.truncate p"
  have L': "lstate ?q (b + parser_blocks ?q) st (doc_frames a) (p, ctx)" "parser_inv I ?q"
      "a = abs_state (p_state ?q) (stk ?q)" "a = ADocEnd \<longrightarrow> fst st \<noteq> []"
    using L unfolding lready_def Let_def fst_conv by blast+
  then have "p_state ?q \<noteq> YAML_PARSE_END_STATE" using a by auto
  note parse = wp_parse [OF C L'(2) this]
  have "wp (seqM (load_event e) (returnM e)) (\<lambda>e (p', ctx'). \<exists>st' a' q1 h. yaml_parser_parse fetch ?q = Return e q1
       \<and> yaml_parser.truncate p' = q1\<lparr>p_mem := h\<rparr> \<and> compose_step (ev_data e) st = Some st'
       \<and> accept a (ev_type e) = Some a' \<and> lready I b st' a' (p', ctx') \<and> work left (yaml_parser.truncate p') < work left ?q)
    (lerror b (uncomposable fetch ?q st)) (yaml_parser.extend q1 (yaml_parser.more p), ctx)"
    if r: "yaml_parser_parse fetch ?q = Return e q1" for e q1
  proof -
    have q1: "parser_inv I q1" "accept a (ev_type e) = Some (abs_state (p_state q1) (stk q1))"
        "balance q1 = balance ?q + event_blocks e" "work left q1 < work left ?q"
      using wp_Return [OF parse r] L'(3) by (simp_all add: parsed_def)
    note L1 = lstate_parsed [OF L'(1) refl q1(3) parser_inv_error [OF q1(1)]]
    note ev = wp_load_event [OF L1 a q1(2)]
    have none: "uncomposable fetch ?q st" if "compose_step (ev_data e) st = None"
    proof -
      have "delivers fetch ?q [e] (q1\<lparr>p_mem := p_mem q1\<rparr>)"
        using delivers_step [OF r q1(2) delivers_Nil, of "p_mem q1" "p_mem q1"] by simp
      then show ?thesis using that unfolding uncomposable_def by (intro exI) (auto intro: exI)
    qed
    have fin: "lready I b st' (abs_state (p_state q1) (stk q1)) (p', ctx') \<and> yaml_parser.truncate p' = q1\<lparr>p_mem := p_mem p'\<rparr>
        \<and> work left (yaml_parser.truncate p') < work left ?q"
      if L2: "lstate q1 (b + parser_blocks q1) st' (doc_frames (abs_state (p_state q1) (stk q1))) (p', ctx')"
        and c: "compose_step (ev_data e) st = Some st'" for st' p' ctx'
    proof -
      have t: "yaml_parser.truncate p' = q1\<lparr>p_mem := p_mem p'\<rparr>" using L2 by simp
      have "fst st' \<noteq> []" if "abs_state (p_state q1) (stk q1) = ADocEnd"
      proof -
        have "a = ANode fs" using a that q1(2) by (auto elim!: accept.elims)
        with step_nonempty [OF c] L'(1) q1(2) show ?thesis unfolding ev_type_def by blast
      qed
      then have "lready I b st' (abs_state (p_state q1) (stk q1)) (p', ctx')"
        using lstate_retarget [OF L2] q1(1) by (simp add: lready_def t parser_inv_mem [OF C] del: lstate.simps)
      then show ?thesis using t q1(4) by (simp add: parser_inv_mem [OF C])
    qed
    show ?thesis unfolding wp_seqM
    proof (rule wp_mono [OF ev])
      fix x s'
      assume st: "stepped q1 (b + parser_blocks q1) (compose_step (ev_data e) st) (doc_frames (abs_state (p_state q1) (stk q1))) s'"
      obtain p' ctx' where s': "s' = (p', ctx')" by (cases s')
      from st obtain st' where "compose_step (ev_data e) st = Some st'"
          "lstate q1 (b + parser_blocks q1) st' (doc_frames (abs_state (p_state q1) (stk q1))) (p', ctx')"
        unfolding stepped_def s' by blast
      with fin [of st' p' ctx'] r q1(2) show "wp (returnM e) (\<lambda>e (p', ctx'). \<exists>st' a' q1 h. yaml_parser_parse fetch ?q = Return e q1
         \<and> yaml_parser.truncate p' = q1\<lparr>p_mem := h\<rparr> \<and> compose_step (ev_data e) st = Some st'
         \<and> accept a (ev_type e) = Some a' \<and> lready I b st' a' (p', ctx') \<and> work left (yaml_parser.truncate p') < work left ?q)
        (lerror b (uncomposable fetch ?q st)) s'"
        unfolding wp_returnM s' prod.case by blast
    next
      fix s'
      assume "lfailed q1 (b + parser_blocks q1) (compose_step (ev_data e) st = None) s'"
      from lerror_mono [OF lerror_event [OF this] none] show "lerror b (uncomposable fetch ?q st) s'" .
    qed
  qed
  then show ?thesis unfolding wp_bindM wp_inP wp_parse_event
    by (intro wp_mono [OF parse]) (use lerror_parse [OF L'(1) refl] in auto)
qed

lemma accept_document_end: "accept a YAML_DOCUMENT_END_EVENT = Some a' \<Longrightarrow> a = ADocEnd \<and> a' = ADocs"
  by (auto split: list.splits frame.splits elim!: accept.elims)

lemma accept_in_document:
  assumes "accept a x = Some a'" "a = ANode fs \<or> a = ADocEnd" "x \<noteq> YAML_DOCUMENT_END_EVENT"
  shows "\<exists>gs. a' = ANode gs \<or> a' = ADocEnd"
proof -
  have "\<exists>gs. after_node fs = ANode gs \<or> after_node fs = ADocEnd" for fs by (cases fs rule: after_node.cases) auto
  with assms show ?thesis by (auto split: list.splits frame.splits elim!: accept.elims)
qed

lemma wp_load_loop:
  assumes C: "fetch_contract fetch I left" and "lready I b st a (p, ctx)" "a = ANode fs \<or> a = ADocEnd"
  shows "wp (returns (load_loop fetch))
    (\<lambda>e (p', ctx'). \<exists>st'. composed fetch (yaml_parser.truncate p) st e st' (yaml_parser.truncate p')
       \<and> lready I b st' ADocs (p', ctx') \<and> fst st' \<noteq> [])
    (lerror b (uncomposable fetch (yaml_parser.truncate p) st)) (p, ctx)"
  using assms(2,3)
proof (induction "work left (yaml_parser.truncate p)" arbitrary: st a p ctx fs rule: less_induct)
  case less
  let ?q = "yaml_parser.truncate p"
  note step = wp_load_step [OF C less.prems]
  show ?case
  proof (cases "bindM (inP (parse_event fetch)) (\<lambda>e. seqM (load_event e) (returnM e)) (p, ctx)")
    case (Return e s')
    obtain p' ctx' where s': "s' = (p', ctx')" by (cases s')
    from wp_Return [OF step Return] obtain st' a' q1 h where
      parse: "yaml_parser_parse fetch ?q = Return e q1" and t: "yaml_parser.truncate p' = q1\<lparr>p_mem := h\<rparr>"
      and c: "compose_step (ev_data e) st = Some st'" and acc: "accept a (ev_type e) = Some a'"
      and L: "lready I b st' a' (p', ctx')" and w: "work left (yaml_parser.truncate p') < work left ?q"
      by (auto simp: s')
    show ?thesis
    proof (cases "ev_type e = YAML_DOCUMENT_END_EVENT")
      case True
      then have a: "a = ADocEnd" "a' = ADocs" using accept_document_end acc by auto
      obtain impl where "ev_data e = DocumentEndEvent impl"
        using True by (cases "ev_data e") (simp_all add: ev_type_def)
      then have "st' = st" using c by (cases st) simp
      moreover have "delivers fetch ?q [e] (yaml_parser.truncate p')"
        using delivers_step [OF parse acc delivers_Nil, of h h] t by simp
      moreover have "fst st \<noteq> []" using less.prems(1) a unfolding lready_def Let_def by blast
      ultimately have "composed fetch ?q st e st' (yaml_parser.truncate p') \<and> lready I b st' ADocs (p', ctx') \<and> fst st' \<noteq> []"
        using L a True by (auto simp: composed_def intro!: exI [of _ "[]"])
      then show ?thesis using True unfolding wp_def returns_load_loop [of fetch "(p, ctx)"] Return s'
        by simp blast
    next
      case False
      obtain gs where gs: "a' = ANode gs \<or> a' = ADocEnd"
        using accept_in_document [OF acc less.prems(2) False] by blast
      have more: "composed fetch ?q st e2 st2 q2" if "composed fetch (yaml_parser.truncate p') st' e2 st2 q2" for e2 st2 q2
      proof -
        from that obtain es where "delivers fetch (q1\<lparr>p_mem := h\<rparr>) (es @ [e2]) q2" "compose es st' = Some st2"
            "ev_type e2 = YAML_DOCUMENT_END_EVENT" by (auto simp: composed_def t)
        then show ?thesis using delivers_step [OF parse acc, of h "es @ [e2]" q2] c
          by (auto simp: composed_def intro!: exI [of _ "e # es"])
      qed
      have un: "uncomposable fetch ?q st" if "uncomposable fetch (yaml_parser.truncate p') st'"
      proof -
        from that obtain es q2 where "delivers fetch (q1\<lparr>p_mem := h\<rparr>) es q2" "compose es st' = None"
          by (auto simp: uncomposable_def t)
        then show ?thesis using delivers_step [OF parse acc, of h es q2] c
          by (auto simp: uncomposable_def intro!: exI [of _ "e # es"])
      qed
      have "wp (returns (load_loop fetch))
          (\<lambda>e (p2, ctx2). \<exists>st2. composed fetch ?q st e st2 (yaml_parser.truncate p2) \<and> lready I b st2 ADocs (p2, ctx2) \<and> fst st2 \<noteq> [])
          (lerror b (uncomposable fetch ?q st)) (p', ctx')"
        by (rule wp_mono [OF less.hyps [OF w L gs]])
          (auto intro: more lerror_mono [OF _ un])
      then show ?thesis using False unfolding wp_def returns_load_loop [of fetch "(p, ctx)"] Return s' by simp
    qed
  next
    case (Error s')
    from wp_Error [OF step Error] show ?thesis unfolding wp_def returns_load_loop [of fetch "(p, ctx)"] Error by simp
  next
    case Fault
    with wp_no_fault [OF step] show ?thesis by simp
  qed
qed

subsection \<open>The directives of a document\<close>

text \<open>The loop over the events does not change what the DOCUMENT-START event has set.\<close>

definition d_header :: "yaml_document \<Rightarrow> yaml_version_directive option \<times> yaml_tag_directive list \<times> bool \<times> yaml_mark" where
  "d_header d = (d_version_directive d, d_tag_directives d, d_start_implicit d, d_start_mark d)"

abbreviation header :: "'h yaml_loader \<Rightarrow> (yaml_version_directive option \<times> yaml_tag_directive list \<times> bool \<times> yaml_mark) option" where
  "header p \<equiv> map_option d_header (p_document p)"

lemma keeps_on_document [keeps_rules]: "keeps (d_header \<circ> fst) m \<Longrightarrow> keeps header (on_document m)"
  by (force simp: keeps_def on_document_def split: option.splits result.splits)

lemma keeps_inP [keeps_rules]: "keeps g m \<Longrightarrow> keeps (g \<circ> fst) (inP m)"
  by (force simp: keeps_def inP_def zoomM_def split: result.splits)

lemma keeps_document_steps [keeps_rules]:
  "keeps (d_header \<circ> fst) (limitM b)" "keeps (d_header \<circ> fst) (push_node n)"
  "keeps (d_header \<circ> fst) (add_to_parent i x)"
proof -
  have item: "keeps (d_header \<circ> fst) (push_item i x)" "keeps (d_header \<circ> fst) (push_pair i y)" for y
    by (auto simp: keeps_def push_item_def push_pair_def set_node_data_def d_header_def
        split: yaml_node_data.splits result.splits)
  show limit: "keeps (d_header \<circ> fst) (limitM b)" for b by (auto simp: keeps_def limitM_def split: if_splits)
  show "keeps (d_header \<circ> fst) (push_node n)" unfolding push_node_def
    by (intro keeps_rules keeps_zoomM) (auto simp: d_header_def)
  show "keeps (d_header \<circ> fst) (add_to_parent i x)" unfolding add_to_parent_def
    by (auto intro!: keeps_rules item limit simp: set_node_data_def d_header_def split: yaml_node_data.split)
qed

lemma keeps_guard:
  "(\<And>d. d_header (f d) = d_header d) \<Longrightarrow> keeps (d_header \<circ> fst) (\<lambda>(d, h). if b d then Return (g d) (f d, h) else Fault)"
  by (auto simp: keeps_def split: if_splits)

lemma keeps_parser_steps [keeps_rules]:
  fixes fetch :: "('h yaml_parser, unit) prog"
  shows "keeps (header :: 'h yaml_loader \<Rightarrow> _) (parse_event fetch)" "keeps (header :: 'h yaml_loader \<Rightarrow> _) (modifyM (freeP g))"
    "keeps (header :: 'h yaml_loader \<Rightarrow> _) (memP m)" "keeps (header :: 'h yaml_loader \<Rightarrow> _) (strdup_tag t)"
    "keeps (header :: 'h yaml_loader \<Rightarrow> _) (push_stack p_aliases (\<lambda>st p. p\<lparr>p_aliases := st\<rparr>) x)"
    "keeps (header \<circ> fst :: 'h loading \<Rightarrow> _) (push_ctx i)"
  unfolding parse_event_def memP_def strdup_tag_def
  by (auto intro!: keeps_rules keeps_zoomM simp: freeP_def split: option.split)
    (auto simp: keeps_def push_stack_def push_ctx_def split: result.splits if_splits)

lemma keeps_load_node_add [keeps_rules]: "keeps (header \<circ> fst) (yaml_parser_load_node_add i)"
  unfolding yaml_parser_load_node_add_def by (auto intro!: keeps_rules)

lemma keeps_load_event: "keeps (header \<circ> fst) (load_event e)"
  unfolding load_event_def yaml_parser_load_alias_def yaml_parser_load_scalar_def yaml_parser_load_sequence_def
    yaml_parser_load_mapping_def load_collection_def yaml_parser_load_sequence_end_def yaml_parser_load_mapping_end_def
    load_collection_end_def new_node_def node_limit_def default_tag_def yaml_parser_register_anchor_def
    yaml_parser_set_composer_error_def yaml_parser_set_composer_error_context_def
  by (auto intro!: keeps_rules keeps_zoomM keeps_guard simp: Let_def set_end_mark_def d_header_def
      split: yaml_event_data.split option.split)

lemma keeps_load_loop: "keeps (header \<circ> fst) (returns (load_loop fetch))"
proof -
  have body: "keeps (header \<circ> fst) (bindM (inP (parse_event fetch)) (\<lambda>e. seqM (load_event e) (returnM e)))"
    for fetch :: "('h yaml_parser, unit) prog"
    by (intro keeps_rules keeps_load_event)
  have "\<forall>a s'. r = Return a s' \<longrightarrow> (header \<circ> fst) s' = (header \<circ> fst) s" if "load_loop fetch s = Some r" for s r
    using that
  proof (rule load_loop.raw_induct [where P = "\<lambda>_ s r. \<forall>a s'. r = Return a s' \<longrightarrow> (header \<circ> fst) s' = (header \<circ> fst) s", rotated], goal_cases)
    case (1 f fetch s r)
    then show ?case using keepsD [OF body, of fetch s] by (fastforce split: result.splits if_splits)
  qed
  then show ?thesis by (auto simp: keeps_def returns_def split: option.splits)
qed

lemma keeps_load_nodes: "keeps (header \<circ> fst) (yaml_parser_load_nodes fetch)"
  unfolding yaml_parser_load_nodes_def update_document_def
  by (intro keeps_rules keeps_load_loop) (auto simp: d_header_def)

text \<open>\<open>d\<close> has the directives of its DOCUMENT-START event \<open>e\<close>.\<close>

definition started_by :: "yaml_event \<Rightarrow> yaml_document \<Rightarrow> bool" where
  "started_by e d \<longleftrightarrow> ev_data e = DocumentStartEvent (d_version_directive d) (d_tag_directives d) (d_start_implicit d)
     \<and> ev_start_mark e = d_start_mark d"

subsection \<open>Documents\<close>

text \<open>\<open>d\<close> is what the composer makes of the events that take the parser from \<open>q\<close> to \<open>q'\<close>.\<close>

definition loaded :: "('h yaml_parser, unit) prog \<Rightarrow> 'h yaml_parser \<Rightarrow> yaml_document \<Rightarrow> 'h yaml_parser \<Rightarrow> bool" where
  "loaded fetch q d q' \<longleftrightarrow> (\<exists>es e as. delivers fetch q (es @ [e]) q' \<and> ev_data e = DocumentEndEvent (d_end_implicit d)
     \<and> ev_end_mark e = d_end_mark d \<and> compose es ([], [], []) = Some (abs_doc d, [], as) \<and> doc_nodes d \<noteq> [])"

lemma loaded_mem: "loaded fetch q d q' \<Longrightarrow> loaded fetch q d (q'\<lparr>p_mem := h\<rparr>)"
  "loaded fetch (q\<lparr>p_mem := h\<rparr>) d q' \<Longrightarrow> loaded fetch q d q'"
  unfolding loaded_def by (blast intro: delivers_end_mem, blast intro: delivers_mem)

lemma uncomposable_mem: "uncomposable fetch (q\<lparr>p_mem := h\<rparr>) st \<Longrightarrow> uncomposable fetch q st"
  unfolding uncomposable_def by (blast intro: delivers_mem)

lemma lready_lstate: "lready I b st a (p, ctx) \<Longrightarrow>
    lstate (yaml_parser.truncate p) (b + parser_blocks (yaml_parser.truncate p)) st (doc_frames a) (p, ctx)"
  and lready_parser: "lready I b st a (p, ctx) \<Longrightarrow> parser_inv I (yaml_parser.truncate p)
    \<and> a = abs_state (p_state p) (stk (yaml_parser.truncate p))"
  unfolding lready_def Let_def fst_conv truncate_simps by blast+

lemma wp_load_nodes:
  assumes C: "fetch_contract fetch I left" and L: "lready I b ([], [], []) (ANode []) (p, ctx)"
  shows "wp (yaml_parser_load_nodes fetch)
    (\<lambda>_ (p', ctx'). \<exists>st' d. lready I b st' ADocs (p', ctx') \<and> p_document p' = Some d
       \<and> loaded fetch (yaml_parser.truncate p) d (yaml_parser.truncate p'))
    (lerror b (uncomposable fetch (yaml_parser.truncate p) ([], [], []))) (p, ctx)"
proof -
  let ?f = "\<lambda>e d. d\<lparr>d_end_implicit := (case ev_data e of DocumentEndEvent impl \<Rightarrow> impl | _ \<Rightarrow> False), d_end_mark := ev_end_mark e\<rparr>"
  have "wp (inP (update_document (?f e)))
      (\<lambda>_ (p', ctx'). \<exists>st' d. lready I b st' ADocs (p', ctx') \<and> p_document p' = Some d
         \<and> loaded fetch (yaml_parser.truncate p) d (yaml_parser.truncate p'))
      (lerror b (uncomposable fetch (yaml_parser.truncate p) ([], [], []))) (p1, ctx1)"
    if c: "composed fetch (yaml_parser.truncate p) ([], [], []) e st' (yaml_parser.truncate p1)"
      and L1: "lready I b st' ADocs (p1, ctx1)" and ne: "fst st' \<noteq> []" for e st' p1 ctx1
  proof -
    obtain d where d: "p_document p1 = Some d" "tree_inv d (rev (elems ctx1)) []"
        "st' = (abs_doc d, rev (elems ctx1), abs_aliases (p_aliases p1))"
      using lready_lstate [OF L1] by auto
    let ?p = "p1\<lparr>p_document := Some (?f e d)\<rparr>"
    have [simp]: "abs_doc (?f e d) = abs_doc d" "document_blocks (?f e d) = document_blocks d"
        "tree_inv (?f e d) = tree_inv d"
      by (auto simp: abs_doc_def document_blocks_def tree_inv_def valid_id_def node_at_def fun_eq_iff)
    have "lready I b st' ADocs (?p, ctx1)"
      using L1 d by (auto simp: lready_def Let_def)
    moreover have "ctx1 = ctx1\<lparr>elems := []\<rparr>" using d(2) by (simp add: tree_inv_def)
    then have "loaded fetch (yaml_parser.truncate p) (?f e d) (yaml_parser.truncate ?p)"
      using c ne d by (cases "ev_data e") (auto simp: composed_def loaded_def ev_type_def abs_doc_def tree_inv_def)
    ultimately show ?thesis using d(1)
      by (auto simp: update_document_def wp_simps intro!: wp_on_document)
  qed
  then show ?thesis unfolding yaml_parser_load_nodes_def wp_bindM
    by (intro wp_mono [OF wp_load_loop [OF C L]]) (auto)
qed

text \<open>The accounts of the loader outside the loop over the events, where the context is not there.\<close>

definition dfailed :: "int \<Rightarrow> bool \<Rightarrow> 'h yaml_loader \<Rightarrow> bool" where
  "dfailed b C p \<longleftrightarrow> (p_error p = YAML_COMPOSER_ERROR \<longrightarrow> C) \<and> (\<exists>d. p_document p = Some d \<and>
     (let k = b + parser_blocks (yaml_parser.truncate p) + document_blocks d + alias_blocks (p_aliases p) in
      k \<le> live (p_mem p) \<and> (p_error p = YAML_MEMORY_ERROR \<or> live (p_mem p) = k)))"

definition dloaded ::
    "('h yaml_parser, unit) prog \<Rightarrow> ('h yaml_scanner \<Rightarrow> bool) \<Rightarrow> int \<Rightarrow> 'h yaml_parser \<Rightarrow> yaml_event \<Rightarrow> 'h yaml_loader \<Rightarrow> bool" where
  "dloaded fetch I b q e p \<longleftrightarrow> parser_inv I (yaml_parser.truncate p)
     \<and> abs_state (p_state p) (stk (yaml_parser.truncate p)) = ADocs
     \<and> (\<exists>d. p_document p = Some d \<and> doc_ok d \<and> started_by e d \<and> loaded fetch q d (yaml_parser.truncate p)
        \<and> live (p_mem p) = b + parser_blocks (yaml_parser.truncate p) + document_blocks d + alias_blocks (p_aliases p))"

lemma live_STACK_DEL_open: "cap st \<noteq> 0 \<Longrightarrow> live (STACK_DEL st h) = live h - 1"
  by (simp add: STACK_DEL_def yaml_free_def)

lemma dloaded_ctx:
  assumes L: "lready I b st' ADocs (p', ctx')" and d: "p_document p' = Some d" "loaded fetch q d (yaml_parser.truncate p')"
    and C: "fetch_contract fetch I left" and e: "started_by e d"
  shows "dloaded fetch I b q e (freeP (STACK_DEL ctx') p')"
proof -
  let ?p = "freeP (STACK_DEL ctx') p'"
  have ctx: "cap ctx' \<noteq> 0" "tree_inv d (rev (elems ctx')) []"
    and lv: "live (p_mem p') = b + parser_blocks (yaml_parser.truncate p') + document_blocks d + alias_blocks (p_aliases p') + 1"
    using lready_lstate [OF L] d(1) by (auto simp: stack_ok_def)
  then have "doc_ok d" using tree_inv_doc_ok by (simp add: tree_inv_def)
  then show ?thesis using lready_parser [OF L] lv d live_STACK_DEL_open [OF ctx(1), of "p_mem p'"] loaded_mem(1) [OF d(2)] e
    by (auto simp: dloaded_def parser_inv_mem [OF C] freeP_def)
qed

lemma dfailed_ctx:
  assumes "lerror b C (p', ctx')" shows "dfailed b C (freeP (STACK_DEL ctx') p')"
  using assms live_STACK_DEL_open [of ctx' "p_mem p'"] by (auto simp: lerror_def dfailed_def Let_def)

text \<open>From the DOCUMENT-START event on.\<close>

definition document_started ::
    "('h yaml_scanner \<Rightarrow> bool) \<Rightarrow> int \<Rightarrow> yaml_event \<Rightarrow> 'h yaml_loader \<Rightarrow> bool" where
  "document_started I b e p \<longleftrightarrow> parser_inv I (yaml_parser.truncate p)
     \<and> abs_state (p_state p) (stk (yaml_parser.truncate p)) = ANode []
     \<and> (\<exists>nodes. p_document p = Some (null_document\<lparr>d_nodes := nodes\<rparr>) \<and> stack_ok nodes \<and> elems nodes = [])
     \<and> stack_ok (p_aliases p) \<and> elems (p_aliases p) = []
     \<and> live (p_mem p) = b + parser_blocks (yaml_parser.truncate p) + event_blocks e + 2"

lemma wp_load_document:
  assumes C: "fetch_contract fetch I left" and P: "document_started I b e p"
    and e: "ev_data e = DocumentStartEvent vd tds implicit"
  shows "wp (yaml_parser_load_document fetch e) (\<lambda>_. dloaded fetch I b (yaml_parser.truncate p) e)
    (dfailed b (uncomposable fetch (yaml_parser.truncate p) ([], [], []))) p"
proof -
  obtain nodes where d: "p_document p = Some (null_document\<lparr>d_nodes := nodes\<rparr>)" "stack_ok nodes" "elems nodes = []"
    and al: "stack_ok (p_aliases p)" "elems (p_aliases p) = []" and inv: "parser_inv I (yaml_parser.truncate p)"
      "abs_state (p_state p) (stk (yaml_parser.truncate p)) = ANode []"
    and lv: "live (p_mem p) = b + parser_blocks (yaml_parser.truncate p) + event_blocks e + 2"
    using P by (auto simp: document_started_def)
  let ?d = "null_document\<lparr>d_nodes := nodes, d_version_directive := vd, d_tag_directives := tds,
         d_start_implicit := implicit, d_start_mark := ev_start_mark e\<rparr>"
  let ?p = "p\<lparr>p_document := Some ?d\<rparr>"
  have bl: "document_blocks ?d + alias_blocks (p_aliases p) = event_blocks e + 2"
    using d al e by (simp add: document_blocks_def event_blocks_def event_data_blocks_def alias_blocks_def stack_ok_def)
  have "wp (memP (STACK_INIT sizeof_int)) (\<lambda>ctx. wp (with_ctx ctx (yaml_parser_load_nodes fetch))
      (\<lambda>_. dloaded fetch I b (yaml_parser.truncate p) e) (dfailed b (uncomposable fetch (yaml_parser.truncate p) ([], [], []))))
      (dfailed b (uncomposable fetch (yaml_parser.truncate p) ([], [], []))) ?p"
    unfolding wp_memP
  proof (rule wp_STACK_INIT)
    fix ctx :: "int ystack" and h :: heap
    assume ctx: "stack_ok ctx" "elems ctx = []" "live h = live (p_mem ?p) + 1"
    let ?p1 = "?p\<lparr>p_mem := h\<rparr>"
    have "live h = b + parser_blocks (yaml_parser.truncate p) + document_blocks ?d + alias_blocks (p_aliases p) + 1"
      using ctx(3) lv bl by simp
    moreover have "tree_inv ?d [] []" "abs_doc ?d = []" "abs_aliases (p_aliases p) = []" "aliases_ok (length (doc_nodes ?d)) (p_aliases p)"
      using d al by (auto simp: abs_doc_def abs_aliases_def aliases_ok_def tree_inv_def valid_id_def)
    ultimately have "lstate (yaml_parser.truncate ?p1) (b + parser_blocks (yaml_parser.truncate ?p1)) ([], [], []) [] (?p1, ctx)"
      using ctx(1,2) parser_inv_error [OF inv(1)] by simp
    then have "lready I b ([], [], []) (ANode []) (?p1, ctx)"
      using inv by (simp add: lready_def parser_inv_mem [OF C] del: lstate.simps)
    note ld = wp_load_nodes [OF C this]
    have "started_by e d" if "yaml_parser_load_nodes fetch (?p1, ctx) = Return x (p2, ctx2)" "p_document p2 = Some d" for x p2 ctx2 d
      using keepsD [OF keeps_load_nodes that(1)] that(2) e by (auto simp: started_by_def d_header_def)
    with ld show "wp (with_ctx ctx (yaml_parser_load_nodes fetch))
      (\<lambda>_. dloaded fetch I b (yaml_parser.truncate p) e) (dfailed b (uncomposable fetch (yaml_parser.truncate p) ([], [], []))) ?p1"
      unfolding wp_def with_ctx_def
      by (auto split: result.splits intro!: dfailed_ctx dloaded_ctx [OF _ _ _ C] elim: loaded_mem(2) lerror_mono uncomposable_mem)
  qed (use lv bl in \<open>auto simp: dfailed_def Let_def\<close>)
  then show ?thesis unfolding yaml_parser_load_document_def e yaml_event_data.case wp_seqM update_document_def wp_bindM
    by (intro wp_on_document [OF d(1)]) (simp add: wp_modifyM)
qed

subsection \<open>\<open>yaml_parser_load\<close>\<close>

text \<open>Between two calls: no document is under construction and the parser is between two documents.\<close>

definition idle :: "'h yaml_loader \<Rightarrow> bool" where
  "idle p \<longleftrightarrow> p_document p = None \<and> cap (p_aliases p) = 0 \<and> elems (p_aliases p) = []"

definition loader_ready :: "('h yaml_scanner \<Rightarrow> bool) \<Rightarrow> 'h yaml_loader \<Rightarrow> bool" where
  "loader_ready I p \<longleftrightarrow> idle p \<and> parser_inv I (yaml_parser.truncate p)
     \<and> abs_state (p_state p) (stk (yaml_parser.truncate p)) \<in> {AStart, ADocs, AEnd}"

abbreviation lbalance :: "'h yaml_loader \<Rightarrow> int" where
  "lbalance p \<equiv> balance (yaml_parser.truncate p)"

definition load_failed :: "int \<Rightarrow> bool \<Rightarrow> 'h yaml_loader \<Rightarrow> bool" where
  "load_failed b C p \<longleftrightarrow> idle p \<and> (p_error p = YAML_COMPOSER_ERROR \<longrightarrow> C) \<and> b \<le> lbalance p
     \<and> (p_error p = YAML_MEMORY_ERROR \<or> lbalance p = b)"

lemma delete_aliases_simps [simp]:
  "elems (p_aliases (yaml_parser_delete_aliases p)) = []" "cap (p_aliases (yaml_parser_delete_aliases p)) = 0"
  "p_error (yaml_parser_delete_aliases p) = p_error p" "p_state (yaml_parser_delete_aliases p) = p_state p"
  "live (p_mem (yaml_parser_delete_aliases p)) = live (p_mem p) - alias_blocks (p_aliases p)"
  "yaml_parser.truncate (yaml_parser_delete_aliases p) = (yaml_parser.truncate p)\<lparr>p_mem := p_mem (yaml_parser_delete_aliases p)\<rparr>"
proof -
  have "live (fold (\<lambda>_. yaml_free True) xs h) = live h - int (length xs)" for xs :: "yaml_alias_data list" and h
    by (induction xs arbitrary: h) (auto simp: yaml_free_def)
  then show "live (p_mem (yaml_parser_delete_aliases p)) = live (p_mem p) - alias_blocks (p_aliases p)"
    by (simp add: yaml_parser_delete_aliases_def alias_blocks_def STACK_DEL_def yaml_free_def)
qed (simp_all add: yaml_parser_delete_aliases_def null_stack_def freeP_def)

lemma load_cleanup_simps [simp]:
  "idle (load_cleanup d p)" "p_error (load_cleanup d p) = p_error p"
  "lbalance (load_cleanup d p) = lbalance p - alias_blocks (p_aliases p) - document_blocks d"
  by (simp_all add: load_cleanup_def idle_def balance_def live_yaml_document_delete freeP_def)

lemma extend_idle [simp]: "idle (yaml_parser.extend (q :: 'h yaml_parser) (yaml_parser.more (p :: 'h yaml_loader))) = idle p"
  by (simp add: idle_def)

lemma extend_state [simp]:
  "p_state (yaml_parser.extend (q :: 'h yaml_parser) (yaml_parser.more (p :: 'h yaml_loader))) = p_state q"
  by (simp add: yaml_parser.extend_def)

text \<open>The calls of \<open>yaml_parser_parse\<close> between two documents.\<close>

lemma wp_parse_between:
  assumes C: "fetch_contract fetch I left" and p: "loader_ready I p" and s: "p_state p \<noteq> YAML_PARSE_END_STATE"
  shows "wp (parse_event fetch)
    (\<lambda>e p'. parser_inv I (yaml_parser.truncate p') \<and> idle p'
       \<and> accept (abs_state (p_state p) (stk (yaml_parser.truncate p))) (ev_type e) = Some (abs_state (p_state p') (stk (yaml_parser.truncate p')))
       \<and> lbalance p' = lbalance p + event_blocks e \<and> delivers fetch (yaml_parser.truncate p) [e] (yaml_parser.truncate p'))
    (\<lambda>p'. idle p' \<and> failed (lbalance p) (yaml_parser.truncate p')) p"
proof -
  let ?q = "yaml_parser.truncate p"
  have p': "parser_inv I ?q" "idle p" using p by (auto simp: loader_ready_def)
  have s': "p_state ?q \<noteq> YAML_PARSE_END_STATE" using s by simp
  have dl: "delivers fetch ?q [e] q1" if "yaml_parser_parse fetch ?q = Return e q1" "accept a (ev_type e) = Some a'" for e q1 a a'
    using delivers_step [OF that delivers_Nil, of "p_mem q1" "p_mem q1"] by simp
  show ?thesis unfolding wp_parse_event
    by (rule wp_mono [OF wp_parse [OF C p'(1) s']]) (use p' in \<open>auto simp: parsed_def intro: dl\<close>)
qed

lemma started_iff: "parser_inv I q \<Longrightarrow> p_stream_start_produced q \<longleftrightarrow> abs_state (p_state q) (stk q) \<noteq> AStart"
  by (cases "p_state q") (auto simp: parser_inv_def base_inv_def start_inv_def)

lemma ended_iff: "parser_inv I q \<Longrightarrow> p_stream_end_produced q \<longleftrightarrow> p_state q = YAML_PARSE_END_STATE"
  by (auto simp: parser_inv_def base_inv_def start_inv_def split: if_splits)

definition between_documents :: "('h yaml_parser, unit) prog \<Rightarrow> 'h yaml_parser \<Rightarrow> 'h yaml_parser \<Rightarrow> bool" where
  "between_documents fetch q q' \<longleftrightarrow> (\<exists>es. delivers fetch q es q' \<and> set (map ev_type es) \<subseteq> {YAML_STREAM_START_EVENT})"

lemma wp_load_start:
  assumes C: "fetch_contract fetch I left" and p: "loader_ready I p"
  shows "wp (load_start fetch)
    (\<lambda>_ p'. loader_ready I p' \<and> abs_state (p_state p') (stk (yaml_parser.truncate p')) \<noteq> AStart \<and> lbalance p' = lbalance p
       \<and> between_documents fetch (yaml_parser.truncate p) (yaml_parser.truncate p'))
    (\<lambda>p'. idle p' \<and> failed (lbalance p) (yaml_parser.truncate p')) p"
proof (cases "p_stream_start_produced p")
  case True
  have "delivers fetch (yaml_parser.truncate p) [] (yaml_parser.truncate p)"
    using delivers_Nil [of fetch "yaml_parser.truncate p" "p_mem p"] by simp
  then show ?thesis using True p started_iff [of I "yaml_parser.truncate p"]
    by (auto simp: load_start_def wp_simps loader_ready_def between_documents_def intro!: exI [of _ "[]"])
next
  case False
  then have a: "abs_state (p_state p) (stk (yaml_parser.truncate p)) = AStart"
    using p started_iff [of I "yaml_parser.truncate p"] by (simp add: loader_ready_def)
  then have s: "p_state p \<noteq> YAML_PARSE_END_STATE" by auto
  have acc: "x = YAML_STREAM_START_EVENT \<and> a' = ADocs" if "accept AStart x = Some a'" for x a'
    using that by (auto elim!: accept.elims)
  show ?thesis using False
    by (auto simp: load_start_def wp_readM wp_bindM wp_assertM a loader_ready_def between_documents_def event_blocks_def
      event_data_blocks_def ev_type_def split: yaml_event_data.splits dest!: acc intro!: exI wp_mono [OF wp_parse_between [OF C p s]])
qed

text \<open>
  What a call that returns 1 delivers: the next document of the stream, or the empty document at its end.
\<close>

definition load_result ::
    "('h yaml_parser, unit) prog \<Rightarrow> ('h yaml_scanner \<Rightarrow> bool) \<Rightarrow> 'h yaml_loader \<Rightarrow> yaml_document \<Rightarrow> 'h yaml_loader \<Rightarrow> bool" where
  "load_result fetch I p d p' \<longleftrightarrow> loader_ready I p' \<and> doc_ok d \<and> lbalance p' = lbalance p + document_blocks d
     \<and> (if doc_nodes d = [] then p_stream_end_produced p'
        else \<exists>q e q1. between_documents fetch (yaml_parser.truncate p) q \<and> delivers fetch q [e] q1
          \<and> started_by e d \<and> loaded fetch q1 d (yaml_parser.truncate p'))"

definition bad_document :: "('h yaml_parser, unit) prog \<Rightarrow> 'h yaml_parser \<Rightarrow> bool" where
  "bad_document fetch q \<longleftrightarrow> (\<exists>q1 e q2. between_documents fetch q q1 \<and> delivers fetch q1 [e] q2
     \<and> ev_type e = YAML_DOCUMENT_START_EVENT \<and> uncomposable fetch q2 ([], [], []))"

lemma empty_document:
  assumes "stack_ok nodes" "elems nodes = []"
  shows "doc_ok (null_document\<lparr>d_nodes := nodes\<rparr>)" "document_blocks (null_document\<lparr>d_nodes := nodes\<rparr>) = 1"
  using assms by (simp_all add: doc_ok_def document_blocks_def null_document_def stack_ok_def tag_directives_blocks_def)

lemma lbalance_error: "live h = live (p_mem p) \<Longrightarrow> lbalance (p\<lparr>p_mem := h, p_error := x\<rparr>) = lbalance p"
  by (simp add: balance_def)

lemma null_document_blocks: "document_blocks null_document = 0"
  by (simp add: document_blocks_def null_document_def null_stack_def tag_directives_blocks_def)

lemma load_failed_mono: "load_failed b C p \<Longrightarrow> (C \<Longrightarrow> C') \<Longrightarrow> load_failed b C' p"
  by (auto simp: load_failed_def)

lemma idle_aliases: "idle p \<Longrightarrow> alias_blocks (p_aliases p) = 0"
  by (simp add: idle_def alias_blocks_def)

lemma failed_cleanup:
  assumes "idle p'" "failed (b + 1) (yaml_parser.truncate p')" "stack_ok nodes" "elems nodes = []"
  shows "load_failed b C (load_cleanup (null_document\<lparr>d_nodes := nodes\<rparr>) p')"
  using assms by (auto simp: load_failed_def failed_def empty_document idle_aliases)

lemma dfailed_cleanup: "dfailed b C p \<Longrightarrow> load_failed b C (load_cleanup (own_document p) p)"
  using balance_def [of "yaml_parser.truncate p"] by (auto simp: dfailed_def load_failed_def own_document_def Let_def)

text \<open>From the parsing of the DOCUMENT-START event on.\<close>

lemma wp_load_next:
  assumes C: "fetch_contract fetch I left" and e: "ev_type e = YAML_DOCUMENT_START_EVENT"
    and inv: "parser_inv I (yaml_parser.truncate p)" "abs_state (p_state p) (stk (yaml_parser.truncate p)) = ANode []"
    and "idle p" and lv: "lbalance p = b + 1 + event_blocks e" and nodes: "stack_ok nodes" "elems nodes = []"
  defines "document \<equiv> null_document\<lparr>d_nodes := nodes\<rparr>"
  shows "wp (load_next fetch document e)
    (\<lambda>d p'. loader_ready I p' \<and> doc_ok d \<and> lbalance p' = b + document_blocks d \<and> started_by e d \<and> loaded fetch (yaml_parser.truncate p) d (yaml_parser.truncate p'))
    (load_failed b (uncomposable fetch (yaml_parser.truncate p) ([], [], []))) p"
proof -
  obtain vd tds impl where ed: "ev_data e = DocumentStartEvent vd tds impl"
    using e by (cases "ev_data e") (simp_all add: ev_type_def)
  have fin: "loader_ready I ((yaml_parser_delete_aliases p2)\<lparr>p_document := None\<rparr>) \<and> doc_ok (own_document p2)
      \<and> lbalance ((yaml_parser_delete_aliases p2)\<lparr>p_document := None\<rparr>) = b + document_blocks (own_document p2)
      \<and> started_by e (own_document p2) \<and> loaded fetch (yaml_parser.truncate p) (own_document p2) (yaml_parser.truncate ((yaml_parser_delete_aliases p2)\<lparr>p_document := None\<rparr>))"
    if "dloaded fetch I b (yaml_parser.truncate p1) e p2" "yaml_parser.truncate p1 = (yaml_parser.truncate p)\<lparr>p_mem := h\<rparr>" for p1 p2 h
    using that by (auto simp: dloaded_def loader_ready_def idle_def own_document_def parser_inv_mem [OF C] balance_def
        intro: loaded_mem(1) [OF loaded_mem(2)])
  have doc: "wp (yaml_parser_load_document fetch e)
      (\<lambda>_. wp (readM (\<lambda>p. seqM (modifyM (\<lambda>p. (yaml_parser_delete_aliases p)\<lparr>p_document := None\<rparr>)) (returnM (own_document p))))
        (\<lambda>d p'. loader_ready I p' \<and> doc_ok d \<and> lbalance p' = b + document_blocks d \<and> started_by e d \<and> loaded fetch (yaml_parser.truncate p) d (yaml_parser.truncate p'))
        (load_failed b (uncomposable fetch (yaml_parser.truncate p) ([], [], []))))
      (\<lambda>p'. load_failed b (uncomposable fetch (yaml_parser.truncate p) ([], [], [])) (load_cleanup (own_document p') p'))
      (p\<lparr>p_mem := h, p_aliases := al, p_document := Some document\<rparr>)"
    if al: "stack_ok al" "elems al = []" "live h = live (p_mem p) + 1" for al h
  proof -
    let ?p = "p\<lparr>p_mem := h, p_aliases := al, p_document := Some document\<rparr>"
    have "document_started I b e ?p"
      using inv nodes al lv by (auto simp: document_started_def document_def parser_inv_mem [OF C] balance_def)
    note ld = wp_load_document [OF C this ed]
    show ?thesis unfolding wp_readM wp_seqM wp_modifyM wp_returnM
      by (rule wp_mono [OF ld], rule fin [where ?p1.0 = ?p and h = h])
        (auto dest!: dfailed_cleanup elim!: load_failed_mono uncomposable_mem)
  qed
  have ev: "0 \<le> event_blocks e" by (simp add: event_blocks_def event_data_blocks_def ed tag_directives_blocks_def)
  show ?thesis unfolding load_next_def wp_seqM wp_cleanupM wp_bindM wp_memP wp_modifyM
    by (rule wp_STACK_INIT)
      (use doc \<open>idle p\<close> lv nodes ev in \<open>auto simp: load_failed_def document_def empty_document idle_aliases lbalance_error\<close>)
qed

lemma accept_ADocs:
  "accept ADocs x = Some a' \<Longrightarrow> x = YAML_DOCUMENT_START_EVENT \<and> a' = ANode [] \<or> x = YAML_STREAM_END_EVENT \<and> a' = AEnd"
  by (auto elim!: accept.elims)

lemma abs_state_AEnd: "abs_state s ss = AEnd \<longleftrightarrow> s = YAML_PARSE_END_STATE"
proof -
  have "after_node fs \<noteq> AEnd" for fs by (cases fs rule: after_node.cases) auto
  then show ?thesis by (cases s) auto
qed

lemma wp_load_rest:
  assumes C: "fetch_contract fetch I left" and nodes: "stack_ok nodes" "elems nodes = []"
    and p2: "loader_ready I p2" "lbalance p2 = lbalance p + 1" "between_documents fetch (yaml_parser.truncate p) (yaml_parser.truncate p2)"
    and s: "abs_state (p_state p2) (stk (yaml_parser.truncate p2)) \<noteq> AStart"
  defines "document \<equiv> null_document\<lparr>d_nodes := nodes\<rparr>"
  shows "wp (load_rest fetch document) (load_result fetch I p)
    (load_failed (lbalance p) (bad_document fetch (yaml_parser.truncate p))) p2"
proof -
  let ?q = "yaml_parser.truncate p"
  have eof: "p_stream_end_produced p2 \<longleftrightarrow> abs_state (p_state p2) (stk (yaml_parser.truncate p2)) = AEnd"
    using ended_iff [of I "yaml_parser.truncate p2"] p2(1) abs_state_AEnd by (simp add: loader_ready_def)
  have fin: "load_result fetch I p document p3" if "loader_ready I p3" "lbalance p3 = lbalance p + 1" "p_stream_end_produced p3" for p3
    using that nodes by (simp add: load_result_def document_def empty_document)
  have "wp (parse_event fetch)
      (\<lambda>e. wp (if ev_type e = YAML_STREAM_END_EVENT then returnM document else load_next fetch document e)
        (load_result fetch I p) (load_failed (lbalance p) (bad_document fetch ?q)))
      (\<lambda>p'. load_failed (lbalance p) (bad_document fetch ?q) (load_cleanup document p')) p2"
    if "\<not> p_stream_end_produced p2"
  proof -
    have ADocs: "abs_state (p_state p2) (stk (yaml_parser.truncate p2)) = ADocs"
      using that s p2(1) eof by (auto simp: loader_ready_def)
    then have ne: "p_state p2 \<noteq> YAML_PARSE_END_STATE" by auto
    show ?thesis
    proof (rule wp_mono [OF wp_parse_between [OF C p2(1) ne]], goal_cases)
      case (1 e p3)
      then have p3: "parser_inv I (yaml_parser.truncate p3)" "idle p3" "lbalance p3 = lbalance p + 1 + event_blocks e"
          "delivers fetch (yaml_parser.truncate p2) [e] (yaml_parser.truncate p3)" using p2(2) by auto
      consider "ev_type e = YAML_STREAM_END_EVENT" "abs_state (p_state p3) (stk (yaml_parser.truncate p3)) = AEnd"
        | "ev_type e = YAML_DOCUMENT_START_EVENT" "abs_state (p_state p3) (stk (yaml_parser.truncate p3)) = ANode []"
        using 1 ADocs accept_ADocs by metis
      then show ?case
      proof cases
        case 1
        then have "p_stream_end_produced p3" "event_blocks e = 0"
          using ended_iff [OF p3(1)] abs_state_AEnd
          by (auto simp: event_blocks_def event_data_blocks_def ev_type_def split: yaml_event_data.splits)
        with 1 p3 fin show ?thesis by (simp add: wp_returnM loader_ready_def)
      next
        case 2
        note nx = wp_load_next [OF C 2(1) p3(1) 2(2) p3(2,3) nodes, folded document_def]
        have bad: "bad_document fetch ?q" if "uncomposable fetch (yaml_parser.truncate p3) ([], [], [])"
          using that 2(1) p2(3) p3(4) unfolding bad_document_def by blast
        have good: "load_result fetch I p d p'"
          if "loader_ready I p' \<and> doc_ok d \<and> lbalance p' = lbalance p + document_blocks d
             \<and> started_by e d \<and> loaded fetch (yaml_parser.truncate p3) d (yaml_parser.truncate p')" for d p'
          using that 2(1) p2(3) p3(4) by (auto simp: load_result_def) (auto simp: loaded_def)
        from 2(1) show ?thesis
          by simp (rule wp_mono [OF nx]; blast intro: good load_failed_mono [OF _ bad])
      qed
    qed (use p2(2) nodes in \<open>auto simp: document_def intro: failed_cleanup\<close>)
  qed
  with fin p2 show ?thesis by (simp add: load_rest_def wp_readM wp_if wp_returnM wp_bindM wp_cleanupM)
qed

lemma wp_load:
  assumes C: "fetch_contract fetch I left" and p: "loader_ready I p"
  shows "wp (yaml_parser_load fetch) (load_result fetch I p)
    (load_failed (lbalance p) (bad_document fetch (yaml_parser.truncate p))) p"
  unfolding yaml_parser_load_def wp_bindM wp_cleanupM wp_memP
proof (rule wp_STACK_INIT)
  fix h :: heap
  assume "live h = live (p_mem p)"
  then show "load_failed (lbalance p) (bad_document fetch (yaml_parser.truncate p))
      (load_cleanup null_document (p\<lparr>p_mem := h, p_error := YAML_MEMORY_ERROR\<rparr>))"
    using p by (simp add: load_failed_def loader_ready_def idle_aliases lbalance_error null_document_blocks)
next
  fix nodes :: "yaml_node ystack" and h :: heap
  assume nodes: "stack_ok nodes" "elems nodes = []" and h: "live h = live (p_mem p) + 1"
  let ?p = "p\<lparr>p_mem := h\<rparr>" and ?d = "null_document\<lparr>d_nodes := nodes\<rparr>"
  have p1: "loader_ready I ?p" using p by (simp add: loader_ready_def parser_inv_mem [OF C] idle_def)
  have bal: "lbalance ?p = lbalance p + 1" using h by (simp add: balance_def)
  have start: "between_documents fetch (yaml_parser.truncate p) q'" if "between_documents fetch (yaml_parser.truncate ?p) q'" for q'
    using that by (auto simp: between_documents_def intro: delivers_mem)
  show "wp (let document = ?d in seqM (cleanupM (load_start fetch) (load_cleanup document)) (load_rest fetch document))
      (load_result fetch I p) (load_failed (lbalance p) (bad_document fetch (yaml_parser.truncate p))) ?p"
    unfolding Let_def wp_seqM wp_cleanupM
    by (rule wp_mono [OF wp_load_start [OF C p1]])
      (use bal nodes start in \<open>auto intro!: wp_load_rest [OF C nodes] failed_cleanup\<close>)
qed

subsection \<open>All documents of a stream\<close>

inductive loads ::
    "('h yaml_parser, unit) prog \<Rightarrow> 'h yaml_loader \<Rightarrow> yaml_document list \<Rightarrow> 'h yaml_loader \<Rightarrow> bool"
  for fetch where
  loads_Nil: "loads fetch p [] p"
| loads_Cons: "yaml_parser_load fetch p = Return d p1 \<Longrightarrow> doc_nodes d \<noteq> [] \<Longrightarrow> loads fetch p1 ds p'
    \<Longrightarrow> loads fetch p (d # ds) p'"

lemma delivers_work:
  assumes "delivers fetch q es q'" "fetch_contract fetch I left" "parser_inv I q"
  shows "parser_inv I q' \<and> work left q' + length es \<le> work left q"
  using assms(1,3)
proof (induction rule: delivers.induct)
  case (delivers_Nil h q)
  then show ?case by (simp add: parser_inv_mem [OF assms(2)])
next
  case (delivers_Cons h q e q1 es q2)
  have "parsed I left (abs_state (p_state (q\<lparr>p_mem := h\<rparr>)) (stk (q\<lparr>p_mem := h\<rparr>))) (work left (q\<lparr>p_mem := h\<rparr>)) (balance (q\<lparr>p_mem := h\<rparr>)) e q1"
    by (rule parse_step [OF assms(2) _ delivers_Cons.hyps(1,2)]) (simp add: parser_inv_mem [OF assms(2)] delivers_Cons.prems)
  with delivers_Cons.IH show ?case by (auto simp: parsed_def parser_inv_mem [OF assms(2)])
qed

lemma load_result_work:
  assumes C: "fetch_contract fetch I left" and p: "loader_ready I p" and r: "load_result fetch I p d p'" and d: "doc_nodes d \<noteq> []"
  shows "work left (yaml_parser.truncate p') < work left (yaml_parser.truncate p)"
proof -
  obtain q e q1 es e2 es2 where "delivers fetch (yaml_parser.truncate p) es q" "delivers fetch q [e] q1"
      "delivers fetch q1 (es2 @ [e2]) (yaml_parser.truncate p')"
    using r d by (auto simp: load_result_def between_documents_def loaded_def)
  moreover have "parser_inv I (yaml_parser.truncate p)" using p by (simp add: loader_ready_def)
  moreover note delivers_work [OF calculation(1) C calculation(4)]
  moreover then have "parser_inv I q1 \<and> work left q1 + 1 \<le> work left q" using delivers_work [OF calculation(2) C] by simp
  moreover then have "work left (yaml_parser.truncate p') + 1 \<le> work left q1" using delivers_work [OF calculation(3) C] by auto
  ultimately show ?thesis by linarith
qed

lemma loads_ready: "loads fetch p ds p' \<Longrightarrow> fetch_contract fetch I left \<Longrightarrow> loader_ready I p \<Longrightarrow>
    loader_ready I p' \<and> lbalance p' = lbalance p + sum_list (map document_blocks ds) \<and> (\<forall>d\<in>set ds. doc_ok d)"
proof (induction rule: loads.induct)
  case (loads_Cons p d p1 ds p')
  from wp_Return [OF wp_load [OF loads_Cons.prems] loads_Cons.hyps(1)] loads_Cons.IH [OF loads_Cons.prems(1)]
  show ?case by (auto simp: load_result_def)
qed simp

text \<open>The last call of a run, with the documents \<open>ds\<close> and the parser deleted after it: \<open>b\<close> is what was live before.\<close>

abbreviation live_after :: "yaml_document list \<Rightarrow> 'h yaml_loader \<Rightarrow> int" where
  "live_after ds p \<equiv> live (fold yaml_document_delete ds (p_mem (yaml_parser_delete (yaml_parser.truncate p))))"

definition last_load :: "('h yaml_parser, unit) prog \<Rightarrow> int \<Rightarrow> yaml_document list \<Rightarrow> 'h yaml_loader \<Rightarrow> bool" where
  "last_load fetch b ds p \<longleftrightarrow>
     (\<exists>d p'. yaml_parser_load fetch p = Return d p' \<and> doc_nodes d = [] \<and> p_stream_end_produced p' \<and> idle p'
        \<and> live_after (ds @ [d]) p' = b)
   \<or> (\<exists>p'. yaml_parser_load fetch p = Error p' \<and> idle p' \<and> b \<le> live_after ds p'
        \<and> (p_error p' \<noteq> YAML_MEMORY_ERROR \<longrightarrow> live_after ds p' = b))"

lemma live_fold_delete: "live (fold yaml_document_delete ds h) = live h - sum_list (map document_blocks ds)"
  by (induction ds arbitrary: h) (simp_all add: live_yaml_document_delete)

lemma live_after: "live_after ds p = lbalance p - sum_list (map document_blocks ds)"
  by (simp add: live_fold_delete live_yaml_parser_delete balance_def)

lemma loads_to_end:
  assumes C: "fetch_contract fetch I left" and "loader_ready I p" "b = lbalance p"
  shows "\<exists>ds p'. loads fetch p ds p' \<and> length ds \<le> work left (yaml_parser.truncate p) \<and> live_after ds p' = b \<and> last_load fetch b ds p'"
  using assms(2,3)
proof (induction "work left (yaml_parser.truncate p)" arbitrary: p b rule: less_induct)
  case less
  note wp = wp_load [OF C less.prems(1)]
  have stop: ?case if "last_load fetch b [] p"
    using that less.prems(2) by (intro exI [of _ "[]"] exI [of _ p]) (simp add: loads_Nil live_after live_yaml_parser_delete balance_def)
  show ?case
  proof (cases "yaml_parser_load fetch p")
    case (Return d p1)
    then have r: "load_result fetch I p d p1" by (rule wp_Return [OF wp])
    show ?thesis
    proof (cases "doc_nodes d = []")
      case True
      have "last_load fetch b [] p" unfolding last_load_def live_after
        using Return True r less.prems(2) by (intro disjI1) (auto simp: load_result_def loader_ready_def)
      then show ?thesis by (rule stop)
    next
      case False
      note w = load_result_work [OF C less.prems(1) r False]
      have p1: "loader_ready I p1" "lbalance p1 = b + document_blocks d" using r less.prems(2) by (auto simp: load_result_def)
      obtain ds p' where ds: "loads fetch p1 ds p'" "length ds \<le> work left (yaml_parser.truncate p1)"
          "live_after ds p' = b + document_blocks d" "last_load fetch (b + document_blocks d) ds p'"
        using less.hyps [OF w p1(1) p1(2) [symmetric]] by blast
      have "last_load fetch b (d # ds) p'" using ds(4) unfolding last_load_def live_after by auto
      moreover have "live_after (d # ds) p' = b" using ds(3) unfolding live_after by simp
      ultimately show ?thesis using loads_Cons [OF Return False ds(1)] ds(2) w
        by (intro exI [of _ "d # ds"] exI [of _ p']) (simp del: fold.simps)
    qed
  next
    case (Error p1)
    then have "load_failed (lbalance p) (bad_document fetch (yaml_parser.truncate p)) p1" by (rule wp_Error [OF wp])
    then have "last_load fetch b [] p" unfolding last_load_def live_after
      using Error less.prems(2) by (intro disjI2) (auto simp: load_failed_def)
    then show ?thesis by (rule stop)
  next
    case Fault
    with wp_no_fault [OF wp] show ?thesis by simp
  qed
qed

subsection \<open>Properties\<close>

lemma fresh_loader: "fresh_parser (yaml_parser.truncate p) \<Longrightarrow> idle p \<Longrightarrow> I (scn (yaml_parser.truncate p)) \<Longrightarrow> loader_ready I p"
  using fresh_parser_inv [of "yaml_parser.truncate p" I] by (simp add: loader_ready_def fresh_parser_def)

definition sample_loader :: "yaml_token_data list \<Rightarrow> yaml_token list yaml_loader" where
  "sample_loader ts = yaml_parser.extend (sample_parser ts) \<lparr>p_aliases = null_stack sizeof_alias_data, p_document = None\<rparr>"

lemma sample_loader: "yaml_parser.truncate (sample_loader ts) = sample_parser ts" "idle (sample_loader ts)"
  by (simp_all add: sample_loader_def yaml_parser.extend_def yaml_parser.truncate_def sample_parser_def idle_def null_stack_def)

lemma sample_loader_ready: "loader_ready (\<lambda>_. True) (sample_loader ts)"
  by (rule fresh_loader) (simp_all add: sample_loader fresh_sample)

text \<open>C13: A call of \<open>yaml_parser_load\<close> refines the abstract composer: it does not fault; if it returns 1 it has read
  the events of the next document (after that of the start of the stream, at the first call), the nodes of the
  document are those the composer yields for them, its directives and its implicit flags are those of its first and
  its last event, every index in it is one of its nodes, and the blocks it owns are the only new ones, or it is empty
  and the stream is at its end; if it returns 0 with a composer error, the composer rejects the events: an alias
  without its anchor or an anchor defined twice.  Blocks can only be lost where memory ran out.\<close>

theorem load_refines_composer:
  assumes "fetch_contract fetch I left" "loader_ready I p"
  shows "wp (yaml_parser_load fetch) (load_result fetch I p)
    (load_failed (lbalance p) (bad_document fetch (yaml_parser.truncate p))) p"
  by (rule wp_load [OF assms])

theorem load_refines_composer_witness:
  "loader_ready (\<lambda>_. True) (sample_loader [StreamStartToken YAML_UTF8_ENCODING, ScalarToken [0x61] YAML_PLAIN_SCALAR_STYLE, StreamEndToken])
   \<and> yaml_parser_load replay (sample_loader [StreamStartToken YAML_UTF8_ENCODING, ScalarToken [0x61] YAML_PLAIN_SCALAR_STYLE, StreamEndToken]) \<noteq> Fault"
  using wp_no_fault [OF load_refines_composer [OF replay_contract sample_loader_ready]] sample_loader_ready by blast

text \<open>C14: A program that loads document after document comes to an end: after finitely many documents (at most 16 per
  token), which are all well formed, a call yields the empty document at the end of the stream or fails.  After that call as before it
  no block is left: deleting the documents, the empty one too, and the parser frees every block there was not before.
  A last call that fails has cleaned up after itself unless memory ran out, and even then it frees nothing that is not its own.\<close>

theorem load_stream_terminates:
  assumes "fetch_contract fetch I left" "fresh_parser (yaml_parser.truncate p)" "idle p" "I (scn (yaml_parser.truncate p))"
  shows "\<exists>ds p'. loads fetch p ds p' \<and> length ds \<le> 16 * left (scn (yaml_parser.truncate p)) \<and> (\<forall>d\<in>set ds. doc_ok d)
    \<and> live_after ds p' = live_after [] p \<and> last_load fetch (live_after [] p) ds p'"
proof -
  note rdy = fresh_loader [where I = I, OF assms(2-4)]
  have "live_after [] p = lbalance p" unfolding live_after by simp
  then obtain ds p' where run: "loads fetch p ds p'" and len: "length ds \<le> work left (yaml_parser.truncate p)"
    and fin: "live_after ds p' = live_after [] p" "last_load fetch (live_after [] p) ds p'"
    using loads_to_end [OF assms(1) rdy, of "live_after [] p"] by blast
  with loads_ready [OF run assms(1) rdy] show ?thesis
    by (intro exI [of _ ds] exI [of _ p']) (simp add: fresh_work [OF assms(2)])
qed

theorem load_stream_terminates_witness:
  "\<exists>ds p'. loads replay (sample_loader [StreamStartToken YAML_UTF8_ENCODING, StreamEndToken]) ds p' \<and> length ds \<le> 32
    \<and> last_load replay (live_after [] (sample_loader [StreamStartToken YAML_UTF8_ENCODING, StreamEndToken])) ds p'"
  using load_stream_terminates [OF replay_contract, of "sample_loader [StreamStartToken YAML_UTF8_ENCODING, StreamEndToken]"]
  by (force simp: sample_loader fresh_sample sample_left)

text \<open>C37: Where the copy of the default tag cannot be allocated, loading a scalar fails without setting the error of the
  parser: the caller of \<open>yaml_parser_load\<close> gets 0 and \<open>YAML_NO_ERROR\<close>.\<close>

theorem load_scalar_error_unset:
  assumes "p_document p = Some d" "STACK_LIMIT (d_nodes d) (INT_MAX - 1)" "outcomes (p_mem p) = False # bs"
  shows "\<exists>p'. yaml_parser_load_scalar None None v style sm em (p, ctx) = Error (p', ctx) \<and> p_error p' = p_error p"
  using assms by (simp add: yaml_parser_load_scalar_def new_node_def prog_defs on_document_def node_limit_def limitM_def
      default_tag_def strdup_tag_def inP_def yaml_strdup_def malloc_def next_outcome.simps freeP_def)

theorem load_scalar_error_unset_witness:
  "\<exists>p'. yaml_parser_load_scalar None None [] YAML_PLAIN_SCALAR_STYLE null_mark null_mark
     ((sample_loader [])\<lparr>p_document := Some null_document, p_mem := \<lparr>outcomes = [False], live = 0\<rparr>\<rparr>, null_stack sizeof_int) = Error (p', null_stack sizeof_int)
     \<and> p_error p' = YAML_NO_ERROR"
  using load_scalar_error_unset [of "(sample_loader [])\<lparr>p_document := Some null_document, p_mem := \<lparr>outcomes = [False], live = 0\<rparr>\<rparr>"]
  by (simp add: null_document_def null_stack_def STACK_LIMIT_def INT_MAX_def sample_loader_def sample_parser_def yaml_parser.extend_def)

lemma push_node_fails:
  assumes "length (doc_nodes d) = cap (d_nodes d)" "cap (d_nodes d) \<noteq> 0" "outcomes h = False # bs"
  shows "push_node n (d, h) = Error (d, if cap (d_nodes d) * esz (d_nodes d) \<ge> INT_MAX div 2 then h else h\<lparr>outcomes := bs\<rparr>)"
  using assms by (auto simp: push_node_def PUSH_def yaml_stack_extend_def yaml_realloc_def realloc_def next_outcome.simps prog_defs)

text \<open>C38: The block of a new sequence or mapping is lost where the node cannot be pushed: the code at the label frees
  the anchor and the tag only.\<close>

theorem load_sequence_leaks:
  assumes "p_document p = Some d" "stack_ok (d_nodes d)" "length (doc_nodes d) = cap (d_nodes d)" "STACK_LIMIT (d_nodes d) (INT_MAX - 1)"
    and "outcomes (p_mem p) = True # False # bs" "\<not> streq t (lit ''!'')"
  shows "\<exists>p'. yaml_parser_load_sequence None (Some t) style sm em (p, ctx) = Error (p', ctx) \<and> p_document p' = Some d
    \<and> live (p_mem p') = live (p_mem p) - string_blocks (Some t) + 1"
proof -
  have "cap (d_nodes d) \<noteq> 0" using assms(2) by (simp add: stack_ok_def)
  then show ?thesis using assms
    by (simp add: yaml_parser_load_sequence_def load_collection_def new_node_def prog_defs on_document_def node_limit_def limitM_def
      default_tag_def inP_def next_outcome.simps freeP_def STACK_INIT_def yaml_malloc_def malloc_def memP_def free_strings_def
      INITIAL_STACK_SIZE_def sizeof_int_def push_node_fails)
qed

definition full_loader :: "yaml_token list yaml_loader" where
  "full_loader = (sample_loader [])\<lparr>p_mem := \<lparr>outcomes = [True, False], live = 2\<rparr>,
     p_document := Some (null_document\<lparr>d_nodes := \<lparr>elems = [NODE_INIT [0x21] (ScalarNode [] YAML_PLAIN_SCALAR_STYLE) null_mark null_mark],
       cap = 1, esz = sizeof_node\<rparr>\<rparr>)\<rparr>"

theorem load_sequence_leaks_witness:
  "\<exists>p'. yaml_parser_load_sequence None (Some [0x61]) YAML_BLOCK_SEQUENCE_STYLE null_mark null_mark (full_loader, null_stack sizeof_int)
      = Error (p', null_stack sizeof_int) \<and> live (p_mem full_loader) = 2 \<and> live (p_mem p') = 2"
proof -
  let ?d = "own_document full_loader"
  have "p_document full_loader = Some ?d" "stack_ok (d_nodes ?d)" "length (doc_nodes ?d) = cap (d_nodes ?d)"
      "outcomes (p_mem full_loader) = [True, False]" "live (p_mem full_loader) = 2"
    by (simp_all add: full_loader_def own_document_def stack_ok_def null_document_def)
  moreover have "STACK_LIMIT (d_nodes ?d) (INT_MAX - 1)" "\<not> streq [0x61] (lit ''!'')"
    by (simp_all add: full_loader_def own_document_def STACK_LIMIT_def INT_MAX_def streq_def c_str_def lit_def)
  ultimately show ?thesis
    using load_sequence_leaks [of full_loader ?d "[]" "[0x61]" YAML_BLOCK_SEQUENCE_STYLE null_mark null_mark "null_stack sizeof_int"]
    by (auto simp: string_blocks_def)
qed

end
