(* ===== verification/Dumper.thy ===== *)
theory Dumper
  imports Objects Document
begin

text \<open>
  The dumper (\<open>dumper.c\<close>): it turns a document into the events of an emitter.  \<open>yaml_emitter_emit\<close> is the
  argument \<open>emit\<close>; it works on the part of the emitter structure that is not the dumper's own.  The two
  recursive functions get one more than the number of nodes of the document as their fuel, which bounds
  the depth of their recursion.
\<close>

type_synonym 'w emitM = "yaml_event \<Rightarrow> ('w yaml_emitter, unit) prog"

definition emit_event :: "'w emitM \<Rightarrow> yaml_event_data \<Rightarrow> ('w yaml_dumper, unit) prog" where
  "emit_event emit d = zoomM yaml_emitter.truncate (\<lambda>e s. yaml_emitter.extend e (yaml_emitter.more s))
     (emit (EVENT_INIT d null_mark null_mark))"

fun forM :: "('a \<Rightarrow> ('s, unit) prog) \<Rightarrow> 'a list \<Rightarrow> ('s, unit) prog" where
  "forM f [] = returnM ()"
| "forM f (x # xs) = seqM (f x) (forM f xs)"

subsection \<open>Opening and closing\<close>

definition yaml_emitter_open :: "'w emitM \<Rightarrow> ('w yaml_dumper, unit) prog" where
  "yaml_emitter_open emit =
     seqM (assertM (\<lambda>e. \<not> e_opened e))
     (seqM (emit_event emit (StreamStartEvent YAML_ANY_ENCODING))
       (modifyM (\<lambda>e. e\<lparr>e_opened := True\<rparr>)))"

definition yaml_emitter_close :: "'w emitM \<Rightarrow> ('w yaml_dumper, unit) prog" where
  "yaml_emitter_close emit =
     seqM (assertM e_opened)
     (readM (\<lambda>e. if e_closed e then returnM () else
        seqM (emit_event emit StreamEndEvent)
          (modifyM (\<lambda>e. e\<lparr>e_closed := True\<rparr>))))"

subsection \<open>Cleaning up\<close>

text \<open>
  What is freed of a node: its tag and its value only where it has not been serialized, since they then
  belong to the event.
\<close>

definition free_dumped_node :: "yaml_anchors \<Rightarrow> yaml_node \<Rightarrow> heap \<Rightarrow> heap" where
  "free_dumped_node a n h = (let h1 = (if an_serialized a then h else
       (case n_data n of ScalarNode _ _ \<Rightarrow> yaml_free True (yaml_free True h) | _ \<Rightarrow> yaml_free True h)) in
     (case n_data n of
        SequenceNode sis _ \<Rightarrow> STACK_DEL sis h1
      | MappingNode pairs _ \<Rightarrow> STACK_DEL pairs h1
      | ScalarNode _ _ \<Rightarrow> h1))"

definition yaml_emitter_delete_document_and_anchors :: "('w yaml_dumper, unit) prog" where
  "yaml_emitter_delete_document_and_anchors = readM (\<lambda>e. case e_document e of
     None \<Rightarrow> faultM
   | Some d \<Rightarrow> (case e_anchors e of
       None \<Rightarrow> modifyM (\<lambda>e. (freeE (yaml_document_delete d) e)\<lparr>e_document := None\<rparr>)
     | Some as \<Rightarrow>
         if length as \<noteq> length (doc_nodes d) then faultM else
         modifyM (\<lambda>e. (freeE (yaml_free True) (freeE (STACK_DEL (d_nodes d))
           (freeE (fold (\<lambda>(a, n). free_dumped_node a n) (zip as (doc_nodes d))) e)))
             \<lparr>e_anchors := None, e_last_anchor_id := 0, e_document := None\<rparr>)))"

subsection \<open>Anchors\<close>

text \<open>Access to a node and to its entry of the table of anchors; the index is checked.\<close>

definition with_node :: "int \<Rightarrow> (yaml_node \<Rightarrow> yaml_anchors \<Rightarrow> ('w yaml_dumper, 'a) prog) \<Rightarrow> ('w yaml_dumper, 'a) prog" where
  "with_node index f = readM (\<lambda>e. case (e_document e, e_anchors e) of
     (Some d, Some as) \<Rightarrow>
       if valid_id d index \<and> nat (index - 1) < length as
       then f (node_at d index) (as ! nat (index - 1)) else faultM
   | _ \<Rightarrow> faultM)"

definition set_anchor :: "int \<Rightarrow> (yaml_anchors \<Rightarrow> yaml_anchors) \<Rightarrow> 'w yaml_dumper \<Rightarrow> 'w yaml_dumper" where
  "set_anchor index f e = e\<lparr>e_anchors := map_option (\<lambda>as. as[nat (index - 1) := f (as ! nat (index - 1))]) (e_anchors e)\<rparr>"

text \<open>The children of a node in the order in which they are visited.\<close>

definition children :: "yaml_node \<Rightarrow> int list" where
  "children n = (case n_data n of
     ScalarNode _ _ \<Rightarrow> []
   | SequenceNode sis _ \<Rightarrow> elems sis
   | MappingNode pairs _ \<Rightarrow> concat (map (\<lambda>p. [np_key p, np_value p]) (elems pairs)))"

primrec yaml_emitter_anchor_node :: "nat \<Rightarrow> int \<Rightarrow> ('w yaml_dumper, unit) prog" where
  "yaml_emitter_anchor_node 0 = (\<lambda>index. faultM)"
| "yaml_emitter_anchor_node (Suc fuel) = (\<lambda>index. with_node index (\<lambda>node a.
     seqM (modifyM (set_anchor index (\<lambda>a. a\<lparr>an_references := an_references a + 1\<rparr>)))
       (if an_references a + 1 = 1 then forM (yaml_emitter_anchor_node fuel) (children node)
        else if an_references a + 1 = 2 then
          seqM (modifyM (\<lambda>e. e\<lparr>e_last_anchor_id := e_last_anchor_id e + 1\<rparr>))
            (modifyM (\<lambda>e. set_anchor index (\<lambda>a. a\<lparr>an_anchor := e_last_anchor_id e\<rparr>) e))
        else returnM ())))"

text \<open>The format \<open>id%03d\<close>.\<close>

definition digit :: "nat \<Rightarrow> yaml_char" where
  "digit n = of_nat (48 + n)"

fun decimal :: "nat \<Rightarrow> ystring" where
  "decimal n = (if n < 10 then [digit n] else decimal (n div 10) @ [digit (n mod 10)])"

declare decimal.simps [simp del]

definition ANCHOR_TEMPLATE :: "int \<Rightarrow> ystring" where
  "ANCHOR_TEMPLATE n = lit ''id'' @
     (let ds = decimal (nat \<bar>n\<bar>); sg = (if n < 0 then [0x2D] else []) in
      sg @ replicate (3 - length sg - length ds) 0x30 @ ds)"

definition ANCHOR_TEMPLATE_LENGTH :: nat where
  "ANCHOR_TEMPLATE_LENGTH = 16"

text \<open>\<open>sprintf\<close> writes its text and a NUL; beyond the block that is a fault.  No error is set where memory runs out.\<close>

definition yaml_emitter_generate_anchor :: "int \<Rightarrow> ('w yaml_dumper, ystring option) prog" where
  "yaml_emitter_generate_anchor anchor_id =
     bindM (zoomM e_mem (\<lambda>h e. e\<lparr>e_mem := h\<rparr>) (malloc ANCHOR_TEMPLATE_LENGTH)) (\<lambda>ok.
       if \<not> ok then returnM None
       else seqM (assertM (\<lambda>_. length (ANCHOR_TEMPLATE anchor_id) < ANCHOR_TEMPLATE_LENGTH))
         (returnM (Some (ANCHOR_TEMPLATE anchor_id))))"

subsection \<open>Serialization\<close>

text \<open>An alias event with a NULL anchor would be dereferenced by the emitter.\<close>

definition yaml_emitter_dump_alias :: "'w emitM \<Rightarrow> ystring option \<Rightarrow> ('w yaml_dumper, unit) prog" where
  "yaml_emitter_dump_alias emit anchor = (case anchor of
     None \<Rightarrow> faultM
   | Some a \<Rightarrow> emit_event emit (AliasEvent a))"

definition yaml_emitter_dump_scalar ::
    "'w emitM \<Rightarrow> yaml_node \<Rightarrow> ystring \<Rightarrow> yaml_scalar_style \<Rightarrow> ystring option \<Rightarrow> ('w yaml_dumper, unit) prog" where
  "yaml_emitter_dump_scalar emit node v style anchor =
     (let plain_implicit = streq (n_tag node) YAML_DEFAULT_SCALAR_TAG;
          quoted_implicit = streq (n_tag node) YAML_DEFAULT_SCALAR_TAG in
      emit_event emit (ScalarEvent anchor (Some (n_tag node)) v plain_implicit quoted_implicit style))"

definition yaml_emitter_dump_sequence ::
    "'w emitM \<Rightarrow> (int \<Rightarrow> ('w yaml_dumper, unit) prog) \<Rightarrow> yaml_node \<Rightarrow> int list \<Rightarrow> yaml_sequence_style \<Rightarrow> ystring option
     \<Rightarrow> ('w yaml_dumper, unit) prog" where
  "yaml_emitter_dump_sequence emit dump_node node sis style anchor =
     seqM (emit_event emit (SequenceStartEvent anchor (Some (n_tag node)) (streq (n_tag node) YAML_DEFAULT_SEQUENCE_TAG) style))
     (seqM (forM dump_node sis)
       (emit_event emit SequenceEndEvent))"

definition yaml_emitter_dump_mapping ::
    "'w emitM \<Rightarrow> (int \<Rightarrow> ('w yaml_dumper, unit) prog) \<Rightarrow> yaml_node \<Rightarrow> yaml_node_pair list \<Rightarrow> yaml_mapping_style \<Rightarrow> ystring option
     \<Rightarrow> ('w yaml_dumper, unit) prog" where
  "yaml_emitter_dump_mapping emit dump_node node pairs style anchor =
     seqM (emit_event emit (MappingStartEvent anchor (Some (n_tag node)) (streq (n_tag node) YAML_DEFAULT_MAPPING_TAG) style))
     (seqM (forM (\<lambda>p. seqM (dump_node (np_key p)) (dump_node (np_value p))) pairs)
       (emit_event emit MappingEndEvent))"

primrec yaml_emitter_dump_node :: "'w emitM \<Rightarrow> nat \<Rightarrow> int \<Rightarrow> ('w yaml_dumper, unit) prog" where
  "yaml_emitter_dump_node emit 0 = (\<lambda>index. faultM)"
| "yaml_emitter_dump_node emit (Suc fuel) = (\<lambda>index. with_node index (\<lambda>node a.
     bindM (if an_anchor a \<noteq> 0
       then bindM (yaml_emitter_generate_anchor (an_anchor a)) (\<lambda>x. case x of None \<Rightarrow> errorM id | Some y \<Rightarrow> returnM (Some y))
       else returnM None) (\<lambda>anchor.
     if an_serialized a then yaml_emitter_dump_alias emit anchor
     else seqM (modifyM (set_anchor index (\<lambda>a. a\<lparr>an_serialized := True\<rparr>)))
       (case n_data node of
          ScalarNode v style \<Rightarrow> yaml_emitter_dump_scalar emit node v style anchor
        | SequenceNode sis style \<Rightarrow> yaml_emitter_dump_sequence emit (yaml_emitter_dump_node emit fuel) node (elems sis) style anchor
        | MappingNode pairs style \<Rightarrow> yaml_emitter_dump_mapping emit (yaml_emitter_dump_node emit fuel) node (elems pairs) style anchor))))"

definition sizeof_anchors :: nat where
  "sizeof_anchors = 12"

text \<open>The table of anchors, zeroed; where it cannot be allocated no error is set.\<close>

definition new_anchors :: "nat \<Rightarrow> ('w yaml_dumper, unit) prog" where
  "new_anchors n = bindM (zoomM e_mem (\<lambda>h e. e\<lparr>e_mem := h\<rparr>) (yaml_malloc (sizeof_anchors * n))) (\<lambda>ok.
     if ok then modifyM (\<lambda>e. e\<lparr>e_anchors := Some (replicate n \<lparr>an_references = 0, an_anchor = 0, an_serialized = False\<rparr>)\<rparr>)
     else errorM id)"

text \<open>\<open>finallyM m c\<close>: the code \<open>c\<close> runs on both ways out of \<open>m\<close>.\<close>

definition finallyM :: "('s, unit) prog \<Rightarrow> ('s, unit) prog \<Rightarrow> ('s, unit) prog" where
  "finallyM m c s = (case m s of
     Return _ s' \<Rightarrow> c s'
   | Error s' \<Rightarrow> (case c s' of Return _ s'' \<Rightarrow> Error s'' | Error s'' \<Rightarrow> Error s'' | Fault \<Rightarrow> Fault)
   | Fault \<Rightarrow> Fault)"

definition dump_nodes :: "'w emitM \<Rightarrow> yaml_document \<Rightarrow> ('w yaml_dumper, unit) prog" where
  "dump_nodes emit document = (let n = length (doc_nodes document) in
     seqM (emit_event emit (DocumentStartEvent (d_version_directive document) (d_tag_directives document) (d_start_implicit document)))
     (seqM (yaml_emitter_anchor_node (Suc n) 1)
     (seqM (yaml_emitter_dump_node emit (Suc n) 1)
       (emit_event emit (DocumentEndEvent (d_end_implicit document))))))"

definition dump_document :: "'w emitM \<Rightarrow> yaml_document \<Rightarrow> ('w yaml_dumper, unit) prog" where
  "dump_document emit document =
     (if STACK_EMPTY (d_nodes document) then yaml_emitter_close emit
      else seqM (assertM e_opened)
        (seqM (new_anchors (length (doc_nodes document)))
          (dump_nodes emit document)))"

definition dump_body :: "'w emitM \<Rightarrow> yaml_document \<Rightarrow> ('w yaml_dumper, unit) prog" where
  "dump_body emit document =
     seqM (readM (\<lambda>e. if e_opened e then returnM () else yaml_emitter_open emit))
       (dump_document emit document)"

definition yaml_emitter_dump :: "'w emitM \<Rightarrow> yaml_document \<Rightarrow> ('w yaml_dumper, unit) prog" where
  "yaml_emitter_dump emit document =
     seqM (modifyM (\<lambda>e. e\<lparr>e_document := Some document\<rparr>))
       (finallyM (dump_body emit document) yaml_emitter_delete_document_and_anchors)"

end
