(* ===== verification/Dumper_Correct.thy ===== *)
theory Dumper_Correct
  imports Dumper Parser_Correct "HOL-Library.Sublist"
begin

text \<open>
  Correctness of the dumper.  Both passes over the document visit its nodes in the same order, which
  \<open>walk\<close> describes; a node gets an anchor exactly if it is visited twice, so that an alias never lacks
  its anchor.  The events are those of the reference function \<open>dump_events\<close>; the blocks of the document are
  either handed over with an event or freed.
\<close>

subsection \<open>The order of the visits\<close>

text \<open>The nodes that have been visited, a node once per visit; only the first visit goes on to the children.\<close>

primrec walk :: "nat \<Rightarrow> (int \<Rightarrow> int list) \<Rightarrow> int \<Rightarrow> int list \<Rightarrow> int list" where
  "walk 0 k = (\<lambda>i vs. vs @ [i])"
| "walk (Suc n) k = (\<lambda>i vs. if i \<in> set vs then vs @ [i] else fold (walk n k) (k i) (vs @ [i]))"

definition kids :: "yaml_document \<Rightarrow> int \<Rightarrow> int list" where
  "kids d i = children (node_at d i)"

lemma fold_prefix: "(\<And>x vs. prefix vs (f x vs)) \<Longrightarrow> prefix vs (fold f xs vs)"
proof (induction xs arbitrary: vs)
  case (Cons x xs)
  from prefix_order.trans [OF Cons.prems Cons.IH [OF Cons.prems]] show ?case by simp
qed simp

lemma walk_prefix: "prefix (vs @ [i]) (walk n k i vs)"
proof (induction n arbitrary: i vs)
  case (Suc n)
  have "prefix vs (walk n k x vs)" for x vs
    using append_prefixD [OF Suc [of vs x]] .
  then have "prefix (vs @ [i]) (fold (walk n k) (k i) (vs @ [i]))" by (rule fold_prefix)
  then show ?case by simp
qed simp

lemma prefix_set: "prefix xs ys \<Longrightarrow> set xs \<subseteq> set ys"
  by (auto simp: prefix_def)

text \<open>The nodes in the order of their second visit, and the number of the anchor.\<close>

fun twice_rev :: "int list \<Rightarrow> int list" where
  "twice_rev [] = []"
| "twice_rev (x # xs) = twice_rev xs @ (if count_list xs x = 1 then [x] else [])"

definition twice :: "int list \<Rightarrow> int list" where
  "twice vs = twice_rev (rev vs)"

lemma twice_simps [simp]:
  "twice [] = []" "twice (vs @ [i]) = twice vs @ (if count_list vs i = 1 then [i] else [])"
  by (simp_all add: twice_def)

lemma in_twice: "j \<in> set (twice vs) \<longleftrightarrow> 2 \<le> count_list vs j"
proof (induction vs rule: rev_induct)
  case (snoc i vs)
  have "count_list (vs @ [i]) j = count_list vs j + (if j = i then 1 else 0)" by simp
  with snoc show ?case by (cases "j = i") (simp_all del: count_list_append, linarith)
qed simp

lemma set_twice: "set (twice vs) = {i. 2 \<le> count_list vs i}"
  by (rule set_eqI) (simp add: in_twice)

lemma distinct_twice: "distinct (twice vs)"
  by (induction vs rule: rev_induct) (auto simp: set_twice)

definition anchor_no :: "int list \<Rightarrow> int \<Rightarrow> int" where
  "anchor_no vs i = (if i \<in> set (twice vs) then 1 + int (length (takeWhile (\<lambda>x. x \<noteq> i) (twice vs))) else 0)"

lemma anchor_no_snoc:
  "anchor_no (vs @ [i]) j = (if j = i \<and> count_list vs i = 1 then int (length (twice vs)) + 1 else anchor_no vs j)"
proof (cases "count_list vs i = 1")
  case True
  then have i: "i \<notin> set (twice vs)" by (simp add: set_twice)
  show ?thesis
  proof (cases "j \<in> set (twice vs)")
    case True
    with i have "j \<noteq> i" by blast
    with True \<open>count_list vs i = 1\<close> show ?thesis by (simp add: anchor_no_def)
  next
    case False
    then have "takeWhile (\<lambda>x. x \<noteq> j) (twice vs @ [j]) = twice vs" by (subst takeWhile_append2) auto
    with False \<open>count_list vs i = 1\<close> show ?thesis by (auto simp: anchor_no_def)
  qed
qed (simp add: anchor_no_def)

lemma anchor_no_pos: "anchor_no vs i \<noteq> 0 \<longleftrightarrow> 2 \<le> count_list vs i" "0 \<le> anchor_no vs i"
  by (auto simp: anchor_no_def set_twice)

lemma takeWhile_position:
  "i \<in> set xs \<Longrightarrow> length (takeWhile (\<lambda>x. x \<noteq> i) xs) < length xs \<and> xs ! length (takeWhile (\<lambda>x. x \<noteq> i) xs) = i"
  by (induction xs) auto

lemma anchor_no_inj: "anchor_no vs i = anchor_no vs j \<Longrightarrow> anchor_no vs i \<noteq> 0 \<Longrightarrow> i = j"
proof -
  assume "anchor_no vs i = anchor_no vs j" "anchor_no vs i \<noteq> 0"
  then have "i \<in> set (twice vs)" "j \<in> set (twice vs)"
      "length (takeWhile (\<lambda>x. x \<noteq> i) (twice vs)) = length (takeWhile (\<lambda>x. x \<noteq> j) (twice vs))"
    by (simp_all add: anchor_no_def split: if_splits)
  then show "i = j" by (metis takeWhile_position)
qed

lemma anchor_no_le: "anchor_no vs i \<le> int (length (twice vs))"
proof (cases "i \<in> set (twice vs)")
  case True
  from takeWhile_position [OF this] show ?thesis by (simp add: anchor_no_def)
qed (simp add: anchor_no_def)

subsection \<open>The first pass\<close>

definition marked :: "nat \<Rightarrow> 'w yaml_dumper \<Rightarrow> int list \<Rightarrow> 'w yaml_dumper" where
  "marked N e vs = e\<lparr>e_anchors := Some (map (\<lambda>j. \<lparr>an_references = int (count_list vs (int j + 1)),
     an_anchor = anchor_no vs (int j + 1), an_serialized = False\<rparr>) [0..<N]), e_last_anchor_id := int (length (twice vs))\<rparr>"

definition unseen :: "yaml_document \<Rightarrow> int list \<Rightarrow> int set" where
  "unseen d vs = {i. valid_id d i} - set vs"

lemma finite_ids [simp]: "finite {i. valid_id d i}"
  by (rule finite_subset [of _ "{0..int (length (doc_nodes d))}"]) (auto simp: valid_id_def)

lemma unseen_visit: "valid_id d i \<Longrightarrow> i \<notin> set vs \<Longrightarrow> card (unseen d (vs @ [i])) < card (unseen d vs)"
  by (rule psubset_card_mono) (auto simp: unseen_def)

lemma unseen_mono: "prefix vs ws \<Longrightarrow> card (unseen d ws) \<le> card (unseen d vs)"
  by (rule card_mono) (auto simp: unseen_def dest: prefix_set)

lemma kids_valid: "doc_ok d \<Longrightarrow> valid_id d i \<Longrightarrow> x \<in> set (kids d i) \<Longrightarrow> valid_id d x"
proof -
  assume d: "doc_ok d" and i: "valid_id d i" and x: "x \<in> set (kids d i)"
  have "node_at d i \<in> set (doc_nodes d)" using i by (auto simp: node_at_def valid_id_def)
  then have "data_ok (length (doc_nodes d)) (n_data (node_at d i))" using d by (simp add: doc_ok_def)
  with x show "valid_id d x"
    by (auto simp: kids_def children_def valid_id_def split: yaml_node_data.splits)
qed

lemma forM_run:
  assumes "\<And>x vs'. x \<in> set xs \<Longrightarrow> prefix vs vs' \<Longrightarrow> f x (st vs') = Return () (st (g x vs')) \<and> prefix vs' (g x vs')"
  shows "forM f xs (st vs) = Return () (st (fold g xs vs))"
  using assms
proof (induction xs arbitrary: vs)
  case (Cons x xs)
  have x: "f x (st vs) = Return () (st (g x vs))" "prefix vs (g x vs)" using Cons.prems [of x vs] by auto
  have "forM f xs (st (g x vs)) = Return () (st (fold g xs (g x vs)))"
    by (rule Cons.IH) (use Cons.prems prefix_order.trans [OF x(2)] in simp)
  with x show ?case by (simp add: seqM_def bindM_def)
qed (simp add: returnM_def)

lemma anchor_node_run:
  assumes "doc_ok d" "e_document e = Some d" "valid_id d i" "card (unseen d vs) < n"
  shows "yaml_emitter_anchor_node n i (marked (length (doc_nodes d)) e vs)
     = Return () (marked (length (doc_nodes d)) e (walk n (kids d) i vs))"
  using assms(3,4)
proof (induction n arbitrary: i vs)
  case (Suc n)
  let ?N = "length (doc_nodes d)" and ?k = "nat (i - 1)"
  let ?inc = "set_anchor i (\<lambda>a. a\<lparr>an_references := an_references a + 1\<rparr>)"
  have i: "?k < ?N" "int ?k + 1 = i" using Suc.prems(1) by (auto simp: valid_id_def)
  have node: "with_node i f (marked ?N e vs) = f (node_at d i)
      \<lparr>an_references = int (count_list vs i), an_anchor = anchor_no vs i, an_serialized = False\<rparr> (marked ?N e vs)" for f
    using assms(2) Suc.prems(1) i by (simp add: with_node_def readM_def marked_def)
  have *: "(map f [0..<?N])[?k := y] = map (\<lambda>j. if int j + 1 = i then y else f j) [0..<?N]" for f :: "nat \<Rightarrow> yaml_anchors" and y
    by (rule nth_equalityI) (use i in \<open>auto simp: nth_list_update\<close>)
  have inc: "?inc (marked ?N e vs) = marked ?N e (vs @ [i])" if "count_list vs i \<noteq> 1"
    using i that by (auto simp: set_anchor_def marked_def * anchor_no_snoc)
  have inc2: "(let e1 = (?inc (marked ?N e vs))\<lparr>e_last_anchor_id := int (length (twice vs)) + 1\<rparr> in
      set_anchor i (\<lambda>a. a\<lparr>an_anchor := e_last_anchor_id e1\<rparr>) e1) = marked ?N e (vs @ [i])" if "count_list vs i = 1"
    using i that by (auto simp: set_anchor_def marked_def * anchor_no_snoc Let_def)
  show ?case
  proof (cases "i \<in> set vs")
    case False
    then have c: "count_list vs i = 0" by (simp add: count_list_0_iff)
    have "forM (yaml_emitter_anchor_node n) (kids d i) (marked ?N e (vs @ [i]))
        = Return () (marked ?N e (fold (walk n (kids d)) (kids d i) (vs @ [i])))"
    proof (rule forM_run, intro conjI)
      fix x vs'
      assume x: "x \<in> set (kids d i)" and vs': "prefix (vs @ [i]) vs'"
      show "prefix vs' (walk n (kids d) x vs')" by (meson prefix_order.trans prefixI walk_prefix)
      have "card (unseen d vs') < n"
        using unseen_mono [OF vs', of d] unseen_visit [OF Suc.prems(1) False] Suc.prems(2) by simp
      then show "yaml_emitter_anchor_node n x (marked ?N e vs') = Return () (marked ?N e (walk n (kids d) x vs'))"
        using Suc.IH kids_valid [OF assms(1) Suc.prems(1) x] by blast
    qed
    then show ?thesis using False c inc by (simp add: node seqM_def bindM_def modifyM_def kids_def [of d i, symmetric])
  next
    case True
    then have c: "count_list vs i \<noteq> 0" by (simp add: count_list_0_iff)
    have id: "e_last_anchor_id (?inc (marked ?N e vs)) = int (length (twice vs))" by (simp add: set_anchor_def marked_def)
    show ?thesis using True c inc inc2
      by (cases "count_list vs i = 1") (simp_all add: node seqM_def bindM_def modifyM_def returnM_def Let_def id)
  qed
qed simp

subsection \<open>Anchor names\<close>

definition undecimal :: "ystring \<Rightarrow> nat" where
  "undecimal ds = foldl (\<lambda>a b. 10 * a + (unat b - 48)) 0 ds"

lemma unat_digit: "n < 10 \<Longrightarrow> unat (digit n) = 48 + n"
  unfolding digit_def unat_of_nat by simp

lemma undecimal_decimal: "undecimal (decimal n) = n"
proof (induction n rule: decimal.induct)
  case (1 n)
  then show ?case by (subst decimal.simps) (auto simp: undecimal_def unat_digit)
qed

lemma undecimal_zeros: "undecimal (replicate k 0x30 @ ds) = undecimal ds"
  by (induction k) (simp_all add: undecimal_def)

lemma undecimal_anchor: "0 \<le> n \<Longrightarrow> undecimal (drop 2 (ANCHOR_TEMPLATE n)) = nat n"
  by (simp add: ANCHOR_TEMPLATE_def lit_def undecimal_zeros undecimal_decimal Let_def)

lemma anchor_template_inj: "ANCHOR_TEMPLATE m = ANCHOR_TEMPLATE n \<Longrightarrow> 0 \<le> m \<Longrightarrow> 0 \<le> n \<Longrightarrow> m = n"
  using undecimal_anchor [of m] undecimal_anchor [of n] by simp

lemma length_decimal: "n < 10 ^ Suc k \<Longrightarrow> length (decimal n) \<le> Suc k"
proof (induction k arbitrary: n)
  case 0
  then show ?case by (subst decimal.simps) simp
next
  case (Suc k)
  have "n div 10 < 10 ^ Suc k" using Suc.prems by (simp add: less_mult_imp_div_less)
  from Suc.IH [OF this] show ?case by (subst decimal.simps) simp
qed

lemma length_anchor: "0 \<le> n \<Longrightarrow> n \<le> int INT_MAX \<Longrightarrow> length (ANCHOR_TEMPLATE n) < ANCHOR_TEMPLATE_LENGTH"
proof -
  assume n: "0 \<le> n" "n \<le> int INT_MAX"
  then have "nat n < 10 ^ Suc 9" by (simp add: INT_MAX_def)
  from length_decimal [OF this] n show ?thesis
    by (simp add: ANCHOR_TEMPLATE_def lit_def ANCHOR_TEMPLATE_LENGTH_def Let_def)
qed

lemma decimal_digits: "b \<in> set (decimal n) \<Longrightarrow> b \<noteq> 0"
proof (induction n rule: decimal.induct)
  case (1 n)
  have "digit m \<noteq> 0" if "m < 10" for m using unat_digit [OF that] by auto
  with 1 show ?case by (subst (asm) decimal.simps) (auto split: if_splits)
qed

lemma c_str_anchor: "0 \<le> n \<Longrightarrow> c_str (ANCHOR_TEMPLATE n) = ANCHOR_TEMPLATE n"
  by (auto simp: c_str_def takeWhile_eq_all_conv ANCHOR_TEMPLATE_def lit_def Let_def dest: decimal_digits)

definition anchor_name :: "int list \<Rightarrow> int \<Rightarrow> ystring option" where
  "anchor_name vs i = (if anchor_no vs i = 0 then None else Some (ANCHOR_TEMPLATE (anchor_no vs i)))"

subsection \<open>The events of a document\<close>

fun dump_list :: "(int \<Rightarrow> int list \<Rightarrow> 'e list) \<Rightarrow> (int \<Rightarrow> int list \<Rightarrow> int list) \<Rightarrow> int list \<Rightarrow> int list \<Rightarrow> 'e list" where
  "dump_list f w [] vs = []"
| "dump_list f w (x # xs) vs = f x vs @ dump_list f w xs (w x vs)"

primrec dump_events :: "nat \<Rightarrow> yaml_document \<Rightarrow> (int \<Rightarrow> ystring option) \<Rightarrow> int \<Rightarrow> int list \<Rightarrow> yaml_event_data list" where
  "dump_events 0 d a = (\<lambda>i vs. [])"
| "dump_events (Suc n) d a = (\<lambda>i vs. if i \<in> set vs then [AliasEvent (the (a i))] else
     let tag = n_tag (node_at d i);
         inner = dump_list (dump_events n d a) (walk n (kids d)) (kids d i) (vs @ [i]) in
     (case n_data (node_at d i) of
        ScalarNode v style \<Rightarrow> [ScalarEvent (a i) (Some tag) v (streq tag YAML_DEFAULT_SCALAR_TAG) (streq tag YAML_DEFAULT_SCALAR_TAG) style]
      | SequenceNode _ style \<Rightarrow> SequenceStartEvent (a i) (Some tag) (streq tag YAML_DEFAULT_SEQUENCE_TAG) style # inner @ [SequenceEndEvent]
      | MappingNode _ style \<Rightarrow> MappingStartEvent (a i) (Some tag) (streq tag YAML_DEFAULT_MAPPING_TAG) style # inner @ [MappingEndEvent]))"

subsection \<open>The contract of the emitter\<close>

text \<open>
  What the dumper relies on in \<open>yaml_emitter_emit\<close>: it takes over the blocks of the event, whether it
  succeeds or not, and otherwise loses none.
\<close>

definition core_blocks :: "'w yaml_emitter \<Rightarrow> int" where
  "core_blocks e = block_if (b_cap (e_buffer e)) + block_if (b_cap (e_raw_buffer e))
     + block_if (qcap (e_events e)) + sum_list (map event_blocks (items (e_events e)))
     + block_if (cap (e_states e)) + block_if (cap (e_indents e)) + block_if (cap (e_tag_directives e))
     + 2 * int (length (elems (e_tag_directives e)))"

definition ebalance :: "'w yaml_emitter \<Rightarrow> int" where
  "ebalance e = live (e_mem e) - core_blocks e"

definition emit_contract :: "'w emitM \<Rightarrow> ('w yaml_emitter \<Rightarrow> bool) \<Rightarrow> bool" where
  "emit_contract emit J \<longleftrightarrow>
     (\<forall>e ev. J e \<longrightarrow> event_utf8 (ev_data ev) \<longrightarrow> wp (emit ev) (\<lambda>_ e'. J e' \<and> ebalance e' = ebalance e - event_blocks ev)
        (\<lambda>e'. ebalance e' = ebalance e - event_blocks ev) e)
     \<and> (\<forall>e h. J (e\<lparr>e_mem := h\<rparr>) = J e)"

inductive emits :: "'w emitM \<Rightarrow> 'w yaml_emitter \<Rightarrow> yaml_event_data list \<Rightarrow> 'w yaml_emitter \<Rightarrow> bool" for emit where
  emits_Nil: "emits emit e [] (e\<lparr>e_mem := h\<rparr>)"
| emits_Cons: "event_utf8 x \<Longrightarrow> emit (EVENT_INIT x null_mark null_mark) (e\<lparr>e_mem := h\<rparr>) = Return () e1 \<Longrightarrow> emits emit e1 xs e2
    \<Longrightarrow> emits emit e (x # xs) e2"

lemma emits_mem: "emits emit (e\<lparr>e_mem := h\<rparr>) xs e' \<Longrightarrow> emits emit e xs e'"
  by (erule emits.cases) (auto intro: emits_Nil emits_Cons)

lemma emits_append: "emits emit e xs e1 \<Longrightarrow> emits emit e1 ys e2 \<Longrightarrow> emits emit e (xs @ ys) e2"
  by (induction rule: emits.induct) (auto intro: emits_mem emits_Cons)

subsection \<open>The second pass\<close>

text \<open>The table in the second pass: \<open>A\<close> are the visits of the first pass, \<open>ws\<close> those of the second one so far.\<close>

definition dump_table :: "nat \<Rightarrow> int list \<Rightarrow> int list \<Rightarrow> yaml_anchors list" where
  "dump_table N A ws = map (\<lambda>j. \<lparr>an_references = int (count_list A (int j + 1)),
     an_anchor = anchor_no A (int j + 1), an_serialized = (int j + 1 \<in> set ws)\<rparr>) [0..<N]"

text \<open>The strings of a node are handed over with its event.\<close>

definition string_part :: "yaml_node \<Rightarrow> int" where
  "string_part n = (case n_data n of ScalarNode _ _ \<Rightarrow> 2 | _ \<Rightarrow> 1)"

definition owned :: "yaml_document \<Rightarrow> int list \<Rightarrow> int" where
  "owned d ws = (\<Sum>j\<in>unseen d ws. string_part (node_at d j))"

definition dumping ::
    "('w yaml_emitter \<Rightarrow> bool) \<Rightarrow> yaml_document \<Rightarrow> int list \<Rightarrow> int \<Rightarrow> int list \<Rightarrow> 'w yaml_dumper \<Rightarrow> bool" where
  "dumping J d A b ws e \<longleftrightarrow> e_document e = Some d \<and> e_anchors e = Some (dump_table (length (doc_nodes d)) A ws)
     \<and> J (yaml_emitter.truncate e) \<and> ebalance (yaml_emitter.truncate e) = b + owned d ws"

definition dumped ::
    "'w emitM \<Rightarrow> ('w yaml_emitter \<Rightarrow> bool) \<Rightarrow> yaml_document \<Rightarrow> int list \<Rightarrow> int \<Rightarrow> int list \<Rightarrow> yaml_event_data list
     \<Rightarrow> 'w yaml_dumper \<Rightarrow> 'w yaml_dumper \<Rightarrow> bool" where
  "dumped emit J d A b ws xs e e' \<longleftrightarrow> dumping J d A b ws e' \<and> emits emit (yaml_emitter.truncate e) xs (yaml_emitter.truncate e')
     \<and> e_opened e' = e_opened e \<and> e_closed e' = e_closed e \<and> e_last_anchor_id e' = e_last_anchor_id e"

definition dump_failed :: "yaml_document \<Rightarrow> int list \<Rightarrow> int \<Rightarrow> 'w yaml_dumper \<Rightarrow> bool" where
  "dump_failed d A b e \<longleftrightarrow> (\<exists>ws. e_document e = Some d \<and> e_anchors e = Some (dump_table (length (doc_nodes d)) A ws)
     \<and> ebalance (yaml_emitter.truncate e) = b + owned d ws)"

lemma dumper_simps [simp]:
  fixes t :: "'w yaml_emitter" and e :: "'w yaml_dumper"
  shows "yaml_emitter.truncate (yaml_emitter.extend t (yaml_emitter.more e)) = t"
    "e_document (yaml_emitter.extend t (yaml_emitter.more e)) = e_document e"
    "e_anchors (yaml_emitter.extend t (yaml_emitter.more e)) = e_anchors e"
    "e_opened (yaml_emitter.extend t (yaml_emitter.more e)) = e_opened e"
    "e_closed (yaml_emitter.extend t (yaml_emitter.more e)) = e_closed e"
    "e_last_anchor_id (yaml_emitter.extend t (yaml_emitter.more e)) = e_last_anchor_id e"
    "e_error (yaml_emitter.extend t (yaml_emitter.more e)) = e_error t"
    "yaml_emitter.truncate (e\<lparr>e_mem := h\<rparr>) = (yaml_emitter.truncate e)\<lparr>e_mem := h\<rparr>"
    "yaml_emitter.truncate (e\<lparr>e_anchors := x1\<rparr>) = yaml_emitter.truncate e"
    "yaml_emitter.truncate (e\<lparr>e_document := x2\<rparr>) = yaml_emitter.truncate e"
    "yaml_emitter.truncate (e\<lparr>e_opened := x3\<rparr>) = yaml_emitter.truncate e"
    "yaml_emitter.truncate (e\<lparr>e_closed := x3\<rparr>) = yaml_emitter.truncate e"
    "yaml_emitter.truncate (e\<lparr>e_last_anchor_id := x4\<rparr>) = yaml_emitter.truncate e"
    "e_mem (yaml_emitter.truncate e) = e_mem e" "e_error (yaml_emitter.truncate e) = e_error e"
  by (cases e; simp add: yaml_emitter.extend_def yaml_emitter.truncate_def)+

lemma core_blocks_mem [simp]: "core_blocks (t\<lparr>e_mem := h\<rparr>) = core_blocks t"
  by (simp add: core_blocks_def)

lemma wp_emit_event:
  "wp (emit_event emit x) Q E e = wp (emit (EVENT_INIT x null_mark null_mark))
     (\<lambda>_ t. Q () (yaml_emitter.extend t (yaml_emitter.more e))) (\<lambda>t. E (yaml_emitter.extend t (yaml_emitter.more e)))
     (yaml_emitter.truncate e)"
  by (simp add: emit_event_def wp_simps)

lemma emit_contractD:
  assumes "emit_contract emit J" "J t" and x: "event_utf8 x"
  shows "wp (emit (EVENT_INIT x null_mark null_mark)) (\<lambda>_ t'. J t' \<and> ebalance t' = ebalance t - event_data_blocks x
       \<and> emits emit t [x] t') (\<lambda>t'. ebalance t' = ebalance t - event_data_blocks x) t"
proof -
  have "emits emit t [x] t'" if "emit (EVENT_INIT x null_mark null_mark) t = Return () t'" for t'
    using emits_Cons [OF x, of emit "e_mem t" t t' "[]" "t'"] emits_Nil [of emit t' "e_mem t'"] that by simp
  moreover have "event_blocks (EVENT_INIT x null_mark null_mark) = event_data_blocks x" "event_utf8 (ev_data (EVENT_INIT x null_mark null_mark))"
    using x by (simp_all add: event_blocks_def EVENT_INIT_def)
  moreover have "wp (emit (EVENT_INIT x null_mark null_mark))
      (\<lambda>_ e'. J e' \<and> ebalance e' = ebalance t - event_blocks (EVENT_INIT x null_mark null_mark))
      (\<lambda>e'. ebalance e' = ebalance t - event_blocks (EVENT_INIT x null_mark null_mark)) t"
    using assms(1,2) x unfolding emit_contract_def by (simp add: EVENT_INIT_def)
  ultimately show ?thesis by (auto elim!: wp_mono)
qed

lemma wp_emit_dumping:
  assumes C: "emit_contract emit J" and D: "dumping J d A (b + event_data_blocks x) ws e" and x: "event_utf8 x"
  shows "wp (emit_event emit x) (\<lambda>_. dumped emit J d A b ws [x] e) (dump_failed d A b) e"
  unfolding wp_emit_event
  by (rule wp_mono [OF emit_contractD [OF C _ x, of "yaml_emitter.truncate e"]])
    (use D in \<open>auto simp: dumping_def dumped_def dump_failed_def\<close>)

lemma emits_self: "emits emit t [] t"
  using emits_Nil [of emit t "e_mem t"] by simp

lemma dumped_trans:
  "dumped emit J d A b1 ws1 xs e e1 \<Longrightarrow> dumped emit J d A b ws ys e1 e2 \<Longrightarrow> dumped emit J d A b ws (xs @ ys) e e2"
  by (auto simp: dumped_def intro: emits_append)

text \<open>Visiting the children.\<close>

lemma wp_forM_dump:
  assumes f: "\<And>x vs' e'. x \<in> set xs \<Longrightarrow> prefix vs vs' \<Longrightarrow> prefix (w x vs') A \<Longrightarrow> dumping J d A b vs' e'
      \<Longrightarrow> wp (f x) (\<lambda>_. dumped emit J d A b (w x vs') (ev x vs') e') (dump_failed d A b) e'"
    and w: "\<And>x vs. prefix vs (w x vs)" and "prefix (fold w xs vs) A" "dumping J d A b vs e"
  shows "wp (forM f xs) (\<lambda>_. dumped emit J d A b (fold w xs vs) (dump_list ev w xs vs) e) (dump_failed d A b) e"
  using f assms(3,4)
proof (induction xs arbitrary: vs e)
  case Nil
  then show ?case by (simp add: wp_simps dumped_def emits_self)
next
  case (Cons x xs)
  have A: "prefix (w x vs) A" using Cons.prems(2) fold_prefix [of w, OF w, of "w x vs" xs] by (auto intro: prefix_order.trans)
  show ?case unfolding forM.simps wp_seqM
  proof (rule wp_mono [OF Cons.prems(1) [OF _ _ A Cons.prems(3)]])
    fix u e1
    assume e1: "dumped emit J d A b (w x vs) (ev x vs) e e1"
    have "wp (forM f xs) (\<lambda>_. dumped emit J d A b (fold w xs (w x vs)) (dump_list ev w xs (w x vs)) e1) (dump_failed d A b) e1"
    proof (rule Cons.IH)
      fix y vs' e'
      assume "y \<in> set xs" "prefix (w x vs) vs'" "prefix (w y vs') A" "dumping J d A b vs' e'"
      then show "wp (f y) (\<lambda>_. dumped emit J d A b (w y vs') (ev y vs') e') (dump_failed d A b) e'"
        using prefix_order.trans [OF w [of vs x]] by (intro Cons.prems(1)) auto
    qed (use Cons.prems(2) e1 in \<open>auto simp: dumped_def\<close>)
    then show "wp (forM f xs) (\<lambda>_. dumped emit J d A b (fold w (x # xs) vs) (dump_list ev w (x # xs) vs) e) (dump_failed d A b) e1"
      by (rule wp_mono) (auto intro: dumped_trans [OF e1])
  qed simp_all
qed

lemma seqM_assoc: "seqM (seqM m n) l = seqM m (seqM n l)"
  by (rule ext) (simp add: seqM_def bindM_def split: result.split)

lemma forM_pairs: "forM (\<lambda>p. seqM (f (a p)) (f (b p))) ps = forM f (concat (map (\<lambda>p. [a p, b p]) ps))"
  by (induction ps) (simp_all add: seqM_assoc)

text \<open>One visit: the anchor, the flag, and the event.\<close>

lemma card_ids: "card {i. valid_id d i} = length (doc_nodes d)"
proof -
  have "{i. valid_id d i} = {0<..int (length (doc_nodes d))}" by (auto simp: valid_id_def)
  then show ?thesis by simp
qed

lemma anchor_no_bound:
  assumes "\<forall>x\<in>set A. valid_id d x" shows "anchor_no A i \<le> int (length (doc_nodes d))"
proof -
  have "set (twice A) \<subseteq> {i. valid_id d i}"
    using assms by (auto simp: set_twice)
  then have "length (twice A) \<le> length (doc_nodes d)"
    using distinct_card [OF distinct_twice, of A] card_mono [of "{i. valid_id d i}" "set (twice A)"] by (simp add: card_ids)
  then show ?thesis using anchor_no_le [of A i] by linarith
qed

lemma wp_make_anchor:
  assumes A: "\<forall>x\<in>set A. valid_id d x" "length (doc_nodes d) \<le> INT_MAX" and D: "dumping J d A b ws e"
    and J: "emit_contract emit J" and a: "an_anchor a = anchor_no A i"
  shows "wp (if an_anchor a \<noteq> 0
       then bindM (yaml_emitter_generate_anchor (an_anchor a)) (\<lambda>x. case x of None \<Rightarrow> errorM id | Some y \<Rightarrow> returnM (Some y))
       else returnM None)
     (\<lambda>x e'. x = anchor_name A i \<and> dumped emit J d A (b + string_blocks x) ws [] e e') (dump_failed d A b) e"
proof -
  have mem: "dumping J d A (b + k) ws (e\<lparr>e_mem := h\<rparr>) \<and> emits emit (yaml_emitter.truncate e) [] ((yaml_emitter.truncate e)\<lparr>e_mem := h\<rparr>)"
    if "live h = live (e_mem e) + k" for h k
    using D J that by (auto simp: dumping_def ebalance_def emit_contract_def intro: emits_Nil)
  have "length (ANCHOR_TEMPLATE (anchor_no A i)) < ANCHOR_TEMPLATE_LENGTH"
    by (rule length_anchor) (use anchor_no_pos [of A i] anchor_no_bound [OF A(1), of i] A(2) in auto)
  with D show ?thesis unfolding a
    by (auto simp: yaml_emitter_generate_anchor_def wp_simps ANCHOR_TEMPLATE_LENGTH_def anchor_name_def dumped_def emits_self
        dump_failed_def mem [of _ 1] mem [of _ 0, simplified] split: prod.split)
      (auto simp: dumping_def ebalance_def)
qed

lemma dump_table_nth: "valid_id d i \<Longrightarrow> nat (i - 1) < length (dump_table (length (doc_nodes d)) A ws)
    \<and> dump_table (length (doc_nodes d)) A ws ! nat (i - 1) = \<lparr>an_references = int (count_list A i),
     an_anchor = anchor_no A i, an_serialized = (i \<in> set ws)\<rparr>"
  by (auto simp: dump_table_def valid_id_def)

lemma owned_visit: "valid_id d i \<Longrightarrow> i \<notin> set ws \<Longrightarrow> owned d ws = owned d (ws @ [i]) + string_part (node_at d i)"
proof -
  assume i: "valid_id d i" "i \<notin> set ws"
  then have u: "unseen d ws = insert i (unseen d (ws @ [i]))" "i \<notin> unseen d (ws @ [i])" by (auto simp: unseen_def)
  have "finite (unseen d (ws @ [i]))" by (simp add: unseen_def)
  with u show "owned d ws = owned d (ws @ [i]) + string_part (node_at d i)" by (simp add: owned_def)
qed

lemma owned_again: "i \<in> set ws \<Longrightarrow> owned d (ws @ [i]) = owned d ws"
  "i \<in> set ws \<Longrightarrow> dump_table N A (ws @ [i]) = dump_table N A ws"
  by (simp_all add: owned_def unseen_def insert_absorb dump_table_def)

lemma dumping_visit:
  assumes "dumping J d A b ws e" "valid_id d i" "i \<notin> set ws"
  shows "dumped emit J d A (b + string_part (node_at d i)) (ws @ [i]) [] e (set_anchor i (\<lambda>a. a\<lparr>an_serialized := True\<rparr>) e)"
proof -
  let ?N = "length (doc_nodes d)"
  have "(dump_table ?N A ws)[nat (i - 1) := (dump_table ?N A ws ! nat (i - 1))\<lparr>an_serialized := True\<rparr>] = dump_table ?N A (ws @ [i])"
    by (rule nth_equalityI) (use assms(2) in \<open>auto simp: dump_table_def nth_list_update valid_id_def\<close>)
  then show ?thesis using assms owned_visit [OF assms(2,3)]
    by (simp add: dumped_def dumping_def set_anchor_def emits_self)
qed

lemma with_node_dumping:
  assumes "dumping J d A b ws e" "valid_id d i"
  shows "with_node i f e = f (node_at d i) \<lparr>an_references = int (count_list A i), an_anchor = anchor_no A i,
     an_serialized = (i \<in> set ws)\<rparr> e"
  using assms dump_table_nth [OF assms(2), of A ws] by (simp add: with_node_def readM_def dumping_def)

text \<open>The strings of a document are valid UTF-8, and so are those of its events.\<close>

definition doc_utf8 :: "yaml_document \<Rightarrow> bool" where
  "doc_utf8 d \<longleftrightarrow> (\<forall>n\<in>set (doc_nodes d). yaml_check_utf8 (n_tag n) \<and> (case n_data n of ScalarNode v _ \<Rightarrow> yaml_check_utf8 v | _ \<Rightarrow> True))
     \<and> (\<forall>td\<in>set (d_tag_directives d). td_utf8 td)"

lemma digit_ascii: "n < 10 \<Longrightarrow> digit n \<le> 0x7F"
  by (simp add: digit_def numeral_eq_Suc less_Suc_eq) auto

lemma decimal_ascii: "b \<in> set (decimal n) \<Longrightarrow> b \<le> 0x7F"
proof (induction n rule: decimal.induct)
  case (1 n)
  from "1.prems" have "b \<in> set (if n < 10 then [digit n] else decimal (n div 10) @ [digit (n mod 10)])" by (subst (asm) decimal.simps)
  with "1.IH" show ?case by (auto simp: digit_ascii split: if_splits)
qed

lemma anchor_utf8: "utf8_opt (anchor_name A i)"
proof -
  have "yaml_check_utf8 (ANCHOR_TEMPLATE n)" for n
    by (rule check_utf8_ascii) (auto simp: ANCHOR_TEMPLATE_def Let_def lit_def dest: decimal_ascii)
  then show ?thesis by (simp add: utf8_opt_def anchor_name_def)
qed

lemma event_utf8_alias: "anchor_name A i = Some y \<Longrightarrow> event_utf8 (AliasEvent y)"
  using anchor_utf8 [of A i] by (simp add: utf8_opt_def)

lemma event_utf8_node:
  assumes "doc_utf8 d" "valid_id d i"
  shows "n_data (node_at d i) = ScalarNode v y \<Longrightarrow> event_utf8 (ScalarEvent (anchor_name A i) (Some (n_tag (node_at d i))) v p q y)"
    "event_utf8 (SequenceStartEvent (anchor_name A i) (Some (n_tag (node_at d i))) b sy)" "event_utf8 SequenceEndEvent"
    "event_utf8 (MappingStartEvent (anchor_name A i) (Some (n_tag (node_at d i))) b my)" "event_utf8 MappingEndEvent"
proof -
  have "node_at d i \<in> set (doc_nodes d)" using assms(2) by (auto simp: node_at_def valid_id_def)
  with assms(1) have u: "yaml_check_utf8 (n_tag (node_at d i))" "n_data (node_at d i) = ScalarNode v y \<Longrightarrow> yaml_check_utf8 v"
    by (auto simp: doc_utf8_def)
  then show "n_data (node_at d i) = ScalarNode v y \<Longrightarrow> event_utf8 (ScalarEvent (anchor_name A i) (Some (n_tag (node_at d i))) v p q y)"
    "event_utf8 (SequenceStartEvent (anchor_name A i) (Some (n_tag (node_at d i))) b sy)" "event_utf8 SequenceEndEvent"
    "event_utf8 (MappingStartEvent (anchor_name A i) (Some (n_tag (node_at d i))) b my)" "event_utf8 MappingEndEvent"
    using anchor_utf8 [of A i] by (simp_all add: utf8_opt_def)
qed

lemma event_utf8_end: "event_utf8 (DocumentEndEvent b)"
  by simp

lemma event_utf8_doc: "doc_utf8 d \<Longrightarrow> event_utf8 (DocumentStartEvent vd (d_tag_directives d) b)"
  by (simp add: doc_utf8_def)

lemma count_list_prefix: "prefix xs ys \<Longrightarrow> count_list xs i \<le> count_list ys i"
  by (auto simp: prefix_def)

lemma wp_dump_collection:
  assumes C: "emit_contract emit J" and D: "dumping J d A (b + event_data_blocks x) vs e" and y: "event_data_blocks y = 0"
    and u: "event_utf8 x" "event_utf8 y"
    and f: "\<And>x vs' e'. x \<in> set xs \<Longrightarrow> prefix vs vs' \<Longrightarrow> prefix (w x vs') A \<Longrightarrow> dumping J d A b vs' e'
      \<Longrightarrow> wp (f x) (\<lambda>_. dumped emit J d A b (w x vs') (ev x vs') e') (dump_failed d A b) e'"
    and w: "\<And>x vs. prefix vs (w x vs)" and A: "prefix (fold w xs vs) A"
  shows "wp (seqM (emit_event emit x) (seqM (forM f xs) (emit_event emit y)))
    (\<lambda>_. dumped emit J d A b (fold w xs vs) (x # dump_list ev w xs vs @ [y]) e) (dump_failed d A b) e"
  unfolding wp_seqM
proof (rule wp_mono [OF wp_emit_dumping [OF C D u(1)]])
  fix u e1
  assume e1: "dumped emit J d A b vs [x] e e1"
  then have "dumping J d A b vs e1" by (simp add: dumped_def)
  note inner = wp_forM_dump [where emit = emit and f = f and w = w and ev = ev, OF f w A this]
  show "wp (forM f xs) (\<lambda>_. wp (emit_event emit y)
      (\<lambda>_. dumped emit J d A b (fold w xs vs) (x # dump_list ev w xs vs @ [y]) e) (dump_failed d A b)) (dump_failed d A b) e1"
  proof (rule wp_mono [OF inner])
    fix u e2
    assume e2: "dumped emit J d A b (fold w xs vs) (dump_list ev w xs vs) e1 e2"
    then have "dumping J d A (b + event_data_blocks y) (fold w xs vs) e2" using y by (simp add: dumped_def)
    from wp_emit_dumping [OF C this u(2)] show "wp (emit_event emit y)
        (\<lambda>_. dumped emit J d A b (fold w xs vs) (x # dump_list ev w xs vs @ [y]) e) (dump_failed d A b) e2"
      by (rule wp_mono) (use dumped_trans [OF dumped_trans [OF e1 e2]] in auto)
  qed
qed

lemma wp_dump_node:
  assumes C: "emit_contract emit J" and d: "doc_ok d" "length (doc_nodes d) \<le> INT_MAX" and U: "doc_utf8 d" and A: "\<forall>x\<in>set A. valid_id d x"
    and "valid_id d i" "card (unseen d ws) < n" "prefix (walk n (kids d) i ws) A" "dumping J d A b ws e"
  shows "wp (yaml_emitter_dump_node emit n i)
    (\<lambda>_. dumped emit J d A b (walk n (kids d) i ws) (dump_events n d (anchor_name A) i ws) e) (dump_failed d A b) e"
  using assms(6-9)
proof (induction n arbitrary: i ws b e)
  case (Suc n)
  let ?x = "anchor_name A i" and ?node = "node_at d i"
  let ?a = "\<lparr>an_references = int (count_list A i), an_anchor = anchor_no A i, an_serialized = (i \<in> set ws)\<rparr>"
  note mk = wp_make_anchor [OF A d(2) Suc.prems(4) C, of ?a i]
  have cont: "wp (if i \<in> set ws then yaml_emitter_dump_alias emit ?x
     else seqM (modifyM (set_anchor i (\<lambda>a. a\<lparr>an_serialized := True\<rparr>)))
       (case n_data ?node of
          ScalarNode v style \<Rightarrow> yaml_emitter_dump_scalar emit ?node v style ?x
        | SequenceNode sis style \<Rightarrow> yaml_emitter_dump_sequence emit (yaml_emitter_dump_node emit n) ?node (elems sis) style ?x
        | MappingNode pairs style \<Rightarrow> yaml_emitter_dump_mapping emit (yaml_emitter_dump_node emit n) ?node (elems pairs) style ?x))
      (\<lambda>_. dumped emit J d A b (walk (Suc n) (kids d) i ws) (dump_events (Suc n) d (anchor_name A) i ws) e) (dump_failed d A b) e1"
    if e1: "dumped emit J d A (b + string_blocks ?x) ws [] e e1" for e1
  proof (cases "i \<in> set ws")
    case True
    have "count_list ws i \<noteq> 0" using True by (simp add: count_list_0_iff)
    then have "2 \<le> count_list A i" using count_list_prefix [OF Suc.prems(3), of i] True by simp
    then obtain y where y: "?x = Some y" by (simp add: anchor_name_def anchor_no_pos(1) [symmetric])
    have "dumping J d A (b + event_data_blocks (AliasEvent y)) ws e1"
      using e1 y by (simp add: dumped_def event_data_blocks_def)
    note em = wp_emit_dumping [OF C this event_utf8_alias [OF y]]
    have "dumped emit J d A b (ws @ [i]) xs e e'" if "dumped emit J d A b ws xs e1 e'" for xs e'
      using dumped_trans [OF e1 that] True by (simp add: dumped_def dumping_def owned_again)
    then have "wp (emit_event emit (AliasEvent y)) (\<lambda>_. dumped emit J d A b (ws @ [i]) [AliasEvent y] e) (dump_failed d A b) e1"
      by (intro wp_mono [OF em]) auto
    then show ?thesis using True y by (simp add: yaml_emitter_dump_alias_def)
  next
    case False
    let ?e = "set_anchor i (\<lambda>a. a\<lparr>an_serialized := True\<rparr>) e1"
    have e2: "dumped emit J d A (b + string_blocks ?x + string_part ?node) (ws @ [i]) [] e ?e"
    proof -
      have "dumping J d A (b + string_blocks ?x) ws e1" using e1 by (simp add: dumped_def)
      from dumped_trans [OF e1 dumping_visit [OF this Suc.prems(1) False]] show ?thesis by simp
    qed
    have D: "dumping J d A (b + event_data_blocks x) (ws @ [i]) ?e" if "event_data_blocks x = string_blocks ?x + string_part ?node" for x
      using e2 that by (simp add: dumped_def add.assoc)
    have fin: "wp m (\<lambda>_. dumped emit J d A b vs xs e) (dump_failed d A b) ?e"
      if "wp m (\<lambda>_. dumped emit J d A b vs xs ?e) (dump_failed d A b) ?e" for m :: "('a yaml_dumper, unit) prog" and vs xs
      using that by (rule wp_mono) (use dumped_trans [OF e2] in auto)
    have kid: "wp (yaml_emitter_dump_node emit n x) (\<lambda>_. dumped emit J d A b (walk n (kids d) x vs') (dump_events n d (anchor_name A) x vs') e')
        (dump_failed d A b) e'"
      if "x \<in> set (kids d i)" "prefix (ws @ [i]) vs'" "prefix (walk n (kids d) x vs') A" "dumping J d A b vs' e'" for x vs' e'
      using unseen_mono [OF that(2), of d] unseen_visit [OF Suc.prems(1) False] Suc.prems(2)
      by (intro Suc.IH that kids_valid [OF d(1) Suc.prems(1)]) simp
    have pre: "prefix vs (walk n (kids d) x vs)" for x vs using append_prefixD [OF walk_prefix] .
    have A': "prefix (fold (walk n (kids d)) (kids d i) (ws @ [i])) A" using Suc.prems(3) False by simp
    note coll = wp_dump_collection [where emit = emit and f = "yaml_emitter_dump_node emit n" and w = "walk n (kids d)"
      and ev = "dump_events n d (anchor_name A)" and vs = "ws @ [i]" and xs = "kids d i", OF C D _ _ _ kid pre A']
    show ?thesis
    proof (cases "n_data ?node")
      case (ScalarNode v style)
      let ?t = "n_tag ?node"
      let ?s = "ScalarEvent ?x (Some ?t) v (streq ?t YAML_DEFAULT_SCALAR_TAG) (streq ?t YAML_DEFAULT_SCALAR_TAG) style"
      have "event_data_blocks ?s = string_blocks ?x + string_part ?node"
        using ScalarNode by (simp add: event_data_blocks_def string_part_def)
      from fin [OF wp_emit_dumping [OF C D [OF this] event_utf8_node(1) [OF U Suc.prems(1) ScalarNode]]] False ScalarNode show ?thesis
        by (simp add: wp_seqM wp_modifyM yaml_emitter_dump_scalar_def kids_def [of d i] children_def Let_def)
    next
      case (SequenceNode sis style)
      let ?t = "n_tag ?node"
      let ?s = "SequenceStartEvent ?x (Some ?t) (streq ?t YAML_DEFAULT_SEQUENCE_TAG) style"
      have "event_data_blocks ?s = string_blocks ?x + string_part ?node" "event_data_blocks SequenceEndEvent = 0"
        using SequenceNode by (simp_all add: event_data_blocks_def string_part_def)
      from fin [OF coll [OF this event_utf8_node(2,3) [OF U Suc.prems(1)]]] False SequenceNode show ?thesis
        by (simp add: wp_seqM [of "modifyM _"] wp_modifyM yaml_emitter_dump_sequence_def kids_def [of d i] children_def Let_def)
    next
      case (MappingNode pairs style)
      let ?t = "n_tag ?node"
      let ?s = "MappingStartEvent ?x (Some ?t) (streq ?t YAML_DEFAULT_MAPPING_TAG) style"
      have "event_data_blocks ?s = string_blocks ?x + string_part ?node" "event_data_blocks MappingEndEvent = 0"
        using MappingNode by (simp_all add: event_data_blocks_def string_part_def)
      from fin [OF coll [OF this event_utf8_node(4,5) [OF U Suc.prems(1)]]] False MappingNode show ?thesis
        by (simp add: wp_seqM [of "modifyM _"] wp_modifyM yaml_emitter_dump_mapping_def kids_def [of d i] children_def forM_pairs Let_def)
    qed
  qed
  have "wp (bindM (if an_anchor ?a \<noteq> 0
       then bindM (yaml_emitter_generate_anchor (an_anchor ?a)) (\<lambda>x. case x of None \<Rightarrow> errorM id | Some y \<Rightarrow> returnM (Some y))
       else returnM None) (\<lambda>anchor.
     if an_serialized ?a then yaml_emitter_dump_alias emit anchor
     else seqM (modifyM (set_anchor i (\<lambda>a. a\<lparr>an_serialized := True\<rparr>)))
       (case n_data ?node of
          ScalarNode v style \<Rightarrow> yaml_emitter_dump_scalar emit ?node v style anchor
        | SequenceNode sis style \<Rightarrow> yaml_emitter_dump_sequence emit (yaml_emitter_dump_node emit n) ?node (elems sis) style anchor
        | MappingNode pairs style \<Rightarrow> yaml_emitter_dump_mapping emit (yaml_emitter_dump_node emit n) ?node (elems pairs) style anchor)))
      (\<lambda>_. dumped emit J d A b (walk (Suc n) (kids d) i ws) (dump_events (Suc n) d (anchor_name A) i ws) e) (dump_failed d A b) e"
    unfolding wp_bindM [of "if _ then _ else _"] by (rule wp_mono [OF mk]) (use cont in simp_all)
  then show ?case
    unfolding wp_def yaml_emitter_dump_node.simps with_node_dumping [OF Suc.prems(4,1)] by simp
qed simp

subsection \<open>Cleaning up\<close>

definition container_part :: "yaml_node \<Rightarrow> int" where
  "container_part n = node_blocks n - string_part n"

lemma owned_sum:
  "owned d ws = (\<Sum>j<length (doc_nodes d). if int j + 1 \<in> set ws then 0 else string_part (doc_nodes d ! j))"
proof -
  let ?f = "\<lambda>j. string_part (node_at d j)"
  have "owned d ws = (\<Sum>j\<in>{i. valid_id d i}. if j \<in> set ws then 0 else ?f j)"
    unfolding owned_def unseen_def by (simp add: sum.If_cases Diff_eq)
  also have "\<dots> = (\<Sum>j<length (doc_nodes d). if int j + 1 \<in> set ws then 0 else string_part (doc_nodes d ! j))"
    by (rule sum.reindex_bij_witness [of _ "\<lambda>j. int j + 1" "\<lambda>j. nat (j - 1)"]) (auto simp: valid_id_def node_at_def)
  finally show ?thesis .
qed

lemma live_free_dumped_node:
  "live (free_dumped_node a n h) = live h - (if an_serialized a then 0 else string_part n) - container_part n"
  by (cases "n_data n") (auto simp: free_dumped_node_def string_part_def container_part_def node_blocks_def Let_def)

lemma live_free_dumped:
  "live (fold (\<lambda>(a, n). free_dumped_node a n) (zip (dump_table (length (doc_nodes d)) A ws) (doc_nodes d)) h)
     = live h - owned d ws - sum_list (map container_part (doc_nodes d))"
proof -
  have fold: "live (fold (\<lambda>(a, n). free_dumped_node a n) xs h) = live h
      - sum_list (map (\<lambda>(a, n). if an_serialized a then 0 else string_part n) xs) - sum_list (map (container_part \<circ> snd) xs)" for xs h
    by (induction xs arbitrary: h) (auto simp: live_free_dumped_node)
  let ?xs = "zip (dump_table (length (doc_nodes d)) A ws) (doc_nodes d)"
  have "map (container_part \<circ> snd) ?xs = map container_part (doc_nodes d)"
    by (simp add: dump_table_def flip: map_map)
  moreover have "map (\<lambda>(a, n). if an_serialized a then 0 else string_part n) ?xs
      = map (\<lambda>j. if int j + 1 \<in> set ws then 0 else string_part (doc_nodes d ! j)) [0..<length (doc_nodes d)]"
    by (rule nth_equalityI) (auto simp: dump_table_def)
  ultimately show ?thesis
    by (simp add: fold owned_sum interv_sum_list_conv_sum_set_nat atLeast0LessThan)
qed

definition directive_blocks :: "yaml_document \<Rightarrow> int" where
  "directive_blocks d = (if d_version_directive d = None then 0 else 1) + tag_directives_blocks (d_tag_directives d)"

definition array_blocks :: "yaml_document \<Rightarrow> int" where
  "array_blocks d = block_if (cap (d_nodes d)) + sum_list (map container_part (doc_nodes d)) + 1"

lemma document_blocks_parts: "document_blocks d + 1 = array_blocks d + owned d [] + directive_blocks d"
proof -
  have "owned d [] = sum_list (map string_part (doc_nodes d))"
    by (simp add: owned_sum sum_list_sum_nth atLeast0LessThan)
  moreover have "sum_list (map node_blocks ns) = sum_list (map string_part ns) + sum_list (map container_part ns)" for ns
    by (induction ns) (auto simp: container_part_def)
  ultimately show ?thesis by (simp add: document_blocks_def array_blocks_def directive_blocks_def)
qed

text \<open>After the clean-up the dumper is ready for the next document.\<close>

definition dumper_idle :: "'w yaml_dumper \<Rightarrow> bool" where
  "dumper_idle e \<longleftrightarrow> e_anchors e = None \<and> e_last_anchor_id e = 0"

lemma wp_cleanup_table:
  assumes "e_document e = Some d" "e_anchors e = Some (dump_table (length (doc_nodes d)) A ws)"
    and "ebalance (yaml_emitter.truncate e) = b + array_blocks d + owned d ws"
  shows "wp yaml_emitter_delete_document_and_anchors (\<lambda>_ e'. dumper_idle e' \<and> e_document e' = None \<and> ebalance (yaml_emitter.truncate e') = b
      \<and> e_opened e' = e_opened e \<and> e_closed e' = e_closed e \<and> (\<exists>h. yaml_emitter.truncate e' = (yaml_emitter.truncate e)\<lparr>e_mem := h\<rparr>)) (\<lambda>_. False) e"
  using assms
  by (auto simp: yaml_emitter_delete_document_and_anchors_def wp_simps dumper_idle_def freeE_def ebalance_def live_free_dumped
      array_blocks_def dump_table_def [of _ _ ws, THEN arg_cong [of _ _ length], simplified])

lemma wp_cleanup_document:
  assumes "e_document e = Some d" "dumper_idle e" "ebalance (yaml_emitter.truncate e) = b + document_blocks d"
  shows "wp yaml_emitter_delete_document_and_anchors (\<lambda>_ e'. dumper_idle e' \<and> e_document e' = None \<and> ebalance (yaml_emitter.truncate e') = b
      \<and> e_opened e' = e_opened e \<and> e_closed e' = e_closed e \<and> (\<exists>h. yaml_emitter.truncate e' = (yaml_emitter.truncate e)\<lparr>e_mem := h\<rparr>)) (\<lambda>_. False) e"
  using assms
  by (auto simp: yaml_emitter_delete_document_and_anchors_def wp_simps dumper_idle_def freeE_def ebalance_def live_yaml_document_delete)

subsection \<open>\<open>yaml_emitter_dump\<close>\<close>

definition visits :: "yaml_document \<Rightarrow> int list" where
  "visits d = walk (Suc (length (doc_nodes d))) (kids d) 1 []"

definition document_events :: "yaml_document \<Rightarrow> yaml_event_data list" where
  "document_events d = dump_events (Suc (length (doc_nodes d))) d (anchor_name (visits d)) 1 []"

definition all_events :: "bool \<Rightarrow> bool \<Rightarrow> yaml_document \<Rightarrow> yaml_event_data list" where
  "all_events opened closed d = (if opened then [] else [StreamStartEvent YAML_ANY_ENCODING]) @
     (if doc_nodes d = [] then (if closed then [] else [StreamEndEvent])
      else DocumentStartEvent (d_version_directive d) (d_tag_directives d) (d_start_implicit d)
        # document_events d @ [DocumentEndEvent (d_end_implicit d)])"

lemma fold_valid: "(\<And>x vs. x \<in> set xs \<Longrightarrow> P vs \<Longrightarrow> P (f x vs)) \<Longrightarrow> P vs \<Longrightarrow> P (fold f xs vs)"
  by (induction xs arbitrary: vs) auto

lemma walk_valid:
  assumes d: "doc_ok d"
  shows "valid_id d i \<Longrightarrow> set vs \<subseteq> {x. valid_id d x} \<Longrightarrow> set (walk n (kids d) i vs) \<subseteq> {x. valid_id d x}"
proof (induction n arbitrary: i vs)
  case (Suc n)
  have "set (fold (walk n (kids d)) (kids d i) (vs @ [i])) \<subseteq> {x. valid_id d x}"
  proof (rule fold_valid [where P = "\<lambda>vs. set vs \<subseteq> {x. valid_id d x}"])
    fix x ws
    assume "x \<in> set (kids d i)" "set ws \<subseteq> {x. valid_id d x}"
    then show "set (walk n (kids d) x ws) \<subseteq> {x. valid_id d x}" by (intro Suc.IH kids_valid [OF d Suc.prems(1)])
  qed (use Suc.prems in simp)
  with Suc.prems show ?case by simp
qed simp

lemma root_valid: "doc_nodes d \<noteq> [] \<Longrightarrow> valid_id d 1"
  by (auto simp: valid_id_def Suc_le_eq)

lemma visits_valid: "doc_ok d \<Longrightarrow> doc_nodes d \<noteq> [] \<Longrightarrow> \<forall>x\<in>set (visits d). valid_id d x"
  using walk_valid [of d 1 "[]", OF _ root_valid] by (auto simp: visits_def simp del: walk.simps)

lemma wp_finallyM [wp_simps]: "wp (finallyM m c) Q E s = wp m (\<lambda>_. wp c Q E) (wp c (\<lambda>_. E) E) s"
  by (simp add: wp_def finallyM_def split: result.splits)

text \<open>The two passes over a document with nodes.\<close>

lemma marked_start:
  assumes "e_anchors e = Some (dump_table N [] [])" "e_last_anchor_id e = 0"
  shows "marked N e [] = e"
  using assms by (cases e) (simp add: marked_def dump_table_def)

lemma marked_dumping:
  assumes "dumping J d B b [] e" shows "dumping J d A b [] (marked (length (doc_nodes d)) e A)"
  using assms by (simp add: dumping_def marked_def dump_table_def)

lemma wp_dump_passes:
  assumes C: "emit_contract emit J" and d: "doc_ok d" "length (doc_nodes d) \<le> INT_MAX" "doc_nodes d \<noteq> []" and U: "doc_utf8 d"
    and D: "dumping J d [] (b + directive_blocks d) [] e" "e_last_anchor_id e = 0"
  defines "N \<equiv> length (doc_nodes d)"
  shows "wp (dump_nodes emit d)
     (\<lambda>_ e'. dumping J d (visits d) b (visits d) e' \<and> e_opened e' = e_opened e \<and> e_closed e' = e_closed e
        \<and> emits emit (yaml_emitter.truncate e) (DocumentStartEvent (d_version_directive d) (d_tag_directives d) (d_start_implicit d)
        # document_events d @ [DocumentEndEvent (d_end_implicit d)]) (yaml_emitter.truncate e'))
     (\<lambda>e'. \<exists>A. dump_failed d A b e') e"
proof -
  let ?s = "DocumentStartEvent (d_version_directive d) (d_tag_directives d) (d_start_implicit d)"
  note v1 = root_valid [OF d(3)]
  have fuel: "card (unseen d []) < Suc N" by (simp add: unseen_def card_ids N_def)
  have bl: "event_data_blocks ?s = directive_blocks d" "event_data_blocks (DocumentEndEvent x) = 0" for x
    by (simp_all add: event_data_blocks_def directive_blocks_def)
  note start = wp_emit_dumping [OF C, of d "[]" b ?s "[]" e, unfolded bl, OF D(1) event_utf8_doc [OF U]]
  have passes: "wp (seqM (yaml_emitter_anchor_node (Suc N) 1) (seqM (yaml_emitter_dump_node emit (Suc N) 1)
        (emit_event emit (DocumentEndEvent (d_end_implicit d)))))
      (\<lambda>_ e'. dumped emit J d (visits d) b (visits d) (document_events d @ [DocumentEndEvent (d_end_implicit d)]) (marked N e1 (visits d)) e')
      (dump_failed d (visits d) b) e1"
    if e1: "dumped emit J d [] b [] [?s] e e1" for e1
  proof -
    let ?e = "marked N e1 (visits d)"
    have m: "marked N e1 [] = e1" using e1 D(2) by (intro marked_start) (auto simp: dumped_def dumping_def N_def)
    have "e_document e1 = Some d" using e1 by (simp add: dumped_def dumping_def)
    note run = anchor_node_run [OF d(1) this v1, of "[]" "Suc N", folded N_def, OF fuel, unfolded m]
    have "dumping J d (visits d) b [] ?e" using e1 marked_dumping by (auto simp: dumped_def N_def)
    note dn = wp_dump_node [OF C d(1,2) U visits_valid [OF d(1,3)] v1 fuel _ this, folded N_def visits_def document_events_def]
    have "wp (seqM (yaml_emitter_dump_node emit (Suc N) 1) (emit_event emit (DocumentEndEvent (d_end_implicit d))))
       (\<lambda>_ e'. dumped emit J d (visits d) b (visits d) (document_events d @ [DocumentEndEvent (d_end_implicit d)]) ?e e')
       (dump_failed d (visits d) b) ?e"
      unfolding wp_seqM
    proof (rule wp_mono [OF dn])
      fix u e2
      assume e2: "dumped emit J d (visits d) b (walk (Suc N) (kids d) 1 []) (dump_events (Suc N) d (anchor_name (visits d)) 1 []) ?e e2"
      then have e2: "dumped emit J d (visits d) b (visits d) (document_events d) ?e e2" by (simp only: visits_def document_events_def N_def)
      then have "dumping J d (visits d) (b + event_data_blocks (DocumentEndEvent (d_end_implicit d))) (visits d) e2"
        by (simp add: dumped_def bl)
      from wp_emit_dumping [OF C this event_utf8_end]
      show "wp (emit_event emit (DocumentEndEvent (d_end_implicit d)))
         (\<lambda>_ e'. dumped emit J d (visits d) b (visits d) (document_events d @ [DocumentEndEvent (d_end_implicit d)]) ?e e')
         (dump_failed d (visits d) b) e2"
        by (rule wp_mono) (auto intro: dumped_trans [OF e2])
    qed (simp_all add: visits_def N_def)
    then show ?thesis unfolding wp_seqM [of "yaml_emitter_anchor_node _ _"] using run
      by (simp add: wp_def visits_def N_def)
  qed
  show ?thesis unfolding dump_nodes_def Let_def N_def [symmetric] wp_seqM [of "emit_event emit ?s"]
  proof (rule wp_mono [OF start])
    fix u e1
    assume e1: "dumped emit J d [] b [] [?s] e e1"
    have t: "yaml_emitter.truncate (marked N e1 (visits d)) = yaml_emitter.truncate e1" "e_opened (marked N e1 (visits d)) = e_opened e1"
        "e_closed (marked N e1 (visits d)) = e_closed e1" by (simp_all add: marked_def)
    show "wp (seqM (yaml_emitter_anchor_node (Suc N) 1) (seqM (yaml_emitter_dump_node emit (Suc N) 1)
        (emit_event emit (DocumentEndEvent (d_end_implicit d)))))
      (\<lambda>_ e'. dumping J d (visits d) b (visits d) e' \<and> e_opened e' = e_opened e \<and> e_closed e' = e_closed e
        \<and> emits emit (yaml_emitter.truncate e) (?s # document_events d @ [DocumentEndEvent (d_end_implicit d)]) (yaml_emitter.truncate e'))
      (\<lambda>e'. \<exists>A. dump_failed d A b e') e1"
      by (rule wp_mono [OF passes [OF e1]])
        (use e1 in \<open>auto simp: dumped_def t dest: emits_append [of emit _ "[?s]"]\<close>)
  qed auto
qed

text \<open>The states before the table of anchors is there.\<close>

definition undumped :: "('w yaml_emitter \<Rightarrow> bool) \<Rightarrow> yaml_document \<Rightarrow> int \<Rightarrow> 'w yaml_dumper \<Rightarrow> bool" where
  "undumped J d b e \<longleftrightarrow> e_document e = Some d \<and> dumper_idle e \<and> J (yaml_emitter.truncate e)
     \<and> ebalance (yaml_emitter.truncate e) = b + document_blocks d"

definition open_failed :: "yaml_document \<Rightarrow> int \<Rightarrow> 'w yaml_dumper \<Rightarrow> bool" where
  "open_failed d b e \<longleftrightarrow> e_document e = Some d \<and> dumper_idle e \<and> ebalance (yaml_emitter.truncate e) = b + document_blocks d"

lemma wp_emit_undumped:
  assumes C: "emit_contract emit J" and D: "undumped J d b e" and x: "event_data_blocks x = 0" "event_utf8 x"
  shows "wp (emit_event emit x) (\<lambda>_ e'. undumped J d b e' \<and> e_opened e' = e_opened e \<and> e_closed e' = e_closed e
      \<and> emits emit (yaml_emitter.truncate e) [x] (yaml_emitter.truncate e')) (open_failed d b) e"
  unfolding wp_emit_event
  by (rule wp_mono [OF emit_contractD [OF C _ x(2), of "yaml_emitter.truncate e"]])
    (use D x in \<open>auto simp: undumped_def open_failed_def dumper_idle_def\<close>)

lemma stream_blocks: "event_data_blocks (StreamStartEvent enc) = 0" "event_data_blocks StreamEndEvent = 0"
  by (simp_all add: event_data_blocks_def)

lemma event_utf8_stream: "event_utf8 (StreamStartEvent enc)" "event_utf8 StreamEndEvent"
  by simp_all

lemma wp_open_undumped:
  assumes C: "emit_contract emit J" and D: "undumped J d b e" and "\<not> e_opened e"
  shows "wp (yaml_emitter_open emit) (\<lambda>_ e'. undumped J d b e' \<and> e_opened e' \<and> e_closed e' = e_closed e
      \<and> emits emit (yaml_emitter.truncate e) [StreamStartEvent YAML_ANY_ENCODING] (yaml_emitter.truncate e')) (open_failed d b) e"
  using assms(3) unfolding yaml_emitter_open_def wp_seqM wp_assertM
  by (intro conjI wp_mono [OF wp_emit_undumped [OF C D stream_blocks(1) event_utf8_stream(1)]])
    (auto simp: wp_modifyM undumped_def dumper_idle_def)

lemma wp_close_undumped:
  assumes C: "emit_contract emit J" and D: "undumped J d b e" and "e_opened e"
  shows "wp (yaml_emitter_close emit) (\<lambda>_ e'. undumped J d b e' \<and> e_opened e' \<and> e_closed e'
      \<and> emits emit (yaml_emitter.truncate e) (if e_closed e then [] else [StreamEndEvent]) (yaml_emitter.truncate e')) (open_failed d b) e"
proof (cases "e_closed e")
  case True
  with D assms(3) show ?thesis by (simp add: yaml_emitter_close_def wp_simps emits_self)
next
  case False
  with assms(3) show ?thesis unfolding yaml_emitter_close_def wp_seqM wp_assertM wp_readM
    by (auto simp: wp_if wp_seqM wp_modifyM undumped_def [of J d b] dumper_idle_def
        intro!: wp_mono [OF wp_emit_undumped [OF C D stream_blocks(2) event_utf8_stream(2)]])
qed

lemma wp_new_anchors:
  assumes C: "emit_contract emit J" and D: "undumped J d b e" and d: "doc_nodes d \<noteq> []"
  shows "wp (new_anchors (length (doc_nodes d)))
     (\<lambda>_ e'. dumping J d [] (b + array_blocks d + directive_blocks d) [] e' \<and> e_last_anchor_id e' = 0 \<and> e_opened e' = e_opened e
        \<and> e_closed e' = e_closed e \<and> emits emit (yaml_emitter.truncate e) [] (yaml_emitter.truncate e'))
     (open_failed d b) e"
proof -
  let ?N = "length (doc_nodes d)"
  have tab: "replicate ?N \<lparr>an_references = 0, an_anchor = 0, an_serialized = False\<rparr> = dump_table ?N [] []"
    by (simp add: dump_table_def map_replicate_trivial anchor_no_def flip: map_replicate_const [of _ "[0..<?N]", simplified])
  show ?thesis unfolding new_anchors_def wp_bindM wp_zoomM
    by (rule wp_yaml_malloc)
      (use D C document_blocks_parts [of d] in \<open>auto simp: wp_simps undumped_def dumping_def open_failed_def dumper_idle_def tab
        ebalance_def emit_contract_def intro: emits_Nil\<close>)
qed

definition dump_ended :: "int \<Rightarrow> 'w yaml_dumper \<Rightarrow> bool" where
  "dump_ended b e \<longleftrightarrow> e_document e = None \<and> dumper_idle e \<and> ebalance (yaml_emitter.truncate e) = b"

lemma cleanup_failed:
  assumes "open_failed d b e \<or> (\<exists>A. dump_failed d A (b + array_blocks d) e)"
  shows "wp yaml_emitter_delete_document_and_anchors (\<lambda>_. dump_ended b) (dump_ended b) e"
  using assms
proof (elim disjE exE)
  assume "open_failed d b e"
  then show ?thesis
    by (intro wp_mono [OF wp_cleanup_document [of e d b]]) (auto simp: open_failed_def dump_ended_def)
next
  fix A
  assume "dump_failed d A (b + array_blocks d) e"
  then obtain ws where "e_document e = Some d" "e_anchors e = Some (dump_table (length (doc_nodes d)) A ws)"
      "ebalance (yaml_emitter.truncate e) = b + array_blocks d + owned d ws" by (auto simp: dump_failed_def)
  from wp_cleanup_table [OF this] show ?thesis by (rule wp_mono) (auto simp: dump_ended_def)
qed

lemma emits_end_mem: "emits emit e xs e' \<Longrightarrow> emits emit e xs (e'\<lparr>e_mem := h\<rparr>)"
  using emits_append [OF _ emits_Nil] by fastforce

lemma owned_all: "doc_ok d \<Longrightarrow> dumping J d A b ws e \<Longrightarrow> ebalance (yaml_emitter.truncate e) = b + owned d ws"
  by (simp add: dumping_def)

definition dump_post ::
    "'w emitM \<Rightarrow> ('w yaml_emitter \<Rightarrow> bool) \<Rightarrow> int \<Rightarrow> yaml_document \<Rightarrow> 'w yaml_dumper \<Rightarrow> 'w yaml_dumper \<Rightarrow> bool" where
  "dump_post emit J b d e e' \<longleftrightarrow> dump_ended b e' \<and> J (yaml_emitter.truncate e') \<and> e_opened e'
     \<and> (e_closed e' \<longleftrightarrow> e_closed e \<or> doc_nodes d = [])
     \<and> emits emit (yaml_emitter.truncate e) (all_events (e_opened e) (e_closed e) d) (yaml_emitter.truncate e')"

lemma wp_dump_document:
  assumes C: "emit_contract emit J" and d: "doc_ok d" "length (doc_nodes d) \<le> INT_MAX" and U: "doc_utf8 d" and D: "undumped J d b e" and o: "e_opened e"
  shows "wp (dump_document emit d)
     (\<lambda>_. wp yaml_emitter_delete_document_and_anchors (\<lambda>_. dump_post emit J b d e) (\<lambda>_. False))
     (\<lambda>e'. open_failed d b e' \<or> (\<exists>A. dump_failed d A (b + array_blocks d) e')) e"
proof (cases "doc_nodes d = []")
  case True
  have fin: "wp yaml_emitter_delete_document_and_anchors (\<lambda>_. dump_post emit J b d e) (\<lambda>_. False) e1"
    if e1: "undumped J d b e1 \<and> e_opened e1 \<and> e_closed e1
      \<and> emits emit (yaml_emitter.truncate e) (if e_closed e then [] else [StreamEndEvent]) (yaml_emitter.truncate e1)" for e1
    by (rule wp_mono [OF wp_cleanup_document [of e1 d b]])
      (use e1 o True C in \<open>auto simp: undumped_def dump_post_def dump_ended_def all_events_def emit_contract_def intro: emits_end_mem\<close>)
  with True show ?thesis
    by (simp add: dump_document_def STACK_EMPTY_def) (rule wp_mono [OF wp_close_undumped [OF C D o]]; simp)
next
  case False
  have fin: "wp yaml_emitter_delete_document_and_anchors (\<lambda>_. dump_post emit J b d e) (\<lambda>_. False) e2"
    if e2: "dumping J d (visits d) (b + array_blocks d) (visits d) e2" "e_opened e2 = e_opened e" "e_closed e2 = e_closed e"
      "emits emit (yaml_emitter.truncate e) (DocumentStartEvent (d_version_directive d) (d_tag_directives d) (d_start_implicit d)
        # document_events d @ [DocumentEndEvent (d_end_implicit d)]) (yaml_emitter.truncate e2)" for e2
    by (rule wp_mono [OF wp_cleanup_table [of e2 d "visits d" "visits d" b]])
      (use e2 o False C in \<open>auto simp: dumping_def dump_post_def dump_ended_def all_events_def emit_contract_def intro: emits_end_mem\<close>)
  have "wp (new_anchors (length (doc_nodes d)))
      (\<lambda>_. wp (dump_nodes emit d)
       (\<lambda>_. wp yaml_emitter_delete_document_and_anchors (\<lambda>_. dump_post emit J b d e) (\<lambda>_. False))
       (\<lambda>e'. open_failed d b e' \<or> (\<exists>A. dump_failed d A (b + array_blocks d) e')))
      (\<lambda>e'. open_failed d b e' \<or> (\<exists>A. dump_failed d A (b + array_blocks d) e')) e"
  proof (rule wp_mono [OF wp_new_anchors [OF C D False]])
    fix u e1
    assume e1: "dumping J d [] (b + array_blocks d + directive_blocks d) [] e1 \<and> e_last_anchor_id e1 = 0 \<and> e_opened e1 = e_opened e
        \<and> e_closed e1 = e_closed e \<and> emits emit (yaml_emitter.truncate e) [] (yaml_emitter.truncate e1)"
    show "wp (dump_nodes emit d)
       (\<lambda>_. wp yaml_emitter_delete_document_and_anchors (\<lambda>_. dump_post emit J b d e) (\<lambda>_. False))
       (\<lambda>e'. open_failed d b e' \<or> (\<exists>A. dump_failed d A (b + array_blocks d) e')) e1"
      by (rule wp_mono [OF wp_dump_passes [OF C d False U, of "b + array_blocks d" e1]])
        (use e1 in \<open>auto intro: fin emits_append [of emit _ "[]", simplified]\<close>)
  qed auto
  with False o show ?thesis by (simp add: dump_document_def STACK_EMPTY_def wp_seqM [of "assertM _"] wp_assertM wp_seqM [of "new_anchors _"])
qed

lemma wp_dump:
  assumes C: "emit_contract emit J" and d: "doc_ok d" "length (doc_nodes d) \<le> INT_MAX" and U: "doc_utf8 d"
    and e: "dumper_idle e" "J (yaml_emitter.truncate e)"
  shows "wp (yaml_emitter_dump emit d) (\<lambda>_. dump_post emit J (ebalance (yaml_emitter.truncate e) - document_blocks d) d e)
     (dump_ended (ebalance (yaml_emitter.truncate e) - document_blocks d)) e"
proof -
  let ?b = "ebalance (yaml_emitter.truncate e) - document_blocks d" and ?e = "e\<lparr>e_document := Some d\<rparr>"
  have u: "undumped J d ?b ?e" using e by (simp add: undumped_def dumper_idle_def)
  have "wp (readM (\<lambda>e. if e_opened e then returnM () else yaml_emitter_open emit))
     (\<lambda>_ e1. undumped J d ?b e1 \<and> e_opened e1 \<and> e_closed e1 = e_closed e
        \<and> emits emit (yaml_emitter.truncate e) (if e_opened e then [] else [StreamStartEvent YAML_ANY_ENCODING]) (yaml_emitter.truncate e1))
     (open_failed d ?b) ?e"
    using u wp_mono [OF wp_open_undumped [OF C u]] by (auto simp: wp_simps emits_self)
  note op = this
  have fin: "dump_post emit J ?b d e e2" if "dump_post emit J ?b d e1 e2" "e_opened e1" "e_closed e1 = e_closed e"
      "emits emit (yaml_emitter.truncate e) (if e_opened e then [] else [StreamStartEvent YAML_ANY_ENCODING]) (yaml_emitter.truncate e1)" for e1 e2
    using that emits_append [OF that(4)] by (auto simp: dump_post_def all_events_def)
  have "wp (dump_body emit d) (\<lambda>_. wp yaml_emitter_delete_document_and_anchors (\<lambda>_. dump_post emit J ?b d e) (\<lambda>_. False))
     (\<lambda>e'. open_failed d ?b e' \<or> (\<exists>A. dump_failed d A (?b + array_blocks d) e')) ?e"
    unfolding dump_body_def wp_seqM
  proof (rule wp_mono [OF op])
    fix u e1
    assume e1: "undumped J d ?b e1 \<and> e_opened e1 \<and> e_closed e1 = e_closed e
        \<and> emits emit (yaml_emitter.truncate e) (if e_opened e then [] else [StreamStartEvent YAML_ANY_ENCODING]) (yaml_emitter.truncate e1)"
    show "wp (dump_document emit d) (\<lambda>_. wp yaml_emitter_delete_document_and_anchors (\<lambda>_. dump_post emit J ?b d e) (\<lambda>_. False))
       (\<lambda>e'. open_failed d ?b e' \<or> (\<exists>A. dump_failed d A (?b + array_blocks d) e')) e1"
      by (rule wp_mono [OF wp_dump_document [OF C d U, of ?b e1]]) (use e1 fin in \<open>auto elim!: wp_mono\<close>)
  qed simp
  then show ?thesis unfolding yaml_emitter_dump_def wp_seqM wp_modifyM wp_finallyM
    by (rule wp_mono) (auto intro: cleanup_failed elim: wp_mono)
qed

end
