(* ===== verification/Dumper_Runs.thy ===== *)
theory Dumper_Runs
  imports Dumper_Correct Loader_Runs
begin

text \<open>
  What the events of the dumper mean: they are well nested, and composing them yields the nodes that can
  be reached from the root of the document, in the order of their first visit.
\<close>

subsection \<open>Nesting\<close>

lemma accepts_append: "accepts a (xs @ ys) = Option.bind (accepts a xs) (\<lambda>a'. accepts a' ys)"
  by (induction xs arbitrary: a) (auto split: option.split)

definition node_events_ok :: "(int \<Rightarrow> int list \<Rightarrow> yaml_event_data list) \<Rightarrow> int \<Rightarrow> int list \<Rightarrow> bool" where
  "node_events_ok ev x vs \<longleftrightarrow> (\<forall>fs. accepts (ANode fs) (map event_data_type (ev x vs)) = Some (after_node fs))"

lemma after_node_frame: "after_node (f # fs) = ANode (frame_next f # fs)"
  by (cases f) auto

lemma accepts_dump_list:
  assumes "\<And>x vs'. x \<in> set xs \<Longrightarrow> prefix vs vs' \<Longrightarrow> node_events_ok ev x vs' \<and> prefix vs' (w x vs')"
  shows "accepts (ANode (f # fs)) (map event_data_type (dump_list ev w xs vs)) = Some (ANode ((frame_next ^^ length xs) f # fs))"
  using assms
proof (induction xs arbitrary: vs f)
  case (Cons x xs)
  have x: "node_events_ok ev x vs" "prefix vs (w x vs)" using Cons.prems [of x vs] by auto
  have "accepts (ANode (frame_next f # fs)) (map event_data_type (dump_list ev w xs (w x vs)))
      = Some (ANode ((frame_next ^^ length xs) (frame_next f) # fs))"
    by (rule Cons.IH) (use Cons.prems prefix_order.trans [OF x(2)] in auto)
  with x show ?case by (simp add: accepts_append node_events_ok_def after_node_frame funpow_swap1)
qed simp

lemma frame_next_kids:
  "(frame_next ^^ n) InSeq = InSeq" "even n \<Longrightarrow> (frame_next ^^ n) AtKey = AtKey"
proof -
  show "(frame_next ^^ n) InSeq = InSeq" by (induction n) auto
  have "(frame_next ^^ (2 * m)) AtKey = AtKey" for m by (induction m) auto
  then show "even n \<Longrightarrow> (frame_next ^^ n) AtKey = AtKey" by (auto elim!: evenE)
qed

lemma even_kids: "n_data (node_at d i) = MappingNode pairs style \<Longrightarrow> even (length (kids d i))"
  by (simp add: kids_def children_def length_concat) (induction "elems pairs", auto simp: sum_list_triv o_def)

lemma dump_events_ok:
  assumes d: "doc_ok d" and "valid_id d i" "card (unseen d vs) < n"
  shows "node_events_ok (dump_events n d a) i vs"
  using assms(2,3)
proof (induction n arbitrary: i vs)
  case (Suc n)
  show ?case
  proof (cases "i \<in> set vs")
    case False
    have kid: "node_events_ok (dump_events n d a) x vs' \<and> prefix vs' (walk n (kids d) x vs')"
      if "x \<in> set (kids d i)" "prefix (vs @ [i]) vs'" for x vs'
      using unseen_mono [OF that(2), of d] unseen_visit [OF Suc.prems(1) False] Suc.prems(2) append_prefixD [OF walk_prefix]
      by (auto intro!: Suc.IH kids_valid [OF d Suc.prems(1) that(1)])
    note inner = accepts_dump_list [where w = "walk n (kids d)" and ev = "dump_events n d a" and xs = "kids d i" and vs = "vs @ [i]", OF kid]
    show ?thesis
    proof (cases "n_data (node_at d i)")
      case (MappingNode pairs style)
      with False inner [where f = AtKey] frame_next_kids(2) [OF even_kids [OF this]] show ?thesis
        by (simp add: node_events_ok_def accepts_append Let_def)
    qed (use False inner [where f = InSeq] in \<open>auto simp: node_events_ok_def accepts_append frame_next_kids Let_def\<close>)
  qed (simp add: node_events_ok_def)
qed simp

text \<open>The state of the grammar before and after a call of \<open>yaml_emitter_dump\<close>.\<close>

definition dump_state :: "bool \<Rightarrow> bool \<Rightarrow> astate" where
  "dump_state opened closed = (if closed then AEnd else if opened then ADocs else AStart)"

lemma all_events_ok:
  assumes "doc_ok d" "closed \<longrightarrow> opened \<and> doc_nodes d = []"
  shows "accepts (dump_state opened closed) (map event_data_type (all_events opened closed d))
     = Some (dump_state True (closed \<or> doc_nodes d = []))"
proof (cases "doc_nodes d = []")
  case False
  have "card (unseen d []) < Suc (length (doc_nodes d))" by (simp add: unseen_def card_ids)
  from dump_events_ok [OF assms(1) root_valid [OF False] this, of "anchor_name (visits d)"]
  have "accepts (ANode []) (map event_data_type (document_events d)) = Some ADocEnd"
    by (simp only: node_events_ok_def document_events_def) simp
  with False assms(2) show ?thesis by (auto simp: all_events_def dump_state_def accepts_append)
qed (use assms(2) in \<open>auto simp: all_events_def dump_state_def\<close>)

subsection \<open>Composing what was dumped\<close>

definition firsts :: "int list \<Rightarrow> int list" where
  "firsts vs = rev (remdups (rev vs))"

lemma firsts_simps [simp]:
  "firsts [] = []" "firsts (vs @ [i]) = firsts vs @ (if i \<in> set vs then [] else [i])" "set (firsts vs) = set vs"
  "distinct (firsts vs)"
  by (auto simp: firsts_def)

lemma prefix_firsts: "prefix vs ws \<Longrightarrow> prefix (firsts vs) (firsts ws)"
proof -
  have "prefix (firsts vs) (firsts (vs @ xs))" for xs
  proof (induction xs rule: rev_induct)
    case (snoc x xs)
    then show ?case by (simp flip: append_assoc del: firsts_simps(3))
  qed simp
  then show "prefix vs ws \<Longrightarrow> prefix (firsts vs) (firsts ws)" by (auto simp: prefix_def)
qed

text \<open>The number that a node gets, the node with its references renumbered, and the anchors that are known.\<close>

definition num :: "int list \<Rightarrow> int \<Rightarrow> int" where
  "num A i = int (length (takeWhile (\<lambda>x. x \<noteq> i) (firsts A))) + 1"

fun renumber :: "(int \<Rightarrow> int) \<Rightarrow> anode \<Rightarrow> anode" where
  "renumber f (AScalar t v) = AScalar (node_tag YAML_DEFAULT_SCALAR_TAG (Some t)) v"
| "renumber f (ASequence t xs) = ASequence (node_tag YAML_DEFAULT_SEQUENCE_TAG (Some t)) (map f xs)"
| "renumber f (AMapping t ps) = AMapping (node_tag YAML_DEFAULT_MAPPING_TAG (Some t)) (map (\<lambda>(k, v). (f k, f v)) ps)"

definition final :: "yaml_document \<Rightarrow> int list \<Rightarrow> int \<Rightarrow> anode" where
  "final d A i = renumber (num A) (abs_node (node_at d i))"

definition anchors_of :: "int list \<Rightarrow> int list \<Rightarrow> (ystring \<times> int) list" where
  "anchors_of A vs = map (\<lambda>i. (the (anchor_name A i), num A i)) (filter (\<lambda>i. anchor_name A i \<noteq> None) (firsts vs))"

lemma num_fresh: "prefix (vs @ [i]) A \<Longrightarrow> i \<notin> set vs \<Longrightarrow> num A i = int (length (firsts vs)) + 1"
proof -
  assume p: "prefix (vs @ [i]) A" and i: "i \<notin> set vs"
  from prefix_firsts [OF p] i obtain zs where "firsts A = firsts vs @ i # zs" by (auto simp: prefix_def)
  moreover have "takeWhile (\<lambda>x. x \<noteq> i) (firsts vs @ i # zs) = firsts vs" using i by (subst takeWhile_append2) auto
  ultimately show ?thesis by (simp add: num_def)
qed

lemma num_nonzero [simp]: "num A i \<noteq> 0"
  by (simp add: num_def)

lemma anchor_name_inj:
  assumes "anchor_name A i = Some x" "anchor_name A j = Some y" "streq x y" shows "i = j"
proof -
  have "c_str x = x" "c_str y = y" using assms(1,2) by (auto simp: anchor_name_def c_str_anchor anchor_no_pos split: if_splits)
  then have "ANCHOR_TEMPLATE (anchor_no A i) = ANCHOR_TEMPLATE (anchor_no A j)"
    using assms by (auto simp: streq_def anchor_name_def split: if_splits)
  from anchor_template_inj [OF this] have "anchor_no A i = anchor_no A j" by (simp add: anchor_no_pos)
  then show ?thesis using assms(1) anchor_no_inj by (auto simp: anchor_name_def split: if_splits)
qed

lemma find_anchor_of:
  assumes "anchor_name A i = Some x"
  shows "find_anchor x (anchors_of A vs) = (if i \<in> set vs then Some (num A i) else None)"
proof -
  have "find_anchor x (map (\<lambda>i. (the (anchor_name A i), num A i)) (filter (\<lambda>i. anchor_name A i \<noteq> None) xs))
      = (if i \<in> set xs then Some (num A i) else None)" for xs
  proof (induction xs)
    case (Cons k xs)
    have same: "streq y x \<longleftrightarrow> k = i" if "anchor_name A k = Some y" for y
      using anchor_name_inj [OF that assms] that assms by (auto simp: streq_def)
    show ?case
    proof (cases "anchor_name A k")
      case None
      with Cons assms show ?thesis by (cases "k = i") simp_all
    next
      case (Some y)
      with Cons same [OF Some] show ?thesis by (cases "k = i") (simp_all add: find_anchor_def)
    qed
  qed (simp add: find_anchor_def)
  from this [of "firsts vs"] show ?thesis by (simp add: anchors_of_def)
qed

lemma anchors_of_snoc:
  "anchors_of A (vs @ [i]) = anchors_of A vs @ (if i \<in> set vs then [] else case anchor_name A i of None \<Rightarrow> [] | Some x \<Rightarrow> [(x, num A i)])"
  by (auto simp: anchors_of_def split: option.split)

lemma add_anchor_of:
  "i \<notin> set vs \<Longrightarrow> add_anchor (num A i) (anchor_name A i) (anchors_of A vs) = Some (anchors_of A (vs @ [i]))"
  by (auto simp: add_anchor_def anchors_of_snoc find_anchor_of split: option.split)

abbreviation composes :: "yaml_event_data list \<Rightarrow> composing \<Rightarrow> composing option" where
  "composes xs \<equiv> compose (map (\<lambda>x. EVENT_INIT x null_mark null_mark) xs)"

lemma compose_append: "compose (xs @ ys) st = Option.bind (compose xs st) (compose ys)"
  by (induction xs arbitrary: st) (simp_all split: Option.bind_split add: Option.bind_assoc)

text \<open>The state of the composer after the visits \<open>vs\<close>, with the nodes \<open>ns\<close> and the open collections \<open>cs\<close>.\<close>

definition composed_to :: "int list \<Rightarrow> anode list \<Rightarrow> int list \<Rightarrow> int list \<Rightarrow> composing" where
  "composed_to A ns cs vs = (ns, cs, anchors_of A vs)"

definition adopt_top :: "int \<Rightarrow> int list \<Rightarrow> anode list \<Rightarrow> anode list" where
  "adopt_top x cs ns = (case cs of [] \<Rightarrow> ns | c # _ \<Rightarrow> ns[nat (c - 1) := adopt x (ns ! nat (c - 1))])"

lemma add_child_top: "add_child x (ns, cs, as) = (adopt_top x cs ns, cs, as)"
  by (cases cs) (simp_all add: adopt_top_def)

definition cs_ok :: "int list \<Rightarrow> anode list \<Rightarrow> bool" where
  "cs_ok cs ns \<longleftrightarrow> (\<forall>c\<in>set cs. id_ok (length ns) c)"

lemma adopt_top_append: "cs_ok cs ns \<Longrightarrow> adopt_top x cs (ns @ ms) = adopt_top x cs ns @ ms"
  by (cases cs) (auto simp: adopt_top_def cs_ok_def id_ok_def list_update_append nth_append)

lemma length_adopt_top [simp]: "length (adopt_top x cs ns) = length ns"
  by (cases cs) (simp_all add: adopt_top_def)

lemma drop_prefixes: "prefix a b \<Longrightarrow> prefix b c \<Longrightarrow> drop (length a) b @ drop (length b) c = drop (length a) c"
  by (auto simp: prefix_def)

lemma length_drop_prefix: "prefix a b \<Longrightarrow> length a + length (drop (length a) b) = length b"
  by (auto simp: prefix_def)

definition node_composes ::
    "(int \<Rightarrow> int list \<Rightarrow> yaml_event_data list) \<Rightarrow> (int \<Rightarrow> int list \<Rightarrow> int list) \<Rightarrow> int list \<Rightarrow> yaml_document \<Rightarrow> int \<Rightarrow> int list \<Rightarrow> bool" where
  "node_composes ev w A d x vs \<longleftrightarrow> (\<forall>ns cs. length ns = length (firsts vs) \<and> cs_ok cs ns \<longrightarrow>
     composes (ev x vs) (ns, cs, anchors_of A vs)
       = Some (adopt_top (num A x) cs ns @ map (final d A) (drop (length (firsts vs)) (firsts (w x vs))), cs, anchors_of A (w x vs)))"

lemma compose_dump_list:
  assumes kid: "\<And>x vs'. x \<in> set xs \<Longrightarrow> prefix vs vs' \<Longrightarrow> prefix (w x vs') A \<Longrightarrow> node_composes ev w A d x vs'"
    and w: "\<And>x vs. prefix vs (w x vs)" and "prefix (fold w xs vs) A" "length ns = length (firsts vs)" "cs_ok (c # cs) ns"
  shows "composes (dump_list ev w xs vs) (ns, c # cs, anchors_of A vs)
     = Some (ns[nat (c - 1) := fold (\<lambda>a. adopt (num A a)) xs (ns ! nat (c - 1))]
         @ map (final d A) (drop (length (firsts vs)) (firsts (fold w xs vs))), c # cs, anchors_of A (fold w xs vs))"
  using kid assms(3-5)
proof (induction xs arbitrary: vs ns)
  case (Cons x xs)
  let ?vs = "w x vs" and ?k = "nat (c - 1)"
  let ?new = "map (final d A) (drop (length (firsts vs)) (firsts ?vs))"
  let ?ns = "adopt_top (num A x) (c # cs) ns @ ?new"
  have k: "?k < length ns" using Cons.prems(4) by (auto simp: cs_ok_def id_ok_def)
  note pre = fold_prefix [of w, OF w, of ?vs xs]
  have "prefix ?vs A" using prefix_order.trans [OF pre] Cons.prems(2) by simp
  from Cons.prems(1) [OF _ _ this]
  have x: "composes (ev x vs) (ns, c # cs, anchors_of A vs) = Some (?ns, c # cs, anchors_of A ?vs)"
    using Cons.prems(3,4) by (simp add: node_composes_def)
  have len: "length ?ns = length (firsts ?vs)"
    using length_drop_prefix [OF prefix_firsts [OF w [of vs x]]] Cons.prems(3) by simp
  have ok: "cs_ok (c # cs) ?ns" using Cons.prems(4) by (auto simp: cs_ok_def id_ok_def)
  have IH: "composes (dump_list ev w xs ?vs) (?ns, c # cs, anchors_of A ?vs)
     = Some (?ns[?k := fold (\<lambda>a. adopt (num A a)) xs (?ns ! ?k)] @ map (final d A) (drop (length (firsts ?vs)) (firsts (fold w xs ?vs))),
         c # cs, anchors_of A (fold w xs ?vs))"
  proof (rule Cons.IH [OF _ _ len ok])
    fix y vs'
    assume "y \<in> set xs" "prefix ?vs vs'" "prefix (w y vs') A"
    then show "node_composes ev w A d y vs'" using prefix_order.trans [OF w [of vs x]] by (intro Cons.prems(1)) auto
  qed (use Cons.prems(2) in simp)
  have "?ns[?k := fold (\<lambda>a. adopt (num A a)) xs (?ns ! ?k)]
      = ns[?k := fold (\<lambda>a. adopt (num A a)) (x # xs) (ns ! ?k)] @ ?new"
    using k by (simp add: adopt_top_def list_update_append nth_append)
  moreover have "?new @ map (final d A) (drop (length (firsts ?vs)) (firsts (fold w xs ?vs)))
      = map (final d A) (drop (length (firsts vs)) (firsts (fold w xs ?vs)))"
    using drop_prefixes [OF prefix_firsts [OF w [of vs x]] prefix_firsts [OF pre]] by (metis map_append)
  ultimately show ?case using x IH by (simp add: compose_append)
qed (simp add: cs_ok_def)

lemma adopt_sequence: "fold (\<lambda>a. adopt (f a)) xs (ASequence t ys) = ASequence t (ys @ map f xs)"
  by (induction xs arbitrary: ys) auto

lemma adopt_mapping:
  assumes "\<And>i. f i \<noteq> 0" "\<And>p. p \<in> set qs \<Longrightarrow> snd p \<noteq> 0"
  shows "fold (\<lambda>a. adopt (f a)) (concat (map (\<lambda>p. [np_key p, np_value p]) ps)) (AMapping t qs)
     = AMapping t (qs @ map (\<lambda>p. (f (np_key p), f (np_value p))) ps)"
  using assms(2)
proof (induction ps arbitrary: qs)
  case (Cons p ps)
  have "adopt (f (np_value p)) (adopt (f (np_key p)) (AMapping t qs)) = AMapping t (qs @ [(f (np_key p), f (np_value p))])"
    using Cons.prems last_in_set by (cases "qs = []") auto
  moreover have "fold (\<lambda>a. adopt (f a)) (concat (map (\<lambda>p. [np_key p, np_value p]) ps)) (AMapping t (qs @ [(f (np_key p), f (np_value p))]))
     = AMapping t ((qs @ [(f (np_key p), f (np_value p))]) @ map (\<lambda>p. (f (np_key p), f (np_value p))) ps)"
    by (rule Cons.IH) (use Cons.prems assms(1) in auto)
  ultimately show ?case by (simp del: adopt.simps)
qed simp

lemma add_node_fresh:
  assumes "num A i = int (length ns) + 1" "i \<notin> set vs" "cs_ok cs ns"
  shows "add_node m (anchor_name A i) (ns, cs, anchors_of A vs) = Some (adopt_top (num A i) cs ns @ [m], cs, anchors_of A (vs @ [i]))"
  using assms add_anchor_of [OF assms(2), of A]
  by (simp add: add_node_def add_child_top adopt_top_append)

lemma drop_firsts_fresh:
  assumes "prefix (vs @ [i]) W" "i \<notin> set vs"
  shows "drop (length (firsts vs)) (firsts W) = i # drop (Suc (length (firsts vs))) (firsts W)"
  using prefix_firsts [OF assms(1)] assms(2) by (auto simp: prefix_def)

lemma compose_collection:
  assumes num: "num A i = int (length ns) + 1" and len: "length ns = length (firsts vs)" and i: "i \<notin> set vs" and ok: "cs_ok cs ns"
    and open_ev: "compose_step x (ns, cs, anchors_of A vs) = open_node m (anchor_name A i) (ns, cs, anchors_of A vs)"
    and close_ev: "\<And>ns c cs as. compose_step y (ns, c # cs, as) = Some (ns, cs, as)"
    and fin: "fold (\<lambda>a. adopt (num A a)) xs m = final d A i"
    and kid: "\<And>x vs'. x \<in> set xs \<Longrightarrow> prefix (vs @ [i]) vs' \<Longrightarrow> prefix (w x vs') A \<Longrightarrow> node_composes ev w A d x vs'"
    and w: "\<And>x vs. prefix vs (w x vs)" and A: "prefix (fold w xs (vs @ [i])) A"
  shows "composes (x # dump_list ev w xs (vs @ [i]) @ [y]) (ns, cs, anchors_of A vs)
     = Some (adopt_top (num A i) cs ns @ map (final d A) (drop (length (firsts vs)) (firsts (fold w xs (vs @ [i])))), cs,
         anchors_of A (fold w xs (vs @ [i])))"
proof -
  let ?ms = "adopt_top (num A i) cs ns @ [m]" and ?c = "num A i"
  have c: "nat (?c - 1) = length ns" using num by simp
  have "cs_ok (?c # cs) ?ms" using ok num by (auto simp: cs_ok_def id_ok_def)
  note inner = compose_dump_list [where ev = ev and w = w, OF kid w A _ this]
  have "composes (dump_list ev w xs (vs @ [i])) (?ms, ?c # cs, anchors_of A (vs @ [i]))
     = Some (adopt_top (num A i) cs ns @ final d A i # map (final d A) (drop (Suc (length (firsts vs))) (firsts (fold w xs (vs @ [i])))),
         ?c # cs, anchors_of A (fold w xs (vs @ [i])))"
    using inner i len by (simp add: c fin list_update_append nth_append)
  moreover have "compose_step x (ns, cs, anchors_of A vs) = Some (?ms, ?c # cs, anchors_of A (vs @ [i]))"
    using open_ev add_node_fresh [OF num i ok] num by (simp add: open_node_def)
  ultimately show ?thesis
    using drop_firsts_fresh [OF fold_prefix [of w, OF w] i]
    by (simp add: compose_append close_ev EVENT_INIT_def)
qed

lemma compose_dump_events:
  assumes d: "doc_ok d" and "valid_id d i" "card (unseen d vs) < n" "prefix (walk n (kids d) i vs) A"
  shows "node_composes (dump_events n d (anchor_name A)) (walk n (kids d)) A d i vs"
  using assms(2-4)
proof (induction n arbitrary: i vs)
  case (Suc n)
  have pre: "prefix vs (walk n (kids d) x vs)" for x vs using append_prefixD [OF walk_prefix] .
  have vi: "prefix (vs @ [i]) A" using prefix_order.trans [OF walk_prefix Suc.prems(3)] .
  show ?case
  proof (cases "i \<in> set vs")
    case True
    have "count_list vs i \<noteq> 0" using True by (simp add: count_list_0_iff)
    then have "2 \<le> count_list A i" using count_list_prefix [OF vi, of i] by simp
    then obtain x where x: "anchor_name A i = Some x" by (simp add: anchor_name_def anchor_no_pos(1) [symmetric])
    show ?thesis using True x find_anchor_of [OF x, of vs]
      by (simp add: node_composes_def EVENT_INIT_def add_child_top anchors_of_snoc)
  next
    case False
    have kid: "node_composes (dump_events n d (anchor_name A)) (walk n (kids d)) A d x vs'"
      if "x \<in> set (kids d i)" "prefix (vs @ [i]) vs'" "prefix (walk n (kids d) x vs') A" for x vs'
      using unseen_mono [OF that(2), of d] unseen_visit [OF Suc.prems(1) False] Suc.prems(2)
      by (intro Suc.IH kids_valid [OF d Suc.prems(1) that(1)] that(3)) simp
    have A': "prefix (fold (walk n (kids d)) (kids d i) (vs @ [i])) A" using Suc.prems(3) False by simp
    show ?thesis unfolding node_composes_def
    proof (intro allI impI, elim conjE)
      fix ns cs
      assume len: "length ns = length (firsts vs)" and ok: "cs_ok cs ns"
      have num: "num A i = int (length ns) + 1" using num_fresh [OF vi False] len by simp
      note coll = compose_collection [where ev = "dump_events n d (anchor_name A)" and w = "walk n (kids d)" and xs = "kids d i",
        OF num len False ok _ _ _ kid pre A']
      let ?t = "n_tag (node_at d i)" and ?x = "anchor_name A i"
      show "composes (dump_events (Suc n) d (anchor_name A) i vs) (ns, cs, anchors_of A vs)
        = Some (adopt_top (num A i) cs ns @ map (final d A) (drop (length (firsts vs)) (firsts (walk (Suc n) (kids d) i vs))), cs,
          anchors_of A (walk (Suc n) (kids d) i vs))"
      proof (cases "n_data (node_at d i)")
        case (ScalarNode v style)
        then show ?thesis using False add_node_fresh [OF num False ok]
          by (simp add: kids_def [of d i] children_def EVENT_INIT_def Let_def final_def abs_node_def)
      next
        case (SequenceNode sis style)
        have "fold (\<lambda>a. adopt (num A a)) (kids d i) (ASequence (node_tag YAML_DEFAULT_SEQUENCE_TAG (Some ?t)) []) = final d A i"
          using SequenceNode by (simp add: adopt_sequence final_def abs_node_def kids_def children_def)
        from coll [OF _ _ this] SequenceNode False show ?thesis
          by (simp add: Let_def)
      next
        case (MappingNode pairs style)
        have "fold (\<lambda>a. adopt (num A a)) (kids d i) (AMapping (node_tag YAML_DEFAULT_MAPPING_TAG (Some ?t)) []) = final d A i"
          using MappingNode adopt_mapping [of "num A" "[]" "elems pairs"] by (simp add: final_def abs_node_def kids_def children_def o_def)
        from coll [OF _ _ this] MappingNode False show ?thesis
          by (simp add: Let_def)
      qed
    qed
  qed
qed simp

lemma compose_document:
  assumes "doc_ok d" "doc_nodes d \<noteq> []"
  shows "composes (document_events d) ([], [], []) = Some (map (final d (visits d)) (firsts (visits d)), [], anchors_of (visits d) (visits d))"
proof -
  have "card (unseen d []) < Suc (length (doc_nodes d))" by (simp add: unseen_def card_ids)
  from compose_dump_events [OF assms(1) root_valid [OF assms(2)] this, of "visits d"]
  show ?thesis unfolding node_composes_def document_events_def visits_def [symmetric]
    by (simp del: walk.simps dump_events.simps add: cs_ok_def adopt_top_def anchors_of_def)
qed

subsection \<open>Samples\<close>

text \<open>An emitter that meets the contract: it deletes the event.\<close>

definition swallow :: "unit emitM" where
  "swallow ev = modifyM (\<lambda>e. e\<lparr>e_mem := yaml_event_delete ev (e_mem e)\<rparr>)"

lemma swallow_contract: "emit_contract swallow (\<lambda>_. True)"
  by (simp add: emit_contract_def swallow_def wp_simps ebalance_def)

definition sample_dumper :: "bool list \<Rightarrow> unit yaml_dumper" where
  "sample_dumper bs = \<lparr>e_mem = \<lparr>outcomes = bs, live = 5\<rparr>, e_error = YAML_NO_ERROR, e_problem = [], e_write_handler = None,
     e_write_handler_data = (), e_buffer = null_buffer, e_raw_buffer = null_buffer,
     e_encoding = YAML_ANY_ENCODING, e_canonical = False, e_best_indent = 0, e_best_width = 0,
     e_unicode = False, e_line_break = YAML_ANY_BREAK, e_states = null_stack sizeof_int,
     e_state = YAML_EMIT_STREAM_START_STATE, e_events = null_queue sizeof_event,
     e_indents = null_stack sizeof_int, e_tag_directives = null_stack sizeof_tag_directive,
     e_indent = 0, e_flow_level = 0, e_root_context = False, e_sequence_context = False, e_mapping_context = False,
     e_simple_key_context = False, e_line = 0, e_column = 0, e_whitespace = False, e_indention = False,
     e_open_ended = 0, e_anchor = None, e_alias = False, e_tag_handle = None, e_tag_suffix = None,
     e_scalar = None, e_multiline = False, e_flow_plain_allowed = False, e_block_plain_allowed = False,
     e_single_quoted_allowed = False, e_block_allowed = False, e_style = YAML_ANY_SCALAR_STYLE,
     e_opened = True, e_closed = False, e_anchors = None, e_last_anchor_id = 0, e_document = None\<rparr>"

text \<open>A sequence that contains the same scalar twice.\<close>

definition shared_document :: yaml_document where
  "shared_document = null_document\<lparr>d_nodes := \<lparr>elems =
     [NODE_INIT YAML_DEFAULT_SEQUENCE_TAG (SequenceNode \<lparr>elems = [2, 2], cap = 16, esz = sizeof_int\<rparr> YAML_BLOCK_SEQUENCE_STYLE) null_mark null_mark,
      NODE_INIT YAML_DEFAULT_SCALAR_TAG (ScalarNode [0x61] YAML_PLAIN_SCALAR_STYLE) null_mark null_mark], cap = 16, esz = sizeof_node\<rparr>\<rparr>"

lemma shared_document:
  "doc_ok shared_document" "length (doc_nodes shared_document) = 2" "length (doc_nodes shared_document) \<le> INT_MAX"
  "doc_utf8 shared_document"
  by (auto simp: shared_document_def doc_ok_def NODE_INIT_def stack_ok_def INT_MAX_def doc_utf8_def null_document_def lit_def
      YAML_DEFAULT_SEQUENCE_TAG_def YAML_DEFAULT_SCALAR_TAG_def intro!: check_utf8_ascii simp del: yaml_check_utf8.simps)

lemma shared_visits: "visits shared_document = [1, 2, 2]" "firsts [1, 2, 2 :: int] = [1, 2]"
  by (simp_all add: visits_def shared_document_def kids_def children_def node_at_def NODE_INIT_def numeral_eq_Suc firsts_def)

lemma sample_dumper_idle: "dumper_idle (sample_dumper bs)"
  by (simp add: dumper_idle_def sample_dumper_def)

lemma sample_dump: "\<exists>e'. yaml_emitter_dump swallow shared_document (sample_dumper []) = Return () e'"
proof -
  have "case yaml_emitter_dump swallow shared_document (sample_dumper []) of Return _ _ \<Rightarrow> True | _ \<Rightarrow> False"
    by code_simp
  then show ?thesis by (simp split: result.splits)
qed

subsection \<open>Properties\<close>

text \<open>C15: Given an emitter that takes over the blocks of its events, \<open>yaml_emitter_dump\<close> on a well-formed
  document does not fault, not even on a cyclic one, and ends; if it returns 1 it has emitted exactly the events of
  the document, after the one that opens the stream where needed (an empty document closes the stream); on both ways
  out every block of the document has been handed over or freed, and the dumper is ready for the next document.\<close>

theorem dump_emits_document:
  assumes "emit_contract emit J" "doc_ok d" "length (doc_nodes d) \<le> INT_MAX" "doc_utf8 d" "dumper_idle e" "J (yaml_emitter.truncate e)"
  shows "wp (yaml_emitter_dump emit d)
    (\<lambda>_ e'. emits emit (yaml_emitter.truncate e) (all_events (e_opened e) (e_closed e) d) (yaml_emitter.truncate e')
       \<and> e_opened e' \<and> (e_closed e' \<longleftrightarrow> e_closed e \<or> doc_nodes d = []) \<and> dumper_idle e' \<and> e_document e' = None
       \<and> ebalance (yaml_emitter.truncate e') = ebalance (yaml_emitter.truncate e) - document_blocks d)
    (\<lambda>e'. dumper_idle e' \<and> e_document e' = None
       \<and> ebalance (yaml_emitter.truncate e') = ebalance (yaml_emitter.truncate e) - document_blocks d) e"
  by (rule wp_mono [OF wp_dump [OF assms]]) (auto simp: dump_post_def dump_ended_def)

theorem dump_emits_document_witness:
  "document_blocks shared_document = 5 \<and> wp (yaml_emitter_dump swallow shared_document)
    (\<lambda>_ e'. emits swallow (yaml_emitter.truncate (sample_dumper [])) (all_events True False shared_document) (yaml_emitter.truncate e')
       \<and> ebalance (yaml_emitter.truncate e') = 0) (\<lambda>e'. ebalance (yaml_emitter.truncate e') = 0) (sample_dumper [])"
proof -
  have "document_blocks shared_document = 5" "ebalance (yaml_emitter.truncate (sample_dumper [])) = 5"
      "e_opened (sample_dumper [])" "\<not> e_closed (sample_dumper [])"
    by (simp_all add: document_blocks_def shared_document_def NODE_INIT_def node_blocks_def null_document_def tag_directives_blocks_def
        ebalance_def core_blocks_def sample_dumper_def yaml_emitter.truncate_def null_buffer_def null_stack_def null_queue_def)
  with wp_mono [OF dump_emits_document [OF swallow_contract shared_document(1,3,4) sample_dumper_idle TrueI, of "[]"]]
  show ?thesis by auto
qed

text \<open>C17: The events that \<open>yaml_emitter_dump\<close> emits are well nested: they take the grammar of event streams
  from the state before the call to the one after it.\<close>

theorem dump_events_well_nested:
  assumes "emit_contract emit J" "doc_ok d" "length (doc_nodes d) \<le> INT_MAX" "doc_utf8 d" "dumper_idle e" "J (yaml_emitter.truncate e)"
    and "e_closed e \<longrightarrow> e_opened e \<and> doc_nodes d = []" "yaml_emitter_dump emit d e = Return () e'"
  shows "\<exists>xs. emits emit (yaml_emitter.truncate e) xs (yaml_emitter.truncate e')
    \<and> accepts (dump_state (e_opened e) (e_closed e)) (map event_data_type xs) = Some (dump_state (e_opened e') (e_closed e'))"
  using wp_Return [OF wp_dump [OF assms(1-6)] assms(8)] all_events_ok [OF assms(2,7)]
  by (auto simp: dump_post_def)

theorem dump_events_well_nested_witness:
  "\<exists>xs e'. yaml_emitter_dump swallow shared_document (sample_dumper []) = Return () e'
    \<and> emits swallow (yaml_emitter.truncate (sample_dumper [])) xs (yaml_emitter.truncate e')
    \<and> accepts ADocs (map event_data_type xs) = Some ADocs"
proof -
  obtain e' where run: "yaml_emitter_dump swallow shared_document (sample_dumper []) = Return () e'" using sample_dump ..
  have "e_opened e' \<and> \<not> e_closed e'"
    using wp_Return [OF wp_dump [OF swallow_contract shared_document(1,3,4) sample_dumper_idle TrueI] run] shared_document(2)
    by (auto simp: dump_post_def sample_dumper_def)
  with dump_events_well_nested [OF swallow_contract shared_document(1,3,4) sample_dumper_idle TrueI _ run] run show ?thesis
    by (auto simp: sample_dumper_def dump_state_def)
qed

text \<open>A document whose nodes are numbered in the order of their first visit, each of them reachable from the root.\<close>

definition preordered :: "yaml_document \<Rightarrow> bool" where
  "preordered d \<longleftrightarrow> firsts (visits d) = [1..int (length (doc_nodes d))] \<and> (\<forall>n\<in>set (doc_nodes d). \<not> streq (n_tag n) (lit ''!''))"

lemma takeWhile_upto: "1 \<le> i \<Longrightarrow> i \<le> n \<Longrightarrow> length (takeWhile (\<lambda>x. x \<noteq> i) [1..n]) = nat (i - 1)"
proof -
  assume i: "1 \<le> i" "i \<le> n"
  then have "[1..n] = [1..i - 1] @ [i..n]" by (simp add: upto_split1)
  moreover have "[i..n] = i # [i + 1..n]" using i by (simp add: upto.simps)
  moreover have "takeWhile (\<lambda>x. x \<noteq> i) ([1..i - 1] @ i # [i + 1..n]) = [1..i - 1]" by (subst takeWhile_append2) auto
  ultimately show ?thesis by simp
qed

lemma preordered_final:
  assumes d: "doc_ok d" and p: "preordered d"
  shows "map (final d (visits d)) (firsts (visits d)) = abs_doc d"
proof (rule nth_equalityI)
  let ?A = "visits d" and ?N = "length (doc_nodes d)"
  have f: "firsts ?A = [1..int ?N]" using p by (simp add: preordered_def)
  then show "length (map (final d ?A) (firsts ?A)) = length (abs_doc d)" by (simp add: abs_doc_def)
  fix k
  assume "k < length (map (final d ?A) (firsts ?A))"
  then have k: "k < ?N" using f by simp
  have num: "num ?A x = x" if "valid_id d x" for x
    using that f takeWhile_upto [of x "int ?N"] by (simp add: num_def valid_id_def)
  let ?n = "doc_nodes d ! k"
  have n: "?n \<in> set (doc_nodes d)" "node_at d (int k + 1) = ?n" using k by (simp_all add: node_at_def)
  have tag: "node_tag dflt (Some (n_tag ?n)) = n_tag ?n" for dflt using p n(1) by (simp add: preordered_def node_tag_def)
  have "data_ok ?N (n_data ?n)" using d n(1) by (simp add: doc_ok_def)
  then have "renumber (num ?A) (abs_node ?n) = abs_node ?n"
    by (cases "n_data ?n") (auto simp: abs_node_def tag data_ok_alt id_ok_def valid_id_def intro!: map_idI num simp del: data_ok.simps)
  then show "map (final d ?A) (firsts ?A) ! k = abs_doc d ! k" using k n(2) f by (simp add: final_def abs_doc_def add.commute)
qed

text \<open>C16: Composing the events between the start and the end of a dumped document gives back its nodes, in the
  order in which they are first reached from the root and with their references renumbered accordingly; for a document
  whose nodes are numbered in that order already (and that has no non-specific tags) it gives back the very document.\<close>

theorem dump_compose_roundtrip:
  assumes "emit_contract emit J" "doc_ok d" "length (doc_nodes d) \<le> INT_MAX" "doc_utf8 d" "dumper_idle e" "J (yaml_emitter.truncate e)"
    and "doc_nodes d \<noteq> []" "yaml_emitter_dump emit d e = Return () e'"
  shows "\<exists>pre xs as. emits emit (yaml_emitter.truncate e) (pre @ xs @ [DocumentEndEvent (d_end_implicit d)]) (yaml_emitter.truncate e')
    \<and> composes xs ([], [], []) = Some (map (final d (visits d)) (firsts (visits d)), [], as)
    \<and> (preordered d \<longrightarrow> composes xs ([], [], []) = Some (abs_doc d, [], as))"
proof -
  let ?pre = "(if e_opened e then [] else [StreamStartEvent YAML_ANY_ENCODING])
      @ [DocumentStartEvent (d_version_directive d) (d_tag_directives d) (d_start_implicit d)]"
  have "emits emit (yaml_emitter.truncate e) (?pre @ document_events d @ [DocumentEndEvent (d_end_implicit d)]) (yaml_emitter.truncate e')"
    using wp_Return [OF wp_dump [OF assms(1-6)] assms(8)] assms(7) by (auto simp: dump_post_def all_events_def)
  moreover note compose_document [OF assms(2,7)]
  ultimately show ?thesis using preordered_final [OF assms(2)]
    by (intro exI [of _ ?pre] exI [of _ "document_events d"] exI [of _ "anchors_of (visits d) (visits d)"] conjI) simp_all
qed

theorem dump_compose_roundtrip_witness:
  "preordered shared_document \<and> (\<exists>e' xs as. yaml_emitter_dump swallow shared_document (sample_dumper []) = Return () e'
     \<and> composes xs ([], [], []) = Some ([ASequence YAML_DEFAULT_SEQUENCE_TAG [2, 2], AScalar YAML_DEFAULT_SCALAR_TAG [0x61]], [], as))"
proof -
  have "firsts (visits shared_document) = [1..int (length (doc_nodes shared_document))]"
    by (simp add: shared_visits shared_document(2) upto.simps)
  moreover have "\<forall>n\<in>set (doc_nodes shared_document). \<not> streq (n_tag n) (lit ''!'')"
    by (simp add: shared_document_def NODE_INIT_def streq_def c_str_def lit_def
        YAML_DEFAULT_SEQUENCE_TAG_def YAML_DEFAULT_SCALAR_TAG_def)
  ultimately have pre: "preordered shared_document" by (simp add: preordered_def)
  obtain e' where run: "yaml_emitter_dump swallow shared_document (sample_dumper []) = Return () e'" using sample_dump ..
  have "doc_nodes shared_document \<noteq> []" using shared_document(2) by auto
  from dump_compose_roundtrip [OF swallow_contract shared_document(1,3,4) sample_dumper_idle TrueI this run] pre run
  show ?thesis by (auto simp: abs_doc_def abs_node_def shared_document_def NODE_INIT_def)
qed

lemma length_dump_table [simp]: "length (dump_table N A ws) = N"
  by (simp add: dump_table_def)

text \<open>C34: After the first pass over a document, cyclic or not, the table of anchors holds for every node the
  number of its visits; a node has an anchor exactly if it is visited at least twice, and no two nodes share one.\<close>

theorem anchor_pass:
  assumes "doc_ok d" "doc_nodes d \<noteq> []" "e_document e = Some d"
    and "e_anchors e = Some (replicate (length (doc_nodes d)) \<lparr>an_references = 0, an_anchor = 0, an_serialized = False\<rparr>)" "e_last_anchor_id e = 0"
  shows "\<exists>e' as. yaml_emitter_anchor_node (Suc (length (doc_nodes d))) 1 e = Return () e' \<and> e_anchors e' = Some as
    \<and> length as = length (doc_nodes d)
    \<and> (\<forall>i<length as. an_references (as ! i) = int (count_list (visits d) (int i + 1)) \<and> (an_anchor (as ! i) \<noteq> 0 \<longleftrightarrow> 2 \<le> an_references (as ! i)))
    \<and> (\<forall>i<length as. \<forall>j<length as. an_anchor (as ! i) = an_anchor (as ! j) \<and> an_anchor (as ! i) \<noteq> 0 \<longrightarrow> i = j)"
proof -
  let ?N = "length (doc_nodes d)"
  have "replicate ?N \<lparr>an_references = 0, an_anchor = 0, an_serialized = False\<rparr> = dump_table ?N [] []"
    by (simp add: dump_table_def map_replicate_trivial anchor_no_def flip: map_replicate_const [of _ "[0..<?N]", simplified])
  then have m: "marked ?N e [] = e" using assms(4,5) by (intro marked_start) auto
  have "card (unseen d []) < Suc ?N" by (simp add: unseen_def card_ids)
  note run = anchor_node_run [OF assms(1,3) root_valid [OF assms(2)] this, unfolded m, folded visits_def]
  have table: "e_anchors (marked ?N e (visits d)) = Some (dump_table ?N (visits d) [])" by (simp add: marked_def dump_table_def)
  have nth: "an_references (dump_table ?N (visits d) [] ! i) = int (count_list (visits d) (int i + 1))"
      "an_anchor (dump_table ?N (visits d) [] ! i) = anchor_no (visits d) (int i + 1)" if "i < ?N" for i
    using that by (simp_all add: dump_table_def)
  have inj: "anchor_no (visits d) (int i + 1) = anchor_no (visits d) (int j + 1) \<Longrightarrow> anchor_no (visits d) (int i + 1) \<noteq> 0 \<Longrightarrow> i = j" for i j
    using anchor_no_inj [of "visits d" "int i + 1" "int j + 1"] by simp
  have two: "2 \<le> count_list (visits d) x \<longleftrightarrow> anchor_no (visits d) x \<noteq> 0" for x using anchor_no_pos(1) [of "visits d" x] by simp
  show ?thesis
    by (rule exI, rule exI, rule conjI, rule run, rule conjI, rule table)
      (auto simp: nth two intro: inj)
qed

theorem anchor_pass_witness:
  "\<exists>e' as. yaml_emitter_anchor_node 3 1 ((sample_dumper [])\<lparr>e_document := Some shared_document,
       e_anchors := Some (replicate 2 \<lparr>an_references = 0, an_anchor = 0, an_serialized = False\<rparr>)\<rparr>) = Return () e'
     \<and> e_anchors e' = Some as \<and> length as = 2 \<and> an_references (as ! 1) = 2 \<and> an_anchor (as ! 1) \<noteq> 0"
proof -
  let ?e = "(sample_dumper [])\<lparr>e_document := Some shared_document,
       e_anchors := Some (replicate 2 \<lparr>an_references = 0, an_anchor = 0, an_serialized = False\<rparr>)\<rparr>"
  have ne: "doc_nodes shared_document \<noteq> []" using shared_document(2) by auto
  obtain e' as where "yaml_emitter_anchor_node 3 1 ?e = Return () e'" "e_anchors e' = Some as" "length as = 2"
      "\<forall>i<length as. an_references (as ! i) = int (count_list (visits shared_document) (int i + 1)) \<and> (an_anchor (as ! i) \<noteq> 0 \<longleftrightarrow> 2 \<le> an_references (as ! i))"
    using anchor_pass [OF shared_document(1) ne, of ?e] shared_document(2)
    by (auto simp: sample_dumper_def numeral_3_eq_3)
  then show ?thesis by (intro exI [of _ e'] exI [of _ as]) (simp add: shared_visits)
qed

text \<open>C35: The name of an anchor fits the 16 bytes that are allocated for it, for every id that an \<open>int\<close> can hold,
  and different ids have different names.\<close>

theorem generate_anchor_fits:
  assumes "0 \<le> n" "n \<le> int INT_MAX"
  shows "wp (yaml_emitter_generate_anchor n) (\<lambda>x e'. case x of
       None \<Rightarrow> live (e_mem e') = live (e_mem e)
     | Some s \<Rightarrow> live (e_mem e') = live (e_mem e) + 1 \<and> strlen s + 1 \<le> 16 \<and> (\<forall>m. 0 \<le> m \<and> streq (ANCHOR_TEMPLATE m) s \<longrightarrow> m = n)) (\<lambda>_. False) e"
proof -
  have fits: "length (ANCHOR_TEMPLATE n) < ANCHOR_TEMPLATE_LENGTH" by (rule length_anchor [OF assms])
  then have "strlen (ANCHOR_TEMPLATE n) + 1 \<le> 16" using strlen_le [of "ANCHOR_TEMPLATE n"] by (simp add: ANCHOR_TEMPLATE_LENGTH_def)
  moreover have "\<forall>m. 0 \<le> m \<and> streq (ANCHOR_TEMPLATE m) (ANCHOR_TEMPLATE n) \<longrightarrow> m = n"
    using anchor_template_inj assms(1) by (auto simp: streq_def c_str_anchor)
  ultimately show ?thesis using fits by (cases "next_outcome (e_mem e)")
    (simp add: yaml_emitter_generate_anchor_def malloc_def prog_defs wp_def)
qed

theorem generate_anchor_fits_witness:
  "ANCHOR_TEMPLATE 2147483647 = lit ''id2147483647'' \<and> yaml_emitter_generate_anchor 2147483647 (sample_dumper []) \<noteq> Fault"
proof -
  have "ANCHOR_TEMPLATE 2147483647 = lit ''id2147483647''"
    by (simp add: ANCHOR_TEMPLATE_def decimal.simps digit_def lit_def)
  with generate_anchor_fits [of 2147483647 "sample_dumper []", THEN wp_no_fault] show ?thesis by (simp add: INT_MAX_def)
qed

text \<open>C39: Where the table of anchors cannot be allocated, \<open>yaml_emitter_dump\<close> returns 0 without setting the error of
  the emitter.\<close>

theorem dump_error_unset:
  assumes "e_opened e" "e_anchors e = None" "doc_nodes d \<noteq> []" "outcomes (e_mem e) = False # bs"
  shows "\<exists>e'. yaml_emitter_dump emit d e = Error e' \<and> e_error e' = e_error e"
  using assms
  by (simp add: yaml_emitter_dump_def dump_body_def dump_document_def finallyM_def new_anchors_def prog_defs STACK_EMPTY_def
      yaml_malloc_def malloc_def next_outcome.simps yaml_emitter_delete_document_and_anchors_def freeE_def)

theorem dump_error_unset_witness:
  "\<exists>e'. yaml_emitter_dump swallow shared_document (sample_dumper [False]) = Error e' \<and> e_error e' = YAML_NO_ERROR"
proof -
  have "doc_nodes shared_document \<noteq> []" using shared_document(2) by auto
  with dump_error_unset [of "sample_dumper [False]" shared_document "[]" swallow] show ?thesis by (simp add: sample_dumper_def)
qed

end
