(* ===== verification/Strings.thy ===== *)
theory Strings
  imports Document
begin

text \<open>
  The character macros of \<open>yaml_private.h\<close>.  A \<open>yaml_string_t\<close> whose pointer stands between its start and
  its end is given by the bytes from the pointer to the end.  The strings these macros are used on are
  followed by a NUL, which is what a macro reads at the end; none of them reads on behind a NUL, because
  every look at the next byte depends on the byte before it.
\<close>

unbundle bit_operations_syntax

definition ch :: "char \<Rightarrow> yaml_char" where
  "ch c = of_nat (of_char c)"

definition octet :: "ystring \<Rightarrow> nat \<Rightarrow> yaml_char" where
  "octet s k = (if k < length s then s ! k else 0)"

definition CHECK_AT :: "ystring \<Rightarrow> char \<Rightarrow> nat \<Rightarrow> bool" where
  "CHECK_AT s c k \<longleftrightarrow> octet s k = ch c"

abbreviation CHECK :: "ystring \<Rightarrow> char \<Rightarrow> bool" where
  "CHECK s c \<equiv> CHECK_AT s c 0"

text \<open>One of several characters: \<open>CHECK(string, a) || CHECK(string, b) || ...\<close>.\<close>

definition CHECK_ANY :: "ystring \<Rightarrow> string \<Rightarrow> bool" where
  "CHECK_ANY s cs \<longleftrightarrow> (\<exists>c\<in>set cs. CHECK s c)"

definition IS_DIGIT_AT :: "ystring \<Rightarrow> nat \<Rightarrow> bool" where
  "IS_DIGIT_AT s k \<longleftrightarrow> 0x30 \<le> octet s k \<and> octet s k \<le> 0x39"

definition IS_ALPHA_AT :: "ystring \<Rightarrow> nat \<Rightarrow> bool" where
  "IS_ALPHA_AT s k \<longleftrightarrow> (0x30 \<le> octet s k \<and> octet s k \<le> 0x39) \<or> (0x41 \<le> octet s k \<and> octet s k \<le> 0x5A)
     \<or> (0x61 \<le> octet s k \<and> octet s k \<le> 0x7A) \<or> octet s k = 0x5F \<or> octet s k = 0x2D"

definition AS_DIGIT_AT :: "ystring \<Rightarrow> nat \<Rightarrow> int" where
  "AS_DIGIT_AT s k = uint (octet s k) - 0x30"

definition IS_HEX_AT :: "ystring \<Rightarrow> nat \<Rightarrow> bool" where
  "IS_HEX_AT s k \<longleftrightarrow> (0x30 \<le> octet s k \<and> octet s k \<le> 0x39) \<or> (0x41 \<le> octet s k \<and> octet s k \<le> 0x46)
     \<or> (0x61 \<le> octet s k \<and> octet s k \<le> 0x66)"

definition AS_HEX_AT :: "ystring \<Rightarrow> nat \<Rightarrow> int" where
  "AS_HEX_AT s k =
     (if 0x41 \<le> octet s k \<and> octet s k \<le> 0x46 then uint (octet s k) - 0x41 + 10
      else if 0x61 \<le> octet s k \<and> octet s k \<le> 0x66 then uint (octet s k) - 0x61 + 10
      else uint (octet s k) - 0x30)"

definition IS_ASCII_AT :: "ystring \<Rightarrow> nat \<Rightarrow> bool" where
  "IS_ASCII_AT s k \<longleftrightarrow> octet s k \<le> 0x7F"

definition IS_PRINTABLE_AT :: "ystring \<Rightarrow> nat \<Rightarrow> bool" where
  "IS_PRINTABLE_AT s k \<longleftrightarrow>
     octet s k = 0x0A
     \<or> (0x20 \<le> octet s k \<and> octet s k \<le> 0x7E)
     \<or> (octet s k = 0xC2 \<and> 0xA0 \<le> octet s (k + 1))
     \<or> (0xC2 < octet s k \<and> octet s k < 0xED)
     \<or> (octet s k = 0xED \<and> octet s (k + 1) < 0xA0)
     \<or> octet s k = 0xEE
     \<or> (octet s k = 0xEF
        \<and> \<not> (octet s (k + 1) = 0xBB \<and> octet s (k + 2) = 0xBF)
        \<and> \<not> (octet s (k + 1) = 0xBF \<and> (octet s (k + 2) = 0xBE \<or> octet s (k + 2) = 0xBF)))"

definition IS_Z_AT :: "ystring \<Rightarrow> nat \<Rightarrow> bool" where
  "IS_Z_AT s k \<longleftrightarrow> octet s k = 0"

definition IS_BOM_AT :: "ystring \<Rightarrow> nat \<Rightarrow> bool" where
  "IS_BOM_AT s k \<longleftrightarrow> octet s k = 0xEF \<and> octet s (k + 1) = 0xBB \<and> octet s (k + 2) = 0xBF"

definition IS_SPACE_AT :: "ystring \<Rightarrow> nat \<Rightarrow> bool" where
  "IS_SPACE_AT s k \<longleftrightarrow> octet s k = 0x20"

definition IS_TAB_AT :: "ystring \<Rightarrow> nat \<Rightarrow> bool" where
  "IS_TAB_AT s k \<longleftrightarrow> octet s k = 0x09"

definition IS_BLANK_AT :: "ystring \<Rightarrow> nat \<Rightarrow> bool" where
  "IS_BLANK_AT s k \<longleftrightarrow> IS_SPACE_AT s k \<or> IS_TAB_AT s k"

definition IS_BREAK_AT :: "ystring \<Rightarrow> nat \<Rightarrow> bool" where
  "IS_BREAK_AT s k \<longleftrightarrow>
     octet s k = 0x0D \<or> octet s k = 0x0A
     \<or> (octet s k = 0xC2 \<and> octet s (k + 1) = 0x85)
     \<or> (octet s k = 0xE2 \<and> octet s (k + 1) = 0x80 \<and> octet s (k + 2) = 0xA8)
     \<or> (octet s k = 0xE2 \<and> octet s (k + 1) = 0x80 \<and> octet s (k + 2) = 0xA9)"

definition IS_CRLF_AT :: "ystring \<Rightarrow> nat \<Rightarrow> bool" where
  "IS_CRLF_AT s k \<longleftrightarrow> octet s k = 0x0D \<and> octet s (k + 1) = 0x0A"

definition IS_BREAKZ_AT :: "ystring \<Rightarrow> nat \<Rightarrow> bool" where
  "IS_BREAKZ_AT s k \<longleftrightarrow> IS_BREAK_AT s k \<or> IS_Z_AT s k"

definition IS_BLANKZ_AT :: "ystring \<Rightarrow> nat \<Rightarrow> bool" where
  "IS_BLANKZ_AT s k \<longleftrightarrow> IS_BLANK_AT s k \<or> IS_BREAKZ_AT s k"

abbreviation "IS_ALPHA s \<equiv> IS_ALPHA_AT s 0"
abbreviation "IS_ASCII s \<equiv> IS_ASCII_AT s 0"
abbreviation "IS_PRINTABLE s \<equiv> IS_PRINTABLE_AT s 0"
abbreviation "IS_BOM s \<equiv> IS_BOM_AT s 0"
abbreviation "IS_SPACE s \<equiv> IS_SPACE_AT s 0"
abbreviation "IS_BLANK s \<equiv> IS_BLANK_AT s 0"
abbreviation "IS_BREAK s \<equiv> IS_BREAK_AT s 0"
abbreviation "IS_BLANKZ s \<equiv> IS_BLANKZ_AT s 0"

definition WIDTH_AT :: "ystring \<Rightarrow> nat \<Rightarrow> nat" where
  "WIDTH_AT s k = utf8_width (octet s k)"

abbreviation "WIDTH s \<equiv> WIDTH_AT s 0"

text \<open>\<open>MOVE(string)\<close>, and the bytes that \<open>COPY\<close> copies.\<close>

definition MOVE :: "ystring \<Rightarrow> ystring" where
  "MOVE s = drop (WIDTH s) s"

definition this_char :: "ystring \<Rightarrow> ystring" where
  "this_char s = take (WIDTH s) s"

text \<open>
  \<open>while (string.pointer != string.end)\<close>, where every round consumes one character.  A character of width 0
  (the loop would not end) and one that is cut off by the end of the string (the pointer would pass it) are
  faults.  The local variables that the rounds share are the argument \<open>l\<close>.
\<close>

definition char_ok :: "ystring \<Rightarrow> bool" where
  "char_ok s \<longleftrightarrow> 0 < WIDTH s \<and> WIDTH s \<le> length s"

function while_chars :: "(ystring \<Rightarrow> 'l \<Rightarrow> ('s, 'l) prog) \<Rightarrow> ystring \<Rightarrow> 'l \<Rightarrow> ('s, 'l) prog" where
  "while_chars body s l =
     (if s = [] then returnM l
      else if \<not> char_ok s then faultM
      else bindM (body s l) (\<lambda>l'. while_chars body (MOVE s) l'))"
  by pat_completeness auto
termination
  by (relation "measure (\<lambda>(_, s, _). length s)") (auto simp: char_ok_def MOVE_def)

declare while_chars.simps [simp del]

subsection \<open>Strings as sequences of characters\<close>

text \<open>The bytes of a sequence of characters; the code looks at no more than the widths of the bytes.\<close>

definition enc :: "32 word list \<Rightarrow> ystring" where
  "enc cs = concat (map utf8_put cs)"

definition is_char :: "32 word \<Rightarrow> bool" where
  "is_char c \<longleftrightarrow> unat c < 0x200000"

lemma check_utf8_enc: "yaml_check_utf8 s \<longleftrightarrow> (\<exists>cs. s = enc cs \<and> (\<forall>c\<in>set cs. is_char c))"
  by (auto simp: check_utf8_iff enc_def is_char_def)

end
