(* ===== verification/Emitter.thy ===== *)
theory Emitter
  imports Strings Objects
begin

text \<open>
  The emitter (\<open>emitter.c\<close>): it turns events into text.  Events are queued until enough of them are known
  to choose a style (\<open>yaml_emitter_need_more_events\<close>); each one is then analysed and handed to a state machine,
  which writes to the output buffer through the macros \<open>PUT\<close>, \<open>PUT_BREAK\<close>, \<open>WRITE\<close> and \<open>WRITE_BREAK\<close>.
  One definition per function of \<open>emitter.c\<close>.

  \<open>anchor_data\<close>, \<open>tag_data\<close> and \<open>scalar_data\<close> hold pointers into the event and lengths; here they hold the
  strings of these lengths, a NULL pointer being \<open>None\<close>.
\<close>

unbundle bit_operations_syntax

subsection \<open>Writing to the buffer\<close>

text \<open>Bytes are stored at the pointer; behind the end of the buffer that is a fault.\<close>

definition store :: "ystring \<Rightarrow> (('w, 'z) yaml_writer_scheme, unit) prog" where
  "store bs = readM (\<lambda>e. let b = e_buffer e in
     if b_pos b + length bs \<le> b_cap b
     then modifyM (\<lambda>e. e\<lparr>e_buffer := b\<lparr>b_data := take (b_pos b) (b_data b) @ bs, b_pos := b_pos b + length bs\<rparr>\<rparr>)
     else faultM)"

definition FLUSH :: "(('w, 'z) yaml_writer_scheme, unit) prog" where
  "FLUSH = readM (\<lambda>e. if b_pos (e_buffer e) + 5 < b_cap (e_buffer e) then returnM () else yaml_emitter_flush)"

definition PUT :: "yaml_char \<Rightarrow> ('w yaml_emitter, unit) prog" where
  "PUT v = seqM FLUSH (seqM (store [v]) (modifyM (\<lambda>e. e\<lparr>e_column := e_column e + 1\<rparr>)))"

definition break_bytes :: "yaml_break \<Rightarrow> ystring" where
  "break_bytes b = (case b of
     YAML_CR_BREAK \<Rightarrow> [0x0D] | YAML_LN_BREAK \<Rightarrow> [0x0A] | YAML_CRLN_BREAK \<Rightarrow> [0x0D, 0x0A] | YAML_ANY_BREAK \<Rightarrow> [])"

abbreviation new_line :: "('w yaml_emitter, unit) prog" where
  "new_line \<equiv> modifyM (\<lambda>e. e\<lparr>e_column := 0, e_line := e_line e + 1\<rparr>)"

definition PUT_BREAK :: "('w yaml_emitter, unit) prog" where
  "PUT_BREAK = seqM FLUSH (seqM (readM (\<lambda>e. store (break_bytes (e_line_break e)))) new_line)"

definition WRITE :: "ystring \<Rightarrow> ('w yaml_emitter, unit) prog" where
  "WRITE s = seqM FLUSH (seqM (store (this_char s)) (modifyM (\<lambda>e. e\<lparr>e_column := e_column e + 1\<rparr>)))"

text \<open>\<open>WRITE_BREAK\<close> drops the result of \<open>PUT_BREAK\<close>.\<close>

definition ignoreM :: "('s, unit) prog \<Rightarrow> ('s, unit) prog" where
  "ignoreM m s = (case m s of Return _ s' \<Rightarrow> Return () s' | Error s' \<Rightarrow> Return () s' | Fault \<Rightarrow> Fault)"

definition WRITE_BREAK :: "ystring \<Rightarrow> ('w yaml_emitter, unit) prog" where
  "WRITE_BREAK s = seqM FLUSH
     (if CHECK s CHR 0x0A then ignoreM PUT_BREAK
      else seqM (store (this_char s)) new_line)"

definition unlessM :: "bool \<Rightarrow> ('s, unit) prog \<Rightarrow> ('s, unit) prog" where
  "unlessM b m = (if b then returnM () else m)"

definition whenM :: "bool \<Rightarrow> ('s, unit) prog \<Rightarrow> ('s, unit) prog" where
  "whenM b m = (if b then m else returnM ())"

abbreviation set_ws :: "bool \<Rightarrow> bool \<Rightarrow> ('w yaml_emitter, unit) prog" where
  "set_ws w i \<equiv> modifyM (\<lambda>e. e\<lparr>e_whitespace := w, e_indention := i\<rparr>)"

abbreviation set_indention :: "bool \<Rightarrow> ('w yaml_emitter, unit) prog" where
  "set_indention i \<equiv> modifyM (\<lambda>e. e\<lparr>e_indention := i\<rparr>)"

subsection \<open>Errors, directives, indentation\<close>

definition yaml_emitter_set_emitter_error :: "string \<Rightarrow> (('w, 'z) yaml_writer_scheme, 'a) prog" where
  "yaml_emitter_set_emitter_error problem = errorM (\<lambda>e. e\<lparr>e_error := YAML_EMITTER_ERROR, e_problem := problem\<rparr>)"

definition push_stackE ::
    "('w yaml_emitter \<Rightarrow> 'a ystack) \<Rightarrow> ('a ystack \<Rightarrow> 'w yaml_emitter \<Rightarrow> 'w yaml_emitter) \<Rightarrow> 'a \<Rightarrow> ('w yaml_emitter, unit) prog" where
  "push_stackE get put x e = (case PUSH x (get e, e_mem e) of
     Return _ (st, h) \<Rightarrow> Return () (put st (e\<lparr>e_mem := h\<rparr>))
   | Error (st, h) \<Rightarrow> Error (put st (e\<lparr>e_mem := h, e_error := YAML_MEMORY_ERROR\<rparr>))
   | Fault \<Rightarrow> Fault)"

definition PUSH_STATE_E :: "yaml_emitter_state \<Rightarrow> ('w yaml_emitter, unit) prog" where
  "PUSH_STATE_E = push_stackE e_states (\<lambda>st e. e\<lparr>e_states := st\<rparr>)"

text \<open>\<open>emitter->state = POP(emitter, emitter->states)\<close> and \<open>emitter->indent = POP(emitter, emitter->indents)\<close>.\<close>

definition POP_STATE_E :: "('w yaml_emitter, unit) prog" where
  "POP_STATE_E = bindM (zoomM e_states (\<lambda>st e. e\<lparr>e_states := st\<rparr>) POP) (\<lambda>s. modifyM (\<lambda>e. e\<lparr>e_state := s\<rparr>))"

definition POP_INDENT :: "('w yaml_emitter, unit) prog" where
  "POP_INDENT = bindM (zoomM e_indents (\<lambda>st e. e\<lparr>e_indents := st\<rparr>) POP) (\<lambda>i. modifyM (\<lambda>e. e\<lparr>e_indent := i\<rparr>))"

abbreviation set_stateE :: "yaml_emitter_state \<Rightarrow> ('w yaml_emitter, unit) prog" where
  "set_stateE s \<equiv> modifyM (\<lambda>e. e\<lparr>e_state := s\<rparr>)"

definition strdupE :: "ystring \<Rightarrow> ('w yaml_emitter, ystring option) prog" where
  "strdupE s = zoomM e_mem (\<lambda>h e. e\<lparr>e_mem := h\<rparr>) (yaml_strdup (Some s))"

definition yaml_emitter_append_tag_directive :: "yaml_tag_directive \<Rightarrow> bool \<Rightarrow> ('w yaml_emitter, unit) prog" where
  "yaml_emitter_append_tag_directive v allow_duplicates =
     readM (\<lambda>e.
       if \<exists>td\<in>set (elems (e_tag_directives e)). streq (td_handle v) (td_handle td) then
         (if allow_duplicates then returnM ()
          else yaml_emitter_set_emitter_error ''duplicate %TAG directive'')
       else
         bindM (strdupE (td_handle v)) (\<lambda>handle.
         bindM (strdupE (td_prefix v)) (\<lambda>prefix.
         cleanupM
           (case (handle, prefix) of
              (Some h, Some pr) \<Rightarrow>
                push_stackE e_tag_directives (\<lambda>st e. e\<lparr>e_tag_directives := st\<rparr>) \<lparr>td_handle = h, td_prefix = pr\<rparr>
            | _ \<Rightarrow> errorM (\<lambda>e. e\<lparr>e_error := YAML_MEMORY_ERROR\<rparr>))
           (freeE (\<lambda>h. free_string prefix (free_string handle h))))))"

definition yaml_emitter_increase_indent :: "bool \<Rightarrow> bool \<Rightarrow> ('w yaml_emitter, unit) prog" where
  "yaml_emitter_increase_indent flow indentless =
     seqM (readM (\<lambda>e. push_stackE e_indents (\<lambda>st e. e\<lparr>e_indents := st\<rparr>) (e_indent e)))
       (modifyM (\<lambda>e.
          if e_indent e < 0 then e\<lparr>e_indent := (if flow then e_best_indent e else 0)\<rparr>
          else if \<not> indentless then e\<lparr>e_indent := e_indent e + e_best_indent e\<rparr>
          else e))"

subsection \<open>Writers\<close>

definition yaml_emitter_write_bom :: "(('w, 'z) yaml_writer_scheme, unit) prog" where
  "yaml_emitter_write_bom = seqM FLUSH (store [0xEF, 0xBB, 0xBF])"

definition yaml_emitter_write_indent :: "('w yaml_emitter, unit) prog" where
  "yaml_emitter_write_indent =
     seqM (readM (\<lambda>e. let indent = (if e_indent e \<ge> 0 then e_indent e else 0) in
       seqM (whenM (\<not> e_indention e \<or> e_column e > indent \<or> (e_column e = indent \<and> \<not> e_whitespace e)) PUT_BREAK)
         (readM (\<lambda>e. whileM (nat (indent - e_column e)) (\<lambda>e. e_column e < indent) (PUT 0x20)))))
     (set_ws True True)"

definition write_all :: "ystring \<Rightarrow> ('w yaml_emitter, unit) prog" where
  "write_all s = while_chars (\<lambda>s _. WRITE s) s ()"

definition need_space :: "bool \<Rightarrow> ('w yaml_emitter, unit) prog" where
  "need_space need_whitespace = readM (\<lambda>e. whenM (need_whitespace \<and> \<not> e_whitespace e) (PUT 0x20))"

definition yaml_emitter_write_indicator :: "ystring \<Rightarrow> bool \<Rightarrow> bool \<Rightarrow> bool \<Rightarrow> ('w yaml_emitter, unit) prog" where
  "yaml_emitter_write_indicator indicator need_whitespace is_whitespace is_indention =
     seqM (need_space need_whitespace)
     (seqM (write_all (c_str indicator))
       (modifyM (\<lambda>e. e\<lparr>e_whitespace := is_whitespace, e_indention := (e_indention e \<and> is_indention)\<rparr>)))"

definition yaml_emitter_write_anchor :: "ystring \<Rightarrow> ('w yaml_emitter, unit) prog" where
  "yaml_emitter_write_anchor v = seqM (write_all v) (set_ws False False)"

definition yaml_emitter_write_tag_handle :: "ystring \<Rightarrow> ('w yaml_emitter, unit) prog" where
  "yaml_emitter_write_tag_handle v = seqM (need_space True) (seqM (write_all v) (set_ws False False))"

definition hex_digit :: "32 word \<Rightarrow> yaml_char" where
  "hex_digit d = ucast (d + (if d < 10 then 0x30 else 0x41 - 10))"

primrec put_all :: "ystring \<Rightarrow> ('w yaml_emitter, unit) prog" where
  "put_all [] = returnM ()"
| "put_all (b # bs) = seqM (PUT b) (put_all bs)"

definition percent :: "yaml_char \<Rightarrow> ystring" where
  "percent b = (let v = ucast b :: 32 word in [ch CHR ''%'', hex_digit (drop_bit 4 v), hex_digit (v AND 0x0F)])"

definition tag_char :: "ystring \<Rightarrow> bool" where
  "tag_char s \<longleftrightarrow> IS_ALPHA s \<or> CHECK_ANY s '';/?:@&=+$,_.~*'' \<or> CHECK s CHR 0x27 \<or> CHECK_ANY s ''()[]''"

definition yaml_emitter_write_tag_content :: "ystring \<Rightarrow> bool \<Rightarrow> ('w yaml_emitter, unit) prog" where
  "yaml_emitter_write_tag_content v need_whitespace =
     seqM (need_space need_whitespace)
     (seqM (while_chars (\<lambda>s _. if tag_char s then WRITE s else put_all (concat (map percent (this_char s)))) v ())
       (set_ws False False))"


text \<open>Plain scalars; the local variables are \<open>spaces\<close> and \<open>breaks\<close>.\<close>

definition plain_char :: "bool \<Rightarrow> ystring \<Rightarrow> bool \<times> bool \<Rightarrow> ('w yaml_emitter, bool \<times> bool) prog" where
  "plain_char allow_breaks s = (\<lambda>(spaces, breaks).
     if IS_SPACE s then
       seqM (readM (\<lambda>e.
         if allow_breaks \<and> \<not> spaces \<and> e_column e > e_best_width e \<and> \<not> IS_SPACE_AT s 1
         then yaml_emitter_write_indent else WRITE s))
       (returnM (True, breaks))
     else if IS_BREAK s then
       seqM (whenM (\<not> breaks \<and> CHECK s CHR 0x0A) PUT_BREAK)
       (seqM (WRITE_BREAK s)
       (seqM (set_indention True)
         (returnM (spaces, True))))
     else
       seqM (whenM breaks yaml_emitter_write_indent)
       (seqM (WRITE s)
       (seqM (set_indention False)
         (returnM (False, False)))))"

definition yaml_emitter_write_plain_scalar :: "ystring \<Rightarrow> bool \<Rightarrow> ('w yaml_emitter, unit) prog" where
  "yaml_emitter_write_plain_scalar v allow_breaks =
     seqM (readM (\<lambda>e. whenM (\<not> e_whitespace e \<and> (v \<noteq> [] \<or> e_flow_level e \<noteq> 0)) (PUT 0x20)))
     (seqM (while_chars (plain_char allow_breaks) v (False, False))
       (set_ws False False))"

definition single_quoted_char :: "bool \<Rightarrow> nat \<Rightarrow> ystring \<Rightarrow> bool \<times> bool \<Rightarrow> ('w yaml_emitter, bool \<times> bool) prog" where
  "single_quoted_char allow_breaks len s = (\<lambda>(spaces, breaks).
     if IS_SPACE s then
       seqM (readM (\<lambda>e.
         if allow_breaks \<and> \<not> spaces \<and> e_column e > e_best_width e \<and> length s \<noteq> len \<and> length s \<noteq> 1 \<and> \<not> IS_SPACE_AT s 1
         then yaml_emitter_write_indent else WRITE s))
       (returnM (True, breaks))
     else if IS_BREAK s then
       seqM (whenM (\<not> breaks \<and> CHECK s CHR 0x0A) PUT_BREAK)
       (seqM (WRITE_BREAK s)
       (seqM (set_indention True)
         (returnM (spaces, True))))
     else
       seqM (whenM breaks yaml_emitter_write_indent)
       (seqM (whenM (CHECK s CHR 0x27) (PUT 0x27))
       (seqM (WRITE s)
       (seqM (set_indention False)
         (returnM (False, False))))))"

definition yaml_emitter_write_single_quoted_scalar :: "ystring \<Rightarrow> bool \<Rightarrow> ('w yaml_emitter, unit) prog" where
  "yaml_emitter_write_single_quoted_scalar v allow_breaks =
     seqM (yaml_emitter_write_indicator [0x27] True False False)
     (bindM (while_chars (single_quoted_char allow_breaks (length v)) v (False, False)) (\<lambda>(spaces, breaks).
       seqM (whenM breaks yaml_emitter_write_indent)
       (seqM (yaml_emitter_write_indicator [0x27] False False False)
         (set_ws False False))))"

text \<open>
  Double-quoted scalars: \<open>dq_value\<close> decodes the character without looking at its trailing bytes, \<open>dq_escape\<close> is
  what follows the backslash.
\<close>

definition dq_value :: "ystring \<Rightarrow> 32 word" where
  "dq_value s = utf8_value (this_char s)"

definition hex_digits :: "nat \<Rightarrow> 32 word \<Rightarrow> ystring" where
  "hex_digits width v = map (\<lambda>i. hex_digit (drop_bit (4 * i) v AND 0x0F)) (rev [0..<width])"

definition dq_escape :: "32 word \<Rightarrow> ystring" where
  "dq_escape v =
     (if v = 0x00 then [ch CHR ''0''] else if v = 0x07 then [ch CHR ''a''] else if v = 0x08 then [ch CHR ''b'']
      else if v = 0x09 then [ch CHR ''t''] else if v = 0x0A then [ch CHR ''n''] else if v = 0x0B then [ch CHR ''v'']
      else if v = 0x0C then [ch CHR ''f''] else if v = 0x0D then [ch CHR ''r''] else if v = 0x1B then [ch CHR ''e'']
      else if v = 0x22 then [0x22] else if v = 0x5C then [0x5C] else if v = 0x85 then [ch CHR ''N'']
      else if v = 0xA0 then [ch CHR ''_''] else if v = 0x2028 then [ch CHR ''L''] else if v = 0x2029 then [ch CHR ''P'']
      else if v \<le> 0xFF then ch CHR ''x'' # hex_digits 2 v
      else if v \<le> 0xFFFF then ch CHR ''u'' # hex_digits 4 v
      else ch CHR ''U'' # hex_digits 8 v)"

definition must_escape :: "bool \<Rightarrow> ystring \<Rightarrow> bool" where
  "must_escape unicode s \<longleftrightarrow> \<not> IS_PRINTABLE s \<or> (\<not> unicode \<and> \<not> IS_ASCII s) \<or> IS_BOM s \<or> IS_BREAK s
     \<or> CHECK s CHR 0x22 \<or> CHECK s CHR 0x5C"

definition double_quoted_char :: "bool \<Rightarrow> nat \<Rightarrow> ystring \<Rightarrow> bool \<Rightarrow> ('w yaml_emitter, bool) prog" where
  "double_quoted_char allow_breaks len s spaces = readM (\<lambda>e.
     if must_escape (e_unicode e) s then
       seqM (put_all (0x5C # dq_escape (dq_value s))) (returnM False)
     else if IS_SPACE s then
       seqM (readM (\<lambda>e.
         if allow_breaks \<and> \<not> spaces \<and> e_column e > e_best_width e \<and> length s \<noteq> len \<and> length s \<noteq> 1
         then seqM yaml_emitter_write_indent (whenM (IS_SPACE_AT s 1) (PUT 0x5C))
         else WRITE s))
       (returnM True)
     else seqM (WRITE s) (returnM False))"

definition yaml_emitter_write_double_quoted_scalar :: "ystring \<Rightarrow> bool \<Rightarrow> ('w yaml_emitter, unit) prog" where
  "yaml_emitter_write_double_quoted_scalar v allow_breaks =
     seqM (yaml_emitter_write_indicator [0x22] True False False)
     (seqM (while_chars (double_quoted_char allow_breaks (length v)) v False)
     (seqM (yaml_emitter_write_indicator [0x22] False False False)
       (set_ws False False)))"

text \<open>
  \<open>do { string.pointer --; } while ((*string.pointer & 0xC0) == 0x80)\<close>, with the offset of the pointer; running
  past the start of the string is \<open>None\<close>.
\<close>

primrec char_back :: "ystring \<Rightarrow> nat \<Rightarrow> nat option" where
  "char_back s 0 = None"
| "char_back s (Suc k) = (if octet s k AND 0xC0 = 0x80 then char_back s k else Some k)"

definition chomp_hint :: "ystring \<Rightarrow> ('s, ystring option) prog" where
  "chomp_hint s =
     (if s = [] then returnM (Some (lit ''-''))
      else case char_back s (length s) of
        None \<Rightarrow> faultM
      | Some k \<Rightarrow>
          if \<not> IS_BREAK_AT s k then returnM (Some (lit ''-''))
          else if k = 0 then returnM (Some (lit ''+''))
          else case char_back s k of
            None \<Rightarrow> faultM
          | Some j \<Rightarrow> returnM (if IS_BREAK_AT s j then Some (lit ''+'') else None))"

definition yaml_emitter_write_block_scalar_hints :: "ystring \<Rightarrow> ('w yaml_emitter, unit) prog" where
  "yaml_emitter_write_block_scalar_hints s =
     seqM (readM (\<lambda>e. whenM (IS_SPACE s \<or> IS_BREAK s)
       (yaml_emitter_write_indicator [0x30 + of_int (e_best_indent e)] False False False)))
     (seqM (modifyM (\<lambda>e. e\<lparr>e_open_ended := 0\<rparr>))
     (bindM (chomp_hint s) (\<lambda>hint.
       case hint of None \<Rightarrow> returnM ()
       | Some h \<Rightarrow> seqM (whenM (h = lit ''+'') (modifyM (\<lambda>e. e\<lparr>e_open_ended := 2\<rparr>)))
           (yaml_emitter_write_indicator h False False False))))"

definition literal_char :: "ystring \<Rightarrow> bool \<Rightarrow> ('w yaml_emitter, bool) prog" where
  "literal_char s breaks =
     (if IS_BREAK s then seqM (WRITE_BREAK s) (seqM (set_indention True) (returnM True))
      else seqM (whenM breaks yaml_emitter_write_indent)
        (seqM (WRITE s) (seqM (set_indention False) (returnM False))))"

definition yaml_emitter_write_literal_scalar :: "ystring \<Rightarrow> ('w yaml_emitter, unit) prog" where
  "yaml_emitter_write_literal_scalar v =
     seqM (yaml_emitter_write_indicator (lit ''|'') True False False)
     (seqM (yaml_emitter_write_block_scalar_hints v)
     (seqM PUT_BREAK
     (seqM (set_ws True True)
     (seqM (while_chars literal_char v True)
       (returnM ())))))"

text \<open>\<open>while (IS_BREAK_AT(string, k)) k += WIDTH_AT(string, k)\<close>: what is left behind the breaks.\<close>

function skip_breaks :: "ystring \<Rightarrow> ystring" where
  "skip_breaks s = (if IS_BREAK s then skip_breaks (MOVE s) else s)"
  by pat_completeness auto
termination
  by (relation "measure length") (auto simp: IS_BREAK_AT_def MOVE_def WIDTH_AT_def octet_def utf8_width_def split: if_splits)

declare skip_breaks.simps [simp del]

definition folded_char :: "ystring \<Rightarrow> bool \<times> bool \<Rightarrow> ('w yaml_emitter, bool \<times> bool) prog" where
  "folded_char s = (\<lambda>(breaks, leading_spaces).
     if IS_BREAK s then
       seqM (whenM (\<not> breaks \<and> \<not> leading_spaces \<and> CHECK s CHR 0x0A \<and> \<not> IS_BLANKZ (skip_breaks s)) PUT_BREAK)
       (seqM (WRITE_BREAK s)
       (seqM (set_indention True)
         (returnM (True, leading_spaces))))
     else
       seqM (whenM breaks yaml_emitter_write_indent)
       (seqM (readM (\<lambda>e.
         if \<not> breaks \<and> IS_SPACE s \<and> \<not> IS_SPACE_AT s 1 \<and> e_column e > e_best_width e
         then yaml_emitter_write_indent else WRITE s))
       (seqM (set_indention False)
         (returnM (False, if breaks then IS_BLANK s else leading_spaces)))))"

definition yaml_emitter_write_folded_scalar :: "ystring \<Rightarrow> ('w yaml_emitter, unit) prog" where
  "yaml_emitter_write_folded_scalar v =
     seqM (yaml_emitter_write_indicator (lit ''>'') True False False)
     (seqM (yaml_emitter_write_block_scalar_hints v)
     (seqM PUT_BREAK
     (seqM (set_ws True True)
     (seqM (while_chars folded_char v (True, True))
       (returnM ())))))"

subsection \<open>Analysis\<close>

definition yaml_emitter_analyze_version_directive :: "yaml_version_directive \<Rightarrow> ('w yaml_emitter, unit) prog" where
  "yaml_emitter_analyze_version_directive vd =
     (if vd_major vd \<noteq> 1 \<or> (vd_minor vd \<noteq> 1 \<and> vd_minor vd \<noteq> 2)
      then yaml_emitter_set_emitter_error ''incompatible %YAML directive'' else returnM ())"

text \<open>\<open>while (pointer != end) { if (!IS_ALPHA(string)) return error; MOVE(string); }\<close>; such a character is one byte wide.\<close>

primrec all_alpha :: "string \<Rightarrow> ystring \<Rightarrow> ('w yaml_emitter, unit) prog" where
  "all_alpha problem [] = returnM ()"
| "all_alpha problem (b # s) = (if IS_ALPHA (b # s) then all_alpha problem s else yaml_emitter_set_emitter_error problem)"

definition yaml_emitter_analyze_tag_directive :: "yaml_tag_directive \<Rightarrow> ('w yaml_emitter, unit) prog" where
  "yaml_emitter_analyze_tag_directive td = (let handle = c_str (td_handle td); prefix = c_str (td_prefix td) in
     if handle = [] then yaml_emitter_set_emitter_error ''tag handle must not be empty''
     else if hd handle \<noteq> ch CHR ''!'' then yaml_emitter_set_emitter_error (''tag handle must start with '!'' @ [CHR 0x27])
     else if last handle \<noteq> ch CHR ''!'' then yaml_emitter_set_emitter_error (''tag handle must end with '!'' @ [CHR 0x27])
     else seqM (all_alpha ''tag handle must contain alphanumerical characters only'' (butlast (tl handle)))
       (if prefix = [] then yaml_emitter_set_emitter_error ''tag prefix must not be empty''
        else returnM ()))"

definition yaml_emitter_analyze_anchor :: "ystring \<Rightarrow> bool \<Rightarrow> ('w yaml_emitter, unit) prog" where
  "yaml_emitter_analyze_anchor anchor alias = (let s = c_str anchor in
     if s = [] then yaml_emitter_set_emitter_error
       (if alias then ''alias value must not be empty'' else ''anchor value must not be empty'')
     else seqM (all_alpha (if alias then ''alias value must contain alphanumerical characters only''
         else ''anchor value must contain alphanumerical characters only'') s)
       (modifyM (\<lambda>e. e\<lparr>e_anchor := Some s, e_alias := alias\<rparr>)))"

definition prefix_match :: "ystring \<Rightarrow> yaml_tag_directive \<Rightarrow> bool" where
  "prefix_match s td \<longleftrightarrow> (let p = c_str (td_prefix td) in length p < length s \<and> take (length p) s = p)"

definition yaml_emitter_analyze_tag :: "ystring \<Rightarrow> ('w yaml_emitter, unit) prog" where
  "yaml_emitter_analyze_tag tag = (let s = c_str tag in
     if s = [] then yaml_emitter_set_emitter_error ''tag value must not be empty''
     else modifyM (\<lambda>e. case find (prefix_match s) (elems (e_tag_directives e)) of
         Some td \<Rightarrow> e\<lparr>e_tag_handle := Some (c_str (td_handle td)), e_tag_suffix := Some (drop (strlen (td_prefix td)) s)\<rparr>
       | None \<Rightarrow> e\<lparr>e_tag_suffix := Some s\<rparr>))"

text \<open>The local variables of \<open>yaml_emitter_analyze_scalar\<close>.\<close>

record scalar_flags =
  block_indicators :: bool
  flow_indicators :: bool
  line_breaks :: bool
  special_characters :: bool
  leading_space :: bool
  leading_break :: bool
  trailing_space :: bool
  trailing_break :: bool
  break_space :: bool
  space_break :: bool
  preceded_by_whitespace :: bool
  followed_by_whitespace :: bool
  previous_space :: bool
  previous_break :: bool

definition first_indicators :: "ystring \<Rightarrow> scalar_flags \<Rightarrow> scalar_flags" where
  "first_indicators s f =
     (let any = CHECK_ANY s ''#,[]{}&*!|>%@`'' \<or> CHECK s CHR 0x27 \<or> CHECK s CHR 0x22;
          kv = CHECK_ANY s ''?:'';
          dash = CHECK s CHR ''-'' \<and> followed_by_whitespace f in
      f\<lparr>flow_indicators := flow_indicators f \<or> any \<or> kv \<or> dash,
        block_indicators := block_indicators f \<or> any \<or> (kv \<and> followed_by_whitespace f) \<or> dash\<rparr>)"

definition other_indicators :: "ystring \<Rightarrow> scalar_flags \<Rightarrow> scalar_flags" where
  "other_indicators s f =
     (let any = CHECK_ANY s '',?[]{}'';
          colon = CHECK s CHR '':'';
          comment = CHECK s CHR ''#'' \<and> preceded_by_whitespace f in
      f\<lparr>flow_indicators := flow_indicators f \<or> any \<or> colon \<or> comment,
        block_indicators := block_indicators f \<or> (colon \<and> followed_by_whitespace f) \<or> comment\<rparr>)"

definition space_flags :: "nat \<Rightarrow> ystring \<Rightarrow> scalar_flags \<Rightarrow> scalar_flags" where
  "space_flags len s f =
     (if IS_SPACE s then
        f\<lparr>leading_space := leading_space f \<or> length s = len, trailing_space := trailing_space f \<or> WIDTH s = length s,
          break_space := break_space f \<or> previous_break f, previous_space := True, previous_break := False\<rparr>
      else if IS_BREAK s then
        f\<lparr>leading_break := leading_break f \<or> length s = len, trailing_break := trailing_break f \<or> WIDTH s = length s,
          space_break := space_break f \<or> previous_space f, previous_space := False, previous_break := True\<rparr>
      else f\<lparr>previous_space := False, previous_break := False\<rparr>)"

definition analyze_char :: "bool \<Rightarrow> nat \<Rightarrow> ystring \<Rightarrow> scalar_flags \<Rightarrow> scalar_flags" where
  "analyze_char unicode len s f =
     (let f = (if length s = len then first_indicators s f else other_indicators s f);
          f = f\<lparr>special_characters := special_characters f \<or> \<not> IS_PRINTABLE s \<or> (\<not> IS_ASCII s \<and> \<not> unicode),
                line_breaks := line_breaks f \<or> IS_BREAK s\<rparr>;
          f = space_flags len s f;
          s' = MOVE s in
      f\<lparr>preceded_by_whitespace := IS_BLANKZ s,
        followed_by_whitespace := (if s' \<noteq> [] then IS_BLANKZ_AT s' (WIDTH s') else followed_by_whitespace f)\<rparr>)"

definition start_flags :: "ystring \<Rightarrow> scalar_flags" where
  "start_flags s =
     (let marker = (CHECK_AT s CHR ''-'' 0 \<and> CHECK_AT s CHR ''-'' 1 \<and> CHECK_AT s CHR ''-'' 2)
        \<or> (CHECK_AT s CHR ''.'' 0 \<and> CHECK_AT s CHR ''.'' 1 \<and> CHECK_AT s CHR ''.'' 2) in
      \<lparr>block_indicators = marker, flow_indicators = marker, line_breaks = False, special_characters = False,
       leading_space = False, leading_break = False, trailing_space = False, trailing_break = False,
       break_space = False, space_break = False, preceded_by_whitespace = True,
       followed_by_whitespace = IS_BLANKZ_AT s (WIDTH s), previous_space = False, previous_break = False\<rparr>)"

definition set_allowed :: "scalar_flags \<Rightarrow> 'w yaml_emitter \<Rightarrow> 'w yaml_emitter" where
  "set_allowed f e =
     (let edge = leading_space f \<or> leading_break f \<or> trailing_space f \<or> trailing_break f;
          special = space_break f \<or> special_characters f;
          plain = \<not> edge \<and> \<not> break_space f \<and> \<not> special \<and> \<not> line_breaks f in
      e\<lparr>e_multiline := line_breaks f,
        e_flow_plain_allowed := plain \<and> \<not> flow_indicators f,
        e_block_plain_allowed := plain \<and> \<not> block_indicators f,
        e_single_quoted_allowed := \<not> break_space f \<and> \<not> special,
        e_block_allowed := \<not> trailing_space f \<and> \<not> special\<rparr>)"

definition yaml_emitter_analyze_scalar :: "ystring \<Rightarrow> ('w yaml_emitter, unit) prog" where
  "yaml_emitter_analyze_scalar v =
     seqM (modifyM (\<lambda>e. e\<lparr>e_scalar := Some v\<rparr>))
     (if v = [] then modifyM (\<lambda>e. e\<lparr>e_multiline := False, e_flow_plain_allowed := False, e_block_plain_allowed := True,
          e_single_quoted_allowed := True, e_block_allowed := False\<rparr>)
      else readM (\<lambda>e. bindM (while_chars (\<lambda>s f. returnM (analyze_char (e_unicode e) (length v) s f)) v (start_flags v))
        (\<lambda>f. modifyM (set_allowed f))))"

definition analyze_properties :: "ystring option \<Rightarrow> ystring option \<Rightarrow> bool \<Rightarrow> ('w yaml_emitter, unit) prog" where
  "analyze_properties anchor tag implicit =
     seqM (case anchor of Some a \<Rightarrow> yaml_emitter_analyze_anchor a False | None \<Rightarrow> returnM ())
       (readM (\<lambda>e. case tag of
           Some t \<Rightarrow> whenM (e_canonical e \<or> \<not> implicit) (yaml_emitter_analyze_tag t)
         | None \<Rightarrow> returnM ()))"

definition yaml_emitter_analyze_event :: "yaml_event \<Rightarrow> ('w yaml_emitter, unit) prog" where
  "yaml_emitter_analyze_event event =
     seqM (modifyM (\<lambda>e. e\<lparr>e_anchor := None, e_tag_handle := None, e_tag_suffix := None, e_scalar := None\<rparr>))
     (case ev_data event of
        AliasEvent anchor \<Rightarrow> yaml_emitter_analyze_anchor anchor True
      | ScalarEvent anchor tag v plain_implicit quoted_implicit style \<Rightarrow>
          seqM (analyze_properties anchor tag (plain_implicit \<or> quoted_implicit)) (yaml_emitter_analyze_scalar v)
      | SequenceStartEvent anchor tag implicit style \<Rightarrow> analyze_properties anchor tag implicit
      | MappingStartEvent anchor tag implicit style \<Rightarrow> analyze_properties anchor tag implicit
      | _ \<Rightarrow> returnM ())"

subsection \<open>Checkers\<close>

definition head_types :: "'w yaml_emitter \<Rightarrow> yaml_event_type \<Rightarrow> yaml_event_type \<Rightarrow> bool" where
  "head_types e t t' \<longleftrightarrow> (case items (e_events e) of a # b # _ \<Rightarrow> ev_type a = t \<and> ev_type b = t' | _ \<Rightarrow> False)"

definition yaml_emitter_check_empty_document :: "'w yaml_emitter \<Rightarrow> bool" where
  "yaml_emitter_check_empty_document e = False"

definition yaml_emitter_check_empty_sequence :: "'w yaml_emitter \<Rightarrow> bool" where
  "yaml_emitter_check_empty_sequence e = head_types e YAML_SEQUENCE_START_EVENT YAML_SEQUENCE_END_EVENT"

definition yaml_emitter_check_empty_mapping :: "'w yaml_emitter \<Rightarrow> bool" where
  "yaml_emitter_check_empty_mapping e = head_types e YAML_MAPPING_START_EVENT YAML_MAPPING_END_EVENT"

abbreviation opt_length :: "ystring option \<Rightarrow> nat" where
  "opt_length s \<equiv> (case s of None \<Rightarrow> 0 | Some s \<Rightarrow> length s)"

definition yaml_emitter_check_simple_key :: "yaml_event \<Rightarrow> 'w yaml_emitter \<Rightarrow> bool" where
  "yaml_emitter_check_simple_key event e =
     (let props = opt_length (e_anchor e) + opt_length (e_tag_handle e) + opt_length (e_tag_suffix e) in
      case ev_type event of
        YAML_ALIAS_EVENT \<Rightarrow> opt_length (e_anchor e) \<le> 128
      | YAML_SCALAR_EVENT \<Rightarrow> \<not> e_multiline e \<and> props + opt_length (e_scalar e) \<le> 128
      | YAML_SEQUENCE_START_EVENT \<Rightarrow> yaml_emitter_check_empty_sequence e \<and> props \<le> 128
      | YAML_MAPPING_START_EVENT \<Rightarrow> yaml_emitter_check_empty_mapping e \<and> props \<le> 128
      | _ \<Rightarrow> False)"

definition choose_style :: "bool \<Rightarrow> bool \<Rightarrow> yaml_scalar_style \<Rightarrow> 'w yaml_emitter \<Rightarrow> yaml_scalar_style" where
  "choose_style no_tag plain_implicit style e =
     (let style = (if style = YAML_ANY_SCALAR_STYLE then YAML_PLAIN_SCALAR_STYLE else style);
          style = (if e_canonical e then YAML_DOUBLE_QUOTED_SCALAR_STYLE else style);
          style = (if e_simple_key_context e \<and> e_multiline e then YAML_DOUBLE_QUOTED_SCALAR_STYLE else style);
          style = (if style = YAML_PLAIN_SCALAR_STYLE
             \<and> ((e_flow_level e \<noteq> 0 \<and> \<not> e_flow_plain_allowed e) \<or> (e_flow_level e = 0 \<and> \<not> e_block_plain_allowed e)
                \<or> (opt_length (e_scalar e) = 0 \<and> (e_flow_level e \<noteq> 0 \<or> e_simple_key_context e))
                \<or> (no_tag \<and> \<not> plain_implicit))
             then YAML_SINGLE_QUOTED_SCALAR_STYLE else style);
          style = (if style = YAML_SINGLE_QUOTED_SCALAR_STYLE \<and> \<not> e_single_quoted_allowed e
             then YAML_DOUBLE_QUOTED_SCALAR_STYLE else style)
      in if (style = YAML_LITERAL_SCALAR_STYLE \<or> style = YAML_FOLDED_SCALAR_STYLE)
            \<and> (\<not> e_block_allowed e \<or> e_flow_level e \<noteq> 0 \<or> e_simple_key_context e)
         then YAML_DOUBLE_QUOTED_SCALAR_STYLE else style)"

definition yaml_emitter_select_scalar_style :: "bool \<Rightarrow> bool \<Rightarrow> yaml_scalar_style \<Rightarrow> ('w yaml_emitter, unit) prog" where
  "yaml_emitter_select_scalar_style plain_implicit quoted_implicit style = readM (\<lambda>e.
     let no_tag = (e_tag_handle e = None \<and> e_tag_suffix e = None) in
     if no_tag \<and> \<not> plain_implicit \<and> \<not> quoted_implicit
     then yaml_emitter_set_emitter_error ''neither tag nor implicit flags are specified''
     else let style = choose_style no_tag plain_implicit style e in
       seqM (whenM (no_tag \<and> \<not> quoted_implicit \<and> style \<noteq> YAML_PLAIN_SCALAR_STYLE)
              (modifyM (\<lambda>e. e\<lparr>e_tag_handle := Some (lit ''!'')\<rparr>)))
         (modifyM (\<lambda>e. e\<lparr>e_style := style\<rparr>)))"

subsection \<open>Processors\<close>

definition yaml_emitter_process_anchor :: "('w yaml_emitter, unit) prog" where
  "yaml_emitter_process_anchor = readM (\<lambda>e. case e_anchor e of
     None \<Rightarrow> returnM ()
   | Some a \<Rightarrow> seqM (yaml_emitter_write_indicator (if e_alias e then lit ''*'' else lit ''&'') True False False)
       (yaml_emitter_write_anchor a))"

definition yaml_emitter_process_tag :: "('w yaml_emitter, unit) prog" where
  "yaml_emitter_process_tag = readM (\<lambda>e. case e_tag_handle e of
     Some handle \<Rightarrow> seqM (yaml_emitter_write_tag_handle handle)
       (case e_tag_suffix e of Some suffix \<Rightarrow> yaml_emitter_write_tag_content suffix False | None \<Rightarrow> returnM ())
   | None \<Rightarrow> (case e_tag_suffix e of
       None \<Rightarrow> returnM ()
     | Some suffix \<Rightarrow> seqM (yaml_emitter_write_indicator (lit ''!<'') True False False)
         (seqM (yaml_emitter_write_tag_content suffix False)
           (yaml_emitter_write_indicator (lit ''>'') False False False))))"

definition yaml_emitter_process_scalar :: "('w yaml_emitter, unit) prog" where
  "yaml_emitter_process_scalar = readM (\<lambda>e. case e_scalar e of
     None \<Rightarrow> faultM
   | Some v \<Rightarrow> (case e_style e of
       YAML_PLAIN_SCALAR_STYLE \<Rightarrow> yaml_emitter_write_plain_scalar v (\<not> e_simple_key_context e)
     | YAML_SINGLE_QUOTED_SCALAR_STYLE \<Rightarrow> yaml_emitter_write_single_quoted_scalar v (\<not> e_simple_key_context e)
     | YAML_DOUBLE_QUOTED_SCALAR_STYLE \<Rightarrow> yaml_emitter_write_double_quoted_scalar v (\<not> e_simple_key_context e)
     | YAML_LITERAL_SCALAR_STYLE \<Rightarrow> yaml_emitter_write_literal_scalar v
     | YAML_FOLDED_SCALAR_STYLE \<Rightarrow> yaml_emitter_write_folded_scalar v
     | YAML_ANY_SCALAR_STYLE \<Rightarrow> errorM id))"

subsection \<open>Nodes\<close>

definition yaml_emitter_emit_alias :: "('w yaml_emitter, unit) prog" where
  "yaml_emitter_emit_alias =
     seqM yaml_emitter_process_anchor
     (seqM (readM (\<lambda>e. whenM (e_simple_key_context e) (PUT 0x20)))
       POP_STATE_E)"

definition yaml_emitter_emit_scalar :: "bool \<Rightarrow> bool \<Rightarrow> yaml_scalar_style \<Rightarrow> ('w yaml_emitter, unit) prog" where
  "yaml_emitter_emit_scalar plain_implicit quoted_implicit style =
     seqM (yaml_emitter_select_scalar_style plain_implicit quoted_implicit style)
     (seqM yaml_emitter_process_anchor
     (seqM yaml_emitter_process_tag
     (seqM (yaml_emitter_increase_indent True False)
     (seqM yaml_emitter_process_scalar
     (seqM POP_INDENT
       POP_STATE_E)))))"

definition yaml_emitter_emit_sequence_start :: "yaml_sequence_style \<Rightarrow> ('w yaml_emitter, unit) prog" where
  "yaml_emitter_emit_sequence_start style =
     seqM yaml_emitter_process_anchor
     (seqM yaml_emitter_process_tag
     (readM (\<lambda>e. set_stateE
       (if e_flow_level e \<noteq> 0 \<or> e_canonical e \<or> style = YAML_FLOW_SEQUENCE_STYLE \<or> yaml_emitter_check_empty_sequence e
        then YAML_EMIT_FLOW_SEQUENCE_FIRST_ITEM_STATE else YAML_EMIT_BLOCK_SEQUENCE_FIRST_ITEM_STATE))))"

definition yaml_emitter_emit_mapping_start :: "yaml_mapping_style \<Rightarrow> ('w yaml_emitter, unit) prog" where
  "yaml_emitter_emit_mapping_start style =
     seqM yaml_emitter_process_anchor
     (seqM yaml_emitter_process_tag
     (readM (\<lambda>e. set_stateE
       (if e_flow_level e \<noteq> 0 \<or> e_canonical e \<or> style = YAML_FLOW_MAPPING_STYLE \<or> yaml_emitter_check_empty_mapping e
        then YAML_EMIT_FLOW_MAPPING_FIRST_KEY_STATE else YAML_EMIT_BLOCK_MAPPING_FIRST_KEY_STATE))))"

definition yaml_emitter_emit_node :: "yaml_event \<Rightarrow> bool \<Rightarrow> bool \<Rightarrow> bool \<Rightarrow> bool \<Rightarrow> ('w yaml_emitter, unit) prog" where
  "yaml_emitter_emit_node event root sequence mapping simple_key =
     seqM (modifyM (\<lambda>e. e\<lparr>e_root_context := root, e_sequence_context := sequence, e_mapping_context := mapping,
        e_simple_key_context := simple_key\<rparr>))
     (case ev_data event of
        AliasEvent anchor \<Rightarrow> yaml_emitter_emit_alias
      | ScalarEvent anchor tag v plain_implicit quoted_implicit style \<Rightarrow>
          yaml_emitter_emit_scalar plain_implicit quoted_implicit style
      | SequenceStartEvent anchor tag implicit style \<Rightarrow> yaml_emitter_emit_sequence_start style
      | MappingStartEvent anchor tag implicit style \<Rightarrow> yaml_emitter_emit_mapping_start style
      | _ \<Rightarrow> yaml_emitter_set_emitter_error ''expected SCALAR, SEQUENCE-START, MAPPING-START, or ALIAS'')"

subsection \<open>Documents\<close>

definition stream_settings :: "yaml_encoding \<Rightarrow> 'w yaml_emitter \<Rightarrow> 'w yaml_emitter" where
  "stream_settings encoding e =
     (let enc = (if e_encoding e = YAML_ANY_ENCODING then encoding else e_encoding e);
          enc = (if enc = YAML_ANY_ENCODING then YAML_UTF8_ENCODING else enc);
          indent = (if e_best_indent e < 2 \<or> e_best_indent e > 9 then 2 else e_best_indent e);
          width = (if e_best_width e \<ge> 0 \<and> e_best_width e \<le> indent * 2 then 80 else e_best_width e);
          width = (if width < 0 then int INT_MAX else width) in
      e\<lparr>e_encoding := enc, e_best_indent := indent, e_best_width := width,
        e_line_break := (if e_line_break e = YAML_ANY_BREAK then YAML_LN_BREAK else e_line_break e),
        e_indent := -1, e_line := 0, e_column := 0, e_whitespace := True, e_indention := True\<rparr>)"

definition yaml_emitter_emit_stream_start :: "yaml_event \<Rightarrow> ('w yaml_emitter, unit) prog" where
  "yaml_emitter_emit_stream_start event =
     seqM (modifyM (\<lambda>e. e\<lparr>e_open_ended := 0\<rparr>))
     (case ev_data event of
        StreamStartEvent encoding \<Rightarrow>
          seqM (modifyM (stream_settings encoding))
          (seqM (readM (\<lambda>e. whenM (e_encoding e \<noteq> YAML_UTF8_ENCODING) yaml_emitter_write_bom))
            (set_stateE YAML_EMIT_FIRST_DOCUMENT_START_STATE))
      | _ \<Rightarrow> yaml_emitter_set_emitter_error ''expected STREAM-START'')"

primrec append_directives :: "yaml_tag_directive list \<Rightarrow> ('w yaml_emitter, unit) prog" where
  "append_directives [] = returnM ()"
| "append_directives (td # tds) =
     seqM (yaml_emitter_analyze_tag_directive td)
     (seqM (yaml_emitter_append_tag_directive td False)
       (append_directives tds))"

primrec append_defaults :: "yaml_tag_directive list \<Rightarrow> ('w yaml_emitter, unit) prog" where
  "append_defaults [] = returnM ()"
| "append_defaults (td # tds) = seqM (yaml_emitter_append_tag_directive td True) (append_defaults tds)"

definition default_tag_directives_E :: "yaml_tag_directive list" where
  "default_tag_directives_E =
     [\<lparr>td_handle = lit ''!'', td_prefix = lit ''!''\<rparr>,
      \<lparr>td_handle = lit ''!!'', td_prefix = lit ''tag:yaml.org,2002:''\<rparr>]"

definition write_version_directive :: "yaml_version_directive \<Rightarrow> ('w yaml_emitter, unit) prog" where
  "write_version_directive vd =
     seqM (yaml_emitter_write_indicator (lit ''%YAML'') True False False)
     (seqM (yaml_emitter_write_indicator (if vd_minor vd = 1 then lit ''1.1'' else lit ''1.2'') True False False)
       yaml_emitter_write_indent)"

primrec write_tag_directives :: "yaml_tag_directive list \<Rightarrow> ('w yaml_emitter, unit) prog" where
  "write_tag_directives [] = returnM ()"
| "write_tag_directives (td # tds) =
     seqM (yaml_emitter_write_indicator (lit ''%TAG'') True False False)
     (seqM (yaml_emitter_write_tag_handle (c_str (td_handle td)))
     (seqM (yaml_emitter_write_tag_content (c_str (td_prefix td)) True)
     (seqM yaml_emitter_write_indent
       (write_tag_directives tds))))"

definition document_marker :: "bool \<Rightarrow> ('w yaml_emitter, unit) prog" where
  "document_marker implicit = unlessM implicit
     (seqM yaml_emitter_write_indent
     (seqM (yaml_emitter_write_indicator (lit ''---'') True False False)
       (readM (\<lambda>e. whenM (e_canonical e) yaml_emitter_write_indent))))"

definition emit_document_start :: "yaml_version_directive option \<Rightarrow> yaml_tag_directive list \<Rightarrow> bool \<Rightarrow> bool
    \<Rightarrow> ('w yaml_emitter, unit) prog" where
  "emit_document_start vd tds ev_implicit first =
     seqM (case vd of Some v \<Rightarrow> yaml_emitter_analyze_version_directive v | None \<Rightarrow> returnM ())
     (seqM (append_directives tds)
     (seqM (append_defaults default_tag_directives_E)
     (seqM (readM (\<lambda>e. whenM ((vd \<noteq> None \<or> tds \<noteq> []) \<and> e_open_ended e \<noteq> 0)
        (seqM (yaml_emitter_write_indicator (lit ''...'') True False False) yaml_emitter_write_indent)))
     (seqM (modifyM (\<lambda>e. e\<lparr>e_open_ended := 0\<rparr>))
     (seqM (case vd of Some v \<Rightarrow> write_version_directive v | None \<Rightarrow> returnM ())
     (seqM (write_tag_directives tds)
     (seqM (readM (\<lambda>e. document_marker
        (ev_implicit \<and> first \<and> \<not> e_canonical e \<and> vd = None \<and> tds = [] \<and> \<not> yaml_emitter_check_empty_document e)))
       (modifyM (\<lambda>e. e\<lparr>e_state := YAML_EMIT_DOCUMENT_CONTENT_STATE, e_open_ended := 0\<rparr>)))))))))"

definition emit_stream_end :: "('w yaml_emitter, unit) prog" where
  "emit_stream_end =
     seqM (readM (\<lambda>e. whenM (e_open_ended e = 2)
       (seqM (yaml_emitter_write_indicator (lit ''...'') True False False)
       (seqM (modifyM (\<lambda>e. e\<lparr>e_open_ended := 0\<rparr>))
         yaml_emitter_write_indent))))
     (seqM yaml_emitter_flush
       (set_stateE YAML_EMIT_END_STATE))"

definition yaml_emitter_emit_document_start :: "yaml_event \<Rightarrow> bool \<Rightarrow> ('w yaml_emitter, unit) prog" where
  "yaml_emitter_emit_document_start event first = (case ev_data event of
     DocumentStartEvent vd tds implicit \<Rightarrow> emit_document_start vd tds implicit first
   | StreamEndEvent \<Rightarrow> emit_stream_end
   | _ \<Rightarrow> yaml_emitter_set_emitter_error ''expected DOCUMENT-START or STREAM-END'')"

definition yaml_emitter_emit_document_content :: "yaml_event \<Rightarrow> ('w yaml_emitter, unit) prog" where
  "yaml_emitter_emit_document_content event =
     seqM (PUSH_STATE_E YAML_EMIT_DOCUMENT_END_STATE) (yaml_emitter_emit_node event True False False False)"

text \<open>The tag directives of the document are popped and freed, the last one first.\<close>

definition pop_tag_directivesE :: "'w yaml_emitter \<Rightarrow> 'w yaml_emitter" where
  "pop_tag_directivesE e = (freeE (free_tag_directives (rev (elems (e_tag_directives e)))) e)
     \<lparr>e_tag_directives := (e_tag_directives e)\<lparr>elems := []\<rparr>\<rparr>"

definition yaml_emitter_emit_document_end :: "yaml_event \<Rightarrow> ('w yaml_emitter, unit) prog" where
  "yaml_emitter_emit_document_end event = (case ev_data event of
     DocumentEndEvent implicit \<Rightarrow>
       seqM yaml_emitter_write_indent
       (seqM (if \<not> implicit then
           seqM (yaml_emitter_write_indicator (lit ''...'') True False False)
           (seqM (modifyM (\<lambda>e. e\<lparr>e_open_ended := 0\<rparr>))
             yaml_emitter_write_indent)
         else modifyM (\<lambda>e. if e_open_ended e = 0 then e\<lparr>e_open_ended := 1\<rparr> else e))
       (seqM yaml_emitter_flush
       (seqM (set_stateE YAML_EMIT_DOCUMENT_START_STATE)
         (modifyM pop_tag_directivesE))))
   | _ \<Rightarrow> yaml_emitter_set_emitter_error ''expected DOCUMENT-END'')"

subsection \<open>Collections\<close>

text \<open>The common parts of the states of flow collections: the opening bracket, the closing one, the separator.\<close>

definition open_flow :: "bool \<Rightarrow> string \<Rightarrow> ('w yaml_emitter, unit) prog" where
  "open_flow first bracket = whenM first
     (seqM (yaml_emitter_write_indicator (lit bracket) True True False)
     (seqM (yaml_emitter_increase_indent True False)
       (modifyM (\<lambda>e. e\<lparr>e_flow_level := e_flow_level e + 1\<rparr>))))"

definition close_flow :: "bool \<Rightarrow> string \<Rightarrow> ('w yaml_emitter, unit) prog" where
  "close_flow first bracket =
     seqM (modifyM (\<lambda>e. e\<lparr>e_flow_level := e_flow_level e - 1\<rparr>))
     (seqM POP_INDENT
     (seqM (readM (\<lambda>e. whenM (e_canonical e \<and> \<not> first)
        (seqM (yaml_emitter_write_indicator (lit '','') False False False) yaml_emitter_write_indent)))
     (seqM (yaml_emitter_write_indicator (lit bracket) False False False)
       POP_STATE_E)))"

definition long_line_indent :: "('w yaml_emitter, unit) prog" where
  "long_line_indent = readM (\<lambda>e. whenM (e_canonical e \<or> e_column e > e_best_width e) yaml_emitter_write_indent)"

definition separate_flow :: "bool \<Rightarrow> ('w yaml_emitter, unit) prog" where
  "separate_flow first =
     seqM (unlessM first (yaml_emitter_write_indicator (lit '','') False False False)) long_line_indent"

definition yaml_emitter_emit_flow_sequence_item :: "yaml_event \<Rightarrow> bool \<Rightarrow> ('w yaml_emitter, unit) prog" where
  "yaml_emitter_emit_flow_sequence_item event first =
     seqM (open_flow first ''['')
     (if ev_type event = YAML_SEQUENCE_END_EVENT then close_flow first '']''
      else seqM (separate_flow first)
        (seqM (PUSH_STATE_E YAML_EMIT_FLOW_SEQUENCE_ITEM_STATE)
          (yaml_emitter_emit_node event False True False False)))"

definition yaml_emitter_emit_flow_mapping_key :: "yaml_event \<Rightarrow> bool \<Rightarrow> ('w yaml_emitter, unit) prog" where
  "yaml_emitter_emit_flow_mapping_key event first =
     seqM (open_flow first ''{'')
     (if ev_type event = YAML_MAPPING_END_EVENT then close_flow first ''}''
      else seqM (separate_flow first)
        (readM (\<lambda>e. if \<not> e_canonical e \<and> yaml_emitter_check_simple_key event e then
             seqM (PUSH_STATE_E YAML_EMIT_FLOW_MAPPING_SIMPLE_VALUE_STATE)
               (yaml_emitter_emit_node event False False True True)
           else
             seqM (yaml_emitter_write_indicator (lit ''?'') True False False)
             (seqM (PUSH_STATE_E YAML_EMIT_FLOW_MAPPING_VALUE_STATE)
               (yaml_emitter_emit_node event False False True False)))))"

definition yaml_emitter_emit_flow_mapping_value :: "yaml_event \<Rightarrow> bool \<Rightarrow> ('w yaml_emitter, unit) prog" where
  "yaml_emitter_emit_flow_mapping_value event simple =
     seqM (if simple then yaml_emitter_write_indicator (lit '':'') False False False
       else seqM long_line_indent (yaml_emitter_write_indicator (lit '':'') True False False))
     (seqM (PUSH_STATE_E YAML_EMIT_FLOW_MAPPING_KEY_STATE)
       (yaml_emitter_emit_node event False False True False))"

definition close_block :: "('w yaml_emitter, unit) prog" where
  "close_block = seqM POP_INDENT POP_STATE_E"

definition yaml_emitter_emit_block_sequence_item :: "yaml_event \<Rightarrow> bool \<Rightarrow> ('w yaml_emitter, unit) prog" where
  "yaml_emitter_emit_block_sequence_item event first =
     seqM (whenM first (readM (\<lambda>e. yaml_emitter_increase_indent False (e_mapping_context e \<and> \<not> e_indention e))))
     (if ev_type event = YAML_SEQUENCE_END_EVENT then close_block
      else seqM yaml_emitter_write_indent
        (seqM (yaml_emitter_write_indicator (lit ''-'') True False True)
        (seqM (PUSH_STATE_E YAML_EMIT_BLOCK_SEQUENCE_ITEM_STATE)
          (yaml_emitter_emit_node event False True False False))))"

definition yaml_emitter_emit_block_mapping_key :: "yaml_event \<Rightarrow> bool \<Rightarrow> ('w yaml_emitter, unit) prog" where
  "yaml_emitter_emit_block_mapping_key event first =
     seqM (whenM first (yaml_emitter_increase_indent False False))
     (if ev_type event = YAML_MAPPING_END_EVENT then close_block
      else seqM yaml_emitter_write_indent
        (readM (\<lambda>e. if yaml_emitter_check_simple_key event e then
             seqM (PUSH_STATE_E YAML_EMIT_BLOCK_MAPPING_SIMPLE_VALUE_STATE)
               (yaml_emitter_emit_node event False False True True)
           else
             seqM (yaml_emitter_write_indicator (lit ''?'') True False True)
             (seqM (PUSH_STATE_E YAML_EMIT_BLOCK_MAPPING_VALUE_STATE)
               (yaml_emitter_emit_node event False False True False)))))"

definition yaml_emitter_emit_block_mapping_value :: "yaml_event \<Rightarrow> bool \<Rightarrow> ('w yaml_emitter, unit) prog" where
  "yaml_emitter_emit_block_mapping_value event simple =
     seqM (if simple then yaml_emitter_write_indicator (lit '':'') False False False
       else seqM yaml_emitter_write_indent (yaml_emitter_write_indicator (lit '':'') True False True))
     (seqM (PUSH_STATE_E YAML_EMIT_BLOCK_MAPPING_KEY_STATE)
       (yaml_emitter_emit_node event False False True False))"

subsection \<open>The state machine\<close>

definition yaml_emitter_state_machine :: "yaml_event \<Rightarrow> ('w yaml_emitter, unit) prog" where
  "yaml_emitter_state_machine event = readM (\<lambda>e. case e_state e of
     YAML_EMIT_STREAM_START_STATE \<Rightarrow> yaml_emitter_emit_stream_start event
   | YAML_EMIT_FIRST_DOCUMENT_START_STATE \<Rightarrow> yaml_emitter_emit_document_start event True
   | YAML_EMIT_DOCUMENT_START_STATE \<Rightarrow> yaml_emitter_emit_document_start event False
   | YAML_EMIT_DOCUMENT_CONTENT_STATE \<Rightarrow> yaml_emitter_emit_document_content event
   | YAML_EMIT_DOCUMENT_END_STATE \<Rightarrow> yaml_emitter_emit_document_end event
   | YAML_EMIT_FLOW_SEQUENCE_FIRST_ITEM_STATE \<Rightarrow> yaml_emitter_emit_flow_sequence_item event True
   | YAML_EMIT_FLOW_SEQUENCE_ITEM_STATE \<Rightarrow> yaml_emitter_emit_flow_sequence_item event False
   | YAML_EMIT_FLOW_MAPPING_FIRST_KEY_STATE \<Rightarrow> yaml_emitter_emit_flow_mapping_key event True
   | YAML_EMIT_FLOW_MAPPING_KEY_STATE \<Rightarrow> yaml_emitter_emit_flow_mapping_key event False
   | YAML_EMIT_FLOW_MAPPING_SIMPLE_VALUE_STATE \<Rightarrow> yaml_emitter_emit_flow_mapping_value event True
   | YAML_EMIT_FLOW_MAPPING_VALUE_STATE \<Rightarrow> yaml_emitter_emit_flow_mapping_value event False
   | YAML_EMIT_BLOCK_SEQUENCE_FIRST_ITEM_STATE \<Rightarrow> yaml_emitter_emit_block_sequence_item event True
   | YAML_EMIT_BLOCK_SEQUENCE_ITEM_STATE \<Rightarrow> yaml_emitter_emit_block_sequence_item event False
   | YAML_EMIT_BLOCK_MAPPING_FIRST_KEY_STATE \<Rightarrow> yaml_emitter_emit_block_mapping_key event True
   | YAML_EMIT_BLOCK_MAPPING_KEY_STATE \<Rightarrow> yaml_emitter_emit_block_mapping_key event False
   | YAML_EMIT_BLOCK_MAPPING_SIMPLE_VALUE_STATE \<Rightarrow> yaml_emitter_emit_block_mapping_value event True
   | YAML_EMIT_BLOCK_MAPPING_VALUE_STATE \<Rightarrow> yaml_emitter_emit_block_mapping_value event False
   | YAML_EMIT_END_STATE \<Rightarrow> yaml_emitter_set_emitter_error ''expected nothing after STREAM-END'')"

text \<open>\<open>open_to_end level evs\<close>: the level does not come back to 0 before the end of the queue.\<close>

definition level_change :: "yaml_event_type \<Rightarrow> int" where
  "level_change t =
     (if t \<in> {YAML_STREAM_START_EVENT, YAML_DOCUMENT_START_EVENT, YAML_SEQUENCE_START_EVENT, YAML_MAPPING_START_EVENT} then 1
      else if t \<in> {YAML_STREAM_END_EVENT, YAML_DOCUMENT_END_EVENT, YAML_SEQUENCE_END_EVENT, YAML_MAPPING_END_EVENT} then -1
      else 0)"

primrec open_to_end :: "int \<Rightarrow> yaml_event list \<Rightarrow> bool" where
  "open_to_end level [] = True"
| "open_to_end level (ev # evs) =
     (let level = level + level_change (ev_type ev) in if level = 0 then False else open_to_end level evs)"

definition accumulate :: "yaml_event_type \<Rightarrow> nat" where
  "accumulate t = (case t of
     YAML_DOCUMENT_START_EVENT \<Rightarrow> 1 | YAML_SEQUENCE_START_EVENT \<Rightarrow> 2 | YAML_MAPPING_START_EVENT \<Rightarrow> 3 | _ \<Rightarrow> 0)"

definition yaml_emitter_need_more_events :: "'w yaml_emitter \<Rightarrow> bool" where
  "yaml_emitter_need_more_events e = (case items (e_events e) of
     [] \<Rightarrow> True
   | ev # _ \<Rightarrow> accumulate (ev_type ev) \<noteq> 0 \<and> length (items (e_events e)) \<le> accumulate (ev_type ev)
       \<and> open_to_end 0 (items (e_events e)))"

text \<open>One round of the loop: the event at the head of the queue is emitted and freed.\<close>

definition emit_head :: "('w yaml_emitter, unit) prog" where
  "emit_head = readM (\<lambda>e. case items (e_events e) of
     [] \<Rightarrow> faultM
   | ev # _ \<Rightarrow>
       seqM (yaml_emitter_analyze_event ev)
       (seqM (yaml_emitter_state_machine ev)
         (bindM (zoomM e_events (\<lambda>q e. e\<lparr>e_events := q\<rparr>) DEQUEUE) (\<lambda>ev'. modifyM (freeE (yaml_event_delete ev'))))))"

definition enqueue_event :: "yaml_event \<Rightarrow> ('w yaml_emitter, unit) prog" where
  "enqueue_event ev e = (case ENQUEUE ev (e_events e, e_mem e) of
     Return _ (q, h) \<Rightarrow> Return () (e\<lparr>e_events := q, e_mem := h\<rparr>)
   | Error (q, h) \<Rightarrow> Error (e\<lparr>e_events := q, e_mem := yaml_event_delete ev h, e_error := YAML_MEMORY_ERROR\<rparr>)
   | Fault \<Rightarrow> Fault)"

definition yaml_emitter_emit :: "yaml_event \<Rightarrow> ('w yaml_emitter, unit) prog" where
  "yaml_emitter_emit event =
     seqM (enqueue_event event)
       (readM (\<lambda>e. whileM (length (items (e_events e))) (\<lambda>e. \<not> yaml_emitter_need_more_events e) emit_head))"

end
