(* ===== verification/Emitter_Safe.thy ===== *)
theory Emitter_Safe
  imports Emitter
begin

text \<open>
  What the writing functions of the emitter do to the output: whatever they are called with, they only append
  whole characters to it, never overrun the buffer, count lines and columns as the output has them (\<open>laid_out\<close>) and change
  nothing else (\<open>core\<close>); where they fail, an error is set.
\<close>

subsection \<open>Frames\<close>

text \<open>\<open>framed f m\<close>: the program does not change the part \<open>f\<close> of the state, whether it returns 1 or 0.\<close>

definition framed :: "('s \<Rightarrow> 'x) \<Rightarrow> ('s, 'a) prog \<Rightarrow> bool" where
  "framed f m \<longleftrightarrow> (\<forall>s. case m s of Return a s' \<Rightarrow> f s' = f s | Error s' \<Rightarrow> f s' = f s | Fault \<Rightarrow> True)"

named_theorems framed_rules \<open>rules for the part of the state that a program changes in no case\<close>

lemma framed_D:
  assumes "framed f m"
  shows "m s = Return a s' \<Longrightarrow> f s' = f s" "m s = Error s' \<Longrightarrow> f s' = f s"
  using assms [unfolded framed_def, THEN spec, of s] by simp_all

lemma framed_I:
  assumes "\<And>s a s'. m s = Return a s' \<Longrightarrow> f s' = f s" "\<And>s s'. m s = Error s' \<Longrightarrow> f s' = f s"
  shows "framed f m"
  using assms by (auto simp: framed_def split: result.split)

lemma framed_basic [framed_rules]:
  "framed f (returnM a)" "framed f faultM" "framed f (getM h)" "framed f (assertM b)"
  by (auto simp: framed_def prog_defs)

lemma framed_modifyM [framed_rules]: "(\<And>s. f (g s) = f s) \<Longrightarrow> framed f (modifyM g)"
  by (auto simp: framed_def modifyM_def)

lemma framed_errorM [framed_rules]: "(\<And>s. f (g s) = f s) \<Longrightarrow> framed f (errorM g)"
  by (auto simp: framed_def errorM_def)

lemma framed_bindM [framed_rules]: "framed f m \<Longrightarrow> (\<And>a. framed f (n a)) \<Longrightarrow> framed f (bindM m n)"
  by (rule framed_I; simp add: bindM_def split: result.splits; metis framed_D)

lemma framed_seqM [framed_rules]: "framed f m \<Longrightarrow> framed f n \<Longrightarrow> framed f (seqM m n)"
  by (simp add: seqM_def framed_bindM)

lemma framed_readM [framed_rules]: "(\<And>s. framed f (m s)) \<Longrightarrow> framed f (readM m)"
  by (auto simp: framed_def readM_def)

lemma framed_if [framed_rules]: "framed f m \<Longrightarrow> framed f n \<Longrightarrow> framed f (if b then m else n)"
  by simp

lemma framed_case_option [framed_rules]:
  "framed f m \<Longrightarrow> (\<And>x. framed f (n x)) \<Longrightarrow> framed f (case y of None \<Rightarrow> m | Some x \<Rightarrow> n x)"
  by (cases y) simp_all

lemma framed_case_prod [framed_rules]: "(\<And>x y. framed f (m x y)) \<Longrightarrow> framed f (case p of (x, y) \<Rightarrow> m x y)"
  by (cases p) simp

lemma framed_let [framed_rules]: "framed f (m x) \<Longrightarrow> framed f (let y = x in m y)"
  by simp

lemma framed_whileM [framed_rules]: "framed f m \<Longrightarrow> framed f (whileM n b m)"
proof (induction n)
  case (Suc n)
  then have "framed f (bindM m (\<lambda>_. whileM n b m))" by (intro framed_bindM) simp_all
  then show ?case by (simp add: framed_def)
qed (simp add: framed_def)

lemma framed_whenM [framed_rules]: "framed f m \<Longrightarrow> framed f (whenM b m)" "framed f m \<Longrightarrow> framed f (unlessM b m)"
  by (simp_all add: whenM_def unlessM_def framed_basic)

lemma framed_ignoreM [framed_rules]: "framed f m \<Longrightarrow> framed f (ignoreM m)"
  unfolding framed_def ignoreM_def by (auto split: result.splits)

lemma framed_while_chars [framed_rules]: "(\<And>s l. framed f (body s l)) \<Longrightarrow> framed f (while_chars body s l)"
proof (induction body s l rule: while_chars.induct)
  case (1 body s l)
  then show ?case by (subst while_chars.simps) (auto intro!: framed_rules)
qed

lemma wp_framed: "framed f m \<Longrightarrow> wp m Q E s \<Longrightarrow> wp m (\<lambda>a s'. Q a s' \<and> f s' = f s) (\<lambda>s'. E s' \<and> f s' = f s) s"
  by (auto simp: wp_def dest: framed_D split: result.splits)

subsection \<open>The part of the emitter that writing does not change\<close>

definition core :: "'w yaml_emitter \<Rightarrow> 'w yaml_emitter" where
  "core e = e\<lparr>e_error := YAML_NO_ERROR, e_problem := [], e_write_handler_data := undefined,
     e_buffer := \<lparr>b_data = [], b_pos = 0, b_cap = b_cap (e_buffer e)\<rparr>,
     e_raw_buffer := \<lparr>b_data = [], b_pos = 0, b_cap = b_cap (e_raw_buffer e)\<rparr>,
     e_line := 0, e_column := 0, e_whitespace := False, e_indention := False, e_open_ended := 0\<rparr>"

lemma core_cong: "core e' = core e \<Longrightarrow> (\<And>x. f (core x) = f x) \<Longrightarrow> f e' = f e"
  by metis

lemma coreD:
  assumes "core e' = core e"
  shows "e_mem e' = e_mem e" "e_write_handler e' = e_write_handler e" "b_cap (e_buffer e') = b_cap (e_buffer e)"
    "b_cap (e_raw_buffer e') = b_cap (e_raw_buffer e)" "e_encoding e' = e_encoding e" "e_canonical e' = e_canonical e"
    "e_best_indent e' = e_best_indent e" "e_best_width e' = e_best_width e" "e_unicode e' = e_unicode e"
    "e_line_break e' = e_line_break e" "e_states e' = e_states e" "e_state e' = e_state e" "e_events e' = e_events e"
    "e_indents e' = e_indents e" "e_tag_directives e' = e_tag_directives e" "e_indent e' = e_indent e"
    "e_flow_level e' = e_flow_level e" "e_simple_key_context e' = e_simple_key_context e"
    "e_anchor e' = e_anchor e" "e_tag_handle e' = e_tag_handle e" "e_tag_suffix e' = e_tag_suffix e"
    "e_scalar e' = e_scalar e" "e_style e' = e_style e" "e_alias e' = e_alias e"
  by (rule core_cong [OF assms], simp add: core_def)+

lemma framed_core_flush [framed_rules]: "framed core (yaml_emitter_flush :: ('w yaml_emitter, unit) prog)"
proof -
  have "framed core (recode_step le :: ('w yaml_emitter, unit) prog)" for le
    by (rule framed_I) (auto simp: recode_step_def core_def Let_def split: if_splits)
  moreover have "framed core (write_out bs :: ('w yaml_emitter, bool) prog)" for bs
    by (rule framed_I) (auto simp: write_out_def core_def split: option.splits prod.splits)
  ultimately show ?thesis
    unfolding yaml_emitter_flush_def yaml_emitter_set_writer_error_def
    by (intro framed_rules) (simp_all add: core_def reset_buffer_def)
qed

lemma framed_core_store [framed_rules]: "framed core (store bs :: ('w yaml_emitter, unit) prog)"
  by (rule framed_I) (auto simp: store_def prog_defs Let_def core_def split: if_splits)

lemma framed_core_modify:
  "framed core (modifyM (\<lambda>e. e\<lparr>e_column := f e\<rparr>))" "framed core new_line" "framed core (set_ws w i)"
  "framed core (set_indention i)" "framed core (modifyM (\<lambda>e. e\<lparr>e_open_ended := n\<rparr>))"
  "framed core (modifyM (\<lambda>e. e\<lparr>e_whitespace := w, e_indention := (e_indention e \<and> i)\<rparr>))"
  "framed core (modifyM (\<lambda>e. if b e then e\<lparr>e_open_ended := n\<rparr> else e))"
  "framed core (yaml_emitter_set_emitter_error p :: ('w yaml_emitter, 'a) prog)"
  by (auto intro!: framed_rules simp: core_def yaml_emitter_set_emitter_error_def)

lemma framed_core_macros [framed_rules]:
  "framed core (FLUSH :: ('w yaml_emitter, unit) prog)" "framed core (PUT b)" "framed core PUT_BREAK"
  "framed core (WRITE s)" "framed core (WRITE_BREAK s)"
  unfolding FLUSH_def PUT_def PUT_BREAK_def WRITE_def WRITE_BREAK_def
  by (intro framed_rules framed_core_modify)+

lemma framed_core_put_all [framed_rules]: "framed core (put_all bs)"
  by (induction bs) (auto intro!: framed_rules)

lemma framed_core_writers [framed_rules]:
  "framed core yaml_emitter_write_indent" "framed core (need_space b)" "framed core (write_all v)"
  "framed core (yaml_emitter_write_indicator v a b c)" "framed core (yaml_emitter_write_anchor v)"
  "framed core (yaml_emitter_write_tag_handle v)" "framed core (yaml_emitter_write_tag_content v a)"
  "framed core (yaml_emitter_write_bom :: ('w yaml_emitter, unit) prog)"
  unfolding yaml_emitter_write_indent_def need_space_def write_all_def yaml_emitter_write_indicator_def
    yaml_emitter_write_anchor_def yaml_emitter_write_tag_handle_def yaml_emitter_write_tag_content_def Let_def yaml_emitter_write_bom_def
  by (intro framed_rules framed_core_modify)+

lemma framed_core_scalars [framed_rules]:
  "framed core (yaml_emitter_write_plain_scalar v a)" "framed core (yaml_emitter_write_single_quoted_scalar v a)"
  "framed core (yaml_emitter_write_double_quoted_scalar v a)" "framed core (yaml_emitter_write_block_scalar_hints v)"
  "framed core (yaml_emitter_write_literal_scalar v)" "framed core (yaml_emitter_write_folded_scalar v)"
  unfolding yaml_emitter_write_plain_scalar_def yaml_emitter_write_single_quoted_scalar_def
    yaml_emitter_write_double_quoted_scalar_def yaml_emitter_write_block_scalar_hints_def chomp_hint_def
    yaml_emitter_write_literal_scalar_def yaml_emitter_write_folded_scalar_def
    plain_char_def single_quoted_char_def double_quoted_char_def literal_char_def folded_char_def
  by (intro framed_rules framed_core_modify)+

subsection \<open>The output\<close>

text \<open>
  The characters \<open>cs\<close> have been written since the sink held \<open>d0\<close>: the first of them have been handed over to the
  write handler in the output encoding, the other ones are in the buffer.
\<close>

definition stored ::
    "'w write_handler \<Rightarrow> ('w \<Rightarrow> ystring) \<Rightarrow> ystring \<Rightarrow> 32 word list \<Rightarrow> 'w yaml_emitter \<Rightarrow> bool" where
  "stored handler delivered d0 cs e \<longleftrightarrow> (\<exists>xs ds. cs = xs @ ds
     \<and> delivered (e_write_handler_data e) = d0 @ output_bytes (e_encoding e) xs \<and> writer_ok handler ds e)
     \<and> 2 \<le> e_best_indent e \<and> e_best_indent e \<le> 9"

text \<open>
  The position that the emitter counts is that of the output: behind an optional byte order mark stand \<open>line\<close> lines, each
  with a line break at its end, and \<open>column\<close> characters of the current line.
\<close>

definition break_char :: "32 word \<Rightarrow> bool" where
  "break_char c \<longleftrightarrow> c \<in> {0x0D, 0x0A, 0x85, 0x2028, 0x2029}"

definition laid_out :: "32 word list \<Rightarrow> int \<Rightarrow> int \<Rightarrow> bool" where
  "laid_out cs line column \<longleftrightarrow> (\<exists>bom lines rest. cs = bom @ concat lines @ rest \<and> bom \<in> {[], [0xFEFF]}
     \<and> int (length lines) = line \<and> int (length rest) = column \<and> (\<forall>l\<in>set lines. l \<noteq> [] \<and> break_char (last l)))"

lemma laid_out_start: "bom \<in> {[], [0xFEFF]} \<Longrightarrow> laid_out bom 0 0"
  unfolding laid_out_def by (rule exI [of _ bom]) auto

lemma laid_out_char: "laid_out cs line column \<Longrightarrow> laid_out (cs @ [c]) line (column + 1)"
  unfolding laid_out_def by (elim exE, rename_tac bom lines rest, rule_tac x = bom in exI, rule_tac x = lines in exI,
    rule_tac x = "rest @ [c]" in exI) auto

lemma laid_out_break:
  assumes "laid_out cs line column" "xs \<noteq> []" "break_char (last xs)"
  shows "laid_out (cs @ xs) (line + 1) 0"
proof -
  from assms(1) obtain bom lines rest where "cs = bom @ concat lines @ rest" "bom \<in> {[], [0xFEFF]}"
      "int (length lines) = line" "int (length rest) = column" "\<forall>l\<in>set lines. l \<noteq> [] \<and> break_char (last l)"
    unfolding laid_out_def by blast
  with assms(2,3) show ?thesis unfolding laid_out_def
    by (intro exI [of _ bom] exI [of _ "lines @ [rest @ xs]"] exI [of _ "[]"]) auto
qed

definition emitted ::
    "'w write_handler \<Rightarrow> ('w \<Rightarrow> ystring) \<Rightarrow> ystring \<Rightarrow> 32 word list \<Rightarrow> 'w yaml_emitter \<Rightarrow> bool" where
  "emitted handler delivered d0 cs e \<longleftrightarrow> stored handler delivered d0 cs e \<and> laid_out cs (e_line e) (e_column e)
     \<and> e_line_break e \<noteq> YAML_ANY_BREAK"

definition safe :: "'w write_handler \<Rightarrow> ('w \<Rightarrow> ystring) \<Rightarrow> ('w yaml_emitter, 'a) prog \<Rightarrow> bool" where
  "safe handler delivered m \<longleftrightarrow> (\<forall>d0 cs e. emitted handler delivered d0 cs e \<longrightarrow>
     wp m (\<lambda>_ e'. \<exists>new. emitted handler delivered d0 (cs @ new) e') (\<lambda>e'. e_error e' \<noteq> YAML_NO_ERROR) e)"

named_theorems safe_rules \<open>rules for programs that only append characters to the output\<close>

lemma safeI:
  assumes "\<And>d0 cs e. emitted handler delivered d0 cs e \<Longrightarrow>
     wp m (\<lambda>_ e'. \<exists>new. emitted handler delivered d0 (cs @ new) e') (\<lambda>e'. e_error e' \<noteq> YAML_NO_ERROR) e"
  shows "safe handler delivered m"
  using assms by (simp add: safe_def)

lemma safeD:
  "safe handler delivered m \<Longrightarrow> emitted handler delivered d0 cs e \<Longrightarrow>
     wp m (\<lambda>_ e'. \<exists>new. emitted handler delivered d0 (cs @ new) e') (\<lambda>e'. e_error e' \<noteq> YAML_NO_ERROR) e"
  by (simp add: safe_def)

lemma safe_returnM [safe_rules]: "safe H D (returnM a)"
  by (rule safeI) (auto simp: wp_simps intro: exI [of _ "[]"])

lemma safe_bindM [safe_rules]:
  assumes "safe H D m" "\<And>a. safe H D (n a)"
  shows "safe H D (bindM m n)"
proof (rule safeI)
  fix d0 cs e
  assume "emitted H D d0 cs e"
  from safeD [OF assms(1) this] show "wp (bindM m n) (\<lambda>_ e'. \<exists>new. emitted H D d0 (cs @ new) e') (\<lambda>e'. e_error e' \<noteq> YAML_NO_ERROR) e"
    unfolding wp_bindM
  proof (rule wp_mono)
    fix a e'
    assume "\<exists>new. emitted H D d0 (cs @ new) e'"
    then obtain new where "emitted H D d0 (cs @ new) e'" ..
    then show "wp (n a) (\<lambda>_ e'. \<exists>new. emitted H D d0 (cs @ new) e') (\<lambda>e'. e_error e' \<noteq> YAML_NO_ERROR) e'"
      by (rule wp_mono [OF safeD [OF assms(2)]]) auto
  qed
qed

lemma safe_seqM [safe_rules]: "safe H D m \<Longrightarrow> safe H D n \<Longrightarrow> safe H D (seqM m n)"
  by (simp add: seqM_def safe_bindM)

lemma safe_readM [safe_rules]:
  "(\<And>e. 2 \<le> e_best_indent e \<Longrightarrow> e_best_indent e \<le> 9 \<Longrightarrow> safe H D (m e)) \<Longrightarrow> safe H D (readM m)"
  by (auto simp: safe_def wp_simps emitted_def stored_def)

lemma safe_if [safe_rules]: "(b \<Longrightarrow> safe H D m) \<Longrightarrow> (\<not> b \<Longrightarrow> safe H D n) \<Longrightarrow> safe H D (if b then m else n)"
  by simp

lemma safe_whenM [safe_rules]: "(b \<Longrightarrow> safe H D m) \<Longrightarrow> safe H D (whenM b m)" "(\<not> b \<Longrightarrow> safe H D m) \<Longrightarrow> safe H D (unlessM b m)"
  by (simp_all add: whenM_def unlessM_def safe_returnM)

lemma safe_case_option [safe_rules]:
  "(y = None \<Longrightarrow> safe H D m) \<Longrightarrow> (\<And>x. y = Some x \<Longrightarrow> safe H D (n x)) \<Longrightarrow> safe H D (case y of None \<Rightarrow> m | Some x \<Rightarrow> n x)"
  by (cases y) simp_all

lemma safe_case_prod [safe_rules]: "(\<And>x y. safe H D (m x y)) \<Longrightarrow> safe H D (case p of (x, y) \<Rightarrow> m x y)"
  by (cases p) simp

lemma stored_cong:
  assumes "stored H D d0 cs e" "core e' = core e"
    and "e_write_handler_data e' = e_write_handler_data e" "e_buffer e' = e_buffer e" "e_raw_buffer e' = e_raw_buffer e"
  shows "stored H D d0 cs e'"
  using assms(1,3-5) coreD [OF assms(2)] by (auto simp: stored_def writer_ok_def)

lemma emitted_cong:
  assumes "emitted H D d0 cs e" "core e' = core e"
    and "e_write_handler_data e' = e_write_handler_data e" "e_buffer e' = e_buffer e" "e_raw_buffer e' = e_raw_buffer e"
    and "e_line e' = e_line e" "e_column e' = e_column e"
  shows "emitted H D d0 cs e'"
  using assms(1,6,7) coreD(10) [OF assms(2)] stored_cong [OF _ assms(2-5)] by (simp add: emitted_def)

lemma safe_modifyM:
  assumes "\<And>e. core (f e) = core e" "\<And>e. e_write_handler_data (f e) = e_write_handler_data e"
    and "\<And>e. e_buffer (f e) = e_buffer e" "\<And>e. e_raw_buffer (f e) = e_raw_buffer e"
    and "\<And>e. e_line (f e) = e_line e" "\<And>e. e_column (f e) = e_column e"
  shows "safe H D (modifyM f)"
  by (rule safeI) (auto simp: wp_simps intro!: exI [of _ "[]"] intro: emitted_cong assms)

lemma safe_sets [safe_rules]:
  "safe H D (set_ws w i)" "safe H D (set_indention i)" "safe H D (modifyM (\<lambda>e. e\<lparr>e_open_ended := n\<rparr>))"
  "safe H D (modifyM (\<lambda>e. e\<lparr>e_whitespace := w, e_indention := (e_indention e \<and> i)\<rparr>))"
  "safe H D (modifyM (\<lambda>e. if b e then e\<lparr>e_open_ended := n\<rparr> else e))"
  by (rule safe_modifyM; simp add: core_def)+

lemma safe_error [safe_rules]: "safe H D (yaml_emitter_set_emitter_error p :: ('w yaml_emitter, 'a) prog)"
  by (simp add: safe_def yaml_emitter_set_emitter_error_def wp_simps)

subsection \<open>The macros\<close>

lemma store_run:
  assumes "b_pos (e_buffer e) + length bs \<le> b_cap (e_buffer e)"
  shows "store bs e = Return () (e\<lparr>e_buffer := (e_buffer e)\<lparr>b_data := take (b_pos (e_buffer e)) (b_data (e_buffer e)) @ bs,
     b_pos := b_pos (e_buffer e) + length bs\<rparr>\<rparr>)"
  using assms by (simp add: store_def prog_defs Let_def)

lemma wp_store:
  assumes e: "stored H D d0 cs e" and room: "b_pos (e_buffer e) + 5 < OUTPUT_BUFFER_SIZE"
    and bs: "bs = enc new" "\<forall>c\<in>set new. is_char c" "length bs \<le> 5"
    and Q: "\<And>b. stored H D d0 (cs @ new) (e\<lparr>e_buffer := b\<rparr>) \<Longrightarrow> b_cap b = OUTPUT_BUFFER_SIZE \<Longrightarrow> Q () (e\<lparr>e_buffer := b\<rparr>)"
  shows "wp (store bs) Q E e"
proof -
  obtain xs ds where o: "cs = xs @ ds" "D (e_write_handler_data e) = d0 @ output_bytes (e_encoding e) xs" "writer_ok H ds e"
    using e by (auto simp: stored_def)
  let ?b = "(e_buffer e)\<lparr>b_data := take (b_pos (e_buffer e)) (b_data (e_buffer e)) @ bs, b_pos := b_pos (e_buffer e) + length bs\<rparr>"
  have "b_pos (e_buffer e) \<le> length (b_data (e_buffer e))" using o(3) by (simp add: writer_ok_def buffer_ok_def)
  then have "b_pos (e_buffer e) = length (take (b_pos (e_buffer e)) (b_data (e_buffer e)))" by simp
  also have "\<dots> = length (concat (map utf8_put ds))" using o(3) by (simp add: writer_ok_def)
  finally have "b_pos (e_buffer e) = length (concat (map utf8_put ds))" .
  with o(3) room bs have "writer_ok H (ds @ new) (e\<lparr>e_buffer := ?b\<rparr>)"
    by (auto simp: writer_ok_def buffer_ok_def enc_def is_char_def)
  with o(1,2) e have "stored H D d0 (cs @ new) (e\<lparr>e_buffer := ?b\<rparr>)"
    unfolding stored_def by (intro conjI exI [of _ xs] exI [of _ "ds @ new"]) auto
  moreover have "b_pos (e_buffer e) + length bs \<le> b_cap (e_buffer e)" "b_cap ?b = OUTPUT_BUFFER_SIZE"
    using o(3) room bs(3) by (auto simp: writer_ok_def)
  ultimately show ?thesis using Q store_run [of e bs] by (simp add: wp_def)
qed

lemma is_char_byte: "is_char (ucast (v :: 8 word))"
  using unat_byte_less [of v] by (simp add: is_char_def unat_ucast_up)

lemma enc_ascii: "\<forall>v\<in>set vs. v \<le> 0x7F \<Longrightarrow> enc (map ucast vs) = vs"
  by (induction vs) (simp_all add: enc_def put_ascii)

lemma enc_simps [simp]: "enc [] = []" "enc (c # cs) = utf8_put c @ enc cs" "enc (cs @ ds) = enc cs @ enc ds"
  by (simp_all add: enc_def)

lemma octet_put: "octet (utf8_put c @ s) 0 = hd (utf8_put c)"
  by (cases "utf8_put c") (simp_all add: octet_def)

lemma width_put: "is_char c \<Longrightarrow> WIDTH (utf8_put c @ s) = length (utf8_put c)"
  by (simp add: WIDTH_AT_def octet_put utf8_width_put is_char_def)

lemma char_put [simp]:
  assumes "is_char c"
  shows "this_char (utf8_put c @ s) = utf8_put c" "MOVE (utf8_put c @ s) = s" "char_ok (utf8_put c @ s)"
  by (simp_all add: this_char_def MOVE_def char_ok_def width_put [OF assms])

text \<open>A loop over the characters of a string.\<close>

lemma safe_while_chars:
  assumes "\<And>c cs l. is_char c \<Longrightarrow> \<forall>c\<in>set cs. is_char c \<Longrightarrow> safe H D (body (utf8_put c @ enc cs) l)" "\<forall>c\<in>set cs. is_char c"
  shows "safe H D (while_chars body (enc cs) l)"
  using assms(2)
proof (induction cs arbitrary: l)
  case (Cons c cs)
  then show ?case by (subst while_chars.simps) (auto intro!: safe_rules assms(1))
qed (simp add: while_chars.simps safe_returnM)

lemma safe_while_chars_utf8:
  assumes "yaml_check_utf8 v"
    and "\<And>c cs l. is_char c \<Longrightarrow> \<forall>c\<in>set cs. is_char c \<Longrightarrow> safe H D (body (utf8_put c @ enc cs) l)"
  shows "safe H D (while_chars body v l)"
  using assms safe_while_chars [of H D body] by (auto simp: check_utf8_enc)

lemma hd_put_ascii:
  assumes "is_char c" "b \<le> 0x7F"
  shows "hd (utf8_put c) = b \<longleftrightarrow> c = ucast b"
proof (cases "c \<le> 0x7F")
  case True
  then have "ucast (ucast c :: 8 word) = c"
    by (simp add: word_unat_eq_iff unat_ucast_down unat_ucast_up word_le_nat_alt)
  moreover have "ucast (ucast b :: 32 word) = b" by (simp add: word_unat_eq_iff unat_ucast_down unat_ucast_up unat_byte_less)
  ultimately show ?thesis using True by (auto simp: utf8_put_def)
next
  case False
  have "unat (hd (utf8_put c)) = hd (map unat (utf8_put c))" by (simp add: hd_map)
  also have "\<dots> > 0x7F" using False assms(1) by (simp add: utf8_put_nat is_char_def word_le_nat_alt)
  finally have "hd (utf8_put c) \<noteq> b" using assms(2) by (auto simp: word_le_nat_alt)
  moreover have "c \<noteq> ucast b" using False assms(2) by (auto simp: word_le_nat_alt unat_ucast_up)
  ultimately show ?thesis by simp
qed

lemma check_put:
  assumes "is_char c"
  shows "CHECK (utf8_put c @ s) x \<longleftrightarrow> hd (utf8_put c) = ch x"
  by (simp add: CHECK_AT_def octet_put)

lemma newline_char: "is_char c \<Longrightarrow> hd (utf8_put c) = ch CHR 0x0A \<longleftrightarrow> c = 0x0A"
  using hd_put_ascii [of c "0x0A"] by (simp add: ch_def)

lemma wp_ignoreM [wp_simps]: "wp (ignoreM m) Q E s = wp m Q (Q ()) s"
  by (simp add: wp_def ignoreM_def split: result.split)

lemma hex_digit_ascii: "d < 16 \<Longrightarrow> hex_digit d \<le> 0x7F"
proof -
  assume d: "d < 16"
  then have "unat (d + (if d < 10 then 0x30 else 0x41 - 10)) < 128" by (simp add: unat_word_ariths word_less_nat_alt)
  then show ?thesis by (simp add: hex_digit_def word_le_nat_alt unat_ucast_down)
qed

lemma nibble: "(v :: 32 word) AND 0x0F < 16"
  using unat_and_mask [of v 4] by (simp add: word_less_nat_alt mask_eq_exp_minus_1)

lemma percent_ascii: "x \<in> set (percent b) \<Longrightarrow> x \<le> 0x7F"
proof -
  have "drop_bit 4 (ucast b :: 32 word) < 16"
    using unat_byte_less [of b] by (simp add: word_less_nat_alt unat_drop_bit unat_ucast_up less_mult_imp_div_less)
  then show "x \<in> set (percent b) \<Longrightarrow> x \<le> 0x7F"
    by (auto simp: percent_def Let_def ch_def intro!: hex_digit_ascii nibble)
qed

lemma dq_escape_ascii: "\<forall>b\<in>set (dq_escape v). b \<le> 0x7F"
  by (auto simp: dq_escape_def hex_digits_def ch_def intro!: hex_digit_ascii nibble)

lemma bindM_returnM: "bindM (returnM a) f = f a"
  by (simp add: fun_eq_iff bindM_def returnM_def)

lemma indent_hint: "2 \<le> i \<Longrightarrow> i \<le> 9 \<Longrightarrow> (0x30 + of_int i :: 8 word) \<le> 0x7F"
proof -
  assume "2 \<le> i" "i \<le> 9"
  then have "i \<in> {2, 3, 4, 5, 6, 7, 8, 9}" by auto
  then show ?thesis by auto
qed

lemma put_trailing:
  assumes "is_char c"
  shows "hd (utf8_put c) AND 0xC0 \<noteq> 0x80" "\<forall>b\<in>set (tl (utf8_put c)). b AND 0xC0 = 0x80"
proof -
  have n: "unat c < 0x200000" using assms by (simp add: is_char_def)
  have "unat (hd (utf8_put c)) = hd (map unat (utf8_put c))" by (simp add: hd_map)
  then have "unat (hd (utf8_put c)) < 128 \<or> 192 \<le> unat (hd (utf8_put c))" unfolding utf8_put_nat [OF n] by simp
  then show "hd (utf8_put c) AND 0xC0 \<noteq> 0x80" by (auto simp: trail_iff)
  have "map unat (tl (utf8_put c)) = tl (map unat (utf8_put c))" by (simp add: map_tl)
  then have "\<forall>k\<in>set (map unat (tl (utf8_put c))). 128 \<le> k \<and> k < 192" unfolding utf8_put_nat [OF n] by simp
  then show "\<forall>b\<in>set (tl (utf8_put c)). b AND 0xC0 = 0x80" by (simp add: trail_iff)
qed

lemma char_back_trailing:
  assumes "\<forall>b\<in>set ts. b AND 0xC0 = 0x80" "l AND 0xC0 \<noteq> 0x80"
  shows "char_back (xs @ l # ts @ ys) (length xs + Suc (length ts)) = Some (length xs)"
  using assms(1)
proof (induction ts arbitrary: ys rule: rev_induct)
  case (snoc t ts)
  have "octet (xs @ l # (ts @ [t]) @ ys) (length xs + Suc (length ts)) = t" by (simp add: octet_def nth_append)
  with snoc.prems have "char_back (xs @ l # (ts @ [t]) @ ys) (length xs + Suc (length (ts @ [t])))
      = char_back (xs @ l # (ts @ [t]) @ ys) (length xs + Suc (length ts))" by simp
  then show ?case using snoc.IH [of "t # ys"] snoc.prems by simp
qed (use assms(2) in \<open>simp add: octet_def nth_append\<close>)

lemma char_back_put:
  assumes "is_char c"
  shows "char_back (xs @ utf8_put c @ ys) (length xs + length (utf8_put c)) = Some (length xs)"
proof -
  obtain l ts where c: "utf8_put c = l # ts" by (cases "utf8_put c") simp_all
  show ?thesis using char_back_trailing [of ts l xs ys] put_trailing [OF assms] c by simp
qed

lemma chomp_hint_run:
  assumes "yaml_check_utf8 s"
  obtains h where "chomp_hint s = returnM h" "h \<in> {None, Some (lit ''-''), Some (lit ''+'')}"
proof -
  obtain cs where cs: "s = enc cs" "\<forall>c\<in>set cs. is_char c" using assms by (auto simp: check_utf8_enc)
  show ?thesis
  proof (cases cs rule: rev_cases)
    case Nil
    then show ?thesis using cs that by (simp add: chomp_hint_def)
  next
    case (snoc ds c)
    have k: "char_back s (length s) = Some (length (enc ds))" using char_back_put [of c "enc ds" "[]"] cs snoc by simp
    show ?thesis
    proof (cases ds rule: rev_cases)
      case Nil
      then show ?thesis using k that cs snoc by (cases "IS_BREAK_AT s 0") (simp_all add: chomp_hint_def)
    next
      case (snoc bs b)
      have "char_back s (length (enc ds)) = Some (length (enc bs))"
        using char_back_put [of b "enc bs" "utf8_put c"] cs \<open>cs = ds @ [c]\<close> snoc by simp
      with k show ?thesis using that cs \<open>cs = ds @ [c]\<close>
        by (cases "IS_BREAK_AT s (length (enc ds))"; cases "IS_BREAK_AT s (length (enc bs))"; cases "length (enc ds) = 0")
          (simp_all add: chomp_hint_def)
    qed
  qed
qed

context byte_sink
begin

lemma wp_flush_stored:
  assumes "stored handler delivered d0 cs e"
  shows "wp yaml_emitter_flush (\<lambda>_ e'. stored handler delivered d0 cs e' \<and> writer_ok handler [] e')
     (\<lambda>e'. e_error e' \<noteq> YAML_NO_ERROR) e"
proof -
  obtain xs ds where o: "cs = xs @ ds" "delivered (e_write_handler_data e) = d0 @ output_bytes (e_encoding e) xs" "writer_ok handler ds e"
    using assms by (auto simp: stored_def)
  have out: "output_bytes c (xs @ ds) = output_bytes c xs @ output_bytes c ds" for c by simp
  show ?thesis
  proof (rule wp_mono [OF wp_framed [OF framed_core_flush wp_flush [OF o(3)]]])
    fix a e'
    assume a: "(writer_ok handler [] e' \<and> delivered (e_write_handler_data e') = delivered (e_write_handler_data e) @ output_bytes (e_encoding e) ds)
       \<and> core e' = core e"
    then have "e_encoding e' = e_encoding e" "e_best_indent e' = e_best_indent e" using coreD [of e' e] by blast+
    then show "stored handler delivered d0 cs e' \<and> writer_ok handler [] e'"
      using a o out assms unfolding stored_def by (intro conjI exI [of _ cs] exI [of _ "[]"]) auto
  qed simp
qed

lemma framed_flush_position: "framed (\<lambda>e. (e_column e, e_line e, e_whitespace e, e_indention e))
  (yaml_emitter_flush :: ('w yaml_emitter, unit) prog)"
proof -
  let ?f = "\<lambda>e :: 'w yaml_emitter. (e_column e, e_line e, e_whitespace e, e_indention e)"
  have "framed ?f (recode_step le)" for le
    by (rule framed_I) (auto simp: recode_step_def Let_def split: if_splits)
  moreover have "framed ?f (write_out bs)" for bs
    by (rule framed_I) (auto simp: write_out_def split: option.splits prod.splits)
  ultimately show ?thesis
    unfolding yaml_emitter_flush_def yaml_emitter_set_writer_error_def
    by (intro framed_rules) simp_all
qed

lemma wp_flush_emitted:
  assumes "emitted handler delivered d0 cs e"
  shows "wp yaml_emitter_flush (\<lambda>_ e'. emitted handler delivered d0 cs e' \<and> writer_ok handler [] e')
     (\<lambda>e'. e_error e' \<noteq> YAML_NO_ERROR) e"
proof -
  have "stored handler delivered d0 cs e" using assms by (simp add: emitted_def)
  from wp_framed [OF framed_flush_position wp_framed [OF framed_core_flush wp_flush_stored [OF this]]] show ?thesis
    by (rule wp_mono) (use assms in \<open>auto simp: emitted_def dest: coreD(10)\<close>)
qed

lemma wp_FLUSH:
  assumes e: "emitted handler delivered d0 cs e"
    and Q: "\<And>e'. emitted handler delivered d0 cs e' \<Longrightarrow> b_pos (e_buffer e') + 5 < OUTPUT_BUFFER_SIZE \<Longrightarrow> core e' = core e
      \<Longrightarrow> e_column e' = e_column e \<Longrightarrow> e_line e' = e_line e \<Longrightarrow> e_whitespace e' = e_whitespace e \<Longrightarrow> e_indention e' = e_indention e \<Longrightarrow> Q () e'"
    and E: "\<And>e'. e_error e' \<noteq> YAML_NO_ERROR \<Longrightarrow> core e' = core e \<Longrightarrow> E e'"
  shows "wp FLUSH Q E e"
proof (cases "b_pos (e_buffer e) + 5 < b_cap (e_buffer e)")
  case True
  with e have "b_pos (e_buffer e) + 5 < OUTPUT_BUFFER_SIZE" by (auto simp: emitted_def stored_def writer_ok_def)
  with True e show ?thesis by (auto simp: FLUSH_def wp_simps intro: Q)
next
  case False
  have empty: "b_pos (e_buffer e') = 0" if "writer_ok handler [] e'" for e' :: "'w yaml_emitter"
    using that by (auto simp: writer_ok_def buffer_ok_def)
  have "wp yaml_emitter_flush Q E e"
    by (rule wp_mono [OF wp_framed [OF framed_flush_position wp_framed [OF framed_core_flush wp_flush_emitted [OF e]]]])
      (auto intro!: Q E simp: empty OUTPUT_BUFFER_SIZE_def)
  with False show ?thesis by (simp add: FLUSH_def wp_simps)
qed

lemma wp_put:
  assumes e: "emitted handler delivered d0 cs e" and bs: "\<And>e'. core e' = core e \<Longrightarrow> bs e' = enc new"
    and new: "\<forall>c\<in>set new. is_char c" "length (enc new) \<le> 5"
    and Q: "\<And>e'. stored handler delivered d0 (cs @ new) e' \<Longrightarrow> core e' = core e
      \<Longrightarrow> e_column e' = e_column e \<Longrightarrow> e_line e' = e_line e \<Longrightarrow> e_whitespace e' = e_whitespace e \<Longrightarrow> e_indention e' = e_indention e
      \<Longrightarrow> wp m Q E e'"
    and E: "\<And>e'. e_error e' \<noteq> YAML_NO_ERROR \<Longrightarrow> core e' = core e \<Longrightarrow> E e'"
  shows "wp (seqM FLUSH (seqM (readM (\<lambda>e. store (bs e))) m)) Q E e"
  unfolding wp_seqM
proof (rule wp_FLUSH [OF e _ E])
  fix e'
  assume e': "emitted handler delivered d0 cs e'" "b_pos (e_buffer e') + 5 < OUTPUT_BUFFER_SIZE" "core e' = core e"
    "e_column e' = e_column e" "e_line e' = e_line e" "e_whitespace e' = e_whitespace e" "e_indention e' = e_indention e"
  have cap: "b_cap (e_buffer e') = OUTPUT_BUFFER_SIZE" using e'(1) by (auto simp: emitted_def stored_def writer_ok_def)
  have "wp (store (enc new)) (\<lambda>_. wp m Q E) E e'"
  proof (rule wp_store [OF e'(1) [unfolded emitted_def, THEN conjunct1] e'(2) refl new])
    fix b
    assume b: "stored handler delivered d0 (cs @ new) (e'\<lparr>e_buffer := b\<rparr>)" "b_cap b = OUTPUT_BUFFER_SIZE"
    have "core (e'\<lparr>e_buffer := b\<rparr>) = core e'" using b(2) cap by (simp add: core_def)
    with b(1) e' show "wp m Q E (e'\<lparr>e_buffer := b\<rparr>)" by (intro Q) simp_all
  qed
  then show "wp (readM (\<lambda>e. store (bs e))) (\<lambda>_. wp m Q E) E e'" by (simp add: wp_readM bs [OF e'(3)])
qed


lemma readM_const: "readM (\<lambda>_. m) = m"
  by (simp add: fun_eq_iff readM_def)

lemmas wp_put_const = wp_put [where bs = "\<lambda>_. bs" for bs, unfolded readM_const]

lemma wp_PUT:
  assumes "emitted handler delivered d0 cs e" "v \<le> 0x7F"
    and "\<And>e'. emitted handler delivered d0 (cs @ [ucast v]) e' \<Longrightarrow> core e' = core e \<Longrightarrow> e_column e' = e_column e + 1
      \<Longrightarrow> e_line e' = e_line e \<Longrightarrow> e_whitespace e' = e_whitespace e \<Longrightarrow> e_indention e' = e_indention e \<Longrightarrow> Q () e'"
    and "\<And>e'. e_error e' \<noteq> YAML_NO_ERROR \<Longrightarrow> core e' = core e \<Longrightarrow> E e'"
  shows "wp (PUT v) Q E e"
  unfolding PUT_def
proof (rule wp_put_const [OF assms(1), where new = "[ucast v]"])
  fix e'
  assume e': "stored handler delivered d0 (cs @ [ucast v]) e'" "core e' = core e" "e_column e' = e_column e"
    "e_line e' = e_line e" "e_whitespace e' = e_whitespace e" "e_indention e' = e_indention e"
  have k: "core (e'\<lparr>e_column := e_column e' + 1\<rparr>) = core e'" by (simp add: core_def)
  have st: "emitted handler delivered d0 (cs @ [ucast v]) (e'\<lparr>e_column := e_column e' + 1\<rparr>)"
    using stored_cong [OF e'(1) k] assms(1) e'(2-4) coreD(10) [OF e'(2)] by (simp add: emitted_def laid_out_char)
  show "wp (modifyM (\<lambda>e. e\<lparr>e_column := e_column e + 1\<rparr>)) Q E e'"
    using e' k st by (auto simp: wp_simps intro!: assms(3))
qed (use assms(2,4) in \<open>simp_all add: put_ascii is_char_byte\<close>)

lemma wp_WRITE:
  assumes "emitted handler delivered d0 cs e" "is_char c"
    and "\<And>e'. emitted handler delivered d0 (cs @ [c]) e' \<Longrightarrow> core e' = core e \<Longrightarrow> e_column e' = e_column e + 1
      \<Longrightarrow> e_line e' = e_line e \<Longrightarrow> e_whitespace e' = e_whitespace e \<Longrightarrow> e_indention e' = e_indention e \<Longrightarrow> Q () e'"
    and "\<And>e'. e_error e' \<noteq> YAML_NO_ERROR \<Longrightarrow> core e' = core e \<Longrightarrow> E e'"
  shows "wp (WRITE (utf8_put c @ s)) Q E e"
  unfolding WRITE_def char_put(1) [OF assms(2)]
proof (rule wp_put_const [OF assms(1), where new = "[c]"])
  fix e'
  assume e': "stored handler delivered d0 (cs @ [c]) e'" "core e' = core e" "e_column e' = e_column e"
    "e_line e' = e_line e" "e_whitespace e' = e_whitespace e" "e_indention e' = e_indention e"
  have k: "core (e'\<lparr>e_column := e_column e' + 1\<rparr>) = core e'" by (simp add: core_def)
  have st: "emitted handler delivered d0 (cs @ [c]) (e'\<lparr>e_column := e_column e' + 1\<rparr>)"
    using stored_cong [OF e'(1) k] assms(1) e'(2-4) coreD(10) [OF e'(2)] by (simp add: emitted_def laid_out_char)
  show "wp (modifyM (\<lambda>e. e\<lparr>e_column := e_column e + 1\<rparr>)) Q E e'"
    using e' k st by (auto simp: wp_simps intro!: assms(3))
qed (use assms(2,4) length_utf8_put_le [of c] in \<open>simp_all add: le_SucI numeral_eq_Suc\<close>)

lemma break_enc: "break_bytes b = enc (map ucast (break_bytes b))" "length (break_bytes b) \<le> 5"
proof -
  have "\<forall>v\<in>set (break_bytes b). v \<le> 0x7F" by (cases b) (simp_all add: break_bytes_def)
  then show "break_bytes b = enc (map ucast (break_bytes b))" by (rule enc_ascii [symmetric])
qed (cases b; simp add: break_bytes_def)

lemma break_chars:
  "b \<noteq> YAML_ANY_BREAK \<Longrightarrow> map (ucast :: 8 word \<Rightarrow> 32 word) (break_bytes b) \<noteq> []"
  "b \<noteq> YAML_ANY_BREAK \<Longrightarrow> break_char (last (map ucast (break_bytes b)))"
  by (cases b; simp add: break_bytes_def break_char_def)+

lemma wp_PUT_BREAK:
  assumes "emitted handler delivered d0 cs e"
    and "\<And>e'. emitted handler delivered d0 (cs @ map ucast (break_bytes (e_line_break e))) e' \<Longrightarrow> core e' = core e \<Longrightarrow> e_column e' = 0
      \<Longrightarrow> e_line e' = e_line e + 1 \<Longrightarrow> e_whitespace e' = e_whitespace e \<Longrightarrow> e_indention e' = e_indention e \<Longrightarrow> Q () e'"
    and "\<And>e'. e_error e' \<noteq> YAML_NO_ERROR \<Longrightarrow> core e' = core e \<Longrightarrow> E e'"
  shows "wp PUT_BREAK Q E e"
  unfolding PUT_BREAK_def
proof (rule wp_put [OF assms(1), where new = "map ucast (break_bytes (e_line_break e))"])
  fix e'
  assume e': "stored handler delivered d0 (cs @ map ucast (break_bytes (e_line_break e))) e'" "core e' = core e" "e_column e' = e_column e"
    "e_line e' = e_line e" "e_whitespace e' = e_whitespace e" "e_indention e' = e_indention e"
  have k: "core (e'\<lparr>e_column := 0, e_line := e_line e' + 1\<rparr>) = core e'" by (simp add: core_def)
  have st: "emitted handler delivered d0 (cs @ map ucast (break_bytes (e_line_break e))) (e'\<lparr>e_column := 0, e_line := e_line e' + 1\<rparr>)"
    using stored_cong [OF e'(1) k] assms(1) e'(2-4) coreD(10) [OF e'(2)] break_chars [of "e_line_break e"]
    by (auto simp: emitted_def intro!: laid_out_break)
  show "wp new_line Q E e'"
    using e' k st by (auto simp: wp_simps intro!: assms(2))
next
  fix e'
  assume "core e' = core e"
  then show "break_bytes (e_line_break e') = enc (map ucast (break_bytes (e_line_break e)))"
    using break_enc(1) coreD(10) by metis
qed (use assms(3) break_enc in \<open>auto simp: is_char_byte simp flip: break_enc(1)\<close>)

lemma IS_BREAK_put:
  assumes "is_char c" "IS_BREAK (utf8_put c @ s)"
  shows "break_char c"
proof -
  let ?s = "utf8_put c @ s"
  have c: "utf8_put c = take (WIDTH ?s) ?s" "utf8_value (utf8_put c) = c"
    using assms(1) by (simp_all add: width_put utf8_value_put is_char_def)
  have hd: "octet ?s 0 = hd (utf8_put c)" by (rule octet_put)
  consider (one) b where "octet ?s 0 = b" "b = 0x0D \<or> b = 0x0A" | (two) "octet ?s 0 = 0xC2" "octet ?s 1 = 0x85"
    | (three) b where "octet ?s 0 = 0xE2" "octet ?s 1 = 0x80" "octet ?s 2 = b" "b = 0xA8 \<or> b = 0xA9"
    using assms(2) by (auto simp: IS_BREAK_AT_def CHECK_AT_def ch_def numeral_2_eq_2)
  then show ?thesis
  proof cases
    case one
    then have "c = ucast b" using hd hd_put_ascii [OF assms(1), of b] by auto
    then show ?thesis using one by (auto simp: break_char_def)
  next
    case two
    then have "WIDTH ?s = 2" by (simp add: WIDTH_AT_def utf8_width_def)
    then have l: "length (utf8_put c) = 2" using width_put [OF assms(1), of s] by simp
    then obtain x y where xy: "utf8_put c = [x, y]" by (auto simp: numeral_2_eq_2 length_Suc_conv)
    then have "utf8_put c = [0xC2, 0x85]" using two by (simp add: octet_def)
    then have "c = utf8_value [0xC2, 0x85]" using c(2) by simp
    then show ?thesis by (simp add: utf8_value_def add_trailing_def utf8_lead_value_def break_char_def)
  next
    case three
    then have "WIDTH ?s = 3" by (simp add: WIDTH_AT_def utf8_width_def)
    then have l: "length (utf8_put c) = 3" using width_put [OF assms(1), of s] by simp
    then obtain x y z where xyz: "utf8_put c = [x, y, z]" by (auto simp: numeral_3_eq_3 length_Suc_conv)
    then have "utf8_put c = [0xE2, 0x80, b]" using three by (simp add: octet_def)
    then have "c = utf8_value [0xE2, 0x80, b]" using c(2) by simp
    then show ?thesis using three by (auto simp: utf8_value_def add_trailing_def utf8_lead_value_def break_char_def)
  qed
qed

lemma wp_WRITE_BREAK:
  assumes "emitted handler delivered d0 cs e" "is_char c" "break_char c"
    and "\<And>e'. emitted handler delivered d0 (cs @ (if c = 0x0A then map ucast (break_bytes (e_line_break e)) else [c])) e' \<Longrightarrow> core e' = core e
      \<Longrightarrow> e_column e' = 0 \<Longrightarrow> e_line e' = e_line e + 1 \<Longrightarrow> e_whitespace e' = e_whitespace e \<Longrightarrow> e_indention e' = e_indention e \<Longrightarrow> Q () e'"
    and "\<And>e'. e_error e' \<noteq> YAML_NO_ERROR \<Longrightarrow> core e' = core e \<Longrightarrow> E e'"
  shows "wp (WRITE_BREAK (utf8_put c @ s)) Q E e"
  unfolding WRITE_BREAK_def wp_seqM
proof (rule wp_FLUSH [OF assms(1) _ assms(5)])
  fix e'
  assume e': "emitted handler delivered d0 cs e'" "b_pos (e_buffer e') + 5 < OUTPUT_BUFFER_SIZE" "core e' = core e"
    "e_column e' = e_column e" "e_line e' = e_line e" "e_whitespace e' = e_whitespace e" "e_indention e' = e_indention e"
  let ?new = "if c = 0x0A then map ucast (break_bytes (e_line_break e)) else [c]"
  have cap: "b_cap (e_buffer e') = OUTPUT_BUFFER_SIZE" using e'(1) by (auto simp: emitted_def stored_def writer_ok_def)
  have lb: "e_line_break e' = e_line_break e" by (rule coreD [OF e'(3)])
  have new: "\<forall>c\<in>set ?new. is_char c" "length (enc ?new) \<le> 5"
    using assms(2) break_enc [of "e_line_break e"] length_utf8_put_le [of c] by (auto simp: is_char_byte simp flip: break_enc(1))
  have st: "wp (store (enc ?new)) (\<lambda>_. wp new_line Q E') E' e'" for E'
  proof (rule wp_store [OF e'(1) [unfolded emitted_def, THEN conjunct1] e'(2) refl new])
    fix b
    assume b: "stored handler delivered d0 (cs @ ?new) (e'\<lparr>e_buffer := b\<rparr>)" "b_cap b = OUTPUT_BUFFER_SIZE"
    let ?e = "e'\<lparr>e_buffer := b, e_column := 0, e_line := e_line e' + 1\<rparr>"
    have k: "core (e'\<lparr>e_buffer := b\<rparr>) = core e'" "core ?e = core (e'\<lparr>e_buffer := b\<rparr>)" using b(2) cap by (simp_all add: core_def)
    have "emitted handler delivered d0 (cs @ ?new) ?e" 
      using stored_cong [OF b(1) k(2)] e' assms(3) lb break_chars [of "e_line_break e"] by (auto simp: emitted_def intro!: laid_out_break)
    then have "Q () ?e" by (rule assms(4)) (use e' k in simp_all)
    then show "wp new_line Q E' (e'\<lparr>e_buffer := b\<rparr>)" by (simp add: wp_simps)
  qed
  have chk: "CHECK (utf8_put c @ s) CHR 0x0A \<longleftrightarrow> c = 0x0A" by (simp add: check_put newline_char assms(2))
  show "wp (if CHECK (utf8_put c @ s) CHR 0x0A then ignoreM PUT_BREAK else seqM (store (this_char (utf8_put c @ s))) new_line) Q E e'"
  proof (cases "c = 0x0A")
    case True
    have "wp PUT_BREAK Q (Q ()) e'"
      using st [of "Q ()"] True e'(2) cap by (simp add: PUT_BREAK_def FLUSH_def wp_simps lb break_enc(1) [symmetric])
    then show ?thesis using True unfolding chk by (simp add: wp_ignoreM)
  next
    case False
    then show ?thesis using st [of E] unfolding chk by (simp add: wp_simps char_put [OF assms(2)])
  qed
qed


lemma safe_PUT [safe_rules]: "v \<le> 0x7F \<Longrightarrow> safe handler delivered (PUT v)"
  by (rule safeI) (auto intro: wp_PUT)

lemma safe_PUT_BREAK [safe_rules]: "safe handler delivered PUT_BREAK"
  by (rule safeI) (auto intro: wp_PUT_BREAK)

lemma safe_WRITE [safe_rules]: "is_char c \<Longrightarrow> safe handler delivered (WRITE (utf8_put c @ s))"
  by (rule safeI) (auto intro: wp_WRITE)

lemma safe_WRITE_BREAK [safe_rules]: "is_char c \<Longrightarrow> IS_BREAK (utf8_put c @ s) \<Longrightarrow> safe handler delivered (WRITE_BREAK (utf8_put c @ s))"
  by (rule safeI) (auto intro: wp_WRITE_BREAK IS_BREAK_put)

lemma safe_put_all [safe_rules]: "\<forall>b\<in>set bs. b \<le> 0x7F \<Longrightarrow> safe handler delivered (put_all bs)"
  by (induction bs) (auto intro!: safe_rules)

text \<open>The loop of \<open>yaml_emitter_write_indent\<close> ends because every space moves the column by one.\<close>

lemma safe_spaces: "safe handler delivered (readM (\<lambda>e. whileM (nat (i - e_column e)) (\<lambda>e. e_column e < i) (PUT 0x20)))"
proof (rule safeI, unfold wp_readM)
  fix d0 cs and e :: "'w yaml_emitter"
  assume e: "emitted handler delivered d0 cs e"
  show "wp (whileM (nat (i - e_column e)) (\<lambda>e. e_column e < i) (PUT 0x20))
      (\<lambda>_ e'. \<exists>new. emitted handler delivered d0 (cs @ new) e') (\<lambda>e'. e_error e' \<noteq> YAML_NO_ERROR) e"
    by (rule wp_whileM [where I = "\<lambda>e'. \<exists>new. emitted handler delivered d0 (cs @ new) e'" and \<mu> = "\<lambda>e. nat (i - e_column e)"])
      (use e in \<open>auto intro: exI [of _ "[]"] intro!: wp_PUT\<close>)
qed

lemma safe_write_indent [safe_rules]: "safe handler delivered yaml_emitter_write_indent"
  unfolding yaml_emitter_write_indent_def Let_def by (intro safe_rules safe_spaces)

lemma safe_need_space [safe_rules]: "safe handler delivered (need_space b)"
  unfolding need_space_def by (intro safe_rules) simp

lemma safe_write_all [safe_rules]: "yaml_check_utf8 v \<Longrightarrow> safe handler delivered (write_all v)"
  unfolding write_all_def by (intro safe_while_chars_utf8 safe_rules)

lemma safe_write_indicator [safe_rules]: "yaml_check_utf8 (c_str v) \<Longrightarrow> safe handler delivered (yaml_emitter_write_indicator v a b c)"
  unfolding yaml_emitter_write_indicator_def by (intro safe_rules)

lemma safe_write_anchor [safe_rules]: "yaml_check_utf8 v \<Longrightarrow> safe handler delivered (yaml_emitter_write_anchor v)"
  unfolding yaml_emitter_write_anchor_def by (intro safe_rules)

lemma safe_write_tag_handle [safe_rules]: "yaml_check_utf8 v \<Longrightarrow> safe handler delivered (yaml_emitter_write_tag_handle v)"
  unfolding yaml_emitter_write_tag_handle_def by (intro safe_rules)

lemma safe_write_tag_content [safe_rules]: "yaml_check_utf8 v \<Longrightarrow> safe handler delivered (yaml_emitter_write_tag_content v a)"
  unfolding yaml_emitter_write_tag_content_def
  by (intro safe_rules safe_while_chars_utf8) (auto simp: percent_ascii)

lemma safe_plain_scalar [safe_rules]: "yaml_check_utf8 v \<Longrightarrow> safe handler delivered (yaml_emitter_write_plain_scalar v a)"
  unfolding yaml_emitter_write_plain_scalar_def plain_char_def
  by (intro safe_rules safe_while_chars_utf8) simp_all

lemma safe_single_quoted_scalar [safe_rules]:
  "yaml_check_utf8 v \<Longrightarrow> safe handler delivered (yaml_emitter_write_single_quoted_scalar v a)"
  unfolding yaml_emitter_write_single_quoted_scalar_def single_quoted_char_def
  by (intro safe_rules safe_while_chars_utf8) (simp_all add: c_str_def check_utf8_ascii del: yaml_check_utf8.simps)

lemma safe_double_quoted_scalar [safe_rules]:
  "yaml_check_utf8 v \<Longrightarrow> safe handler delivered (yaml_emitter_write_double_quoted_scalar v a)"
  unfolding yaml_emitter_write_double_quoted_scalar_def double_quoted_char_def
  by (intro safe_rules safe_while_chars_utf8) (simp_all add: c_str_def check_utf8_ascii dq_escape_ascii del: yaml_check_utf8.simps)

lemma safe_literal_chars: "yaml_check_utf8 v \<Longrightarrow> safe handler delivered (while_chars literal_char v l)"
  unfolding literal_char_def by (intro safe_rules safe_while_chars_utf8)

lemma safe_folded_chars: "yaml_check_utf8 v \<Longrightarrow> safe handler delivered (while_chars folded_char v l)"
  unfolding folded_char_def by (intro safe_rules safe_while_chars_utf8)


lemma safe_hints [safe_rules]: "yaml_check_utf8 v \<Longrightarrow> safe handler delivered (yaml_emitter_write_block_scalar_hints v)"
proof -
  assume v: "yaml_check_utf8 v"
  obtain h where h: "(chomp_hint v :: ('w yaml_emitter, ystring option) prog) = returnM h" "h \<in> {None, Some (lit ''-''), Some (lit ''+'')}" by (rule chomp_hint_run [OF v])
  have ind: "yaml_check_utf8 (c_str [0x30 + of_int i])" if "2 \<le> i" "i \<le> 9" for i
    by (rule check_utf8_ascii) (use that indent_hint [of i] in \<open>auto simp: c_str_def split: if_splits\<close>)
  have sign: "yaml_check_utf8 (c_str s)" if "s \<in> {lit ''-'', lit ''+''}" for s
    by (rule check_utf8_ascii) (use that in \<open>auto simp: c_str_def lit_def\<close>)
  show ?thesis unfolding yaml_emitter_write_block_scalar_hints_def h(1) bindM_returnM
    by (intro safe_rules ind) (use h(2) sign in auto)
qed

lemma safe_block_scalars [safe_rules]:
  "yaml_check_utf8 v \<Longrightarrow> safe handler delivered (yaml_emitter_write_literal_scalar v)"
  "yaml_check_utf8 v \<Longrightarrow> safe handler delivered (yaml_emitter_write_folded_scalar v)"
  unfolding yaml_emitter_write_literal_scalar_def yaml_emitter_write_folded_scalar_def
  by (intro safe_rules safe_literal_chars safe_folded_chars; simp add: c_str_def check_utf8_ascii lit_def del: yaml_check_utf8.simps)+

end

end
