(* ===== verification/Emitter_Correct.thy ===== *)
theory Emitter_Correct
  imports Emitter_Safe Dumper_Correct Parser_Runs
begin

text \<open>
  The emitter as a state machine: its states, with the stack of states to be resumed, are the states of the
  grammar of events (\<open>accept\<close>), which it follows event by event; it never pops an empty stack, keeps its stacks of
  states and of indents in step, and owns exactly the blocks of its queue, its stacks and its tag directives.
\<close>

subsection \<open>The control state\<close>

text \<open>The context of the node that is emitted before a state on the stack is resumed.\<close>

fun cont_frame :: "yaml_emitter_state \<Rightarrow> frame option" where
  "cont_frame YAML_EMIT_FLOW_SEQUENCE_ITEM_STATE = Some InSeq"
| "cont_frame YAML_EMIT_BLOCK_SEQUENCE_ITEM_STATE = Some InSeq"
| "cont_frame YAML_EMIT_FLOW_MAPPING_SIMPLE_VALUE_STATE = Some AtKey"
| "cont_frame YAML_EMIT_FLOW_MAPPING_VALUE_STATE = Some AtKey"
| "cont_frame YAML_EMIT_BLOCK_MAPPING_SIMPLE_VALUE_STATE = Some AtKey"
| "cont_frame YAML_EMIT_BLOCK_MAPPING_VALUE_STATE = Some AtKey"
| "cont_frame YAML_EMIT_FLOW_MAPPING_KEY_STATE = Some AtValue"
| "cont_frame YAML_EMIT_BLOCK_MAPPING_KEY_STATE = Some AtValue"
| "cont_frame _ = None"

definition stack_shape :: "yaml_emitter_state list \<Rightarrow> bool" where
  "stack_shape ss \<longleftrightarrow> (\<exists>cs. ss = YAML_EMIT_DOCUMENT_END_STATE # cs \<and> (\<forall>c\<in>set cs. cont_frame c \<noteq> None))"

definition frames_of :: "yaml_emitter_state list \<Rightarrow> frame list" where
  "frames_of ss = map (\<lambda>c. the (cont_frame c)) (rev (tl ss))"

fun e_abs :: "yaml_emitter_state \<Rightarrow> yaml_emitter_state list \<Rightarrow> astate" where
  "e_abs YAML_EMIT_STREAM_START_STATE ss = AStart"
| "e_abs YAML_EMIT_FIRST_DOCUMENT_START_STATE ss = ADocs"
| "e_abs YAML_EMIT_DOCUMENT_START_STATE ss = ADocs"
| "e_abs YAML_EMIT_DOCUMENT_CONTENT_STATE ss = ANode []"
| "e_abs YAML_EMIT_DOCUMENT_END_STATE ss = ADocEnd"
| "e_abs YAML_EMIT_FLOW_SEQUENCE_FIRST_ITEM_STATE ss = ANode (InSeq # frames_of ss)"
| "e_abs YAML_EMIT_FLOW_SEQUENCE_ITEM_STATE ss = ANode (InSeq # frames_of ss)"
| "e_abs YAML_EMIT_BLOCK_SEQUENCE_FIRST_ITEM_STATE ss = ANode (InSeq # frames_of ss)"
| "e_abs YAML_EMIT_BLOCK_SEQUENCE_ITEM_STATE ss = ANode (InSeq # frames_of ss)"
| "e_abs YAML_EMIT_FLOW_MAPPING_FIRST_KEY_STATE ss = ANode (AtKey # frames_of ss)"
| "e_abs YAML_EMIT_FLOW_MAPPING_KEY_STATE ss = ANode (AtKey # frames_of ss)"
| "e_abs YAML_EMIT_BLOCK_MAPPING_FIRST_KEY_STATE ss = ANode (AtKey # frames_of ss)"
| "e_abs YAML_EMIT_BLOCK_MAPPING_KEY_STATE ss = ANode (AtKey # frames_of ss)"
| "e_abs YAML_EMIT_FLOW_MAPPING_SIMPLE_VALUE_STATE ss = ANode (AtValue # frames_of ss)"
| "e_abs YAML_EMIT_FLOW_MAPPING_VALUE_STATE ss = ANode (AtValue # frames_of ss)"
| "e_abs YAML_EMIT_BLOCK_MAPPING_SIMPLE_VALUE_STATE ss = ANode (AtValue # frames_of ss)"
| "e_abs YAML_EMIT_BLOCK_MAPPING_VALUE_STATE ss = ANode (AtValue # frames_of ss)"
| "e_abs YAML_EMIT_END_STATE ss = AEnd"

abbreviation estk :: "'w yaml_emitter \<Rightarrow> yaml_emitter_state list" where
  "estk e \<equiv> elems (e_states e)"

abbreviation depth :: "'w yaml_emitter \<Rightarrow> nat" where
  "depth e \<equiv> length (elems (e_indents e))"

text \<open>Between two events: one indent per open collection, but for one whose first event is still to come; at
  the end of the stream nothing is left in the buffer.\<close>

definition first_states :: "yaml_emitter_state set" where
  "first_states = {YAML_EMIT_FLOW_SEQUENCE_FIRST_ITEM_STATE, YAML_EMIT_BLOCK_SEQUENCE_FIRST_ITEM_STATE,
     YAML_EMIT_FLOW_MAPPING_FIRST_KEY_STATE, YAML_EMIT_BLOCK_MAPPING_FIRST_KEY_STATE}"

definition shape :: "'w yaml_emitter \<Rightarrow> bool" where
  "shape e \<longleftrightarrow>
     (if e_state e \<in> first_states then stack_shape (estk e) \<and> Suc (depth e) = length (estk e)
      else if cont_frame (e_state e) \<noteq> None then stack_shape (estk e) \<and> depth e = length (estk e)
      else estk e = [] \<and> depth e = 0)
     \<and> (e_state e = YAML_EMIT_END_STATE \<longrightarrow> b_pos (e_buffer e) = 0)"

text \<open>Before a node is emitted its continuation has been pushed.\<close>

definition at_node :: "'w yaml_emitter \<Rightarrow> bool" where
  "at_node e \<longleftrightarrow> stack_shape (estk e) \<and> Suc (depth e) = length (estk e)"

lemma stack_shape_snoc: "stack_shape ss \<Longrightarrow> cont_frame c = Some f \<Longrightarrow> stack_shape (ss @ [c]) \<and> frames_of (ss @ [c]) = f # frames_of ss"
  by (auto simp: stack_shape_def frames_of_def)

lemma stack_shape_doc: "stack_shape [YAML_EMIT_DOCUMENT_END_STATE]" "frames_of [YAML_EMIT_DOCUMENT_END_STATE] = []"
  by (simp_all add: stack_shape_def frames_of_def)

text \<open>Resuming the state on the top of the stack is what the grammar does after a complete node.\<close>

lemma resume:
  assumes "stack_shape ss"
  obtains ss' c where "ss = ss' @ [c]" "e_abs c ss' = after_node (frames_of ss)"
    "c \<notin> first_states \<union> {YAML_EMIT_END_STATE}" "if cont_frame c \<noteq> None then stack_shape ss' else ss' = []"
proof -
  obtain cs where cs: "ss = YAML_EMIT_DOCUMENT_END_STATE # cs" "\<forall>c\<in>set cs. cont_frame c \<noteq> None"
    using assms by (auto simp: stack_shape_def)
  show ?thesis
  proof (cases cs rule: rev_cases)
    case Nil
    then show ?thesis using cs that [of "[]" YAML_EMIT_DOCUMENT_END_STATE] by (simp add: frames_of_def first_states_def)
  next
    case (snoc ds c)
    let ?ss' = "YAML_EMIT_DOCUMENT_END_STATE # ds"
    have s: "stack_shape ?ss'" using cs snoc by (auto simp: stack_shape_def)
    obtain f where f: "cont_frame c = Some f" using cs snoc by auto
    have "e_abs c ?ss' = after_node (f # frames_of ?ss')" "c \<notin> first_states \<union> {YAML_EMIT_END_STATE}"
      using f by (cases c; auto simp: first_states_def)+
    then show ?thesis using cs snoc s f that [of ?ss' c] stack_shape_snoc [OF s f] by simp
  qed
qed

subsection \<open>Between two steps of the emission of an event\<close>

text \<open>
  The characters \<open>cs0\<close> and perhaps more have been written, \<open>q\<close> is the queue of events, \<open>x\<close> the scalar to be
  written, and the emitter owns all live blocks but \<open>B\<close>.
\<close>

definition running ::
    "'w write_handler \<Rightarrow> ('w \<Rightarrow> ystring) \<Rightarrow> ystring \<Rightarrow> 32 word list \<Rightarrow> yaml_event yqueue \<Rightarrow> ystring option \<Rightarrow> int \<Rightarrow> 'w yaml_emitter \<Rightarrow> bool" where
  "running H D d0 cs0 q x B e \<longleftrightarrow> (\<exists>new. emitted H D d0 (cs0 @ new) e)
     \<and> stack_ok (e_states e) \<and> stack_ok (e_indents e) \<and> stack_ok (e_tag_directives e) \<and> e_events e = q
     \<and> (\<forall>td\<in>set (elems (e_tag_directives e)). td_utf8 td)
     \<and> utf8_opt (e_anchor e) \<and> utf8_opt (e_tag_handle e) \<and> utf8_opt (e_tag_suffix e) \<and> utf8_opt x
     \<and> e_scalar e = x \<and> ebalance e = B"

definition fails :: "int \<Rightarrow> 'w yaml_emitter \<Rightarrow> bool" where
  "fails B e \<longleftrightarrow> e_error e \<noteq> YAML_NO_ERROR \<and> ebalance e = B"

lemma ebalance_core: "core e' = core e \<Longrightarrow> ebalance e' = ebalance e"
  using coreD [of e' e] by (simp add: ebalance_def core_blocks_def)

lemma emitted_upd [simp]:
  "emitted H D d0 cs (e\<lparr>e_state := s\<rparr>) = emitted H D d0 cs e"
  "emitted H D d0 cs (e\<lparr>e_states := st\<rparr>) = emitted H D d0 cs e"
  "emitted H D d0 cs (e\<lparr>e_indents := ii\<rparr>) = emitted H D d0 cs e"
  "emitted H D d0 cs (e\<lparr>e_tag_directives := tt\<rparr>) = emitted H D d0 cs e"
  "emitted H D d0 cs (e\<lparr>e_indent := i\<rparr>) = emitted H D d0 cs e"
  "emitted H D d0 cs (e\<lparr>e_mem := h\<rparr>) = emitted H D d0 cs e"
  "emitted H D d0 cs (e\<lparr>e_flow_level := n\<rparr>) = emitted H D d0 cs e"
  "emitted H D d0 cs (e\<lparr>e_root_context := b1\<rparr>) = emitted H D d0 cs e"
  "emitted H D d0 cs (e\<lparr>e_sequence_context := b1\<rparr>) = emitted H D d0 cs e"
  "emitted H D d0 cs (e\<lparr>e_mapping_context := b1\<rparr>) = emitted H D d0 cs e"
  "emitted H D d0 cs (e\<lparr>e_simple_key_context := b1\<rparr>) = emitted H D d0 cs e"
  "emitted H D d0 cs (e\<lparr>e_style := y\<rparr>) = emitted H D d0 cs e"
  "emitted H D d0 cs (e\<lparr>e_anchor := t\<rparr>) = emitted H D d0 cs e"
  "emitted H D d0 cs (e\<lparr>e_alias := b1\<rparr>) = emitted H D d0 cs e"
  "emitted H D d0 cs (e\<lparr>e_tag_handle := t\<rparr>) = emitted H D d0 cs e"
  "emitted H D d0 cs (e\<lparr>e_tag_suffix := t\<rparr>) = emitted H D d0 cs e"
  "emitted H D d0 cs (e\<lparr>e_scalar := t\<rparr>) = emitted H D d0 cs e"
  "emitted H D d0 cs (e\<lparr>e_events := qq\<rparr>) = emitted H D d0 cs e"
  "emitted H D d0 cs (e\<lparr>e_open_ended := n\<rparr>) = emitted H D d0 cs e"
  "emitted H D d0 cs (e\<lparr>e_multiline := b1\<rparr>) = emitted H D d0 cs e"
  "emitted H D d0 cs (e\<lparr>e_flow_plain_allowed := b1\<rparr>) = emitted H D d0 cs e"
  "emitted H D d0 cs (e\<lparr>e_block_plain_allowed := b1\<rparr>) = emitted H D d0 cs e"
  "emitted H D d0 cs (e\<lparr>e_single_quoted_allowed := b1\<rparr>) = emitted H D d0 cs e"
  "emitted H D d0 cs (e\<lparr>e_block_allowed := b1\<rparr>) = emitted H D d0 cs e"
  by (simp_all add: emitted_def stored_def writer_ok_def)

lemma ebalance_upd [simp]:
  "ebalance (e\<lparr>e_state := s\<rparr>) = ebalance e"
  "ebalance (e\<lparr>e_indent := i\<rparr>) = ebalance e"
  "ebalance (e\<lparr>e_flow_level := n\<rparr>) = ebalance e"
  "ebalance (e\<lparr>e_root_context := b1\<rparr>) = ebalance e"
  "ebalance (e\<lparr>e_sequence_context := b1\<rparr>) = ebalance e"
  "ebalance (e\<lparr>e_mapping_context := b1\<rparr>) = ebalance e"
  "ebalance (e\<lparr>e_simple_key_context := b1\<rparr>) = ebalance e"
  "ebalance (e\<lparr>e_style := y\<rparr>) = ebalance e"
  "ebalance (e\<lparr>e_anchor := t\<rparr>) = ebalance e"
  "ebalance (e\<lparr>e_alias := b1\<rparr>) = ebalance e"
  "ebalance (e\<lparr>e_tag_handle := t\<rparr>) = ebalance e"
  "ebalance (e\<lparr>e_tag_suffix := t\<rparr>) = ebalance e"
  "ebalance (e\<lparr>e_scalar := t\<rparr>) = ebalance e"
  "ebalance (e\<lparr>e_open_ended := n\<rparr>) = ebalance e"
  "ebalance (e\<lparr>e_error := er\<rparr>) = ebalance e"
  "ebalance (e\<lparr>e_problem := pr\<rparr>) = ebalance e"
  "ebalance (e\<lparr>e_multiline := b1\<rparr>) = ebalance e"
  "ebalance (e\<lparr>e_flow_plain_allowed := b1\<rparr>) = ebalance e"
  "ebalance (e\<lparr>e_block_plain_allowed := b1\<rparr>) = ebalance e"
  "ebalance (e\<lparr>e_single_quoted_allowed := b1\<rparr>) = ebalance e"
  "ebalance (e\<lparr>e_block_allowed := b1\<rparr>) = ebalance e"
  by (simp_all add: ebalance_def core_blocks_def)

lemma ebalance_change [simp]:
  "ebalance (e\<lparr>e_mem := h\<rparr>) = ebalance e + live h - live (e_mem e)"
  "ebalance (e\<lparr>e_states := st\<rparr>) = ebalance e + block_if (cap (e_states e)) - block_if (cap st)"
  "ebalance (e\<lparr>e_indents := ii\<rparr>) = ebalance e + block_if (cap (e_indents e)) - block_if (cap ii)"
  "ebalance (e\<lparr>e_tag_directives := tt\<rparr>) = ebalance e + block_if (cap (e_tag_directives e)) - block_if (cap tt)
     + 2 * int (length (elems (e_tag_directives e))) - 2 * int (length (elems tt))"
  "ebalance (e\<lparr>e_events := qq\<rparr>) = ebalance e + block_if (qcap (e_events e)) - block_if (qcap qq)
     + sum_list (map event_blocks (items (e_events e))) - sum_list (map event_blocks (items qq))"
  by (simp_all add: ebalance_def core_blocks_def)

lemma running_upd [simp]:
  "running H D d0 cs0 q x B (e\<lparr>e_state := s\<rparr>) = running H D d0 cs0 q x B e"
  "running H D d0 cs0 q x B (e\<lparr>e_indent := i\<rparr>) = running H D d0 cs0 q x B e"
  "running H D d0 cs0 q x B (e\<lparr>e_flow_level := n\<rparr>) = running H D d0 cs0 q x B e"
  "running H D d0 cs0 q x B (e\<lparr>e_root_context := b1\<rparr>) = running H D d0 cs0 q x B e"
  "running H D d0 cs0 q x B (e\<lparr>e_sequence_context := b1\<rparr>) = running H D d0 cs0 q x B e"
  "running H D d0 cs0 q x B (e\<lparr>e_mapping_context := b1\<rparr>) = running H D d0 cs0 q x B e"
  "running H D d0 cs0 q x B (e\<lparr>e_simple_key_context := b1\<rparr>) = running H D d0 cs0 q x B e"
  "running H D d0 cs0 q x B (e\<lparr>e_style := y\<rparr>) = running H D d0 cs0 q x B e"
  "running H D d0 cs0 q x B (e\<lparr>e_open_ended := n\<rparr>) = running H D d0 cs0 q x B e"
  by (simp_all add: running_def)

lemma fails_error: "running H D d0 cs0 q x B e \<Longrightarrow> wp (yaml_emitter_set_emitter_error p) Q (fails B) e"
  by (simp add: yaml_emitter_set_emitter_error_def wp_simps fails_def running_def)

text \<open>Writing.\<close>

lemma running_core:
  assumes "running H D d0 cs0 q x B e" "emitted H D d0 (cs0 @ new) e'" "core e' = core e"
  shows "running H D d0 cs0 q x B e'"
  using assms coreD [OF assms(3)] ebalance_core [OF assms(3)] by (auto simp: running_def)

lemma wp_writer_run:
  assumes m: "wp m (\<lambda>_ e'. \<exists>new. emitted H D d0 (cs0 @ new) e') (\<lambda>e'. e_error e' \<noteq> YAML_NO_ERROR) e" "framed core m"
    and e: "running H D d0 cs0 q x B e"
    and Q: "\<And>a e'. running H D d0 cs0 q x B e' \<Longrightarrow> core e' = core e \<Longrightarrow> Q a e'"
  shows "wp m Q (fails B) e"
proof (rule wp_mono [OF wp_framed [OF m(2,1)]])
  fix a e'
  assume "(\<exists>new. emitted H D d0 (cs0 @ new) e') \<and> core e' = core e"
  then show "Q a e'" using running_core [OF e] Q by blast
next
  fix e'
  assume "e_error e' \<noteq> YAML_NO_ERROR \<and> core e' = core e"
  then show "fails B e'" using ebalance_core e by (auto simp: fails_def running_def)
qed

lemma wp_writer:
  assumes "safe H D m" "framed core m" and e: "running H D d0 cs0 q x B e"
    and Q: "\<And>a e'. running H D d0 cs0 q x B e' \<Longrightarrow> core e' = core e \<Longrightarrow> Q a e'"
  shows "wp m Q (fails B) e"
proof -
  obtain new where new: "emitted H D d0 (cs0 @ new) e" using e by (auto simp: running_def)
  have "wp m (\<lambda>_ e'. \<exists>new. emitted H D d0 (cs0 @ new) e') (\<lambda>e'. e_error e' \<noteq> YAML_NO_ERROR) e"
    by (rule wp_mono [OF safeD [OF assms(1) new]]) auto
  then show ?thesis by (rule wp_writer_run [OF _ assms(2) e Q])
qed

text \<open>The stacks.\<close>

lemma block_if_ok [simp]: "stack_ok st \<Longrightarrow> block_if (cap st) = 1"
  by (simp add: stack_ok_def)

lemma wp_push_stackE:
  assumes "stack_ok (get e)"
    and "\<And>st h. stack_ok st \<Longrightarrow> elems st = elems (get e) @ [v] \<Longrightarrow> live h = live (e_mem e) \<Longrightarrow> Q () (put st (e\<lparr>e_mem := h\<rparr>))"
    and "\<And>h. live h = live (e_mem e) \<Longrightarrow> E (put (get e) (e\<lparr>e_mem := h, e_error := YAML_MEMORY_ERROR\<rparr>))"
  shows "wp (push_stackE get put v) Q E e"
proof -
  have "wp (PUSH v) (\<lambda>_ (st, h). Q () (put st (e\<lparr>e_mem := h\<rparr>)))
      (\<lambda>(st, h). E (put st (e\<lparr>e_mem := h, e_error := YAML_MEMORY_ERROR\<rparr>))) (get e, e_mem e)"
    by (rule wp_PUSH [OF assms(1)]) (simp_all add: assms(2,3))
  then show ?thesis unfolding push_stackE_def by (simp add: wp_def split: result.splits prod.splits)
qed

lemma wp_push_state:
  assumes e: "running H D d0 cs0 q x B e"
    and Q: "\<And>e'. running H D d0 cs0 q x B e' \<Longrightarrow> estk e' = estk e @ [s] \<Longrightarrow> e_state e' = e_state e \<Longrightarrow> depth e' = depth e \<Longrightarrow> Q () e'"
  shows "wp (PUSH_STATE_E s) Q (fails B) e"
  unfolding PUSH_STATE_E_def
proof (rule wp_push_stackE)
  show ok: "stack_ok (e_states e)" using e by (simp add: running_def)
  fix st and h :: heap
  assume st: "stack_ok st" "elems st = estk e @ [s]" "live h = live (e_mem e)"
  have "ebalance (e\<lparr>e_mem := h, e_states := st\<rparr>) = ebalance e" using st ok by (simp add: stack_ok_def)
  then show "Q () (e\<lparr>e_mem := h, e_states := st\<rparr>)" using e st by (intro Q) (auto simp: running_def)
next
  fix h :: heap
  assume "live h = live (e_mem e)"
  then show "fails B (e\<lparr>e_mem := h, e_error := YAML_MEMORY_ERROR, e_states := e_states e\<rparr>)"
    using e by (simp add: fails_def running_def)
qed

lemma wp_increase_indent:
  assumes e: "running H D d0 cs0 q x B e"
    and Q: "\<And>e'. running H D d0 cs0 q x B e' \<Longrightarrow> depth e' = Suc (depth e) \<Longrightarrow> estk e' = estk e \<Longrightarrow> e_state e' = e_state e \<Longrightarrow> e_style e' = e_style e
      \<Longrightarrow> Q () e'"
  shows "wp (yaml_emitter_increase_indent flow indentless) Q (fails B) e"
  unfolding yaml_emitter_increase_indent_def wp_seqM wp_readM
proof (rule wp_push_stackE)
  show ok: "stack_ok (e_indents e)" using e by (simp add: running_def)
  fix st and h :: heap
  assume st: "stack_ok st" "elems st = elems (e_indents e) @ [e_indent e]" "live h = live (e_mem e)"
  let ?e = "e\<lparr>e_mem := h, e_indents := st\<rparr>"
  have "ebalance ?e = ebalance e" using st ok by (simp add: stack_ok_def)
  then have "running H D d0 cs0 q x B ?e" using e st by (auto simp: running_def)
  then show "wp (modifyM (\<lambda>e. if e_indent e < 0 then e\<lparr>e_indent := if flow then e_best_indent e else 0\<rparr>
      else if \<not> indentless then e\<lparr>e_indent := e_indent e + e_best_indent e\<rparr> else e)) Q (fails B) ?e"
    using st unfolding wp_modifyM by (intro Q) auto
next
  fix h :: heap
  assume "live h = live (e_mem e)"
  then show "fails B (e\<lparr>e_mem := h, e_error := YAML_MEMORY_ERROR, e_indents := e_indents e\<rparr>)"
    using e by (simp add: fails_def running_def)
qed

lemma wp_pop_state:
  assumes e: "running H D d0 cs0 q x B e" and ss: "estk e = ss @ [s]"
    and Q: "\<And>e'. running H D d0 cs0 q x B e' \<Longrightarrow> estk e' = ss \<Longrightarrow> e_state e' = s \<Longrightarrow> depth e' = depth e \<Longrightarrow> Q () e'"
  shows "wp POP_STATE_E Q E e"
  unfolding POP_STATE_E_def wp_bindM wp_zoomM
proof (rule wp_POP [OF _ ss])
  show ok: "stack_ok (e_states e)" using e by (simp add: running_def)
  fix st
  assume st: "stack_ok st" "elems st = ss"
  have "ebalance (e\<lparr>e_states := st\<rparr>) = ebalance e" using st ok by (simp add: stack_ok_def)
  then have "running H D d0 cs0 q x B (e\<lparr>e_states := st\<rparr>)" using e st by (auto simp: running_def)
  then show "wp (modifyM (\<lambda>e. e\<lparr>e_state := s\<rparr>)) Q E (e\<lparr>e_states := st\<rparr>)"
    using st unfolding wp_modifyM by (intro Q) simp_all
qed

lemma wp_pop_indent:
  assumes e: "running H D d0 cs0 q x B e" and "depth e = Suc n"
    and Q: "\<And>e'. running H D d0 cs0 q x B e' \<Longrightarrow> estk e' = estk e \<Longrightarrow> e_state e' = e_state e \<Longrightarrow> depth e' = n \<Longrightarrow> Q () e'"
  shows "wp POP_INDENT Q E e"
proof -
  obtain js i where ii: "elems (e_indents e) = js @ [i]" "length js = n"
    using assms(2) by (cases "elems (e_indents e)" rule: rev_cases) auto
  show ?thesis unfolding POP_INDENT_def wp_bindM wp_zoomM
  proof (rule wp_POP [OF _ ii(1)])
    show ok: "stack_ok (e_indents e)" using e by (simp add: running_def)
    fix st
    assume st: "stack_ok st" "elems st = js"
    have "ebalance (e\<lparr>e_indents := st\<rparr>) = ebalance e" using st ok by (simp add: stack_ok_def)
    then have "running H D d0 cs0 q x B (e\<lparr>e_indents := st\<rparr>)" using e st by (auto simp: running_def)
    then show "wp (modifyM (\<lambda>e. e\<lparr>e_indent := i\<rparr>)) Q E (e\<lparr>e_indents := st\<rparr>)"
      using st ii unfolding wp_modifyM by (intro Q) simp_all
  qed
qed

lemma choose_style_not_any: "choose_style a b y e \<noteq> YAML_ANY_SCALAR_STYLE"
  by (auto simp: choose_style_def Let_def)

lemma wp_select_scalar_style:
  assumes e: "running H D d0 cs0 q x B e"
    and Q: "\<And>e'. running H D d0 cs0 q x B e' \<Longrightarrow> estk e' = estk e \<Longrightarrow> depth e' = depth e \<Longrightarrow> e_style e' \<noteq> YAML_ANY_SCALAR_STYLE \<Longrightarrow> Q () e'"
  shows "wp (yaml_emitter_select_scalar_style a b y) Q (fails B) e"
proof -
  have "utf8_opt (Some (lit ''!''))" by (simp add: utf8_opt_def check_utf8_ascii lit_def del: yaml_check_utf8.simps)
  then have h: "running H D d0 cs0 q x B (e\<lparr>e_tag_handle := Some (lit ''!'')\<rparr>)" using e by (simp add: running_def)
  have "wp (whenM c (modifyM (\<lambda>e. e\<lparr>e_tag_handle := Some (lit ''!'')\<rparr>))) (\<lambda>_. wp (modifyM (\<lambda>e. e\<lparr>e_style := z\<rparr>)) Q (fails B)) (fails B) e"
    if "z \<noteq> YAML_ANY_SCALAR_STYLE" for c z
    using that h e by (auto simp: whenM_def wp_simps intro!: Q)
  note sel = this [OF choose_style_not_any]
  show ?thesis
    unfolding yaml_emitter_select_scalar_style_def wp_readM Let_def wp_if wp_seqM if_bool_eq_conj
    by (intro conjI impI fails_error [OF e] sel)
qed


lemma wp_ifI: "(b \<Longrightarrow> wp m Q E s) \<Longrightarrow> (\<not> b \<Longrightarrow> wp n Q E s) \<Longrightarrow> wp (if b then m else n) Q E s"
  by simp

subsection \<open>Nodes\<close>

lemma utf8_lit [simp]:
  "yaml_check_utf8 (c_str (lit ''*''))" "yaml_check_utf8 (c_str (lit ''&''))" "yaml_check_utf8 (c_str (lit ''!<''))"
  "yaml_check_utf8 (c_str (lit ''>''))" "yaml_check_utf8 (c_str (lit ''%YAML''))" "yaml_check_utf8 (c_str (lit ''1.1''))"
  "yaml_check_utf8 (c_str (lit ''1.2''))" "yaml_check_utf8 (c_str (lit ''%TAG''))" "yaml_check_utf8 (c_str (lit ''---''))"
  "yaml_check_utf8 (c_str (lit ''...''))" "yaml_check_utf8 (c_str (lit ''[''))" "yaml_check_utf8 (c_str (lit '']''))"
  "yaml_check_utf8 (c_str (lit ''{''))" "yaml_check_utf8 (c_str (lit ''}''))" "yaml_check_utf8 (c_str (lit '',''))"
  "yaml_check_utf8 (c_str (lit ''?''))" "yaml_check_utf8 (c_str (lit '':''))" "yaml_check_utf8 (c_str (lit ''-''))"
  by (rule check_utf8_ascii, simp add: c_str_def lit_def)+

context byte_sink
begin

lemma wp_write_indicator:
  assumes "running handler delivered d0 cs0 q x B e" "yaml_check_utf8 (c_str v)"
    and "\<And>e'. running handler delivered d0 cs0 q x B e' \<Longrightarrow> core e' = core e \<Longrightarrow> Q () e'"
  shows "wp (yaml_emitter_write_indicator v a b c) Q (fails B) e"
  by (rule wp_writer [OF safe_write_indicator [OF assms(2)] framed_core_writers(4) assms(1)]) (simp add: assms(3))

lemma wp_write_indent:
  assumes "running handler delivered d0 cs0 q x B e"
    and "\<And>e'. running handler delivered d0 cs0 q x B e' \<Longrightarrow> core e' = core e \<Longrightarrow> Q () e'"
  shows "wp yaml_emitter_write_indent Q (fails B) e"
  by (rule wp_writer [OF safe_write_indent framed_core_writers(1) assms(1)]) (simp add: assms(2))

lemma wp_process_anchor:
  assumes e: "running handler delivered d0 cs0 q x B e"
    and Q: "\<And>e'. running handler delivered d0 cs0 q x B e' \<Longrightarrow> core e' = core e \<Longrightarrow> Q () e'"
  shows "wp yaml_emitter_process_anchor Q (fails B) e"
proof (cases "e_anchor e")
  case None
  then show ?thesis using e Q by (simp add: yaml_emitter_process_anchor_def wp_simps)
next
  case (Some a)
  then have a: "yaml_check_utf8 a" using e by (simp add: running_def utf8_opt_def)
  let ?m = "seqM (yaml_emitter_write_indicator (if e_alias e then lit ''*'' else lit ''&'') True False False) (yaml_emitter_write_anchor a)"
  have "wp ?m Q (fails B) e"
    by (rule wp_writer [OF _ _ e]) (use a Q in \<open>auto intro!: safe_rules framed_rules\<close>)
  then show ?thesis using Some by (simp add: yaml_emitter_process_anchor_def wp_readM)
qed

lemma wp_process_tag:
  assumes e: "running handler delivered d0 cs0 q x B e"
    and Q: "\<And>e'. running handler delivered d0 cs0 q x B e' \<Longrightarrow> core e' = core e \<Longrightarrow> Q () e'"
  shows "wp yaml_emitter_process_tag Q (fails B) e"
proof -
  have t: "utf8_opt (e_tag_handle e)" "utf8_opt (e_tag_suffix e)" using e by (simp_all add: running_def)
  let ?m = "case e_tag_handle e of
     Some handle \<Rightarrow> seqM (yaml_emitter_write_tag_handle handle)
       (case e_tag_suffix e of Some suf \<Rightarrow> yaml_emitter_write_tag_content suf False | None \<Rightarrow> returnM ())
   | None \<Rightarrow> (case e_tag_suffix e of
       None \<Rightarrow> returnM ()
     | Some suf \<Rightarrow> seqM (yaml_emitter_write_indicator (lit ''!<'') True False False)
         (seqM (yaml_emitter_write_tag_content suf False)
           (yaml_emitter_write_indicator (lit ''>'') False False False)))"
  have "wp ?m Q (fails B) e"
    by (rule wp_writer [OF _ _ e])
      (use t Q in \<open>auto intro!: safe_rules framed_rules simp: utf8_opt_def split: option.splits\<close>)
  then show ?thesis by (simp add: yaml_emitter_process_tag_def wp_readM)
qed

lemma wp_process_scalar:
  assumes e: "running handler delivered d0 cs0 q (Some v) B e" "e_style e \<noteq> YAML_ANY_SCALAR_STYLE"
    and Q: "\<And>e'. running handler delivered d0 cs0 q (Some v) B e' \<Longrightarrow> core e' = core e \<Longrightarrow> Q () e'"
  shows "wp yaml_emitter_process_scalar Q (fails B) e"
proof -
  have v: "e_scalar e = Some v" "yaml_check_utf8 v" using e by (simp_all add: running_def utf8_opt_def)
  let ?m = "case e_style e of
       YAML_PLAIN_SCALAR_STYLE \<Rightarrow> yaml_emitter_write_plain_scalar v (\<not> e_simple_key_context e)
     | YAML_SINGLE_QUOTED_SCALAR_STYLE \<Rightarrow> yaml_emitter_write_single_quoted_scalar v (\<not> e_simple_key_context e)
     | YAML_DOUBLE_QUOTED_SCALAR_STYLE \<Rightarrow> yaml_emitter_write_double_quoted_scalar v (\<not> e_simple_key_context e)
     | YAML_LITERAL_SCALAR_STYLE \<Rightarrow> yaml_emitter_write_literal_scalar v
     | YAML_FOLDED_SCALAR_STYLE \<Rightarrow> yaml_emitter_write_folded_scalar v
     | YAML_ANY_SCALAR_STYLE \<Rightarrow> errorM id"
  have "wp ?m Q (fails B) e"
    by (rule wp_writer [OF _ _ e(1)])
      (use v e(2) Q in \<open>auto intro!: safe_rules framed_rules split: yaml_scalar_style.split\<close>)
  then show ?thesis using v by (simp add: yaml_emitter_process_scalar_def wp_readM)
qed

text \<open>After a complete node the state on the top of the stack is resumed.\<close>

lemma wp_resume:
  assumes e: "running handler delivered d0 cs0 q x B e" and s: "stack_shape (estk e)" "Suc (depth e) = length (estk e)"
    and Q: "\<And>e'. running handler delivered d0 cs0 q x B e' \<Longrightarrow> shape e' \<Longrightarrow> e_abs (e_state e') (estk e') = after_node (frames_of (estk e)) \<Longrightarrow> Q () e'"
  shows "wp POP_STATE_E Q E e"
proof -
  obtain ss c where r: "estk e = ss @ [c]" "e_abs c ss = after_node (frames_of (estk e))"
      "c \<notin> first_states \<union> {YAML_EMIT_END_STATE}" "if cont_frame c \<noteq> None then stack_shape ss else ss = []"
    by (rule resume [OF s(1)])
  show ?thesis
  proof (rule wp_pop_state [OF e r(1)])
    fix e' :: "'w yaml_emitter"
    assume e': "running handler delivered d0 cs0 q x B e'" "estk e' = ss" "e_state e' = c" "depth e' = depth e"
    have "shape e'" using e' r s(2) by (auto simp: shape_def split: if_splits)
    then show "Q () e'" using e' r by (intro Q) simp_all
  qed
qed

lemma at_node_core: "core e' = core e \<Longrightarrow> at_node e' = at_node e"
  using coreD [of e' e] by (simp add: at_node_def)

lemma wp_emit_alias:
  assumes e: "running handler delivered d0 cs0 q x B e" "at_node e"
    and Q: "\<And>e'. running handler delivered d0 cs0 q x B e' \<Longrightarrow> shape e' \<Longrightarrow> e_abs (e_state e') (estk e') = after_node (frames_of (estk e)) \<Longrightarrow> Q () e'"
  shows "wp yaml_emitter_emit_alias Q (fails B) e"
  unfolding yaml_emitter_emit_alias_def wp_seqM
proof (rule wp_process_anchor [OF e(1)])
  fix e1
  assume e1: "running handler delivered d0 cs0 q x B e1" "core e1 = core e"
  have "safe handler delivered (whenM (e_simple_key_context e1) (PUT 0x20))" "framed core (whenM (e_simple_key_context e1) (PUT 0x20))"
    by (auto intro!: safe_rules framed_rules)
  then show "wp (readM (\<lambda>e. whenM (e_simple_key_context e) (PUT 0x20))) (\<lambda>_. wp POP_STATE_E Q (fails B)) (fails B) e1"
    unfolding wp_readM
  proof (rule wp_writer [OF _ _ e1(1)])
    fix a and e2 :: "'w yaml_emitter"
    assume e2: "running handler delivered d0 cs0 q x B e2" "core e2 = core e1"
    have "estk e2 = estk e" "depth e2 = depth e" using coreD [OF e1(2)] coreD [OF e2(2)] by simp_all
    then show "wp POP_STATE_E Q (fails B) e2" using e(2) e2(1) by (intro wp_resume Q) (auto simp: at_node_def)
  qed
qed

lemma wp_emit_scalar:
  assumes e: "running handler delivered d0 cs0 q (Some v) B e" "at_node e"
    and Q: "\<And>e'. running handler delivered d0 cs0 q (Some v) B e' \<Longrightarrow> shape e' \<Longrightarrow> e_abs (e_state e') (estk e') = after_node (frames_of (estk e)) \<Longrightarrow> Q () e'"
  shows "wp (yaml_emitter_emit_scalar a b y) Q (fails B) e"
  unfolding yaml_emitter_emit_scalar_def wp_seqM
proof (rule wp_select_scalar_style [OF e(1)], rule wp_process_anchor, assumption, rule wp_process_tag, assumption,
    rule wp_increase_indent, assumption)
  fix e1 e2 e3 e4 :: "'w yaml_emitter"
  assume 1: "estk e1 = estk e" "depth e1 = depth e" "e_style e1 \<noteq> YAML_ANY_SCALAR_STYLE"
    and 2: "core e2 = core e1" and 3: "core e3 = core e2"
    and 4: "running handler delivered d0 cs0 q (Some v) B e4" "depth e4 = Suc (depth e3)" "estk e4 = estk e3" "e_style e4 = e_style e3"
  have k: "estk e4 = estk e" "depth e4 = Suc (depth e)" "e_style e4 \<noteq> YAML_ANY_SCALAR_STYLE"
    using 1 4 coreD [OF 2] coreD [OF 3] by simp_all
  show "wp yaml_emitter_process_scalar (\<lambda>_. wp POP_INDENT (\<lambda>_. wp POP_STATE_E Q (fails B)) (fails B)) (fails B) e4"
  proof (rule wp_process_scalar [OF 4(1) k(3)])
    fix e5
    assume e5: "running handler delivered d0 cs0 q (Some v) B e5" "core e5 = core e4"
    have "depth e5 = Suc (depth e)" "estk e5 = estk e" using coreD [OF e5(2)] k by simp_all
    with e5(1) e(2) show "wp POP_INDENT (\<lambda>_. wp POP_STATE_E Q (fails B)) (fails B) e5"
      by (intro wp_pop_indent [OF e5(1), of "depth e"] wp_resume Q) (auto simp: at_node_def)
  qed
qed


lemma wp_emit_collection_start:
  assumes e: "running handler delivered d0 cs0 q x B e" "at_node e" and t: "\<And>e'. t e' \<in> first_states"
    and Q: "\<And>e' e''. running handler delivered d0 cs0 q x B e' \<Longrightarrow> shape e' \<Longrightarrow> e_state e' = t e'' \<Longrightarrow> estk e' = estk e \<Longrightarrow> Q () e'"
  shows "wp (seqM yaml_emitter_process_anchor (seqM yaml_emitter_process_tag (readM (\<lambda>e. set_stateE (t e))))) Q (fails B) e"
  unfolding wp_seqM
proof (rule wp_process_anchor [OF e(1)], rule wp_process_tag, assumption)
  fix e1 e2 :: "'w yaml_emitter"
  assume 1: "core e1 = core e" and 2: "running handler delivered d0 cs0 q x B e2" "core e2 = core e1"
  have k: "estk e2 = estk e" "depth e2 = depth e" using coreD [OF 1] coreD [OF 2(2)] by simp_all
  have "Q () (e2\<lparr>e_state := t e2\<rparr>)"
    by (rule Q [where e'' = e2]) (use e(2) 2(1) k t [of e2] in \<open>auto simp: at_node_def shape_def first_states_def\<close>)
  then show "wp (readM (\<lambda>e. set_stateE (t e))) Q (fails B) e2" by (simp add: wp_simps)
qed

lemma wp_emit_node:
  assumes e: "running handler delivered d0 cs0 q x B e" "at_node e"
    and x: "ev_type ev = YAML_SCALAR_EVENT \<Longrightarrow> x \<noteq> None"
    and Q: "\<And>e'. running handler delivered d0 cs0 q x B e' \<Longrightarrow> shape e'
      \<Longrightarrow> accept (ANode (frames_of (estk e))) (ev_type ev) = Some (e_abs (e_state e') (estk e')) \<Longrightarrow> Q () e'"
  shows "wp (yaml_emitter_emit_node ev root sequence mapping simple_key) Q (fails B) e"
proof -
  let ?e = "e\<lparr>e_root_context := root, e_sequence_context := sequence, e_mapping_context := mapping, e_simple_key_context := simple_key\<rparr>"
  have e': "running handler delivered d0 cs0 q x B ?e" "at_node ?e" "estk ?e = estk e" using e by (simp_all add: at_node_def)
  show ?thesis unfolding yaml_emitter_emit_node_def wp_seqM wp_modifyM
  proof (cases "ev_data ev"; simp only: yaml_event_data.case)
    case (AliasEvent a)
    then show "wp yaml_emitter_emit_alias Q (fails B) ?e" using e' by (intro wp_emit_alias Q) (auto simp: ev_type_def)
  next
    case (ScalarEvent a b v c d y)
    then obtain w where "x = Some w" using x by (auto simp: ev_type_def)
    with ScalarEvent e' show "wp (yaml_emitter_emit_scalar c d y) Q (fails B) ?e"
      by (auto intro!: wp_emit_scalar Q simp: ev_type_def)
  next
    case (SequenceStartEvent a b c y)
    then show "wp (yaml_emitter_emit_sequence_start y) Q (fails B) ?e" unfolding yaml_emitter_emit_sequence_start_def
      by (intro wp_emit_collection_start [OF e'(1,2)] Q) (auto simp: first_states_def ev_type_def split: if_splits)
  next
    case (MappingStartEvent a b c y)
    then show "wp (yaml_emitter_emit_mapping_start y) Q (fails B) ?e" unfolding yaml_emitter_emit_mapping_start_def
      by (intro wp_emit_collection_start [OF e'(1,2)] Q) (auto simp: first_states_def ev_type_def split: if_splits)
  qed (rule fails_error [OF e'(1)])+
qed

text \<open>A node in a collection, or the root: its continuation is pushed first.\<close>

lemma wpe_push_node:
  assumes e: "running handler delivered d0 cs0 q x B e"
    and s: "if c = YAML_EMIT_DOCUMENT_END_STATE then estk e = [] \<and> depth e = 0
       else cont_frame c \<noteq> None \<and> stack_shape (estk e) \<and> depth e = length (estk e)"
    and x: "ev_type ev = YAML_SCALAR_EVENT \<Longrightarrow> x \<noteq> None"
    and Q: "\<And>e'. running handler delivered d0 cs0 q x B e' \<Longrightarrow> shape e'
      \<Longrightarrow> accept (ANode (frames_of (estk e @ [c]))) (ev_type ev) = Some (e_abs (e_state e') (estk e')) \<Longrightarrow> Q () e'"
  shows "wp (seqM (PUSH_STATE_E c) (yaml_emitter_emit_node ev root sequence mapping simple_key)) Q (fails B) e"
  unfolding wp_seqM
proof (rule wp_push_state [OF e])
  fix e'
  assume e': "running handler delivered d0 cs0 q x B e'" "estk e' = estk e @ [c]" "depth e' = depth e"
  have "at_node e'" using s e' stack_shape_doc stack_shape_snoc [of "estk e" c] by (auto simp: at_node_def split: if_splits)
  then show "wp (yaml_emitter_emit_node ev root sequence mapping simple_key) Q (fails B) e'"
    using e' x by (intro wp_emit_node Q) simp_all
qed


lemma wp_push_cont:
  assumes e: "running handler delivered d0 cs0 q x B e" and s: "stack_shape ss" "estk e = ss" "depth e = length ss"
    and c: "cont_frame c = Some f" and x: "ev_type ev = YAML_SCALAR_EVENT \<Longrightarrow> x \<noteq> None"
    and Q: "\<And>e'. running handler delivered d0 cs0 q x B e' \<Longrightarrow> shape e'
      \<Longrightarrow> accept (ANode (f # frames_of ss)) (ev_type ev) = Some (e_abs (e_state e') (estk e')) \<Longrightarrow> Q () e'"
  shows "wp (seqM (PUSH_STATE_E c) (yaml_emitter_emit_node ev root sequence mapping simple_key)) Q (fails B) e"
proof (rule wpe_push_node [OF e])
  show "if c = YAML_EMIT_DOCUMENT_END_STATE then estk e = [] \<and> depth e = 0
       else cont_frame c \<noteq> None \<and> stack_shape (estk e) \<and> depth e = length (estk e)" using s c by auto
  have f: "frames_of (ss @ [c]) = f # frames_of ss" using stack_shape_snoc [OF s(1) c] ..
  show "\<And>e'. running handler delivered d0 cs0 q x B e' \<Longrightarrow> shape e' \<Longrightarrow>
      accept (ANode (frames_of (estk e @ [c]))) (ev_type ev) = Some (e_abs (e_state e') (estk e')) \<Longrightarrow> Q () e'"
    unfolding s(2) f by (rule Q)
qed (rule x)

lemma wp_writer_ctl:
  assumes "safe handler delivered m" "framed core m" "running handler delivered d0 cs0 q x B e"
    and "\<And>a e'. running handler delivered d0 cs0 q x B e' \<Longrightarrow> estk e' = estk e \<Longrightarrow> depth e' = depth e \<Longrightarrow> e_state e' = e_state e \<Longrightarrow> Q a e'"
  shows "wp m Q (fails B) e"
proof (rule wp_writer [OF assms(1-3)])
  fix a e'
  assume "running handler delivered d0 cs0 q x B e'" "core e' = core e"
  then show "Q a e'" using coreD(11,12,14) [of e' e] by (intro assms(4)) simp_all
qed

subsection \<open>Collections\<close>

lemma wp_open_flow:
  assumes e: "running handler delivered d0 cs0 q x B e" "depth e + (if first then 1 else 0) = length (estk e)"
    and b: "yaml_check_utf8 (c_str (lit b))"
    and Q: "\<And>e'. running handler delivered d0 cs0 q x B e' \<Longrightarrow> estk e' = estk e \<Longrightarrow> depth e' = length (estk e) \<Longrightarrow> Q () e'"
  shows "wp (open_flow first b) Q (fails B) e"
proof (cases first)
  case True
  have run: "open_flow first b = seqM (yaml_emitter_write_indicator (lit b) True True False) (seqM (yaml_emitter_increase_indent True False)
       (modifyM (\<lambda>e. e\<lparr>e_flow_level := e_flow_level e + 1\<rparr>)))" using True by (simp add: open_flow_def whenM_def)
  show ?thesis unfolding run wp_seqM
  proof (rule wp_writer_ctl [OF safe_write_indicator [OF b] framed_core_writers(4) e(1)], rule wp_increase_indent, assumption)
    fix e1 e2 :: "'w yaml_emitter"
    assume "estk e1 = estk e" "depth e1 = depth e" "running handler delivered d0 cs0 q x B e2" "depth e2 = Suc (depth e1)" "estk e2 = estk e1"
    then show "wp (modifyM (\<lambda>e. e\<lparr>e_flow_level := e_flow_level e + 1\<rparr>)) Q (fails B) e2"
      using e(2) True by (auto simp: wp_simps intro!: Q)
  qed
qed (use e in \<open>auto simp: open_flow_def whenM_def wp_simps intro!: Q\<close>)

lemma wp_close_block:
  assumes e: "running handler delivered d0 cs0 q x B e" "stack_shape (estk e)" "depth e = length (estk e)"
    and Q: "\<And>e'. running handler delivered d0 cs0 q x B e' \<Longrightarrow> shape e' \<Longrightarrow> e_abs (e_state e') (estk e') = after_node (frames_of (estk e)) \<Longrightarrow> Q () e'"
  shows "wp close_block Q (fails B) e"
proof -
  obtain n where n: "depth e = Suc n" using e(2,3) by (auto simp: stack_shape_def)
  show ?thesis unfolding close_block_def wp_seqM
    by (rule wp_pop_indent [OF e(1) n], rule wp_resume, assumption) (use e n in \<open>auto intro!: Q\<close>)
qed

lemma wp_close_flow:
  assumes e: "running handler delivered d0 cs0 q x B e" "stack_shape (estk e)" "depth e = length (estk e)"
    and b: "yaml_check_utf8 (c_str (lit b))"
    and Q: "\<And>e'. running handler delivered d0 cs0 q x B e' \<Longrightarrow> shape e' \<Longrightarrow> e_abs (e_state e') (estk e') = after_node (frames_of (estk e)) \<Longrightarrow> Q () e'"
  shows "wp (close_flow first b) Q (fails B) e"
proof -
  obtain n where n: "depth e = Suc n" using e(2,3) by (auto simp: stack_shape_def)
  have e': "running handler delivered d0 cs0 q x B (e\<lparr>e_flow_level := e_flow_level e - 1\<rparr>)"
      "depth (e\<lparr>e_flow_level := e_flow_level e - 1\<rparr>) = Suc n" using e(1) n by simp_all
  let ?sep = "\<lambda>e. whenM (e_canonical e \<and> \<not> first) (seqM (yaml_emitter_write_indicator (lit '','') False False False) yaml_emitter_write_indent)"
  have sep: "safe handler delivered (?sep e)" "framed core (?sep e)" for e by (auto intro!: safe_rules framed_rules)
  show ?thesis unfolding close_flow_def wp_seqM wp_modifyM wp_readM
    by (rule wp_pop_indent [OF e'], rule wp_writer_ctl [OF sep], assumption,
        rule wp_writer_ctl [OF safe_write_indicator [OF b] framed_core_writers(4)], assumption, rule wp_resume, assumption)
      (use e n in \<open>auto intro!: Q\<close>)
qed

lemma long_line_writer: "safe handler delivered long_line_indent" "framed core long_line_indent"
  unfolding long_line_indent_def by (auto intro!: safe_rules framed_rules)

lemma separate_writer: "safe handler delivered (separate_flow first)" "framed core (separate_flow first)"
  unfolding separate_flow_def by (auto intro!: safe_rules framed_rules long_line_writer)

lemma wp_flow_sequence_item:
  assumes e: "running handler delivered d0 cs0 q x B e" "stack_shape (estk e)" "depth e + (if first then 1 else 0) = length (estk e)"
    and x: "ev_type ev = YAML_SCALAR_EVENT \<Longrightarrow> x \<noteq> None"
    and Q: "\<And>e'. running handler delivered d0 cs0 q x B e' \<Longrightarrow> shape e'
      \<Longrightarrow> accept (ANode (InSeq # frames_of (estk e))) (ev_type ev) = Some (e_abs (e_state e') (estk e')) \<Longrightarrow> Q () e'"
  shows "wp (yaml_emitter_emit_flow_sequence_item ev first) Q (fails B) e"
  unfolding yaml_emitter_emit_flow_sequence_item_def wp_seqM [of "open_flow _ _"] wp_seqM [of "separate_flow _"]
  by (rule wp_open_flow [OF e(1,3)], simp, rule wp_ifI, rule wp_close_flow, assumption, simp add: e(2), simp, simp, rule Q, assumption,
      assumption, simp, unfold wp_seqM [of "separate_flow _"], rule wp_writer_ctl [OF separate_writer], assumption, rule wp_push_cont [OF _ e(2)],
      assumption, simp, simp, simp, rule x, assumption, rule Q)

text \<open>The key of a mapping: a simple one, or one after a question mark.\<close>

lemma wp_emit_key:
  assumes e: "running handler delivered d0 cs0 q x B e" "stack_shape ss" "estk e = ss" "depth e = length ss"
    and c: "cont_frame c1 = Some AtKey" "cont_frame c2 = Some AtKey"
    and x: "ev_type ev = YAML_SCALAR_EVENT \<Longrightarrow> x \<noteq> None"
    and Q: "\<And>e'. running handler delivered d0 cs0 q x B e' \<Longrightarrow> shape e'
      \<Longrightarrow> accept (ANode (AtKey # frames_of ss)) (ev_type ev) = Some (e_abs (e_state e') (estk e')) \<Longrightarrow> Q () e'"
  shows "wp (if simple then seqM (PUSH_STATE_E c1) (yaml_emitter_emit_node ev False False True True)
     else seqM (yaml_emitter_write_indicator (lit ''?'') True False i)
       (seqM (PUSH_STATE_E c2) (yaml_emitter_emit_node ev False False True False))) Q (fails B) e"
proof (cases simple)
  case True
  have "wp (seqM (PUSH_STATE_E c1) (yaml_emitter_emit_node ev False False True True)) Q (fails B) e"
    by (rule wp_push_cont [OF e c(1)], rule x, assumption, rule Q)
  with True show ?thesis by simp
next
  case False
  have "wp (yaml_emitter_write_indicator (lit ''?'') True False i)
      (\<lambda>_. wp (seqM (PUSH_STATE_E c2) (yaml_emitter_emit_node ev False False True False)) Q (fails B)) (fails B) e"
    by (rule wp_writer_ctl [OF safe_write_indicator framed_core_writers(4) e(1)], simp, rule wp_push_cont [OF _ e(2) _ _ c(2)],
        assumption, simp add: e(3), simp add: e(4), rule x, assumption, rule Q)
  with False show ?thesis by (simp add: wp_seqM [of "yaml_emitter_write_indicator _ _ _ _"])
qed

lemma wpe_flow_mapping_key:
  assumes e: "running handler delivered d0 cs0 q x B e" "stack_shape (estk e)" "depth e + (if first then 1 else 0) = length (estk e)"
    and x: "ev_type ev = YAML_SCALAR_EVENT \<Longrightarrow> x \<noteq> None"
    and Q: "\<And>e'. running handler delivered d0 cs0 q x B e' \<Longrightarrow> shape e'
      \<Longrightarrow> accept (ANode (AtKey # frames_of (estk e))) (ev_type ev) = Some (e_abs (e_state e') (estk e')) \<Longrightarrow> Q () e'"
  shows "wp (yaml_emitter_emit_flow_mapping_key ev first) Q (fails B) e"
  unfolding yaml_emitter_emit_flow_mapping_key_def wp_seqM [of "open_flow _ _"]
  by (rule wp_open_flow [OF e(1,3)], simp, rule wp_ifI, rule wp_close_flow, assumption, simp add: e(2), simp, simp, rule Q, assumption,
      assumption, simp, unfold wp_seqM [of "separate_flow _"] wp_readM, rule wp_writer_ctl [OF separate_writer], assumption,
      rule wp_emit_key [where ss = "estk e"], assumption, rule e(2), simp, simp, simp, simp, rule x, assumption, rule Q)


text \<open>The value of a mapping, after what the code writes before it.\<close>

lemma wp_emit_value:
  assumes w: "safe handler delivered m" "framed core m"
    and e: "running handler delivered d0 cs0 q x B e" "stack_shape (estk e)" "depth e = length (estk e)"
    and c: "cont_frame c = Some AtValue"
    and x: "ev_type ev = YAML_SCALAR_EVENT \<Longrightarrow> x \<noteq> None"
    and Q: "\<And>e'. running handler delivered d0 cs0 q x B e' \<Longrightarrow> shape e'
      \<Longrightarrow> accept (ANode (AtValue # frames_of (estk e))) (ev_type ev) = Some (e_abs (e_state e') (estk e')) \<Longrightarrow> Q () e'"
  shows "wp (seqM m (seqM (PUSH_STATE_E c) (yaml_emitter_emit_node ev False False True False))) Q (fails B) e"
  unfolding wp_seqM [of m]
  by (rule wp_writer_ctl [OF w e(1)], rule wp_push_cont [OF _ e(2) _ _ c], assumption, simp, simp add: e(3), rule x, assumption, rule Q)

lemma wpe_flow_mapping_value:
  assumes e: "running handler delivered d0 cs0 q x B e" "stack_shape (estk e)" "depth e = length (estk e)"
    and x: "ev_type ev = YAML_SCALAR_EVENT \<Longrightarrow> x \<noteq> None"
    and Q: "\<And>e'. running handler delivered d0 cs0 q x B e' \<Longrightarrow> shape e'
      \<Longrightarrow> accept (ANode (AtValue # frames_of (estk e))) (ev_type ev) = Some (e_abs (e_state e') (estk e')) \<Longrightarrow> Q () e'"
  shows "wp (yaml_emitter_emit_flow_mapping_value ev simple) Q (fails B) e"
  unfolding yaml_emitter_emit_flow_mapping_value_def
  by (rule wp_emit_value [OF _ _ e], (auto intro!: safe_rules framed_rules long_line_writer) [3], rule x, assumption, rule Q)

lemma wpe_block_mapping_value:
  assumes e: "running handler delivered d0 cs0 q x B e" "stack_shape (estk e)" "depth e = length (estk e)"
    and x: "ev_type ev = YAML_SCALAR_EVENT \<Longrightarrow> x \<noteq> None"
    and Q: "\<And>e'. running handler delivered d0 cs0 q x B e' \<Longrightarrow> shape e'
      \<Longrightarrow> accept (ANode (AtValue # frames_of (estk e))) (ev_type ev) = Some (e_abs (e_state e') (estk e')) \<Longrightarrow> Q () e'"
  shows "wp (yaml_emitter_emit_block_mapping_value ev simple) Q (fails B) e"
  unfolding yaml_emitter_emit_block_mapping_value_def
  by (rule wp_emit_value [OF _ _ e], (auto intro!: safe_rules framed_rules) [3], rule x, assumption, rule Q)

lemma wp_open_block:
  assumes e: "running handler delivered d0 cs0 q x B e" "depth e + (if first then 1 else 0) = length (estk e)"
    and Q: "\<And>e'. running handler delivered d0 cs0 q x B e' \<Longrightarrow> estk e' = estk e \<Longrightarrow> depth e' = length (estk e) \<Longrightarrow> Q () e'"
  shows "wp (whenM first (readM (\<lambda>e. yaml_emitter_increase_indent False (b e)))) Q (fails B) e"
proof (cases first)
  case True
  have "wp (yaml_emitter_increase_indent False (b e)) Q (fails B) e"
    by (rule wp_increase_indent [OF e(1)]) (use True e(2) Q in simp)
  with True show ?thesis by (simp add: whenM_def wp_readM)
qed (use e in \<open>auto simp: whenM_def wp_simps intro!: Q\<close>)

lemmas wp_open_block_const = wp_open_block [where b = "\<lambda>_. b" for b, unfolded readM_const]

lemma wp_block_sequence_item:
  assumes e: "running handler delivered d0 cs0 q x B e" "stack_shape (estk e)" "depth e + (if first then 1 else 0) = length (estk e)"
    and x: "ev_type ev = YAML_SCALAR_EVENT \<Longrightarrow> x \<noteq> None"
    and Q: "\<And>e'. running handler delivered d0 cs0 q x B e' \<Longrightarrow> shape e'
      \<Longrightarrow> accept (ANode (InSeq # frames_of (estk e))) (ev_type ev) = Some (e_abs (e_state e') (estk e')) \<Longrightarrow> Q () e'"
  shows "wp (yaml_emitter_emit_block_sequence_item ev first) Q (fails B) e"
  unfolding yaml_emitter_emit_block_sequence_item_def wp_seqM [of "whenM _ _"]
  by (rule wp_open_block [OF e(1,3)], rule wp_ifI, rule wp_close_block, assumption, simp add: e(2), simp, rule Q, assumption,
      assumption, simp, unfold wp_seqM [of "yaml_emitter_write_indent"] wp_seqM [of "yaml_emitter_write_indicator _ _ _ _"],
      rule wp_writer_ctl [OF safe_write_indent framed_core_writers(1)], assumption,
      rule wp_writer_ctl [OF safe_write_indicator framed_core_writers(4)], simp, assumption, rule wp_push_cont [OF _ e(2)],
      assumption, simp, simp, simp, rule x, assumption, rule Q)

lemma wpe_block_mapping_key:
  assumes e: "running handler delivered d0 cs0 q x B e" "stack_shape (estk e)" "depth e + (if first then 1 else 0) = length (estk e)"
    and x: "ev_type ev = YAML_SCALAR_EVENT \<Longrightarrow> x \<noteq> None"
    and Q: "\<And>e'. running handler delivered d0 cs0 q x B e' \<Longrightarrow> shape e'
      \<Longrightarrow> accept (ANode (AtKey # frames_of (estk e))) (ev_type ev) = Some (e_abs (e_state e') (estk e')) \<Longrightarrow> Q () e'"
  shows "wp (yaml_emitter_emit_block_mapping_key ev first) Q (fails B) e"
  unfolding yaml_emitter_emit_block_mapping_key_def wp_seqM [of "whenM _ _"]
  by (rule wp_open_block_const [OF e(1,3)], rule wp_ifI, rule wp_close_block, assumption, simp add: e(2), simp, rule Q, assumption,
      assumption, simp, unfold wp_seqM [of "yaml_emitter_write_indent"] wp_readM,
      rule wp_writer_ctl [OF safe_write_indent framed_core_writers(1)], assumption, rule wp_emit_key [where ss = "estk e"],
      assumption, rule e(2), simp, simp, simp, simp, rule x, assumption, rule Q)


end

subsection \<open>Documents\<close>

lemma put_nonzero: "is_char c \<Longrightarrow> c \<noteq> 0 \<Longrightarrow> 0 \<notin> set (utf8_put c)"
proof -
  assume c: "is_char c" "c \<noteq> 0"
  have "utf8_put c = hd (utf8_put c) # tl (utf8_put c)" by simp
  moreover have "hd (utf8_put c) \<noteq> 0" using hd_put_ascii [of c 0] c by simp
  moreover have "0 \<notin> set (tl (utf8_put c))" using put_trailing(2) [OF c(1)] by auto
  ultimately show ?thesis by (metis set_ConsD)
qed

lemma c_str_utf8 [simp]: "yaml_check_utf8 s \<Longrightarrow> yaml_check_utf8 (c_str s)"
proof -
  assume "yaml_check_utf8 s"
  then obtain cs where cs: "s = enc cs" "\<forall>c\<in>set cs. is_char c" by (auto simp: check_utf8_enc)
  have "\<exists>ds. c_str (enc cs) = enc ds \<and> (\<forall>c\<in>set ds. is_char c)" using cs(2)
  proof (induction cs)
    case (Cons c cs)
    then obtain ds where ds: "c_str (enc cs) = enc ds" "\<forall>c\<in>set ds. is_char c" by auto
    show ?case
    proof (cases "c = 0")
      case True
      then show ?thesis by (intro exI [of _ "[]"]) (simp add: c_str_def utf8_put_def)
    next
      case False
      have "0 \<notin> set (utf8_put c)"
        using put_nonzero [of c] False Cons.prems by simp
      then have "c_str (enc (c # cs)) = utf8_put c @ c_str (enc cs)" unfolding c_str_def enc_simps by (subst takeWhile_append2) auto
      with ds Cons.prems show ?thesis by (intro exI [of _ "c # ds"]) simp
    qed
  qed (auto simp: c_str_def intro: exI [of _ "[]"])
  then show ?thesis using cs(1) by (auto simp: check_utf8_enc)
qed

lemma wp_strdupE:
  assumes "\<And>h. live h = live (e_mem e) + 1 \<Longrightarrow> Q (Some (c_str s)) (e\<lparr>e_mem := h\<rparr>)"
    and "\<And>h. live h = live (e_mem e) \<Longrightarrow> Q None (e\<lparr>e_mem := h\<rparr>)"
  shows "wp (strdupE s) Q E e"
  unfolding strdupE_def wp_zoomM by (rule wp_yaml_strdup) (auto intro: assms)

lemma running_mem: "running H D d0 cs0 q x B (e\<lparr>e_mem := h\<rparr>) = running H D d0 cs0 q x (B - live h + live (e_mem e)) e"
  by (auto simp: running_def)

lemma running_freeE:
  "fails B e \<Longrightarrow> (\<And>h. live (f h) = live h - n) \<Longrightarrow> fails (B - n) (freeE f e)"
  by (simp add: fails_def freeE_def)

lemma wp_append_tag_directiveE:
  assumes e: "running H D d0 cs0 q x B e" and td: "td_utf8 td"
    and Q: "\<And>e'. running H D d0 cs0 q x B e' \<Longrightarrow> estk e' = estk e \<Longrightarrow> depth e' = depth e \<Longrightarrow> Q () e'"
  shows "wp (yaml_emitter_append_tag_directive td dup) Q (fails B) e"
proof -
  let ?att = "\<lambda>handle pre. cleanupM
      (case (handle, pre) of
         (Some h, Some pr) \<Rightarrow> push_stackE e_tag_directives (\<lambda>st e. e\<lparr>e_tag_directives := st\<rparr>) \<lparr>td_handle = h, td_prefix = pr\<rparr>
       | _ \<Rightarrow> errorM (\<lambda>e. e\<lparr>e_error := YAML_MEMORY_ERROR\<rparr>))
      (freeE (\<lambda>h. free_string pre (free_string handle h)))"
  have freed: "fails B (freeE (\<lambda>h. free_string pre (free_string handle h)) e')"
    if "fails (B + (string_blocks handle + string_blocks pre)) e'" for handle pre and e' :: "'a yaml_emitter"
    using running_freeE [OF that, of "\<lambda>h. free_string pre (free_string handle h)" "string_blocks handle + string_blocks pre"] by simp
  have attempt: "wp (?att handle pre) Q (fails B) e'"
    if e': "running H D d0 cs0 q x (B + (string_blocks handle + string_blocks pre)) e'" "estk e' = estk e" "depth e' = depth e"
      and s: "utf8_opt handle" "utf8_opt pre" for handle pre e'
  proof (cases "handle \<noteq> None \<and> pre \<noteq> None")
    case True
    then obtain h pr where eq: "handle = Some h" "pre = Some pr" by auto
    have ok: "stack_ok (e_tag_directives e')" "ebalance e' = B + 2" using e'(1) eq by (simp_all add: running_def string_blocks_def)
    show ?thesis unfolding wp_cleanupM eq prod.case option.case
    proof (rule wp_push_stackE)
      fix st and hp :: heap
      assume st: "stack_ok st" "elems st = elems (e_tag_directives e') @ [\<lparr>td_handle = h, td_prefix = pr\<rparr>]" "live hp = live (e_mem e')"
      have "ebalance (e'\<lparr>e_mem := hp, e_tag_directives := st\<rparr>) = B" using st ok by (simp add: stack_ok_def)
      with e' st s eq have "running H D d0 cs0 q x B (e'\<lparr>e_mem := hp, e_tag_directives := st\<rparr>)"
        by (auto simp: running_def td_utf8_def utf8_opt_def)
      then show "Q () (e'\<lparr>e_mem := hp, e_tag_directives := st\<rparr>)" using e' by (intro Q) simp_all
    next
      fix hp :: heap
      assume "live hp = live (e_mem e')"
      then have "fails (B + 2) (e'\<lparr>e_mem := hp, e_error := YAML_MEMORY_ERROR, e_tag_directives := e_tag_directives e'\<rparr>)"
        using ok by (simp add: fails_def)
      then show "fails B (freeE (\<lambda>h'. free_string (Some pr) (free_string (Some h) h'))
          (e'\<lparr>e_mem := hp, e_error := YAML_MEMORY_ERROR, e_tag_directives := e_tag_directives e'\<rparr>))"
        by (intro freed) (simp add: string_blocks_def)
    qed (rule ok)
  next
    case False
    have "fails (B + (string_blocks handle + string_blocks pre)) (e'\<lparr>e_error := YAML_MEMORY_ERROR\<rparr>)"
      using e' by (simp add: fails_def running_def)
    from freed [OF this] False show ?thesis by (auto simp: wp_cleanupM wp_errorM split: option.splits)
  qed
  have t: "utf8_opt (Some (c_str (td_handle td)))" "utf8_opt (Some (c_str (td_prefix td)))" "utf8_opt None"
    using td by (simp_all add: td_utf8_def utf8_opt_def)
  have copies: "wp (bindM (strdupE (td_handle td)) (\<lambda>handle. bindM (strdupE (td_prefix td)) (?att handle))) Q (fails B) e"
    unfolding wp_bindM
    by (rule wp_strdupE; rule wp_strdupE; rule attempt; use e t in \<open>simp add: string_blocks_def running_mem\<close>)
  show ?thesis
    unfolding yaml_emitter_append_tag_directive_def wp_readM
    by (rule wp_ifI, rule wp_ifI, simp add: wp_returnM Q e, rule fails_error [OF e], rule copies)
qed

lemma wp_all_alpha:
  assumes "running H D d0 cs0 q x B e" "Q () e"
  shows "wp (all_alpha p s) Q (fails B) e"
  by (induction s) (auto simp: wp_returnM assms intro: fails_error [OF assms(1)])

lemma wp_analyze_tag_directive:
  assumes "running H D d0 cs0 q x B e" "Q () e"
  shows "wp (yaml_emitter_analyze_tag_directive td) Q (fails B) e"
  unfolding yaml_emitter_analyze_tag_directive_def Let_def wp_seqM
  by (intro wp_ifI fails_error [OF assms(1)], unfold wp_seqM, rule wp_all_alpha [OF assms(1)], intro wp_ifI fails_error [OF assms(1)])
    (simp add: wp_returnM assms)

lemma wp_append_directives:
  assumes "running H D d0 cs0 q x B e" "\<forall>td\<in>set tds. td_utf8 td"
    and Q: "\<And>e'. running H D d0 cs0 q x B e' \<Longrightarrow> estk e' = estk e \<Longrightarrow> depth e' = depth e \<Longrightarrow> Q () e'"
  shows "wp (append_directives tds) Q (fails B) e"
  using assms
proof (induction tds arbitrary: e)
  case (Cons td tds)
  show ?case unfolding append_directives.simps wp_seqM
    by (rule wp_analyze_tag_directive [OF Cons.prems(1)], rule wp_append_tag_directiveE [OF Cons.prems(1)])
      (use Cons in auto)
qed (simp add: wp_returnM)

lemma wp_append_defaults:
  assumes "running H D d0 cs0 q x B e" "\<forall>td\<in>set tds. td_utf8 td"
    and Q: "\<And>e'. running H D d0 cs0 q x B e' \<Longrightarrow> estk e' = estk e \<Longrightarrow> depth e' = depth e \<Longrightarrow> Q () e'"
  shows "wp (append_defaults tds) Q (fails B) e"
  using assms
proof (induction tds arbitrary: e)
  case (Cons td tds)
  show ?case unfolding append_defaults.simps wp_seqM
    by (rule wp_append_tag_directiveE [OF Cons.prems(1)]) (use Cons in auto)
qed (simp add: wp_returnM)

lemma default_directives_utf8: "\<forall>td\<in>set default_tag_directives_E. td_utf8 td"
  by (simp add: default_tag_directives_E_def td_utf8_def check_utf8_ascii lit_def del: yaml_check_utf8.simps)

lemma wp_version:
  assumes "running H D d0 cs0 q x B e" "Q () e"
  shows "wp (case vd of Some v \<Rightarrow> yaml_emitter_analyze_version_directive v | None \<Rightarrow> returnM ()) Q (fails B) e"
  using assms by (cases vd) (auto simp: yaml_emitter_analyze_version_directive_def wp_returnM intro: fails_error)

text \<open>The strings of an event are in UTF-8, as its initializer guarantees.\<close>

context byte_sink
begin

lemma safe_flush [safe_rules]: "safe handler delivered (yaml_emitter_flush :: ('w yaml_emitter, unit) prog)"
  by (rule safeI, rule wp_mono [OF wp_flush_emitted], assumption) (auto intro: exI [of _ "[]"])

lemma wp_flush_running:
  assumes e: "running handler delivered d0 cs0 q x B e"
    and Q: "\<And>e'. running handler delivered d0 cs0 q x B e' \<Longrightarrow> b_pos (e_buffer e') = 0 \<Longrightarrow> estk e' = estk e \<Longrightarrow> depth e' = depth e
      \<Longrightarrow> e_state e' = e_state e \<Longrightarrow> Q () e'"
  shows "wp yaml_emitter_flush Q (fails B) e"
proof -
  obtain new where new: "emitted handler delivered d0 (cs0 @ new) e" using e by (auto simp: running_def)
  have "b_pos (e_buffer e') = 0" if "writer_ok handler [] e'" for e' :: "'w yaml_emitter"
    using that by (auto simp: writer_ok_def buffer_ok_def)
  then have "wp yaml_emitter_flush (\<lambda>_ e'. b_pos (e_buffer e') = 0) (\<lambda>_. True) e"
    by (intro wp_mono [OF wp_flush_emitted [OF new]]) auto
  moreover have "wp yaml_emitter_flush (\<lambda>_ e'. running handler delivered d0 cs0 q x B e' \<and> estk e' = estk e \<and> depth e' = depth e
      \<and> e_state e' = e_state e) (fails B) e"
    by (rule wp_writer_ctl [OF safe_flush framed_core_flush e]) simp
  ultimately show ?thesis by (rule wp_mono [OF wp_conj]) (auto intro: Q)
qed

lemma write_tag_directives_writer:
  "\<forall>td\<in>set tds. td_utf8 td \<Longrightarrow> safe handler delivered (write_tag_directives tds)" "framed core (write_tag_directives tds)"
  by (induction tds; auto intro!: safe_rules framed_rules simp: td_utf8_def)+

lemma version_writer: "safe handler delivered (write_version_directive vd)" "framed core (write_version_directive vd)"
  unfolding write_version_directive_def by (auto intro!: safe_rules framed_rules)

lemma document_marker_writer: "safe handler delivered (document_marker i)" "framed core (document_marker i)"
  unfolding document_marker_def by (auto intro!: safe_rules framed_rules)

lemma wp_emit_document_start:
  assumes e: "running handler delivered d0 cs0 q x B e" "estk e = []" "depth e = 0" and tds: "\<forall>td\<in>set tds. td_utf8 td"
    and Q: "\<And>e'. running handler delivered d0 cs0 q x B e' \<Longrightarrow> shape e' \<Longrightarrow> e_state e' = YAML_EMIT_DOCUMENT_CONTENT_STATE \<Longrightarrow> Q () e'"
  shows "wp (emit_document_start vd tds implicit first) Q (fails B) e"
proof -
  let ?dots = "\<lambda>e. whenM ((vd \<noteq> None \<or> tds \<noteq> []) \<and> e_open_ended e \<noteq> 0)
        (seqM (yaml_emitter_write_indicator (lit ''...'') True False False) yaml_emitter_write_indent)"
  let ?version = "case vd of Some v \<Rightarrow> write_version_directive v | None \<Rightarrow> returnM ()"
  have dots: "safe handler delivered (?dots e)" "framed core (?dots e)" for e by (auto intro!: safe_rules framed_rules)
  have version: "safe handler delivered ?version" "framed core ?version"
    by (auto intro!: safe_rules framed_rules version_writer split: option.split)
  show ?thesis unfolding emit_document_start_def wp_seqM wp_modifyM wp_readM
    by (rule wp_version [OF e(1)], rule wp_append_directives [OF e(1) tds], rule wp_append_defaults, assumption,
        rule default_directives_utf8, rule wp_writer_ctl [OF dots], assumption, rule wp_writer_ctl [OF version], simp,
        rule wp_writer_ctl [OF write_tag_directives_writer(1) [OF tds] write_tag_directives_writer(2)], assumption,
        rule wp_writer_ctl [OF document_marker_writer], assumption, rule Q)
      (simp_all add: shape_def first_states_def e)
qed

lemma wp_emit_stream_end:
  assumes e: "running handler delivered d0 cs0 q x B e" "estk e = []" "depth e = 0"
    and Q: "\<And>e'. running handler delivered d0 cs0 q x B e' \<Longrightarrow> shape e' \<Longrightarrow> e_state e' = YAML_EMIT_END_STATE \<Longrightarrow> Q () e'"
  shows "wp emit_stream_end Q (fails B) e"
proof -
  let ?dots = "\<lambda>e. whenM (e_open_ended e = 2)
       (seqM (yaml_emitter_write_indicator (lit ''...'') True False False)
       (seqM (modifyM (\<lambda>e. e\<lparr>e_open_ended := 0\<rparr>)) yaml_emitter_write_indent))"
  have dots: "safe handler delivered (?dots e)" "framed core (?dots e)" for e
    by (auto intro!: safe_rules framed_rules framed_core_modify)
  show ?thesis unfolding emit_stream_end_def wp_seqM wp_modifyM wp_readM
    by (rule wp_writer_ctl [OF dots e(1)], rule wp_flush_running, assumption, rule Q)
      (simp_all add: shape_def first_states_def e)
qed

lemma wpe_document_start:
  assumes e: "running handler delivered d0 cs0 q x B e" "estk e = []" "depth e = 0" and ev: "event_utf8 (ev_data ev)"
    and Q: "\<And>e'. running handler delivered d0 cs0 q x B e' \<Longrightarrow> shape e'
      \<Longrightarrow> accept ADocs (ev_type ev) = Some (e_abs (e_state e') (estk e')) \<Longrightarrow> Q () e'"
  shows "wp (yaml_emitter_emit_document_start ev first) Q (fails B) e"
  unfolding yaml_emitter_emit_document_start_def
proof (cases "ev_data ev"; simp only: yaml_event_data.case)
  case (DocumentStartEvent vd tds implicit)
  then show "wp (emit_document_start vd tds implicit first) Q (fails B) e"
    using ev by (intro wp_emit_document_start [OF e] Q) (simp_all add: ev_type_def)
next
  case StreamEndEvent
  then show "wp emit_stream_end Q (fails B) e" by (intro wp_emit_stream_end [OF e] Q) (simp_all add: ev_type_def)
qed (rule fails_error [OF e(1)])+

lemma wpe_document_content:
  assumes e: "running handler delivered d0 cs0 q x B e" "estk e = []" "depth e = 0"
    and x: "ev_type ev = YAML_SCALAR_EVENT \<Longrightarrow> x \<noteq> None"
    and Q: "\<And>e'. running handler delivered d0 cs0 q x B e' \<Longrightarrow> shape e'
      \<Longrightarrow> accept (ANode []) (ev_type ev) = Some (e_abs (e_state e') (estk e')) \<Longrightarrow> Q () e'"
  shows "wp (yaml_emitter_emit_document_content ev) Q (fails B) e"
  unfolding yaml_emitter_emit_document_content_def
  by (rule wpe_push_node [OF e(1)]) (use e x in \<open>simp_all add: stack_shape_doc Q\<close>)

lemma running_pop_tag_directives:
  assumes "running H D d0 cs0 q x B e"
  shows "running H D d0 cs0 q x B (pop_tag_directivesE e)"
  using assms by (auto simp: running_def pop_tag_directivesE_def freeE_def stack_ok_def)

lemma wpe_document_end:
  assumes e: "running handler delivered d0 cs0 q x B e" "estk e = []" "depth e = 0"
    and Q: "\<And>e'. running handler delivered d0 cs0 q x B e' \<Longrightarrow> shape e'
      \<Longrightarrow> accept ADocEnd (ev_type ev) = Some (e_abs (e_state e') (estk e')) \<Longrightarrow> Q () e'"
  shows "wp (yaml_emitter_emit_document_end ev) Q (fails B) e"
  unfolding yaml_emitter_emit_document_end_def
proof (cases "ev_data ev"; simp only: yaml_event_data.case)
  case (DocumentEndEvent implicit)
  let ?m = "if \<not> implicit then seqM (yaml_emitter_write_indicator (lit ''...'') True False False)
      (seqM (modifyM (\<lambda>e. e\<lparr>e_open_ended := 0\<rparr>)) yaml_emitter_write_indent)
    else modifyM (\<lambda>e. if e_open_ended e = 0 then e\<lparr>e_open_ended := 1\<rparr> else e)"
  have m: "safe handler delivered ?m" "framed core ?m" by (auto intro!: safe_rules framed_rules framed_core_modify)
  show "wp (seqM yaml_emitter_write_indent (seqM ?m (seqM yaml_emitter_flush
      (seqM (set_stateE YAML_EMIT_DOCUMENT_START_STATE) (modifyM pop_tag_directivesE))))) Q (fails B) e"
    unfolding wp_seqM wp_modifyM
    by (rule wp_writer_ctl [OF safe_write_indent framed_core_writers(1) e(1)], rule wp_writer_ctl [OF m [unfolded if_not_P]], assumption,
        rule wp_writer_ctl [OF safe_flush framed_core_flush], assumption, rule Q, rule running_pop_tag_directives)
      (use DocumentEndEvent in \<open>simp_all add: shape_def first_states_def e ev_type_def pop_tag_directivesE_def freeE_def\<close>)
qed (rule fails_error [OF e(1)])+

subsection \<open>One event\<close>

lemma wpe_state_machine:
  assumes e: "running handler delivered d0 cs0 q x B e" "shape e" "e_state e \<noteq> YAML_EMIT_STREAM_START_STATE"
    and ev: "event_utf8 (ev_data ev)" and x: "ev_type ev = YAML_SCALAR_EVENT \<Longrightarrow> x \<noteq> None"
    and Q: "\<And>e'. running handler delivered d0 cs0 q x B e' \<Longrightarrow> shape e'
      \<Longrightarrow> accept (e_abs (e_state e) (estk e)) (ev_type ev) = Some (e_abs (e_state e') (estk e')) \<Longrightarrow> Q () e'"
  shows "wp (yaml_emitter_state_machine ev) Q (fails B) e"
proof -
  note rules = wpe_document_start wpe_document_content wpe_document_end wp_flow_sequence_item wpe_flow_mapping_key
    wpe_flow_mapping_value wp_block_sequence_item wpe_block_mapping_key wpe_block_mapping_value
  show ?thesis unfolding yaml_emitter_state_machine_def wp_readM
    by (cases "e_state e"; use e(2,3) ev x Q in \<open>simp add: shape_def first_states_def fails_error [OF e(1)]\<close>;
        (rule rules [OF e(1)]; simp add: shape_def first_states_def; blast?))
qed

text \<open>The byte order mark does not count as a column, so it is written at the start of the output only.\<close>

lemma wp_write_bom:
  assumes e: "emitted handler delivered d0 [] e"
  shows "wp yaml_emitter_write_bom (\<lambda>_ e'. emitted handler delivered d0 [0xFEFF] e') (\<lambda>e'. e_error e' \<noteq> YAML_NO_ERROR) e"
proof -
  have bom: "[0xEF, 0xBB, 0xBF] = enc [0xFEFF]" by (simp add: utf8_put_def)
  have "e_line e = 0" "e_column e = 0" "e_line_break e \<noteq> YAML_ANY_BREAK" using e by (auto simp: emitted_def laid_out_def)
  then have "emitted handler delivered d0 [0xFEFF] e'"
    if "stored handler delivered d0 [0xFEFF] e'" "core e' = core e" "e_column e' = e_column e" "e_line e' = e_line e" for e'
    using that coreD(10) [OF that(2)] by (simp add: emitted_def laid_out_start)
  then have "wp (seqM FLUSH (seqM (store [0xEF, 0xBB, 0xBF]) (returnM ()))) (\<lambda>_ e'. emitted handler delivered d0 [0xFEFF] e')
      (\<lambda>e'. e_error e' \<noteq> YAML_NO_ERROR) e"
    by (intro wp_put_const [OF e bom]) (auto simp: is_char_def wp_returnM utf8_put_def)
  then show ?thesis by (auto simp: yaml_emitter_write_bom_def wp_def seqM_def bindM_def returnM_def split: result.splits)
qed

end

subsection \<open>The start of the stream\<close>

definition fresh :: "'w write_handler \<Rightarrow> ('w \<Rightarrow> ystring) \<Rightarrow> ystring \<Rightarrow> 'w yaml_emitter \<Rightarrow> bool" where
  "fresh H D d0 e \<longleftrightarrow> e_write_handler e = Some H \<and> D (e_write_handler_data e) = d0
     \<and> e_buffer e = \<lparr>b_data = [], b_pos = 0, b_cap = OUTPUT_BUFFER_SIZE\<rparr>
     \<and> e_raw_buffer e = \<lparr>b_data = [], b_pos = 0, b_cap = OUTPUT_RAW_BUFFER_SIZE\<rparr>"

text \<open>The texts that the analysis of an event has left.\<close>

definition texts_ok :: "ystring option \<Rightarrow> 'w yaml_emitter \<Rightarrow> bool" where
  "texts_ok x e \<longleftrightarrow> utf8_opt (e_anchor e) \<and> utf8_opt (e_tag_handle e) \<and> utf8_opt (e_tag_suffix e) \<and> e_scalar e = x \<and> utf8_opt x"

text \<open>Between two events.\<close>

definition emitter_inv :: "'w write_handler \<Rightarrow> ('w \<Rightarrow> ystring) \<Rightarrow> ystring \<Rightarrow> 'w yaml_emitter \<Rightarrow> bool" where
  "emitter_inv H D d0 e \<longleftrightarrow> stack_ok (e_states e) \<and> stack_ok (e_indents e) \<and> stack_ok (e_tag_directives e) \<and> queue_ok (e_events e)
     \<and> (\<forall>td\<in>set (elems (e_tag_directives e)). td_utf8 td) \<and> (\<forall>ev\<in>set (items (e_events e)). event_utf8 (ev_data ev)) \<and> shape e
     \<and> (if e_state e = YAML_EMIT_STREAM_START_STATE then fresh H D d0 e else \<exists>cs. emitted H D d0 cs e)"

lemma settings_emitted:
  assumes "fresh H D d0 e"
  shows "emitted H D d0 [] (stream_settings c (e\<lparr>e_open_ended := 0\<rparr>))"
  using assms unfolding emitted_def stored_def
  by (intro conjI exI [of _ "[]"]) (auto simp: fresh_def stream_settings_def Let_def writer_ok_def buffer_ok_def laid_out_start)

lemma settings_simps [simp]:
  "e_states (stream_settings c e) = e_states e" "e_indents (stream_settings c e) = e_indents e"
  "e_tag_directives (stream_settings c e) = e_tag_directives e" "e_events (stream_settings c e) = e_events e"
  "e_anchor (stream_settings c e) = e_anchor e" "e_tag_handle (stream_settings c e) = e_tag_handle e"
  "e_tag_suffix (stream_settings c e) = e_tag_suffix e" "e_scalar (stream_settings c e) = e_scalar e"
  "ebalance (stream_settings c e) = ebalance e"
  by (simp_all add: stream_settings_def Let_def ebalance_def core_blocks_def)

context byte_sink
begin

lemma wpe_stream_start:
  assumes e: "emitter_inv handler delivered d0 e" "e_state e = YAML_EMIT_STREAM_START_STATE" "texts_ok x e"
    and Q: "\<And>e'. running handler delivered d0 [] (e_events e) x (ebalance e) e' \<Longrightarrow> shape e' \<Longrightarrow> e_state e' = YAML_EMIT_FIRST_DOCUMENT_START_STATE
      \<Longrightarrow> accept AStart (ev_type ev) = Some ADocs \<Longrightarrow> Q () e'"
  shows "wp (yaml_emitter_emit_stream_start ev) Q (fails (ebalance e)) e"
  unfolding yaml_emitter_emit_stream_start_def wp_seqM wp_modifyM
proof (cases "ev_data ev"; simp only: yaml_event_data.case)
  case (StreamStartEvent c)
  let ?e = "stream_settings c (e\<lparr>e_open_ended := 0\<rparr>)"
  have k: "estk e = []" "depth e = 0" using e(1,2) by (auto simp: emitter_inv_def shape_def first_states_def)
  have "fresh handler delivered d0 e" using e(1,2) by (simp add: emitter_inv_def)
  note em = settings_emitted [OF this, of c]
  with e have r: "running handler delivered d0 [] (e_events e) x (ebalance e) ?e"
    by (auto simp: running_def emitter_inv_def texts_ok_def intro: exI [of _ "[]"])
  let ?bom = "\<lambda>e. whenM (e_encoding e \<noteq> YAML_UTF8_ENCODING) yaml_emitter_write_bom"
  have bom: "wp (?bom ?e) (\<lambda>_ e'. \<exists>new. emitted handler delivered d0 ([] @ new) e') (\<lambda>e'. e_error e' \<noteq> YAML_NO_ERROR) ?e"
    using em by (auto simp: whenM_def wp_returnM intro!: wp_mono [OF wp_write_bom [OF em]])
  have fr: "framed core (?bom ?e)" by (intro framed_rules)
  show "wp (seqM (modifyM (stream_settings c)) (seqM (readM ?bom) (set_stateE YAML_EMIT_FIRST_DOCUMENT_START_STATE))) Q
      (fails (ebalance e)) (e\<lparr>e_open_ended := 0\<rparr>)"
    unfolding wp_seqM wp_modifyM wp_readM
    by (rule wp_writer_run [OF bom fr r], rule Q)
      (use k StreamStartEvent in \<open>auto simp: shape_def first_states_def ev_type_def dest: coreD(11,12,14)\<close>)
qed (auto simp: yaml_emitter_set_emitter_error_def wp_simps fails_def)

end

subsection \<open>Analysis\<close>

definition acore :: "'w yaml_emitter \<Rightarrow> 'w yaml_emitter" where
  "acore e = e\<lparr>e_error := YAML_NO_ERROR, e_problem := [], e_anchor := None, e_alias := False, e_tag_handle := None, e_tag_suffix := None,
     e_scalar := None, e_multiline := False, e_flow_plain_allowed := False, e_block_plain_allowed := False,
     e_single_quoted_allowed := False, e_block_allowed := False\<rparr>"

lemma acore_cong: "acore e' = acore e \<Longrightarrow> (\<And>x. f (acore x) = f x) \<Longrightarrow> f e' = f e"
  by metis

lemma acoreD:
  assumes "acore e' = acore e"
  shows "e_states e' = e_states e" "e_state e' = e_state e" "e_events e' = e_events e" "e_indents e' = e_indents e"
    "e_tag_directives e' = e_tag_directives e" "ebalance e' = ebalance e" "emitted H D d0 cs e' = emitted H D d0 cs e"
    "fresh H D d0 e' = fresh H D d0 e" "e_buffer e' = e_buffer e"
  by (rule acore_cong [OF assms], simp add: acore_def emitted_def stored_def writer_ok_def fresh_def ebalance_def core_blocks_def)+

lemma framed_all_alpha [framed_rules]: "framed acore (all_alpha p s)"
  by (induction s) (auto intro!: framed_rules simp: yaml_emitter_set_emitter_error_def acore_def)

lemma framed_acore_scalar [framed_rules]: "framed acore (yaml_emitter_analyze_scalar v)"
  unfolding yaml_emitter_analyze_scalar_def by (intro framed_rules) (simp_all add: acore_def set_allowed_def Let_def)

lemma framed_acore_event: "framed acore (yaml_emitter_analyze_event ev)"
  unfolding yaml_emitter_analyze_event_def analyze_properties_def yaml_emitter_analyze_anchor_def yaml_emitter_analyze_tag_def Let_def
    yaml_emitter_set_emitter_error_def
  by (cases "ev_data ev"; simp only: yaml_event_data.case; intro framed_rules)
    (simp_all add: acore_def set_allowed_def Let_def split: option.split)

lemma while_chars_pure:
  assumes "yaml_check_utf8 v"
  obtains f where "while_chars (\<lambda>s f. returnM (g s f)) v f0 = returnM f"
proof -
  obtain cs where cs: "v = enc cs" "\<forall>c\<in>set cs. is_char c" using assms by (auto simp: check_utf8_enc)
  have "\<exists>f. while_chars (\<lambda>s f. returnM (g s f)) (enc cs) f0 = returnM f" using cs(2)
  proof (induction cs arbitrary: f0)
    case (Cons c cs)
    then show ?case by (subst while_chars.simps) (auto simp: bindM_returnM)
  qed (auto simp: while_chars.simps)
  then show ?thesis using that cs(1) by auto
qed

lemma drop_prefix_utf8: "yaml_check_utf8 p \<Longrightarrow> yaml_check_utf8 (p @ s) = yaml_check_utf8 s"
proof -
  assume "yaml_check_utf8 p"
  then obtain cs where cs: "p = enc cs" "\<forall>c\<in>set cs. is_char c" by (auto simp: check_utf8_enc)
  have "yaml_check_utf8 (enc cs @ s) = yaml_check_utf8 s" using cs(2)
    by (induction cs) (auto simp: is_char_def check_utf8_append utf8_seq_iff simp del: yaml_check_utf8.simps)
  then show ?thesis using cs(1) by simp
qed

lemma prefix_match_utf8:
  assumes "prefix_match s td" "td_utf8 td" "yaml_check_utf8 s"
  shows "yaml_check_utf8 (drop (strlen (td_prefix td)) s)"
proof -
  have "s = c_str (td_prefix td) @ drop (strlen (td_prefix td)) s"
    using assms(1) by (metis append_take_drop_id prefix_match_def strlen_def)
  then show ?thesis using assms(2,3) drop_prefix_utf8 [of "c_str (td_prefix td)" "drop (strlen (td_prefix td)) s"]
    by (simp add: td_utf8_def)
qed

definition scalar_of :: "yaml_event \<Rightarrow> ystring option" where
  "scalar_of ev = (case ev_data ev of ScalarEvent a t v p q y \<Rightarrow> Some v | _ \<Rightarrow> None)"

abbreviation erred :: "'w yaml_emitter \<Rightarrow> bool" where
  "erred e \<equiv> e_error e \<noteq> YAML_NO_ERROR"

lemma wp_erred: "wp (yaml_emitter_set_emitter_error p) Q erred e"
  by (simp add: yaml_emitter_set_emitter_error_def wp_simps)

lemma wp_all_alpha_erred: "Q () e \<Longrightarrow> wp (all_alpha p s) Q erred e"
  by (induction s) (auto simp: wp_returnM intro: wp_erred)

lemma wp_analyze_anchor:
  assumes "yaml_check_utf8 a" "texts_ok x e" "\<And>s al. texts_ok x (e\<lparr>e_anchor := s, e_alias := al\<rparr>) \<Longrightarrow> Q () (e\<lparr>e_anchor := s, e_alias := al\<rparr>)"
  shows "wp (yaml_emitter_analyze_anchor a alias) Q erred e"
  unfolding yaml_emitter_analyze_anchor_def Let_def
  by (rule wp_ifI, rule wp_erred, unfold wp_seqM wp_modifyM, rule wp_all_alpha_erred, rule assms(3))
    (use assms(1,2) in \<open>simp add: texts_ok_def utf8_opt_def\<close>)

lemma wp_analyze_tag:
  assumes t: "yaml_check_utf8 t" "texts_ok x e" and d: "\<forall>td\<in>set (elems (e_tag_directives e)). td_utf8 td"
    and Q: "\<And>e'. texts_ok x e' \<Longrightarrow> Q () e'"
  shows "wp (yaml_emitter_analyze_tag t) Q erred e"
proof -
  have "texts_ok x (case find (prefix_match (c_str t)) (elems (e_tag_directives e)) of
      Some td \<Rightarrow> e\<lparr>e_tag_handle := Some (c_str (td_handle td)), e_tag_suffix := Some (drop (strlen (td_prefix td)) (c_str t))\<rparr>
    | None \<Rightarrow> e\<lparr>e_tag_suffix := Some (c_str t)\<rparr>)"
    using t d prefix_match_utf8 [of "c_str t"]
    by (auto simp: texts_ok_def utf8_opt_def find_Some_iff td_utf8_def split: option.split)
  then show ?thesis unfolding yaml_emitter_analyze_tag_def Let_def
    by (intro wp_ifI wp_erred) (simp add: wp_modifyM Q)
qed

lemma wp_analyze_properties:
  assumes "utf8_opt a" "utf8_opt t" "texts_ok x e" "\<forall>td\<in>set (elems (e_tag_directives e)). td_utf8 td"
    and "\<And>e'. texts_ok x e' \<Longrightarrow> Q () e'"
  shows "wp (analyze_properties a t implicit) Q erred e"
proof -
  have tag: "wp (readM (\<lambda>e. case t of Some t \<Rightarrow> whenM (e_canonical e \<or> \<not> implicit) (yaml_emitter_analyze_tag t) | None \<Rightarrow> returnM ())) Q erred e'"
    if "texts_ok x e'" "e_tag_directives e' = e_tag_directives e" for e'
    using that assms by (cases t) (auto simp: wp_simps whenM_def utf8_opt_def intro!: wp_analyze_tag)
  show ?thesis
  proof (cases a)
    case None
    then show ?thesis using tag assms by (simp add: analyze_properties_def wp_seqM wp_returnM)
  next
    case (Some s)
    have "wp (yaml_emitter_analyze_anchor s False) (\<lambda>_. wp (readM (\<lambda>e. case t of Some t \<Rightarrow> whenM (e_canonical e \<or> \<not> implicit) (yaml_emitter_analyze_tag t)
        | None \<Rightarrow> returnM ())) Q erred) erred e"
      by (rule wp_analyze_anchor [OF _ assms(3)]) (use Some assms(1) tag in \<open>simp_all add: utf8_opt_def\<close>)
    then show ?thesis using Some by (simp add: analyze_properties_def wp_seqM)
  qed
qed

end
