(* ===== verification/Emitter_Runs.thy ===== *)
theory Emitter_Runs
  imports Emitter_Correct Dumper_Runs "HOL-Library.Sublist"
begin

text \<open>
  Whole calls of \<open>yaml_emitter_emit\<close>.
\<close>

subsection \<open>The analysis of an event\<close>

lemma set_allowed_texts [simp]: "texts_ok x (set_allowed f e) = texts_ok x e"
  by (simp add: texts_ok_def set_allowed_def Let_def)

lemma wp_analyze_scalar:
  fixes e :: "'w yaml_emitter"
  assumes v: "yaml_check_utf8 v" and e: "texts_ok y e" and Q: "\<And>e'. texts_ok (Some v) e' \<Longrightarrow> Q () e'"
  shows "wp (yaml_emitter_analyze_scalar v) Q erred e"
proof -
  let ?e = "e\<lparr>e_scalar := Some v\<rparr>"
  have t: "texts_ok (Some v) ?e" using v e by (simp add: texts_ok_def utf8_opt_def)
  obtain f where f: "while_chars (\<lambda>s f. returnM (analyze_char (e_unicode ?e) (length v) s f)) v (start_flags v)
      = (returnM f :: ('w yaml_emitter, scalar_flags) prog)"
    by (rule while_chars_pure [OF v])
  have "Q () (set_allowed f ?e)" using t by (intro Q) simp
  moreover have "Q () (?e\<lparr>e_multiline := False, e_flow_plain_allowed := False, e_block_plain_allowed := True,
      e_single_quoted_allowed := True, e_block_allowed := False\<rparr>)"
    using t by (intro Q) (simp add: texts_ok_def)
  ultimately show ?thesis using f by (auto simp: yaml_emitter_analyze_scalar_def wp_simps)
qed

lemma texts_ok_reset: "texts_ok None (e\<lparr>e_anchor := None, e_tag_handle := None, e_tag_suffix := None, e_scalar := None\<rparr>)"
  by (simp add: texts_ok_def utf8_opt_def)

lemma wp_analyze_event_texts:
  assumes ev: "event_utf8 (ev_data ev)" and td: "\<forall>td\<in>set (elems (e_tag_directives e)). td_utf8 td"
  shows "wp (yaml_emitter_analyze_event ev) (\<lambda>_. texts_ok (scalar_of ev)) erred e"
  unfolding yaml_emitter_analyze_event_def wp_seqM wp_modifyM
proof (cases "ev_data ev"; simp only: yaml_event_data.case)
  case (ScalarEvent anchor tag v plain quoted style)
  let ?e = "e\<lparr>e_anchor := None, e_tag_handle := None, e_tag_suffix := None, e_scalar := None\<rparr>"
  have u: "utf8_opt anchor" "utf8_opt tag" "yaml_check_utf8 v" using ev ScalarEvent by (auto simp: utf8_opt_def)
  show "wp (seqM (analyze_properties anchor tag (plain \<or> quoted)) (yaml_emitter_analyze_scalar v)) (\<lambda>_. texts_ok (scalar_of ev)) erred ?e"
    unfolding wp_seqM
    by (rule wp_analyze_properties [OF u(1,2) texts_ok_reset], use td in simp, rule wp_analyze_scalar [OF u(3)], assumption)
      (simp add: scalar_of_def ScalarEvent)
next
  case (AliasEvent anchor)
  show "wp (yaml_emitter_analyze_anchor anchor True) (\<lambda>_. texts_ok (scalar_of ev)) erred
      (e\<lparr>e_anchor := None, e_tag_handle := None, e_tag_suffix := None, e_scalar := None\<rparr>)"
    by (rule wp_analyze_anchor [OF _ texts_ok_reset]) (use ev AliasEvent in \<open>simp_all add: scalar_of_def\<close>)
next
  case (SequenceStartEvent anchor tag implicit style)
  show "wp (analyze_properties anchor tag implicit) (\<lambda>_. texts_ok (scalar_of ev)) erred
      (e\<lparr>e_anchor := None, e_tag_handle := None, e_tag_suffix := None, e_scalar := None\<rparr>)"
    by (rule wp_analyze_properties [OF _ _ texts_ok_reset]) (use ev td SequenceStartEvent in \<open>simp_all add: scalar_of_def utf8_opt_def\<close>)
next
  case (MappingStartEvent anchor tag implicit style)
  show "wp (analyze_properties anchor tag implicit) (\<lambda>_. texts_ok (scalar_of ev)) erred
      (e\<lparr>e_anchor := None, e_tag_handle := None, e_tag_suffix := None, e_scalar := None\<rparr>)"
    by (rule wp_analyze_properties [OF _ _ texts_ok_reset]) (use ev td MappingStartEvent in \<open>simp_all add: scalar_of_def utf8_opt_def\<close>)
qed (simp_all add: wp_returnM scalar_of_def texts_ok_reset)

lemma wp_analyze_event:
  assumes "event_utf8 (ev_data ev)" "\<forall>td\<in>set (elems (e_tag_directives e)). td_utf8 td"
  shows "wp (yaml_emitter_analyze_event ev) (\<lambda>_ e'. texts_ok (scalar_of ev) e' \<and> acore e' = acore e)
     (\<lambda>e'. erred e' \<and> acore e' = acore e) e"
  by (rule wp_framed [OF framed_acore_event wp_analyze_event_texts [OF assms]])

subsection \<open>One event of the queue\<close>

lemma ebalance_dequeue:
  assumes "queue_ok q" "items (e_events e) = ev # evs" "items q = evs" "queue_ok (e_events e)"
  shows "ebalance (freeE (yaml_event_delete ev) (e\<lparr>e_events := q\<rparr>)) = ebalance e"
  using assms by (simp add: freeE_def queue_ok_def)

lemma inv_texts_running:
  assumes "emitter_inv H D d0 e" "texts_ok x e'" "acore e' = acore e" "e_state e \<noteq> YAML_EMIT_STREAM_START_STATE"
  shows "\<exists>cs. emitted H D d0 cs e \<and> running H D d0 cs (e_events e) x (ebalance e) e'"
proof -
  obtain cs where "emitted H D d0 (cs @ []) e" using assms(1,4) by (auto simp: emitter_inv_def)
  moreover from this have "running H D d0 cs (e_events e) x (ebalance e) e'"
    using assms(1,2) acoreD [OF assms(3)] by (auto simp: emitter_inv_def running_def texts_ok_def simp del: append_Nil2)
  ultimately show ?thesis by auto
qed

lemma inv_acore:
  assumes "emitter_inv H D d0 e" "acore e' = acore e"
  shows "emitter_inv H D d0 e'"
  using assms acoreD [OF assms(2)] by (simp add: emitter_inv_def shape_def)

lemma freeE_simps [simp]:
  "e_events (freeE f e) = e_events e" "e_states (freeE f e) = e_states e" "e_indents (freeE f e) = e_indents e"
  "e_tag_directives (freeE f e) = e_tag_directives e" "e_state (freeE f e) = e_state e" "e_error (freeE f e) = e_error e"
  "emitted H D d0 cs (freeE f e) = emitted H D d0 cs e" "e_buffer (freeE f e) = e_buffer e"
  by (simp_all add: freeE_def)

lemma running_inv:
  assumes "running H D d0 cs q x B e" "shape e" "e_state e \<noteq> YAML_EMIT_STREAM_START_STATE" "queue_ok q'"
    "\<forall>ev\<in>set (items q'). event_utf8 (ev_data ev)"
  shows "emitter_inv H D d0 (freeE f (e\<lparr>e_events := q'\<rparr>))"
  using assms by (auto simp: emitter_inv_def running_def shape_def)

lemma after_node_not_start: "after_node fs \<noteq> AStart"
  by (cases fs rule: after_node.cases) simp_all

lemma accept_not_start: "accept a t = Some (e_abs s ss) \<Longrightarrow> s \<noteq> YAML_EMIT_STREAM_START_STATE"
  by (cases "(a, t)" rule: accept.cases) (auto simp: after_node_not_start)

primrec emit_all :: "yaml_event list \<Rightarrow> ('w yaml_emitter, unit) prog" where
  "emit_all [] = returnM ()"
| "emit_all (ev # evs) = seqM (yaml_emitter_emit ev) (emit_all evs)"

text \<open>
  A call that fails is told from the calls before it: the events before \<open>ev\<close> have been taken without an error, and the
  call with \<open>ev\<close> has failed.
\<close>

definition failing_call :: "yaml_event list \<Rightarrow> yaml_event list \<Rightarrow> yaml_event \<Rightarrow> 'w yaml_emitter \<Rightarrow> 'w yaml_emitter \<Rightarrow> 'w yaml_emitter \<Rightarrow> bool" where
  "failing_call evs pre ev e e1 e' \<longleftrightarrow> prefix (pre @ [ev]) evs \<and> emit_all pre e = Return () e1 \<and> yaml_emitter_emit ev e1 = Error e'"

lemma failing_call_Cons:
  assumes "yaml_emitter_emit x e = Return () e0" "failing_call evs pre ev e0 e1 e'"
  shows "failing_call (x # evs) (x # pre) ev e e1 e'"
  using assms by (simp add: failing_call_def seqM_def bindM_def)

context byte_sink
begin

definition emit_step :: "ystring \<Rightarrow> 'w yaml_emitter \<Rightarrow> 'w yaml_emitter \<Rightarrow> bool" where
  "emit_step d0 e e' \<longleftrightarrow> emitter_inv handler delivered d0 e' \<and> ebalance e' = ebalance e
     \<and> (\<exists>ev evs. items (e_events e) = ev # evs \<and> items (e_events e') = evs
       \<and> accept (e_abs (e_state e) (estk e)) (ev_type ev) = Some (e_abs (e_state e') (estk e')))"

lemma wp_dequeue_event:
  assumes e: "running handler delivered d0 cs q x B e" "shape e" "e_state e \<noteq> YAML_EMIT_STREAM_START_STATE"
    and q: "queue_ok q" "items q = ev # evs" "\<forall>ev\<in>set (items q). event_utf8 (ev_data ev)"
    and Q: "\<And>e'. emitter_inv handler delivered d0 e' \<Longrightarrow> ebalance e' = B \<Longrightarrow> items (e_events e') = evs
      \<Longrightarrow> e_state e' = e_state e \<Longrightarrow> estk e' = estk e \<Longrightarrow> Q () e'"
  shows "wp (bindM (zoomM e_events (\<lambda>q e. e\<lparr>e_events := q\<rparr>) DEQUEUE) (\<lambda>ev'. modifyM (freeE (yaml_event_delete ev')))) Q E e"
  unfolding wp_bindM wp_zoomM wp_modifyM
proof (rule wp_DEQUEUE)
  have qe: "e_events e = q" using e by (simp add: running_def)
  show "queue_ok (e_events e)" "items (e_events e) = ev # evs" using q qe by simp_all
  fix q'
  assume q': "queue_ok q'" "items q' = evs"
  show "Q () (freeE (yaml_event_delete ev) (e\<lparr>e_events := q'\<rparr>))"
  proof (rule Q)
    show "emitter_inv handler delivered d0 (freeE (yaml_event_delete ev) (e\<lparr>e_events := q'\<rparr>))"
      by (rule running_inv [OF e q'(1)]) (use q q' in simp)
    show "ebalance (freeE (yaml_event_delete ev) (e\<lparr>e_events := q'\<rparr>)) = B"
      using ebalance_dequeue [of q' e ev evs] q q' qe e by (simp add: running_def)
  qed (use q' in simp_all)
qed

lemma wp_emit_head:
  assumes e: "emitter_inv handler delivered d0 e" "items (e_events e) = ev # evs"
  shows "wp emit_head (\<lambda>_. emit_step d0 e) (fails (ebalance e)) e"
proof -
  let ?deq = "bindM (zoomM e_events (\<lambda>q e. e\<lparr>e_events := q\<rparr>) DEQUEUE) (\<lambda>ev'. modifyM (freeE (yaml_event_delete ev')))"
  have q: "queue_ok (e_events e)" "\<forall>ev\<in>set (items (e_events e)). event_utf8 (ev_data ev)" and sh: "shape e"
    and td: "\<forall>td\<in>set (elems (e_tag_directives e)). td_utf8 td"
    using e by (auto simp: emitter_inv_def)
  have evu: "event_utf8 (ev_data ev)" using q(2) e(2) by simp
  have step: "wp ?deq (\<lambda>_. emit_step d0 e) (fails (ebalance e)) e''"
    if "running handler delivered d0 cs (e_events e) (scalar_of ev) (ebalance e) e''" "shape e''" "e_state e'' \<noteq> YAML_EMIT_STREAM_START_STATE"
      "accept (e_abs (e_state e) (estk e)) (ev_type ev) = Some (e_abs (e_state e'') (estk e''))" for cs e''
    by (rule wp_dequeue_event [OF that(1,2,3) q(1) e(2) q(2)]) (use that e(2) in \<open>auto simp: emit_step_def\<close>)
  have "wp (seqM (yaml_emitter_state_machine ev) ?deq) (\<lambda>_. emit_step d0 e) (fails (ebalance e)) e'"
    if e': "texts_ok (scalar_of ev) e'" "acore e' = acore e" for e'
  proof (cases "e_state e = YAML_EMIT_STREAM_START_STATE")
    case True
    have i: "emitter_inv handler delivered d0 e'" by (rule inv_acore [OF e(1) e'(2)])
    have s: "e_state e' = YAML_EMIT_STREAM_START_STATE" "e_events e' = e_events e" "ebalance e' = ebalance e"
      using acoreD [OF e'(2)] True by simp_all
    show ?thesis unfolding wp_seqM yaml_emitter_state_machine_def wp_readM s yaml_emitter_state.case
      by (rule wpe_stream_start [OF i s(1) e'(1), unfolded s], rule step) (simp_all add: True)
  next
    case False
    obtain cs where r: "running handler delivered d0 cs (e_events e) (scalar_of ev) (ebalance e) e'"
      using inv_texts_running [OF e(1) e' False] by blast
    have s: "e_state e' = e_state e" "estk e' = estk e" "shape e'" using acoreD [OF e'(2)] sh by (simp_all add: shape_def)
    have x: "ev_type ev = YAML_SCALAR_EVENT \<Longrightarrow> scalar_of ev \<noteq> None" by (auto simp: scalar_of_def ev_type_def split: yaml_event_data.splits)
    show ?thesis unfolding wp_seqM
    proof (rule wpe_state_machine [OF r s(3) _ evu x])
      fix e''
      assume r': "running handler delivered d0 cs (e_events e) (scalar_of ev) (ebalance e) e''" "shape e''"
        and "accept (e_abs (e_state e') (estk e')) (ev_type ev) = Some (e_abs (e_state e'') (estk e''))"
      then have a: "accept (e_abs (e_state e) (estk e)) (ev_type ev) = Some (e_abs (e_state e'') (estk e''))"
        unfolding s(1,2) by simp
      show "wp ?deq (\<lambda>_. emit_step d0 e) (fails (ebalance e)) e''"
        by (rule step [OF r' accept_not_start [OF a] a])
    qed (use s False in simp_all)
  qed
  then have "wp (seqM (yaml_emitter_analyze_event ev) (seqM (yaml_emitter_state_machine ev) ?deq)) (\<lambda>_. emit_step d0 e) (fails (ebalance e)) e"
    unfolding wp_seqM [of "yaml_emitter_analyze_event ev"]
    by (intro wp_mono [OF wp_analyze_event [OF evu td]]) (use acoreD(6) in \<open>auto simp: fails_def\<close>)
  then show ?thesis unfolding emit_head_def wp_readM by (simp add: e(2))
qed

text \<open>The events at the head of the queue have been emitted, and the grammar accepts them in this order.\<close>

definition emitted_upto :: "ystring \<Rightarrow> 'w yaml_emitter \<Rightarrow> yaml_event list \<Rightarrow> int \<Rightarrow> 'w yaml_emitter \<Rightarrow> bool" where
  "emitted_upto d0 e evs B e' \<longleftrightarrow> emitter_inv handler delivered d0 e' \<and> ebalance e' = B
     \<and> (\<exists>pre. evs = pre @ items (e_events e') \<and> accepts (e_abs (e_state e) (estk e)) (map ev_type pre) = Some (e_abs (e_state e') (estk e')))"

lemma emitted_upto_step:
  assumes "emitted_upto d0 e evs B e1" "emit_step d0 e1 e2"
  shows "emitted_upto d0 e evs B e2"
proof -
  obtain pre where pre: "evs = pre @ items (e_events e1)"
      "accepts (e_abs (e_state e) (estk e)) (map ev_type pre) = Some (e_abs (e_state e1) (estk e1))"
    using assms(1) by (auto simp: emitted_upto_def)
  obtain ev evs' where ev: "items (e_events e1) = ev # evs'" "items (e_events e2) = evs'"
      "accept (e_abs (e_state e1) (estk e1)) (ev_type ev) = Some (e_abs (e_state e2) (estk e2))"
    using assms(2) by (auto simp: emit_step_def)
  have "accepts (e_abs (e_state e) (estk e)) (map ev_type (pre @ [ev])) = Some (e_abs (e_state e2) (estk e2))"
    using pre ev by (simp add: accepts_append)
  then show ?thesis using assms pre ev by (auto simp: emitted_upto_def emit_step_def intro!: exI [of _ "pre @ [ev]"])
qed

lemma wp_enqueue_event:
  assumes e: "emitter_inv handler delivered d0 e" and ev: "event_utf8 (ev_data ev)"
    and Q: "\<And>e'. emitted_upto d0 e (items (e_events e) @ [ev]) (ebalance e - event_blocks ev) e' \<Longrightarrow> Q () e'"
  shows "wp (enqueue_event ev) Q (fails (ebalance e - event_blocks ev)) e"
proof -
  have ok: "queue_ok (e_events e)" using e by (simp add: emitter_inv_def)
  have "wp (ENQUEUE ev) (\<lambda>_ (q, h). Q () (e\<lparr>e_events := q, e_mem := h\<rparr>))
     (\<lambda>(q, h). fails (ebalance e - event_blocks ev) (e\<lparr>e_events := q, e_mem := yaml_event_delete ev h, e_error := YAML_MEMORY_ERROR\<rparr>))
     (e_events e, e_mem e)"
  proof (rule wp_ENQUEUE [OF ok])
    fix q and h :: heap
    assume q: "queue_ok q" "items q = items (e_events e) @ [ev]" "live h = live (e_mem e)"
    have "emitter_inv handler delivered d0 (e\<lparr>e_events := q, e_mem := h\<rparr>)"
      using e q ev by (auto simp: emitter_inv_def shape_def fresh_def)
    moreover have "ebalance (e\<lparr>e_events := q, e_mem := h\<rparr>) = ebalance e - event_blocks ev"
      using q ok by (simp add: queue_ok_def)
    ultimately show "case (q, h) of (q, h) \<Rightarrow> Q () (e\<lparr>e_events := q, e_mem := h\<rparr>)"
      using q by (auto simp: emitted_upto_def intro!: Q)
  next
    fix h :: heap
    assume "live h = live (e_mem e)"
    then show "case (e_events e, h) of (q, h) \<Rightarrow> fails (ebalance e - event_blocks ev)
        (e\<lparr>e_events := q, e_mem := yaml_event_delete ev h, e_error := YAML_MEMORY_ERROR\<rparr>)"
      by (simp add: fails_def)
  qed
  then show ?thesis unfolding enqueue_event_def by (simp add: wp_def split: result.splits prod.splits)
qed

lemma wp_emitter_emit:
  assumes e: "emitter_inv handler delivered d0 e" and ev: "event_utf8 (ev_data ev)"
  shows "wp (yaml_emitter_emit ev)
     (\<lambda>_ e'. emitted_upto d0 e (items (e_events e) @ [ev]) (ebalance e - event_blocks ev) e' \<and> yaml_emitter_need_more_events e')
     (fails (ebalance e - event_blocks ev)) e"
  unfolding yaml_emitter_emit_def wp_seqM wp_readM
proof (rule wp_enqueue_event [OF e ev])
  let ?I = "emitted_upto d0 e (items (e_events e) @ [ev]) (ebalance e - event_blocks ev)"
  fix e1
  assume "?I e1"
  then show "wp (whileM (length (items (e_events e1))) (\<lambda>e. \<not> yaml_emitter_need_more_events e) emit_head)
     (\<lambda>_ e'. ?I e' \<and> yaml_emitter_need_more_events e') (fails (ebalance e - event_blocks ev)) e1"
  proof (rule wp_whileM [where I = ?I and \<mu> = "\<lambda>e. length (items (e_events e))"])
    fix e2
    assume e2: "?I e2" "\<not> yaml_emitter_need_more_events e2"
    then obtain x xs where x: "items (e_events e2) = x # xs" by (auto simp: yaml_emitter_need_more_events_def split: list.splits)
    then show "0 < length (items (e_events e2))" by simp
    have i: "emitter_inv handler delivered d0 e2" "ebalance e2 = ebalance e - event_blocks ev"
      using e2(1) by (simp_all add: emitted_upto_def)
    show "wp emit_head (\<lambda>_ e'. ?I e' \<and> length (items (e_events e')) < length (items (e_events e2))) (fails (ebalance e - event_blocks ev)) e2"
      by (rule wp_mono [OF wp_emit_head [OF i(1) x]])
        (use i(2) x emitted_upto_step [OF e2(1)] in \<open>auto simp: emit_step_def\<close>)
  qed auto
qed

text \<open>What the dumper asks of the emitter.\<close>

lemma inv_mem: "emitter_inv H D d0 (e\<lparr>e_mem := h\<rparr>) = emitter_inv H D d0 e"
  by (simp add: emitter_inv_def shape_def fresh_def)

lemma emitter_contract: "emit_contract yaml_emitter_emit (emitter_inv handler delivered d0)"
  unfolding emit_contract_def
  by (intro conjI allI impI inv_mem, rule wp_mono [OF wp_emitter_emit]) (auto simp: emitted_upto_def fails_def)

text \<open>A sequence of calls.\<close>

lemma emitted_upto_refl: "emitter_inv handler delivered d0 e \<Longrightarrow> emitted_upto d0 e (items (e_events e)) (ebalance e) e"
  by (simp add: emitted_upto_def)

lemma emitted_upto_trans:
  assumes "emitted_upto d0 e evs B e1" "emitted_upto d0 e1 (items (e_events e1) @ evs') B' e2"
  shows "emitted_upto d0 e (evs @ evs') B' e2"
proof -
  obtain pre where pre: "evs = pre @ items (e_events e1)"
      "accepts (e_abs (e_state e) (estk e)) (map ev_type pre) = Some (e_abs (e_state e1) (estk e1))"
    using assms(1) by (auto simp: emitted_upto_def)
  obtain pre' where pre': "items (e_events e1) @ evs' = pre' @ items (e_events e2)"
      "accepts (e_abs (e_state e1) (estk e1)) (map ev_type pre') = Some (e_abs (e_state e2) (estk e2))"
    using assms(2) by (auto simp: emitted_upto_def)
  show ?thesis using assms(2) pre pre' by (auto simp: emitted_upto_def accepts_append intro!: exI [of _ "pre @ pre'"])
qed

lemma wp_emit_all:
  assumes "emitter_inv handler delivered d0 e" "\<forall>ev\<in>set evs. event_utf8 (ev_data ev)" "yaml_emitter_need_more_events e"
  shows "wp (emit_all evs)
     (\<lambda>_ e'. emitted_upto d0 e (items (e_events e) @ evs) (ebalance e - sum_list (map event_blocks evs)) e' \<and> yaml_emitter_need_more_events e')
     (\<lambda>e'. erred e' \<and> (\<exists>pre ev e1. failing_call evs pre ev e e1 e' \<and> ebalance e' = ebalance e - sum_list (map event_blocks (pre @ [ev])))) e"
  using assms
proof (induction evs arbitrary: e)
  case Nil
  then show ?case by (simp add: wp_returnM emitted_upto_refl)
next
  case (Cons ev evs)
  let ?B = "ebalance e - event_blocks ev"
  show ?case unfolding emit_all.simps wp_seqM
  proof (rule wp_mono [OF wp_emitter_emit [OF Cons.prems(1)]])
    fix u e1
    assume run: "yaml_emitter_emit ev e = Return u e1"
      and e1: "emitted_upto d0 e (items (e_events e) @ [ev]) ?B e1 \<and> yaml_emitter_need_more_events e1"
    then have i: "emitter_inv handler delivered d0 e1" "ebalance e1 = ?B" by (auto simp: emitted_upto_def)
    show "wp (emit_all evs)
       (\<lambda>_ e'. emitted_upto d0 e (items (e_events e) @ ev # evs) (ebalance e - sum_list (map event_blocks (ev # evs))) e'
          \<and> yaml_emitter_need_more_events e')
       (\<lambda>e'. erred e' \<and> (\<exists>pre ev' e2. failing_call (ev # evs) pre ev' e e2 e'
          \<and> ebalance e' = ebalance e - sum_list (map event_blocks (pre @ [ev'])))) e1"
    proof (rule wp_mono [OF Cons.IH [OF i(1)]])
      fix u e2
      assume "emitted_upto d0 e1 (items (e_events e1) @ evs) (ebalance e1 - sum_list (map event_blocks evs)) e2 \<and> yaml_emitter_need_more_events e2"
      then show "emitted_upto d0 e (items (e_events e) @ ev # evs) (ebalance e - sum_list (map event_blocks (ev # evs))) e2
          \<and> yaml_emitter_need_more_events e2"
        using emitted_upto_trans [of d0 e "items (e_events e) @ [ev]" ?B e1 evs] e1 i(2) by (simp add: algebra_simps)
    next
      fix e2
      assume "erred e2 \<and> (\<exists>pre ev' e3. failing_call evs pre ev' e1 e3 e2 \<and> ebalance e2 = ebalance e1 - sum_list (map event_blocks (pre @ [ev'])))"
      then obtain pre ev' e3 where f: "erred e2" "failing_call evs pre ev' e1 e3 e2"
          "ebalance e2 = ebalance e1 - sum_list (map event_blocks (pre @ [ev']))" by blast
      have "failing_call (ev # evs) (ev # pre) ev' e e3 e2" by (rule failing_call_Cons [OF _ f(2)]) (use run in simp)
      moreover have "ebalance e2 = ebalance e - sum_list (map event_blocks ((ev # pre) @ [ev']))" using f(3) i(2) by simp
      ultimately show "erred e2 \<and> (\<exists>pre ev' e3. failing_call (ev # evs) pre ev' e e3 e2
          \<and> ebalance e2 = ebalance e - sum_list (map event_blocks (pre @ [ev'])))" using f(1) by blast
    qed (use Cons.prems e1 in auto)
  next
    fix e1
    assume "yaml_emitter_emit ev e = Error e1" "fails ?B e1"
    then show "erred e1 \<and> (\<exists>pre ev' e2. failing_call (ev # evs) pre ev' e e2 e1
        \<and> ebalance e1 = ebalance e - sum_list (map event_blocks (pre @ [ev'])))"
      by (auto simp: fails_def failing_call_def returnM_def intro!: exI [of _ "[]"])
  qed (use Cons.prems in simp)
qed

end

end
