(* ===== verification/Emitter_Props.thy ===== *)
theory Emitter_Props
  imports Emitter_Runs Objects "HOL-Library.Code_Target_Nat"
begin

text \<open>
  The emitter as a client sees it: created by \<open>yaml_emitter_initialize\<close>, connected to an output string, fed with
  events or, through \<open>yaml_emitter_dump\<close>, with documents.
\<close>

subsection \<open>The emitter after its creation\<close>

lemma emitter_created:
  assumes "yaml_emitter_initialize e = Return () e1" "yaml_emitter_set_output_string room e1 = Return () e2"
  shows "emitter_inv yaml_string_write_handler so_bytes [] (yaml_emitter.truncate e2)" "items (e_events (yaml_emitter.truncate e2)) = []"
    "ebalance (yaml_emitter.truncate e2) = live (e_mem e)" "dumper_idle e2" "\<not> e_opened e2 \<and> \<not> e_closed e2"
    "e_state (yaml_emitter.truncate e2) = YAML_EMIT_STREAM_START_STATE"
proof -
  let ?P = "\<lambda>e'. e_write_handler e' = None \<and> e_buffer e' = \<lparr>b_data = [], b_pos = 0, b_cap = OUTPUT_BUFFER_SIZE\<rparr>
      \<and> e_raw_buffer e' = \<lparr>b_data = [], b_pos = 0, b_cap = OUTPUT_RAW_BUFFER_SIZE\<rparr> \<and> e_state e' = YAML_EMIT_STREAM_START_STATE
      \<and> stack_ok (e_states e') \<and> elems (e_states e') = [] \<and> stack_ok (e_indents e') \<and> elems (e_indents e') = []
      \<and> stack_ok (e_tag_directives e') \<and> elems (e_tag_directives e') = [] \<and> queue_ok (e_events e') \<and> items (e_events e') = []
      \<and> live (e_mem e') = live (e_mem e) + 6 \<and> dumper_idle e' \<and> \<not> e_opened e' \<and> \<not> e_closed e'"
  have "wp yaml_emitter_initialize (\<lambda>_. ?P) (\<lambda>_. True) e"
    unfolding yaml_emitter_initialize_def
    by (auto simp: wp_simps object_simps zero_emitter_def dumper_idle_def intro!: wp_BUFFER_INIT wp_QUEUE_INIT wp_STACK_INIT)
  from wp_Return [OF this assms(1)] have P: "?P e1" .
  have e2: "e2 = e1\<lparr>e_write_handler := Some yaml_string_write_handler, e_write_handler_data := \<lparr>so_size = room, so_bytes = []\<rparr>\<rparr>"
    using assms(2) P by (simp add: yaml_emitter_set_output_string_def prog_defs)
  show "emitter_inv yaml_string_write_handler so_bytes [] (yaml_emitter.truncate e2)"
    using P by (simp add: e2 yaml_emitter.truncate_def emitter_inv_def shape_def first_states_def fresh_def)
  show "ebalance (yaml_emitter.truncate e2) = live (e_mem e)"
    using P by (simp add: e2 yaml_emitter.truncate_def ebalance_def core_blocks_def queue_ok_def stack_ok_def object_simps)
  show "items (e_events (yaml_emitter.truncate e2)) = []" "dumper_idle e2" "\<not> e_opened e2 \<and> \<not> e_closed e2"
    "e_state (yaml_emitter.truncate e2) = YAML_EMIT_STREAM_START_STATE"
    using P by (auto simp: e2 yaml_emitter.truncate_def dumper_idle_def)
qed

subsection \<open>Nothing is held back at the end of a document\<close>

lemma accept_docs:
  assumes "accept b t = Some a" "a = ADocs \<or> a = AEnd"
  shows "b = AStart \<or> b = ADocs \<or> b = ADocEnd"
proof -
  have "after_node fs \<noteq> ADocs \<and> after_node fs \<noteq> AEnd" for fs by (cases fs rule: after_node.cases) simp_all
  then show ?thesis using assms by (cases "(b, t)" rule: accept.cases) auto
qed

lemma accept_in_mapping:
  assumes "accept (ANode (AtKey # fs)) t = Some b" "b = AStart \<or> b = ADocs \<or> b = ADocEnd"
  shows "t = YAML_MAPPING_END_EVENT"
  using assms by (cases t) auto

lemma accept_opened:
  "accept b YAML_DOCUMENT_START_EVENT = Some c \<Longrightarrow> c = ANode []"
  "accept b YAML_SEQUENCE_START_EVENT = Some c \<Longrightarrow> \<exists>fs. c = ANode (InSeq # fs)"
  "accept b YAML_MAPPING_START_EVENT = Some c \<Longrightarrow> \<exists>fs. c = ANode (AtKey # fs)"
    apply (cases "(b, YAML_DOCUMENT_START_EVENT)" rule: accept.cases; auto)
   apply (cases "(b, YAML_SEQUENCE_START_EVENT)" rule: accept.cases; auto)
  apply (cases "(b, YAML_MAPPING_START_EVENT)" rule: accept.cases; auto)
  done

lemma complete_queue_empty:
  assumes more: "yaml_emitter_need_more_events e" and acc: "accepts b (map ev_type (items (e_events e))) = Some a" "a = ADocs \<or> a = AEnd"
  shows "items (e_events e) = []"
proof (rule ccontr)
  assume "items (e_events e) \<noteq> []"
  then obtain h q where q: "items (e_events e) = h # q" by (cases "items (e_events e)") auto
  obtain c where c: "accept b (ev_type h) = Some c" "accepts c (map ev_type q) = Some a"
    using acc(1) q by (auto simp: Option.bind_eq_Some_conv split: option.splits)
  note n = more [unfolded yaml_emitter_need_more_events_def q list.case accumulate_def]
  consider "ev_type h = YAML_DOCUMENT_START_EVENT" | "ev_type h = YAML_SEQUENCE_START_EVENT" | "ev_type h = YAML_MAPPING_START_EVENT"
    using n by (cases "ev_type h") auto
  then show False
  proof cases
    case 1
    then show ?thesis using n c accept_opened(1) acc(2) by auto
  next
    case 2
    then obtain fs where fs: "c = ANode (InSeq # fs)" using c(1) accept_opened(2) [of b c] by auto
    have "q = [] \<or> (\<exists>x. q = [x])" using n 2 by (cases q; cases "tl q") auto
    then show ?thesis using c fs acc(2) by (auto dest!: accept_docs split: option.splits)
  next
    case 3
    then obtain fs where fs: "c = ANode (AtKey # fs)" using c(1) accept_opened(3) [of b c] by auto
    have "q = [] \<or> (\<exists>x. q = [x]) \<or> (\<exists>x y. q = [x, y])" using n 3 by (cases q; cases "tl q"; cases "tl (tl q)") auto
    moreover have False if xy: "q = [x, y]" for x y
    proof -
      obtain d where d: "accept (ANode (AtKey # fs)) (ev_type x) = Some d" "accept d (ev_type y) = Some a"
        using c(2) xy fs by (auto split: option.splits)
      then have "ev_type x = YAML_MAPPING_END_EVENT" using accept_docs [OF d(2) acc(2)] accept_in_mapping [OF d(1)] by blast
      then show False using n 3 xy by (simp add: level_change_def)
    qed
    ultimately show ?thesis using c fs acc(2) by (auto dest!: accept_docs split: option.splits)
  qed
qed

lemma need_more_few:
  assumes "yaml_emitter_need_more_events e"
  shows "length (items (e_events e)) \<le> 3"
  using assms by (auto simp: yaml_emitter_need_more_events_def accumulate_def split: list.splits yaml_event_type.splits)

subsection \<open>The emitter below the dumper\<close>

context byte_sink
begin

lemma emits_upto:
  assumes "emits yaml_emitter_emit e xs e'" "emitter_inv handler delivered d0 e" "yaml_emitter_need_more_events e"
  shows "\<exists>evs B. map ev_data evs = xs \<and> emitted_upto d0 e (items (e_events e) @ evs) B e' \<and> yaml_emitter_need_more_events e'"
  using assms
proof (induction rule: emits.induct)
  case (emits_Nil e h)
  have "emitted_upto d0 e (items (e_events e)) (ebalance (e\<lparr>e_mem := h\<rparr>)) (e\<lparr>e_mem := h\<rparr>)"
    using emits_Nil(1) by (simp add: emitted_upto_def inv_mem)
  moreover have "yaml_emitter_need_more_events (e\<lparr>e_mem := h\<rparr>)" using emits_Nil(2) by (cases "items (e_events e)") (simp_all add: yaml_emitter_need_more_events_def)
  ultimately show ?case by (intro exI [of _ "[]"]) auto
next
  case (emits_Cons x h e e1 xs e2)
  let ?e = "e\<lparr>e_mem := h\<rparr>" and ?ev = "EVENT_INIT x null_mark null_mark"
  have "emitter_inv handler delivered d0 ?e" using emits_Cons.prems(1) by (simp add: inv_mem)
  note step = wp_Return [OF wp_emitter_emit [OF this, of ?ev] emits_Cons.hyps(2)]
  have e1: "emitted_upto d0 ?e (items (e_events ?e) @ [?ev]) (ebalance ?e - event_blocks ?ev) e1" "yaml_emitter_need_more_events e1"
    using step emits_Cons.hyps(1) by (simp_all add: EVENT_INIT_def)
  then have e1': "emitted_upto d0 e (items (e_events e) @ [?ev]) (ebalance ?e - event_blocks ?ev) e1" by (simp add: emitted_upto_def)
  have "emitter_inv handler delivered d0 e1" using e1(1) by (simp add: emitted_upto_def)
  then obtain evs B where evs: "map ev_data evs = xs" "emitted_upto d0 e1 (items (e_events e1) @ evs) B e2" "yaml_emitter_need_more_events e2"
    using emits_Cons.IH e1(2) by auto
  from emitted_upto_trans [OF e1' evs(2)] evs(1,3) show ?case
    by (intro exI [of _ "?ev # evs"] exI [of _ B]) (simp add: EVENT_INIT_def)
qed

lemma emits_complete:
  assumes "emits yaml_emitter_emit e xs e'" "emitter_inv handler delivered d0 e"
    and "items (e_events e) = []" "accepts (e_abs (e_state e) (estk e)) (map event_data_type xs) = Some a" "a = ADocs \<or> a = AEnd"
  shows "items (e_events e') = [] \<and> e_abs (e_state e') (estk e') = a \<and> emitter_inv handler delivered d0 e'"
proof -
  have "yaml_emitter_need_more_events e" using assms(3) by (simp add: yaml_emitter_need_more_events_def)
  then obtain evs B where evs: "map ev_data evs = xs" "emitted_upto d0 e evs B e'" "yaml_emitter_need_more_events e'"
    using emits_upto [OF assms(1,2)] assms(3) by auto
  have t: "map event_data_type xs = map ev_type evs" using evs(1) by (auto simp: ev_type_def)
  obtain pre where pre: "evs = pre @ items (e_events e')" "accepts (e_abs (e_state e) (estk e)) (map ev_type pre) = Some (e_abs (e_state e') (estk e'))"
    using evs(2) by (auto simp: emitted_upto_def)
  have acc: "accepts (e_abs (e_state e') (estk e')) (map ev_type (items (e_events e'))) = Some a"
    using assms(4) pre unfolding t pre(1) by (simp add: accepts_append)
  have "items (e_events e') = []" by (rule complete_queue_empty [OF evs(3) acc assms(5)])
  then show ?thesis using acc evs(2) by (simp add: emitted_upto_def)
qed

end

subsection \<open>The choice of a style\<close>

lemma choose_style_allowed:
  fixes e :: "'w yaml_emitter" and b p style
  defines "s \<equiv> choose_style b p style e"
  shows "s \<noteq> YAML_ANY_SCALAR_STYLE"
    "s = YAML_PLAIN_SCALAR_STYLE \<Longrightarrow> \<not> e_canonical e \<and> (if e_flow_level e = 0 then e_block_plain_allowed e else e_flow_plain_allowed e)
         \<and> \<not> (e_simple_key_context e \<and> e_multiline e)"
    "s = YAML_SINGLE_QUOTED_SCALAR_STYLE \<Longrightarrow> e_single_quoted_allowed e"
    "s = YAML_LITERAL_SCALAR_STYLE \<or> s = YAML_FOLDED_SCALAR_STYLE \<Longrightarrow>
         e_block_allowed e \<and> e_flow_level e = 0 \<and> \<not> e_simple_key_context e"
  unfolding s_def choose_style_def Let_def
  by (cases "e_canonical e"; cases "e_simple_key_context e"; cases "e_multiline e"; cases "e_flow_level e = 0"; cases style; simp split: if_splits)+

subsection \<open>Properties\<close>

definition raw_emitter :: "bool list \<Rightarrow> string_output yaml_dumper" where
  "raw_emitter bs = \<lparr>e_mem = \<lparr>outcomes = bs, live = 0\<rparr>, e_error = YAML_NO_ERROR, e_problem = [], e_write_handler = None,
     e_write_handler_data = \<lparr>so_size = 0, so_bytes = []\<rparr>, e_buffer = null_buffer, e_raw_buffer = null_buffer,
     e_encoding = YAML_ANY_ENCODING, e_canonical = False, e_best_indent = 0, e_best_width = 0,
     e_unicode = False, e_line_break = YAML_ANY_BREAK, e_states = null_stack sizeof_int,
     e_state = YAML_EMIT_STREAM_START_STATE, e_events = null_queue sizeof_event,
     e_indents = null_stack sizeof_int, e_tag_directives = null_stack sizeof_tag_directive,
     e_indent = 0, e_flow_level = 0, e_root_context = False, e_sequence_context = False, e_mapping_context = False,
     e_simple_key_context = False, e_line = 0, e_column = 0, e_whitespace = False, e_indention = False,
     e_open_ended = 0, e_anchor = None, e_alias = False, e_tag_handle = None, e_tag_suffix = None,
     e_scalar = None, e_multiline = False, e_flow_plain_allowed = False, e_block_plain_allowed = False,
     e_single_quoted_allowed = False, e_block_allowed = False, e_style = YAML_ANY_SCALAR_STYLE,
     e_opened = False, e_closed = False, e_anchors = None, e_last_anchor_id = 0, e_document = None\<rparr>"

definition sample_stream :: "yaml_event list" where
  "sample_stream = map (\<lambda>x. EVENT_INIT x null_mark null_mark)
     [StreamStartEvent YAML_UTF8_ENCODING, DocumentStartEvent None [] True,
      SequenceStartEvent None None True YAML_BLOCK_SEQUENCE_STYLE,
      ScalarEvent (Some (lit ''x'')) None (lit ''abc'') True True YAML_PLAIN_SCALAR_STYLE, AliasEvent (lit ''x''),
      SequenceEndEvent, DocumentEndEvent True, StreamEndEvent]"

definition sample_created :: "(string_output yaml_dumper, unit) prog" where
  "sample_created = seqM yaml_emitter_initialize (yaml_emitter_set_output_string 100)"

definition sample_run :: "ystring option" where
  "sample_run = (case sample_created (raw_emitter []) of
     Return _ e \<Rightarrow> (case emit_all sample_stream (yaml_emitter.truncate e) of
        Return _ e' \<Rightarrow> Some (so_bytes (e_write_handler_data e')) | _ \<Rightarrow> None) | _ \<Rightarrow> None)"

lemma sample_run: "sample_run = Some (lit ''- &x abc'' @ [0x0A] @ lit ''- *x'' @ [0x0A])"
  by code_simp

lemma sample_emission:
  obtains e1 e2 e' where "yaml_emitter_initialize (raw_emitter []) = Return () e1" "yaml_emitter_set_output_string 100 e1 = Return () e2"
    "emit_all sample_stream (yaml_emitter.truncate e2) = Return () e'"
    "so_bytes (e_write_handler_data e') = lit ''- &x abc'' @ [0x0A] @ lit ''- *x'' @ [0x0A]"
  using sample_run unfolding sample_run_def sample_created_def seqM_def bindM_def by (auto split: result.splits)

lemma sample_stream_ok:
  "\<forall>ev\<in>set sample_stream. event_utf8 (ev_data ev)" "accepts AStart (map ev_type sample_stream) = Some AEnd"
  by (auto simp: sample_stream_def EVENT_INIT_def ev_type_def utf8_opt_def lit_def intro!: check_utf8_ascii simp del: yaml_check_utf8.simps)

text \<open>C18: The emitter follows the grammar of events: whatever events with valid UTF-8 strings a created emitter is given,
  if all calls return 1, the grammar accepts those that have left the queue, in the order in which they were given,
  and at most three events wait in the queue.\<close>

theorem emitter_follows_grammar:
  assumes "yaml_emitter_initialize e = Return () e1" "yaml_emitter_set_output_string room e1 = Return () e2"
    and "\<forall>ev\<in>set evs. event_utf8 (ev_data ev)" "emit_all evs (yaml_emitter.truncate e2) = Return () e'"
  shows "\<exists>pre. evs = pre @ items (e_events e') \<and> length (items (e_events e')) \<le> 3
    \<and> accepts AStart (map ev_type pre) = Some (e_abs (e_state e') (estk e'))"
proof -
  note c = emitter_created [OF assms(1,2)]
  have "yaml_emitter_need_more_events (yaml_emitter.truncate e2)" using c(2) by (simp add: yaml_emitter_need_more_events_def)
  from wp_Return [OF string_sink.wp_emit_all [OF c(1) assms(3) this] assms(4)] show ?thesis
    using c(2,6) by (auto simp: string_sink.emitted_upto_def need_more_few)
qed

theorem emitter_follows_grammar_witness:
  "\<exists>e' pre. sample_stream = pre @ items (e_events (e' :: string_output yaml_emitter)) \<and> length (items (e_events e')) \<le> 3
    \<and> accepts AStart (map ev_type pre) = Some (e_abs (e_state e') (estk e'))"
  by (rule sample_emission) (use emitter_follows_grammar sample_stream_ok(1) in blast)




text \<open>C19: Whatever events with valid UTF-8 strings a created emitter is given, it does not fault (no access out of
  bounds, no pop from an empty stack, no failed assertion) and every call ends. No block is lost: what is live is what the
  emitter holds, less the blocks of the events that it was given, which it has taken over. If a call fails, it has set the
  error, and the same holds for the events up to the one of the failing call: its blocks are in the queue or freed, too.\<close>

theorem emitter_safe:
  assumes "yaml_emitter_initialize e = Return () e1" "yaml_emitter_set_output_string room e1 = Return () e2"
    and "\<forall>ev\<in>set evs. event_utf8 (ev_data ev)"
  shows "wp (emit_all evs)
     (\<lambda>_ e'. live (e_mem e') = live (e_mem e) + core_blocks e' - sum_list (map event_blocks evs))
     (\<lambda>e'. e_error e' \<noteq> YAML_NO_ERROR
        \<and> (\<exists>pre ev post e3. evs = pre @ ev # post \<and> emit_all pre (yaml_emitter.truncate e2) = Return () e3
           \<and> yaml_emitter_emit ev e3 = Error e'
           \<and> live (e_mem e') = live (e_mem e) + core_blocks e' - sum_list (map event_blocks (pre @ [ev]))))
     (yaml_emitter.truncate e2)"
proof -
  note c = emitter_created [OF assms(1,2)]
  have "yaml_emitter_need_more_events (yaml_emitter.truncate e2)" using c(2) by (simp add: yaml_emitter_need_more_events_def)
  note run = string_sink.wp_emit_all [OF c(1) assms(3) this]
  have b: "live (e_mem e') = ebalance e' + core_blocks e'" for e' :: "string_output yaml_emitter" by (simp add: ebalance_def)
  show ?thesis by (rule wp_mono [OF run]) (fastforce simp: string_sink.emitted_upto_def b c(3) failing_call_def prefix_def)+
qed

theorem emitter_safe_witness:
  "\<exists>e2. wp (emit_all sample_stream) (\<lambda>_ e'. live (e_mem e') = core_blocks e' - 3) (\<lambda>e'. e_error e' \<noteq> YAML_NO_ERROR)
     (yaml_emitter.truncate (e2 :: string_output yaml_dumper))"
proof (rule sample_emission)
  fix e1 e2
  assume r: "yaml_emitter_initialize (raw_emitter []) = Return () e1" "yaml_emitter_set_output_string 100 e1 = Return () e2"
  have "sum_list (map event_blocks sample_stream) = 3" "live (e_mem (raw_emitter [])) = 0"
    by (simp_all add: sample_stream_def raw_emitter_def event_blocks_def event_data_blocks_def EVENT_INIT_def tag_directives_blocks_def)
  with emitter_safe [OF r sample_stream_ok(1)] show ?thesis by (intro exI [of _ e2]) (auto elim!: wp_mono)
qed

text \<open>C20: The dumper with the emitter below it: \<open>yaml_emitter_dump\<close> on a well-formed document with valid UTF-8 strings does
  not fault; on both ways out all blocks of the document are freed, and deleting the emitter then frees the rest; if it
  returns 1 no event of the document is left in the queue, and the emitter stands between two documents, or at its end
  if the document was empty.\<close>

theorem dump_with_emitter:
  assumes "yaml_emitter_initialize e = Return () e1" "yaml_emitter_set_output_string room e1 = Return () e2"
    and "doc_ok d" "length (doc_nodes d) \<le> INT_MAX" "doc_utf8 d"
  shows "wp (yaml_emitter_dump yaml_emitter_emit d)
    (\<lambda>_ e'. items (e_events e') = [] \<and> e_abs (e_state e') (elems (e_states e')) = (if doc_nodes d = [] then AEnd else ADocs)
       \<and> live (e_mem (yaml_emitter_delete e')) = live (e_mem e) - document_blocks d)
    (\<lambda>e'. live (e_mem (yaml_emitter_delete e')) = live (e_mem e) - document_blocks d) e2"
proof -
  note c = emitter_created [OF assms(1,2)]
  have del: "live (e_mem (yaml_emitter_delete e')) = ebalance (yaml_emitter.truncate e')" if "dumper_idle e'" for e' :: "string_output yaml_dumper"
    using that by (simp add: live_yaml_emitter_delete dumper_idle_def emitter_blocks_def ebalance_def core_blocks_def yaml_emitter.truncate_def)
  have k: "estk (yaml_emitter.truncate e2) = []" using c(1,6) by (simp add: emitter_inv_def shape_def first_states_def)
  have acc: "accepts (e_abs (e_state (yaml_emitter.truncate e2)) (estk (yaml_emitter.truncate e2)))
      (map event_data_type (all_events (e_opened e2) (e_closed e2) d)) = Some (if doc_nodes d = [] then AEnd else ADocs)"
    using all_events_ok [OF assms(3), of "e_closed e2" "e_opened e2"] c(5,6) by (auto simp: dump_state_def)
  show ?thesis
  proof (rule wp_mono [OF dump_emits_document [OF string_sink.emitter_contract assms(3-5) c(4,1)]])
    fix u e'
    assume r: "emits yaml_emitter_emit (yaml_emitter.truncate e2) (all_events (e_opened e2) (e_closed e2) d) (yaml_emitter.truncate e')
       \<and> e_opened e' \<and> (e_closed e' \<longleftrightarrow> e_closed e2 \<or> doc_nodes d = []) \<and> dumper_idle e' \<and> e_document e' = None
       \<and> ebalance (yaml_emitter.truncate e') = ebalance (yaml_emitter.truncate e2) - document_blocks d"
    then have "items (e_events (yaml_emitter.truncate e')) = []
        \<and> e_abs (e_state (yaml_emitter.truncate e')) (estk (yaml_emitter.truncate e')) = (if doc_nodes d = [] then AEnd else ADocs)"
      using string_sink.emits_complete [OF _ c(1,2) acc] by simp
    then show "items (e_events e') = [] \<and> e_abs (e_state e') (elems (e_states e')) = (if doc_nodes d = [] then AEnd else ADocs)
       \<and> live (e_mem (yaml_emitter_delete e')) = live (e_mem e) - document_blocks d"
      using r del c(3) by (simp add: yaml_emitter.truncate_def)
  qed (use del c(3) in auto)
qed

theorem dump_with_emitter_witness:
  "\<exists>e2. wp (yaml_emitter_dump yaml_emitter_emit shared_document)
    (\<lambda>_ e'. items (e_events e') = [] \<and> live (e_mem (yaml_emitter_delete e')) = - 5) (\<lambda>e'. live (e_mem (yaml_emitter_delete e')) = - 5)
    (e2 :: string_output yaml_dumper)"
proof (rule sample_emission)
  fix e1 e2
  assume r: "yaml_emitter_initialize (raw_emitter []) = Return () e1" "yaml_emitter_set_output_string 100 e1 = Return () e2"
  have "document_blocks shared_document = 5" "live (e_mem (raw_emitter [])) = 0"
    by (simp_all add: document_blocks_def shared_document_def NODE_INIT_def node_blocks_def null_document_def tag_directives_blocks_def raw_emitter_def)
  with dump_with_emitter [OF r shared_document(1,3,4)] show ?thesis by (intro exI [of _ e2]) (auto elim!: wp_mono)
qed

text \<open>C22: The style in which a scalar is written is one that its analysis allows in the context.\<close>

theorem scalar_style_allowed:
  assumes "yaml_emitter_select_scalar_style plain_implicit quoted_implicit style e = Return () e'"
  shows "e_style e' \<noteq> YAML_ANY_SCALAR_STYLE
    \<and> (e_style e' = YAML_PLAIN_SCALAR_STYLE \<longrightarrow> \<not> e_canonical e \<and> (if e_flow_level e = 0 then e_block_plain_allowed e else e_flow_plain_allowed e)
         \<and> \<not> (e_simple_key_context e \<and> e_multiline e))
    \<and> (e_style e' = YAML_SINGLE_QUOTED_SCALAR_STYLE \<longrightarrow> e_single_quoted_allowed e)
    \<and> (e_style e' = YAML_LITERAL_SCALAR_STYLE \<or> e_style e' = YAML_FOLDED_SCALAR_STYLE \<longrightarrow>
         e_block_allowed e \<and> e_flow_level e = 0 \<and> \<not> e_simple_key_context e)"
proof -
  have "e_style e' = choose_style (e_tag_handle e = None \<and> e_tag_suffix e = None) plain_implicit style e"
    using assms by (auto simp: yaml_emitter_select_scalar_style_def Let_def prog_defs yaml_emitter_set_emitter_error_def whenM_def
        split: if_splits)
  then show ?thesis using choose_style_allowed by metis
qed

theorem scalar_style_allowed_witness:
  "\<exists>e'. yaml_emitter_select_scalar_style True True YAML_LITERAL_SCALAR_STYLE (yaml_emitter.truncate (raw_emitter [])) = Return () e'
     \<and> e_style e' = YAML_DOUBLE_QUOTED_SCALAR_STYLE"
proof -
  let ?e = "yaml_emitter.truncate (raw_emitter [])"
  have "yaml_emitter_select_scalar_style True True YAML_LITERAL_SCALAR_STYLE ?e = Return () (?e\<lparr>e_style := YAML_DOUBLE_QUOTED_SCALAR_STYLE\<rparr>)"
    by (simp add: raw_emitter_def yaml_emitter.truncate_def yaml_emitter_select_scalar_style_def choose_style_def prog_defs whenM_def)
  with scalar_style_allowed [OF this] show ?thesis by simp
qed

end
