(* ===== verification/Scanner.thy ===== *)
theory Scanner
  imports Strings Parser
begin

text \<open>
  \<open>scanner.c\<close>: from characters to tokens.  Programs run on the scanner's part of \<open>yaml_parser_t\<close> and whatever is
  laid over it.  The text from \<open>buffer.pointer\<close> on is \<open>b_rest (p_buffer p)\<close>; a macro that looks at \<open>n\<close> characters is
  used through \<open>lookM n\<close>, which is a fault unless \<open>n\<close> characters have been cached or the end of the input has been
  reached.  The local \<open>yaml_string_t\<close> variables of a function are values of type \<open>ystr\<close>, each one live block; the
  code at an \<open>error:\<close> label, which frees them, is the second argument of \<open>cleanupM\<close>.
\<close>

unbundle bit_operations_syntax

subsection \<open>Loops\<close>

text \<open>
  A loop whose body gets the local variables: \<open>Inl\<close> is another round, \<open>Inr\<close> is \<open>break\<close>.  A loop that does not end
  is a fault.
\<close>

partial_function (option) loop_result ::
    "('l \<Rightarrow> ('s, 'l + 'b) prog) \<Rightarrow> 'l \<Rightarrow> 's \<Rightarrow> ('s, 'b) result option" where
  "loop_result body l s = (case body l s of
     Return r s' \<Rightarrow> (case r of Inl l' \<Rightarrow> loop_result body l' s' | Inr b \<Rightarrow> Some (Return b s'))
   | Error s' \<Rightarrow> Some (Error s')
   | Fault \<Rightarrow> Some Fault)"

declare loop_result.simps [code]

definition loopM :: "('l \<Rightarrow> ('s, 'l + 'b) prog) \<Rightarrow> 'l \<Rightarrow> ('s, 'b) prog" where
  "loopM body l s = (case loop_result body l s of Some r \<Rightarrow> r | None \<Rightarrow> Fault)"

abbreviation againM :: "'l \<Rightarrow> ('s, 'l + 'b) prog" where
  "againM l \<equiv> returnM (Inl l)"

abbreviation breakM :: "'b \<Rightarrow> ('s, 'l + 'b) prog" where
  "breakM b \<equiv> returnM (Inr b)"

subsection \<open>The macros of the scanner\<close>

type_synonym ('h, 'z, 'a) scanM = "(('h, 'z) yaml_scanner_scheme, 'a) prog"

definition CACHE :: "nat \<Rightarrow> ('h, 'z, unit) scanM" where
  "CACHE n = readM (\<lambda>p. if n \<le> p_unread p then returnM () else yaml_parser_update_buffer n)"

definition cached :: "nat \<Rightarrow> ('h, 'z) yaml_scanner_scheme \<Rightarrow> bool" where
  "cached n p \<longleftrightarrow> n \<le> p_unread p \<or> (p_eof p \<and> 0 < p_unread p)"

definition lookM :: "nat \<Rightarrow> (ystring \<Rightarrow> 'a) \<Rightarrow> ('h, 'z, 'a) scanM" where
  "lookM n f = seqM (assertM (cached n)) (getM (\<lambda>p. f (b_rest (p_buffer p))))"

definition lookingM :: "nat \<Rightarrow> (ystring \<Rightarrow> ('h, 'z, 'a) scanM) \<Rightarrow> ('h, 'z, 'a) scanM" where
  "lookingM n f = bindM (lookM n id) f"

text \<open>\<open>buffer.pointer\<close>, \<open>unread\<close> and \<open>mark\<close> move over \<open>n\<close> bytes, which are \<open>k\<close> characters.\<close>

definition advance :: "nat \<Rightarrow> nat \<Rightarrow> (yaml_mark \<Rightarrow> yaml_mark) \<Rightarrow> ('h, 'z, unit) scanM" where
  "advance n k move = seqM (assertM (\<lambda>p. k \<le> p_unread p \<and> n \<le> length (b_rest (p_buffer p))))
     (modifyM (\<lambda>p. p\<lparr>p_buffer := (p_buffer p)\<lparr>b_pos := b_pos (p_buffer p) + n\<rparr>, p_unread := p_unread p - k, p_mark := move (p_mark p)\<rparr>))"

definition next_column :: "yaml_mark \<Rightarrow> yaml_mark" where
  "next_column m = m\<lparr>mark_index := mark_index m + 1, mark_column := mark_column m + 1\<rparr>"

definition next_line :: "nat \<Rightarrow> yaml_mark \<Rightarrow> yaml_mark" where
  "next_line k m = m\<lparr>mark_index := mark_index m + k, mark_column := 0, mark_line := mark_line m + 1\<rparr>"

definition SKIP :: "('h, 'z, unit) scanM" where
  "SKIP = lookingM 1 (\<lambda>b. advance (WIDTH b) 1 next_column)"

definition SKIP_LINE :: "('h, 'z, unit) scanM" where
  "SKIP_LINE = lookingM 2 (\<lambda>b.
     if IS_CRLF_AT b 0 then advance 2 2 (next_line 2)
     else if IS_BREAK b then advance (WIDTH b) 1 (next_line 1)
     else returnM ())"

text \<open>An operation on a local string.\<close>

definition stringM :: "(ystr \<times> heap, unit) prog \<Rightarrow> ystr \<Rightarrow> ('h, 'z, ystr) scanM" where
  "stringM m s p = (case m (s, p_mem p) of
     Return _ (s', h) \<Rightarrow> Return s' (p\<lparr>p_mem := h\<rparr>)
   | Error (s', h) \<Rightarrow> Error (p\<lparr>p_mem := h, p_error := YAML_MEMORY_ERROR\<rparr>)
   | Fault \<Rightarrow> Fault)"

definition INITIAL_STRING_SIZE :: nat where
  "INITIAL_STRING_SIZE = 16"

text \<open>\<open>STRING_INIT\<close> and, at the \<open>error:\<close> label of the function, \<open>STRING_DEL\<close>.\<close>

abbreviation STRING_DEL :: "('h, 'z) yaml_scanner_scheme \<Rightarrow> ('h, 'z) yaml_scanner_scheme" where
  "STRING_DEL \<equiv> freeP (yaml_free True)"

definition with_string :: "(ystr \<Rightarrow> ('h, 'z, 'a) scanM) \<Rightarrow> ('h, 'z, 'a) scanM" where
  "with_string m = bindM (memP (STRING_INIT INITIAL_STRING_SIZE)) (\<lambda>s. cleanupM (m s) STRING_DEL)"

definition put :: "ystring \<Rightarrow> ystr \<Rightarrow> ('h, 'z, ystr) scanM" where
  "put bs = stringM (str_append bs)"

definition extend_string :: "ystr \<Rightarrow> ('h, 'z, ystr) scanM" where
  "extend_string = stringM STRING_EXTEND"

text \<open>\<open>CLEAR\<close>; and \<open>JOIN\<close>, which also resets the pointer of its second argument: a \<open>CLEAR\<close> or \<open>STRING_DEL\<close> of it
  follows every \<open>JOIN\<close>.\<close>

definition CLEAR :: "ystr \<Rightarrow> ystr" where
  "CLEAR s = \<lparr>sbytes = replicate (length (sbytes s)) 0, spos = 0\<rparr>"

definition JOIN :: "ystr \<Rightarrow> ystr \<Rightarrow> ('h, 'z, ystr) scanM" where
  "JOIN a b = stringM (yaml_string_join b) a"

definition READ :: "ystr \<Rightarrow> ('h, 'z, ystr) scanM" where
  "READ s = bindM (extend_string s) (\<lambda>s. lookingM 1 (\<lambda>b.
     bindM (put (this_char b) s) (\<lambda>s. seqM (advance (WIDTH b) 1 next_column) (returnM s))))"

definition READ_LINE :: "ystr \<Rightarrow> ('h, 'z, ystr) scanM" where
  "READ_LINE s = bindM (extend_string s) (\<lambda>s. lookingM 2 (\<lambda>b.
     if IS_CRLF_AT b 0 then bindM (put [0x0A] s) (\<lambda>s. seqM (advance 2 2 (next_line 2)) (returnM s))
     else if octet b 0 = 0x0D \<or> octet b 0 = 0x0A then bindM (put [0x0A] s) (\<lambda>s. seqM (advance 1 1 (next_line 1)) (returnM s))
     else if octet b 0 = 0xC2 \<and> octet b 1 = 0x85 then bindM (put [0x0A] s) (\<lambda>s. seqM (advance 2 1 (next_line 1)) (returnM s))
     else if octet b 0 = 0xE2 \<and> octet b 1 = 0x80 \<and> (octet b 2 = 0xA8 \<or> octet b 2 = 0xA9)
       then bindM (put (take 3 b) s) (\<lambda>s. seqM (advance 3 1 (next_line 1)) (returnM s))
     else returnM s))"

text \<open>\<open>while (...) { SKIP(parser); CACHE(parser, 1) }\<close>, and the same with \<open>READ\<close>.\<close>

definition skip_while :: "(ystring \<Rightarrow> bool) \<Rightarrow> ('h, 'z, unit) scanM" where
  "skip_while P = loopM (\<lambda>_. bindM (lookM 1 P) (\<lambda>b.
     if b then seqM SKIP (seqM (CACHE 1) (againM ())) else breakM ())) ()"

definition read_while :: "(ystring \<Rightarrow> bool) \<Rightarrow> ystr \<Rightarrow> ('h, 'z, ystr) scanM" where
  "read_while P = loopM (\<lambda>s. bindM (lookM 1 P) (\<lambda>b.
     if b then bindM (READ s) (\<lambda>s. seqM (CACHE 1) (againM s)) else breakM s))"

definition skip_comment :: "('h, 'z, unit) scanM" where
  "skip_comment = bindM (lookM 1 (\<lambda>b. CHECK b CHR ''#'')) (\<lambda>c.
     if c then skip_while (\<lambda>b. \<not> IS_BREAKZ_AT b 0) else returnM ())"

definition yaml_parser_set_scanner_error :: "string \<Rightarrow> yaml_mark \<Rightarrow> string \<Rightarrow> ('h, 'z, 'a) scanM" where
  "yaml_parser_set_scanner_error ctxt context_mark problem = errorM (\<lambda>p. p\<lparr>p_error := YAML_SCANNER_ERROR,
     p_context := ctxt, p_context_mark := context_mark, p_problem := problem, p_problem_mark := p_mark p\<rparr>)"

subsection \<open>Tokens\<close>

definition TOKEN_INIT :: "yaml_token_data \<Rightarrow> yaml_mark \<Rightarrow> yaml_mark \<Rightarrow> yaml_token" where
  "TOKEN_INIT d start_mark end_mark = \<lparr>t_data = d, t_start_mark = start_mark, t_end_mark = end_mark\<rparr>"

definition on_tokens :: "(yaml_token yqueue \<times> heap, unit) prog \<Rightarrow> ('h, 'z, unit) scanM" where
  "on_tokens m p = (case m (p_tokens p, p_mem p) of
     Return _ (q, h) \<Rightarrow> Return () (p\<lparr>p_mem := h, p_tokens := q\<rparr>)
   | Error (q, h) \<Rightarrow> Error (p\<lparr>p_mem := h, p_tokens := q, p_error := YAML_MEMORY_ERROR\<rparr>)
   | Fault \<Rightarrow> Fault)"

definition enqueue_token :: "yaml_token \<Rightarrow> ('h, 'z, unit) scanM" where
  "enqueue_token t = on_tokens (ENQUEUE t)"

text \<open>A token that owns strings is deleted where it cannot be enqueued.\<close>

definition enqueue_or_delete :: "yaml_token \<Rightarrow> ('h, 'z, unit) scanM" where
  "enqueue_or_delete t = cleanupM (enqueue_token t) (freeP (yaml_token_delete t))"

definition push_indent :: "int \<Rightarrow> ('h, 'z, unit) scanM" where
  "push_indent = push_stack p_indents (\<lambda>st p. p\<lparr>p_indents := st\<rparr>)"

definition push_simple_key :: "yaml_simple_key \<Rightarrow> ('h, 'z, unit) scanM" where
  "push_simple_key = push_stack p_simple_keys (\<lambda>st p. p\<lparr>p_simple_keys := st\<rparr>)"

abbreviation set_simple_key_allowed :: "bool \<Rightarrow> ('h, 'z, unit) scanM" where
  "set_simple_key_allowed b \<equiv> modifyM (\<lambda>p. p\<lparr>p_simple_key_allowed := b\<rparr>)"

subsection \<open>Potential simple keys\<close>

definition no_simple_key :: yaml_simple_key where
  "no_simple_key = \<lparr>sk_possible = False, sk_required = False, sk_token_number = 0, sk_mark = null_mark\<rparr>"

abbreviation simple_keys :: "('h, 'z) yaml_scanner_scheme \<Rightarrow> yaml_simple_key list" where
  "simple_keys p \<equiv> elems (p_simple_keys p)"

definition set_simple_keys :: "yaml_simple_key list \<Rightarrow> ('h, 'z, unit) scanM" where
  "set_simple_keys ks = modifyM (\<lambda>p. p\<lparr>p_simple_keys := (p_simple_keys p)\<lparr>elems := ks\<rparr>\<rparr>)"

definition missing_value :: "yaml_simple_key \<Rightarrow> ('h, 'z, 'a) scanM" where
  "missing_value k = yaml_parser_set_scanner_error ''while scanning a simple key'' (sk_mark k)
     (''could not find expected ':'' @ [CHR 0x27])"

definition stale :: "yaml_mark \<Rightarrow> yaml_simple_key \<Rightarrow> bool" where
  "stale m k \<longleftrightarrow> sk_possible k \<and> (mark_line (sk_mark k) < mark_line m \<or> mark_index (sk_mark k) + 1024 < mark_index m)"

text \<open>The keys before the first one that is stale and required are updated before the error.\<close>

definition yaml_parser_stale_simple_keys :: "('h, 'z, unit) scanM" where
  "yaml_parser_stale_simple_keys = readM (\<lambda>p.
     let fatal = (\<lambda>k. stale (p_mark p) k \<and> sk_required k);
         fine = map (\<lambda>k. if stale (p_mark p) k then k\<lparr>sk_possible := False\<rparr> else k) (takeWhile (\<lambda>k. \<not> fatal k) (simple_keys p));
         rest = dropWhile (\<lambda>k. \<not> fatal k) (simple_keys p) in
     seqM (set_simple_keys (fine @ rest)) (case rest of [] \<Rightarrow> returnM () | k # _ \<Rightarrow> missing_value k))"

text \<open>\<open>*(parser->simple_keys.top-1)\<close>.\<close>

definition top_simple_key :: "('h, 'z, yaml_simple_key) scanM" where
  "top_simple_key = readM (\<lambda>p. if simple_keys p = [] then faultM else returnM (last (simple_keys p)))"

definition set_top_simple_key :: "yaml_simple_key \<Rightarrow> ('h, 'z, unit) scanM" where
  "set_top_simple_key k = readM (\<lambda>p. if simple_keys p = [] then faultM else set_simple_keys (butlast (simple_keys p) @ [k]))"

definition yaml_parser_remove_simple_key :: "('h, 'z, unit) scanM" where
  "yaml_parser_remove_simple_key = bindM top_simple_key (\<lambda>k.
     if sk_possible k \<and> sk_required k then missing_value k
     else set_top_simple_key (k\<lparr>sk_possible := False\<rparr>))"

definition yaml_parser_save_simple_key :: "('h, 'z, unit) scanM" where
  "yaml_parser_save_simple_key = readM (\<lambda>p.
     let required = (p_flow_level p = 0 \<and> p_indent p = int (mark_column (p_mark p))) in
     if p_simple_key_allowed p then
       seqM yaml_parser_remove_simple_key
         (set_top_simple_key \<lparr>sk_possible = True, sk_required = required,
            sk_token_number = p_tokens_parsed p + length (items (p_tokens p)), sk_mark = p_mark p\<rparr>)
     else returnM ())"

definition yaml_parser_increase_flow_level :: "('h, 'z, unit) scanM" where
  "yaml_parser_increase_flow_level =
     seqM (push_simple_key no_simple_key)
     (readM (\<lambda>p. if p_flow_level p = int INT_MAX then errorM (\<lambda>p. p\<lparr>p_error := YAML_MEMORY_ERROR\<rparr>)
        else modifyM (\<lambda>p. p\<lparr>p_flow_level := p_flow_level p + 1\<rparr>)))"

definition yaml_parser_decrease_flow_level :: "('h, 'z, unit) scanM" where
  "yaml_parser_decrease_flow_level = readM (\<lambda>p.
     if p_flow_level p \<noteq> 0 then
       seqM (modifyM (\<lambda>p. p\<lparr>p_flow_level := p_flow_level p - 1\<rparr>))
         (bindM (zoomM p_simple_keys (\<lambda>st p. p\<lparr>p_simple_keys := st\<rparr>) POP) (\<lambda>_. returnM ()))
     else returnM ())"

subsection \<open>Indentation\<close>

text \<open>\<open>number\<close> is \<open>None\<close> for \<open>-1\<close>: the token is appended; otherwise it is inserted before the token with this number.\<close>

definition yaml_parser_roll_indent :: "int \<Rightarrow> nat option \<Rightarrow> yaml_token_data \<Rightarrow> yaml_mark \<Rightarrow> ('h, 'z, unit) scanM" where
  "yaml_parser_roll_indent column number d mark = readM (\<lambda>p.
     if p_flow_level p \<noteq> 0 then returnM ()
     else if p_indent p < column then
       seqM (push_indent (p_indent p))
       (if column > int INT_MAX then errorM (\<lambda>p. p\<lparr>p_error := YAML_MEMORY_ERROR\<rparr>)
        else seqM (modifyM (\<lambda>p. p\<lparr>p_indent := column\<rparr>))
          (case number of
             None \<Rightarrow> enqueue_token (TOKEN_INIT d mark mark)
           | Some n \<Rightarrow> seqM (assertM (\<lambda>p. p_tokens_parsed p \<le> n))
               (on_tokens (QUEUE_INSERT (n - p_tokens_parsed p) (TOKEN_INIT d mark mark)))))
     else returnM ())"

definition yaml_parser_unroll_indent :: "int \<Rightarrow> ('h, 'z, unit) scanM" where
  "yaml_parser_unroll_indent column = readM (\<lambda>p.
     if p_flow_level p \<noteq> 0 then returnM ()
     else loopM (\<lambda>_. readM (\<lambda>p.
       if p_indent p > column then
         seqM (enqueue_token (TOKEN_INIT BlockEndToken (p_mark p) (p_mark p)))
           (bindM (zoomM p_indents (\<lambda>st p. p\<lparr>p_indents := st\<rparr>) POP) (\<lambda>i.
             seqM (modifyM (\<lambda>p. p\<lparr>p_indent := i\<rparr>)) (againM ())))
       else breakM ())) ())"

text \<open>The token for \<open>n\<close> characters that have no value.\<close>

definition skip_n :: "nat \<Rightarrow> ('h, 'z, unit) scanM" where
  "skip_n n = ((\<lambda>m. seqM SKIP m) ^^ n) (returnM ())"

definition indicator_token :: "nat \<Rightarrow> yaml_token_data \<Rightarrow> ('h, 'z, unit) scanM" where
  "indicator_token n d = readM (\<lambda>p. seqM (skip_n n) (readM (\<lambda>p'. enqueue_token (TOKEN_INIT d (p_mark p) (p_mark p')))))"

subsection \<open>Token fetchers without a scanner of their own\<close>

definition yaml_parser_fetch_stream_start :: "('h, 'z, unit) scanM" where
  "yaml_parser_fetch_stream_start =
     seqM (modifyM (\<lambda>p. p\<lparr>p_indent := -1\<rparr>))
     (seqM (push_simple_key no_simple_key)
     (seqM (modifyM (\<lambda>p. p\<lparr>p_simple_key_allowed := True, p_stream_start_produced := True\<rparr>))
       (readM (\<lambda>p. enqueue_token (TOKEN_INIT (StreamStartToken (p_encoding p)) (p_mark p) (p_mark p))))))"

definition yaml_parser_fetch_stream_end :: "('h, 'z, unit) scanM" where
  "yaml_parser_fetch_stream_end =
     seqM (modifyM (\<lambda>p. if mark_column (p_mark p) \<noteq> 0 then p\<lparr>p_mark := next_line 0 (p_mark p)\<rparr> else p))
     (seqM (yaml_parser_unroll_indent (-1))
     (seqM yaml_parser_remove_simple_key
     (seqM (set_simple_key_allowed False)
       (readM (\<lambda>p. enqueue_token (TOKEN_INIT StreamEndToken (p_mark p) (p_mark p)))))))"

definition yaml_parser_fetch_document_indicator :: "yaml_token_data \<Rightarrow> ('h, 'z, unit) scanM" where
  "yaml_parser_fetch_document_indicator d =
     seqM (yaml_parser_unroll_indent (-1))
     (seqM yaml_parser_remove_simple_key
     (seqM (set_simple_key_allowed False)
       (indicator_token 3 d)))"

definition yaml_parser_fetch_flow_collection_start :: "yaml_token_data \<Rightarrow> ('h, 'z, unit) scanM" where
  "yaml_parser_fetch_flow_collection_start d =
     seqM yaml_parser_save_simple_key
     (seqM yaml_parser_increase_flow_level
     (seqM (set_simple_key_allowed True)
       (indicator_token 1 d)))"

definition yaml_parser_fetch_flow_collection_end :: "yaml_token_data \<Rightarrow> ('h, 'z, unit) scanM" where
  "yaml_parser_fetch_flow_collection_end d =
     seqM yaml_parser_remove_simple_key
     (seqM yaml_parser_decrease_flow_level
     (seqM (set_simple_key_allowed False)
       (indicator_token 1 d)))"

definition yaml_parser_fetch_flow_entry :: "('h, 'z, unit) scanM" where
  "yaml_parser_fetch_flow_entry =
     seqM yaml_parser_remove_simple_key
     (seqM (set_simple_key_allowed True)
       (indicator_token 1 FlowEntryToken))"

text \<open>In the block context a new entry, key or value may open a collection.\<close>

definition open_block :: "string \<Rightarrow> yaml_token_data \<Rightarrow> ('h, 'z, unit) scanM" where
  "open_block problem d = readM (\<lambda>p.
     if p_flow_level p = 0 then
       (if \<not> p_simple_key_allowed p then yaml_parser_set_scanner_error [] (p_mark p) problem
        else yaml_parser_roll_indent (int (mark_column (p_mark p))) None d (p_mark p))
     else returnM ())"

definition yaml_parser_fetch_block_entry :: "('h, 'z, unit) scanM" where
  "yaml_parser_fetch_block_entry =
     seqM (open_block ''block sequence entries are not allowed in this context'' BlockSequenceStartToken)
     (seqM yaml_parser_remove_simple_key
     (seqM (set_simple_key_allowed True)
       (indicator_token 1 BlockEntryToken)))"

definition yaml_parser_fetch_key :: "('h, 'z, unit) scanM" where
  "yaml_parser_fetch_key =
     seqM (open_block ''mapping keys are not allowed in this context'' BlockMappingStartToken)
     (seqM yaml_parser_remove_simple_key
     (seqM (modifyM (\<lambda>p. p\<lparr>p_simple_key_allowed := (p_flow_level p = 0)\<rparr>))
       (indicator_token 1 KeyToken)))"

text \<open>A value after a simple key: the \<open>KEY\<close> token, and \<open>BLOCK-MAPPING-START\<close> if needed, go before the tokens of the key.\<close>

definition insert_key :: "yaml_simple_key \<Rightarrow> ('h, 'z, unit) scanM" where
  "insert_key k =
     seqM (assertM (\<lambda>p. p_tokens_parsed p \<le> sk_token_number k))
     (seqM (readM (\<lambda>p. on_tokens (QUEUE_INSERT (sk_token_number k - p_tokens_parsed p) (TOKEN_INIT KeyToken (sk_mark k) (sk_mark k)))))
     (seqM (yaml_parser_roll_indent (int (mark_column (sk_mark k))) (Some (sk_token_number k)) BlockMappingStartToken (sk_mark k))
     (seqM (set_top_simple_key (k\<lparr>sk_possible := False\<rparr>))
       (set_simple_key_allowed False))))"

definition yaml_parser_fetch_value :: "('h, 'z, unit) scanM" where
  "yaml_parser_fetch_value =
     seqM (bindM top_simple_key (\<lambda>k.
       if sk_possible k then insert_key k
       else seqM (open_block ''mapping values are not allowed in this context'' BlockMappingStartToken)
         (modifyM (\<lambda>p. p\<lparr>p_simple_key_allowed := (p_flow_level p = 0)\<rparr>))))
     (indicator_token 1 ValueToken)"

subsection \<open>Between the tokens\<close>

definition skip_bom :: "('h, 'z, unit) scanM" where
  "skip_bom = readM (\<lambda>p. if mark_column (p_mark p) = 0
     then lookingM 1 (\<lambda>b. if IS_BOM b then SKIP else returnM ()) else returnM ())"

definition yaml_parser_scan_to_next_token :: "('h, 'z, unit) scanM" where
  "yaml_parser_scan_to_next_token = loopM (\<lambda>_.
     seqM (CACHE 1)
     (seqM skip_bom
     (seqM (CACHE 1)
     (seqM (readM (\<lambda>p. skip_while (\<lambda>b. CHECK b CHR '' '' \<or> ((p_flow_level p \<noteq> 0 \<or> \<not> p_simple_key_allowed p) \<and> CHECK b CHR 0x09))))
     (seqM skip_comment
     (bindM (lookM 1 (\<lambda>b. IS_BREAK b)) (\<lambda>br.
       if br then
         seqM (CACHE 2) (seqM SKIP_LINE
           (seqM (modifyM (\<lambda>p. if p_flow_level p = 0 then p\<lparr>p_simple_key_allowed := True\<rparr> else p)) (againM ())))
       else breakM ()))))))) ()"

text \<open>The rest of a line that may hold nothing but blanks and a comment.\<close>

definition skip_rest_of_line :: "string \<Rightarrow> yaml_mark \<Rightarrow> ('h, 'z, unit) scanM" where
  "skip_rest_of_line ctxt start_mark =
     seqM (CACHE 1)
     (seqM (skip_while (\<lambda>b. IS_BLANK b))
     (seqM skip_comment
     (bindM (lookM 1 (\<lambda>b. IS_BREAKZ_AT b 0)) (\<lambda>ok.
       if \<not> ok then yaml_parser_set_scanner_error ctxt start_mark ''did not find expected comment or line break''
       else bindM (lookM 1 (\<lambda>b. IS_BREAK b)) (\<lambda>br. if br then seqM (CACHE 2) SKIP_LINE else returnM ())))))"

subsection \<open>Directives\<close>

definition yaml_parser_scan_directive_name :: "yaml_mark \<Rightarrow> ('h, 'z, ystring) scanM" where
  "yaml_parser_scan_directive_name start_mark = with_string (\<lambda>s.
     seqM (CACHE 1)
     (bindM (read_while (\<lambda>b. IS_ALPHA b) s) (\<lambda>s.
       if spos s = 0 then yaml_parser_set_scanner_error ''while scanning a directive'' start_mark ''could not find expected directive name''
       else bindM (lookM 1 (\<lambda>b. IS_BLANKZ b)) (\<lambda>ok.
         if \<not> ok then yaml_parser_set_scanner_error ''while scanning a directive'' start_mark ''found unexpected non-alphabetical character''
         else returnM (str_contents s)))))"

definition MAX_NUMBER_LENGTH :: nat where
  "MAX_NUMBER_LENGTH = 9"

definition yaml_parser_scan_version_directive_number :: "yaml_mark \<Rightarrow> ('h, 'z, int) scanM" where
  "yaml_parser_scan_version_directive_number start_mark =
     seqM (CACHE 1)
     (bindM (loopM (\<lambda>(v, n). bindM (lookM 1 (\<lambda>b. (IS_DIGIT_AT b 0, AS_DIGIT_AT b 0))) (\<lambda>(isdigit, d).
        if isdigit then
          (if n + 1 > MAX_NUMBER_LENGTH
           then yaml_parser_set_scanner_error ''while scanning a %YAML directive'' start_mark ''found extremely long version number''
           else seqM SKIP (seqM (CACHE 1) (againM (v * 10 + d, n + 1))))
        else breakM (v, n))) (0, 0)) (\<lambda>(v, n).
     if n = 0 then yaml_parser_set_scanner_error ''while scanning a %YAML directive'' start_mark ''did not find expected version number''
     else returnM v))"

definition yaml_parser_scan_version_directive_value :: "yaml_mark \<Rightarrow> ('h, 'z, int \<times> int) scanM" where
  "yaml_parser_scan_version_directive_value start_mark =
     seqM (CACHE 1)
     (seqM (skip_while (\<lambda>b. IS_BLANK b))
     (bindM (yaml_parser_scan_version_directive_number start_mark) (\<lambda>major.
      bindM (lookM 1 (\<lambda>b. CHECK b CHR ''.'')) (\<lambda>dot.
        if \<not> dot then yaml_parser_set_scanner_error ''while scanning a %YAML directive'' start_mark ''did not find expected digit or '.' character''
        else seqM SKIP (bindM (yaml_parser_scan_version_directive_number start_mark) (\<lambda>minor. returnM (major, minor)))))))"

definition bang_expected :: string where
  "bang_expected = ''did not find expected '!'' @ [CHR 0x27]"

definition yaml_parser_scan_tag_handle :: "bool \<Rightarrow> yaml_mark \<Rightarrow> ('h, 'z, ystring) scanM" where
  "yaml_parser_scan_tag_handle directive start_mark = with_string (\<lambda>s.
     seqM (CACHE 1)
     (bindM (lookM 1 (\<lambda>b. CHECK b CHR ''!'')) (\<lambda>bang.
       if \<not> bang then yaml_parser_set_scanner_error (if directive then ''while scanning a tag directive'' else ''while scanning a tag'')
         start_mark bang_expected
       else bindM (READ s) (\<lambda>s.
         seqM (CACHE 1)
         (bindM (read_while (\<lambda>b. IS_ALPHA b) s) (\<lambda>s.
          bindM (lookM 1 (\<lambda>b. CHECK b CHR ''!'')) (\<lambda>bang.
            if bang then bindM (READ s) (\<lambda>s. returnM (str_contents s))
            else if directive \<and> \<not> (octet (sbytes s) 0 = ch CHR ''!'' \<and> octet (sbytes s) 1 = 0)
            then yaml_parser_set_scanner_error ''while parsing a tag directive'' start_mark bang_expected
            else returnM (str_contents s))))))))"

subsection \<open>Tag URIs\<close>

definition uri_context :: "bool \<Rightarrow> string" where
  "uri_context directive = (if directive then ''while parsing a %TAG directive'' else ''while parsing a tag'')"

definition uri_octet :: "ystring \<Rightarrow> yaml_char" where
  "uri_octet b = of_int (AS_HEX_AT b 1 * 16 + AS_HEX_AT b 2)"

text \<open>The loop variable is the number of octets to come; 0 before the first one.\<close>

definition yaml_parser_scan_uri_escapes :: "bool \<Rightarrow> yaml_mark \<Rightarrow> ystr \<Rightarrow> ('h, 'z, ystr) scanM" where
  "yaml_parser_scan_uri_escapes directive start_mark s0 = loopM (\<lambda>(width, s).
     seqM (CACHE 3)
     (lookingM 3 (\<lambda>b.
       if \<not> (CHECK b CHR ''%'' \<and> IS_HEX_AT b 1 \<and> IS_HEX_AT b 2)
       then yaml_parser_set_scanner_error (uri_context directive) start_mark ''did not find URI escaped octet''
       else let oct = uri_octet b; w = (if width = 0 then utf8_width oct else width) in
         if w = 0 then yaml_parser_set_scanner_error (uri_context directive) start_mark ''found an incorrect leading UTF-8 octet''
         else if width \<noteq> 0 \<and> oct AND 0xC0 \<noteq> 0x80
         then yaml_parser_set_scanner_error (uri_context directive) start_mark ''found an incorrect trailing UTF-8 octet''
         else bindM (put [oct] s) (\<lambda>s.
           seqM (skip_n 3) (if w - 1 = 0 then breakM s else againM (w - 1, s)))))) (0, s0)"

definition uri_character :: "bool \<Rightarrow> ystring \<Rightarrow> bool" where
  "uri_character uri_char b \<longleftrightarrow> IS_ALPHA b \<or> CHECK_ANY b '';/?:@&=+$.%!~*'()'' \<or> (uri_char \<and> CHECK_ANY b '',[]'')"

definition yaml_parser_scan_tag_uri :: "bool \<Rightarrow> bool \<Rightarrow> ystring option \<Rightarrow> yaml_mark \<Rightarrow> ('h, 'z, ystring) scanM" where
  "yaml_parser_scan_tag_uri uri_char directive head start_mark = with_string (\<lambda>s.
     let hd_bytes = (case head of None \<Rightarrow> [] | Some h \<Rightarrow> c_str h); len = length hd_bytes in
     bindM (loopM (\<lambda>s. if length (sbytes s) \<le> len then bindM (stringM yaml_string_extend s) againM else breakM s) s) (\<lambda>s.
     bindM (if len > 1 then put (tl hd_bytes) s else returnM s) (\<lambda>s.
     seqM (CACHE 1)
     (bindM (loopM (\<lambda>(s, n). lookingM 1 (\<lambda>b.
        if uri_character uri_char b then
          bindM (if CHECK b CHR ''%'' then bindM (extend_string s) (yaml_parser_scan_uri_escapes directive start_mark) else READ s) (\<lambda>s.
            seqM (CACHE 1) (againM (s, n + 1)))
        else breakM (s, n))) (s, len)) (\<lambda>(s, n).
     if n = 0 then bindM (extend_string s) (\<lambda>s. yaml_parser_set_scanner_error (uri_context directive) start_mark ''did not find expected tag URI'')
     else returnM (str_contents s))))))"

definition yaml_parser_scan_tag_directive_value :: "yaml_mark \<Rightarrow> ('h, 'z, ystring \<times> ystring) scanM" where
  "yaml_parser_scan_tag_directive_value start_mark =
     seqM (CACHE 1)
     (seqM (skip_while (\<lambda>b. IS_BLANK b))
     (bindM (yaml_parser_scan_tag_handle True start_mark) (\<lambda>handle. cleanupM
       (seqM (CACHE 1)
       (bindM (lookM 1 (\<lambda>b. IS_BLANK b)) (\<lambda>blank.
         if \<not> blank then yaml_parser_set_scanner_error ''while scanning a %TAG directive'' start_mark ''did not find expected whitespace''
         else seqM (skip_while (\<lambda>b. IS_BLANK b))
           (bindM (yaml_parser_scan_tag_uri True True None start_mark) (\<lambda>prefix. cleanupM
             (seqM (CACHE 1)
             (bindM (lookM 1 (\<lambda>b. IS_BLANKZ b)) (\<lambda>ok.
               if \<not> ok then yaml_parser_set_scanner_error ''while scanning a %TAG directive'' start_mark
                 ''did not find expected whitespace or line break''
               else returnM (handle, prefix))))
             STRING_DEL)))))
       STRING_DEL)))"

text \<open>The value of a directive, and how many blocks it owns.\<close>

definition directive_value :: "ystring \<Rightarrow> yaml_mark \<Rightarrow> ('h, 'z, yaml_token_data) scanM" where
  "directive_value name start_mark =
     (if streq name (lit ''YAML'') then
        bindM (yaml_parser_scan_version_directive_value start_mark) (\<lambda>(major, minor). returnM (VersionDirectiveToken major minor))
      else if streq name (lit ''TAG'') then
        bindM (yaml_parser_scan_tag_directive_value start_mark) (\<lambda>(handle, prefix). returnM (TagDirectiveToken handle prefix))
      else yaml_parser_set_scanner_error ''while scanning a directive'' start_mark ''found unknown directive name'')"

definition yaml_parser_scan_directive :: "('h, 'z, yaml_token) scanM" where
  "yaml_parser_scan_directive = readM (\<lambda>p0. let start_mark = p_mark p0 in
     seqM SKIP
     (bindM (yaml_parser_scan_directive_name start_mark) (\<lambda>name. cleanupM
       (bindM (directive_value name start_mark) (\<lambda>d.
        readM (\<lambda>p. let token = TOKEN_INIT d start_mark (p_mark p) in
          cleanupM (seqM (skip_rest_of_line ''while scanning a directive'' start_mark)
              (seqM (modifyM STRING_DEL) (returnM token)))
            (freeP (yaml_token_delete token)))))
       STRING_DEL)))"

subsection \<open>Anchors and tags\<close>

definition yaml_parser_scan_anchor :: "bool \<Rightarrow> ('h, 'z, yaml_token) scanM" where
  "yaml_parser_scan_anchor is_anchor = with_string (\<lambda>s. readM (\<lambda>p0. let start_mark = p_mark p0 in
     seqM SKIP
     (seqM (CACHE 1)
     (bindM (read_while (\<lambda>b. IS_ALPHA b) s) (\<lambda>s.
      readM (\<lambda>p. let end_mark = p_mark p in
      bindM (lookM 1 (\<lambda>b. IS_BLANKZ b \<or> CHECK_ANY b ''?:,]}%@`'')) (\<lambda>ok.
        if spos s = 0 \<or> \<not> ok
        then yaml_parser_set_scanner_error (if is_anchor then ''while scanning an anchor'' else ''while scanning an alias'') start_mark
          ''did not find expected alphabetic or numeric character''
        else returnM (TOKEN_INIT (if is_anchor then AnchorToken (str_contents s) else AliasToken (str_contents s)) start_mark end_mark))))))))"

text \<open>\<open>YAML_MALLOC\<close> in \<open>yaml_parser_scan_tag\<close>: no error is set where it fails.\<close>

definition malloc_unset :: "nat \<Rightarrow> ('h, 'z, unit) scanM" where
  "malloc_unset n = bindM (zoomM p_mem (\<lambda>h p. p\<lparr>p_mem := h\<rparr>) (yaml_malloc n)) (\<lambda>ok. if ok then returnM () else errorM id)"

definition named_handle :: "ystring \<Rightarrow> bool" where
  "named_handle handle \<longleftrightarrow> (let h = c_str handle in octet h 0 = ch CHR ''!'' \<and> octet h 1 \<noteq> 0 \<and> octet h (length h - 1) = ch CHR ''!'')"

text \<open>\<open>!<...>\<close>.\<close>

definition scan_verbatim_tag :: "yaml_mark \<Rightarrow> ('h, 'z, ystring \<times> ystring) scanM" where
  "scan_verbatim_tag start_mark =
     seqM (malloc_unset 1) (cleanupM
       (seqM (skip_n 2)
       (bindM (yaml_parser_scan_tag_uri True False None start_mark) (\<lambda>suf. cleanupM
         (bindM (lookM 1 (\<lambda>b. CHECK b CHR ''>'')) (\<lambda>close.
           if \<not> close then yaml_parser_set_scanner_error ''while scanning a tag'' start_mark (''did not find the expected '>'' @ [CHR 0x27])
           else seqM SKIP (returnM ([], suf))))
         STRING_DEL)))
       STRING_DEL)"

text \<open>\<open>!suffix\<close> and \<open>!handle!suffix\<close>; the handle of the former becomes the head of the suffix.\<close>

definition scan_short_tag :: "yaml_mark \<Rightarrow> ('h, 'z, ystring \<times> ystring) scanM" where
  "scan_short_tag start_mark =
     bindM (yaml_parser_scan_tag_handle False start_mark) (\<lambda>handle.
       if named_handle handle then
         cleanupM (bindM (yaml_parser_scan_tag_uri False False None start_mark) (\<lambda>suf. returnM (handle, suf))) STRING_DEL
       else
         bindM (cleanupM (yaml_parser_scan_tag_uri False False (Some handle) start_mark) STRING_DEL) (\<lambda>suf.
           seqM (modifyM STRING_DEL)
           (cleanupM (seqM (malloc_unset 2)
              (returnM (if octet suf 0 = 0 then (suf, lit ''!'') else (lit ''!'', suf))))
             STRING_DEL)))"

definition yaml_parser_scan_tag :: "('h, 'z, yaml_token) scanM" where
  "yaml_parser_scan_tag = readM (\<lambda>p0. let start_mark = p_mark p0 in
     seqM (CACHE 2)
     (bindM (lookM 2 (\<lambda>b. CHECK_AT b CHR ''<'' 1)) (\<lambda>verbatim.
      bindM (if verbatim then scan_verbatim_tag start_mark else scan_short_tag start_mark) (\<lambda>(handle, suf).
        let token = TagToken handle suf in
        cleanupM
          (seqM (CACHE 1)
          (bindM (lookM 1 (\<lambda>b. (IS_BLANKZ b, CHECK b CHR '',''))) (\<lambda>(blank, comma).
           readM (\<lambda>p. if \<not> blank \<and> (p_flow_level p = 0 \<or> \<not> comma)
             then yaml_parser_set_scanner_error ''while scanning a tag'' start_mark ''did not find expected whitespace or line break''
             else returnM (TOKEN_INIT token start_mark (p_mark p))))))
          (freeP (yaml_token_delete (TOKEN_INIT token start_mark start_mark)))))))"

subsection \<open>Block scalars\<close>

text \<open>\<open>chomping\<close> and \<open>increment\<close>, in either order.\<close>

definition scan_chomping :: "('h, 'z, int) scanM" where
  "scan_chomping = lookingM 1 (\<lambda>b.
     if CHECK b CHR ''+'' then seqM SKIP (returnM 1)
     else if CHECK b CHR ''-'' then seqM SKIP (returnM (-1))
     else returnM 0)"

definition scan_increment :: "yaml_mark \<Rightarrow> ('h, 'z, int) scanM" where
  "scan_increment start_mark = lookingM 1 (\<lambda>b.
     if \<not> IS_DIGIT_AT b 0 then returnM 0
     else if CHECK b CHR ''0'' then yaml_parser_set_scanner_error ''while scanning a block scalar'' start_mark
       ''found an indentation indicator equal to 0''
     else seqM SKIP (returnM (AS_DIGIT_AT b 0)))"

definition scan_block_header :: "yaml_mark \<Rightarrow> ('h, 'z, int \<times> int) scanM" where
  "scan_block_header start_mark =
     bindM (lookM 1 (\<lambda>b. (CHECK b CHR ''+'' \<or> CHECK b CHR ''-'', IS_DIGIT_AT b 0))) (\<lambda>(sign, isdigit).
       if sign then bindM scan_chomping (\<lambda>c. seqM (CACHE 1) (bindM (scan_increment start_mark) (\<lambda>i. returnM (c, i))))
       else if isdigit then bindM (scan_increment start_mark) (\<lambda>i. seqM (CACHE 1) (bindM scan_chomping (\<lambda>c. returnM (c, i))))
       else returnM (0, 0))"

abbreviation column_of :: "('h, 'z) yaml_scanner_scheme \<Rightarrow> int" where
  "column_of p \<equiv> int (mark_column (p_mark p))"

text \<open>The loop of \<open>yaml_parser_scan_block_scalar_breaks\<close>; its variables are \<open>max_indent\<close>, \<open>*breaks\<close> and \<open>*end_mark\<close>.\<close>

definition indentation_space :: "int \<Rightarrow> ('h, 'z, unit) scanM" where
  "indentation_space indent = loopM (\<lambda>_. lookingM 1 (\<lambda>b. readM (\<lambda>p.
     if (indent = 0 \<or> column_of p < indent) \<and> IS_SPACE b then seqM SKIP (seqM (CACHE 1) (againM ())) else breakM ()))) ()"

definition block_breaks :: "int \<Rightarrow> yaml_mark \<Rightarrow> int \<times> ystr \<times> yaml_mark \<Rightarrow> ('h, 'z, int \<times> ystr \<times> yaml_mark) scanM" where
  "block_breaks indent start_mark = loopM (\<lambda>(max_indent, breaks, end_mark).
     seqM (CACHE 1)
     (seqM (indentation_space indent)
     (lookingM 1 (\<lambda>b. readM (\<lambda>p.
        let max_indent = max max_indent (column_of p) in
        if (indent = 0 \<or> column_of p < indent) \<and> IS_TAB_AT b 0
        then yaml_parser_set_scanner_error ''while scanning a block scalar'' start_mark
          ''found a tab character where an indentation space is expected''
        else if \<not> IS_BREAK b then breakM (max_indent, breaks, end_mark)
        else seqM (CACHE 2) (bindM (READ_LINE breaks) (\<lambda>breaks. readM (\<lambda>p. againM (max_indent, breaks, p_mark p)))))))))"

definition yaml_parser_scan_block_scalar_breaks :: "int \<Rightarrow> ystr \<Rightarrow> yaml_mark \<Rightarrow> ('h, 'z, int \<times> ystr \<times> yaml_mark) scanM" where
  "yaml_parser_scan_block_scalar_breaks indent breaks start_mark = readM (\<lambda>p0.
     bindM (block_breaks indent start_mark (0, breaks, p_mark p0)) (\<lambda>(max_indent, breaks, end_mark).
     readM (\<lambda>p. returnM
       (if indent = 0 then max 1 (max (p_indent p + 1) max_indent) else indent, breaks, end_mark))))"

text \<open>The local strings of a scalar scanner.\<close>

record scalar_parts =
  sp_string :: ystr
  sp_leading :: ystr
  sp_trailing :: ystr
  sp_spaces :: ystr

definition join_leading :: "scalar_parts \<Rightarrow> ('h, 'z, scalar_parts) scanM" where
  "join_leading t = bindM (JOIN (sp_string t) (sp_leading t)) (\<lambda>s. returnM (t\<lparr>sp_string := s\<rparr>))"

definition join_trailing :: "scalar_parts \<Rightarrow> ('h, 'z, scalar_parts) scanM" where
  "join_trailing t = bindM (JOIN (sp_string t) (sp_trailing t)) (\<lambda>s. returnM (t\<lparr>sp_string := s\<rparr>))"

definition append_space :: "scalar_parts \<Rightarrow> ('h, 'z, scalar_parts) scanM" where
  "append_space t = bindM (extend_string (sp_string t)) (\<lambda>s. bindM (put [0x20] s) (\<lambda>s. returnM (t\<lparr>sp_string := s\<rparr>)))"

abbreviation clear_leading :: "scalar_parts \<Rightarrow> scalar_parts" where
  "clear_leading t \<equiv> t\<lparr>sp_leading := CLEAR (sp_leading t)\<rparr>"

abbreviation clear_trailing :: "scalar_parts \<Rightarrow> scalar_parts" where
  "clear_trailing t \<equiv> t\<lparr>sp_trailing := CLEAR (sp_trailing t)\<rparr>"

abbreviation clear_spaces :: "scalar_parts \<Rightarrow> scalar_parts" where
  "clear_spaces t \<equiv> t\<lparr>sp_spaces := CLEAR (sp_spaces t)\<rparr>"

text \<open>One line of a block scalar; the loop variables are \<open>leading_blank\<close>, \<open>indent\<close>, \<open>*end_mark\<close> and the strings.\<close>

definition block_line :: "bool \<Rightarrow> yaml_mark \<Rightarrow> bool \<times> int \<times> yaml_mark \<times> scalar_parts \<Rightarrow> ('h, 'z, bool \<times> int \<times> yaml_mark \<times> scalar_parts) scanM" where
  "block_line literal start_mark = (\<lambda>(leading_blank, indent, end_mark, t).
     bindM (lookM 1 (\<lambda>b. IS_BLANK b)) (\<lambda>trailing_blank.
     bindM (if \<not> literal \<and> octet (sbytes (sp_leading t)) 0 = 0x0A \<and> \<not> leading_blank \<and> \<not> trailing_blank
       then (if octet (sbytes (sp_trailing t)) 0 = 0 then append_space t else returnM t)
       else join_leading t) (\<lambda>t.
     bindM (join_trailing (clear_leading t)) (\<lambda>t.
     bindM (lookM 1 (\<lambda>b. IS_BLANK b)) (\<lambda>leading_blank.
     bindM (read_while (\<lambda>b. \<not> IS_BREAKZ_AT b 0) (sp_string t)) (\<lambda>s.
     seqM (CACHE 2)
     (bindM (READ_LINE (sp_leading t)) (\<lambda>l.
      bindM (yaml_parser_scan_block_scalar_breaks indent (CLEAR (sp_trailing t)) start_mark) (\<lambda>(indent, breaks, end_mark).
        returnM (leading_blank, indent, end_mark, t\<lparr>sp_string := s, sp_leading := l, sp_trailing := breaks\<rparr>))))))))))"

definition block_lines :: "bool \<Rightarrow> yaml_mark \<Rightarrow> bool \<times> int \<times> yaml_mark \<times> scalar_parts \<Rightarrow> ('h, 'z, yaml_mark \<times> scalar_parts) scanM" where
  "block_lines literal start_mark = loopM (\<lambda>(leading_blank, indent, end_mark, t). lookingM 1 (\<lambda>b. readM (\<lambda>p.
     if column_of p = indent \<and> \<not> IS_Z_AT b 0
     then bindM (block_line literal start_mark (leading_blank, indent, end_mark, t)) againM
     else breakM (end_mark, t))))"

definition with_parts :: "nat \<Rightarrow> (scalar_parts \<Rightarrow> ('h, 'z, 'a) scanM) \<Rightarrow> ('h, 'z, 'a) scanM" where
  "with_parts n m = with_string (\<lambda>s. with_string (\<lambda>l. with_string (\<lambda>tr.
     if n = 3 then m \<lparr>sp_string = s, sp_leading = l, sp_trailing = tr, sp_spaces = \<lparr>sbytes = [], spos = 0\<rparr>\<rparr>
     else with_string (\<lambda>w. m \<lparr>sp_string = s, sp_leading = l, sp_trailing = tr, sp_spaces = w\<rparr>))))"

definition yaml_parser_scan_block_scalar :: "bool \<Rightarrow> ('h, 'z, yaml_token) scanM" where
  "yaml_parser_scan_block_scalar literal = with_parts 3 (\<lambda>t. readM (\<lambda>p0. let start_mark = p_mark p0 in
     seqM SKIP
     (seqM (CACHE 1)
     (bindM (scan_block_header start_mark) (\<lambda>(chomping, increment).
      seqM (skip_rest_of_line ''while scanning a block scalar'' start_mark)
      (readM (\<lambda>p.
        let indent = (if increment \<noteq> 0 then (if p_indent p \<ge> 0 then p_indent p + increment else increment) else 0) in
        bindM (yaml_parser_scan_block_scalar_breaks indent (sp_trailing t) start_mark) (\<lambda>(indent, breaks, end_mark).
        seqM (CACHE 1)
        (bindM (block_lines literal start_mark (False, indent, end_mark, t\<lparr>sp_trailing := breaks\<rparr>)) (\<lambda>(end_mark, t).
         bindM (if chomping \<noteq> -1 then join_leading t else returnM t) (\<lambda>t.
         bindM (if chomping = 1 then join_trailing t else returnM t) (\<lambda>t.
         seqM (modifyM (STRING_DEL \<circ> STRING_DEL))
           (returnM (TOKEN_INIT (ScalarToken (str_contents (sp_string t))
              (if literal then YAML_LITERAL_SCALAR_STYLE else YAML_FOLDED_SCALAR_STYLE)) start_mark end_mark))))))))))))))"


subsection \<open>Quoted and plain scalars\<close>

definition document_indicator :: "char \<Rightarrow> ystring \<Rightarrow> bool" where
  "document_indicator c b \<longleftrightarrow> CHECK_AT b c 0 \<and> CHECK_AT b c 1 \<and> CHECK_AT b c 2 \<and> IS_BLANKZ_AT b 3"

definition at_document_indicator :: "('h, 'z, bool) scanM" where
  "at_document_indicator = lookingM 4 (\<lambda>b. getM (\<lambda>p. mark_column (p_mark p) = 0
     \<and> (document_indicator CHR ''-'' b \<or> document_indicator CHR ''.'' b)))"

text \<open>Line folding, as quoted and plain scalars do it.\<close>

definition fold_breaks :: "scalar_parts \<Rightarrow> ('h, 'z, scalar_parts) scanM" where
  "fold_breaks t =
     (if octet (sbytes (sp_leading t)) 0 = 0x0A then
        bindM (if octet (sbytes (sp_trailing t)) 0 = 0 then append_space t
          else bindM (join_trailing t) (\<lambda>t. returnM (clear_trailing t)))
          (\<lambda>t. returnM (clear_leading t))
      else
        bindM (join_leading t) (\<lambda>t. bindM (join_trailing t) (\<lambda>t. returnM (clear_trailing (clear_leading t)))))"

definition join_spaces :: "scalar_parts \<Rightarrow> ('h, 'z, scalar_parts) scanM" where
  "join_spaces t = bindM (JOIN (sp_string t) (sp_spaces t)) (\<lambda>s. returnM (clear_spaces (t\<lparr>sp_string := s\<rparr>)))"

text \<open>The loop over blanks and breaks; \<open>forbid\<close> is the check of tabs in plain scalars.\<close>

definition scan_blanks :: "(bool \<Rightarrow> ystring \<Rightarrow> ('h, 'z, unit) scanM) \<Rightarrow> bool \<times> scalar_parts \<Rightarrow> ('h, 'z, bool \<times> scalar_parts) scanM" where
  "scan_blanks forbid = loopM (\<lambda>(leading_blanks, t). lookingM 1 (\<lambda>b.
     if IS_BLANK b then
       seqM (forbid leading_blanks b)
       (bindM (if \<not> leading_blanks then bindM (READ (sp_spaces t)) (\<lambda>w. returnM (t\<lparr>sp_spaces := w\<rparr>))
          else seqM SKIP (returnM t)) (\<lambda>t.
        seqM (CACHE 1) (againM (leading_blanks, t))))
     else if IS_BREAK b then
       seqM (CACHE 2)
       (bindM (if \<not> leading_blanks
          then bindM (READ_LINE (sp_leading t)) (\<lambda>l. returnM (clear_spaces (t\<lparr>sp_leading := l\<rparr>)))
          else bindM (READ_LINE (sp_trailing t)) (\<lambda>tr. returnM (t\<lparr>sp_trailing := tr\<rparr>))) (\<lambda>t.
        seqM (CACHE 1) (againM (True, t))))
     else breakM (leading_blanks, t)))"

text \<open>What an escape stands for, or how many digits follow it.\<close>

definition escape_octets :: "yaml_char \<Rightarrow> ystring option" where
  "escape_octets c =
     (if c = ch CHR ''0'' then Some [0x00] else if c = ch CHR ''a'' then Some [0x07]
      else if c = ch CHR ''b'' then Some [0x08] else if c = ch CHR ''t'' \<or> c = 0x09 then Some [0x09]
      else if c = ch CHR ''n'' then Some [0x0A] else if c = ch CHR ''v'' then Some [0x0B]
      else if c = ch CHR ''f'' then Some [0x0C] else if c = ch CHR ''r'' then Some [0x0D]
      else if c = ch CHR ''e'' then Some [0x1B] else if c = 0x20 then Some [0x20]
      else if c = 0x22 then Some [0x22] else if c = ch CHR ''/'' then Some [ch CHR ''/'']
      else if c = 0x5C then Some [0x5C] else if c = ch CHR ''N'' then Some [0xC2, 0x85]
      else if c = ch CHR ''_'' then Some [0xC2, 0xA0] else if c = ch CHR ''L'' then Some [0xE2, 0x80, 0xA8]
      else if c = ch CHR ''P'' then Some [0xE2, 0x80, 0xA9] else None)"

definition escape_length :: "yaml_char \<Rightarrow> nat" where
  "escape_length c = (if c = ch CHR ''x'' then 2 else if c = ch CHR ''u'' then 4 else if c = ch CHR ''U'' then 8 else 0)"

definition hex_value :: "nat \<Rightarrow> ystring \<Rightarrow> 32 word" where
  "hex_value n b = foldl (\<lambda>v k. push_bit 4 v + of_int (AS_HEX_AT b k)) 0 [0..<n]"

definition scan_escape_code :: "nat \<Rightarrow> yaml_mark \<Rightarrow> ystr \<Rightarrow> ('h, 'z, ystr) scanM" where
  "scan_escape_code n start_mark s = seqM (CACHE n) (lookingM n (\<lambda>b.
     if \<not> list_all (IS_HEX_AT b) [0..<n]
     then yaml_parser_set_scanner_error ''while parsing a quoted scalar'' start_mark ''did not find expected hexdecimal number''
     else let v = hex_value n b in
       if (0xD800 \<le> v \<and> v \<le> 0xDFFF) \<or> v > 0x10FFFF
       then yaml_parser_set_scanner_error ''while parsing a quoted scalar'' start_mark ''found invalid Unicode character escape code''
       else bindM (put (utf8_put v) s) (\<lambda>s. seqM (skip_n n) (returnM s))))"

definition scan_escape :: "yaml_mark \<Rightarrow> ystr \<Rightarrow> ('h, 'z, ystr) scanM" where
  "scan_escape start_mark s = bindM (extend_string s) (\<lambda>s. lookingM 2 (\<lambda>b. case escape_octets (octet b 1) of
     Some bs \<Rightarrow> bindM (put bs s) (\<lambda>s. seqM (skip_n 2) (returnM s))
   | None \<Rightarrow>
       if escape_length (octet b 1) = 0
       then yaml_parser_set_scanner_error ''while parsing a quoted scalar'' start_mark ''found unknown escape character''
       else seqM (skip_n 2) (scan_escape_code (escape_length (octet b 1)) start_mark s)))"

definition quote_mark :: "bool \<Rightarrow> char" where
  "quote_mark single = (if single then CHR 0x27 else CHR 0x22)"

text \<open>Non-blank characters; the result is the string and \<open>leading_blanks\<close>.\<close>

definition flow_chars :: "bool \<Rightarrow> yaml_mark \<Rightarrow> ystr \<Rightarrow> ('h, 'z, ystr \<times> bool) scanM" where
  "flow_chars single start_mark = loopM (\<lambda>s. lookingM 1 (\<lambda>b.
     if IS_BLANKZ b then breakM (s, False)
     else lookingM 2 (\<lambda>b.
       if single \<and> CHECK_AT b CHR 0x27 0 \<and> CHECK_AT b CHR 0x27 1 then
         bindM (extend_string s) (\<lambda>s. bindM (put [0x27] s) (\<lambda>s. seqM (skip_n 2) (seqM (CACHE 2) (againM s))))
       else if CHECK b (quote_mark single) then breakM (s, False)
       else if \<not> single \<and> CHECK b CHR 0x5C \<and> IS_BREAK_AT b 1 then
         seqM (CACHE 3) (seqM SKIP (seqM SKIP_LINE (breakM (s, True))))
       else if \<not> single \<and> CHECK b CHR 0x5C then
         bindM (scan_escape start_mark s) (\<lambda>s. seqM (CACHE 2) (againM s))
       else bindM (READ s) (\<lambda>s. seqM (CACHE 2) (againM s)))))"

definition flow_line :: "bool \<Rightarrow> yaml_mark \<Rightarrow> scalar_parts \<Rightarrow> ('h, 'z, scalar_parts + scalar_parts) scanM" where
  "flow_line single start_mark t =
     seqM (CACHE 4)
     (bindM at_document_indicator (\<lambda>ind.
      bindM (lookM 1 (\<lambda>b. IS_Z_AT b 0)) (\<lambda>z.
        if ind then yaml_parser_set_scanner_error ''while scanning a quoted scalar'' start_mark ''found unexpected document indicator''
        else if z then yaml_parser_set_scanner_error ''while scanning a quoted scalar'' start_mark ''found unexpected end of stream''
        else seqM (CACHE 2)
          (bindM (flow_chars single start_mark (sp_string t)) (\<lambda>(s, leading_blanks). let t = t\<lparr>sp_string := s\<rparr> in
           seqM (CACHE 1)
           (bindM (lookM 1 (\<lambda>b. CHECK b (quote_mark single))) (\<lambda>close.
             if close then breakM t
             else seqM (CACHE 1)
               (bindM (scan_blanks (\<lambda>_ _. returnM ()) (leading_blanks, t)) (\<lambda>(leading_blanks, t).
                bindM (if leading_blanks then fold_breaks t else join_spaces t) againM)))))))))"

definition yaml_parser_scan_flow_scalar :: "bool \<Rightarrow> ('h, 'z, yaml_token) scanM" where
  "yaml_parser_scan_flow_scalar single = with_parts 4 (\<lambda>t. readM (\<lambda>p0. let start_mark = p_mark p0 in
     seqM SKIP
     (bindM (loopM (flow_line single start_mark) t) (\<lambda>t.
      seqM SKIP
      (readM (\<lambda>p. let end_mark = p_mark p in
        seqM (modifyM (STRING_DEL \<circ> STRING_DEL \<circ> STRING_DEL))
          (returnM (TOKEN_INIT (ScalarToken (str_contents (sp_string t))
             (if single then YAML_SINGLE_QUOTED_SCALAR_STYLE else YAML_DOUBLE_QUOTED_SCALAR_STYLE)) start_mark end_mark))))))))"

text \<open>Plain scalars; the variables of the loops are \<open>leading_blanks\<close>, \<open>end_mark\<close> and the strings.\<close>

type_synonym plain_state = "bool \<times> yaml_mark \<times> scalar_parts"

definition plain_chars :: "yaml_mark \<Rightarrow> plain_state \<Rightarrow> ('h, 'z, plain_state) scanM" where
  "plain_chars start_mark = loopM (\<lambda>(leading_blanks, end_mark, t). lookingM 1 (\<lambda>b. readM (\<lambda>p.
     if IS_BLANKZ b then breakM (leading_blanks, end_mark, t)
     else lookingM 2 (\<lambda>b.
       if p_flow_level p \<noteq> 0 \<and> CHECK b CHR '':'' \<and> (\<exists>c\<in>set '',?[]{}''. CHECK_AT b c 1)
       then yaml_parser_set_scanner_error ''while scanning a plain scalar'' start_mark (''found unexpected ':'' @ [CHR 0x27])
       else if (CHECK b CHR '':'' \<and> IS_BLANKZ_AT b 1) \<or> (p_flow_level p \<noteq> 0 \<and> CHECK_ANY b '',[]{}'')
       then breakM (leading_blanks, end_mark, t)
       else
         bindM (if leading_blanks then fold_breaks t
            else if spos (sp_spaces t) \<noteq> 0 then join_spaces t else returnM t) (\<lambda>t.
         bindM (READ (sp_string t)) (\<lambda>s. readM (\<lambda>p.
           seqM (CACHE 2) (againM (False, p_mark p, t\<lparr>sp_string := s\<rparr>)))))))))"

definition forbid_tab :: "int \<Rightarrow> yaml_mark \<Rightarrow> bool \<Rightarrow> ystring \<Rightarrow> ('h, 'z, unit) scanM" where
  "forbid_tab indent start_mark leading_blanks b = readM (\<lambda>p.
     if leading_blanks \<and> column_of p < indent \<and> IS_TAB_AT b 0
     then yaml_parser_set_scanner_error ''while scanning a plain scalar'' start_mark ''found a tab character that violates indentation''
     else returnM ())"

definition plain_line :: "int \<Rightarrow> yaml_mark \<Rightarrow> plain_state \<Rightarrow> ('h, 'z, plain_state + plain_state) scanM" where
  "plain_line indent start_mark = (\<lambda>(leading_blanks, end_mark, t).
     seqM (CACHE 4)
     (bindM at_document_indicator (\<lambda>ind.
      bindM (lookM 1 (\<lambda>b. CHECK b CHR ''#'')) (\<lambda>comment.
        if ind \<or> comment then breakM (leading_blanks, end_mark, t)
        else bindM (plain_chars start_mark (leading_blanks, end_mark, t)) (\<lambda>(leading_blanks, end_mark, t).
          bindM (lookM 1 (\<lambda>b. IS_BLANK b \<or> IS_BREAK b)) (\<lambda>blank.
            if \<not> blank then breakM (leading_blanks, end_mark, t)
            else seqM (CACHE 1)
              (bindM (scan_blanks (forbid_tab indent start_mark) (leading_blanks, t)) (\<lambda>(leading_blanks, t).
               readM (\<lambda>p. if p_flow_level p = 0 \<and> column_of p < indent
                 then breakM (leading_blanks, end_mark, t)
                 else againM (leading_blanks, end_mark, t))))))))))"

definition yaml_parser_scan_plain_scalar :: "('h, 'z, yaml_token) scanM" where
  "yaml_parser_scan_plain_scalar = readM (\<lambda>p0. let indent = p_indent p0 + 1 in
     with_parts 4 (\<lambda>t. let start_mark = p_mark p0 in
       bindM (loopM (plain_line indent start_mark) (False, start_mark, t)) (\<lambda>(leading_blanks, end_mark, t).
       seqM (modifyM (\<lambda>p. if leading_blanks then p\<lparr>p_simple_key_allowed := True\<rparr> else p))
       (seqM (modifyM (STRING_DEL \<circ> STRING_DEL \<circ> STRING_DEL))
         (returnM (TOKEN_INIT (ScalarToken (str_contents (sp_string t)) YAML_PLAIN_SCALAR_STYLE) start_mark end_mark))))))"

subsection \<open>Token fetchers with a scanner\<close>

definition yaml_parser_fetch_directive :: "('h, 'z, unit) scanM" where
  "yaml_parser_fetch_directive =
     seqM (yaml_parser_unroll_indent (-1))
     (seqM yaml_parser_remove_simple_key
     (seqM (set_simple_key_allowed False)
       (bindM yaml_parser_scan_directive enqueue_or_delete)))"

definition yaml_parser_fetch_anchor :: "bool \<Rightarrow> ('h, 'z, unit) scanM" where
  "yaml_parser_fetch_anchor is_anchor =
     seqM yaml_parser_save_simple_key
     (seqM (set_simple_key_allowed False)
       (bindM (yaml_parser_scan_anchor is_anchor) enqueue_or_delete))"

definition yaml_parser_fetch_tag :: "('h, 'z, unit) scanM" where
  "yaml_parser_fetch_tag =
     seqM yaml_parser_save_simple_key
     (seqM (set_simple_key_allowed False)
       (bindM yaml_parser_scan_tag enqueue_or_delete))"

definition yaml_parser_fetch_block_scalar :: "bool \<Rightarrow> ('h, 'z, unit) scanM" where
  "yaml_parser_fetch_block_scalar literal =
     seqM yaml_parser_remove_simple_key
     (seqM (set_simple_key_allowed True)
       (bindM (yaml_parser_scan_block_scalar literal) enqueue_or_delete))"

definition yaml_parser_fetch_flow_scalar :: "bool \<Rightarrow> ('h, 'z, unit) scanM" where
  "yaml_parser_fetch_flow_scalar single =
     seqM yaml_parser_save_simple_key
     (seqM (set_simple_key_allowed False)
       (bindM (yaml_parser_scan_flow_scalar single) enqueue_or_delete))"

definition yaml_parser_fetch_plain_scalar :: "('h, 'z, unit) scanM" where
  "yaml_parser_fetch_plain_scalar =
     seqM yaml_parser_save_simple_key
     (seqM (set_simple_key_allowed False)
       (bindM yaml_parser_scan_plain_scalar enqueue_or_delete))"

subsection \<open>The dispatcher\<close>

definition starts_plain :: "bool \<Rightarrow> ystring \<Rightarrow> bool" where
  "starts_plain flow b \<longleftrightarrow>
     \<not> (IS_BLANKZ b \<or> CHECK_ANY b ''-?:,[]{}#&*!|>\"%@`'' \<or> CHECK b CHR 0x27)
     \<or> (CHECK b CHR ''-'' \<and> \<not> IS_BLANK_AT b 1)
     \<or> (\<not> flow \<and> (CHECK b CHR ''?'' \<or> CHECK b CHR '':'') \<and> \<not> IS_BLANKZ_AT b 1)"

definition dispatch :: "ystring \<Rightarrow> bool \<Rightarrow> bool \<Rightarrow> ('h, 'z, unit) scanM" where
  "dispatch b column0 flow =
     (if IS_Z_AT b 0 then yaml_parser_fetch_stream_end
      else if column0 \<and> CHECK b CHR ''%'' then yaml_parser_fetch_directive
      else if column0 \<and> document_indicator CHR ''-'' b then yaml_parser_fetch_document_indicator DocumentStartToken
      else if column0 \<and> document_indicator CHR ''.'' b then yaml_parser_fetch_document_indicator DocumentEndToken
      else if CHECK b CHR ''['' then yaml_parser_fetch_flow_collection_start FlowSequenceStartToken
      else if CHECK b CHR ''{'' then yaml_parser_fetch_flow_collection_start FlowMappingStartToken
      else if CHECK b CHR '']'' then yaml_parser_fetch_flow_collection_end FlowSequenceEndToken
      else if CHECK b CHR ''}'' then yaml_parser_fetch_flow_collection_end FlowMappingEndToken
      else if CHECK b CHR '','' then yaml_parser_fetch_flow_entry
      else if CHECK b CHR ''-'' \<and> IS_BLANKZ_AT b 1 then yaml_parser_fetch_block_entry
      else if CHECK b CHR ''?'' \<and> (flow \<or> IS_BLANKZ_AT b 1) then yaml_parser_fetch_key
      else if CHECK b CHR '':'' \<and> (flow \<or> IS_BLANKZ_AT b 1) then yaml_parser_fetch_value
      else if CHECK b CHR ''*'' then yaml_parser_fetch_anchor False
      else if CHECK b CHR ''&'' then yaml_parser_fetch_anchor True
      else if CHECK b CHR ''!'' then yaml_parser_fetch_tag
      else if CHECK b CHR ''|'' \<and> \<not> flow then yaml_parser_fetch_block_scalar True
      else if CHECK b CHR ''>'' \<and> \<not> flow then yaml_parser_fetch_block_scalar False
      else if CHECK b CHR 0x27 then yaml_parser_fetch_flow_scalar True
      else if CHECK b CHR 0x22 then yaml_parser_fetch_flow_scalar False
      else if starts_plain flow b then yaml_parser_fetch_plain_scalar
      else readM (\<lambda>p. yaml_parser_set_scanner_error ''while scanning for the next token'' (p_mark p)
        ''found character that cannot start any token''))"

definition yaml_parser_fetch_next_token :: "('h, 'z, unit) scanM" where
  "yaml_parser_fetch_next_token =
     seqM (CACHE 1)
     (readM (\<lambda>p. if \<not> p_stream_start_produced p then yaml_parser_fetch_stream_start
        else
          seqM yaml_parser_scan_to_next_token
          (seqM yaml_parser_stale_simple_keys
          (seqM (readM (\<lambda>p. yaml_parser_unroll_indent (column_of p)))
          (seqM (CACHE 4)
            (lookingM 4 (\<lambda>b. readM (\<lambda>p. dispatch b (mark_column (p_mark p) = 0) (p_flow_level p \<noteq> 0)))))))))"

definition need_more_tokens :: "('h, 'z) yaml_scanner_scheme \<Rightarrow> bool" where
  "need_more_tokens p \<longleftrightarrow> (\<exists>k\<in>set (simple_keys p). sk_possible k \<and> sk_token_number k = p_tokens_parsed p)"

definition yaml_parser_fetch_more_tokens :: "('h, 'z, unit) scanM" where
  "yaml_parser_fetch_more_tokens =
     seqM (loopM (\<lambda>_. readM (\<lambda>p.
        if QUEUE_EMPTY (p_tokens p) then seqM yaml_parser_fetch_next_token (againM ())
        else seqM yaml_parser_stale_simple_keys
          (readM (\<lambda>p. if need_more_tokens p then seqM yaml_parser_fetch_next_token (againM ()) else breakM ())))) ())
       (modifyM (\<lambda>p. p\<lparr>p_token_available := True\<rparr>))"

text \<open>\<open>yaml_parser_scan\<close>; after the end of the stream or an error it returns an empty token.\<close>

definition yaml_parser_scan :: "('h, 'z, yaml_token) scanM" where
  "yaml_parser_scan = readM (\<lambda>p.
     if p_stream_end_produced p \<or> p_error p \<noteq> YAML_NO_ERROR then returnM (TOKEN_INIT NoToken null_mark null_mark)
     else
       seqM (if p_token_available p then returnM () else yaml_parser_fetch_more_tokens)
       (bindM (zoomM p_tokens (\<lambda>q p. p\<lparr>p_tokens := q\<rparr>) DEQUEUE) (\<lambda>t.
        seqM (modifyM (\<lambda>p. p\<lparr>p_token_available := False, p_tokens_parsed := p_tokens_parsed p + 1,
                            p_stream_end_produced := p_stream_end_produced p \<or> t_type t = YAML_STREAM_END_TOKEN\<rparr>))
          (returnM t))))"

end
