(* ===== verification/Scanner_Chars.thy ===== *)
theory Scanner_Chars
  imports Scanner Reader_Correct
begin

text \<open>
  The ground on which the scanner is verified: loops, what the reader leaves alone, the characters in the buffer as the
  macros see them, marks, and the \<open>view\<close> of a parser in the middle of a token.
\<close>

subsection \<open>Loops\<close>

lemma loopM_unfold:
  "loopM body l s = (case body l s of
     Return r s' \<Rightarrow> (case r of Inl l' \<Rightarrow> loopM body l' s' | Inr b \<Rightarrow> Return b s')
   | Error s' \<Rightarrow> Error s' | Fault \<Rightarrow> Fault)"
  unfolding loopM_def by (subst loop_result.simps) (simp split: result.split sum.split)

text \<open>The rule for loops: an invariant, and a measure that every further round decreases.\<close>

lemma wp_loopM:
  assumes "I l s"
    and body: "\<And>l s. I l s \<Longrightarrow> wp (body l) (\<lambda>r s'. case r of Inl l' \<Rightarrow> I l' s' \<and> \<mu> l' s' < (\<mu> l s :: nat) | Inr b \<Rightarrow> Q b s') E s"
  shows "wp (loopM body l) Q E s"
  using assms(1)
proof (induction "\<mu> l s" arbitrary: l s rule: less_induct)
  case less
  from body [OF less.prems] show ?case
    by (auto simp: wp_def loopM_unfold [of body l s] split: result.splits sum.splits dest!: less.hyps)
qed

subsection \<open>What the reader leaves alone\<close>

definition frame_part :: "('h, 'z) yaml_reader_scheme \<Rightarrow> 'z \<times> heap \<times> yaml_mark \<times> nat \<times> nat" where
  "frame_part p = (yaml_reader.more p, p_mem p, p_mark p, b_cap (p_raw_buffer p), b_cap (p_buffer p))"

definition reader_frame :: "(('h, 'z) yaml_reader_scheme, 'a) prog \<Rightarrow> bool" where
  "reader_frame m \<longleftrightarrow> (\<forall>p. case m p of Return a p' \<Rightarrow> frame_part p' = frame_part p \<and> p_error p' = p_error p
     | Error p' \<Rightarrow> frame_part p' = frame_part p \<and> p_error p' = YAML_READER_ERROR | Fault \<Rightarrow> True)"

lemma reader_frameD:
  assumes "reader_frame m"
  shows "m p = Return a p' \<Longrightarrow> frame_part p' = frame_part p \<and> p_error p' = p_error p"
    and "m p = Error p' \<Longrightarrow> frame_part p' = frame_part p \<and> p_error p' = YAML_READER_ERROR"
  using assms by (fastforce simp: reader_frame_def split: result.splits)+

lemma reader_frame_basic: "reader_frame (returnM a)" "reader_frame (assertM b)" "reader_frame (yaml_parser_set_reader_error m k v)"
  by (simp_all add: reader_frame_def prog_defs yaml_parser_set_reader_error_def frame_part_def)

lemma reader_frame_bindM: "reader_frame m \<Longrightarrow> (\<And>a. reader_frame (f a)) \<Longrightarrow> reader_frame (bindM m f)"
  unfolding reader_frame_def bindM_def
proof
  fix p
  assume "\<forall>p. case m p of Return a p' \<Rightarrow> frame_part p' = frame_part p \<and> p_error p' = p_error p
     | Error p' \<Rightarrow> frame_part p' = frame_part p \<and> p_error p' = YAML_READER_ERROR | Fault \<Rightarrow> True"
    and f: "\<And>a. \<forall>p. case f a p of Return a p' \<Rightarrow> frame_part p' = frame_part p \<and> p_error p' = p_error p
     | Error p' \<Rightarrow> frame_part p' = frame_part p \<and> p_error p' = YAML_READER_ERROR | Fault \<Rightarrow> True"
  then have m: "case m p of Return a p' \<Rightarrow> frame_part p' = frame_part p \<and> p_error p' = p_error p
     | Error p' \<Rightarrow> frame_part p' = frame_part p \<and> p_error p' = YAML_READER_ERROR | Fault \<Rightarrow> True" by blast
  show "case (case m p of Return a s' \<Rightarrow> f a s' | Error s' \<Rightarrow> Error s' | Fault \<Rightarrow> Fault) of
      Return a p' \<Rightarrow> frame_part p' = frame_part p \<and> p_error p' = p_error p
     | Error p' \<Rightarrow> frame_part p' = frame_part p \<and> p_error p' = YAML_READER_ERROR | Fault \<Rightarrow> True"
  proof (cases "m p")
    case (Return a q)
    with m f [of a, rule_format, of q] show ?thesis by (auto split: result.splits)
  qed (use m in auto)
qed

lemma reader_frame_seqM: "reader_frame m \<Longrightarrow> reader_frame n \<Longrightarrow> reader_frame (seqM m n)"
  by (simp add: seqM_def reader_frame_bindM)

lemma reader_frame_modifyM: "(\<And>p. frame_part (f p) = frame_part p \<and> p_error (f p) = p_error p) \<Longrightarrow> reader_frame (modifyM f)"
  by (simp add: reader_frame_def modifyM_def)

lemma reader_frame_choice:
  assumes "\<And>p. \<exists>m. reader_frame m \<and> f p = m p"
  shows "reader_frame f"
  unfolding reader_frame_def
proof
  fix p
  obtain m where "reader_frame m" "f p = m p" using assms by blast
  then show "case f p of Return a p' \<Rightarrow> frame_part p' = frame_part p \<and> p_error p' = p_error p
     | Error p' \<Rightarrow> frame_part p' = frame_part p \<and> p_error p' = YAML_READER_ERROR | Fault \<Rightarrow> True"
    unfolding reader_frame_def by simp
qed

lemma reader_frame_if: "reader_frame m \<Longrightarrow> reader_frame n \<Longrightarrow> reader_frame (\<lambda>p. if b p then m p else n p)"
  by (simp add: reader_frame_def)

lemma reader_frame_dep: "(\<And>p. reader_frame (f p)) \<Longrightarrow> reader_frame (\<lambda>p. f p p)"
  by (simp add: reader_frame_def)

lemma reader_frame_Return: "reader_frame (Return a)"
  by (simp add: reader_frame_def)

lemma reader_frame_update_raw_buffer: "reader_frame yaml_parser_update_raw_buffer"
  by (simp add: reader_frame_def yaml_parser_update_raw_buffer_def yaml_parser_set_reader_error_def errorM_def frame_part_def Let_def
      case_prod_beta split: option.split)

lemma reader_frame_whileM: "reader_frame m \<Longrightarrow> reader_frame (whileM n b m)"
proof (induction n)
  case 0
  show ?case by (simp add: reader_frame_def)
next
  case (Suc n)
  then have "reader_frame (bindM m (\<lambda>_. whileM n b m))" by (intro reader_frame_bindM) auto
  then show ?case by (simp add: reader_frame_def)
qed

lemma reader_frame_determine_encoding: "reader_frame yaml_parser_determine_encoding"
  unfolding yaml_parser_determine_encoding_def
  by (intro reader_frame_seqM reader_frame_whileM reader_frame_update_raw_buffer reader_frame_modifyM)
    (simp add: frame_part_def skip_raw_def)

lemma reader_frame_decode_step: "reader_frame decode_step"
proof (rule reader_frame_choice)
  fix p :: "('h, 'z) yaml_reader_scheme"
  have "reader_frame (put_buffer bs)" for bs
    by (simp add: reader_frame_def put_buffer_def frame_part_def)
  then have "reader_frame (seqM (modifyM (skip_raw w)) (seqM (put_buffer bs) (returnM True)))" for w bs
    by (intro reader_frame_seqM reader_frame_basic reader_frame_modifyM) (simp_all add: frame_part_def skip_raw_def)
  moreover have "reader_frame (Return False)" by (simp add: reader_frame_def)
  ultimately show "\<exists>m. reader_frame m \<and> decode_step p = m p"
    unfolding decode_step_def by (auto split: decoded.split intro: reader_frame_basic)
qed

lemma reader_frame_decode_loop: "reader_frame (decode_loop n :: (('h, 'z) yaml_reader_scheme, unit) prog)"
proof (induction n)
  case 0
  show ?case by (simp add: reader_frame_def)
next
  case (Suc n)
  have "reader_frame (bindM decode_step (\<lambda>continue. if continue then decode_loop n else returnM ()) :: (('h, 'z) yaml_reader_scheme, unit) prog)"
    by (rule reader_frame_bindM [OF reader_frame_decode_step]) (simp add: Suc.IH reader_frame_basic)
  then show ?case by (simp add: reader_frame_def)
qed

lemma reader_frame_fill_loop: "reader_frame (fill_loop n first len :: (('h, 'z) yaml_reader_scheme, unit) prog)"
proof (induction n arbitrary: first)
  case 0
  show ?case by (simp add: reader_frame_def)
next
  case (Suc n)
  have dec: "reader_frame (\<lambda>p :: ('h, 'z) yaml_reader_scheme. decode_loop (length (raw_rest p)) p)"
    by (rule reader_frame_dep) (rule reader_frame_decode_loop)
  have "reader_frame (put_buffer [0] :: (('h, 'z) yaml_reader_scheme, unit) prog)"
    by (simp add: reader_frame_def put_buffer_def frame_part_def)
  then have more: "reader_frame (\<lambda>p :: ('h, 'z) yaml_reader_scheme. if p_eof p then put_buffer [0] p else fill_loop n False len p)"
    using Suc.IH by (rule reader_frame_if)
  have "reader_frame (\<lambda>p :: ('h, 'z) yaml_reader_scheme. seqM (if \<not> first \<or> raw_rest p = [] then yaml_parser_update_raw_buffer else returnM ())
      (seqM (\<lambda>p. decode_loop (length (raw_rest p)) p)
        (\<lambda>p. if p_eof p then put_buffer [0] p else fill_loop n False len p)) p)"
    by (rule reader_frame_dep) (auto intro: dec more reader_frame_seqM reader_frame_update_raw_buffer reader_frame_basic)
  moreover have "reader_frame (\<lambda>p :: ('h, 'z) yaml_reader_scheme. if p_offset p \<ge> MAX_FILE_SIZE then
      yaml_parser_set_reader_error ''input is too long'' (p_offset p) (-1) p else Return () p)"
    by (intro reader_frame_if reader_frame_Return reader_frame_dep [of "\<lambda>p. yaml_parser_set_reader_error ''input is too long'' (p_offset p) (-1)"]
        reader_frame_basic)
  ultimately show ?case unfolding fill_loop.simps by (rule reader_frame_if)
qed

lemma reader_frame_update_buffer: "reader_frame (yaml_parser_update_buffer n :: (('h, 'z) yaml_reader_scheme, unit) prog)"
proof -
  have mv: "reader_frame (modifyM (move_unread :: ('h, 'z) yaml_reader_scheme \<Rightarrow> ('h, 'z) yaml_reader_scheme))"
    by (rule reader_frame_modifyM) (simp add: frame_part_def move_unread_def Let_def)
  have "reader_frame (\<lambda>p :: ('h, 'z) yaml_reader_scheme. seqM (if p_encoding p = YAML_ANY_ENCODING then yaml_parser_determine_encoding else returnM ())
      (seqM (modifyM move_unread) (fill_loop (4 * n + 5) True n)) p)"
    by (rule reader_frame_dep)
      (auto intro: reader_frame_seqM mv reader_frame_fill_loop reader_frame_determine_encoding reader_frame_basic)
  then show ?thesis unfolding yaml_parser_update_buffer_def
    by (intro reader_frame_seqM reader_frame_basic(2) reader_frame_if reader_frame_Return)
qed

subsection \<open>Octets of the buffer\<close>

lemma enc_char_simps [simp]: "enc [] = []" "enc (c # cs) = utf8_put c @ enc cs" "enc (cs @ ds) = enc cs @ enc ds"
  by (simp_all add: enc_def)

lemma octet_append: "octet (s @ t) i = (if i < length s then octet s i else octet t (i - length s))"
  by (auto simp: octet_def nth_append)

lemma octet_Nil [simp]: "octet [] i = 0"
  by (simp add: octet_def)

lemma octet_prefix: "octet s i \<noteq> 0 \<Longrightarrow> octet (s @ t) i = octet s i"
  by (auto simp: octet_def nth_append split: if_splits)

text \<open>What was seen at the beginning of the buffer is still there when more characters have been read.\<close>

lemma IS_BREAK_append: "IS_BREAK s \<Longrightarrow> IS_BREAK (s @ t)"
  by (auto simp: IS_BREAK_AT_def octet_prefix)

lemma octet_0_enc: "octet (enc (c # cs)) 0 = hd (utf8_put c)"
  using length_utf8_put_pos [of c] by (simp add: octet_def nth_append hd_conv_nth)

lemma allowed_is_char: "allowed_char c \<Longrightarrow> is_char c"
  using allowed_char_scalar [of c] by (simp add: is_char_def)

lemma allowed_char_0 [simp]: "\<not> allowed_char 0"
  by (simp add: allowed_char_def)

lemma is_char_0 [simp]: "is_char 0"
  by (simp add: is_char_def)

lemma WIDTH_enc: "is_char c \<Longrightarrow> WIDTH (enc (c # cs)) = length (utf8_put c)"
  unfolding WIDTH_AT_def octet_0_enc by (rule utf8_width_put) (simp add: is_char_def)

lemma put_one_byte:
  assumes "is_char c" "hd (utf8_put c) \<le> 0x7F"
  shows "utf8_put c = [hd (utf8_put c)]"
proof -
  have "unat (hd (utf8_put c)) < 128" using assms(2) by (simp add: word_le_nat_alt)
  then have "utf8_width (hd (utf8_put c)) = 1" by (simp add: utf8_width_def lead1)
  then have "length (utf8_put c) = 1" using assms(1) by (simp add: utf8_width_put is_char_def)
  then show ?thesis by (cases "utf8_put c") auto
qed

lemma hd_put_0: "is_char c \<Longrightarrow> hd (utf8_put c) = 0 \<longleftrightarrow> c = 0"
proof
  assume c: "is_char c" and "hd (utf8_put c) = 0"
  then have "utf8_put c = [0]" using put_one_byte [OF c] by simp
  then have "utf8_seq [0] c" using c by (simp add: utf8_seq_iff is_char_def)
  then show "c = 0" by (simp add: utf8_seq1 unsigned_eq_0_iff)
qed (simp add: utf8_put_def)

text \<open>The characters that the reader delivers: allowed ones, and a NUL at the end of the input.\<close>

definition chars_wf :: "bool \<Rightarrow> 32 word list \<Rightarrow> bool" where
  "chars_wf ended cs \<longleftrightarrow> (\<exists>vs. (\<forall>v\<in>set vs. allowed_char v) \<and> cs = vs @ (if ended then [0] else []))"

lemma chars_wf_tl: "chars_wf e (c # cs) \<Longrightarrow> c \<noteq> 0 \<Longrightarrow> allowed_char c \<and> chars_wf e cs"
  unfolding chars_wf_def by (auto simp: Cons_eq_append_conv split: if_splits)

lemma chars_wf_is_char: "chars_wf e cs \<Longrightarrow> c \<in> set cs \<Longrightarrow> is_char c"
  unfolding chars_wf_def by (auto intro: allowed_is_char split: if_splits)

text \<open>\<open>n\<close> characters can be looked at.\<close>

definition avail :: "nat \<Rightarrow> 32 word list \<Rightarrow> bool" where
  "avail n cs \<longleftrightarrow> n \<le> length cs \<or> 0 \<in> set cs"

lemma avail_0 [simp]: "avail 0 cs"
  by (simp add: avail_def)

lemma avail_mono: "avail n cs \<Longrightarrow> m \<le> n \<Longrightarrow> avail m cs"
  by (auto simp: avail_def)

lemma avail_not_Nil: "avail n cs \<Longrightarrow> 0 < n \<Longrightarrow> cs \<noteq> []"
  by (auto simp: avail_def)

lemma avail_append: "avail n cs \<Longrightarrow> avail n (cs @ ds)"
  by (auto simp: avail_def)

lemma octet_0_iff:
  assumes "chars_wf e cs" "cs \<noteq> []"
  shows "octet (enc cs) 0 = 0 \<longleftrightarrow> hd cs = 0"
proof -
  obtain c cs' where cs: "cs = c # cs'" using assms(2) by (cases cs) auto
  with assms(1) have "is_char c" by (auto intro: chars_wf_is_char)
  then show ?thesis unfolding cs octet_0_enc by (simp add: hd_put_0)
qed

lemma avail_tl: "chars_wf e cs \<Longrightarrow> octet (enc cs) 0 \<noteq> 0 \<Longrightarrow> avail (Suc n) cs \<Longrightarrow> avail n (tl cs)"
  by (cases cs) (auto simp: avail_def octet_def utf8_put_def)

text \<open>Behind an ASCII character the octets of the next one follow.\<close>

lemma octet_tl:
  assumes "chars_wf e cs" "octet (enc cs) 0 \<noteq> 0" "octet (enc cs) 0 \<le> 0x7F"
  shows "octet (enc cs) (Suc i) = octet (enc (tl cs)) i"
proof -
  obtain c cs' where cs: "cs = c # cs'" using assms(2) by (cases cs) auto
  have "is_char c" using assms(1) by (auto simp: cs intro: chars_wf_is_char)
  then have "utf8_put c = [hd (utf8_put c)]" using assms(3) unfolding cs octet_0_enc by (rule put_one_byte)
  then have "length (utf8_put c) = 1" by (metis length_Cons list.size(3) One_nat_def)
  then show ?thesis by (simp add: cs octet_append)
qed

subsection \<open>Marks\<close>

definition mark_before :: "yaml_mark \<Rightarrow> yaml_mark \<Rightarrow> bool" where
  "mark_before m m' \<longleftrightarrow> mark_line m < mark_line m' \<or> (mark_line m = mark_line m' \<and> mark_column m < mark_column m')"

lemma mark_before_trans: "mark_before m m' \<Longrightarrow> mark_before m' m'' \<Longrightarrow> mark_before m m''"
  by (auto simp: mark_before_def)

lemma mark_before_next [simp]: "mark_before m (next_column m)" "mark_before m (next_line k m)"
  by (simp_all add: mark_before_def next_column_def next_line_def)

end
