(* ===== verification/Scanner_View.thy ===== *)
theory Scanner_View
  imports Scanner_Chars
begin

text \<open>
  Rules for the operations of the scanner that deal with characters and local strings.  They are stated for a parser in
  the middle of a token, as a \<open>view\<close> relative to the state in which the token began.
\<close>

lemma wp_choiceI: "(c \<Longrightarrow> wp m Q E p) \<Longrightarrow> (\<not> c \<Longrightarrow> wp n Q E p) \<Longrightarrow> wp (if c then m else n) Q E p"
  by simp

lemma ifI: "(c \<Longrightarrow> P) \<Longrightarrow> (\<not> c \<Longrightarrow> Q) \<Longrightarrow> if c then P else Q"
  by simp

lemmas wp_unfold = wp_bindM wp_seqM wp_readM wp_returnM wp_modifyM wp_getM wp_cleanupM wp_if Let_def prod.case

subsection \<open>Views\<close>

text \<open>The part of a parser that scanning a token does not touch; \<open>simple_key_allowed\<close> may change.\<close>

definition kept where
  "kept p = ((p_stream_start_produced p, p_stream_end_produced p, p_flow_level p, p_tokens p, p_tokens_parsed p, p_token_available p),
     (p_indents p, p_indent p, p_simple_keys p, yaml_scanner.more p, b_cap (p_raw_buffer p), b_cap (p_buffer p)))"

lemma kept_simps [simp]:
  "kept (p\<lparr>p_mem := h\<rparr>) = kept p" "kept (p\<lparr>p_error := e\<rparr>) = kept p" "kept (p\<lparr>p_simple_key_allowed := a\<rparr>) = kept p"
  "kept (p\<lparr>p_mark := m\<rparr>) = kept p" "kept (p\<lparr>p_unread := n\<rparr>) = kept p" "kept (p\<lparr>p_problem := x\<rparr>) = kept p"
  "kept (p\<lparr>p_context := x\<rparr>) = kept p" "kept (p\<lparr>p_problem_mark := y\<rparr>) = kept p" "kept (p\<lparr>p_context_mark := y\<rparr>) = kept p"
  "kept (p\<lparr>p_buffer := (p_buffer p)\<lparr>b_pos := n\<rparr>\<rparr>) = kept p"
  by (simp_all add: kept_def)

text \<open>How an operation ends that returns 0: with an error that is not the loader's, and the same blocks but \<open>k\<close>.\<close>

definition lost :: "('h, 'z) yaml_scanner_scheme \<Rightarrow> int \<Rightarrow> ('h, 'z) yaml_scanner_scheme \<Rightarrow> bool" where
  "lost p0 k p \<longleftrightarrow> p_error p \<noteq> YAML_COMPOSER_ERROR \<and> kept p = kept p0 \<and> live (p_mem p) = live (p_mem p0) + k"

lemma live_freeP [simp]: "live (p_mem (freeP f p)) = live (f (p_mem p))"
  by (simp add: freeP_def)

lemma lost_del: "lost p0 (k + 1) p \<Longrightarrow> lost p0 k (STRING_DEL p)"
  by (simp add: lost_def freeP_def)

lemma lost_token: "lost p0 (k + token_blocks t) p \<Longrightarrow> lost p0 k (freeP (yaml_token_delete t) p)"
  by (simp add: lost_def freeP_def)

text \<open>A local string, and room for \<open>n\<close> octets and the NUL in it.\<close>

definition strg :: "ystr \<Rightarrow> bool" where
  "strg s \<longleftrightarrow> str_ok s \<and> 16 \<le> length (sbytes s)"

definition room :: "nat \<Rightarrow> ystr \<Rightarrow> bool" where
  "room n s \<longleftrightarrow> spos s + n < length (sbytes s)"

lemma room_mono: "room n s \<Longrightarrow> m \<le> n \<Longrightarrow> room m s"
  by (auto simp: room_def)

lemma strg_CLEAR [simp]: "strg s \<Longrightarrow> strg (CLEAR s)"
  by (auto simp: strg_def CLEAR_def str_ok_def)

context byte_source
begin

text \<open>
  \<open>view p0 k b cs p\<close>: since \<open>p0\<close>, \<open>k\<close> more blocks are live and characters have been consumed, so that at most \<open>b\<close> are
  left; the mark has moved on exactly if some were.  The buffer holds the characters \<open>cs\<close>.
\<close>

definition view :: "('h, 'z) yaml_scanner_scheme \<Rightarrow> int \<Rightarrow> nat \<Rightarrow> 32 word list \<Rightarrow> ('h, 'z) yaml_scanner_scheme \<Rightarrow> bool" where
  "view p0 k b cs p \<longleftrightarrow> reader_ok handler pending src_ok p \<and> holds p cs \<and> chars_wf (p_eof p) cs \<and> p_error p = YAML_NO_ERROR
     \<and> kept p = kept p0 \<and> live (p_mem p) = live (p_mem p0) + k \<and> chars_bound pending p \<le> b \<and> b \<le> chars_bound pending p0
     \<and> (if b < chars_bound pending p0 then mark_before (p_mark p0) (p_mark p) else p_mark p = p_mark p0)"

lemma view_start:
  assumes "reader_ok handler pending src_ok p" "holds p cs" "chars_wf (p_eof p) cs" "p_error p = YAML_NO_ERROR"
  shows "view p 0 (chars_bound pending p) cs p"
  using assms by (simp add: view_def)

lemma view_wf: "view p0 k b cs p \<Longrightarrow> chars_wf (p_eof p) cs"
  by (simp add: view_def)

lemma view_kept: "view p0 k b cs p \<Longrightarrow> kept p = kept p0"
  by (simp add: view_def)

lemma view_lost: "view p0 k b cs p \<Longrightarrow> lost p0 k (p\<lparr>p_error := YAML_MEMORY_ERROR\<rparr>)"
  by (simp add: view_def lost_def)

text \<open>Changes of the memory and of \<open>simple_key_allowed\<close>.\<close>

lemma view_mem:
  assumes "view p0 k b cs p" "live h = live (p_mem p) + j"
  shows "view p0 (k + j) b cs (p\<lparr>p_mem := h\<rparr>)"
  using assms by (simp add: view_def reader_ok_def reader_inv_def holds_def chars_bound_def bytes_left_def)

lemma view_del: "view p0 (k + 1) b cs p \<Longrightarrow> view p0 k b cs (STRING_DEL p)"
  using view_mem [of p0 "k + 1" b cs p "yaml_free True (p_mem p)" "-1"] by (simp add: freeP_def)

lemma view_allowed: "view p0 k b cs p \<Longrightarrow> view p0 k b cs (p\<lparr>p_simple_key_allowed := a\<rparr>)"
  by (simp add: view_def reader_ok_def reader_inv_def holds_def chars_bound_def bytes_left_def)

subsection \<open>Characters\<close>

lemma chars_wf_appended:
  assumes "appended False new p" "chars_wf False cs"
  shows "chars_wf (p_eof p) (cs @ new)"
proof -
  obtain vs where "\<forall>v\<in>set vs. allowed_char v" "new = vs @ (if p_eof p then [0] else [])"
    using assms(1) by (auto simp: appended_def)
  moreover have "\<forall>c\<in>set cs. allowed_char c" using assms(2) by (auto simp: chars_wf_def)
  ultimately show ?thesis unfolding chars_wf_def by (intro exI [of _ "cs @ vs"]) auto
qed

lemma wp_CACHE:
  fixes p :: "('h, 'z) yaml_scanner_scheme"
  assumes v: "view p0 k b cs p" and n: "n \<le> 4095"
    and Q: "\<And>cs' p'. view p0 k b (cs @ cs') p' \<Longrightarrow> avail n (cs @ cs') \<Longrightarrow> Q () p'"
    and E: "\<And>p'. lost p0 k p' \<Longrightarrow> E p'"
  shows "wp (CACHE n) Q E p"
proof (cases "n \<le> p_unread p \<or> p_eof p")
  case True
  have "avail n cs" using True v by (auto simp: view_def avail_def holds_def chars_wf_def)
  then have "Q () p" using Q [of "[]" p] v by simp
  moreover have "yaml_parser_update_buffer n p = Return () p" if "\<not> n \<le> p_unread p"
    using that True v by (auto simp: yaml_parser_update_buffer_def prog_defs view_def reader_ok_def reader_inv_def)
  ultimately show ?thesis by (simp add: CACHE_def wp_def readM_def returnM_def)
next
  case False
  have ok: "reader_ok handler pending src_ok p" "holds p cs" using v by (simp_all add: view_def)
  have "wp (yaml_parser_update_buffer n) Q E p"
  proof (rule wp_mono [OF wp_update_buffer [OF ok n]])
    fix a p'
    assume "yaml_parser_update_buffer n p = Return a p'"
      and f: "filled (p_eof p) cs (source_chars pending p) n (chars_bound pending p) p'"
    then have same: "frame_part p' = frame_part p" "p_error p' = p_error p"
      using reader_frameD [OF reader_frame_update_buffer] by blast+
    from f obtain new where new: "holds p' (cs @ new)" "appended False new p'" using False by (auto simp: filled_def)
    have "chars_wf False cs" using v False by (simp add: view_def)
    from new(2) this have wf: "chars_wf (p_eof p') (cs @ new)" by (rule chars_wf_appended)
    have "yaml_scanner.more p' = yaml_scanner.more p \<and> kept p' = kept p"
      using same(1) by (cases p; cases p') (simp add: kept_def frame_part_def)
    then have "view p0 k b (cs @ new) p'"
      using v f new wf same unfolding view_def by (auto simp: filled_def frame_part_def)
    moreover have "avail n (cs @ new)"
    proof (cases "p_eof p'")
      case True
      with wf obtain vs where eq: "cs @ new = vs @ [0]" by (auto simp: chars_wf_def)
      show ?thesis unfolding eq by (simp add: avail_def)
    next
      case False
      with f new(1) show ?thesis by (simp add: filled_def avail_def holds_def)
    qed
    ultimately show "Q a p'" using Q by simp
  next
    fix p'
    assume "yaml_parser_update_buffer n p = Error p'"
    then have same: "frame_part p' = frame_part p" "p_error p' = YAML_READER_ERROR"
      using reader_frameD [OF reader_frame_update_buffer] by blast+
    moreover have "kept p' = kept p"
      using same(1) by (cases p; cases p') (simp add: kept_def frame_part_def)
    ultimately show "E p'" using v by (intro E) (simp add: lost_def view_def frame_part_def)
  qed
  with False show ?thesis by (simp add: CACHE_def wp_simps)
qed

lemma view_rest: "view p0 k b cs p \<Longrightarrow> b_rest (p_buffer p) = enc cs"
  by (simp add: view_def holds_def enc_def)

lemma wp_lookM:
  assumes v: "view p0 k b cs p" and n: "avail n cs" and Q: "view p0 k b cs p \<Longrightarrow> Q (f (enc cs)) p"
  shows "wp (lookM n f) Q E p"
proof -
  have "cached n p" using v n by (auto simp: view_def holds_def cached_def avail_def chars_wf_def split: if_splits)
  with Q v view_rest [OF v] show ?thesis by (simp add: lookM_def wp_simps)
qed

lemma wp_lookingM:
  assumes "view p0 k b cs p" "avail n cs" "view p0 k b cs p \<Longrightarrow> wp (f (enc cs)) Q E p"
  shows "wp (lookingM n f) Q E p"
  unfolding lookingM_def wp_bindM by (rule wp_lookM [OF assms(1,2)]) (use assms(3) in simp)

lemma chars_wf_rest: "chars_wf e (ds @ cs) \<Longrightarrow> 0 \<notin> set ds \<Longrightarrow> chars_wf e cs"
  by (induction ds) (auto dest: chars_wf_tl)

lemma wp_advance:
  assumes v: "view p0 k b (ds @ cs) p" and ds: "0 \<notin> set ds" "ds \<noteq> []" and n: "n = length (enc ds)" "j = length ds"
    and mv: "\<And>m. mark_before m (move m)"
    and Q: "\<And>p'. view p0 k (b - 1) cs p' \<Longrightarrow> 0 < b \<Longrightarrow> Q () p'"
  shows "wp (advance n j move) Q E p"
proof -
  let ?p' = "p\<lparr>p_buffer := (p_buffer p)\<lparr>b_pos := b_pos (p_buffer p) + n\<rparr>, p_unread := p_unread p - j, p_mark := move (p_mark p)\<rparr>"
  have rest: "b_rest (p_buffer p) = enc ds @ enc cs" using view_rest [OF v] by simp
  have unread: "p_unread p = j + length cs" using v n by (simp add: view_def holds_def)
  have "b_rest (p_buffer ?p') = drop n (b_rest (p_buffer p))" by (simp add: b_rest_def add.commute)
  then have "holds ?p' cs" using rest n unread by (simp add: holds_def enc_def)
  moreover have "reader_ok handler pending src_ok ?p'"
  proof -
    have "b_pos (p_buffer p) + n \<le> length (b_data (p_buffer p))" 
    proof -
      have "0 < n" using ds(2) n(1) length_utf8_put_pos by (cases ds) auto
      moreover have "n \<le> length (b_data (p_buffer p)) - b_pos (p_buffer p)"
        using arg_cong [OF rest, of length] n(1) by (simp add: b_rest_def)
      ultimately show ?thesis by linarith
    qed
    then show ?thesis using v by (simp add: view_def reader_ok_def reader_inv_def buffer_ok_def)
  qed
  moreover have "chars_wf (p_eof ?p') cs" using chars_wf_rest [OF view_wf [OF v] ds(1)] by simp
  moreover have j: "0 < j" using ds n by simp
  then have "chars_bound pending ?p' \<le> b - 1" "0 < b"
    using v unread by (auto simp: chars_bound_def view_def bytes_left_def)
  moreover have "mark_before (p_mark p0) (p_mark ?p')"
  proof (cases "b < chars_bound pending p0")
    case True
    then have "mark_before (p_mark p0) (p_mark p)" using v by (simp add: view_def)
    from mark_before_trans [OF this mv] show ?thesis by simp
  next
    case False
    with v mv [of "p_mark p"] show ?thesis by (simp add: view_def)
  qed
  moreover have "kept ?p' = kept p0 \<and> live (p_mem ?p') = live (p_mem p0) + k \<and> p_error ?p' = YAML_NO_ERROR \<and> b \<le> chars_bound pending p0"
    using v by (simp add: view_def)
  ultimately have "view p0 k (b - 1) cs ?p' \<and> 0 < b" unfolding view_def by (intro conjI) (simp_all, linarith+)
  then have "Q () ?p'" using Q by blast
  moreover have "j \<le> p_unread p \<and> n \<le> length (b_rest (p_buffer p))" using unread rest n by simp
  ultimately show ?thesis by (simp add: advance_def wp_simps)
qed

lemma view_head:
  assumes "view p0 k b cs p" "octet (enc cs) 0 \<noteq> 0"
  obtains c where "cs = c # tl cs" "c \<noteq> 0" "is_char c" "WIDTH (enc cs) = length (utf8_put c)"
proof -
  obtain c cs' where cs: "cs = c # cs'" using assms(2) by (cases cs) auto
  have "is_char c" using view_wf [OF assms(1)] by (auto simp: cs intro: chars_wf_is_char)
  moreover have "c \<noteq> 0" using octet_0_iff [OF view_wf [OF assms(1)]] assms(2) by (auto simp: cs)
  ultimately show ?thesis using that WIDTH_enc [of c cs'] by (simp add: cs)
qed

text \<open>\<open>SKIP\<close> on any character but the NUL at the end.\<close>

lemma wp_SKIP:
  assumes v: "view p0 k b cs p" and nz: "octet (enc cs) 0 \<noteq> 0"
    and Q: "\<And>p'. view p0 k (b - 1) (tl cs) p' \<Longrightarrow> 0 < b \<Longrightarrow> Q () p'"
  shows "wp SKIP Q E p"
proof -
  obtain c where c: "cs = c # tl cs" "c \<noteq> 0" "WIDTH (enc cs) = length (utf8_put c)" using view_head [OF v nz] by blast
  have "avail 1 cs" using c(1) by (cases cs) (auto simp: avail_def)
  then show ?thesis unfolding SKIP_def
    by (rule wp_lookingM [OF v]) (rule wp_advance [of _ _ _ "[c]" "tl cs"], use v c Q in auto)
qed

lemma length_put_ascii: "is_char c \<Longrightarrow> hd (utf8_put c) \<le> 0x7F \<Longrightarrow> length (utf8_put c) = 1"
  using arg_cong [OF put_one_byte, of c length] by simp

lemma octet_0_break: "IS_BREAK s \<Longrightarrow> octet s 0 \<noteq> 0"
  by (auto simp: IS_BREAK_AT_def)

lemma view_crlf:
  assumes v: "view p0 k b cs p" and "IS_CRLF_AT (enc cs) 0"
  obtains c d cs' where "cs = [c, d] @ cs'" "c \<noteq> 0" "d \<noteq> 0" "length (enc [c, d]) = 2"
proof -
  have nz: "octet (enc cs) 0 \<noteq> 0" using assms(2) by (auto simp: IS_CRLF_AT_def)
  obtain c where c: "cs = c # tl cs" "c \<noteq> 0" "is_char c" using view_head [OF v nz] by blast
  have wf: "chars_wf (p_eof p) (tl cs)" using chars_wf_tl [of "p_eof p" c "tl cs"] view_wf [OF v] c by auto
  have "octet (enc cs) (Suc 0) = octet (enc (tl cs)) 0"
    by (rule octet_tl [OF view_wf [OF v] nz]) (use assms(2) in \<open>simp add: IS_CRLF_AT_def\<close>)
  then have o: "octet (enc (tl cs)) 0 = 0x0A" using assms(2) by (simp add: IS_CRLF_AT_def)
  then obtain d cs' where d: "tl cs = d # cs'" by (cases "tl cs") auto
  have "is_char d" using wf by (auto simp: d intro: chars_wf_is_char)
  moreover have "d \<noteq> 0" using octet_0_iff [OF wf] o by (auto simp: d)
  moreover have "hd (utf8_put c) = 0x0D" using assms(2) c(1) by (metis IS_CRLF_AT_def octet_0_enc)
  moreover have "hd (utf8_put d) = 0x0A" using o by (simp add: d octet_0_enc del: enc_char_simps)
  ultimately have "length (utf8_put c) = 1" "length (utf8_put d) = 1"
    by (simp_all add: length_put_ascii c(3))
  with c d \<open>d \<noteq> 0\<close> show ?thesis by (intro that [of c d cs']) auto
qed

lemma wp_advance_crlf:
  assumes v: "view p0 k b cs p" and crlf: "IS_CRLF_AT (enc cs) 0"
    and Q: "\<And>cs' p'. view p0 k (b - 1) cs' p' \<Longrightarrow> 0 < b \<Longrightarrow> Q () p'"
  shows "wp (advance 2 2 (next_line 2)) Q E p"
proof -
  obtain c d cs' where "cs = [c, d] @ cs'" "c \<noteq> 0" "d \<noteq> 0" "length (enc [c, d]) = 2" using view_crlf [OF v crlf] by blast
  with v Q show ?thesis by (intro wp_advance [of _ _ _ "[c, d]" cs']) auto
qed

lemma wp_SKIP_LINE:
  assumes v: "view p0 k b cs p" and two: "avail 2 cs" and br: "IS_BREAK (enc cs)"
    and Q: "\<And>cs' p'. view p0 k (b - 1) cs' p' \<Longrightarrow> 0 < b \<Longrightarrow> Q () p'"
  shows "wp SKIP_LINE Q E p"
  unfolding SKIP_LINE_def
proof (rule wp_lookingM [OF v two])
  show "wp (if IS_CRLF_AT (enc cs) 0 then advance 2 2 (next_line 2)
      else if IS_BREAK (enc cs) then advance (WIDTH (enc cs)) 1 (next_line 1) else returnM ()) Q E p"
  proof (cases "IS_CRLF_AT (enc cs) 0")
    case True
    then show ?thesis by (simp only: if_True) (rule wp_advance_crlf [OF v True], rule Q)
  next
    case False
    obtain c where "cs = c # tl cs" "c \<noteq> 0" "WIDTH (enc cs) = length (utf8_put c)"
      using view_head [OF v octet_0_break [OF br]] by blast
    with False br v Q show ?thesis by (simp only: if_True if_False) (rule wp_advance [of _ _ _ "[c]" "tl cs"], auto)
  qed
qed

lemma wp_skip_n:
  assumes "view p0 k b cs p" and "\<forall>i<n. octet (enc cs) i \<noteq> 0 \<and> octet (enc cs) i \<le> 0x7F"
    and "\<And>p'. view p0 k (b - n) (drop n cs) p' \<Longrightarrow> n \<le> b \<Longrightarrow> Q () p'"
  shows "wp (skip_n n) Q E p"
  using assms
proof (induction n arbitrary: p b cs)
  case 0
  then show ?case by (simp add: skip_n_def wp_simps)
next
  case (Suc n)
  have nz: "octet (enc cs) 0 \<noteq> 0" and ascii: "octet (enc cs) 0 \<le> 0x7F" using Suc.prems(2) by auto
  have "wp (seqM SKIP (skip_n n)) Q E p" unfolding wp_seqM
  proof (rule wp_SKIP [OF Suc.prems(1) nz])
    fix p'
    assume v: "view p0 k (b - 1) (tl cs) p'" and b: "0 < b"
    show "wp (skip_n n) Q E p'"
    proof (rule Suc.IH [OF v])
      show "\<forall>i<n. octet (enc (tl cs)) i \<noteq> 0 \<and> octet (enc (tl cs)) i \<le> 0x7F"
        using Suc.prems(2) octet_tl [OF view_wf [OF Suc.prems(1)] nz ascii] by auto
      fix p''
      assume "view p0 k (b - 1 - n) (drop n (tl cs)) p''" "n \<le> b - 1"
      then show "Q () p''" using Suc.prems(3) b by (simp add: drop_Suc)
    qed
  qed
  then show ?case by (simp add: skip_n_def)
qed

subsection \<open>Errors and strings\<close>

lemma wp_scanner_error:
  assumes "view p0 k b cs p" and "\<And>p'. lost p0 k p' \<Longrightarrow> E p'"
  shows "wp (yaml_parser_set_scanner_error c m e) Q E p"
  using assms by (auto simp: yaml_parser_set_scanner_error_def wp_simps view_def lost_def intro!: assms(2))

lemma wp_with_string:
  assumes v: "view p0 k b cs p"
    and m: "\<And>s p'. view p0 (k + 1) b cs p' \<Longrightarrow> strg s \<Longrightarrow> spos s = 0 \<Longrightarrow> wp (m s) Q (\<lambda>p''. E (STRING_DEL p'')) p'"
    and E: "\<And>p'. lost p0 k p' \<Longrightarrow> E p'"
  shows "wp (with_string m) Q E p"
  unfolding with_string_def wp_bindM wp_memP wp_cleanupM STRING_INIT_def
proof (rule wp_yaml_malloc)
  fix h :: heap
  assume "live h = live (p_mem p) + 1"
  from m [OF view_mem [OF v this], of "\<lparr>sbytes = replicate INITIAL_STRING_SIZE 0, spos = 0\<rparr>"]
  show "wp (if True then returnM \<lparr>sbytes = replicate INITIAL_STRING_SIZE 0, spos = 0\<rparr> else errorM id)
      (\<lambda>a h. wp (m a) Q (\<lambda>p. E (STRING_DEL p)) (p\<lparr>p_mem := h\<rparr>)) (\<lambda>h. E (p\<lparr>p_mem := h, p_error := YAML_MEMORY_ERROR\<rparr>)) h"
    by (simp add: wp_simps strg_def str_ok_def INITIAL_STRING_SIZE_def)
next
  fix h :: heap
  assume "live h = live (p_mem p)"
  with v have "lost p0 k (p\<lparr>p_mem := h, p_error := YAML_MEMORY_ERROR\<rparr>)" by (simp add: lost_def view_def)
  then show "wp (if False then returnM \<lparr>sbytes = replicate INITIAL_STRING_SIZE 0, spos = 0\<rparr> else errorM id)
      (\<lambda>a h. wp (m a) Q (\<lambda>p. E (STRING_DEL p)) (p\<lparr>p_mem := h\<rparr>)) (\<lambda>h. E (p\<lparr>p_mem := h, p_error := YAML_MEMORY_ERROR\<rparr>)) h"
    by (simp add: wp_simps E)
qed

lemma wp_stringM: "wp (stringM m s) Q E p = wp m (\<lambda>_ (s', h). Q s' (p\<lparr>p_mem := h\<rparr>))
    (\<lambda>(s', h). E (p\<lparr>p_mem := h, p_error := YAML_MEMORY_ERROR\<rparr>)) (s, p_mem p)"
  by (simp add: wp_def stringM_def split: result.split prod.split)

lemma view_mem_same: "view p0 k b cs p \<Longrightarrow> live h = live (p_mem p) \<Longrightarrow> view p0 k b cs (p\<lparr>p_mem := h\<rparr>)"
  using view_mem [of p0 k b cs p h 0] by simp

lemma view_mem_lost:
  "view p0 k b cs p \<Longrightarrow> live h = live (p_mem p) \<Longrightarrow> lost p0 k (p\<lparr>p_mem := h, p_error := YAML_MEMORY_ERROR\<rparr>)"
  by (simp add: view_def lost_def)

lemma length_STRING_EXTEND: "STRING_EXTEND (s, h) = Return a (s', h') \<Longrightarrow> length (sbytes s) \<le> length (sbytes s')"
  by (auto simp: STRING_EXTEND_def yaml_string_extend_def split: if_splits result.splits bool.splits)

lemma wp_extend_string:
  assumes v: "view p0 k b cs p" and s: "strg s"
    and Q: "\<And>s' p'. view p0 k b cs p' \<Longrightarrow> strg s' \<Longrightarrow> room 5 s' \<Longrightarrow> spos s' = spos s \<Longrightarrow> Q s' p'"
    and E: "\<And>p'. lost p0 k p' \<Longrightarrow> E p'"
  shows "wp (extend_string s) Q E p"
proof -
  have "wp STRING_EXTEND (\<lambda>_ (s', h'). str_ok s' \<and> spos s' = spos s \<and> room 5 s' \<and> live h' = live (p_mem p))
      (\<lambda>(s', h'). live h' = live (p_mem p)) (s, p_mem p)"
    using s by (intro wp_STRING_EXTEND) (auto simp: strg_def room_def)
  then show ?thesis unfolding extend_string_def wp_stringM
  proof (rule wp_mono)
    fix a r
    assume "STRING_EXTEND (s, p_mem p) = Return a r"
      and *: "case r of (s', h') \<Rightarrow> str_ok s' \<and> spos s' = spos s \<and> room 5 s' \<and> live h' = live (p_mem p)"
    with length_STRING_EXTEND have "length (sbytes s) \<le> length (sbytes (fst r))" by (metis prod.collapse)
    with s * v show "case r of (s', h') \<Rightarrow> Q s' (p\<lparr>p_mem := h'\<rparr>)"
      by (auto simp: strg_def intro!: Q view_mem_same)
  qed (use view_mem_lost [OF v] in \<open>auto intro: E\<close>)
qed

lemma wp_put:
  assumes v: "view p0 k b cs p" and s: "strg s" "room n s" and bs: "length bs \<le> n"
    and Q: "\<And>s'. view p0 k b cs p \<Longrightarrow> strg s' \<Longrightarrow> room (n - length bs) s' \<Longrightarrow> spos s' = spos s + length bs \<Longrightarrow> Q s' p"
  shows "wp (put bs s) Q E p"
proof -
  let ?s' = "\<lparr>sbytes = take (spos s) (sbytes s) @ bs @ drop (spos s + length bs) (sbytes s), spos = spos s + length bs\<rparr>"
  have "length bs < str_free_space s" using s bs by (auto simp: room_def str_free_space_def strg_def str_ok_def)
  then have "str_append bs (s, p_mem p) = Return () (?s', p_mem p)" "str_ok ?s'"
    using str_append_ok [of s bs "p_mem p"] s by (auto simp: str_append_def strg_def split: if_splits)
  moreover have "length (sbytes ?s') = length (sbytes s)" using s bs by (auto simp: room_def)
  ultimately have "Q ?s' p" using s bs by (intro Q v) (auto simp: strg_def room_def)
  then show ?thesis unfolding put_def wp_stringM using \<open>str_append bs (s, p_mem p) = _\<close> by (simp add: wp_def)
qed

text \<open>\<open>JOIN\<close> never shortens its first argument.\<close>

lemma length_string_extend: "yaml_string_extend (s, h) = Return a (s', h') \<Longrightarrow> length (sbytes s) \<le> length (sbytes s')"
  by (auto simp: yaml_string_extend_def split: if_splits result.splits bool.splits)

lemma length_whileM_extend:
  "whileM n c yaml_string_extend (s, h) = Return a (s', h') \<Longrightarrow> length (sbytes s) \<le> length (sbytes s')"
proof (induction n arbitrary: s h)
  case 0
  then show ?case by (simp split: if_splits)
next
  case (Suc n)
  show ?case
  proof (cases "c (s, h)")
    case True
    with Suc.prems obtain s1 h1 where "yaml_string_extend (s, h) = Return () (s1, h1)"
        "whileM n c yaml_string_extend (s1, h1) = Return a (s', h')"
      by (auto simp: bindM_def split: result.splits)
    then show ?thesis by (meson Suc.IH length_string_extend order_trans)
  next
    case False
    with Suc.prems show ?thesis by simp
  qed
qed

lemma length_string_join: "yaml_string_join b (s, h) = Return a (s', h') \<Longrightarrow> length (sbytes s) \<le> length (sbytes s')"
  by (auto simp: yaml_string_join_def Let_def prog_defs str_append_def split: if_splits result.splits dest!: length_whileM_extend simp del: whileM.simps)

lemma wp_JOIN:
  assumes v: "view p0 k b cs p" and s: "strg s"
    and Q: "\<And>s' p'. view p0 k b cs p' \<Longrightarrow> strg s' \<Longrightarrow> Q s' p'"
    and E: "\<And>p'. lost p0 k p' \<Longrightarrow> E p'"
  shows "wp (JOIN s t) Q E p"
proof -
  have "wp (yaml_string_join t) (\<lambda>_ (s', h'). str_ok s' \<and> live h' = live (p_mem p))
      (\<lambda>(s', h'). live h' = live (p_mem p)) (s, p_mem p)"
    using s by (intro wp_yaml_string_join) (auto simp: strg_def)
  then show ?thesis unfolding JOIN_def wp_stringM
  proof (rule wp_mono)
    fix a r
    assume "yaml_string_join t (s, p_mem p) = Return a r"
      and *: "case r of (s', h') \<Rightarrow> str_ok s' \<and> live h' = live (p_mem p)"
    with length_string_join have "length (sbytes s) \<le> length (sbytes (fst r))" by (metis prod.collapse)
    with s * v show "case r of (s', h') \<Rightarrow> Q s' (p\<lparr>p_mem := h'\<rparr>)"
      by (auto simp: strg_def intro!: Q view_mem_same)
  qed (use view_mem_lost [OF v] in \<open>auto intro: E\<close>)
qed

lemma length_this_char:
  assumes "view p0 k b cs p" "octet (enc cs) 0 \<noteq> 0"
  shows "length (this_char (enc cs)) \<le> 4" "0 < length (this_char (enc cs))"
proof -
  obtain c where c: "cs = c # tl cs" "WIDTH (enc cs) = length (utf8_put c)" using view_head [OF assms] by blast
  have "this_char (enc cs) = utf8_put c" unfolding this_char_def c(2) by (subst c(1)) simp
  then show "length (this_char (enc cs)) \<le> 4" "0 < length (this_char (enc cs))"
    using length_utf8_put_le [of c] length_utf8_put_pos [of c] by simp_all
qed

lemma wp_advance_char:
  assumes v: "view p0 k b cs p" and nz: "octet (enc cs) 0 \<noteq> 0" and mv: "\<And>m. mark_before m (move m)"
    and Q: "\<And>p'. view p0 k (b - 1) (tl cs) p' \<Longrightarrow> 0 < b \<Longrightarrow> Q () p'" and n: "n = WIDTH (enc cs)"
  shows "wp (advance n 1 move) Q E p"
proof -
  obtain c where c: "cs = c # tl cs" "c \<noteq> 0" "WIDTH (enc cs) = length (utf8_put c)" using view_head [OF v nz] by blast
  with assms show ?thesis by (intro wp_advance [of _ _ _ "[c]" "tl cs"]) auto
qed

lemma wp_READ:
  assumes v: "view p0 k b cs p" and s: "strg s" and nz: "octet (enc cs) 0 \<noteq> 0"
    and Q: "\<And>s' p'. view p0 k (b - 1) (tl cs) p' \<Longrightarrow> 0 < b \<Longrightarrow> strg s' \<Longrightarrow> 0 < spos s' \<Longrightarrow> Q s' p'"
    and E: "\<And>p'. lost p0 k p' \<Longrightarrow> E p'"
  shows "wp (READ s) Q E p"
  unfolding READ_def wp_bindM
proof (rule wp_extend_string [OF v s])
  fix s' p'
  assume v': "view p0 k b cs p'" and s': "strg s'" "room 5 s'"
  have "avail 1 cs" using nz by (cases cs) (auto simp: avail_def)
  with v' show "wp (lookingM 1 (\<lambda>b. bindM (put (this_char b) s') (\<lambda>s. seqM (advance (WIDTH b) 1 next_column) (returnM s)))) Q E p'"
  proof (rule wp_lookingM)
    note len = length_this_char [OF v' nz]
    show "wp (bindM (put (this_char (enc cs)) s') (\<lambda>s. seqM (advance (WIDTH (enc cs)) 1 next_column) (returnM s))) Q E p'"
      unfolding wp_bindM wp_seqM wp_returnM
    proof (rule wp_put [OF v' s'])
      fix s''
      assume s'': "strg s''" "spos s'' = spos s' + length (this_char (enc cs))"
      show "wp (advance (WIDTH (enc cs)) 1 next_column) (\<lambda>_. Q s'') E p'"
        by (rule wp_advance_char [OF v' nz _ _ refl]) (use len s'' in \<open>auto intro!: Q\<close>)
    qed (use len in simp)
  qed
qed (rule E)

lemma wp_READ_LINE:
  assumes v: "view p0 k b cs p" and s: "strg s" and two: "avail 2 cs"
    and Q: "\<And>s' b' cs' p'. view p0 k b' cs' p' \<Longrightarrow> b' \<le> b \<Longrightarrow> (IS_BREAK (enc cs) \<Longrightarrow> b' < b) \<Longrightarrow> strg s' \<Longrightarrow> Q s' p'"
    and E: "\<And>p'. lost p0 k p' \<Longrightarrow> E p'"
  shows "wp (READ_LINE s) Q E p"
  unfolding READ_LINE_def wp_bindM
proof (rule wp_extend_string [OF v s])
  fix s' p'
  assume v': "view p0 k b cs p'" and s': "strg s'" "room 5 s'"
  have one: "wp (bindM (put bs s') (\<lambda>s. seqM (advance n 1 (next_line 1)) (returnM s))) Q E p'"
    if "octet (enc cs) 0 \<noteq> 0" "n = WIDTH (enc cs)" "length bs \<le> 5" for n bs
    unfolding wp_bindM wp_seqM wp_returnM
  proof (rule wp_put [OF v' s' that(3)])
    fix s''
    assume s'': "strg s''"
    show "wp (advance n 1 (next_line 1)) (\<lambda>_. Q s'') E p'"
      by (rule wp_advance_char [OF v' that(1) _ _ that(2)]) (use s'' in \<open>auto intro: Q\<close>)
  qed
  have two_bytes: "wp (bindM (put [0x0A] s') (\<lambda>s. seqM (advance 2 2 (next_line 2)) (returnM s))) Q E p'" if "IS_CRLF_AT (enc cs) 0"
    unfolding wp_bindM wp_seqM wp_returnM
  proof (rule wp_put [OF v' s'])
    fix s''
    assume s'': "strg s''"
    show "wp (advance 2 2 (next_line 2)) (\<lambda>_. Q s'') E p'"
      by (rule wp_advance_crlf [OF v' that]) (use s'' in \<open>auto intro: Q\<close>)
  qed simp
  show "wp (lookingM 2 (\<lambda>b. if IS_CRLF_AT b 0 then bindM (put [0x0A] s') (\<lambda>s. seqM (advance 2 2 (next_line 2)) (returnM s))
     else if octet b 0 = 0x0D \<or> octet b 0 = 0x0A then bindM (put [0x0A] s') (\<lambda>s. seqM (advance 1 1 (next_line 1)) (returnM s))
     else if octet b 0 = 0xC2 \<and> octet b 1 = 0x85 then bindM (put [0x0A] s') (\<lambda>s. seqM (advance 2 1 (next_line 1)) (returnM s))
     else if octet b 0 = 0xE2 \<and> octet b 1 = 0x80 \<and> (octet b 2 = 0xA8 \<or> octet b 2 = 0xA9)
       then bindM (put (take 3 b) s') (\<lambda>s. seqM (advance 3 1 (next_line 1)) (returnM s))
     else returnM s')) Q E p'"
    apply (rule wp_lookingM [OF v' two], intro wp_choiceI)
    subgoal by (rule two_bytes)
    subgoal by (rule one) (auto simp: WIDTH_AT_def utf8_width_def)
    subgoal by (rule one) (simp_all add: WIDTH_AT_def utf8_width_def)
    subgoal by (rule one) (auto simp: WIDTH_AT_def utf8_width_def)
    subgoal by (auto simp: wp_returnM IS_BREAK_AT_def numeral_2_eq_2 intro!: Q [OF v'] s')
    done
qed (rule E)

subsection \<open>Loops over characters\<close>

text \<open>A round of a loop either ends it or consumes a character.\<close>

definition looping where
  "looping p0 k J b Q = (\<lambda>r p. case r of Inl l \<Rightarrow> \<exists>b' cs'. view p0 k b' cs' p \<and> b' < b \<and> J l b' cs' | Inr a \<Rightarrow> Q a p)"

lemma wp_scan_loop:
  assumes "view p0 k b cs p" "J l b cs"
    and body: "\<And>l b cs p. view p0 k b cs p \<Longrightarrow> J l b cs \<Longrightarrow> wp (body l) (looping p0 k J b Q) E p"
  shows "wp (loopM body l) Q E p"
  using assms(1,2)
proof (induction b arbitrary: l cs p rule: less_induct)
  case (less b)
  from body [OF less.prems] show ?case
    by (auto simp: wp_def loopM_unfold [of body l p] looping_def split: result.splits sum.splits dest!: less.IH)
qed

lemma againI: "view p0 k b' cs' p \<Longrightarrow> b' < b \<Longrightarrow> J l b' cs' \<Longrightarrow> looping p0 k J b Q (Inl l) p"
  by (auto simp: looping_def)

lemma breakI: "Q a p \<Longrightarrow> looping p0 k J b Q (Inr a) p"
  by (simp add: looping_def)

lemma wp_skip_while:
  assumes v: "view p0 k b cs p" and a: "avail 1 cs" and P: "\<And>s. P s \<Longrightarrow> octet s 0 \<noteq> 0"
    and Q: "\<And>b' cs' p'. view p0 k b' cs' p' \<Longrightarrow> b' \<le> b \<Longrightarrow> avail 1 cs' \<Longrightarrow> \<not> P (enc cs') \<Longrightarrow> b' < b \<or> cs' = cs \<Longrightarrow> Q () p'"
    and E: "\<And>p'. lost p0 k p' \<Longrightarrow> E p'"
  shows "wp (skip_while P) Q E p"
  unfolding skip_while_def
  apply (rule wp_scan_loop [where J = "\<lambda>_ b' cs'. avail 1 cs' \<and> (b' < b \<or> (b' = b \<and> cs' = cs))", OF v])
  subgoal using a by simp
  subgoal for l b' cs' p'
    unfolding wp_unfold
    apply (erule wp_lookM, simp, rule ifI)
     apply (erule wp_SKIP, erule P, erule wp_CACHE, simp, erule againI, simp, force, erule E)
    apply (rule breakI, erule Q, auto)
    done
  done

lemma wp_read_while:
  assumes v: "view p0 k b cs p" and s: "strg s" and a: "avail 1 cs" and P: "\<And>s. P s \<Longrightarrow> octet s 0 \<noteq> 0"
    and Q: "\<And>s' b' cs' p'. view p0 k b' cs' p' \<Longrightarrow> b' \<le> b \<Longrightarrow> strg s' \<Longrightarrow> avail 1 cs' \<Longrightarrow> \<not> P (enc cs')
      \<Longrightarrow> (b' < b \<and> 0 < spos s') \<or> (cs' = cs \<and> s' = s) \<Longrightarrow> Q s' p'"
    and E: "\<And>p'. lost p0 k p' \<Longrightarrow> E p'"
  shows "wp (read_while P s) Q E p"
  unfolding read_while_def
  apply (rule wp_scan_loop [where J = "\<lambda>s' b' cs'. strg s' \<and> avail 1 cs' \<and> (b' < b \<and> 0 < spos s' \<or> (b' = b \<and> cs' = cs \<and> s' = s))", OF v])
  subgoal using a s by simp
  subgoal for l b' cs' p'
    unfolding wp_unfold
    apply (erule wp_lookM, simp, rule ifI)
     apply (erule wp_READ, simp, erule P, erule wp_CACHE, simp, erule againI, simp, force, erule E, erule E)
    apply (rule breakI, erule Q, auto)
    done
  done

end

end
