(* ===== verification/Scanner_Scan.thy ===== *)
theory Scanner_Scan
  imports Scanner_View
begin

text \<open>
  The contracts of the functions that scan one token: wherever they are called, they return without a fault, leave the
  scanner's stacks and queue alone, own exactly the blocks of the token they return, and none where they fail.
\<close>

lemma ch_0: "ch c = 0 \<longleftrightarrow> c = CHR 0x00"
proof -
  have "of_char c < (256 :: nat)" by (rule nat_of_char_less_256)
  then have "ch c = 0 \<longleftrightarrow> of_char c = (0 :: nat)" by (auto simp: ch_def word_of_nat_eq_0_iff intro: ccontr dest!: dvd_imp_le leD)
  also have "\<dots> \<longleftrightarrow> of_char c = (of_char CHR 0x00 :: nat)" by simp
  finally show ?thesis by (simp only: of_char_eq_iff)
qed

lemma octet_nonzero:
  "IS_ALPHA s \<Longrightarrow> octet s 0 \<noteq> 0" "IS_BLANK s \<Longrightarrow> octet s 0 \<noteq> 0" "IS_SPACE s \<Longrightarrow> octet s 0 \<noteq> 0" "IS_BREAK s \<Longrightarrow> octet s 0 \<noteq> 0"
  "\<not> IS_BREAKZ_AT s 0 \<Longrightarrow> octet s 0 \<noteq> 0" "\<not> IS_BLANKZ s \<Longrightarrow> octet s 0 \<noteq> 0" "IS_DIGIT_AT s 0 \<Longrightarrow> octet s 0 \<noteq> 0"
  "IS_BOM s \<Longrightarrow> octet s 0 \<noteq> 0" "\<not> IS_Z_AT s 0 \<Longrightarrow> octet s 0 \<noteq> 0"
  by (auto simp: IS_ALPHA_AT_def IS_BLANK_AT_def IS_SPACE_AT_def IS_TAB_AT_def IS_BREAK_AT_def IS_BREAKZ_AT_def IS_BLANKZ_AT_def
      IS_DIGIT_AT_def IS_BOM_AT_def IS_Z_AT_def)

lemma CHECK_nonzero: "CHECK s c \<Longrightarrow> c \<noteq> CHR 0x00 \<Longrightarrow> octet s 0 \<noteq> 0"
  by (simp add: CHECK_AT_def ch_0)

lemma IS_BREAK_enc: "IS_BREAK (enc cs) \<Longrightarrow> IS_BREAK (enc (cs @ ds))"
  by (simp add: IS_BREAK_append)

text \<open>The blocks of a token do not depend on its marks.\<close>

definition data_blocks :: "yaml_token_data \<Rightarrow> int" where
  "data_blocks d = token_blocks (TOKEN_INIT d null_mark null_mark)"

lemma token_blocks_INIT [simp]: "token_blocks (TOKEN_INIT d m m') = data_blocks d"
  by (simp add: data_blocks_def token_blocks_def TOKEN_INIT_def)

lemma data_blocks_simps [simp]:
  "data_blocks (VersionDirectiveToken i j) = 0" "data_blocks (TagDirectiveToken x y) = 2" "data_blocks (AliasToken x) = 1"
  "data_blocks (AnchorToken x) = 1" "data_blocks (TagToken x y) = 2" "data_blocks (ScalarToken x st) = 1"
  by (simp_all add: data_blocks_def token_blocks_def TOKEN_INIT_def)

lemma lost_free_token: "lost p0 (k + data_blocks d) p \<Longrightarrow> lost p0 k (freeP (yaml_token_delete (TOKEN_INIT d m m')) p)"
  using lost_token [of p0 k "TOKEN_INIT d m m'"] by simp

definition value_token :: "yaml_token_data \<Rightarrow> bool" where
  "value_token d \<longleftrightarrow> (case d of VersionDirectiveToken _ _ \<Rightarrow> True | TagDirectiveToken _ _ \<Rightarrow> True | AliasToken _ \<Rightarrow> True
     | AnchorToken _ \<Rightarrow> True | TagToken _ _ \<Rightarrow> True | ScalarToken _ _ \<Rightarrow> True | _ \<Rightarrow> False)"

text \<open>The local strings of a scalar scanner; quoted and plain scalars have four.\<close>

definition parts :: "bool \<Rightarrow> scalar_parts \<Rightarrow> bool" where
  "parts four t \<longleftrightarrow> strg (sp_string t) \<and> strg (sp_leading t) \<and> strg (sp_trailing t) \<and> (four \<longrightarrow> strg (sp_spaces t))"

lemma parts_intros:
  "parts f t \<Longrightarrow> parts f (clear_leading t)" "parts f t \<Longrightarrow> parts f (clear_trailing t)" "parts f t \<Longrightarrow> parts f (clear_spaces t)"
  "parts f t \<Longrightarrow> strg s \<Longrightarrow> parts f (t\<lparr>sp_string := s\<rparr>)" "parts f t \<Longrightarrow> strg s \<Longrightarrow> parts f (t\<lparr>sp_leading := s\<rparr>)"
  "parts f t \<Longrightarrow> strg s \<Longrightarrow> parts f (t\<lparr>sp_trailing := s\<rparr>)" "parts f t \<Longrightarrow> strg s \<Longrightarrow> parts f (t\<lparr>sp_spaces := s\<rparr>)"
  by (auto simp: parts_def)

lemma partsD [simp]:
  "parts f t \<Longrightarrow> strg (sp_string t)" "parts f t \<Longrightarrow> strg (sp_leading t)" "parts f t \<Longrightarrow> strg (sp_trailing t)"
  "parts True t \<Longrightarrow> strg (sp_spaces t)"
  by (simp_all add: parts_def)

text \<open>What a plain scalar begins with: nothing at which its first line would stop.\<close>

definition plain_stop :: "bool \<Rightarrow> ystring \<Rightarrow> bool" where
  "plain_stop flow b \<longleftrightarrow> IS_BLANKZ b \<or> (CHECK b CHR '':'' \<and> IS_BLANKZ_AT b 1) \<or> (flow \<and> CHECK_ANY b '',[]{}'')"

definition line_stop :: "bool \<Rightarrow> bool \<Rightarrow> ystring \<Rightarrow> bool" where
  "line_stop column0 flow b \<longleftrightarrow> (column0 \<and> (document_indicator CHR ''-'' b \<or> document_indicator CHR ''.'' b))
     \<or> CHECK b CHR ''#'' \<or> plain_stop flow b"

text \<open>The rules for the combinators, and those for the operations, whose first premise is the view.\<close>

lemma wp_bindI: "wp m (\<lambda>a. wp (f a) Q E) E p \<Longrightarrow> wp (bindM m f) Q E p" by (simp add: wp_simps)
lemma wp_seqI: "wp m (\<lambda>_. wp n Q E) E p \<Longrightarrow> wp (seqM m n) Q E p" by (simp add: wp_simps)
lemma wp_readI: "wp (f p) Q E p \<Longrightarrow> wp (readM f) Q E p" by (simp add: wp_simps)
lemma wp_getI: "Q (f p) p \<Longrightarrow> wp (getM f) Q E p" by (simp add: wp_simps)
lemma wp_returnI: "Q a p \<Longrightarrow> wp (returnM a) Q E p" by (simp add: wp_simps)
lemma wp_modifyI: "Q () (f p) \<Longrightarrow> wp (modifyM f) Q E p" by (simp add: wp_simps)
lemma wp_cleanupI: "wp m Q (\<lambda>p. E (f p)) p \<Longrightarrow> wp (cleanupM m f) Q E p" by (simp add: wp_simps)
lemma wp_if_notI: "(\<not> c \<Longrightarrow> wp m Q E p) \<Longrightarrow> (c \<Longrightarrow> wp n Q E p) \<Longrightarrow> wp (if \<not> c then m else n) Q E p" by simp
lemma wp_optionI: "(x = None \<Longrightarrow> wp m Q E p) \<Longrightarrow> (\<And>y. x = Some y \<Longrightarrow> wp (f y) Q E p) \<Longrightarrow> wp (case x of None \<Rightarrow> m | Some y \<Rightarrow> f y) Q E p"
  by (cases x) simp_all
lemma wp_LetI: "wp (f x) Q E p \<Longrightarrow> wp (Let x f) Q E p" by simp
lemma wp_prodI: "wp (f x y) Q E p \<Longrightarrow> wp (case (x, y) of (x, y) \<Rightarrow> f x y) Q E p" by simp

lemmas wp_intros = wp_bindI wp_seqI wp_readI wp_getI wp_returnI wp_modifyI wp_cleanupI wp_LetI wp_prodI wp_optionI
  wp_if_notI wp_choiceI

named_theorems scan_rules \<open>contracts of operations of the scanner\<close>

context byte_source
begin

lemmas [scan_rules] = wp_CACHE wp_lookM wp_lookingM wp_SKIP wp_SKIP_LINE wp_skip_while wp_scanner_error

subsection \<open>Between the tokens\<close>

lemma wp_skip_comment [scan_rules]:
  assumes v: "view p0 k b cs p" and a: "avail 1 cs"
    and Q: "\<And>b' cs' p'. view p0 k b' cs' p' \<Longrightarrow> b' \<le> b \<Longrightarrow> avail 1 cs' \<Longrightarrow> Q () p'"
    and E: "\<And>p'. lost p0 k p' \<Longrightarrow> E p'"
  shows "wp skip_comment Q E p"
  unfolding skip_comment_def
  by (insert v a, (rule wp_intros | erule scan_rules | assumption | erule octet_nonzero | erule Q E | simp; fail)+)

lemma wp_skip_rest_of_line [scan_rules]:
  assumes v: "view p0 k b cs p"
    and Q: "\<And>b' cs' p'. view p0 k b' cs' p' \<Longrightarrow> b' \<le> b \<Longrightarrow> Q () p'"
    and E: "\<And>p'. lost p0 k p' \<Longrightarrow> E p'"
  shows "wp (skip_rest_of_line c m) Q E p"
  unfolding skip_rest_of_line_def
  by (insert v, (rule wp_intros | erule scan_rules | assumption | erule octet_nonzero IS_BREAK_enc | erule Q E | simp; fail | linarith)+)

lemma wp_allow_simple_key [scan_rules]:
  assumes "view p0 k b cs p" and "\<And>p'. view p0 k b cs p' \<Longrightarrow> Q () p'"
  shows "wp (modifyM (\<lambda>p. if c p then p\<lparr>p_simple_key_allowed := a\<rparr> else p)) Q E p"
  using assms(1) assms(2) [of p] assms(2) [OF view_allowed [OF assms(1), of a]] by (simp add: wp_modifyM)

lemma wp_scan_to_next_token:
  assumes v: "view p0 k b cs p"
    and Q: "\<And>b' cs' p'. view p0 k b' cs' p' \<Longrightarrow> b' \<le> b \<Longrightarrow> Q () p'"
    and E: "\<And>p'. lost p0 k p' \<Longrightarrow> E p'"
  shows "wp yaml_parser_scan_to_next_token Q E p"
  unfolding yaml_parser_scan_to_next_token_def skip_bom_def
  apply (rule wp_scan_loop [where J = "\<lambda>_ b' _. b' \<le> b", OF v], simp)
  by (erule scan_rules | rule wp_intros | assumption | erule octet_nonzero IS_BREAK_enc | erule Q E againI | rule breakI
     | simp; fail | linarith | (auto dest: CHECK_nonzero; fail))+

subsection \<open>Directives\<close>

lemma wp_READ_break:
  assumes "view p0 k b cs p" "strg s" "avail 2 cs" and br: "IS_BREAK (enc cs)"
    and Q: "\<And>s' b' cs' p'. view p0 k b' cs' p' \<Longrightarrow> b' < b \<Longrightarrow> strg s' \<Longrightarrow> Q s' p'"
    and "\<And>p'. lost p0 k p' \<Longrightarrow> E p'"
  shows "wp (READ_LINE s) Q E p"
  using assms(1-3) by (rule wp_READ_LINE) (use br in \<open>auto intro: Q assms(6)\<close>)

lemmas [scan_rules] = wp_with_string wp_read_while wp_READ wp_READ_break wp_skip_n wp_extend_string wp_JOIN

lemma wp_scan_directive_name [scan_rules]:
  assumes v: "view p0 k b cs p"
    and Q: "\<And>n b' cs' p'. view p0 (k + 1) b' cs' p' \<Longrightarrow> b' \<le> b \<Longrightarrow> Q n p'"
    and E: "\<And>p'. lost p0 k p' \<Longrightarrow> E p'"
  shows "wp (yaml_parser_scan_directive_name m) Q E p"
  unfolding yaml_parser_scan_directive_name_def
  by (insert v, (erule scan_rules | rule wp_intros | assumption | erule octet_nonzero IS_BREAK_enc | erule Q E againI | rule breakI
     | rule E, erule lost_del | simp; fail | linarith | (auto dest: CHECK_nonzero; fail))+)

lemma wp_scan_version_directive_number [scan_rules]:
  assumes v: "view p0 k b cs p"
    and Q: "\<And>n b' cs' p'. view p0 k b' cs' p' \<Longrightarrow> b' \<le> b \<Longrightarrow> avail 1 cs' \<Longrightarrow> Q n p'"
    and E: "\<And>p'. lost p0 k p' \<Longrightarrow> E p'"
  shows "wp (yaml_parser_scan_version_directive_number m) Q E p"
  unfolding yaml_parser_scan_version_directive_number_def
  apply (rule wp_intros wp_CACHE [OF v])+
    apply simp
   apply (rule wp_intros, erule wp_scan_loop [where J = "\<lambda>_ b' cs'. b' \<le> b \<and> avail 1 cs'"], simp, simp only: split_paired_all prod.case)
   apply (erule scan_rules | rule wp_intros | assumption | erule octet_nonzero IS_BREAK_enc | erule Q E againI | rule breakI
     | rule E, erule lost_del | simp; fail | linarith | (auto dest: CHECK_nonzero; fail))+
  done

lemma wp_scan_version_directive_value [scan_rules]:
  assumes v: "view p0 k b cs p"
    and Q: "\<And>n b' cs' p'. view p0 k b' cs' p' \<Longrightarrow> b' \<le> b \<Longrightarrow> Q n p'"
    and E: "\<And>p'. lost p0 k p' \<Longrightarrow> E p'"
  shows "wp (yaml_parser_scan_version_directive_value m) Q E p"
  unfolding yaml_parser_scan_version_directive_value_def
  by (insert v, (erule scan_rules | rule wp_intros | assumption | erule octet_nonzero CHECK_nonzero Q E | simp; fail | linarith)+)

lemma wp_scan_tag_handle [scan_rules]:
  assumes v: "view p0 k b cs p"
    and Q: "\<And>n b' cs' p'. view p0 (k + 1) b' cs' p' \<Longrightarrow> b' < b \<Longrightarrow> Q n p'"
    and E: "\<And>p'. lost p0 k p' \<Longrightarrow> E p'"
  shows "wp (yaml_parser_scan_tag_handle d m) Q E p"
  unfolding yaml_parser_scan_tag_handle_def
  by (insert v, (erule scan_rules | rule wp_intros | assumption | erule octet_nonzero CHECK_nonzero Q E E [OF lost_del]
     | simp; fail | linarith)+)

subsection \<open>Tag URIs\<close>

lemma hex_octet: "IS_HEX_AT s i \<Longrightarrow> octet s i \<noteq> 0 \<and> octet s i \<le> 0x7F"
  by (auto simp: IS_HEX_AT_def intro: order_trans)

lemma uri_escape_ascii:
  assumes "CHECK s CHR ''%'' \<and> IS_HEX_AT s 1 \<and> IS_HEX_AT s 2"
  shows "\<forall>i<3. octet s i \<noteq> 0 \<and> octet s i \<le> 0x7F"
proof (intro allI impI)
  fix i :: nat
  assume "i < 3"
  then consider "i = 0" | "i = 1" | "i = 2" by linarith
  then show "octet s i \<noteq> 0 \<and> octet s i \<le> 0x7F"
    using assms by cases (auto simp: CHECK_AT_def ch_def dest: hex_octet)
qed

lemma wp_scan_uri_escapes [scan_rules]:
  assumes v: "view p0 k b cs p" and s: "strg s" "room 5 s"
    and Q: "\<And>s' b' cs' p'. view p0 k b' cs' p' \<Longrightarrow> b' < b \<Longrightarrow> strg s' \<Longrightarrow> Q s' p'"
    and E: "\<And>p'. lost p0 k p' \<Longrightarrow> E p'"
  shows "wp (yaml_parser_scan_uri_escapes d m s) Q E p"
  unfolding yaml_parser_scan_uri_escapes_def
  apply (rule wp_scan_loop [where J = "\<lambda>(w, s) b' cs'. b' \<le> b \<and> strg s \<and> w \<le> 4 \<and> room (if w = 0 then 5 else w) s", OF v])
  subgoal using s by simp
  apply (simp only: split_paired_all prod.case, elim conjE)
  apply (erule scan_rules | rule wp_intros | assumption | erule E | simp; fail | (erule wp_put, assumption, assumption, (simp; fail)) | erule uri_escape_ascii)+
    apply (rule breakI, erule Q, linarith, assumption)
   apply (rule wp_intros, erule againI, linarith)
   subgoal for w t b' cs' p' cs'' p'' t'
     using utf8_width_le_4 [of "uri_octet (enc (cs' @ cs''))"] by (auto elim!: room_mono split: if_splits)
  apply (erule E)
  done

lemma length_yaml_string_extend: "yaml_string_extend (s, h) = Return a (s', h') \<Longrightarrow> length (sbytes s') = 2 * length (sbytes s)"
  by (auto simp: yaml_string_extend_def split: if_splits result.splits bool.splits)

lemma wp_string_extend [scan_rules]:
  assumes v: "view p0 k b cs p" and s: "strg s"
    and Q: "\<And>s' p'. view p0 k b cs p' \<Longrightarrow> strg s' \<Longrightarrow> spos s' = spos s \<Longrightarrow> length (sbytes s) < length (sbytes s') \<Longrightarrow> Q s' p'"
    and E: "\<And>p'. lost p0 k p' \<Longrightarrow> E p'"
  shows "wp (stringM yaml_string_extend s) Q E p"
  unfolding wp_stringM
  by (rule wp_yaml_string_extend) (use s v in \<open>auto simp: strg_def intro!: Q E view_mem_same view_mem_lost\<close>)

lemma wp_grow_string:
  assumes v: "view p0 k b cs p" and s: "strg s" "spos s = 0"
    and Q: "\<And>s' p'. view p0 k b cs p' \<Longrightarrow> strg s' \<Longrightarrow> spos s' = 0 \<Longrightarrow> len < length (sbytes s') \<Longrightarrow> Q s' p'"
    and E: "\<And>p'. lost p0 k p' \<Longrightarrow> E p'"
  shows "wp (loopM (\<lambda>s. if length (sbytes s) \<le> len then bindM (stringM yaml_string_extend s) againM else breakM s) s) Q E p"
  apply (rule wp_loopM [where I = "\<lambda>s p. view p0 k b cs p \<and> strg s \<and> spos s = 0" and \<mu> = "\<lambda>s _. Suc len - length (sbytes s)"])
  subgoal using v s by simp
  by (elim conjE, (erule scan_rules | rule wp_intros | assumption | erule E | simp | erule Q)+)

lemma uri_character_nonzero: "uri_character u s \<Longrightarrow> octet s 0 \<noteq> 0"
  by (auto simp: uri_character_def CHECK_ANY_def dest: octet_nonzero CHECK_nonzero)

lemma wp_put_fits:
  assumes v: "view p0 k b cs p" and s: "strg s" "spos s + length bs < length (sbytes s)"
    and Q: "\<And>s'. view p0 k b cs p \<Longrightarrow> strg s' \<Longrightarrow> Q s' p"
  shows "wp (put bs s) Q E p"
  by (rule wp_put [OF v s(1), of "length bs"]) (use s Q in \<open>auto simp: room_def\<close>)

lemma wp_scan_tag_uri [scan_rules]:
  assumes v: "view p0 k b cs p"
    and Q: "\<And>n b' cs' p'. view p0 (k + 1) b' cs' p' \<Longrightarrow> b' \<le> b \<Longrightarrow> avail 1 cs' \<Longrightarrow> Q n p'"
    and E: "\<And>p'. lost p0 k p' \<Longrightarrow> E p'"
  shows "wp (yaml_parser_scan_tag_uri u d h m) Q E p"
  unfolding yaml_parser_scan_tag_uri_def
  apply (insert v)
  apply (erule scan_rules | rule wp_intros | assumption | (erule wp_grow_string, assumption, assumption)
    | (erule wp_put_fits, assumption, (simp; fail))
    | (erule wp_scan_loop [where J = "\<lambda>(s, n) b' cs'. b' \<le> b \<and> strg s \<and> avail 1 cs'"], (simp; fail))
    | erule E [OF lost_del] E Q uri_character_nonzero | rule breakI | erule againI
    | (simp only: split_paired_all prod.case, elim conjE) | simp; fail)+
  done

subsection \<open>Directive tokens\<close>

lemma wp_scan_tag_directive_value [scan_rules]:
  assumes v: "view p0 k b cs p"
    and Q: "\<And>r b' cs' p'. view p0 (k + 2) b' cs' p' \<Longrightarrow> b' \<le> b \<Longrightarrow> Q r p'"
    and E: "\<And>p'. lost p0 k p' \<Longrightarrow> E p'"
  shows "wp (yaml_parser_scan_tag_directive_value m) Q E p"
proof -
  have Q': "\<And>r b' cs' p'. view p0 (k + 1 + 1) b' cs' p' \<Longrightarrow> b' \<le> b \<Longrightarrow> Q r p'"
    by (rule Q) (simp_all only: add.assoc one_add_one)
  show ?thesis unfolding yaml_parser_scan_tag_directive_value_def
    by (insert v, (erule scan_rules | rule wp_intros | assumption
       | erule E [OF lost_del [OF lost_del]] E [OF lost_del] E Q' octet_nonzero | simp; fail | linarith)+)
qed

lemma wp_directive_value [scan_rules]:
  assumes v: "view p0 k b cs p"
    and Q: "\<And>d b' cs' p'. view p0 (k + data_blocks d) b' cs' p' \<Longrightarrow> b' \<le> b \<Longrightarrow> value_token d \<Longrightarrow> Q d p'"
    and E: "\<And>p'. lost p0 k p' \<Longrightarrow> E p'"
  shows "wp (directive_value n m) Q E p"
proof -
  have Qv: "\<And>i j b' cs' p'. view p0 k b' cs' p' \<Longrightarrow> b' \<le> b \<Longrightarrow> Q (VersionDirectiveToken i j) p'"
    and Qt: "\<And>x y b' cs' p'. view p0 (k + 2) b' cs' p' \<Longrightarrow> b' \<le> b \<Longrightarrow> Q (TagDirectiveToken x y) p'"
    using Q [of "VersionDirectiveToken i j" for i j] Q [of "TagDirectiveToken x y" for x y] by (simp_all add: value_token_def)
  show ?thesis unfolding directive_value_def
    by (insert v, (erule scan_rules | rule wp_intros | assumption | simp only: split_paired_all | erule E Qv Qt | simp; fail)+)
qed

lemma view_del': "view p0 (k + 1 + j) b cs p \<Longrightarrow> view p0 (k + j) b cs (STRING_DEL p)"
  using view_del [of p0 "k + j"] by (simp add: algebra_simps)

lemma wp_scan_directive [scan_rules]:
  assumes v: "view p0 k b cs p" and nz: "octet (enc cs) 0 \<noteq> 0"
    and Q: "\<And>d x y b' cs' p'. view p0 (k + data_blocks d) b' cs' p' \<Longrightarrow> b' < b \<Longrightarrow> value_token d \<Longrightarrow> Q (TOKEN_INIT d x y) p'"
    and E: "\<And>p'. lost p0 k p' \<Longrightarrow> E p'"
  shows "wp yaml_parser_scan_directive Q E p"
  unfolding yaml_parser_scan_directive_def
  by (insert v nz, (erule scan_rules | rule wp_intros | assumption
      | erule E [OF lost_del [OF lost_free_token]] E [OF lost_del] E | (rule Q, erule view_del') | simp; fail | linarith)+)

subsection \<open>Anchors and tags\<close>

lemma wp_scan_anchor [scan_rules]:
  assumes v: "view p0 k b cs p" and nz: "octet (enc cs) 0 \<noteq> 0"
    and Q: "\<And>d x y b' cs' p'. view p0 (k + data_blocks d) b' cs' p' \<Longrightarrow> b' < b \<Longrightarrow> value_token d \<Longrightarrow> Q (TOKEN_INIT d x y) p'"
    and E: "\<And>p'. lost p0 k p' \<Longrightarrow> E p'"
  shows "wp (yaml_parser_scan_anchor a) Q E p"
proof -
  have Q': "\<And>s x y b' cs' p'. view p0 (k + 1) b' cs' p' \<Longrightarrow> b' < b \<Longrightarrow> Q (TOKEN_INIT (if a then AnchorToken s else AliasToken s) x y) p'"
    using Q [of "if a then AnchorToken s else AliasToken s" for s] by (simp add: value_token_def)
  show ?thesis unfolding yaml_parser_scan_anchor_def
    by (insert v nz, (erule scan_rules | rule wp_intros | assumption
      | erule E [OF lost_del] E Q' octet_nonzero | simp; fail | linarith)+)
qed

lemma wp_malloc_unset [scan_rules]:
  assumes v: "view p0 k b cs p" and Q: "\<And>p'. view p0 (k + 1) b cs p' \<Longrightarrow> Q () p'" and E: "\<And>p'. lost p0 k p' \<Longrightarrow> E p'"
  shows "wp (malloc_unset n) Q E p"
  unfolding malloc_unset_def wp_bindM wp_zoomM
  by (rule wp_yaml_malloc) (use v in \<open>auto simp: wp_simps lost_def view_def [of p0 k b cs p] intro!: Q E view_mem\<close>)

lemma wp_STRING_DEL [scan_rules]:
  assumes "view p0 (k + 1) b cs p" and "\<And>p'. view p0 k b cs p' \<Longrightarrow> Q () p'"
  shows "wp (modifyM STRING_DEL) Q E p"
  using assms(2) [OF view_del [OF assms(1)]] by (simp add: wp_modifyM)

lemma wp_scan_verbatim_tag [scan_rules]:
  assumes v: "view p0 k b cs p" and c: "CHECK (enc cs) CHR ''!''" "CHECK_AT (enc cs) CHR ''<'' 1"
    and Q: "\<And>r b' cs' p'. view p0 (k + 1 + 1) b' cs' p' \<Longrightarrow> b' < b \<Longrightarrow> Q r p'"
    and E: "\<And>p'. lost p0 k p' \<Longrightarrow> E p'"
  shows "wp (scan_verbatim_tag m) Q E p"
proof -
  have two: "\<forall>i<2. octet (enc cs) i \<noteq> 0 \<and> octet (enc cs) i \<le> 0x7F"
    using c by (auto simp: CHECK_AT_def ch_def less_2_cases_iff)
  show ?thesis unfolding scan_verbatim_tag_def
    by (insert v, (erule scan_rules | rule wp_intros two | assumption
      | erule E [OF lost_del [OF lost_del]] E [OF lost_del] E Q octet_nonzero CHECK_nonzero | simp; fail | linarith)+)
qed

lemma wp_scan_short_tag [scan_rules]:
  assumes v: "view p0 k b cs p"
    and Q: "\<And>r b' cs' p'. view p0 (k + 1 + 1) b' cs' p' \<Longrightarrow> b' < b \<Longrightarrow> Q r p'"
    and E: "\<And>p'. lost p0 k p' \<Longrightarrow> E p'"
  shows "wp (scan_short_tag m) Q E p"
  unfolding scan_short_tag_def
  by (insert v, (erule scan_rules | rule wp_intros | assumption
      | erule E [OF lost_del [OF lost_del]] E [OF lost_del] E Q | simp; fail | linarith)+)

lemma CHECK_append: "CHECK_AT s c i \<Longrightarrow> c \<noteq> CHR 0x00 \<Longrightarrow> CHECK_AT (s @ t) c i"
  by (simp add: CHECK_AT_def octet_prefix ch_0)

lemma wp_scan_tag [scan_rules]:
  assumes v: "view p0 k b cs p" and c: "CHECK (enc cs) CHR ''!''"
    and Q: "\<And>d x y b' cs' p'. view p0 (k + data_blocks d) b' cs' p' \<Longrightarrow> b' < b \<Longrightarrow> value_token d \<Longrightarrow> Q (TOKEN_INIT d x y) p'"
    and E: "\<And>p'. lost p0 k p' \<Longrightarrow> E p'"
  shows "wp yaml_parser_scan_tag Q E p"
proof -
  have Q': "\<And>h s x y b' cs' p'. view p0 (k + 1 + 1) b' cs' p' \<Longrightarrow> b' < b \<Longrightarrow> Q (TOKEN_INIT (TagToken h s) x y) p'"
    by (rule Q) (simp_all add: value_token_def add.assoc)
  have E': "\<And>h s x y p'. lost p0 (k + 1 + 1) p' \<Longrightarrow> E (freeP (yaml_token_delete (TOKEN_INIT (TagToken h s) x y)) p')"
    by (rule E, rule lost_free_token) (simp add: add.assoc)
  have c': "CHECK (enc (cs @ cs')) CHR ''!''" for cs' using CHECK_append [OF c] by simp
  show ?thesis unfolding yaml_parser_scan_tag_def
    by (insert v, (erule scan_rules | rule wp_intros c' | assumption | simp only: split_paired_all
      | erule E' E Q' | simp; fail | linarith)+)
qed

subsection \<open>Block scalars\<close>

lemma wp_scan_chomping [scan_rules]:
  assumes v: "view p0 k b cs p" and a: "avail 1 cs"
    and Q: "\<And>c b' cs' p'. view p0 k b' cs' p' \<Longrightarrow> b' \<le> b \<Longrightarrow> Q c p'"
  shows "wp scan_chomping Q E p"
  unfolding scan_chomping_def
  by (insert v a, (erule scan_rules | rule wp_intros | assumption | erule Q CHECK_nonzero | simp; fail)+)

lemma wp_scan_increment [scan_rules]:
  assumes v: "view p0 k b cs p" and a: "avail 1 cs"
    and Q: "\<And>c b' cs' p'. view p0 k b' cs' p' \<Longrightarrow> b' \<le> b \<Longrightarrow> Q c p'"
    and E: "\<And>p'. lost p0 k p' \<Longrightarrow> E p'"
  shows "wp (scan_increment m) Q E p"
  unfolding scan_increment_def
  by (insert v a, (erule scan_rules | rule wp_intros | assumption | erule Q E octet_nonzero | simp; fail)+)

lemma wp_scan_block_header [scan_rules]:
  assumes v: "view p0 k b cs p" and a: "avail 1 cs"
    and Q: "\<And>c b' cs' p'. view p0 k b' cs' p' \<Longrightarrow> b' \<le> b \<Longrightarrow> Q c p'"
    and E: "\<And>p'. lost p0 k p' \<Longrightarrow> E p'"
  shows "wp (scan_block_header m) Q E p"
  unfolding scan_block_header_def
  by (insert v a, (erule scan_rules | rule wp_intros | assumption | erule Q E | simp; fail | linarith)+)

lemma wp_indentation_space [scan_rules]:
  assumes v: "view p0 k b cs p" and a: "avail 1 cs"
    and Q: "\<And>b' cs' p'. view p0 k b' cs' p' \<Longrightarrow> b' \<le> b \<Longrightarrow> avail 1 cs' \<Longrightarrow> Q () p'"
    and E: "\<And>p'. lost p0 k p' \<Longrightarrow> E p'"
  shows "wp (indentation_space i) Q E p"
  unfolding indentation_space_def
  apply (rule wp_scan_loop [where J = "\<lambda>_ b' cs'. b' \<le> b \<and> avail 1 cs'", OF v])
  subgoal using a by simp
  by (elim conjE, (erule scan_rules | rule wp_intros breakI | assumption | erule againI Q E octet_nonzero | simp; fail | linarith
     | (erule conjE, erule octet_nonzero))+)

lemma wp_block_breaks [scan_rules]:
  assumes v: "view p0 k b cs p" and s: "strg s"
    and Q: "\<And>mi s' em b' cs' p'. view p0 k b' cs' p' \<Longrightarrow> b' \<le> b \<Longrightarrow> avail 1 cs' \<Longrightarrow> strg s' \<Longrightarrow> Q (mi, s', em) p'"
    and E: "\<And>p'. lost p0 k p' \<Longrightarrow> E p'"
  shows "wp (block_breaks i m (mi, s, em)) Q E p"
  unfolding block_breaks_def
  apply (rule wp_scan_loop [where J = "\<lambda>(_, s, _) b' cs'. b' \<le> b \<and> strg s", OF v])
  subgoal using s by simp
  apply (simp only: split_paired_all prod.case, elim conjE)
  by (erule scan_rules | rule wp_intros breakI | assumption | erule againI Q E IS_BREAK_enc | simp; fail | linarith)+

lemma wp_scan_block_scalar_breaks [scan_rules]:
  assumes v: "view p0 k b cs p" and s: "strg s"
    and Q: "\<And>i' s' em b' cs' p'. view p0 k b' cs' p' \<Longrightarrow> b' \<le> b \<Longrightarrow> avail 1 cs' \<Longrightarrow> strg s' \<Longrightarrow> Q (i', s', em) p'"
    and E: "\<And>p'. lost p0 k p' \<Longrightarrow> E p'"
  shows "wp (yaml_parser_scan_block_scalar_breaks i s m) Q E p"
  unfolding yaml_parser_scan_block_scalar_breaks_def
  by (insert v s, (erule scan_rules | rule wp_intros | assumption | erule Q E)+)

lemma wp_part_operations [scan_rules]:
  assumes v: "view p0 k b cs p" and t: "parts f t"
    and Q: "\<And>t' p'. view p0 k b cs p' \<Longrightarrow> parts f t' \<Longrightarrow> Q t' p'"
    and E: "\<And>p'. lost p0 k p' \<Longrightarrow> E p'"
  shows "wp (join_leading t) Q E p" "wp (join_trailing t) Q E p" "wp (append_space t) Q E p"
  unfolding join_leading_def join_trailing_def append_space_def
  by (insert v t, (erule scan_rules | rule wp_intros parts_intros | assumption | erule Q E | (erule wp_put, assumption, assumption, (simp; fail)) | simp; fail)+)

text \<open>A line of a block scalar consumes its characters or, if it is empty, its break.\<close>

lemma wp_block_line_end:
  assumes v: "view p0 k b' cs' p" and t: "parts f t" and s: "strg s" and nz: "octet (enc cs) 0 \<noteq> 0" and "b' \<le> b"
    and stop: "\<not> \<not> IS_BREAKZ_AT (enc cs') 0" and some: "b' < b \<and> 0 < spos s \<or> cs' = cs \<and> s = s0"
    and Q: "\<And>i' em t' b' cs' p'. view p0 k b' cs' p' \<Longrightarrow> b' < b \<Longrightarrow> avail 1 cs' \<Longrightarrow> parts f t' \<Longrightarrow> Q (lb, i', em, t') p'"
    and E: "\<And>p'. lost p0 k p' \<Longrightarrow> E p'"
  shows "wp (seqM (CACHE 2) (bindM (READ_LINE (sp_leading t)) (\<lambda>l.
      bindM (yaml_parser_scan_block_scalar_breaks i (CLEAR (sp_trailing t)) m) (\<lambda>(indent, breaks, end_mark).
        returnM (lb, indent, end_mark, t\<lparr>sp_string := s, sp_leading := l, sp_trailing := breaks\<rparr>))))) Q E p"
proof -
  have "IS_BREAK (enc (cs' @ ds))" if "\<not> b' < b" for ds
    using that some stop nz by (intro IS_BREAK_enc) (auto simp: IS_BREAKZ_AT_def IS_Z_AT_def)
  then have less: "b'' < b" if "b'' \<le> b'" "IS_BREAK (enc (cs' @ ds)) \<Longrightarrow> b'' < b'" for b'' ds
    using that \<open>b' \<le> b\<close> by force
  show ?thesis
    apply (rule wp_intros, rule wp_CACHE [OF v], simp, rule wp_intros, erule wp_READ_LINE)
        apply (use t in simp, assumption)
      apply (drule less, assumption)
      apply (insert t s)
      apply (erule scan_rules | rule wp_intros parts_intros | assumption | erule Q E | simp; fail | linarith)+
    done
qed

lemma wp_block_line:
  assumes v: "view p0 k b cs p" and a: "avail 1 cs" and t: "parts f t" and nz: "\<not> IS_Z_AT (enc cs) 0"
    and Q: "\<And>lb i' em t' b' cs' p'. view p0 k b' cs' p' \<Longrightarrow> b' < b \<Longrightarrow> avail 1 cs' \<Longrightarrow> parts f t' \<Longrightarrow> Q (lb, i', em, t') p'"
    and E: "\<And>p'. lost p0 k p' \<Longrightarrow> E p'"
  shows "wp (block_line li m (lb, i, em, t)) Q E p"
  unfolding block_line_def
  apply (insert v a t)
  apply ((erule wp_block_line_end [where cs = cs and b = b], assumption, assumption, rule octet_nonzero, rule nz)
     | erule scan_rules | rule wp_intros parts_intros | assumption | erule Q E octet_nonzero | simp; fail | linarith)+
  done

lemma wp_block_lines [scan_rules]:
  assumes v: "view p0 k b cs p" and a: "avail 1 cs" and t: "parts f t"
    and Q: "\<And>em t' b' cs' p'. view p0 k b' cs' p' \<Longrightarrow> b' \<le> b \<Longrightarrow> parts f t' \<Longrightarrow> Q (em, t') p'"
    and E: "\<And>p'. lost p0 k p' \<Longrightarrow> E p'"
  shows "wp (block_lines li m (lb, i, em, t)) Q E p"
  unfolding block_lines_def
  apply (rule wp_scan_loop [where J = "\<lambda>(_, _, _, t) b' cs'. b' \<le> b \<and> avail 1 cs' \<and> parts f t", OF v])
  subgoal using a t by simp
  apply (simp only: split_paired_all prod.case, elim conjE)
  by (erule scan_rules | rule wp_intros breakI | assumption | (erule wp_block_line, assumption, assumption, simp)
     | erule againI Q E | simp; fail | linarith)+

lemma wp_with_parts3:
  assumes v: "view p0 k b cs p"
    and m: "\<And>t p'. view p0 (k + 1 + 1 + 1) b cs p' \<Longrightarrow> parts False t
      \<Longrightarrow> wp (m t) Q (\<lambda>p''. E (STRING_DEL (STRING_DEL (STRING_DEL p'')))) p'"
    and E: "\<And>p'. lost p0 k p' \<Longrightarrow> E p'"
  shows "wp (with_parts 3 m) Q E p"
  unfolding with_parts_def
  by (insert v, (erule wp_with_string | rule wp_choiceI | assumption | erule m E [OF lost_del [OF lost_del [OF lost_del]]] E [OF lost_del [OF lost_del]] E [OF lost_del] E
     | simp add: parts_def; fail | (simp, fail))+)

lemma wp_STRING_DEL2 [scan_rules]:
  assumes "view p0 (k + 1 + 1) b cs p" and "\<And>p'. view p0 k b cs p' \<Longrightarrow> Q () p'"
  shows "wp (modifyM (STRING_DEL \<circ> STRING_DEL)) Q E p"
  using assms(2) [OF view_del [OF view_del [OF assms(1)]]] by (simp add: wp_modifyM)

lemma wp_scan_block_scalar [scan_rules]:
  assumes v: "view p0 k b cs p" and nz: "octet (enc cs) 0 \<noteq> 0"
    and Q: "\<And>d x y b' cs' p'. view p0 (k + data_blocks d) b' cs' p' \<Longrightarrow> b' < b \<Longrightarrow> value_token d \<Longrightarrow> Q (TOKEN_INIT d x y) p'"
    and E: "\<And>p'. lost p0 k p' \<Longrightarrow> E p'"
  shows "wp (yaml_parser_scan_block_scalar li) Q E p"
proof -
  have Q': "\<And>s st x y b' cs' p'. view p0 (k + 1) b' cs' p' \<Longrightarrow> b' < b \<Longrightarrow> Q (TOKEN_INIT (ScalarToken s st) x y) p'"
    by (rule Q) (simp_all add: value_token_def)
  show ?thesis unfolding yaml_parser_scan_block_scalar_def
    by (insert v nz, (erule wp_with_parts3 scan_rules | rule wp_intros parts_intros | assumption | simp only: split_paired_all
      | erule E [OF lost_del [OF lost_del [OF lost_del]]] E Q' | simp; fail | linarith)+)
qed

subsection \<open>Quoted scalars\<close>

lemma wp_join_spaces [scan_rules]:
  assumes v: "view p0 k b cs p" and t: "parts True t"
    and Q: "\<And>t' p'. view p0 k b cs p' \<Longrightarrow> parts True t' \<Longrightarrow> Q t' p'"
    and E: "\<And>p'. lost p0 k p' \<Longrightarrow> E p'"
  shows "wp (join_spaces t) Q E p" "wp (fold_breaks t) Q E p"
  unfolding join_spaces_def fold_breaks_def
  by (insert v t, (erule scan_rules | rule wp_intros parts_intros | assumption | erule Q E | simp; fail)+)

lemma escape_octets_Some: "escape_octets c = Some bs \<Longrightarrow> c \<noteq> 0 \<and> c \<le> 0x7F \<and> length bs \<le> 5"
  by (auto simp: escape_octets_def ch_def split: if_splits)

lemma escape_length_pos: "escape_length c \<noteq> 0 \<Longrightarrow> c \<noteq> 0 \<and> c \<le> 0x7F \<and> escape_length c \<le> 4095"
  by (auto simp: escape_length_def ch_def split: if_splits)

lemma wp_scan_escape_code [scan_rules]:
  assumes v: "view p0 k b cs p" and s: "strg s" "room 5 s" and n: "n \<le> 4095"
    and Q: "\<And>s' b' cs' p'. view p0 k b' cs' p' \<Longrightarrow> b' \<le> b \<Longrightarrow> strg s' \<Longrightarrow> Q s' p'"
    and E: "\<And>p'. lost p0 k p' \<Longrightarrow> E p'"
  shows "wp (scan_escape_code n m s) Q E p"
proof -
  have hex: "\<forall>i<n. octet bs i \<noteq> 0 \<and> octet bs i \<le> 0x7F" if "\<not> \<not> list_all (IS_HEX_AT bs) [0..<n]" for bs
    using that by (auto simp: list_all_iff dest: hex_octet)
  show ?thesis unfolding scan_escape_code_def
    by (insert v s n, (erule scan_rules | rule wp_intros | assumption | erule Q E hex | rule length_utf8_put_le [THEN order_trans]
      | (erule wp_put, assumption, assumption) | simp; fail)+)
qed

lemma wp_scan_escape [scan_rules]:
  assumes v: "view p0 k b cs p" and s: "strg s" and two: "avail 2 cs" and c: "CHECK (enc cs) CHR 0x5C"
    and Q: "\<And>s' b' cs' p'. view p0 k b' cs' p' \<Longrightarrow> b' < b \<Longrightarrow> strg s' \<Longrightarrow> Q s' p'"
    and E: "\<And>p'. lost p0 k p' \<Longrightarrow> E p'"
  shows "wp (scan_escape m s) Q E p"
proof -
  have c0: "\<forall>i<2. octet (enc cs) i \<noteq> 0 \<and> octet (enc cs) i \<le> 0x7F" if "octet (enc cs) 1 \<noteq> 0 \<and> octet (enc cs) 1 \<le> 0x7F \<and> R" for R
    using that c by (auto simp: CHECK_AT_def ch_def less_2_cases_iff)
  show ?thesis unfolding scan_escape_def
    by (insert v s two, (erule scan_rules | rule wp_intros | assumption | erule Q E | erule c0 [OF escape_octets_Some] c0 [OF escape_length_pos]
      | (erule wp_put, assumption, assumption) | (drule escape_octets_Some, simp; fail) | (drule escape_length_pos, simp; fail) | simp; fail | linarith)+)
qed

lemma CHECK_enc: "CHECK_AT (enc cs) c i \<Longrightarrow> c \<noteq> CHR 0x00 \<Longrightarrow> CHECK_AT (enc (cs @ ds)) c i"
  by (simp add: CHECK_append)

lemma IS_BREAK_AT_append: "IS_BREAK_AT s i \<Longrightarrow> IS_BREAK_AT (s @ t) i"
  by (auto simp: IS_BREAK_AT_def octet_prefix)

text \<open>An escaped line break.\<close>

lemma wp_skip_escaped_break:
  assumes v: "view p0 k b cs p" and three: "avail 3 cs" and c: "CHECK (enc cs) CHR 0x5C" and br: "IS_BREAK_AT (enc cs) 1"
    and m: "\<And>cs' b' p'. view p0 k b' cs' p' \<Longrightarrow> b' < b \<Longrightarrow> wp m Q E p'"
  shows "wp (seqM SKIP (seqM SKIP_LINE m)) Q E p"
proof -
  have o: "octet (enc cs) 0 = 0x5C" using c by (simp add: CHECK_AT_def ch_def)
  then have tl: "octet (enc cs) (Suc i) = octet (enc (tl cs)) i" for i by (intro octet_tl [OF view_wf [OF v]]) simp_all
  have "IS_BREAK (enc (tl cs))" using br tl [of 0] tl [of 1] tl [of 2] by (simp add: IS_BREAK_AT_def numeral_2_eq_2 numeral_3_eq_3)
  moreover have "avail 2 (tl cs)" by (rule avail_tl [OF view_wf [OF v]]) (use o three in simp_all)
  ultimately show ?thesis
    by (intro wp_intros wp_SKIP [OF v]) (use o m in \<open>auto elim!: wp_SKIP_LINE\<close>)
qed

text \<open>Without a line break or a quote in front, some character is consumed.\<close>

lemma quotes_ascii:
  "single \<and> CHECK_AT s CHR 0x27 0 \<and> CHECK_AT s CHR 0x27 1 \<Longrightarrow> \<forall>i<2. octet s i \<noteq> 0 \<and> octet s i \<le> 0x7F"
  by (auto simp: CHECK_AT_def ch_def less_2_cases_iff)

lemma wp_flow_chars [scan_rules]:
  assumes v: "view p0 k b cs p" and s: "strg s" and two: "avail 2 cs"
    and Q: "\<And>s' lb b' cs' p'. view p0 k b' cs' p' \<Longrightarrow> b' \<le> b \<Longrightarrow> strg s'
      \<Longrightarrow> b' < b \<or> (cs' = cs \<and> (IS_BLANKZ (enc cs) \<or> CHECK (enc cs) (quote_mark single))) \<Longrightarrow> Q (s', lb) p'"
    and E: "\<And>p'. lost p0 k p' \<Longrightarrow> E p'"
  shows "wp (flow_chars single m s) Q E p"
  unfolding flow_chars_def
  apply (rule wp_scan_loop [where J = "\<lambda>s b' cs'. strg s \<and> avail 2 cs' \<and> (b' < b \<or> b' = b \<and> cs' = cs)", OF v])
  subgoal using s two by simp
  apply (elim conjE)
  subgoal for t b' cs' p'
    apply (erule wp_lookingM, erule avail_mono, simp, rule wp_intros)
     apply (rule wp_intros, rule breakI, erule Q, linarith, assumption, blast)
    apply (erule wp_lookingM, assumption, rule wp_intros)
     apply (drule quotes_ascii)
     apply (erule scan_rules | rule wp_intros | (erule wp_put, assumption, assumption, (simp; fail)) | assumption | erule E againI | simp; fail)+
      apply (clarsimp, linarith)
     apply (erule E againI | simp; fail)+
    apply (rule wp_intros)
     apply (rule wp_intros, rule breakI, erule Q, linarith, assumption, blast)
    apply (rule wp_intros)
     apply (elim conjE, rule wp_intros, erule wp_CACHE, simp, erule wp_skip_escaped_break, assumption, erule CHECK_enc, simp, simp add: IS_BREAK_AT_append)
      apply (rule wp_intros, rule breakI, erule Q, linarith, assumption, force, erule E)
    apply (rule wp_intros)
     apply (elim conjE, rule wp_intros, erule wp_scan_escape, assumption, assumption, assumption)
      apply (erule scan_rules | rule wp_intros | assumption | erule E againI | simp; fail)+
      apply (clarsimp, linarith)
     apply (erule E)+
    apply (erule scan_rules octet_nonzero | rule wp_intros | assumption | erule E againI | simp; fail)+
     apply (clarsimp, linarith)
    apply (erule E)+
    done
  done

lemma wp_CACHE_again:
  assumes v: "view p0 k b cs p" and a: "avail n cs" and Q: "Q () p"
  shows "wp (CACHE n) Q E p"
proof -
  have "n \<le> p_unread p \<or> p_eof p" using v a by (auto simp: view_def avail_def holds_def chars_wf_def split: if_splits)
  moreover have "yaml_parser_update_buffer n p = Return () p" if "p_eof p"
    using that v by (auto simp: yaml_parser_update_buffer_def prog_defs view_def reader_ok_def reader_inv_def)
  ultimately show ?thesis using Q by (auto simp: CACHE_def wp_def readM_def returnM_def)
qed

text \<open>Blanks and breaks; \<open>forbid\<close> only looks.\<close>

lemma wp_scan_blanks:
  assumes v: "view p0 k b cs p" and t: "parts True t" and a: "avail 1 cs"
    and F: "\<And>l bs b cs p R. view p0 k b cs p \<Longrightarrow> (view p0 k b cs p \<Longrightarrow> R () p) \<Longrightarrow> wp (forbid l bs) R E p"
    and Q: "\<And>lb t' b' cs' p'. view p0 k b' cs' p' \<Longrightarrow> b' \<le> b \<Longrightarrow> parts True t' \<Longrightarrow> avail 1 cs'
      \<Longrightarrow> (IS_BLANK (enc cs) \<or> IS_BREAK (enc cs) \<Longrightarrow> b' < b) \<Longrightarrow> Q (lb, t') p'"
    and E: "\<And>p'. lost p0 k p' \<Longrightarrow> E p'"
  shows "wp (scan_blanks forbid (lb, t)) Q E p"
  unfolding scan_blanks_def
  apply (rule wp_scan_loop [where J = "\<lambda>(_, t) b' cs'. parts True t \<and> avail 1 cs' \<and> (b' < b \<or> b' = b \<and> cs' = cs)", OF v])
  subgoal using t a by simp
  apply (simp only: split_paired_all prod.case, elim conjE)
  apply (erule scan_rules | rule wp_intros breakI parts_intros | assumption | erule E octet_nonzero F IS_BREAK_enc | simp; fail
     | (erule againI, linarith, (auto simp: parts_intros; fail))
     | (erule Q, linarith, assumption, assumption, force))+
  done

lemma wp_at_document_indicator:
  assumes "view p0 k b cs p" "avail 4 cs"
    and "view p0 k b cs p \<Longrightarrow> Q (mark_column (p_mark p) = 0 \<and> (document_indicator CHR ''-'' (enc cs) \<or> document_indicator CHR ''.'' (enc cs))) p"
  shows "wp at_document_indicator Q E p"
  unfolding at_document_indicator_def
  by (insert assms, (erule wp_lookingM | rule wp_intros | assumption | simp)+)

text \<open>A line that is not closed by its quote ends in blanks or a break, which are consumed as well.\<close>

lemma IS_BLANK_append: "IS_BLANK s \<Longrightarrow> IS_BLANK (s @ t)"
  by (auto simp: IS_BLANK_AT_def IS_SPACE_AT_def IS_TAB_AT_def octet_prefix)

lemma blank_or_break:
  assumes "IS_BLANKZ (enc (cs @ ds))" "\<not> IS_Z_AT (enc cs) 0"
  shows "IS_BLANK (enc ((cs @ ds) @ es)) \<or> IS_BREAK (enc ((cs @ ds) @ es))"
proof -
  have "octet (enc (cs @ ds)) 0 \<noteq> 0" using assms(2) by (simp add: IS_Z_AT_def octet_prefix)
  then have "IS_BLANK (enc (cs @ ds)) \<or> IS_BREAK (enc (cs @ ds))"
    using assms(1) by (auto simp: IS_BLANKZ_AT_def IS_BREAKZ_AT_def IS_Z_AT_def)
  then show ?thesis using IS_BLANK_append [of "enc (cs @ ds)" "enc es"] IS_BREAK_append [of "enc (cs @ ds)" "enc es"] by auto
qed

lemma flow_line_progress:
  assumes "b1 < b \<or> (cs1 = cs @ d1 \<and> (IS_BLANKZ (enc (cs @ d1)) \<or> CHECK (enc (cs @ d1)) (quote_mark single)))" "b1 \<le> b" "b2 \<le> b1"
    and less: "IS_BLANK (enc ((cs1 @ d2) @ d3)) \<or> IS_BREAK (enc ((cs1 @ d2) @ d3)) \<Longrightarrow> b2 < b1"
    and "\<not> IS_Z_AT (enc cs) 0" "\<not> CHECK (enc (cs1 @ d2)) (quote_mark single)"
  shows "b2 < (b :: nat)"
proof (cases "b1 < b")
  case False
  have "\<not> CHECK (enc cs1) (quote_mark single)"
    using assms(6) CHECK_enc [of cs1 "quote_mark single" 0 d2] by (auto simp: quote_mark_def)
  with False assms have "IS_BLANKZ (enc (cs @ d1))" "cs1 = cs @ d1" by auto
  with blank_or_break [OF this(1) assms(5), of "d2 @ d3"] less have "b2 < b1" by simp
  with assms(2) show ?thesis by simp
qed (use assms(3) in simp)

lemma wp_flow_line:
  assumes v: "view p0 k b cs p" and t: "parts True t" and B: "b \<le> B"
    and Q: "\<And>t' b' cs' p'. view p0 k b' cs' p' \<Longrightarrow> b' \<le> B \<Longrightarrow> parts True t' \<Longrightarrow> octet (enc cs') 0 \<noteq> 0 \<Longrightarrow> Q t' p'"
    and E: "\<And>p'. lost p0 k p' \<Longrightarrow> E p'"
  shows "wp (flow_line single m t) (looping p0 k (\<lambda>t b' _. parts True t \<and> b' \<le> B) b Q) E p"
  unfolding flow_line_def
  apply (insert v t B)
  apply (erule scan_rules wp_at_document_indicator | rule wp_intros | assumption | erule E avail_mono | simp; fail | simp only: split_paired_all)+
    apply (rule breakI, erule Q, linarith, (simp add: parts_intros; fail), erule CHECK_nonzero, simp add: quote_mark_def)
   apply (rule wp_intros, erule wp_CACHE, simp, rule wp_intros, erule wp_scan_blanks, (simp add: parts_intros; fail), assumption)
      apply (rule wp_returnI, blast)
     apply (erule scan_rules | rule wp_intros | assumption
       | (erule againI, rule flow_line_progress, assumption, assumption, assumption, assumption, assumption, assumption)
       | (rule conjI, assumption, linarith) | erule E)+
  done

lemma wp_with_parts4:
  assumes v: "view p0 k b cs p"
    and m: "\<And>t p'. view p0 (k + 1 + 1 + 1 + 1) b cs p' \<Longrightarrow> parts True t
      \<Longrightarrow> wp (m t) Q (\<lambda>p''. E (STRING_DEL (STRING_DEL (STRING_DEL (STRING_DEL p''))))) p'"
    and E: "\<And>p'. lost p0 k p' \<Longrightarrow> E p'"
  shows "wp (with_parts 4 m) Q E p"
  unfolding with_parts_def
  by (insert v, (erule wp_with_string | (rule wp_choiceI, (simp; fail)) | assumption
     | erule m E [OF lost_del [OF lost_del [OF lost_del]]] E [OF lost_del [OF lost_del]] E [OF lost_del] E
     | simp add: parts_def; fail)+)

lemma wp_STRING_DEL3 [scan_rules]:
  assumes "view p0 (k + 1 + 1 + 1) b cs p" and "\<And>p'. view p0 k b cs p' \<Longrightarrow> Q () p'"
  shows "wp (modifyM (STRING_DEL \<circ> STRING_DEL \<circ> STRING_DEL)) Q E p"
  using assms(2) [OF view_del [OF view_del [OF view_del [OF assms(1)]]]] by (simp add: wp_modifyM)

lemma wp_flow_lines [scan_rules]:
  assumes v: "view p0 k b cs p" and t: "parts True t"
    and Q: "\<And>t' b' cs' p'. view p0 k b' cs' p' \<Longrightarrow> b' \<le> b \<Longrightarrow> parts True t' \<Longrightarrow> octet (enc cs') 0 \<noteq> 0 \<Longrightarrow> Q t' p'"
    and E: "\<And>p'. lost p0 k p' \<Longrightarrow> E p'"
  shows "wp (loopM (flow_line single m) t) Q E p"
  by (rule wp_scan_loop [where J = "\<lambda>t b' _. parts True t \<and> b' \<le> b", OF v])
    (use t in \<open>auto intro: wp_flow_line Q E\<close>)

lemma wp_scan_flow_scalar [scan_rules]:
  assumes v: "view p0 k b cs p" and nz: "octet (enc cs) 0 \<noteq> 0"
    and Q: "\<And>d x y b' cs' p'. view p0 (k + data_blocks d) b' cs' p' \<Longrightarrow> b' < b \<Longrightarrow> value_token d \<Longrightarrow> Q (TOKEN_INIT d x y) p'"
    and E: "\<And>p'. lost p0 k p' \<Longrightarrow> E p'"
  shows "wp (yaml_parser_scan_flow_scalar single) Q E p"
proof -
  have Q': "\<And>s st x y b' cs' p'. view p0 (k + 1) b' cs' p' \<Longrightarrow> b' < b \<Longrightarrow> Q (TOKEN_INIT (ScalarToken s st) x y) p'"
    by (rule Q) (simp_all add: value_token_def)
  show ?thesis unfolding yaml_parser_scan_flow_scalar_def
    by (insert v nz, (erule wp_with_parts4 scan_rules | rule wp_intros parts_intros | assumption
      | erule E [OF lost_del [OF lost_del [OF lost_del [OF lost_del]]]] E Q' | simp; fail | linarith)+)
qed

subsection \<open>Plain scalars\<close>

lemma view_flow: "view p0 k b cs p \<Longrightarrow> p_flow_level p = p_flow_level p0"
  by (drule view_kept) (simp add: kept_def)

lemma wp_plain_chars [scan_rules]:
  assumes v: "view p0 k b cs p" and t: "parts True t" and two: "avail 2 cs"
    and Q: "\<And>lb em t' b' cs' p'. view p0 k b' cs' p' \<Longrightarrow> b' \<le> b \<Longrightarrow> parts True t' \<Longrightarrow> avail 1 cs'
      \<Longrightarrow> b' < b \<or> plain_stop (p_flow_level p0 \<noteq> 0) (enc cs) \<Longrightarrow> Q (lb, em, t') p'"
    and E: "\<And>p'. lost p0 k p' \<Longrightarrow> E p'"
  shows "wp (plain_chars m (lb, em, t)) Q E p"
  unfolding plain_chars_def
  apply (rule wp_scan_loop [where J = "\<lambda>(_, _, t) b' cs'. parts True t \<and> avail 2 cs' \<and> (b' < b \<or> b' = b \<and> cs' = cs)", OF v])
  subgoal using t two by simp
  apply (simp only: split_paired_all prod.case, elim conjE)
  subgoal for lb em t b' cs' p'
    apply (erule wp_lookingM, erule avail_mono, simp, rule wp_intros, rule wp_intros)
     apply (rule wp_intros, rule breakI, erule Q, linarith, assumption, erule avail_mono, simp, force simp: plain_stop_def)
    apply (erule wp_lookingM, assumption, rule wp_intros)
     apply (erule wp_scanner_error, erule E)
    apply (rule wp_intros)
     apply (frule view_flow, rule wp_intros, rule breakI, erule Q, linarith, assumption, erule avail_mono, simp, force simp: plain_stop_def)
    apply (erule scan_rules octet_nonzero | rule wp_intros parts_intros | assumption
       | (erule againI, linarith, (auto simp: parts_intros; fail)) | erule E | simp; fail)+
    done
  done

text \<open>A line of a plain scalar consumes something unless it stops at once; if the next line belongs to it, it does.\<close>

lemma blank_or_break_append:
  "IS_BLANK (enc cs) \<or> IS_BREAK (enc cs) \<Longrightarrow> IS_BLANK (enc (cs @ ds)) \<or> IS_BREAK (enc (cs @ ds))"
  using IS_BLANK_append [of "enc cs" "enc ds"] IS_BREAK_append [of "enc cs" "enc ds"] by auto

lemma wp_plain_line:
  assumes v: "view p0 k b cs p" and t: "parts True t"
    and again: "\<And>lb em t' b' cs' p'. view p0 k b' cs' p' \<Longrightarrow> b' < b \<Longrightarrow> parts True t' \<Longrightarrow> R (Inl (lb, em, t')) p'"
    and stop: "\<And>lb em t' b' cs' p'. view p0 k b' cs' p' \<Longrightarrow> b' \<le> b \<Longrightarrow> parts True t'
      \<Longrightarrow> b' < b \<or> \<not> avail 4 cs \<or> line_stop (mark_column (p_mark p) = 0) (p_flow_level p0 \<noteq> 0) (enc cs) \<Longrightarrow> R (Inr (lb, em, t')) p'"
    and E: "\<And>p'. lost p0 k p' \<Longrightarrow> E p'"
  shows "wp (plain_line i m (lb, em, t)) R E p"
proof -
  let ?rest = "bindM at_document_indicator (\<lambda>ind.
      bindM (lookM 1 (\<lambda>b. CHECK b CHR ''#'')) (\<lambda>comment.
        if ind \<or> comment then breakM (lb, em, t)
        else bindM (plain_chars m (lb, em, t)) (\<lambda>(leading_blanks, end_mark, t).
          bindM (lookM 1 (\<lambda>b. IS_BLANK b \<or> IS_BREAK b)) (\<lambda>blank.
            if \<not> blank then breakM (leading_blanks, end_mark, t)
            else seqM (CACHE 1)
              (bindM (scan_blanks (forbid_tab i m) (leading_blanks, t)) (\<lambda>(leading_blanks, t).
               readM (\<lambda>p. if p_flow_level p = 0 \<and> column_of p < i
                 then breakM (leading_blanks, end_mark, t)
                 else againM (leading_blanks, end_mark, t))))))))"
  have rest: "wp ?rest R E p'"
    if v: "view p0 k b cs' p'" and four: "avail 4 cs'"
      and same: "avail 4 cs \<longrightarrow> cs' = cs \<and> p_mark p' = p_mark p" for cs' p'
    apply (insert v t, rule wp_intros, erule wp_at_document_indicator, rule four)
    apply (rule wp_intros, erule wp_lookM, rule avail_mono [OF four], simp, rule wp_intros)
     apply (rule wp_intros, erule stop, simp, assumption, (insert same, force simp: line_stop_def)[1])
    apply (rule wp_intros, erule wp_plain_chars, assumption, rule avail_mono [OF four], simp)
     apply (rule wp_intros, rule wp_intros, rule wp_intros, erule wp_lookM, assumption, rule wp_intros)
      apply (rule wp_intros, erule stop, assumption, assumption, (insert same, force simp: line_stop_def)[1])
     apply (rule wp_intros, erule wp_CACHE, simp, rule wp_intros, erule wp_scan_blanks, assumption, assumption)
        apply (simp add: forbid_tab_def, rule wp_intros, rule wp_intros, erule wp_scanner_error, erule E, rule wp_intros, blast)
       apply (drule blank_or_break_append)
       apply (rule wp_intros, rule wp_intros, rule wp_intros)
        apply (rule wp_intros, erule stop, linarith, assumption, force)
       apply (rule wp_intros, erule again, force, assumption)
      apply (erule E)+
    done
  show ?thesis
  proof (cases "avail 4 cs")
    case True
    show ?thesis unfolding plain_line_def prod.case
      by (rule wp_intros, rule wp_CACHE_again [OF v True]) (rule rest, use v True in auto)
  next
    case False
    show ?thesis unfolding plain_line_def prod.case
      by (rule wp_intros, rule wp_CACHE [OF v], simp, rule rest, assumption, assumption, simp add: False, erule E)
  qed
qed

lemma view_mark: "view p0 k (chars_bound pending p0) cs p \<Longrightarrow> p_mark p = p_mark p0"
  by (simp add: view_def)

lemma wp_plain_lines:
  assumes v: "view p0 k (chars_bound pending p0) cs p" and t: "parts True t" and a: "avail 4 cs"
    and start: "\<not> line_stop (mark_column (p_mark p0) = 0) (p_flow_level p0 \<noteq> 0) (enc cs)"
    and Q: "\<And>lb em t' b' cs' p'. view p0 k b' cs' p' \<Longrightarrow> b' < chars_bound pending p0 \<Longrightarrow> parts True t' \<Longrightarrow> Q (lb, em, t') p'"
    and E: "\<And>p'. lost p0 k p' \<Longrightarrow> E p'"
  shows "wp (loopM (plain_line i m) (lb, em, t)) Q E p"
  apply (rule wp_scan_loop [where J = "\<lambda>(_, _, t) b' cs'. parts True t \<and> (b' < chars_bound pending p0 \<or> b' = chars_bound pending p0 \<and> cs' = cs)", OF v])
  subgoal using t by simp
  apply (simp only: split_paired_all prod.case, elim conjE)
  subgoal premises prems for lb em t b' cs' p'
    using prems(1,2)
  proof (rule wp_plain_line)
    fix lb em t' b'' cs'' p''
    assume "view p0 k b'' cs'' p''" "b'' < b'" "parts True t'"
    with prems(3) show "looping p0 k (\<lambda>(_, _, t) b' cs'. parts True t \<and> (b' < chars_bound pending p0 \<or> b' = chars_bound pending p0 \<and> cs' = cs))
        b' Q (Inl (lb, em, t')) p''"
      by (intro againI [where b' = b'' and cs' = cs'']) auto
  next
    fix lb em t' b'' cs'' p''
    assume *: "view p0 k b'' cs'' p''" "b'' \<le> b'" "parts True t'"
      and "b'' < b' \<or> \<not> avail 4 cs' \<or> line_stop (mark_column (p_mark p') = 0) (p_flow_level p0 \<noteq> 0) (enc cs')"
    then have "b'' < chars_bound pending p0" using prems start a view_mark [of p0 k cs' p'] by auto
    with * show "looping p0 k (\<lambda>(_, _, t) b' cs'. parts True t \<and> (b' < chars_bound pending p0 \<or> b' = chars_bound pending p0 \<and> cs' = cs))
        b' Q (Inr (lb, em, t')) p''"
      by (intro breakI Q)
  qed (rule E)
  done

lemma wp_scan_plain_scalar [scan_rules]:
  assumes v: "view p0 k (chars_bound pending p0) cs p" and a: "avail 4 cs"
    and start: "\<not> line_stop (mark_column (p_mark p0) = 0) (p_flow_level p0 \<noteq> 0) (enc cs)"
    and Q: "\<And>d x y b' cs' p'. view p0 (k + data_blocks d) b' cs' p' \<Longrightarrow> b' < chars_bound pending p0 \<Longrightarrow> value_token d \<Longrightarrow> Q (TOKEN_INIT d x y) p'"
    and E: "\<And>p'. lost p0 k p' \<Longrightarrow> E p'"
  shows "wp yaml_parser_scan_plain_scalar Q E p"
proof -
  have Q': "\<And>s st x y b' cs' p'. view p0 (k + 1) b' cs' p' \<Longrightarrow> b' < chars_bound pending p0 \<Longrightarrow> Q (TOKEN_INIT (ScalarToken s st) x y) p'"
    by (rule Q) (simp_all add: value_token_def)
  show ?thesis unfolding yaml_parser_scan_plain_scalar_def
    by (insert v, (erule wp_with_parts4 wp_plain_lines scan_rules | rule wp_intros a start | assumption
      | erule E [OF lost_del [OF lost_del [OF lost_del [OF lost_del]]]] E Q')+)
qed

end
end
