(* ===== verification/Scanner_Fetch.thy ===== *)
theory Scanner_Fetch
  imports Scanner_Scan
begin

text \<open>
  The functions that put tokens into the queue, and the scanner's own invariant: one potential simple key for each flow
  level, whose token, if the key is possible, is still in the queue or the next one to come and lies before the current
  position; a stack of indentation levels that ends at \<open>-1\<close>.
\<close>

definition sblocks :: "('h, 'z) yaml_scanner_scheme \<Rightarrow> int" where
  "sblocks p = sum_list (map token_blocks (items (p_tokens p)))"

definition surplus :: "('h, 'z) yaml_scanner_scheme \<Rightarrow> int" where
  "surplus p = live (p_mem p) - sblocks p"

definition containers_ok :: "('h, 'z) yaml_scanner_scheme \<Rightarrow> bool" where
  "containers_ok p \<longleftrightarrow> stack_ok (p_indents p) \<and> stack_ok (p_simple_keys p) \<and> queue_ok (p_tokens p)"

text \<open>What fetching tokens leaves alone.\<close>

definition base_of where
  "base_of p = (yaml_scanner.more p, b_cap (p_raw_buffer p), b_cap (p_buffer p), p_stream_end_produced p, p_token_available p, p_tokens_parsed p)"

definition broken :: "('h, 'z) yaml_scanner_scheme \<Rightarrow> int \<Rightarrow> ('h, 'z) yaml_scanner_scheme \<Rightarrow> bool" where
  "broken p0 k p \<longleftrightarrow> p_error p \<noteq> YAML_COMPOSER_ERROR \<and> base_of p = base_of p0 \<and> containers_ok p \<and> surplus p = surplus p0 + k"

definition shape :: "('h, 'z) yaml_scanner_scheme \<Rightarrow> bool" where
  "shape p \<longleftrightarrow> p_flow_level p + 1 = int (length (simple_keys p)) \<and> simple_keys p \<noteq> [] \<and> hd (elems (p_indents p) @ [p_indent p]) = -1"

definition key_ok :: "bool \<Rightarrow> ('h, 'z) yaml_scanner_scheme \<Rightarrow> yaml_simple_key \<Rightarrow> bool" where
  "key_ok strict p k \<longleftrightarrow> (sk_possible k \<longrightarrow> p_tokens_parsed p \<le> sk_token_number k
     \<and> sk_token_number k \<le> p_tokens_parsed p + length (items (p_tokens p))
     \<and> (mark_before (sk_mark k) (p_mark p) \<or> (\<not> strict \<and> sk_mark k = p_mark p)))"

definition no_end :: "('h, 'z) yaml_scanner_scheme \<Rightarrow> bool" where
  "no_end p \<longleftrightarrow> YAML_STREAM_END_TOKEN \<notin> t_type ` set (items (p_tokens p))"

definition units :: "('h, 'z) yaml_scanner_scheme \<Rightarrow> nat" where
  "units p = length (items (p_tokens p)) + length (elems (p_indents p))"

text \<open>What enqueuing a token leaves alone.\<close>

definition layout where
  "layout p = (p_mark p, p_flow_level p, p_simple_keys p, p_indents p, p_indent p)"

lemma wp_pop_stack:
  assumes "elems (sel p) \<noteq> []" "Q (last (elems (sel p))) (upd ((sel p)\<lparr>elems := butlast (elems (sel p))\<rparr>) p)"
  shows "wp (zoomM sel upd POP) Q E p"
  unfolding wp_zoomM using assms by (simp add: POP_def wp_def)

lemmas fetch_defs = sblocks_def surplus_def containers_ok_def base_of_def shape_def key_ok_def no_end_def units_def

lemma wp_push_stack:
  assumes "stack_ok (sel p)"
    and "\<And>st h. stack_ok st \<Longrightarrow> elems st = elems (sel p) @ [x] \<Longrightarrow> live h = live (p_mem p) \<Longrightarrow> Q () (upd st (p\<lparr>p_mem := h\<rparr>))"
    and "\<And>h. live h = live (p_mem p) \<Longrightarrow> E (upd (sel p) (p\<lparr>p_mem := h, p_error := YAML_MEMORY_ERROR\<rparr>))"
  shows "wp (push_stack sel upd x) Q E p"
proof -
  have "wp (PUSH x) (\<lambda>_ (st, h). Q () (upd st (p\<lparr>p_mem := h\<rparr>)))
      (\<lambda>(st, h). E (upd st (p\<lparr>p_mem := h, p_error := YAML_MEMORY_ERROR\<rparr>))) (sel p, p_mem p)"
    by (rule wp_PUSH [OF assms(1)]) (use assms(2,3) in auto)
  then show ?thesis by (auto simp: wp_def push_stack_def split: result.splits prod.splits)
qed

lemma wp_on_tokens: "wp (on_tokens m) Q E p = wp m (\<lambda>_ (q, h). Q () (p\<lparr>p_mem := h, p_tokens := q\<rparr>))
    (\<lambda>(q, h). E (p\<lparr>p_mem := h, p_tokens := q, p_error := YAML_MEMORY_ERROR\<rparr>)) (p_tokens p, p_mem p)"
  by (auto simp: wp_def on_tokens_def split: result.split prod.split)

lemma token_type_INIT [simp]: "t_type (TOKEN_INIT d m m') = token_data_type d"
  by (simp add: t_type_def TOKEN_INIT_def)

lemma value_token_type: "value_token d \<Longrightarrow> token_data_type d \<noteq> YAML_STREAM_END_TOKEN"
  by (auto simp: value_token_def split: yaml_token_data.splits)

lemma broken_free: "broken p0 (data_blocks d) p \<Longrightarrow> broken p0 0 (freeP (yaml_token_delete (TOKEN_INIT d m m')) p)"
  by (simp add: broken_def freeP_def fetch_defs)

definition indicators :: "nat \<Rightarrow> ystring \<Rightarrow> bool" where
  "indicators n b \<longleftrightarrow> (\<forall>i<n. octet b i \<noteq> 0 \<and> octet b i \<le> 0x7F)"

lemma data_blocks_tokens [simp]:
  "data_blocks StreamEndToken = 0" "data_blocks DocumentStartToken = 0" "data_blocks DocumentEndToken = 0"
  "data_blocks BlockSequenceStartToken = 0" "data_blocks BlockMappingStartToken = 0" "data_blocks BlockEndToken = 0"
  "data_blocks FlowSequenceStartToken = 0" "data_blocks FlowSequenceEndToken = 0" "data_blocks FlowMappingStartToken = 0"
  "data_blocks FlowMappingEndToken = 0" "data_blocks BlockEntryToken = 0" "data_blocks FlowEntryToken = 0"
  "data_blocks KeyToken = 0" "data_blocks ValueToken = 0" "data_blocks (StreamStartToken e) = 0"
  by (simp_all add: data_blocks_def token_blocks_def TOKEN_INIT_def)

lemma length_takeWhile_dropWhile: "length (takeWhile P xs) + length (dropWhile P xs) = length xs"
  by (induction xs) simp_all

text \<open>Either there is an error, or no key that is possible is stale any more.\<close>

definition refreshed :: "yaml_mark \<Rightarrow> yaml_simple_key list \<Rightarrow> yaml_simple_key list" where
  "refreshed m = List.map (\<lambda>k. if stale m k then k\<lparr>sk_possible := False\<rparr> else k)"

lemma refreshed_stale: "k \<in> set (refreshed m ks) \<Longrightarrow> \<not> stale m k"
  by (auto simp: refreshed_def stale_def split: if_splits)

lemma refreshed_ok: "\<forall>k\<in>set ks. key_ok s p k \<Longrightarrow> \<forall>k\<in>set (refreshed m ks). key_ok s p k"
  by (auto simp: refreshed_def key_ok_def)

lemma indicators_CHECK: "CHECK b c \<Longrightarrow> ch c \<noteq> 0 \<Longrightarrow> ch c \<le> 0x7F \<Longrightarrow> indicators 1 b"
  by (simp add: indicators_def CHECK_AT_def)

lemma indicators_document: "document_indicator c b \<Longrightarrow> ch c \<noteq> 0 \<Longrightarrow> ch c \<le> 0x7F \<Longrightarrow> indicators 3 b"
  by (auto simp: indicators_def document_indicator_def CHECK_AT_def numeral_3_eq_3 numeral_2_eq_2 less_Suc_eq)

lemma plain_goes_on:
  assumes "starts_plain flow b" "\<not> (column0 \<and> document_indicator CHR ''-'' b)" "\<not> (column0 \<and> document_indicator CHR ''.'' b)"
    "\<not> (CHECK b CHR '':'' \<and> (flow \<or> IS_BLANKZ_AT b 1))"
  shows "\<not> line_stop column0 flow b"
proof -
  have blank: "\<not> IS_BLANKZ b" if "CHECK b c" "c \<in> set ''-?:''" for c
    using that by (auto simp: CHECK_AT_def ch_def IS_BLANKZ_AT_def IS_BLANK_AT_def IS_SPACE_AT_def IS_TAB_AT_def IS_BREAKZ_AT_def
        IS_BREAK_AT_def IS_Z_AT_def)
  have other: "\<not> CHECK b d" if "CHECK b c" "ch c \<noteq> ch d" for c d
    using that by (simp add: CHECK_AT_def)
  have stop: "line_stop column0 flow b \<longleftrightarrow> CHECK b CHR ''#'' \<or> IS_BLANKZ b \<or> (CHECK b CHR '':'' \<and> IS_BLANKZ_AT b 1) \<or> (flow \<and> CHECK_ANY b '',[]{}'')"
    using assms(2,3) unfolding line_stop_def plain_stop_def by blast
  from assms(1) consider "\<not> IS_BLANKZ b" "\<not> CHECK b CHR ''#''" "\<not> CHECK_ANY b '',[]{}''"
    | "CHECK b CHR ''-''" | "\<not> flow" "CHECK b CHR ''?''" | "\<not> flow" "CHECK b CHR '':''"
    unfolding starts_plain_def CHECK_ANY_def by auto
  then show ?thesis
  proof cases
    case 1
    with assms(4) show ?thesis unfolding stop by blast
  next
    case 2
    with blank [OF 2] other [OF 2] show ?thesis unfolding stop by (simp add: ch_def CHECK_ANY_def)
  next
    case 3
    with blank [OF 3(2)] other [OF 3(2)] show ?thesis unfolding stop by (simp add: ch_def CHECK_ANY_def)
  next
    case 4
    with assms(4) blank [OF 4(2)] other [OF 4(2)] show ?thesis unfolding stop by (simp add: ch_def CHECK_ANY_def)
  qed
qed

lemma stale_before: "sk_possible k \<Longrightarrow> mark_before (sk_mark k) m \<Longrightarrow> mark_column m = 0 \<Longrightarrow> stale m k"
  by (simp add: stale_def mark_before_def)

context byte_source
begin

definition text_ok :: "('h, 'z) yaml_scanner_scheme \<Rightarrow> 32 word list \<Rightarrow> bool" where
  "text_ok p cs \<longleftrightarrow> reader_ok handler pending src_ok p \<and> holds p cs \<and> chars_wf (p_eof p) cs \<and> p_error p = YAML_NO_ERROR"

lemma text_ok_updates [simp]:
  "text_ok (p\<lparr>p_mem := h\<rparr>) cs = text_ok p cs" "text_ok (p\<lparr>p_tokens := q\<rparr>) cs = text_ok p cs"
  "text_ok (p\<lparr>p_indents := st\<rparr>) cs = text_ok p cs" "text_ok (p\<lparr>p_indent := i\<rparr>) cs = text_ok p cs"
  "text_ok (p\<lparr>p_simple_keys := ks\<rparr>) cs = text_ok p cs" "text_ok (p\<lparr>p_simple_key_allowed := a\<rparr>) cs = text_ok p cs"
  "text_ok (p\<lparr>p_flow_level := n\<rparr>) cs = text_ok p cs" "text_ok (p\<lparr>p_stream_start_produced := a\<rparr>) cs = text_ok p cs"
  "text_ok (p\<lparr>p_token_available := a\<rparr>) cs = text_ok p cs" "text_ok (p\<lparr>p_mark := m\<rparr>) cs = text_ok p cs"
  by (simp_all add: text_ok_def reader_ok_def reader_inv_def holds_def bytes_left_def)

lemma chars_bound_updates [simp]:
  "chars_bound pending (p\<lparr>p_mem := h\<rparr>) = chars_bound pending p" "chars_bound pending (p\<lparr>p_tokens := q\<rparr>) = chars_bound pending p"
  "chars_bound pending (p\<lparr>p_indents := st\<rparr>) = chars_bound pending p" "chars_bound pending (p\<lparr>p_indent := i\<rparr>) = chars_bound pending p"
  "chars_bound pending (p\<lparr>p_simple_keys := ks\<rparr>) = chars_bound pending p" "chars_bound pending (p\<lparr>p_simple_key_allowed := a\<rparr>) = chars_bound pending p"
  "chars_bound pending (p\<lparr>p_flow_level := n\<rparr>) = chars_bound pending p" "chars_bound pending (p\<lparr>p_stream_start_produced := a\<rparr>) = chars_bound pending p"
  "chars_bound pending (p\<lparr>p_token_available := a\<rparr>) = chars_bound pending p" "chars_bound pending (p\<lparr>p_mark := m\<rparr>) = chars_bound pending p"
  by (simp_all add: chars_bound_def bytes_left_def)

text \<open>
  \<open>stage p0 u b s cs p\<close>: tokens are being fetched since \<open>p0\<close>; there are at most \<open>u\<close> tokens and indentation levels and at
  most \<open>b\<close> characters to come, the buffer holding \<open>cs\<close>.  With \<open>s\<close>, every possible simple key lies before the mark.
\<close>

definition stage :: "('h, 'z) yaml_scanner_scheme \<Rightarrow> nat \<Rightarrow> nat \<Rightarrow> bool \<Rightarrow> 32 word list \<Rightarrow> ('h, 'z) yaml_scanner_scheme \<Rightarrow> bool" where
  "stage p0 u b s cs p \<longleftrightarrow> text_ok p cs \<and> p_stream_start_produced p \<and> base_of p = base_of p0 \<and> surplus p = surplus p0 \<and> containers_ok p
     \<and> shape p \<and> (\<forall>k\<in>set (simple_keys p). key_ok s p k) \<and> no_end p \<and> units p \<le> u \<and> chars_bound pending p \<le> b"

lemma stage_view: "stage p0 u b s cs p \<Longrightarrow> view p 0 (chars_bound pending p) cs p"
  by (rule view_start) (simp_all add: stage_def text_ok_def)

lemma stage_lost: "stage p0 u b s cs p \<Longrightarrow> lost p 0 p' \<Longrightarrow> broken p0 0 p'"
  by (auto simp: stage_def lost_def broken_def kept_def fetch_defs)

text \<open>Back from scanning: the keys now lie strictly before the mark.\<close>

lemma stage_scanned:
  assumes s: "stage p0 u b s cs p" and v: "view p 0 b' cs' p'" and less: "b' < chars_bound pending p"
  shows "stage p0 u (b - 1) True cs' p' \<and> 0 < b"
proof -
  have m: "mark_before (p_mark p) (p_mark p')" using v less by (simp add: view_def)
  have kept: "kept p' = kept p" using v by (simp add: view_def)
  have "key_ok True p' k" if "key_ok s p k" for k
    using that m kept mark_before_trans [of "sk_mark k" "p_mark p" "p_mark p'"] by (auto simp: key_ok_def kept_def)
  then have "\<forall>k\<in>set (simple_keys p'). key_ok True p' k" using s kept by (auto simp: stage_def kept_def)
  moreover have "text_ok p' cs'" "chars_bound pending p' \<le> b'" "live (p_mem p') = live (p_mem p)"
    using v by (simp_all add: view_def text_ok_def)
  ultimately show ?thesis using s kept less by (auto simp: stage_def kept_def fetch_defs)
qed

lemma stage_seen:
  assumes s: "stage p0 u b s cs p" and v: "view p 0 b' cs' p'"
  shows "stage p0 u b s cs' p'"
proof -
  have m: "mark_before (p_mark p) (p_mark p') \<or> p_mark p' = p_mark p" using v by (auto simp: view_def split: if_splits)
  have kept: "kept p' = kept p" using v by (simp add: view_def)
  have "key_ok s p' k" if "key_ok s p k" for k
    using that m kept mark_before_trans [of "sk_mark k" "p_mark p" "p_mark p'"] by (auto simp: key_ok_def kept_def)
  then have "\<forall>k\<in>set (simple_keys p'). key_ok s p' k" using s kept by (auto simp: stage_def kept_def)
  moreover have "text_ok p' cs'" "chars_bound pending p' \<le> chars_bound pending p" "live (p_mem p') = live (p_mem p)"
    using v by (simp_all add: view_def text_ok_def)
  ultimately show ?thesis using s kept by (auto simp: stage_def kept_def fetch_defs)
qed

subsection \<open>Operations on the stacks and the queue\<close>

lemma stage_key_allowed: "stage p0 u b s cs p \<Longrightarrow> stage p0 u b s cs (p\<lparr>p_simple_key_allowed := a\<rparr>)"
  unfolding stage_def by (elim conjE) (auto simp: fetch_defs)

lemma stage_weaken: "stage p0 u b s cs p \<Longrightarrow> u \<le> u' \<Longrightarrow> stage p0 u' b s cs p"
  by (simp add: stage_def)

lemma stage_broken: "stage p0 u b s cs p \<Longrightarrow> live h = live (p_mem p) \<Longrightarrow> broken p0 0 (p\<lparr>p_mem := h, p_error := YAML_MEMORY_ERROR\<rparr>)"
  by (simp add: stage_def broken_def fetch_defs)

lemma wp_stage_error:
  assumes "stage p0 u b s cs p" and E: "\<And>p'. broken p0 0 p' \<Longrightarrow> E p'"
  shows "wp (yaml_parser_set_scanner_error c m e) Q E p"
  using assms(1) by (auto simp: yaml_parser_set_scanner_error_def wp_errorM stage_def broken_def fetch_defs intro!: E)

text \<open>Tokens without strings.\<close>

lemma wp_enqueue:
  assumes s: "stage p0 u b s cs p" and d: "data_blocks d = 0" "token_data_type d \<noteq> YAML_STREAM_END_TOKEN"
    and Q: "\<And>p'. stage p0 (u + 1) b s cs p' \<Longrightarrow> layout p' = layout p \<Longrightarrow> Q () p'"
    and E: "\<And>p'. broken p0 0 p' \<Longrightarrow> E p'"
  shows "wp (enqueue_token (TOKEN_INIT d m m')) Q E p"
  unfolding enqueue_token_def wp_on_tokens
proof (rule wp_ENQUEUE)
  fix q and h :: heap
  assume q: "queue_ok q" "items q = items (p_tokens p) @ [TOKEN_INIT d m m']" "live h = live (p_mem p)"
  then have "stage p0 (u + 1) b s cs (p\<lparr>p_mem := h, p_tokens := q\<rparr>)"
    using s d by (auto simp: stage_def fetch_defs)
  with Q show "case (q, h) of (q, h) \<Rightarrow> Q () (p\<lparr>p_mem := h, p_tokens := q\<rparr>)" by (simp add: layout_def)
next
  fix h :: heap
  assume "live h = live (p_mem p)"
  with s have "broken p0 0 (p\<lparr>p_mem := h, p_tokens := p_tokens p, p_error := YAML_MEMORY_ERROR\<rparr>)"
    by (auto simp: stage_def broken_def fetch_defs)
  with E show "case (p_tokens p, h) of (q, h) \<Rightarrow> E (p\<lparr>p_mem := h, p_tokens := q, p_error := YAML_MEMORY_ERROR\<rparr>)" by simp
qed (use s in \<open>simp add: stage_def containers_ok_def\<close>)

text \<open>The token that has been scanned since \<open>p\<close>.\<close>

lemma wp_enqueue_scanned:
  assumes s: "stage p0 u b s cs p" and v: "view p (data_blocks d) b' cs' p'" and less: "b' < chars_bound pending p"
    and d: "token_data_type d \<noteq> YAML_STREAM_END_TOKEN"
    and Q: "\<And>p'. stage p0 (u + 1) (b - 1) True cs' p' \<Longrightarrow> 0 < b \<Longrightarrow> Q () p'"
    and E: "\<And>p'. broken p0 (data_blocks d) p' \<Longrightarrow> E p'"
  shows "wp (enqueue_token (TOKEN_INIT d m m')) Q E p'"
  unfolding enqueue_token_def wp_on_tokens
proof (rule wp_ENQUEUE)
  let ?p = "p'\<lparr>p_mem := (p_mem p')\<lparr>live := live (p_mem p') - data_blocks d\<rparr>\<rparr>"
  have "view p 0 b' cs' ?p" using view_mem [OF v, of "(p_mem p')\<lparr>live := live (p_mem p') - data_blocks d\<rparr>" "- data_blocks d"] by simp
  from stage_scanned [OF s this less] have st: "stage p0 u (b - 1) True cs' ?p" and b: "0 < b" by simp_all
  {
    fix q and h :: heap
    assume q: "queue_ok q" "items q = items (p_tokens p') @ [TOKEN_INIT d m m']" "live h = live (p_mem p')"
    then have "stage p0 (u + 1) (b - 1) True cs' (p'\<lparr>p_mem := h, p_tokens := q\<rparr>)"
      using st d by (auto simp: stage_def fetch_defs)
    with Q b show "case (q, h) of (q, h) \<Rightarrow> Q () (p'\<lparr>p_mem := h, p_tokens := q\<rparr>)" by simp
  next
    fix h :: heap
    assume "live h = live (p_mem p')"
    with st have "broken p0 (data_blocks d) (p'\<lparr>p_mem := h, p_tokens := p_tokens p', p_error := YAML_MEMORY_ERROR\<rparr>)"
      by (auto simp: stage_def broken_def fetch_defs)
    with E show "case (p_tokens p', h) of (q, h) \<Rightarrow> E (p'\<lparr>p_mem := h, p_tokens := q, p_error := YAML_MEMORY_ERROR\<rparr>)" by simp
  next
    show "queue_ok (p_tokens p')" using st by (simp add: stage_def containers_ok_def)
  }
qed

lemma wp_enqueue_or_delete:
  assumes "stage p0 u b s cs p" "view p (data_blocks d) b' cs' p'" "b' < chars_bound pending p" "value_token d"
    and "\<And>p'. stage p0 (u + 1) (b - 1) True cs' p' \<Longrightarrow> 0 < b \<Longrightarrow> Q () p'" and E: "\<And>p'. broken p0 0 p' \<Longrightarrow> E p'"
  shows "wp (enqueue_or_delete (TOKEN_INIT d m m')) Q E p'"
  unfolding enqueue_or_delete_def wp_cleanupM
  by (rule wp_enqueue_scanned [OF assms(1-3) value_token_type [OF assms(4)]]) (use assms(5) in \<open>auto intro: E broken_free\<close>)

text \<open>The simple keys are replaced by possible ones of the same number.\<close>

lemma stage_keys:
  assumes "stage p0 u b s cs p" "length ks = length (simple_keys p)" "\<forall>k\<in>set ks. key_ok s' p k" "s' \<longrightarrow> s"
  shows "stage p0 u b s' cs (p\<lparr>p_simple_keys := (p_simple_keys p)\<lparr>elems := ks\<rparr>\<rparr>)"
  using assms unfolding stage_def by (elim conjE) (auto simp: fetch_defs stack_ok_def)

lemma stage_last_key:
  assumes s: "stage p0 u b s cs p" and k: "key_ok s' p k" and s': "s' \<longrightarrow> s"
  shows "stage p0 u b s' cs (p\<lparr>p_simple_keys := (p_simple_keys p)\<lparr>elems := butlast (simple_keys p) @ [k]\<rparr>\<rparr>)"
proof (rule stage_keys [OF s _ _ s'])
  have "simple_keys p \<noteq> []" using s by (simp add: stage_def shape_def)
  then show "length (butlast (simple_keys p) @ [k]) = length (simple_keys p)" by simp
  have "\<forall>k\<in>set (simple_keys p). key_ok s p k" using s by (simp add: stage_def)
  then have "\<forall>k\<in>set (simple_keys p). key_ok s' p k" using s' by (auto simp: key_ok_def)
  with k show "\<forall>k\<in>set (butlast (simple_keys p) @ [k]). key_ok s' p k" by (auto dest: in_set_butlastD)
qed

lemma stage_keys_ne: "stage p0 u b s cs p \<Longrightarrow> simple_keys p \<noteq> []"
  by (simp add: stage_def shape_def)

abbreviation with_last_key :: "yaml_simple_key \<Rightarrow> ('h, 'z) yaml_scanner_scheme \<Rightarrow> ('h, 'z) yaml_scanner_scheme" where
  "with_last_key k p \<equiv> p\<lparr>p_simple_keys := (p_simple_keys p)\<lparr>elems := butlast (simple_keys p) @ [k]\<rparr>\<rparr>"

lemma wp_remove_simple_key:
  assumes s: "stage p0 u b s cs p"
    and Q: "\<And>p'. stage p0 u b s cs p' \<Longrightarrow> p' = with_last_key ((last (simple_keys p))\<lparr>sk_possible := False\<rparr>) p \<Longrightarrow> Q () p'"
    and E: "\<And>p'. broken p0 0 p' \<Longrightarrow> E p'"
  shows "wp yaml_parser_remove_simple_key Q E p"
proof -
  have "stage p0 u b s cs (with_last_key ((last (simple_keys p))\<lparr>sk_possible := False\<rparr>) p)"
    by (rule stage_last_key [OF s]) (simp_all add: key_ok_def)
  with stage_keys_ne [OF s] show ?thesis unfolding yaml_parser_remove_simple_key_def missing_value_def
    by (auto simp: wp_simps top_simple_key_def set_top_simple_key_def set_simple_keys_def intro!: Q wp_stage_error [OF s] E)
qed

lemma wp_save_simple_key:
  assumes s: "stage p0 u b s cs p"
    and Q: "\<And>p'. stage p0 u b False cs p' \<Longrightarrow> p_mark p' = p_mark p \<Longrightarrow> p_flow_level p' = p_flow_level p \<Longrightarrow> Q () p'"
    and E: "\<And>p'. broken p0 0 p' \<Longrightarrow> E p'"
  shows "wp yaml_parser_save_simple_key Q E p"
proof -
  have "stage p0 u b False cs p" using s by (auto simp: stage_def key_ok_def)
  then have no: "Q () p" using Q by blast
  have "wp (seqM yaml_parser_remove_simple_key (set_top_simple_key k)) Q E p"
    if k: "k = \<lparr>sk_possible = True, sk_required = r, sk_token_number = p_tokens_parsed p + length (items (p_tokens p)), sk_mark = p_mark p\<rparr>" for r k
    unfolding wp_seqM
  proof (rule wp_remove_simple_key [OF s])
    fix p'
    assume p': "stage p0 u b s cs p'" "p' = with_last_key ((last (simple_keys p))\<lparr>sk_possible := False\<rparr>) p"
    have "stage p0 u b False cs (with_last_key k p')"
      by (rule stage_last_key [OF p'(1)]) (simp_all add: key_ok_def k p'(2))
    with stage_keys_ne [OF p'(1)] show "wp (set_top_simple_key k) Q E p'"
      by (auto simp: set_top_simple_key_def set_simple_keys_def wp_simps p'(2) intro!: Q)
  qed (rule E)
  with no show ?thesis unfolding yaml_parser_save_simple_key_def wp_readM Let_def by (simp add: wp_returnM)
qed

lemma wp_increase_flow_level:
  assumes s: "stage p0 u b s cs p"
    and Q: "\<And>p'. stage p0 u b s cs p' \<Longrightarrow> p_mark p' = p_mark p \<Longrightarrow> Q () p'"
    and E: "\<And>p'. broken p0 0 p' \<Longrightarrow> E p'"
  shows "wp yaml_parser_increase_flow_level Q E p"
  unfolding yaml_parser_increase_flow_level_def push_simple_key_def wp_seqM
proof (rule wp_push_stack)
  show "stack_ok (p_simple_keys p)" using s by (simp add: stage_def containers_ok_def)
  fix st and h :: heap
  assume st: "stack_ok st" "elems st = simple_keys p @ [no_simple_key]" "live h = live (p_mem p)"
  have "broken p0 0 (p\<lparr>p_mem := h, p_simple_keys := st, p_error := YAML_MEMORY_ERROR\<rparr>)"
    using s st by (auto simp: stage_def broken_def fetch_defs)
  moreover have "stage p0 u b s cs (p\<lparr>p_mem := h, p_simple_keys := st, p_flow_level := p_flow_level p + 1\<rparr>)"
    using s st unfolding stage_def by (elim conjE) (auto simp: fetch_defs no_simple_key_def)
  ultimately show "wp (readM (\<lambda>p. if p_flow_level p = int INT_MAX then errorM (\<lambda>p. p\<lparr>p_error := YAML_MEMORY_ERROR\<rparr>)
        else modifyM (\<lambda>p. p\<lparr>p_flow_level := p_flow_level p + 1\<rparr>))) Q E (p\<lparr>p_mem := h, p_simple_keys := st\<rparr>)"
    by (auto simp: wp_simps intro!: Q E)
next
  fix h :: heap
  assume "live h = live (p_mem p)"
  from stage_broken [OF s this] show "E (p\<lparr>p_mem := h, p_error := YAML_MEMORY_ERROR, p_simple_keys := p_simple_keys p\<rparr>)"
    by (intro E) simp
qed

lemma wp_decrease_flow_level:
  assumes s: "stage p0 u b s cs p" and Q: "\<And>p'. stage p0 u b s cs p' \<Longrightarrow> p_mark p' = p_mark p \<Longrightarrow> Q () p'"
  shows "wp yaml_parser_decrease_flow_level Q E p"
proof (cases "p_flow_level p = 0")
  case True
  with Q [OF s] show ?thesis by (simp add: yaml_parser_decrease_flow_level_def wp_simps)
next
  case False
  let ?p' = "p\<lparr>p_flow_level := p_flow_level p - 1, p_simple_keys := (p_simple_keys p)\<lparr>elems := butlast (simple_keys p)\<rparr>\<rparr>"
  have ne: "simple_keys p \<noteq> []" by (rule stage_keys_ne [OF s])
  have "p_flow_level p + 1 = int (length (simple_keys p))" using s by (simp add: stage_def shape_def)
  with False ne have "butlast (simple_keys p) \<noteq> []" "int (length (simple_keys p) - Suc 0) = p_flow_level p"
    by (cases "simple_keys p" rule: rev_cases; auto)+
  then have "stage p0 u b s cs ?p'"
    using s ne unfolding stage_def by (elim conjE) (auto simp: fetch_defs stack_ok_def dest: in_set_butlastD)
  with Q False ne show ?thesis unfolding yaml_parser_decrease_flow_level_def wp_readM wp_seqM wp_modifyM wp_bindM if_P [OF False]
    by (intro wp_pop_stack) (simp_all add: wp_returnM)
qed

subsection \<open>Indentation\<close>

text \<open>Every \<open>BLOCK-END\<close> takes the place of an indentation level.\<close>

abbreviation pop_level :: "('h, 'z) yaml_scanner_scheme \<Rightarrow> ('h, 'z) yaml_scanner_scheme" where
  "pop_level p \<equiv> p\<lparr>p_indents := (p_indents p)\<lparr>elems := butlast (elems (p_indents p))\<rparr>, p_indent := last (elems (p_indents p))\<rparr>"

lemma stage_pop_level:
  assumes s: "stage p0 (u + 1) b s cs p" and ne: "elems (p_indents p) \<noteq> []"
  shows "stage p0 u b s cs (pop_level p)"
proof -
  have "hd (elems (p_indents p) @ [p_indent p]) = hd (butlast (elems (p_indents p)) @ [last (elems (p_indents p))])"
    using ne by simp
  moreover have "length (butlast (elems (p_indents p))) + 1 = length (elems (p_indents p))" using ne by simp
  ultimately show ?thesis using s unfolding stage_def by (elim conjE) (simp add: fetch_defs stack_ok_def)
qed

lemma wp_unroll_indent:
  fixes p :: "('h, 'z) yaml_scanner_scheme"
  assumes s: "stage p0 u b s cs p" and col: "-1 \<le> col"
    and Q: "\<And>p'. stage p0 u b s cs p' \<Longrightarrow> p_mark p' = p_mark p \<Longrightarrow> p_simple_keys p' = p_simple_keys p \<Longrightarrow> p_flow_level p' = p_flow_level p \<Longrightarrow> Q () p'"
    and E: "\<And>p'. broken p0 0 p' \<Longrightarrow> E p'"
  shows "wp (yaml_parser_unroll_indent col) Q E p"
proof -
  let ?I = "\<lambda>q. stage p0 u b s cs q \<and> p_mark q = p_mark p \<and> p_simple_keys q = p_simple_keys p \<and> p_flow_level q = p_flow_level p"
  let ?body = "readM (\<lambda>p. if p_indent p > col then
         seqM (enqueue_token (TOKEN_INIT BlockEndToken (p_mark p) (p_mark p)))
           (bindM (zoomM p_indents (\<lambda>st p. p\<lparr>p_indents := st\<rparr>) POP) (\<lambda>i.
             seqM (modifyM (\<lambda>p. p\<lparr>p_indent := i\<rparr>)) (againM ())))
       else breakM ()) :: ('h, 'z, unit + unit) scanM"
  have "wp (loopM (\<lambda>_. ?body) ()) Q E p"
  proof (rule wp_loopM [where I = "\<lambda>_. ?I" and \<mu> = "\<lambda>_ q. length (elems (p_indents q))"])
    show "?I p" using s by simp
    fix q :: "('h, 'z) yaml_scanner_scheme"
    assume I: "?I q"
    show "wp ?body (\<lambda>r q'. case r of Inl l' \<Rightarrow> ?I q' \<and> length (elems (p_indents q')) < length (elems (p_indents q)) | Inr a \<Rightarrow> Q a q') E q"
    proof (cases "p_indent q > col")
      case False
      with I show ?thesis by (auto simp: wp_simps intro: Q)
    next
      case True
      have st: "stage p0 u b s cs q" using I by simp
      have "hd (elems (p_indents q) @ [p_indent q]) = -1" using st by (simp add: stage_def shape_def)
      with True col have ne: "elems (p_indents q) \<noteq> []" by (cases "elems (p_indents q)") auto
      show ?thesis unfolding wp_readM if_P [OF True] wp_seqM
      proof (rule wp_enqueue [OF st _ _ _ E])
        fix q' :: "('h, 'z) yaml_scanner_scheme"
        assume q': "stage p0 (u + 1) b s cs q'" "layout q' = layout q"
        then have ne': "elems (p_indents q') \<noteq> []" using ne by (simp add: layout_def)
        show "wp (bindM (zoomM p_indents (\<lambda>st p. p\<lparr>p_indents := st\<rparr>) POP) (\<lambda>i.
             seqM (modifyM (\<lambda>p. p\<lparr>p_indent := i\<rparr>)) (againM ())))
            (\<lambda>r q'. case r of Inl l' \<Rightarrow> ?I q' \<and> length (elems (p_indents q')) < length (elems (p_indents q)) | Inr a \<Rightarrow> Q a q') E q'"
          unfolding wp_bindM
        proof (rule wp_pop_stack, fact ne')
          have "?I (pop_level q') \<and> length (elems (p_indents (pop_level q'))) < length (elems (p_indents q))"
            using stage_pop_level [OF q'(1) ne'] q'(2) I ne by (simp add: layout_def)
          then show "wp (seqM (modifyM (\<lambda>p. p\<lparr>p_indent := last (elems (p_indents q'))\<rparr>)) (againM ()))
            (\<lambda>r q'. case r of Inl l' \<Rightarrow> ?I q' \<and> length (elems (p_indents q')) < length (elems (p_indents q)) | Inr a \<Rightarrow> Q a q') E
            (q'\<lparr>p_indents := (p_indents q')\<lparr>elems := butlast (elems (p_indents q'))\<rparr>\<rparr>)"
            by (simp add: wp_seqM wp_modifyM wp_returnM)
        qed
      qed (simp_all add: data_blocks_def token_blocks_def TOKEN_INIT_def)
    qed
  qed
  with Q [OF s] show ?thesis by (simp add: yaml_parser_unroll_indent_def wp_readM wp_returnM)
qed

lemma wp_insert_token:
  assumes s: "stage p0 u b s cs p" and d: "data_blocks d = 0" "token_data_type d \<noteq> YAML_STREAM_END_TOKEN"
    and i: "i \<le> length (items (p_tokens p))"
    and Q: "\<And>p'. stage p0 (u + 1) b s cs p' \<Longrightarrow> layout p' = layout p \<Longrightarrow> length (items (p_tokens p')) = length (items (p_tokens p)) + 1 \<Longrightarrow> Q () p'"
    and E: "\<And>p'. broken p0 0 p' \<Longrightarrow> E p'"
  shows "wp (on_tokens (QUEUE_INSERT i (TOKEN_INIT d m m'))) Q E p"
  unfolding wp_on_tokens
proof (rule wp_QUEUE_INSERT [OF _ i])
  fix q and h :: heap
  assume q: "queue_ok q" "items q = take i (items (p_tokens p)) @ TOKEN_INIT d m m' # drop i (items (p_tokens p))" "live h = live (p_mem p)"
  have n: "length (items q) = length (items (p_tokens p)) + 1" using q(2) i by simp
  have "sum_list (map token_blocks (take i (items (p_tokens p)))) + sum_list (map token_blocks (drop i (items (p_tokens p)))) = sblocks p"
    unfolding sblocks_def by (metis append_take_drop_id map_append sum_list_append)
  with d(1) have b: "sum_list (map token_blocks (items q)) = sblocks p" unfolding q(2) by simp
  have "set (take i (items (p_tokens p))) \<union> set (drop i (items (p_tokens p))) = set (items (p_tokens p))"
    by (metis append_take_drop_id set_append)
  then have "set (items q) = insert (TOKEN_INIT d m m') (set (items (p_tokens p)))" unfolding q(2) by auto
  with s d q(1,3) n b have "stage p0 (u + 1) b s cs (p\<lparr>p_mem := h, p_tokens := q\<rparr>)"
    unfolding stage_def by (elim conjE) (auto simp: fetch_defs)
  from Q [OF this] n show "case (q, h) of (q, h) \<Rightarrow> Q () (p\<lparr>p_mem := h, p_tokens := q\<rparr>)" by (simp add: layout_def)
next
  fix h :: heap
  assume "live h = live (p_mem p)"
  with s have "broken p0 0 (p\<lparr>p_mem := h, p_tokens := p_tokens p, p_error := YAML_MEMORY_ERROR\<rparr>)"
    by (auto simp: stage_def broken_def fetch_defs)
  with E show "case (p_tokens p, h) of (q, h) \<Rightarrow> E (p\<lparr>p_mem := h, p_tokens := q, p_error := YAML_MEMORY_ERROR\<rparr>)" by simp
qed (use s in \<open>simp add: stage_def containers_ok_def\<close>)

lemma wp_roll_indent:
  assumes s: "stage p0 u b s cs p" and d: "data_blocks d = 0" "token_data_type d \<noteq> YAML_STREAM_END_TOKEN"
    and n: "\<And>n. number = Some n \<Longrightarrow> p_tokens_parsed p \<le> n \<and> n \<le> p_tokens_parsed p + length (items (p_tokens p))"
    and Q: "\<And>p'. stage p0 (u + 2) b s cs p' \<Longrightarrow> p_mark p' = p_mark p \<Longrightarrow> p_simple_keys p' = p_simple_keys p \<Longrightarrow> p_flow_level p' = p_flow_level p \<Longrightarrow> Q () p'"
    and E: "\<And>p'. broken p0 0 p' \<Longrightarrow> E p'"
  shows "wp (yaml_parser_roll_indent col number d m) Q E p"
proof (cases "p_flow_level p \<noteq> 0 \<or> p_indent p \<ge> col")
  case True
  with Q [OF stage_weaken [OF s]] show ?thesis by (auto simp: yaml_parser_roll_indent_def wp_simps)
next
  case False
  then have f: "\<not> p_flow_level p \<noteq> 0" "p_indent p < col" by simp_all
  show ?thesis unfolding yaml_parser_roll_indent_def wp_readM if_not_P [OF f(1)] if_P [OF f(2)] push_indent_def wp_seqM
  proof (rule wp_push_stack)
    show "stack_ok (p_indents p)" using s by (simp add: stage_def containers_ok_def)
    fix st and h :: heap
    assume st: "stack_ok st" "elems st = elems (p_indents p) @ [p_indent p]" "live h = live (p_mem p)"
    let ?p = "p\<lparr>p_mem := h, p_indents := st, p_indent := col\<rparr>"
    have "hd (elems (p_indents p) @ [p_indent p, col]) = hd (elems (p_indents p) @ [p_indent p])"
      by (cases "elems (p_indents p)") simp_all
    with s st have st': "stage p0 (u + 1) b s cs ?p" unfolding stage_def by (elim conjE) (auto simp: fetch_defs)
    have "broken p0 0 (p\<lparr>p_mem := h, p_indents := st, p_error := YAML_MEMORY_ERROR\<rparr>)"
      using s st by (auto simp: stage_def broken_def fetch_defs)
    then have e: "E (p\<lparr>p_mem := h, p_indents := st, p_error := YAML_MEMORY_ERROR\<rparr>)" by (rule E)
    have "wp (case number of None \<Rightarrow> enqueue_token (TOKEN_INIT d m m)
        | Some n \<Rightarrow> seqM (assertM (\<lambda>p. p_tokens_parsed p \<le> n)) (on_tokens (QUEUE_INSERT (n - p_tokens_parsed p) (TOKEN_INIT d m m)))) Q E ?p"
    proof (cases number)
      case None
      then show ?thesis by (simp, intro wp_enqueue [OF st' d _ E] Q) (simp_all add: layout_def)
    next
      case (Some n)
      from assms(4) [OF this] have "n - p_tokens_parsed ?p \<le> length (items (p_tokens ?p))" by (simp add: le_diff_conv)
      from assms(4) [OF Some] Some show ?thesis
        by (simp add: wp_seqM wp_assertM, intro wp_insert_token [OF st' d _ _ E] Q) (simp_all add: layout_def le_diff_conv add.commute)
    qed
    with e show "wp (if col > int INT_MAX then errorM (\<lambda>p. p\<lparr>p_error := YAML_MEMORY_ERROR\<rparr>)
        else seqM (modifyM (\<lambda>p. p\<lparr>p_indent := col\<rparr>))
          (case number of None \<Rightarrow> enqueue_token (TOKEN_INIT d m m)
           | Some n \<Rightarrow> seqM (assertM (\<lambda>p. p_tokens_parsed p \<le> n)) (on_tokens (QUEUE_INSERT (n - p_tokens_parsed p) (TOKEN_INIT d m m)))))
        Q E (p\<lparr>p_mem := h, p_indents := st\<rparr>)" by (simp add: wp_errorM wp_seqM wp_modifyM)
  next
    fix h :: heap
    assume "live h = live (p_mem p)"
    from stage_broken [OF s this] show "E (p\<lparr>p_mem := h, p_error := YAML_MEMORY_ERROR, p_indents := p_indents p\<rparr>)"
      by (intro E) simp
  qed
qed

text \<open>Not in the flow context, and only where a simple key may start.\<close>

lemma wp_open_block:
  assumes s: "stage p0 u b s cs p" and d: "data_blocks d = 0" "token_data_type d \<noteq> YAML_STREAM_END_TOKEN"
    and Q: "\<And>p'. stage p0 (u + 2) b s cs p' \<Longrightarrow> p_mark p' = p_mark p \<Longrightarrow> Q () p'"
    and E: "\<And>p'. broken p0 0 p' \<Longrightarrow> E p'"
  shows "wp (open_block problem d) Q E p"
  unfolding open_block_def wp_readM
proof (intro wp_choiceI wp_stage_error [OF s E])
  show "wp (returnM ()) Q E p" using Q [OF stage_weaken [OF s]] by (simp add: wp_returnM)
  show "wp (yaml_parser_roll_indent (int (mark_column (p_mark p))) None d (p_mark p)) Q E p"
    by (rule wp_roll_indent [OF s d]) (simp_all add: Q E)
qed

lemma wp_insert_key:
  fixes p :: "('h, 'z) yaml_scanner_scheme"
  assumes s: "stage p0 u b s cs p" and k: "k = last (simple_keys p)" "sk_possible k"
    and Q: "\<And>p'. stage p0 (u + 3) b s cs p' \<Longrightarrow> Q () p'"
    and E: "\<And>p'. broken p0 0 p' \<Longrightarrow> E p'"
  shows "wp (insert_key k) Q E p"
proof -
  from stage_keys_ne [OF s] k(1) have "k \<in> set (simple_keys p)" by simp
  with s have "key_ok s p k" by (simp add: stage_def)
  with k(2) have n: "p_tokens_parsed p \<le> sk_token_number k" "sk_token_number k - p_tokens_parsed p \<le> length (items (p_tokens p))"
    by (auto simp: key_ok_def)
  have "p_tokens_parsed q = p_tokens_parsed p" if "stage p0 u' b s cs q" for q :: "('h, 'z) yaml_scanner_scheme" and u' using that s by (simp add: stage_def base_of_def)
  note parsed = this
  show ?thesis unfolding insert_key_def wp_seqM wp_assertM wp_readM
  proof (intro conjI n wp_insert_token [OF s _ _ n(2) _ E])
    fix q :: "('h, 'z) yaml_scanner_scheme"
    assume q: "stage p0 (u + 1) b s cs q" "length (items (p_tokens q)) = length (items (p_tokens p)) + 1"
    show "wp (yaml_parser_roll_indent (int (mark_column (sk_mark k))) (Some (sk_token_number k)) BlockMappingStartToken (sk_mark k))
      (\<lambda>_. wp (set_top_simple_key (k\<lparr>sk_possible := False\<rparr>)) (\<lambda>_. wp (set_simple_key_allowed False) Q E) E) E q"
    proof (rule wp_roll_indent [OF q(1) _ _ _ _ E])
      fix r :: "('h, 'z) yaml_scanner_scheme"
      assume "stage p0 (u + 1 + 2) b s cs r"
      then have r: "stage p0 (u + 3) b s cs r" by (simp add: numeral_3_eq_3)
      from stage_key_allowed [OF stage_last_key [OF r, of s "k\<lparr>sk_possible := False\<rparr>"]] stage_keys_ne [OF r]
      show "wp (set_top_simple_key (k\<lparr>sk_possible := False\<rparr>)) (\<lambda>_. wp (set_simple_key_allowed False) Q E) E r"
        by (auto simp: set_top_simple_key_def set_simple_keys_def wp_simps key_ok_def intro!: Q)
    qed (use n q(2) parsed [OF q(1)] in \<open>auto simp: data_blocks_def token_blocks_def TOKEN_INIT_def\<close>)
  qed (simp_all add: data_blocks_def token_blocks_def TOKEN_INIT_def)
qed

subsection \<open>The fetchers\<close>

text \<open>A fetcher consumes a character at least, and adds four tokens and indentation levels at most.\<close>

definition fetched :: "('h, 'z) yaml_scanner_scheme \<Rightarrow> nat \<Rightarrow> nat \<Rightarrow> ('h, 'z) yaml_scanner_scheme \<Rightarrow> bool" where
  "fetched p0 u b p \<longleftrightarrow> 0 < b \<and> (\<exists>cs. stage p0 (u + 4) (b - 1) True cs p)"

lemma fetchedI: "stage p0 u' (b - 1) True cs p \<Longrightarrow> u' \<le> u + 4 \<Longrightarrow> 0 < b \<Longrightarrow> fetched p0 u b p"
  unfolding fetched_def by (blast intro: stage_weaken)

lemma wp_allowed:
  assumes "stage p0 u b s cs p" and "\<And>p'. stage p0 u b s cs p' \<Longrightarrow> layout p' = layout p \<Longrightarrow> Q () p'"
  shows "wp (set_simple_key_allowed a) Q E p"
  unfolding wp_modifyM by (rule assms(2) [OF stage_key_allowed [OF assms(1)]]) (simp add: layout_def)

lemma wp_allowed_if:
  assumes "stage p0 u b s cs p" and "\<And>p'. stage p0 u b s cs p' \<Longrightarrow> Q () p'"
  shows "wp (modifyM (\<lambda>p. p\<lparr>p_simple_key_allowed := f p\<rparr>)) Q E p"
  unfolding wp_modifyM by (rule assms(2) [OF stage_key_allowed [OF assms(1)]])

lemma wp_indicator_token:
  fixes p :: "('h, 'z) yaml_scanner_scheme"
  assumes s: "stage p0 u b s cs p" and n: "indicators n (enc cs)" "0 < n"
    and d: "data_blocks d = 0" "token_data_type d \<noteq> YAML_STREAM_END_TOKEN"
    and Q: "\<And>p'. fetched p0 u' b p' \<Longrightarrow> Q () p'" and E: "\<And>p'. broken p0 0 p' \<Longrightarrow> E p'" and u: "u \<le> u' + 3"
  shows "wp (indicator_token n d) Q E p"
  unfolding indicator_token_def wp_readM wp_seqM
proof (rule wp_skip_n [OF stage_view [OF s] n(1) [unfolded indicators_def]])
  fix p' :: "('h, 'z) yaml_scanner_scheme"
  assume v: "view p 0 (chars_bound pending p - n) (drop n cs) p'" and le: "n \<le> chars_bound pending p"
  show "wp (enqueue_token (TOKEN_INIT d (p_mark p) (p_mark p'))) Q E p'"
  proof (rule wp_enqueue_scanned [OF s _ _ d(2)])
    fix p'' :: "('h, 'z) yaml_scanner_scheme"
    show "Q () p''" if "stage p0 (u + 1) (b - 1) True (drop n cs) p''" "0 < b"
      by (rule Q, rule fetchedI [OF that(1) _ that(2)]) (use u in simp)
    show "E p''" if "broken p0 (data_blocks d) p''" using that d(1) by (auto intro: E)
    show "chars_bound pending p - n < chars_bound pending p" using le n(2) by linarith
  qed (use v d(1) in simp_all)
qed

lemma wp_fetch_document_indicator:
  assumes s: "stage p0 u b s cs p" and n: "indicators 3 (enc cs)" and d: "data_blocks d = 0" "token_data_type d \<noteq> YAML_STREAM_END_TOKEN"
    and Q: "\<And>p'. fetched p0 u b p' \<Longrightarrow> Q () p'" and E: "\<And>p'. broken p0 0 p' \<Longrightarrow> E p'"
  shows "wp (yaml_parser_fetch_document_indicator d) Q E p"
  unfolding yaml_parser_fetch_document_indicator_def wp_seqM
  by (rule wp_unroll_indent [OF s], simp, rule wp_remove_simple_key , assumption,
      rule wp_allowed, assumption, rule wp_indicator_token [OF _ n _ d]) (erule Q E | assumption | simp)+

lemma wp_fetch_flow_collection_start:
  assumes s: "stage p0 u b s cs p" and n: "indicators 1 (enc cs)" and d: "data_blocks d = 0" "token_data_type d \<noteq> YAML_STREAM_END_TOKEN"
    and Q: "\<And>p'. fetched p0 u b p' \<Longrightarrow> Q () p'" and E: "\<And>p'. broken p0 0 p' \<Longrightarrow> E p'"
  shows "wp (yaml_parser_fetch_flow_collection_start d) Q E p"
  unfolding yaml_parser_fetch_flow_collection_start_def wp_seqM
  by (rule wp_save_simple_key [OF s], rule wp_increase_flow_level , assumption,
      rule wp_allowed, assumption, rule wp_indicator_token [OF _ n _ d]) (erule Q E | assumption | simp)+

lemma wp_fetch_flow_collection_end:
  assumes s: "stage p0 u b s cs p" and n: "indicators 1 (enc cs)" and d: "data_blocks d = 0" "token_data_type d \<noteq> YAML_STREAM_END_TOKEN"
    and Q: "\<And>p'. fetched p0 u b p' \<Longrightarrow> Q () p'" and E: "\<And>p'. broken p0 0 p' \<Longrightarrow> E p'"
  shows "wp (yaml_parser_fetch_flow_collection_end d) Q E p"
  unfolding yaml_parser_fetch_flow_collection_end_def wp_seqM
  by (rule wp_remove_simple_key [OF s], rule wp_decrease_flow_level, assumption,
      rule wp_allowed, assumption, rule wp_indicator_token [OF _ n _ d]) (erule Q E | assumption | simp)+

lemma wp_fetch_flow_entry:
  assumes s: "stage p0 u b s cs p" and n: "indicators 1 (enc cs)"
    and Q: "\<And>p'. fetched p0 u b p' \<Longrightarrow> Q () p'" and E: "\<And>p'. broken p0 0 p' \<Longrightarrow> E p'"
  shows "wp yaml_parser_fetch_flow_entry Q E p"
  unfolding yaml_parser_fetch_flow_entry_def wp_seqM
  by (rule wp_remove_simple_key [OF s], rule wp_allowed, assumption, rule wp_indicator_token [OF _ n]) (erule Q E | assumption | simp)+

lemma wp_fetch_block_entry:
  assumes s: "stage p0 u b s cs p" and n: "indicators 1 (enc cs)"
    and Q: "\<And>p'. fetched p0 u b p' \<Longrightarrow> Q () p'" and E: "\<And>p'. broken p0 0 p' \<Longrightarrow> E p'"
  shows "wp yaml_parser_fetch_block_entry Q E p"
  unfolding yaml_parser_fetch_block_entry_def wp_seqM
  by (rule wp_open_block [OF s], simp, simp, rule wp_remove_simple_key , assumption,
      rule wp_allowed, assumption, rule wp_indicator_token [OF _ n]) (erule Q E | assumption | simp)+

lemma wp_fetch_key:
  assumes s: "stage p0 u b s cs p" and n: "indicators 1 (enc cs)"
    and Q: "\<And>p'. fetched p0 u b p' \<Longrightarrow> Q () p'" and E: "\<And>p'. broken p0 0 p' \<Longrightarrow> E p'"
  shows "wp yaml_parser_fetch_key Q E p"
  unfolding yaml_parser_fetch_key_def wp_seqM
  by (rule wp_open_block [OF s], simp, simp, rule wp_remove_simple_key , assumption,
      rule wp_allowed_if, assumption, rule wp_indicator_token [OF _ n]) (erule Q E | assumption | simp)+

lemma wp_fetch_value:
  fixes p :: "('h, 'z) yaml_scanner_scheme"
  assumes s: "stage p0 u b s cs p" and n: "indicators 1 (enc cs)"
    and Q: "\<And>p'. fetched p0 u b p' \<Longrightarrow> Q () p'" and E: "\<And>p'. broken p0 0 p' \<Longrightarrow> E p'"
  shows "wp yaml_parser_fetch_value Q E p"
proof -
  have "wp (indicator_token 1 ValueToken) Q E q" if "stage p0 u' b s cs q" "u' \<le> u + 3" for q :: "('h, 'z) yaml_scanner_scheme" and u'
    by (rule wp_indicator_token [OF that(1) n]) (erule Q E | rule that(2) | simp)+
  note then_value = this
  show ?thesis unfolding yaml_parser_fetch_value_def wp_seqM wp_bindM top_simple_key_def wp_readM if_not_P [OF stage_keys_ne [OF s]] wp_returnM
  proof (rule wp_choiceI)
    assume "sk_possible (last (simple_keys p))"
    then show "wp (insert_key (last (simple_keys p))) (\<lambda>_. wp (indicator_token 1 ValueToken) Q E) E p"
      by (intro wp_insert_key [OF s _ _ then_value]) (assumption | simp add: E)+
  next
    show "wp (seqM (open_block ''mapping values are not allowed in this context'' BlockMappingStartToken)
         (modifyM (\<lambda>p. p\<lparr>p_simple_key_allowed := (p_flow_level p = 0)\<rparr>))) (\<lambda>_. wp (indicator_token 1 ValueToken) Q E) E p"
      unfolding wp_seqM
      by (rule wp_open_block [OF s], simp, simp, rule wp_allowed_if, assumption, rule then_value) (assumption | erule E | simp)+
  qed
qed

text \<open>A token that is scanned in the state reached.\<close>

lemma wp_fetch_scanned:
  fixes p :: "('h, 'z) yaml_scanner_scheme"
  assumes s: "stage p0 u b s cs p"
    and scan: "\<And>Q E. (\<And>d x y b' cs' p'. view p (0 + data_blocks d) b' cs' p' \<Longrightarrow> b' < chars_bound pending p \<Longrightarrow> value_token d \<Longrightarrow> Q (TOKEN_INIT d x y) p')
       \<Longrightarrow> (\<And>p'. lost p 0 p' \<Longrightarrow> E p') \<Longrightarrow> wp m Q E p"
    and Q: "\<And>p'. fetched p0 u b p' \<Longrightarrow> Q () p'" and E: "\<And>p'. broken p0 0 p' \<Longrightarrow> E p'"
  shows "wp (bindM m enqueue_or_delete) Q E p"
  unfolding wp_bindM
proof (rule scan)
  fix d x y b' cs' and p' :: "('h, 'z) yaml_scanner_scheme"
  assume v: "view p (0 + data_blocks d) b' cs' p'" "b' < chars_bound pending p" "value_token d"
  show "wp (enqueue_or_delete (TOKEN_INIT d x y)) Q E p'"
  proof (rule wp_enqueue_or_delete [OF s _ v(2,3) _ E])
    show "view p (data_blocks d) b' cs' p'" using v(1) by simp
    show "Q () p''" if "stage p0 (u + 1) (b - 1) True cs' p''" "0 < b" for p'' :: "('h, 'z) yaml_scanner_scheme"
      by (rule Q, rule fetchedI [OF that(1) _ that(2)]) simp
  qed
qed (rule E, rule stage_lost [OF s])

lemma wp_fetch_directive:
  assumes s: "stage p0 u b s cs p" and nz: "octet (enc cs) 0 \<noteq> 0"
    and Q: "\<And>p'. fetched p0 u b p' \<Longrightarrow> Q () p'" and E: "\<And>p'. broken p0 0 p' \<Longrightarrow> E p'"
  shows "wp yaml_parser_fetch_directive Q E p"
  unfolding yaml_parser_fetch_directive_def wp_seqM
  by (rule wp_unroll_indent [OF s], simp, rule wp_remove_simple_key, assumption, rule wp_allowed, assumption,
      rule wp_fetch_scanned, assumption, rule wp_scan_directive [OF stage_view nz]) (assumption | erule Q E | blast)+

lemma wp_fetch_anchor:
  assumes s: "stage p0 u b s cs p" and nz: "octet (enc cs) 0 \<noteq> 0"
    and Q: "\<And>p'. fetched p0 u b p' \<Longrightarrow> Q () p'" and E: "\<And>p'. broken p0 0 p' \<Longrightarrow> E p'"
  shows "wp (yaml_parser_fetch_anchor a) Q E p"
  unfolding yaml_parser_fetch_anchor_def wp_seqM
  by (rule wp_save_simple_key [OF s], rule wp_allowed, assumption,
      rule wp_fetch_scanned, assumption, rule wp_scan_anchor [OF stage_view nz]) (assumption | erule Q E | blast)+

lemma wp_fetch_tag:
  assumes s: "stage p0 u b s cs p" and c: "CHECK (enc cs) CHR ''!''"
    and Q: "\<And>p'. fetched p0 u b p' \<Longrightarrow> Q () p'" and E: "\<And>p'. broken p0 0 p' \<Longrightarrow> E p'"
  shows "wp yaml_parser_fetch_tag Q E p"
  unfolding yaml_parser_fetch_tag_def wp_seqM
  by (rule wp_save_simple_key [OF s], rule wp_allowed, assumption,
      rule wp_fetch_scanned, assumption, rule wp_scan_tag [OF stage_view c]) (assumption | erule Q E | blast)+

lemma wp_fetch_block_scalar:
  assumes s: "stage p0 u b s cs p" and nz: "octet (enc cs) 0 \<noteq> 0"
    and Q: "\<And>p'. fetched p0 u b p' \<Longrightarrow> Q () p'" and E: "\<And>p'. broken p0 0 p' \<Longrightarrow> E p'"
  shows "wp (yaml_parser_fetch_block_scalar li) Q E p"
  unfolding yaml_parser_fetch_block_scalar_def wp_seqM
  by (rule wp_remove_simple_key [OF s], rule wp_allowed, assumption,
      rule wp_fetch_scanned, assumption, rule wp_scan_block_scalar [OF stage_view nz]) (assumption | erule Q E | blast)+

lemma wp_fetch_flow_scalar:
  assumes s: "stage p0 u b s cs p" and nz: "octet (enc cs) 0 \<noteq> 0"
    and Q: "\<And>p'. fetched p0 u b p' \<Longrightarrow> Q () p'" and E: "\<And>p'. broken p0 0 p' \<Longrightarrow> E p'"
  shows "wp (yaml_parser_fetch_flow_scalar single) Q E p"
  unfolding yaml_parser_fetch_flow_scalar_def wp_seqM
  by (rule wp_save_simple_key [OF s], rule wp_allowed, assumption,
      rule wp_fetch_scanned, assumption, rule wp_scan_flow_scalar [OF stage_view nz]) (assumption | erule Q E | blast)+

text \<open>The dispatcher only gets to a plain scalar if its first character does not end it.\<close>

lemma wp_fetch_plain_scalar:
  assumes s: "stage p0 u b s cs p" and four: "avail 4 cs"
    and go: "\<not> line_stop (mark_column (p_mark p) = 0) (p_flow_level p \<noteq> 0) (enc cs)"
    and Q: "\<And>p'. fetched p0 u b p' \<Longrightarrow> Q () p'" and E: "\<And>p'. broken p0 0 p' \<Longrightarrow> E p'"
  shows "wp yaml_parser_fetch_plain_scalar Q E p"
  unfolding yaml_parser_fetch_plain_scalar_def wp_seqM
  by (rule wp_save_simple_key [OF s], rule wp_allowed, assumption,
      rule wp_fetch_scanned, assumption, rule wp_scan_plain_scalar [OF stage_view four])
    (assumption | erule Q E | (use go in \<open>simp add: layout_def\<close>)[1] | blast)+

subsection \<open>Stale keys\<close>

lemma wp_stale_simple_keys:
  assumes Q: "Q () (p\<lparr>p_simple_keys := (p_simple_keys p)\<lparr>elems := refreshed (p_mark p) (simple_keys p)\<rparr>\<rparr>)"
    and E: "\<And>ks x y z w. length ks = length (simple_keys p) \<Longrightarrow> E (p\<lparr>p_simple_keys := (p_simple_keys p)\<lparr>elems := ks\<rparr>,
       p_error := YAML_SCANNER_ERROR, p_context := x, p_context_mark := y, p_problem := z, p_problem_mark := w\<rparr>)"
  shows "wp yaml_parser_stale_simple_keys Q E p"
proof -
  let ?fatal = "\<lambda>k. stale (p_mark p) k \<and> sk_required k"
  let ?fine = "List.map (\<lambda>k. if stale (p_mark p) k then k\<lparr>sk_possible := False\<rparr> else k) (takeWhile (\<lambda>k. \<not> ?fatal k) (simple_keys p))"
  let ?rest = "dropWhile (\<lambda>k. \<not> ?fatal k) (simple_keys p)"
  have len: "length (?fine @ ?rest) = length (simple_keys p)"
    by (simp add: length_takeWhile_dropWhile)
  have "wp (seqM (set_simple_keys (?fine @ ?rest)) (case ?rest of [] \<Rightarrow> returnM () | k # _ \<Rightarrow> missing_value k)) Q E p"
  proof (cases ?rest)
    case Nil
    then have "takeWhile (\<lambda>k. \<not> ?fatal k) (simple_keys p) = simple_keys p"
      by (simp only: takeWhile_eq_all_conv dropWhile_eq_Nil_conv)
    with Q show ?thesis unfolding Nil wp_seqM set_simple_keys_def wp_modifyM refreshed_def by (simp only: append_Nil2 list.case wp_returnM)
  next
    case (Cons k ks)
    from E [OF len] show ?thesis unfolding Cons wp_seqM set_simple_keys_def wp_modifyM
      by (simp only: list.case missing_value_def yaml_parser_set_scanner_error_def wp_errorM)
  qed
  then show ?thesis unfolding yaml_parser_stale_simple_keys_def wp_readM Let_def .
qed

lemma wp_stage_stale:
  assumes s: "stage p0 u b s cs p"
    and Q: "\<And>p'. stage p0 u b s cs p' \<Longrightarrow> \<forall>k\<in>set (simple_keys p'). \<not> stale (p_mark p') k
      \<Longrightarrow> p_tokens p' = p_tokens p \<Longrightarrow> Q () p'"
    and E: "\<And>p'. broken p0 0 p' \<Longrightarrow> E p'"
  shows "wp yaml_parser_stale_simple_keys Q E p"
proof (rule wp_stale_simple_keys)
  have "\<forall>k\<in>set (simple_keys p). key_ok s p k" using s by (simp add: stage_def)
  from refreshed_ok [OF this, of "p_mark p"]
  have "stage p0 u b s cs (p\<lparr>p_simple_keys := (p_simple_keys p)\<lparr>elems := refreshed (p_mark p) (simple_keys p)\<rparr>\<rparr>)"
    by (intro stage_keys [OF s]) (assumption | simp add: refreshed_def; fail)+
  then show "Q () (p\<lparr>p_simple_keys := (p_simple_keys p)\<lparr>elems := refreshed (p_mark p) (simple_keys p)\<rparr>\<rparr>)"
    by (rule Q) (simp_all add: refreshed_stale)
  have "broken p0 0 (p\<lparr>p_simple_keys := (p_simple_keys p)\<lparr>elems := ks\<rparr>, p_error := YAML_SCANNER_ERROR, p_context := x,
      p_context_mark := y, p_problem := z, p_problem_mark := w\<rparr>)" if "length ks = length (simple_keys p)" for ks x y z w
    using s that by (simp add: stage_def broken_def fetch_defs stack_ok_def)
  then show "E (p\<lparr>p_simple_keys := (p_simple_keys p)\<lparr>elems := ks\<rparr>, p_error := YAML_SCANNER_ERROR, p_context := x,
      p_context_mark := y, p_problem := z, p_problem_mark := w\<rparr>)" if "length ks = length (simple_keys p)" for ks x y z w
    using that by (intro E)
qed

subsection \<open>The end of the stream\<close>

text \<open>
  \<open>closed p0 u p\<close>: the last token of the queue is \<open>STREAM-END\<close>, and no key can become one any more: every possible
  key is stale, though its place in the queue is still there.
\<close>

definition closed :: "('h, 'z) yaml_scanner_scheme \<Rightarrow> nat \<Rightarrow> ('h, 'z) yaml_scanner_scheme \<Rightarrow> bool" where
  "closed p0 u p \<longleftrightarrow> (\<exists>cs. text_ok p cs) \<and> p_stream_start_produced p \<and> base_of p = base_of p0 \<and> surplus p = surplus p0 \<and> containers_ok p
     \<and> shape p \<and> (\<forall>k\<in>set (simple_keys p). key_ok True p k) \<and> (\<forall>k\<in>set (simple_keys p). sk_possible k \<longrightarrow> stale (p_mark p) k)
     \<and> (\<exists>ts t. items (p_tokens p) = ts @ [t] \<and> t_type t = YAML_STREAM_END_TOKEN \<and> YAML_STREAM_END_TOKEN \<notin> t_type ` set ts)
     \<and> units p \<le> u"

lemma wp_enqueue_end:
  assumes s: "stage p0 u b True cs p" and k: "\<forall>k\<in>set (simple_keys p). sk_possible k \<longrightarrow> stale (p_mark p) k"
    and Q: "\<And>p'. closed p0 (u + 1) p' \<Longrightarrow> Q () p'" and E: "\<And>p'. broken p0 0 p' \<Longrightarrow> E p'"
  shows "wp (enqueue_token (TOKEN_INIT StreamEndToken m m')) Q E p"
  unfolding enqueue_token_def wp_on_tokens
proof (rule wp_ENQUEUE)
  fix q and h :: heap
  assume q: "queue_ok q" "items q = items (p_tokens p) @ [TOKEN_INIT StreamEndToken m m']" "live h = live (p_mem p)"
  have "\<exists>ts t. items q = ts @ [t] \<and> t_type t = YAML_STREAM_END_TOKEN \<and> YAML_STREAM_END_TOKEN \<notin> t_type ` set ts"
    using q(2) s by (intro exI [of _ "items (p_tokens p)"] exI [of _ "TOKEN_INIT StreamEndToken m m'"]) (simp add: stage_def no_end_def)
  moreover have "text_ok p cs" using s by (simp add: stage_def)
  ultimately have "closed p0 (u + 1) (p\<lparr>p_mem := h, p_tokens := q\<rparr>)"
    using s q k by (auto simp: stage_def closed_def fetch_defs)
  with Q show "case (q, h) of (q, h) \<Rightarrow> Q () (p\<lparr>p_mem := h, p_tokens := q\<rparr>)" by simp
next
  fix h :: heap
  assume "live h = live (p_mem p)"
  with s have "broken p0 0 (p\<lparr>p_mem := h, p_tokens := p_tokens p, p_error := YAML_MEMORY_ERROR\<rparr>)"
    by (auto simp: stage_def broken_def fetch_defs)
  with E show "case (p_tokens p, h) of (q, h) \<Rightarrow> E (p\<lparr>p_mem := h, p_tokens := q, p_error := YAML_MEMORY_ERROR\<rparr>)" by simp
qed (use s in \<open>simp add: stage_def containers_ok_def\<close>)

lemma stage_line_end:
  assumes s: "stage p0 u b True cs p" and "mark_before (p_mark p) m \<or> m = p_mark p"
  shows "stage p0 u b True cs (p\<lparr>p_mark := m\<rparr>)"
proof -
  have "key_ok True (p\<lparr>p_mark := m\<rparr>) k" if "key_ok True p k" for k
    using that assms(2) mark_before_trans [of "sk_mark k" "p_mark p" m] by (auto simp: key_ok_def)
  with s show ?thesis unfolding stage_def by (elim conjE) (simp add: fetch_defs)
qed

lemma wp_fetch_stream_end:
  fixes p :: "('h, 'z) yaml_scanner_scheme"
  assumes s: "stage p0 u b True cs p"
    and Q: "\<And>p'. closed p0 (u + 1) p' \<Longrightarrow> Q () p'" and E: "\<And>p'. broken p0 0 p' \<Longrightarrow> E p'"
  shows "wp yaml_parser_fetch_stream_end Q E p"
proof -
  define q where "q = (if mark_column (p_mark p) \<noteq> 0 then p\<lparr>p_mark := next_line 0 (p_mark p)\<rparr> else p)"
  have q: "stage p0 u b True cs q" unfolding q_def using stage_line_end [OF s, of "next_line 0 (p_mark p)"] s by simp
  have "mark_column (p_mark q) = 0" by (simp add: q_def next_line_def)
  moreover have "\<forall>k\<in>set (simple_keys q). key_ok True q k" using q by (simp add: stage_def)
  ultimately have st: "\<forall>k\<in>set (simple_keys q). sk_possible k \<longrightarrow> stale (p_mark q) k" by (auto simp: key_ok_def intro: stale_before)
  show ?thesis unfolding yaml_parser_fetch_stream_end_def wp_seqM wp_modifyM [of "\<lambda>p. if _ p then _ p else p"] q_def [symmetric]
  proof (rule wp_unroll_indent [OF q _ _ E], simp)
    fix r :: "('h, 'z) yaml_scanner_scheme"
    assume r: "stage p0 u b True cs r" "p_mark r = p_mark q" "p_simple_keys r = p_simple_keys q"
    show "wp yaml_parser_remove_simple_key (\<lambda>_. wp (set_simple_key_allowed False) (\<lambda>_. wp (readM (\<lambda>p. enqueue_token
        (TOKEN_INIT StreamEndToken (p_mark p) (p_mark p)))) Q E) E) E r"
    proof (rule wp_remove_simple_key [OF r(1) _ E])
      fix t :: "('h, 'z) yaml_scanner_scheme"
      assume t: "stage p0 u b True cs t" "t = with_last_key ((last (simple_keys r))\<lparr>sk_possible := False\<rparr>) r"
      have "\<forall>k\<in>set (simple_keys t). sk_possible k \<longrightarrow> stale (p_mark t) k"
        using st r(2,3) by (auto simp: t(2) dest: in_set_butlastD)
      then show "wp (set_simple_key_allowed False) (\<lambda>_. wp (readM (\<lambda>p. enqueue_token
        (TOKEN_INIT StreamEndToken (p_mark p) (p_mark p)))) Q E) E t"
        unfolding wp_modifyM wp_readM
        by (intro wp_enqueue_end [OF stage_key_allowed [OF t(1)]]) (erule Q E | simp)+
    qed
  qed
qed

subsection \<open>The next token\<close>

definition advanced :: "('h, 'z) yaml_scanner_scheme \<Rightarrow> nat \<Rightarrow> nat \<Rightarrow> ('h, 'z) yaml_scanner_scheme \<Rightarrow> bool" where
  "advanced p0 u b p \<longleftrightarrow> fetched p0 u b p \<or> closed p0 (u + 1) p"

lemma wp_dispatch:
  fixes p :: "('h, 'z) yaml_scanner_scheme"
  assumes s: "stage p0 u b True cs p" and four: "avail 4 cs"
    and Q: "\<And>p'. advanced p0 u b p' \<Longrightarrow> Q () p'" and E: "\<And>p'. broken p0 0 p' \<Longrightarrow> E p'"
  shows "wp (dispatch (enc cs) (mark_column (p_mark p) = 0) (p_flow_level p \<noteq> 0)) Q E p"
proof -
  have F: "Q () p'" if "fetched p0 u b p'" for p' :: "('h, 'z) yaml_scanner_scheme" by (rule Q) (simp add: advanced_def that)
  have C: "Q () p'" if "closed p0 (u + 1) p'" for p' :: "('h, 'z) yaml_scanner_scheme" by (rule Q) (use that in \<open>simp add: advanced_def\<close>)
  have ind: "indicators 1 (enc cs)" if "CHECK (enc cs) c" "c \<in> set ''[]{},-?:''" for c
    by (rule indicators_CHECK [OF that(1)]) (use that(2) in \<open>auto simp: ch_def\<close>)
  have nz: "octet (enc cs) 0 \<noteq> 0" if "\<not> IS_Z_AT (enc cs) 0" using that by (simp add: IS_Z_AT_def)
  have doc: "indicators 3 (enc cs)" if "document_indicator c (enc cs)" "c \<in> set ''-.''" for c
    by (rule indicators_document [OF that(1)]) (use that(2) in \<open>auto simp: ch_def\<close>)
  show ?thesis unfolding dispatch_def wp_readM
  proof (intro wp_choiceI, goal_cases)
    case 1 then show ?case by (intro wp_fetch_stream_end [OF s]) (erule C E)+
  next
    case 2 then show ?case by (intro wp_fetch_directive [OF s nz]) (assumption | erule F E)+
  next
    case 3 show ?case by (rule wp_fetch_document_indicator [OF s doc [OF 3(3) [THEN conjunct2]]]) (erule F E | simp)+
  next
    case 4 show ?case by (rule wp_fetch_document_indicator [OF s doc [OF 4(4) [THEN conjunct2]]]) (erule F E | simp)+
  next
    case 5 show ?case by (rule wp_fetch_flow_collection_start [OF s ind [OF 5(5)]]) (erule F E | simp)+
  next
    case 6 show ?case by (rule wp_fetch_flow_collection_start [OF s ind [OF 6(6)]]) (erule F E | simp)+
  next
    case 7 show ?case by (rule wp_fetch_flow_collection_end [OF s ind [OF 7(7)]]) (erule F E | simp)+
  next
    case 8 show ?case by (rule wp_fetch_flow_collection_end [OF s ind [OF 8(8)]]) (erule F E | simp)+
  next
    case 9 show ?case by (rule wp_fetch_flow_entry [OF s ind [OF 9(9)]]) (erule F E | simp)+
  next
    case 10 show ?case by (rule wp_fetch_block_entry [OF s ind [OF 10(10) [THEN conjunct1]]]) (erule F E | simp)+
  next
    case 11 show ?case by (rule wp_fetch_key [OF s ind [OF 11(11) [THEN conjunct1]]]) (erule F E | simp)+
  next
    case 12 show ?case by (rule wp_fetch_value [OF s ind [OF 12(12) [THEN conjunct1]]]) (erule F E | simp)+
  next
    case 13 then show ?case by (intro wp_fetch_anchor [OF s nz]) (assumption | erule F E)+
  next
    case 14 then show ?case by (intro wp_fetch_anchor [OF s nz]) (assumption | erule F E)+
  next
    case 15 then show ?case by (intro wp_fetch_tag [OF s]) (assumption | erule F E)+
  next
    case 16 then show ?case by (intro wp_fetch_block_scalar [OF s nz]) (assumption | erule F E)+
  next
    case 17 then show ?case by (intro wp_fetch_block_scalar [OF s nz]) (assumption | erule F E)+
  next
    case 18 then show ?case by (intro wp_fetch_flow_scalar [OF s nz]) (assumption | erule F E)+
  next
    case 19 then show ?case by (intro wp_fetch_flow_scalar [OF s nz]) (assumption | erule F E)+
  next
    case 20
    then have "\<not> line_stop (mark_column (p_mark p) = 0) (p_flow_level p \<noteq> 0) (enc cs)" by (intro plain_goes_on)
    then show ?case by (intro wp_fetch_plain_scalar [OF s four]) (assumption | erule F E)+
  next
    case 21 show ?case unfolding wp_readM by (rule wp_stage_error [OF s]) (erule E)
  qed
qed

lemma wp_stage_CACHE:
  assumes s: "stage p0 u b st cs p" and n: "n \<le> 4095"
    and Q: "\<And>cs' p'. stage p0 u b st cs' p' \<Longrightarrow> avail n cs' \<Longrightarrow> Q () p'"
    and E: "\<And>p'. broken p0 0 p' \<Longrightarrow> E p'"
  shows "wp (CACHE n) Q E p"
  by (rule wp_CACHE [OF stage_view [OF s] n]) (blast intro: Q E stage_seen [OF s] stage_lost [OF s])+

lemma wp_stage_to_next_token:
  assumes s: "stage p0 u b st cs p"
    and Q: "\<And>cs' p'. stage p0 u b st cs' p' \<Longrightarrow> Q () p'"
    and E: "\<And>p'. broken p0 0 p' \<Longrightarrow> E p'"
  shows "wp yaml_parser_scan_to_next_token Q E p"
  by (rule wp_scan_to_next_token [OF stage_view [OF s]]) (blast intro: Q E stage_seen [OF s] stage_lost [OF s])+

lemma wp_stage_lookingM:
  assumes s: "stage p0 u b st cs p" and "avail n cs" and "wp (f (enc cs)) Q E p"
  shows "wp (lookingM n f) Q E p"
  by (rule wp_lookingM [OF stage_view [OF s] assms(2)]) (rule assms(3))

lemma wp_next_token:
  fixes p :: "('h, 'z) yaml_scanner_scheme"
  assumes s: "stage p0 u b True cs p"
    and Q: "\<And>p'. advanced p0 u b p' \<Longrightarrow> Q () p'" and E: "\<And>p'. broken p0 0 p' \<Longrightarrow> E p'"
  shows "wp (seqM yaml_parser_scan_to_next_token
          (seqM yaml_parser_stale_simple_keys
          (seqM (readM (\<lambda>p. yaml_parser_unroll_indent (column_of p)))
          (seqM (CACHE 4)
            (lookingM 4 (\<lambda>b. readM (\<lambda>p. dispatch b (mark_column (p_mark p) = 0) (p_flow_level p \<noteq> 0)))))))) Q E p"
  unfolding wp_seqM wp_readM
  by (rule wp_stage_to_next_token [OF s], rule wp_stage_stale, assumption, rule wp_unroll_indent, assumption, simp,
      rule wp_stage_CACHE, assumption, simp, rule wp_stage_lookingM, assumption, assumption, unfold wp_readM, rule wp_dispatch)
    (assumption | erule Q E)+

text \<open>Before the first token.\<close>

definition fresh :: "('h, 'z) yaml_scanner_scheme \<Rightarrow> 32 word list \<Rightarrow> ('h, 'z) yaml_scanner_scheme \<Rightarrow> bool" where
  "fresh p0 cs p \<longleftrightarrow> text_ok p cs \<and> \<not> p_stream_start_produced p \<and> base_of p = base_of p0 \<and> surplus p = surplus p0 \<and> containers_ok p
     \<and> items (p_tokens p) = [] \<and> simple_keys p = [] \<and> elems (p_indents p) = [] \<and> p_flow_level p = 0"

lemma text_ok_started [simp]:
  "text_ok (p\<lparr>p_simple_key_allowed := a, p_stream_start_produced := d\<rparr>) cs = text_ok p cs" by simp

lemma wp_fetch_stream_start:
  fixes p :: "('h, 'z) yaml_scanner_scheme"
  assumes s: "fresh p0 cs p"
    and Q: "\<And>p'. stage p0 1 (chars_bound pending p) True cs p' \<Longrightarrow> Q () p'" and E: "\<And>p'. broken p0 0 p' \<Longrightarrow> E p'"
  shows "wp yaml_parser_fetch_stream_start Q E p"
  unfolding yaml_parser_fetch_stream_start_def wp_seqM wp_modifyM push_simple_key_def
proof (rule wp_push_stack)
  fix st and h :: heap
  assume st: "stack_ok st" "elems st = simple_keys (p\<lparr>p_indent := -1\<rparr>) @ [no_simple_key]" "live h = live (p_mem (p\<lparr>p_indent := -1\<rparr>))"
  let ?p = "p\<lparr>p_indent := -1, p_mem := h, p_simple_keys := st, p_simple_key_allowed := True, p_stream_start_produced := True\<rparr>"
  have "stage p0 0 (chars_bound pending p) True cs ?p"
    using s st by (auto simp: stage_def fresh_def fetch_defs no_simple_key_def)
  then show "wp (readM (\<lambda>p. enqueue_token (TOKEN_INIT (StreamStartToken (p_encoding p)) (p_mark p) (p_mark p)))) Q E ?p"
    unfolding wp_readM by (rule wp_enqueue) (simp_all add: Q E)
next
  fix h :: heap
  assume "live h = live (p_mem (p\<lparr>p_indent := -1\<rparr>))"
  with s show "E (p\<lparr>p_indent := -1, p_mem := h, p_error := YAML_MEMORY_ERROR, p_simple_keys := p_simple_keys (p\<lparr>p_indent := -1\<rparr>)\<rparr>)"
    by (auto intro!: E simp: fresh_def broken_def fetch_defs)
qed (use s in \<open>simp add: fresh_def fetch_defs\<close>)

end

end
