(* ===== verification/Scanner_Contract.thy ===== *)
theory Scanner_Contract
  imports Scanner_Fetch Parser_Correct
begin

text \<open>
  The token loop of the scanner, and what it promises the parser (\<open>fetch_contract\<close>): on every input a call either
  puts a token into the queue whose place can no longer change, or ends with an error; it always returns; it keeps the
  scanner's invariant and every block of memory but those of the tokens.
\<close>

text \<open>The queue ends with \<open>STREAM-END\<close>, and no key can become one any more.\<close>

definition closing :: "('h, 'z) yaml_scanner_scheme \<Rightarrow> bool" where
  "closing p \<longleftrightarrow> (\<exists>ts t. items (p_tokens p) = ts @ [t] \<and> t_type t = YAML_STREAM_END_TOKEN \<and> YAML_STREAM_END_TOKEN \<notin> t_type ` set ts)
     \<and> (\<forall>k\<in>set (simple_keys p). sk_possible k \<longrightarrow> stale (p_mark p) k)"

context byte_source
begin

lemma stage_tight: "stage p0 u b st cs p \<Longrightarrow> stage p0 u (chars_bound pending p) st cs p"
  by (simp add: stage_def)

lemma wp_fetch_next_token:
  fixes p :: "('h, 'z) yaml_scanner_scheme"
  assumes s: "stage p0 u b True cs p"
    and Q: "\<And>p'. advanced p0 u b p' \<Longrightarrow> Q () p'" and E: "\<And>p'. broken p0 0 p' \<Longrightarrow> E p'"
  shows "wp yaml_parser_fetch_next_token Q E p"
  unfolding yaml_parser_fetch_next_token_def wp_seqM [of "CACHE 1"]
proof (rule wp_stage_CACHE [OF s])
  fix cs' and q :: "('h, 'z) yaml_scanner_scheme"
  assume q: "stage p0 u b True cs' q"
  then have "\<not> \<not> p_stream_start_produced q" by (simp add: stage_def)
  from wp_next_token [OF q] show "wp (readM (\<lambda>p. if \<not> p_stream_start_produced p then yaml_parser_fetch_stream_start
        else seqM yaml_parser_scan_to_next_token
          (seqM yaml_parser_stale_simple_keys
          (seqM (readM (\<lambda>p. yaml_parser_unroll_indent (column_of p)))
          (seqM (CACHE 4)
            (lookingM 4 (\<lambda>b. readM (\<lambda>p. dispatch b (mark_column (p_mark p) = 0) (p_flow_level p \<noteq> 0))))))))) Q E q"
    unfolding wp_readM [of "\<lambda>p. if _ p then _ else _"] if_not_P [OF \<open>\<not> \<not> _\<close>] by (simp add: Q E)
qed (simp_all add: E)

lemma wp_fetch_first_token:
  fixes p :: "('h, 'z) yaml_scanner_scheme"
  assumes s: "fresh p0 cs p"
    and Q: "\<And>cs p'. stage p0 1 (chars_bound pending p) True cs p' \<Longrightarrow> Q () p'" and E: "\<And>p'. broken p0 0 p' \<Longrightarrow> E p'"
  shows "wp yaml_parser_fetch_next_token Q E p"
  unfolding yaml_parser_fetch_next_token_def wp_seqM [of "CACHE 1"]
proof (rule wp_CACHE [where p = p])
  show "view p 0 (chars_bound pending p) cs p" by (rule view_start) (use s in \<open>simp_all add: fresh_def text_ok_def\<close>)
  fix cs' and q :: "('h, 'z) yaml_scanner_scheme"
  assume v: "view p 0 (chars_bound pending p) (cs @ cs') q"
  then have "kept q = kept p" "live (p_mem q) = live (p_mem p)" "text_ok q (cs @ cs')" by (simp_all add: view_def text_ok_def)
  with s have q: "fresh p0 (cs @ cs') q" by (auto simp: fresh_def kept_def fetch_defs)
  have le: "chars_bound pending q \<le> chars_bound pending p" using v by (simp add: view_def)
  from q have "\<not> p_stream_start_produced q" by (simp add: fresh_def)
  then show "wp (readM (\<lambda>p. if \<not> p_stream_start_produced p then yaml_parser_fetch_stream_start
        else seqM yaml_parser_scan_to_next_token
          (seqM yaml_parser_stale_simple_keys
          (seqM (readM (\<lambda>p. yaml_parser_unroll_indent (column_of p)))
          (seqM (CACHE 4)
            (lookingM 4 (\<lambda>b. readM (\<lambda>p. dispatch b (mark_column (p_mark p) = 0) (p_flow_level p \<noteq> 0))))))))) Q E q"
    unfolding wp_readM [of "\<lambda>p. if _ p then _ else _"]
  proof (simp only: if_True not_False_eq_True, intro wp_fetch_stream_start [OF q])
    fix p' :: "('h, 'z) yaml_scanner_scheme"
    assume "stage p0 1 (chars_bound pending q) True (cs @ cs') p'"
    then have "stage p0 1 (chars_bound pending p) True (cs @ cs') p'" using le by (simp add: stage_def)
    then show "Q () p'" by (rule Q)
  qed (erule E)
next
  fix p' :: "('h, 'z) yaml_scanner_scheme"
  assume "lost p 0 p'"
  with s show "E p'" by (intro E) (auto simp: lost_def fresh_def broken_def kept_def fetch_defs)
qed simp_all

subsection \<open>The scanner's invariant\<close>

definition scanner_inv :: "('h, 'z) yaml_scanner_scheme \<Rightarrow> bool" where
  "scanner_inv p \<longleftrightarrow> (\<exists>cs. reader_ok handler pending src_ok p \<and> holds p cs \<and> chars_wf (p_eof p) cs) \<and> containers_ok p \<and>
     (if \<not> p_stream_start_produced p
      then items (p_tokens p) = [] \<and> simple_keys p = [] \<and> elems (p_indents p) = [] \<and> p_flow_level p = 0
        \<and> \<not> p_token_available p \<and> \<not> p_stream_end_produced p
      else if p_stream_end_produced p then items (p_tokens p) = []
      else shape p \<and> (\<forall>k\<in>set (simple_keys p). key_ok True p k) \<and> (p_token_available p \<longrightarrow> \<not> need_more_tokens p)
        \<and> (no_end p \<or> closing p))"

definition tokens_bound :: "('h, 'z) yaml_scanner_scheme \<Rightarrow> nat" where
  "tokens_bound p = units p + (if p_stream_end_produced p \<or> \<not> no_end p then 0
     else 1 + 4 * chars_bound pending p + (if p_stream_start_produced p then 0 else 1))"

text \<open>The states between two rounds of the loop.\<close>

definition fetching :: "('h, 'z) yaml_scanner_scheme \<Rightarrow> ('h, 'z) yaml_scanner_scheme \<Rightarrow> bool" where
  "fetching p0 p \<longleftrightarrow> (\<exists>cs. fresh p0 cs p \<and> 2 + 4 * chars_bound pending p \<le> tokens_bound p0)
     \<or> (\<exists>u b cs. stage p0 u b True cs p \<and> u + 1 + 4 * b \<le> tokens_bound p0)
     \<or> closed p0 (tokens_bound p0) p"

definition rounds :: "('h, 'z) yaml_scanner_scheme \<Rightarrow> nat" where
  "rounds p = (if no_end p then 1 + chars_bound pending p + (if p_stream_start_produced p then 0 else 1) else 0)"

lemma fetching_advanced:
  assumes "advanced p0 u b q" "u + 1 + 4 * b \<le> tokens_bound p0"
  shows "fetching p0 q \<and> rounds q \<le> b"
proof -
  consider cs where "0 < b" "stage p0 (u + 4) (b - 1) True cs q" | "closed p0 (u + 1) q"
    using assms(1) by (auto simp: advanced_def fetched_def)
  then show ?thesis
  proof cases
    case 1
    from 1(1) assms(2) have "u + 4 + 1 + 4 * (b - 1) \<le> tokens_bound p0" by (simp add: algebra_simps)
    with 1(2) have "fetching p0 q" unfolding fetching_def by blast
    moreover have "rounds q \<le> b" using 1 by (auto simp: rounds_def stage_def)
    ultimately show ?thesis by simp
  next
    case 2
    then have "closed p0 (tokens_bound p0) q" using assms(2) by (simp add: closed_def)
    moreover have "\<not> no_end q" using 2 by (auto simp: closed_def no_end_def)
    ultimately show ?thesis by (simp add: fetching_def rounds_def)
  qed
qed

subsection \<open>The loop\<close>

lemma fetching_start:
  assumes "scanner_inv p" "\<not> p_token_available p" "p_error p = YAML_NO_ERROR" "\<not> p_stream_end_produced p"
  shows "fetching p p"
proof -
  obtain cs where cs: "text_ok p cs" using assms(1,3) by (auto simp: scanner_inv_def text_ok_def)
  consider "\<not> p_stream_start_produced p" | "p_stream_start_produced p" "no_end p" | "p_stream_start_produced p" "\<not> no_end p" by blast
  then show ?thesis
  proof cases
    case 1
    with assms cs have "fresh p cs p" by (simp add: scanner_inv_def fresh_def)
    moreover from 1 assms have "2 + 4 * chars_bound pending p \<le> tokens_bound p"
      by (simp add: scanner_inv_def tokens_bound_def no_end_def)
    ultimately show ?thesis unfolding fetching_def by blast
  next
    case 2
    with assms cs have "stage p (units p) (chars_bound pending p) True cs p" by (simp add: scanner_inv_def stage_def)
    moreover from 2 assms(4) have "units p + 1 + 4 * chars_bound pending p \<le> tokens_bound p" by (simp add: tokens_bound_def)
    ultimately show ?thesis unfolding fetching_def by blast
  next
    case 3
    with assms cs have "closed p (tokens_bound p) p" by (auto simp: scanner_inv_def closed_def closing_def tokens_bound_def)
    then show ?thesis by (simp add: fetching_def)
  qed
qed

text \<open>What the loop ends with.\<close>

definition settled :: "('h, 'z) yaml_scanner_scheme \<Rightarrow> ('h, 'z) yaml_scanner_scheme \<Rightarrow> bool" where
  "settled p0 p \<longleftrightarrow> scanner_inv (p\<lparr>p_token_available := True\<rparr>) \<and> tokens_bound p \<le> tokens_bound p0 \<and> items (p_tokens p) \<noteq> []
     \<and> p_error p = YAML_NO_ERROR \<and> p_stream_start_produced p \<and> base_of p = base_of p0 \<and> surplus p = surplus p0"

lemma parts_available [simp]:
  "containers_ok (p\<lparr>p_token_available := a\<rparr>) = containers_ok p" "shape (p\<lparr>p_token_available := a\<rparr>) = shape p"
  "key_ok s (p\<lparr>p_token_available := a\<rparr>) k = key_ok s p k" "no_end (p\<lparr>p_token_available := a\<rparr>) = no_end p"
  "need_more_tokens (p\<lparr>p_token_available := a\<rparr>) = need_more_tokens p" "closing (p\<lparr>p_token_available := a\<rparr>) = closing p"
  by (simp_all add: fetch_defs need_more_tokens_def closing_def)

lemma reader_available [simp]:
  "reader_ok handler pending src_ok (p\<lparr>p_token_available := a\<rparr>) = reader_ok handler pending src_ok p"
  "holds (p\<lparr>p_token_available := a\<rparr>) cs = holds p cs"
  by (simp_all add: reader_ok_def reader_inv_def holds_def)

lemma tokens_bound_available [simp]: "tokens_bound (p\<lparr>p_token_available := a\<rparr>) = tokens_bound p"
  by (simp add: tokens_bound_def units_def)

lemma settled_stage:
  assumes s: "stage p0 u b True cs p" and "u + 1 + 4 * b \<le> tokens_bound p0" and "\<not> need_more_tokens p" "items (p_tokens p) \<noteq> []"
    and "\<not> p_stream_end_produced p0"
  shows "settled p0 p"
proof -
  have "\<not> p_stream_end_produced p" using s assms(5) by (simp add: stage_def base_of_def)
  moreover from this s have "tokens_bound p \<le> u + 1 + 4 * b" by (simp add: tokens_bound_def stage_def)
  ultimately show ?thesis using s assms(2-4) by (auto simp: settled_def scanner_inv_def stage_def text_ok_def)
qed

lemma settled_closed:
  assumes s: "closed p0 (tokens_bound p0) p" and "\<not> p_stream_end_produced p0" "\<not> need_more_tokens p"
  shows "settled p0 p"
proof -
  have "\<not> p_stream_end_produced p" "\<not> no_end p" using s assms(2) by (auto simp: closed_def base_of_def no_end_def)
  then show ?thesis using s assms(3) by (auto simp: settled_def scanner_inv_def closed_def text_ok_def closing_def tokens_bound_def)
qed

text \<open>After the end of the stream no key needs more tokens.\<close>

lemma wp_closed_stale:
  assumes s: "closed p0 u p"
    and Q: "\<And>p'. closed p0 u p' \<Longrightarrow> \<not> need_more_tokens p' \<Longrightarrow> Q () p'"
    and E: "\<And>p'. broken p0 0 p' \<Longrightarrow> E p'"
  shows "wp yaml_parser_stale_simple_keys Q E p"
proof (rule wp_stale_simple_keys)
  let ?p = "p\<lparr>p_simple_keys := (p_simple_keys p)\<lparr>elems := refreshed (p_mark p) (simple_keys p)\<rparr>\<rparr>"
  have k: "\<not> sk_possible k" if "k \<in> set (refreshed (p_mark p) (simple_keys p))" for k
    using that s by (auto simp: refreshed_def closed_def split: if_splits)
  have "length (refreshed (p_mark p) (simple_keys p)) = length (simple_keys p)" by (simp add: refreshed_def)
  moreover have "refreshed (p_mark p) (simple_keys p) \<noteq> []" using s by (simp add: refreshed_def closed_def shape_def)
  ultimately have "closed p0 u ?p" using s k by (simp add: closed_def fetch_defs stack_ok_def)
  then show "Q () ?p" by (rule Q) (use k in \<open>auto simp: need_more_tokens_def\<close>)
  have "broken p0 0 (p\<lparr>p_simple_keys := (p_simple_keys p)\<lparr>elems := ks\<rparr>, p_error := YAML_SCANNER_ERROR, p_context := x,
      p_context_mark := y, p_problem := z, p_problem_mark := w\<rparr>)" if "length ks = length (simple_keys p)" for ks x y z w
    using s that by (simp add: closed_def broken_def fetch_defs stack_ok_def)
  then show "E (p\<lparr>p_simple_keys := (p_simple_keys p)\<lparr>elems := ks\<rparr>, p_error := YAML_SCANNER_ERROR, p_context := x,
      p_context_mark := y, p_problem := z, p_problem_mark := w\<rparr>)" if "length ks = length (simple_keys p)" for ks x y z w
    using that by (intro E)
qed

text \<open>One round: fetch a token, or find that the queue's first token can be taken.\<close>

lemma wp_round:
  fixes q :: "('h, 'z) yaml_scanner_scheme"
  assumes J: "fetching p0 q" and np: "\<not> p_stream_end_produced p0"
    and again: "\<And>q'. fetching p0 q' \<Longrightarrow> rounds q' < rounds q \<Longrightarrow> Q (Inl ()) q'"
    and ready: "\<And>q'. settled p0 q' \<Longrightarrow> Q (Inr ()) q'"
    and E: "\<And>q'. broken p0 0 q' \<Longrightarrow> E q'"
  shows "wp (readM (\<lambda>p.
        if QUEUE_EMPTY (p_tokens p) then seqM yaml_parser_fetch_next_token (againM ())
        else seqM yaml_parser_stale_simple_keys
          (readM (\<lambda>p. if need_more_tokens p then seqM yaml_parser_fetch_next_token (againM ()) else breakM ())))) Q E q"
proof -
  have more: "wp (seqM yaml_parser_fetch_next_token (againM ())) Q E r"
    if st: "stage p0 u b True cs r" "u + 1 + 4 * b \<le> tokens_bound p0" and m: "rounds r \<le> rounds q" for r :: "('h, 'z) yaml_scanner_scheme" and u b cs
    unfolding wp_seqM
  proof (rule wp_fetch_next_token [OF stage_tight [OF st(1)] _ E])
    fix q' :: "('h, 'z) yaml_scanner_scheme"
    assume a: "advanced p0 u (chars_bound pending r) q'"
    have "chars_bound pending r \<le> b" using st(1) by (simp add: stage_def)
    with st(2) have "u + 1 + 4 * chars_bound pending r \<le> tokens_bound p0" by simp
    from fetching_advanced [OF a this] have "fetching p0 q'" "rounds q' \<le> chars_bound pending r" by simp_all
    moreover have "chars_bound pending r < rounds r" using st(1) by (simp add: rounds_def stage_def)
    ultimately show "wp (againM ()) Q E q'" using m by (simp add: wp_returnM again)
  qed
  from J consider cs where "fresh p0 cs q" "2 + 4 * chars_bound pending q \<le> tokens_bound p0"
    | u b cs where "stage p0 u b True cs q" "u + 1 + 4 * b \<le> tokens_bound p0" | "closed p0 (tokens_bound p0) q"
    unfolding fetching_def by blast
  then show ?thesis
  proof cases
    case 1
    then have e: "QUEUE_EMPTY (p_tokens q)" by (simp add: fresh_def QUEUE_EMPTY_def)
    show ?thesis unfolding wp_readM [of "\<lambda>p. if _ p then _ else _"] if_P [OF e] wp_seqM
    proof (rule wp_fetch_first_token [OF 1(1)])
      fix cs' and q' :: "('h, 'z) yaml_scanner_scheme"
      assume st: "stage p0 1 (chars_bound pending q) True cs' q'"
      moreover have "1 + 1 + 4 * chars_bound pending q \<le> tokens_bound p0" using 1(2) by simp
      ultimately have "fetching p0 q'" unfolding fetching_def by blast
      moreover have "rounds q' < rounds q" using st 1(1) by (auto simp: rounds_def stage_def fresh_def no_end_def)
      ultimately show "wp (againM ()) Q E q'" by (simp add: wp_returnM again)
    qed (erule E)
  next
    case (2 u b cs)
    then have bd: "u + 1 + 4 * chars_bound pending q \<le> tokens_bound p0" by (auto simp: stage_def)
    show ?thesis unfolding wp_readM
    proof (rule wp_choiceI)
      show "wp (seqM yaml_parser_fetch_next_token (againM ())) Q E q" by (rule more [OF 2]) simp
      assume ne: "\<not> QUEUE_EMPTY (p_tokens q)"
      show "wp (seqM yaml_parser_stale_simple_keys
          (readM (\<lambda>p. if need_more_tokens p then seqM yaml_parser_fetch_next_token (againM ()) else breakM ()))) Q E q"
        unfolding wp_seqM [of yaml_parser_stale_simple_keys] wp_readM
      proof (rule wp_stage_stale [OF stage_tight [OF 2(1)] _ E], rule wp_choiceI)
        fix r :: "('h, 'z) yaml_scanner_scheme"
        assume r: "stage p0 u (chars_bound pending q) True cs r" "p_tokens r = p_tokens q"
        show "wp (seqM yaml_parser_fetch_next_token (againM ())) Q E r"
          by (rule more [OF r(1) bd]) (use r 2(1) in \<open>simp add: rounds_def stage_def\<close>)
        show "wp (breakM ()) Q E r" if "\<not> need_more_tokens r"
          using settled_stage [OF r(1) bd that _ np] ne r(2) by (simp add: wp_returnM ready QUEUE_EMPTY_def)
      qed
    qed
  next
    case 3
    then have e: "\<not> QUEUE_EMPTY (p_tokens q)" by (auto simp: closed_def QUEUE_EMPTY_def)
    show ?thesis unfolding wp_readM [of "\<lambda>p. if _ p then _ else _"] if_not_P [OF e] wp_seqM [of yaml_parser_stale_simple_keys]
      by (intro wp_closed_stale [OF 3 _ E]) (simp_all add: wp_readM wp_returnM ready settled_closed [OF _ np])
  qed
qed

lemma wp_fetch_more_tokens:
  fixes p :: "('h, 'z) yaml_scanner_scheme"
  assumes p: "scanner_inv p" "\<not> p_token_available p" "p_error p = YAML_NO_ERROR" "\<not> p_stream_end_produced p"
    and Q: "\<And>p'. settled p p' \<Longrightarrow> Q () (p'\<lparr>p_token_available := True\<rparr>)"
    and E: "\<And>p'. broken p 0 p' \<Longrightarrow> E p'"
  shows "wp yaml_parser_fetch_more_tokens Q E p"
  unfolding yaml_parser_fetch_more_tokens_def wp_seqM wp_modifyM
proof (rule wp_loopM [where I = "\<lambda>_. fetching p" and \<mu> = "\<lambda>_. rounds"])
  show "fetching p p" by (rule fetching_start [OF p])
  show "wp (readM (\<lambda>p.
        if QUEUE_EMPTY (p_tokens p) then seqM yaml_parser_fetch_next_token (againM ())
        else seqM yaml_parser_stale_simple_keys
          (readM (\<lambda>p. if need_more_tokens p then seqM yaml_parser_fetch_next_token (againM ()) else breakM ()))))
     (\<lambda>r q'. case r of Inl _ \<Rightarrow> fetching p q' \<and> rounds q' < rounds q | Inr b \<Rightarrow> Q () (q'\<lparr>p_token_available := True\<rparr>)) E q"
    if "fetching p q" for q :: "('h, 'z) yaml_scanner_scheme"
    by (rule wp_round [OF that p(4)]) (simp_all add: Q E)
qed

end

subsection \<open>The contract\<close>

lemma truncate_sel [simp]:
  fixes p :: "('h, 'z) yaml_scanner_scheme"
  shows "p_tokens (yaml_scanner.truncate p) = p_tokens p" "p_mem (yaml_scanner.truncate p) = p_mem p"
    "p_token_available (yaml_scanner.truncate p) = p_token_available p" "p_simple_keys (yaml_scanner.truncate p) = p_simple_keys p"
    "p_indents (yaml_scanner.truncate p) = p_indents p" "p_indent (yaml_scanner.truncate p) = p_indent p"
    "p_flow_level (yaml_scanner.truncate p) = p_flow_level p" "p_tokens_parsed (yaml_scanner.truncate p) = p_tokens_parsed p"
    "p_stream_start_produced (yaml_scanner.truncate p) = p_stream_start_produced p"
    "p_stream_end_produced (yaml_scanner.truncate p) = p_stream_end_produced p"
    "p_mark (yaml_scanner.truncate p) = p_mark p" "p_eof (yaml_scanner.truncate p) = p_eof p"
    "p_unread (yaml_scanner.truncate p) = p_unread p" "p_buffer (yaml_scanner.truncate p) = p_buffer p"
    "p_raw_buffer (yaml_scanner.truncate p) = p_raw_buffer p" "p_read_handler (yaml_scanner.truncate p) = p_read_handler p"
    "p_read_handler_data (yaml_scanner.truncate p) = p_read_handler_data p"
  by (simp_all add: yaml_scanner.truncate_def)

context byte_source
begin

lemma truncate_parts [simp]:
  "scanner_inv (yaml_scanner.truncate p) = scanner_inv p" "tokens_bound (yaml_scanner.truncate p) = tokens_bound p"
  by (simp_all add: scanner_inv_def tokens_bound_def fetch_defs closing_def need_more_tokens_def reader_ok_def reader_inv_def holds_def
      chars_bound_def bytes_left_def)

lemma settled_scanner:
  assumes "settled p p'"
  shows "scanner_inv (p'\<lparr>p_token_available := True\<rparr>)" "tokens_bound (p'\<lparr>p_token_available := True\<rparr>) \<le> tokens_bound p"
    "items (p_tokens p') \<noteq> []" "p_error p' = YAML_NO_ERROR" "p_stream_start_produced p'"
    "p_stream_end_produced p' = p_stream_end_produced p" "base_of p' = base_of p" "surplus p' = surplus p" "containers_ok p'"
  using assms by (auto simp: settled_def base_of_def scanner_inv_def)

lemma balance_surplus:
  fixes p p' :: "'h yaml_parser"
  assumes "base_of p' = base_of p" "surplus p' = surplus p" "containers_ok p" "containers_ok p'"
  shows "balance p' = balance p"
proof -
  have m: "yaml_scanner.more p' = yaml_scanner.more p" using assms(1) by (simp add: base_of_def)
  have "block_if (cap (p_indents q)) = 1 \<and> block_if (cap (p_simple_keys q)) = 1 \<and> block_if (qcap (p_tokens q)) = 1"
    if "containers_ok q" for q :: "'h yaml_parser"
    using that by (simp add: containers_ok_def stack_ok_def queue_ok_def)
  from this [OF assms(3)] this [OF assms(4)] assms(1,2) more_eq [OF m] show ?thesis
    by (simp add: balance_def parser_blocks_def surplus_def sblocks_def base_of_def)
qed

lemma SKIP_TOKEN_inv:
  fixes p :: "'h yaml_parser"
  assumes I: "scanner_inv p" and a: "p_token_available p" and ne: "items (p_tokens p) \<noteq> []"
  shows "wp SKIP_TOKEN (\<lambda>_ p'. scanner_inv p' \<and> tokens_bound p' < tokens_bound p) (\<lambda>_. False) p"
proof -
  obtain t ts where it: "items (p_tokens p) = t # ts" using ne by (cases "items (p_tokens p)") auto
  have ok: "queue_ok (p_tokens p)" using I by (simp add: scanner_inv_def containers_ok_def)
  then obtain q where q: "DEQUEUE (p_tokens p) = Return t q" "queue_ok q" "items q = ts"
    using wp_DEQUEUE [OF ok it, of "\<lambda>x q. x = t \<and> queue_ok q \<and> items q = ts" "\<lambda>_. False"] by (auto simp: wp_def split: result.splits)
  let ?p = "p\<lparr>p_token_available := False, p_tokens_parsed := p_tokens_parsed p + 1,
     p_stream_end_produced := (t_type t = YAML_STREAM_END_TOKEN), p_tokens := q\<rparr>"
  have st: "p_stream_start_produced p" "\<not> p_stream_end_produced p" using I a ne by (auto simp: scanner_inv_def split: if_splits)
  have rd: "\<exists>cs. reader_ok handler pending src_ok ?p \<and> holds ?p cs \<and> chars_wf (p_eof ?p) cs" "containers_ok ?p"
    using I q(2) by (auto simp: scanner_inv_def containers_ok_def reader_ok_def reader_inv_def holds_def)
  have u: "units p = Suc (units ?p)" by (simp add: units_def it q(3))
  from I st a have old: "shape p" "\<forall>k\<in>set (simple_keys p). key_ok True p k" "\<not> need_more_tokens p" "no_end p \<or> closing p"
    by (simp_all add: scanner_inv_def)
  have "key_ok True ?p k" if "key_ok True p k" "k \<in> set (simple_keys p)" for k
  proof (cases "sk_possible k")
    case True
    have "sk_token_number k \<noteq> p_tokens_parsed p" using old(3) True that(2) by (auto simp: need_more_tokens_def)
    with that(1) True show ?thesis by (simp add: key_ok_def it q(3))
  qed (simp add: key_ok_def)
  with old(1,2) have keys: "shape ?p" "\<forall>k\<in>set (simple_keys ?p). key_ok True ?p k" by (simp_all add: shape_def)
  have "scanner_inv ?p \<and> tokens_bound ?p < tokens_bound p"
  proof (cases "no_end p")
    case True
    then have ends: "t_type t \<noteq> YAML_STREAM_END_TOKEN" "no_end ?p" by (auto simp: no_end_def it q(3))
    with rd keys st True u show ?thesis by (simp add: scanner_inv_def tokens_bound_def chars_bound_def bytes_left_def)
  next
    case False
    with old(4) have "closing p" by simp
    then obtain us e where us: "items (p_tokens p) = us @ [e]" "t_type e = YAML_STREAM_END_TOKEN" "YAML_STREAM_END_TOKEN \<notin> t_type ` set us"
      and k: "\<forall>k\<in>set (simple_keys p). sk_possible k \<longrightarrow> stale (p_mark p) k" by (auto simp: closing_def)
    show ?thesis
    proof (cases us)
      case Nil
      with us it have "t_type t = YAML_STREAM_END_TOKEN" "ts = []" by auto
      with rd st False u q(3) show ?thesis by (simp add: scanner_inv_def tokens_bound_def)
    next
      case (Cons a us')
      with us it have e: "t_type t \<noteq> YAML_STREAM_END_TOKEN" "ts = us' @ [e]" "YAML_STREAM_END_TOKEN \<notin> t_type ` set us'" by auto
      with us(2) q(3) k have "closing ?p" "\<not> no_end ?p" by (auto simp: closing_def no_end_def)
      with rd keys st False u e(1) show ?thesis by (simp add: scanner_inv_def tokens_bound_def)
    qed
  qed
  then show ?thesis using q(1) by (simp add: SKIP_TOKEN_def wp_def)
qed

lemma scanner_contract: "fetch_contract yaml_parser_fetch_more_tokens scanner_inv tokens_bound"
  unfolding fetch_contract_def
proof (intro conjI allI impI)
  fix p :: "'h yaml_parser"
  assume "scanner_inv (scn p) \<and> \<not> p_token_available p \<and> p_error p = YAML_NO_ERROR \<and> \<not> p_stream_end_produced p"
  then have p: "scanner_inv p" "\<not> p_token_available p" "p_error p = YAML_NO_ERROR" "\<not> p_stream_end_produced p" by simp_all
  show "wp yaml_parser_fetch_more_tokens
          (\<lambda>_ p'. scanner_inv (scn p') \<and> tokens_bound (scn p') \<le> tokens_bound (scn p) \<and> p_token_available p' \<and> items (p_tokens p') \<noteq> []
             \<and> p_error p' = YAML_NO_ERROR \<and> p_stream_start_produced p' \<and> \<not> p_stream_end_produced p'
             \<and> yaml_scanner.more p' = yaml_scanner.more p \<and> balance p' = balance p)
          (\<lambda>p'. p_error p' \<noteq> YAML_COMPOSER_ERROR \<and> yaml_scanner.more p' = yaml_scanner.more p \<and> balance p' = balance p) p"
  proof (rule wp_fetch_more_tokens [OF p])
    fix p' :: "'h yaml_parser"
    assume "settled p p'"
    note s = settled_scanner [OF this]
    from p(1) have "containers_ok p" by (simp add: scanner_inv_def)
    from balance_surplus [OF s(7,8) this s(9)] have "balance (p'\<lparr>p_token_available := True\<rparr>) = balance p"
      by (simp add: balance_def parser_blocks_def)
    moreover have "yaml_scanner.more p' = yaml_scanner.more p" using s(7) by (simp add: base_of_def)
    ultimately show "scanner_inv (scn (p'\<lparr>p_token_available := True\<rparr>)) \<and> tokens_bound (scn (p'\<lparr>p_token_available := True\<rparr>)) \<le> tokens_bound (scn p)
        \<and> p_token_available (p'\<lparr>p_token_available := True\<rparr>) \<and> items (p_tokens (p'\<lparr>p_token_available := True\<rparr>)) \<noteq> []
        \<and> p_error (p'\<lparr>p_token_available := True\<rparr>) = YAML_NO_ERROR \<and> p_stream_start_produced (p'\<lparr>p_token_available := True\<rparr>)
        \<and> \<not> p_stream_end_produced (p'\<lparr>p_token_available := True\<rparr>) \<and> yaml_scanner.more (p'\<lparr>p_token_available := True\<rparr>) = yaml_scanner.more p
        \<and> balance (p'\<lparr>p_token_available := True\<rparr>) = balance p"
      using s p(4) unfolding truncate_parts by simp
  next
    fix p' :: "'h yaml_parser"
    assume "broken p 0 p'"
    then have b: "base_of p' = base_of p" "surplus p' = surplus p" "p_error p' \<noteq> YAML_COMPOSER_ERROR" "containers_ok p'"
      by (simp_all add: broken_def)
    from p(1) have "containers_ok p" by (simp add: scanner_inv_def)
    from balance_surplus [OF b(1,2) this b(4)] b(1,3) show "p_error p' \<noteq> YAML_COMPOSER_ERROR \<and> yaml_scanner.more p' = yaml_scanner.more p \<and> balance p' = balance p"
      by (simp add: base_of_def)
  qed
next
  fix p :: "'h yaml_parser"
  assume "scanner_inv (scn p) \<and> p_token_available p \<and> items (p_tokens p) \<noteq> []"
  then show "wp SKIP_TOKEN (\<lambda>_ p'. scanner_inv (scn p') \<and> tokens_bound (scn p') < tokens_bound (scn p)) (\<lambda>_. False) p"
    unfolding truncate_parts by (intro SKIP_TOKEN_inv) simp_all
next
  fix s :: "'h yaml_scanner" and h :: heap
  show "scanner_inv (s\<lparr>p_mem := h\<rparr>) = scanner_inv s" "tokens_bound (s\<lparr>p_mem := h\<rparr>) = tokens_bound s"
    by (simp_all add: scanner_inv_def tokens_bound_def units_def containers_ok_def no_end_def shape_def key_ok_def closing_def need_more_tokens_def
        reader_ok_def reader_inv_def holds_def chars_bound_def bytes_left_def)
qed

end

end
