(* ===== verification/Scanner_Runs.thy ===== *)
theory Scanner_Runs
  imports Scanner_Contract Loader_Runs
begin

text \<open>
  The library from bytes to tokens, events and documents: the scanner runs on the reader and meets the contract of the
  parser (\<open>string_src.scanner_contract\<close>, \<open>file_src.scanner_contract\<close>), so that what Parser_Runs and Loader_Runs
  show under that contract holds on every input.
\<close>

subsection \<open>A parser on a byte string\<close>

text \<open>What every client does first.\<close>

definition parser_on_string :: "yaml_encoding \<Rightarrow> ystring \<Rightarrow> (string_input yaml_parser, unit) prog" where
  "parser_on_string en input =
     seqM yaml_parser_initialize (seqM (yaml_parser_set_input_string input) (yaml_parser_set_encoding en))"

definition parser_on_file :: "yaml_encoding \<Rightarrow> c_file \<Rightarrow> (c_file yaml_parser, unit) prog" where
  "parser_on_file en f =
     seqM yaml_parser_initialize (seqM (yaml_parser_set_input_file f) (yaml_parser_set_encoding en))"

lemma on_string_ready:
  assumes "parser_on_string en input p0 = Return () p"
  shows "fresh_parser p \<and> string_src.scanner_inv (scn p) \<and> string_src.tokens_bound (scn p) = 4 * length input + 6
    \<and> live (p_mem (yaml_parser_delete p)) = live (p_mem p0)"
proof -
  obtain q where q: "yaml_parser_initialize p0 = Return () q"
      "seqM (yaml_parser_set_input_string input) (yaml_parser_set_encoding en) q = Return () p"
    using assms by (auto simp: parser_on_string_def seqM_def bindM_def split: result.splits)
  have s: "parser_start q" "live (p_mem (yaml_parser_delete q)) = live (p_mem p0)"
    using wp_Return [OF parser_initialize_contract q(1)] by simp_all
  have p: "p = q\<lparr>p_read_handler := Some yaml_string_read_handler, p_read_handler_data := \<lparr>si_string = input, si_current = 0\<rparr>,
      p_encoding := en\<rparr>"
    using q(2) s(1) by (auto simp: yaml_parser_set_input_string_def yaml_parser_set_encoding_def prog_defs parser_start_def split: if_splits)
  have "fresh_parser p" using fresh_parser_start [OF s(1)] by (simp add: p fresh_parser_def)
  moreover have "string_src.scanner_inv p"
    using s(1) by (auto simp: p string_src.scanner_inv_def containers_ok_def parser_start_def reader_ok_def reader_inv_def holds_def
        b_rest_def buffer_ok_def string_pending_def string_input_ok_def chars_wf_def intro!: exI [of _ "[]"])
  moreover have "string_src.tokens_bound p = 4 * length input + 6"
    using s(1) by (simp add: p string_src.tokens_bound_def units_def no_end_def parser_start_def chars_bound_def bytes_left_def
        b_rest_def string_pending_def)
  moreover have "live (p_mem (yaml_parser_delete p)) = live (p_mem p0)"
    using s(2) by (simp add: p live_yaml_parser_delete parser_blocks_def)
  ultimately show ?thesis by simp
qed

subsection \<open>Runs of the scanner\<close>

text \<open>The tokens a program gets that calls \<open>yaml_parser_scan\<close> again and again.\<close>

inductive scans :: "'h yaml_parser \<Rightarrow> yaml_token list \<Rightarrow> 'h yaml_parser \<Rightarrow> bool" where
  scans_Nil: "scans p [] p"
| scans_Cons: "\<not> p_stream_end_produced p \<Longrightarrow> yaml_parser_scan p = Return t p1 \<Longrightarrow> scans p1 ts p' \<Longrightarrow> scans p (t # ts) p'"

text \<open>Taking a token is what the parser's \<open>SKIP_TOKEN\<close> does, and the caller owns the token.\<close>

lemma skip_effect:
  assumes "SKIP_TOKEN p = Return () p'" "items (p_tokens p) = t # ts"
  shows "balance p' = balance p + token_blocks t \<and> p_error p' = p_error p
    \<and> p_stream_end_produced p' = (t_type t = YAML_STREAM_END_TOKEN) \<and> \<not> p_token_available p'"
proof -
  from assms have "p' = p\<lparr>p_token_available := False, p_tokens_parsed := p_tokens_parsed p + 1,
     p_stream_end_produced := (t_type t = YAML_STREAM_END_TOKEN), p_tokens := (p_tokens p)\<lparr>front := front (p_tokens p) + 1, items := ts\<rparr>\<rparr>"
    by (simp add: SKIP_TOKEN_eq)
  then show ?thesis using assms(2) by (simp add: balance_def parser_blocks_def)
qed

lemma take_token_skip:
  assumes "\<not> p_stream_end_produced p" "SKIP_TOKEN p = Return () p'" "items (p_tokens p) = t # ts"
  shows "bindM (zoomM p_tokens (\<lambda>q p. p\<lparr>p_tokens := q\<rparr>) DEQUEUE) (\<lambda>t.
        seqM (modifyM (\<lambda>p. p\<lparr>p_token_available := False, p_tokens_parsed := p_tokens_parsed p + 1,
                            p_stream_end_produced := p_stream_end_produced p \<or> t_type t = YAML_STREAM_END_TOKEN\<rparr>))
          (returnM t)) p = Return t p'"
  using assms(1) assms(2) [symmetric] assms(3) by (simp add: SKIP_TOKEN_eq DEQUEUE_def prog_defs)

definition scanned_from :: "('h yaml_scanner \<Rightarrow> bool) \<Rightarrow> ('h yaml_scanner \<Rightarrow> nat) \<Rightarrow> 'h yaml_parser \<Rightarrow> yaml_token \<Rightarrow> 'h yaml_parser \<Rightarrow> bool" where
  "scanned_from I left p t p' \<longleftrightarrow> I (scn p') \<and> left (scn p') < left (scn p) \<and> p_error p' = YAML_NO_ERROR
     \<and> p_stream_end_produced p' = (t_type t = YAML_STREAM_END_TOKEN) \<and> \<not> p_token_available p'
     \<and> balance p' = balance p + token_blocks t"

lemma wp_scan:
  fixes p :: "'h yaml_parser"
  assumes C: "fetch_contract yaml_parser_fetch_more_tokens I left" and I: "I (scn p)" and e: "p_error p = YAML_NO_ERROR"
    and np: "\<not> p_stream_end_produced p" "\<not> p_token_available p"
  shows "wp yaml_parser_scan (scanned_from I left p) (\<lambda>p'. p_error p' \<noteq> YAML_COMPOSER_ERROR \<and> balance p' = balance p) p"
proof -
  have no: "\<not> (p_stream_end_produced p \<or> p_error p \<noteq> YAML_NO_ERROR)" using e np by simp
  from C I e np have f: "wp yaml_parser_fetch_more_tokens
          (\<lambda>_ p'. I (scn p') \<and> left (scn p') \<le> left (scn p) \<and> p_token_available p' \<and> items (p_tokens p') \<noteq> []
             \<and> p_error p' = YAML_NO_ERROR \<and> p_stream_start_produced p' \<and> \<not> p_stream_end_produced p'
             \<and> yaml_scanner.more p' = yaml_scanner.more p \<and> balance p' = balance p)
          (\<lambda>p'. p_error p' \<noteq> YAML_COMPOSER_ERROR \<and> yaml_scanner.more p' = yaml_scanner.more p \<and> balance p' = balance p) p"
    unfolding fetch_contract_def by blast
  show ?thesis unfolding yaml_parser_scan_def wp_readM if_not_P [OF no] if_not_P [OF np(2)] wp_seqM [of yaml_parser_fetch_more_tokens]
  proof (rule wp_mono [OF f], elim conjE)
    fix p1 :: "'h yaml_parser"
    assume p1: "I (scn p1)" "left (scn p1) \<le> left (scn p)" "p_token_available p1" "items (p_tokens p1) \<noteq> []" "p_error p1 = YAML_NO_ERROR"
      "\<not> p_stream_end_produced p1" "balance p1 = balance p"
    then obtain t ts where it: "items (p_tokens p1) = t # ts" by (cases "items (p_tokens p1)") auto
    from C p1(1,3,4) have "wp SKIP_TOKEN (\<lambda>_ p'. I (scn p') \<and> left (scn p') < left (scn p1)) (\<lambda>_. False) p1"
      unfolding fetch_contract_def by blast
    then obtain p2 where p2: "SKIP_TOKEN p1 = Return () p2" "I (scn p2)" "left (scn p2) < left (scn p1)"
      by (auto simp: wp_def split: result.splits)
    note b = skip_effect [OF p2(1) it]
    have "scanned_from I left p t p2" using p2 p1 b by (simp add: scanned_from_def)
    then show "wp (bindM (zoomM p_tokens (\<lambda>q p. p\<lparr>p_tokens := q\<rparr>) DEQUEUE) (\<lambda>t.
        seqM (modifyM (\<lambda>p. p\<lparr>p_token_available := False, p_tokens_parsed := p_tokens_parsed p + 1,
                            p_stream_end_produced := p_stream_end_produced p \<or> t_type t = YAML_STREAM_END_TOKEN\<rparr>))
          (returnM t))) (scanned_from I left p) (\<lambda>p'. p_error p' \<noteq> YAML_COMPOSER_ERROR \<and> balance p' = balance p) p1"
      by (simp only: wp_def take_token_skip [OF p1(6) p2(1) it] result.case)
  qed simp
qed

lemma scans_to_end:
  assumes C: "fetch_contract yaml_parser_fetch_more_tokens I left" and "I (scn p)" "p_error p = YAML_NO_ERROR"
    and "\<not> p_stream_end_produced p" "\<not> p_token_available p"
  shows "\<exists>ts p'. scans p ts p' \<and> length ts \<le> left (scn p) \<and> balance p' = balance p + sum_list (map token_blocks ts)
    \<and> ((\<exists>us t. ts = us @ [t] \<and> t_type t = YAML_STREAM_END_TOKEN \<and> YAML_STREAM_END_TOKEN \<notin> t_type ` set us) \<and> p_stream_end_produced p'
      \<or> (\<exists>p''. yaml_parser_scan p' = Error p'' \<and> p_error p'' \<noteq> YAML_COMPOSER_ERROR \<and> balance p'' = balance p'))"
  using assms(2-)
proof (induction "left (scn p)" arbitrary: p rule: less_induct)
  case less
  note wp = wp_scan [OF C less.prems]
  show ?case
  proof (cases "yaml_parser_scan p")
    case (Return t p1)
    then have p1: "scanned_from I left p t p1" by (rule wp_Return [OF wp])
    have one: "scans p (t # ts) p'" if "scans p1 ts p'" for ts p'
      by (rule scans_Cons [OF less.prems(3) Return that])
    show ?thesis
    proof (cases "t_type t = YAML_STREAM_END_TOKEN")
      case True
      with p1 have "scans p [t] p1 \<and> length [t] \<le> left (scn p) \<and> balance p1 = balance p + sum_list (map token_blocks [t])
          \<and> (\<exists>us u. [t] = us @ [u] \<and> t_type u = YAML_STREAM_END_TOKEN \<and> YAML_STREAM_END_TOKEN \<notin> t_type ` set us) \<and> p_stream_end_produced p1"
        using one [OF scans_Nil] by (auto simp: scanned_from_def)
      then show ?thesis by blast
    next
      case False
      with p1 have "\<exists>ts p'. scans p1 ts p' \<and> length ts \<le> left (scn p1) \<and> balance p' = balance p1 + sum_list (map token_blocks ts)
        \<and> ((\<exists>us t. ts = us @ [t] \<and> t_type t = YAML_STREAM_END_TOKEN \<and> YAML_STREAM_END_TOKEN \<notin> t_type ` set us) \<and> p_stream_end_produced p'
          \<or> (\<exists>p''. yaml_parser_scan p' = Error p'' \<and> p_error p'' \<noteq> YAML_COMPOSER_ERROR \<and> balance p'' = balance p'))"
        by (intro less.hyps) (auto simp: scanned_from_def)
      then obtain ts p' where r: "scans p1 ts p'" "length ts \<le> left (scn p1)" "balance p' = balance p1 + sum_list (map token_blocks ts)"
        and fin: "(\<exists>us t. ts = us @ [t] \<and> t_type t = YAML_STREAM_END_TOKEN \<and> YAML_STREAM_END_TOKEN \<notin> t_type ` set us) \<and> p_stream_end_produced p'
          \<or> (\<exists>p''. yaml_parser_scan p' = Error p'' \<and> p_error p'' \<noteq> YAML_COMPOSER_ERROR \<and> balance p'' = balance p')" by blast
      have "(\<exists>us u. t # ts = us @ [u] \<and> t_type u = YAML_STREAM_END_TOKEN \<and> YAML_STREAM_END_TOKEN \<notin> t_type ` set us)"
        if "ts = us @ [u]" "t_type u = YAML_STREAM_END_TOKEN" "YAML_STREAM_END_TOKEN \<notin> t_type ` set us" for us u
        using that False by (intro exI [of _ "t # us"] exI [of _ u]) auto
      with fin have "(\<exists>us u. t # ts = us @ [u] \<and> t_type u = YAML_STREAM_END_TOKEN \<and> YAML_STREAM_END_TOKEN \<notin> t_type ` set us) \<and> p_stream_end_produced p'
          \<or> (\<exists>p''. yaml_parser_scan p' = Error p'' \<and> p_error p'' \<noteq> YAML_COMPOSER_ERROR \<and> balance p'' = balance p')" by blast
      moreover have "length (t # ts) \<le> left (scn p)" "balance p' = balance p + sum_list (map token_blocks (t # ts))"
        using r p1 by (auto simp: scanned_from_def)
      ultimately show ?thesis using one [OF r(1)] by blast
    qed
  next
    case (Error q)
    from wp_Error [OF wp Error] Error show ?thesis by (intro exI [of _ "[]"] exI [of _ p]) (simp add: scans_Nil)
  next
    case Fault
    with wp_no_fault [OF wp] show ?thesis by simp
  qed
qed

lemma scan_after_end: "p_stream_end_produced p \<Longrightarrow> yaml_parser_scan p = Return (TOKEN_INIT NoToken null_mark null_mark) p"
  by (simp add: yaml_parser_scan_def prog_defs)

subsection \<open>The same on a C stream\<close>

lemma on_file_ready:
  assumes "parser_on_file en f p0 = Return () p" "file_ok f"
  shows "fresh_parser p \<and> file_src.scanner_inv (scn p) \<and> file_src.tokens_bound (scn p) = 4 * length (f_rest f) + 6
    \<and> live (p_mem (yaml_parser_delete p)) = live (p_mem p0)"
proof -
  obtain q where q: "yaml_parser_initialize p0 = Return () q"
      "seqM (yaml_parser_set_input_file f) (yaml_parser_set_encoding en) q = Return () p"
    using assms(1) by (auto simp: parser_on_file_def seqM_def bindM_def split: result.splits)
  have s: "parser_start q" "live (p_mem (yaml_parser_delete q)) = live (p_mem p0)"
    using wp_Return [OF parser_initialize_contract q(1)] by simp_all
  have p: "p = q\<lparr>p_read_handler := Some yaml_file_read_handler, p_read_handler_data := f, p_encoding := en\<rparr>"
    using q(2) s(1) by (auto simp: yaml_parser_set_input_file_def yaml_parser_set_encoding_def prog_defs parser_start_def split: if_splits)
  have "fresh_parser p" using fresh_parser_start [OF s(1)] by (simp add: p fresh_parser_def)
  moreover have "file_src.scanner_inv p"
    using s(1) assms(2) by (auto simp: p file_src.scanner_inv_def containers_ok_def parser_start_def reader_ok_def reader_inv_def holds_def
        b_rest_def buffer_ok_def chars_wf_def intro!: exI [of _ "[]"])
  moreover have "file_src.tokens_bound p = 4 * length (f_rest f) + 6"
    using s(1) by (simp add: p file_src.tokens_bound_def units_def no_end_def parser_start_def chars_bound_def bytes_left_def b_rest_def)
  moreover have "live (p_mem (yaml_parser_delete p)) = live (p_mem p0)"
    using s(2) by (simp add: p live_yaml_parser_delete parser_blocks_def)
  ultimately show ?thesis by simp
qed

text \<open>Memory on the stack of the caller, and an allocator that grants every request.\<close>

definition blank_parser :: "'h \<Rightarrow> 'h yaml_parser" where
  "blank_parser d = \<lparr>p_mem = \<lparr>outcomes = [], live = 0\<rparr>, p_error = YAML_NO_ERROR, p_problem = [], p_problem_offset = 0,
     p_problem_value = 0, p_problem_mark = null_mark, p_context = [], p_context_mark = null_mark, p_read_handler = None,
     p_read_handler_data = d, p_eof = False, p_buffer = null_buffer, p_unread = 0, p_raw_buffer = null_buffer,
     p_encoding = YAML_ANY_ENCODING, p_offset = 0, p_mark = null_mark, p_stream_start_produced = False,
     p_stream_end_produced = False, p_flow_level = 0, p_tokens = null_queue sizeof_token, p_tokens_parsed = 0,
     p_token_available = False, p_indents = null_stack sizeof_int, p_indent = 0, p_simple_key_allowed = False,
     p_simple_keys = null_stack sizeof_simple_key, p_states = null_stack sizeof_int, p_state = YAML_PARSE_STREAM_START_STATE,
     p_marks = null_stack sizeof_mark, p_tag_directives = null_stack sizeof_tag_directive\<rparr>"

definition no_input :: string_input where
  "no_input = \<lparr>si_string = [], si_current = 0\<rparr>"

lemma wp_granted: "outcomes h = [] \<Longrightarrow> wp (yaml_malloc n) Q E h = Q True (h\<lparr>live := live h + 1\<rparr>)"
  by (simp add: yaml_malloc_def malloc_def next_outcome.simps wp_def)

lemma wp_initialize_granted:
  assumes "outcomes (p_mem p) = []"
  shows "wp yaml_parser_initialize (\<lambda>_ p'. p_read_handler p' = None \<and> p_encoding p' = YAML_ANY_ENCODING) (\<lambda>_. False) p"
  unfolding yaml_parser_initialize_def BUFFER_INIT_def QUEUE_INIT_def STACK_INIT_def
  using assms by (simp add: wp_simps wp_granted zero_parser_def)

lemma on_string_returns: "\<exists>p. parser_on_string en input (blank_parser d) = Return () p"
proof -
  have "wp (parser_on_string en input) (\<lambda>_ _. True) (\<lambda>_. False) (blank_parser d)"
    unfolding parser_on_string_def wp_seqM
    by (rule wp_mono [OF wp_initialize_granted])
      (simp_all add: blank_parser_def yaml_parser_set_input_string_def yaml_parser_set_encoding_def wp_simps)
  then show ?thesis by (auto simp: wp_def split: result.splits)
qed

lemma on_file_returns: "\<exists>p. parser_on_file en f (blank_parser d) = Return () p"
proof -
  have "wp (parser_on_file en f) (\<lambda>_ _. True) (\<lambda>_. False) (blank_parser d)"
    unfolding parser_on_file_def wp_seqM
    by (rule wp_mono [OF wp_initialize_granted])
      (simp_all add: blank_parser_def yaml_parser_set_input_file_def yaml_parser_set_encoding_def wp_simps)
  then show ?thesis by (auto simp: wp_def split: result.splits)
qed

lemma live_blank [simp]: "live (p_mem (blank_parser d)) = 0"
  by (simp add: blank_parser_def)

subsection \<open>Properties\<close>

text \<open>C3: A program that calls \<open>yaml_parser_scan\<close> again and again on a byte string, whatever its contents and encoding and
  whichever allocations fail, comes to an end: every call returns without a fault, and after at most four tokens per
  byte and six more the last token is \<open>STREAM-END\<close>, the only one, or a call fails.  No call loses a block.\<close>

theorem scan_string_terminates:
  assumes "parser_on_string en input p0 = Return () p"
  shows "\<exists>ts p'. scans p ts p' \<and> length ts \<le> 4 * length input + 6
    \<and> live (p_mem (yaml_parser_delete p')) = live (p_mem p0) + sum_list (map token_blocks ts)
    \<and> ((\<exists>us t. ts = us @ [t] \<and> t_type t = YAML_STREAM_END_TOKEN \<and> YAML_STREAM_END_TOKEN \<notin> t_type ` set us)
          \<and> yaml_parser_scan p' = Return (TOKEN_INIT NoToken null_mark null_mark) p'
       \<or> (\<exists>p''. yaml_parser_scan p' = Error p'' \<and> live (p_mem (yaml_parser_delete p'')) = live (p_mem (yaml_parser_delete p'))))"
proof -
  from on_string_ready [OF assms] have r: "fresh_parser p" "string_src.scanner_inv (scn p)" "string_src.tokens_bound (scn p) = 4 * length input + 6"
    "balance p = live (p_mem p0)" by (simp_all add: balance_def live_yaml_parser_delete)
  from r(1) have p: "p_error p = YAML_NO_ERROR" "\<not> p_stream_end_produced p" "\<not> p_token_available p" by (simp_all add: fresh_parser_def)
  obtain ts p' where "scans p ts p'" "length ts \<le> 4 * length input + 6" "balance p' = live (p_mem p0) + sum_list (map token_blocks ts)"
    "(\<exists>us t. ts = us @ [t] \<and> t_type t = YAML_STREAM_END_TOKEN \<and> YAML_STREAM_END_TOKEN \<notin> t_type ` set us) \<and> p_stream_end_produced p'
      \<or> (\<exists>p''. yaml_parser_scan p' = Error p'' \<and> p_error p'' \<noteq> YAML_COMPOSER_ERROR \<and> balance p'' = balance p')"
    using scans_to_end [OF string_src.scanner_contract r(2) p] r(3,4) by auto
  then show ?thesis
    by (intro exI [of _ ts] exI [of _ p']) (auto simp: balance_def live_yaml_parser_delete scan_after_end)
qed

theorem scan_string_terminates_witness:
  "\<exists>p ts p'. parser_on_string YAML_ANY_ENCODING [0x2D, 0x20, 0x61] (blank_parser no_input) = Return () p \<and> scans p ts p' \<and> length ts \<le> 18
    \<and> live (p_mem (yaml_parser_delete p')) = sum_list (map token_blocks ts)"
proof -
  obtain p where p: "parser_on_string YAML_ANY_ENCODING [0x2D, 0x20, 0x61] (blank_parser no_input) = Return () p" using on_string_returns by blast
  obtain ts p' where "scans p ts p'" "length ts \<le> 4 * length [0x2D, 0x20, 0x61 :: yaml_char] + 6"
      "live (p_mem (yaml_parser_delete p')) = live (p_mem (blank_parser no_input)) + sum_list (map token_blocks ts)"
    using scan_string_terminates [OF p] by blast
  with p show ?thesis by (intro exI [of _ p] exI [of _ ts] exI [of _ p']) simp
qed

text \<open>C1: On a byte string \<open>yaml_parser_parse\<close> never faults, at no point of a run: no macro of the scanner looks at a byte
  that is not cached, no buffer, string, stack or queue is overrun or underrun, no key is inserted at a place that has
  been passed, and no loop runs for ever.  Neither a call that succeeds nor one that fails loses a block.\<close>

theorem parse_string_never_faults:
  assumes "parser_on_string en input p0 = Return () p" "parses yaml_parser_fetch_more_tokens p es p'"
  shows "wp (yaml_parser_parse yaml_parser_fetch_more_tokens)
      (\<lambda>e p''. live (p_mem (yaml_parser_delete p'')) = live (p_mem (yaml_parser_delete p')) + event_blocks e)
      (\<lambda>p''. p_error p'' \<noteq> YAML_COMPOSER_ERROR \<and> live (p_mem (yaml_parser_delete p'')) = live (p_mem (yaml_parser_delete p'))) p'"
  by (rule parse_never_faults [OF string_src.scanner_contract _ _ assms(2)]) (use on_string_ready [OF assms(1)] in simp_all)

theorem parse_string_never_faults_witness:
  "\<exists>p. parser_on_string YAML_ANY_ENCODING [0x5B, 0x3F, 0x3A] (blank_parser no_input) = Return () p
     \<and> yaml_parser_parse yaml_parser_fetch_more_tokens p \<noteq> Fault"
proof -
  obtain p where p: "parser_on_string YAML_ANY_ENCODING [0x5B, 0x3F, 0x3A] (blank_parser no_input) = Return () p" using on_string_returns by blast
  from wp_no_fault [OF parse_string_never_faults [OF p parses_Nil]] p show ?thesis by blast
qed

text \<open>C2: A program that parses a byte string to its end gets a stream of well nested events, after at most 64 events per
  byte and 96 more, or an error; all blocks are then those of the parser and of the events.\<close>

theorem parse_string_terminates:
  assumes "parser_on_string en input p0 = Return () p"
  shows "\<exists>es p'. parses yaml_parser_fetch_more_tokens p es p' \<and> length es \<le> 64 * length input + 96
    \<and> live (p_mem (yaml_parser_delete p')) = live (p_mem p0) + sum_list (map event_blocks es)
    \<and> (accepts AStart (map ev_type es) = Some AEnd \<and> yaml_parser_parse yaml_parser_fetch_more_tokens p' = Return null_event p'
       \<or> (\<exists>p''. yaml_parser_parse yaml_parser_fetch_more_tokens p' = Error p''
            \<and> live (p_mem (yaml_parser_delete p'')) = live (p_mem (yaml_parser_delete p'))))"
proof -
  from on_string_ready [OF assms] have r: "fresh_parser p" "string_src.scanner_inv (scn p)" "string_src.tokens_bound (scn p) = 4 * length input + 6"
    "balance p = live (p_mem p0)" by (simp_all add: balance_def live_yaml_parser_delete)
  note inv = fresh_parser_inv [where I = string_src.scanner_inv, OF r(1,2)]
  obtain es p' where run: "parses yaml_parser_fetch_more_tokens p es p'" "parser_inv string_src.scanner_inv p'"
    and fin: "p_state p' = YAML_PARSE_END_STATE
      \<or> (\<exists>p''. yaml_parser_parse yaml_parser_fetch_more_tokens p' = Error p'' \<and> p_error p'' \<noteq> YAML_COMPOSER_ERROR \<and> balance p'' = balance p')"
    using parses_to_end [OF string_src.scanner_contract inv] by blast
  have "length es \<le> 64 * length input + 96" "balance p' = live (p_mem p0) + sum_list (map event_blocks es)"
    and "p_state p' = YAML_PARSE_END_STATE \<longrightarrow> accepts AStart (map ev_type es) = Some AEnd"
    using parses_invariant [OF run(1) string_src.scanner_contract inv] fresh_abs_state [OF r(1)] fresh_work [OF r(1), of string_src.tokens_bound] r(3,4) by auto
  with run(1) fin parse_at_end [OF run(2)] show ?thesis
    by (intro exI [of _ es] exI [of _ p']) (auto simp: balance_def live_yaml_parser_delete)
qed

theorem parse_string_terminates_witness:
  "\<exists>p es p'. parser_on_string YAML_ANY_ENCODING [0x61, 0x3A, 0x20, 0x62] (blank_parser no_input) = Return () p
     \<and> parses yaml_parser_fetch_more_tokens p es p' \<and> length es \<le> 352
     \<and> live (p_mem (yaml_parser_delete p')) = sum_list (map event_blocks es)"
proof -
  obtain p where p: "parser_on_string YAML_ANY_ENCODING [0x61, 0x3A, 0x20, 0x62] (blank_parser no_input) = Return () p" using on_string_returns by blast
  obtain es p' where "parses yaml_parser_fetch_more_tokens p es p'" "length es \<le> 64 * length [0x61, 0x3A, 0x20, 0x62 :: yaml_char] + 96"
      "live (p_mem (yaml_parser_delete p')) = live (p_mem (blank_parser no_input)) + sum_list (map event_blocks es)"
    using parse_string_terminates [OF p] by blast
  with p show ?thesis by (intro exI [of _ p] exI [of _ es] exI [of _ p']) simp
qed

text \<open>C4: A program that loads the documents of a byte string one by one comes to an end after at most 64 documents per
  byte and 96 more, all well formed: a call yields the empty document at the end of the stream or fails.  After that call as before
  it no block is left: deleting the documents, the empty one too, and the parser frees every block there was not before.
  A last call that fails has cleaned up after itself unless memory ran out, and even then it frees nothing that is not its own.\<close>

theorem load_string_terminates:
  assumes "parser_on_string en input p0 = Return () (yaml_parser.truncate p)" "idle p"
  shows "\<exists>ds p'. loads yaml_parser_fetch_more_tokens p ds p' \<and> length ds \<le> 64 * length input + 96 \<and> (\<forall>d\<in>set ds. doc_ok d)
    \<and> live (fold yaml_document_delete ds (p_mem (yaml_parser_delete (yaml_parser.truncate p')))) = live (p_mem p0)
    \<and> ((\<exists>d p''. yaml_parser_load yaml_parser_fetch_more_tokens p' = Return d p'' \<and> doc_nodes d = [] \<and> p_stream_end_produced p'' \<and> idle p''
            \<and> live (fold yaml_document_delete (ds @ [d]) (p_mem (yaml_parser_delete (yaml_parser.truncate p'')))) = live (p_mem p0))
       \<or> (\<exists>p''. yaml_parser_load yaml_parser_fetch_more_tokens p' = Error p'' \<and> idle p''
            \<and> live (p_mem p0) \<le> live (fold yaml_document_delete ds (p_mem (yaml_parser_delete (yaml_parser.truncate p''))))
            \<and> (p_error p'' \<noteq> YAML_MEMORY_ERROR \<longrightarrow>
                 live (fold yaml_document_delete ds (p_mem (yaml_parser_delete (yaml_parser.truncate p'')))) = live (p_mem p0))))"
proof -
  note r = on_string_ready [OF assms(1)]
  note rdy = fresh_loader [where I = string_src.scanner_inv, OF _ assms(2)]
  have ready: "loader_ready string_src.scanner_inv p" "lbalance p = live (p_mem p0)"
    using rdy r by (simp_all add: live_yaml_parser_delete balance_def)
  obtain ds p' where run: "loads yaml_parser_fetch_more_tokens p ds p'" "length ds \<le> work string_src.tokens_bound (yaml_parser.truncate p)"
      "live_after ds p' = live (p_mem p0)" "last_load yaml_parser_fetch_more_tokens (live (p_mem p0)) ds p'"
    using loads_to_end [OF string_src.scanner_contract ready(1) ready(2) [symmetric]] by blast
  have len: "length ds \<le> 64 * length input + 96" using run(2) r fresh_work [of "yaml_parser.truncate p" string_src.tokens_bound] by auto
  have "\<forall>d\<in>set ds. doc_ok d" using loads_ready [OF run(1) string_src.scanner_contract ready(1)] by blast
  with run len show ?thesis unfolding last_load_def by blast
qed

theorem load_string_terminates_witness:
  "\<exists>p :: string_input yaml_loader. parser_on_string YAML_ANY_ENCODING [0x61] (blank_parser no_input) = Return () (yaml_parser.truncate p) \<and> idle p
     \<and> (\<exists>ds p'. loads yaml_parser_fetch_more_tokens p ds p' \<and> length ds \<le> 160
          \<and> live (fold yaml_document_delete ds (p_mem (yaml_parser_delete (yaml_parser.truncate p')))) = 0)"
proof -
  obtain q where q: "parser_on_string YAML_ANY_ENCODING [0x61] (blank_parser no_input) = Return () q" using on_string_returns by blast
  define p :: "string_input yaml_loader" where "p = yaml_parser.extend q \<lparr>p_aliases = null_stack sizeof_alias_data, p_document = None\<rparr>"
  have p: "parser_on_string YAML_ANY_ENCODING [0x61] (blank_parser no_input) = Return () (yaml_parser.truncate p)" "idle p"
    using q by (simp_all add: p_def yaml_parser.extend_def yaml_parser.truncate_def idle_def null_stack_def)
  obtain ds p' where "loads yaml_parser_fetch_more_tokens p ds p'" "length ds \<le> 64 * length [0x61 :: yaml_char] + 96"
      "live (fold yaml_document_delete ds (p_mem (yaml_parser_delete (yaml_parser.truncate p')))) = live (p_mem (blank_parser no_input))"
    using load_string_terminates [OF p] by blast
  with p have "loads yaml_parser_fetch_more_tokens p ds p' \<and> length ds \<le> 160
      \<and> live (fold yaml_document_delete ds (p_mem (yaml_parser_delete (yaml_parser.truncate p')))) = 0" by simp
  with p show ?thesis by blast
qed

end
