(* ===== verification/Scanner_Errors.thy ===== *)
theory Scanner_Errors
  imports Scanner_Chars Parser_Errors
begin

text \<open>
  Every failure of the scanner is reported, except where \<open>yaml_parser_scan_tag\<close> is refused memory: \<open>reports True\<close> for
  each operation of the scanner, whatever the read handler does, and with it for the parser that runs on it.
\<close>

subsection \<open>Loops and local strings\<close>

lemma loop_result_reported:
  fixes body :: "'l \<Rightarrow> (('h, 'z) yaml_reader_scheme, 'l + 'b) prog"
  assumes "\<And>l. reports g (body l)" "loop_result body l p = Some r"
  shows "reported g p r"
proof -
  have "(\<forall>l. reports g (body l)) \<longrightarrow> reported g p r" if "loop_result body l p = Some r"
  proof (rule loop_result.raw_induct [OF _ that, where P = "\<lambda>body l p r. (\<forall>l. reports g (body l)) \<longrightarrow> reported g p r"], intro impI)
    fix loop :: "('l \<Rightarrow> (('h, 'z) yaml_reader_scheme, 'l + 'b) prog) \<Rightarrow> 'l \<Rightarrow> ('h, 'z) yaml_reader_scheme \<Rightarrow> (('h, 'z) yaml_reader_scheme, 'b) result option"
      and body l p r
    assume IH: "\<And>body l p r. loop body l p = Some r \<Longrightarrow> (\<forall>l. reports g (body l)) \<longrightarrow> reported g p r" and body: "\<forall>l. reports g (body l)"
      and run: "(case body l p of
        Return r s' \<Rightarrow> (case r of Inl l' \<Rightarrow> loop body l' s' | Inr b \<Rightarrow> Some (Return b s'))
      | Error s' \<Rightarrow> Some (Error s')
      | Fault \<Rightarrow> Some Fault) = Some r"
    note step = reportsD [OF body [THEN spec], of l p]
    show "reported g p r"
    proof (cases "body l p")
      case (Return x q)
      with step have q: "g \<Longrightarrow> spent (p_mem p) (p_mem q)" by auto
      show ?thesis
      proof (cases x)
        case (Inl l')
        with run Return have "loop body l' q = Some r" by simp
        with IH body have "reported g q r" by blast
        with q show ?thesis by (blast intro: reported_trans)
      qed (use run Return q in auto)
    qed (use step run in auto)
  qed
  with assms show ?thesis by blast
qed

lemma reports_loopM [sets_error_rules]: "(\<And>l. reports g (body l)) \<Longrightarrow> reports g (loopM body l)"
  by (auto simp: reports_def [of g "loopM body l"] loopM_def intro: loop_result_reported split: option.split)

lemma reports_stringM [sets_error_rules]: "spends snd m \<Longrightarrow> reports g (stringM m s)"
  by (auto simp: reports_def reported_def stringM_def split: result.splits dest: spendsD)

lemma reports_on_tokens [sets_error_rules]: "spends snd m \<Longrightarrow> reports g (on_tokens m)"
  by (auto simp: reports_def reported_def on_tokens_def split: result.splits dest: spendsD)

lemma outcomes_token [simp]: "outcomes (yaml_token_delete t h) = outcomes h"
  by (simp add: yaml_token_delete_def split: yaml_token_data.split)

lemma reports_case_sum [sets_error_rules]:
  "(\<And>x. reports g (f x)) \<Longrightarrow> (\<And>y. reports g (h y)) \<Longrightarrow> reports g (case z of Inl x \<Rightarrow> f x | Inr y \<Rightarrow> h y)"
  by (cases z) simp_all

lemma reports_with_string [sets_error_rules]: "(\<And>s. reports g (m s)) \<Longrightarrow> reports g (with_string m)"
  unfolding with_string_def by (intro sets_error_rules spends_rules) simp_all

lemma reports_with_parts [sets_error_rules]: "(\<And>t. reports g (m t)) \<Longrightarrow> reports g (with_parts n m)"
  unfolding with_parts_def by (intro sets_error_rules)

subsection \<open>The macros\<close>

lemma reports_update_buffer [sets_error_rules]:
  "reports g (yaml_parser_update_buffer n :: (('h, 'z) yaml_reader_scheme, unit) prog)"
proof -
  have "reported g p (yaml_parser_update_buffer n p)" for p :: "('h, 'z) yaml_reader_scheme"
  proof (cases "yaml_parser_update_buffer n p")
    case (Return a q)
    then have "p_mem q = p_mem p" using reader_frameD(1) [OF reader_frame_update_buffer Return] by (simp add: frame_part_def)
    with Return show ?thesis by (simp add: spent_same)
  next
    case (Error q)
    then have "p_mem q = p_mem p \<and> p_error q = YAML_READER_ERROR"
      using reader_frameD(2) [OF reader_frame_update_buffer Error] by (simp add: frame_part_def)
    with Error show ?thesis by (simp add: spent_same)
  qed simp
  then show ?thesis by (simp add: reports_def)
qed

lemma reports_macros [sets_error_rules]:
  "reports g (CACHE n)" "reports g (lookM n f)" "reports g (advance n k move)" "reports g (yaml_parser_set_scanner_error c m x)"
  unfolding CACHE_def lookM_def advance_def yaml_parser_set_scanner_error_def by (intro sets_error_rules; simp)+

lemma reports_lookingM [sets_error_rules]: "(\<And>b. reports g (m b)) \<Longrightarrow> reports g (lookingM n m)"
  unfolding lookingM_def by (intro sets_error_rules)

lemma reports_SKIP [sets_error_rules]: "reports g SKIP" "reports g SKIP_LINE"
  unfolding SKIP_def SKIP_LINE_def by (intro sets_error_rules)+

lemma reports_strings [sets_error_rules]: "reports g (put bs s)" "reports g (extend_string s)" "reports g (JOIN a b)"
  unfolding put_def extend_string_def JOIN_def by (intro sets_error_rules spends_rules)+

lemma reports_READ [sets_error_rules]: "reports g (READ s)" "reports g (READ_LINE s)"
  unfolding READ_def READ_LINE_def by (intro sets_error_rules)+

lemma reports_whiles [sets_error_rules]: "reports g (skip_while P)" "reports g (read_while P s)" "reports g skip_comment"
proof -
  show s: "reports g (skip_while P)" for P unfolding skip_while_def by (intro sets_error_rules)
  show "reports g (read_while P s)" unfolding read_while_def by (intro sets_error_rules)
  show "reports g skip_comment" unfolding skip_comment_def by (intro s sets_error_rules)
qed

lemma reports_skip_n [sets_error_rules]: "reports g (skip_n n)"
  unfolding skip_n_def by (induction n) (auto intro!: sets_error_rules)

text \<open>The one place where a failure may leave no error.\<close>

lemma reports_malloc_unset [sets_error_rules]: "reports True (malloc_unset n)"
  by (auto simp: reports_def reported_def malloc_unset_def yaml_malloc_def malloc_def prog_defs
      split: result.splits prod.splits if_splits dest!: spent_next)

subsection \<open>Keys, indentation and tokens without a value\<close>

lemma reports_tokens [sets_error_rules]:
  "reports g (enqueue_token t)" "reports g (enqueue_or_delete t)" "reports g (push_indent i)" "reports g (push_simple_key k)"
  "reports g (indicator_token n d)"
proof -
  show t: "reports g (enqueue_token t)" for t unfolding enqueue_token_def by (intro sets_error_rules spends_rules)
  show "reports g (enqueue_or_delete t)" unfolding enqueue_or_delete_def by (intro t sets_error_rules) simp
  show "reports g (push_indent i)" "reports g (push_simple_key k)"
    unfolding push_indent_def push_simple_key_def by (intro sets_error_rules; simp)+
  show "reports g (indicator_token n d)" unfolding indicator_token_def by (intro t sets_error_rules)
qed

lemma reports_keys [sets_error_rules]:
  "reports g (set_simple_keys ks)" "reports g (missing_value k)" "reports g yaml_parser_stale_simple_keys" "reports g top_simple_key"
  "reports g (set_top_simple_key k)" "reports g yaml_parser_remove_simple_key" "reports g yaml_parser_save_simple_key"
  "reports g yaml_parser_increase_flow_level" "reports g yaml_parser_decrease_flow_level"
  unfolding set_simple_keys_def missing_value_def yaml_parser_stale_simple_keys_def top_simple_key_def set_top_simple_key_def
    yaml_parser_remove_simple_key_def yaml_parser_save_simple_key_def yaml_parser_increase_flow_level_def
    yaml_parser_decrease_flow_level_def Let_def
  by (intro sets_error_rules; simp)+

lemma reports_indentation [sets_error_rules]:
  "reports g (yaml_parser_roll_indent c n d m)" "reports g (yaml_parser_unroll_indent c)" "reports g (open_block x d)"
  unfolding yaml_parser_roll_indent_def yaml_parser_unroll_indent_def open_block_def
  by (intro sets_error_rules spends_rules; simp)+

lemma reports_insert_key [sets_error_rules]: "reports g (insert_key k)"
  unfolding insert_key_def by (intro sets_error_rules spends_rules; simp)+

lemma reports_fetch_indicators [sets_error_rules]:
  "reports g yaml_parser_fetch_stream_start" "reports g yaml_parser_fetch_stream_end" "reports g (yaml_parser_fetch_document_indicator d)"
  "reports g (yaml_parser_fetch_flow_collection_start d)" "reports g (yaml_parser_fetch_flow_collection_end d)"
  "reports g yaml_parser_fetch_flow_entry" "reports g yaml_parser_fetch_block_entry" "reports g yaml_parser_fetch_key" "reports g yaml_parser_fetch_value"
  unfolding yaml_parser_fetch_stream_start_def yaml_parser_fetch_stream_end_def yaml_parser_fetch_document_indicator_def
    yaml_parser_fetch_flow_collection_start_def yaml_parser_fetch_flow_collection_end_def yaml_parser_fetch_flow_entry_def
    yaml_parser_fetch_block_entry_def yaml_parser_fetch_key_def yaml_parser_fetch_value_def
  by (intro sets_error_rules; simp)+

lemma reports_to_next_token [sets_error_rules]: "reports g yaml_parser_scan_to_next_token" "reports g (skip_rest_of_line c m)"
  unfolding yaml_parser_scan_to_next_token_def skip_bom_def skip_rest_of_line_def by (intro sets_error_rules; simp)+

subsection \<open>Directives, anchors and tags\<close>

lemma reports_directive_parts [sets_error_rules]:
  "reports g (yaml_parser_scan_directive_name m)" "reports g (yaml_parser_scan_version_directive_number m)"
  "reports g (yaml_parser_scan_tag_handle b m)" "reports g (yaml_parser_scan_uri_escapes b m s)"
  unfolding yaml_parser_scan_directive_name_def yaml_parser_scan_version_directive_number_def yaml_parser_scan_tag_handle_def
    yaml_parser_scan_uri_escapes_def Let_def
  by (intro sets_error_rules)+

lemma reports_version_value [sets_error_rules]: "reports g (yaml_parser_scan_version_directive_value m)"
  unfolding yaml_parser_scan_version_directive_value_def by (intro sets_error_rules)

lemma reports_tag_uri [sets_error_rules]: "reports g (yaml_parser_scan_tag_uri u d h m)"
  unfolding yaml_parser_scan_tag_uri_def Let_def by (intro sets_error_rules spends_rules)

lemma reports_directive_value [sets_error_rules]:
  "reports g (yaml_parser_scan_tag_directive_value m)" "reports g (directive_value n m)"
proof -
  show t: "reports g (yaml_parser_scan_tag_directive_value m)" for m
    unfolding yaml_parser_scan_tag_directive_value_def by (intro sets_error_rules) simp_all
  show "reports g (directive_value n m)" unfolding directive_value_def by (intro t sets_error_rules)
qed

lemma reports_scan_directive [sets_error_rules]: "reports g yaml_parser_scan_directive" "reports g (yaml_parser_scan_anchor b)"
  unfolding yaml_parser_scan_directive_def yaml_parser_scan_anchor_def Let_def by (intro sets_error_rules; simp)+

lemma reports_tag_forms [sets_error_rules]: "reports True (scan_verbatim_tag m)" "reports True (scan_short_tag m)"
  unfolding scan_verbatim_tag_def scan_short_tag_def by (intro sets_error_rules; simp)+

lemma reports_scan_tag [sets_error_rules]: "reports True yaml_parser_scan_tag"
  unfolding yaml_parser_scan_tag_def Let_def by (intro sets_error_rules; simp)

subsection \<open>Scalars\<close>

lemma reports_block_parts [sets_error_rules]:
  "reports g (scan_block_header m)" "reports g (yaml_parser_scan_block_scalar_breaks i b m)"
  unfolding scan_block_header_def scan_chomping_def scan_increment_def yaml_parser_scan_block_scalar_breaks_def block_breaks_def
    indentation_space_def Let_def
  by (intro sets_error_rules)+

lemma reports_parts [sets_error_rules]:
  "reports g (join_leading t)" "reports g (join_trailing t)" "reports g (append_space t)" "reports g (fold_breaks t)" "reports g (join_spaces t)"
  unfolding join_leading_def join_trailing_def append_space_def fold_breaks_def join_spaces_def by (intro sets_error_rules)+

lemma reports_block_scalar [sets_error_rules]: "reports g (yaml_parser_scan_block_scalar b)"
  unfolding yaml_parser_scan_block_scalar_def block_lines_def block_line_def Let_def
  by (intro sets_error_rules) (simp_all add: freeP_def)

lemma reports_scan_blanks [sets_error_rules]: "(\<And>b s. reports g (f b s)) \<Longrightarrow> reports g (scan_blanks f l)"
  unfolding scan_blanks_def by (intro sets_error_rules)

lemma reports_quoted_parts [sets_error_rules]: "reports g (flow_chars b m s)" "reports g at_document_indicator"
  unfolding flow_chars_def scan_escape_def scan_escape_code_def at_document_indicator_def Let_def by (intro sets_error_rules)+

lemma reports_flow_scalar [sets_error_rules]: "reports g (yaml_parser_scan_flow_scalar b)"
  unfolding yaml_parser_scan_flow_scalar_def flow_line_def Let_def by (intro sets_error_rules) (simp_all add: freeP_def)

lemma reports_plain_chars [sets_error_rules]: "reports g (plain_chars m l)" "reports g (forbid_tab i m b s)"
  unfolding plain_chars_def forbid_tab_def by (intro sets_error_rules)+

lemma reports_plain_scalar [sets_error_rules]: "reports g yaml_parser_scan_plain_scalar"
  unfolding yaml_parser_scan_plain_scalar_def plain_line_def Let_def by (intro sets_error_rules) (simp_all add: freeP_def)

subsection \<open>The scanner and the parser on it\<close>

lemma reports_fetchers [sets_error_rules]:
  "reports g yaml_parser_fetch_directive" "reports g (yaml_parser_fetch_anchor b)" "reports True yaml_parser_fetch_tag"
  "reports g (yaml_parser_fetch_block_scalar b)" "reports g (yaml_parser_fetch_flow_scalar b)" "reports g yaml_parser_fetch_plain_scalar"
  unfolding yaml_parser_fetch_directive_def yaml_parser_fetch_anchor_def yaml_parser_fetch_tag_def yaml_parser_fetch_block_scalar_def
    yaml_parser_fetch_flow_scalar_def yaml_parser_fetch_plain_scalar_def
  by (intro sets_error_rules; simp)+

lemma reports_dispatch [sets_error_rules]: "reports True (dispatch b c f)"
  unfolding dispatch_def by (intro sets_error_rules)

lemma reports_fetch_more_tokens [sets_error_rules]: "reports True yaml_parser_fetch_more_tokens"
  unfolding yaml_parser_fetch_more_tokens_def yaml_parser_fetch_next_token_def by (intro sets_error_rules) simp_all

lemma reports_dequeue [sets_error_rules]: "(\<And>q p. p_mem (upd q p) = p_mem p) \<Longrightarrow> reports g (zoomM get upd DEQUEUE)"
  by (auto simp: reports_def reported_def zoomM_def DEQUEUE_def spent_same split: result.splits if_splits list.splits)

lemma reports_scan: "reports True yaml_parser_scan"
  unfolding yaml_parser_scan_def by (intro sets_error_rules) simp_all

lemma reports_parse: "reports True (yaml_parser_parse yaml_parser_fetch_more_tokens)"
  by (intro parse_reports sets_error_rules)

end
