(* ===== verification/Scanner_Props.thy ===== *)
theory Scanner_Props
  imports Scanner_Runs Scanner_Errors "HOL-Library.Code_Target_Nat"
begin

text \<open>
  Properties of the scanner: the invariant that every fetch preserves, the reports of its failures and of the parser's, the
  limit on simple keys, the numbers of a version directive.
\<close>

lemma AS_DIGIT_bounds: "IS_DIGIT_AT s k \<Longrightarrow> 0 \<le> AS_DIGIT_AT s k \<and> AS_DIGIT_AT s k \<le> 9"
  by (auto simp: IS_DIGIT_AT_def AS_DIGIT_AT_def word_le_def)

lemma next_digit:
  assumes "0 \<le> v" "v < 10 ^ n" "IS_DIGIT_AT s k"
  shows "0 \<le> v * 10 + AS_DIGIT_AT s k \<and> v * 10 + AS_DIGIT_AT s k < (10 :: int) ^ (n + 1)"
  using assms AS_DIGIT_bounds [OF assms(3)] by simp

definition number_state :: "int \<times> nat \<Rightarrow> nat \<Rightarrow> 32 word list \<Rightarrow> bool" where
  "number_state l b cs \<longleftrightarrow> avail 1 cs \<and> 0 \<le> fst l \<and> fst l < 10 ^ snd l \<and> snd l \<le> 9"

context byte_source
begin

lemma wp_version_number_round:
  fixes p :: "('h, 'z) yaml_scanner_scheme"
  assumes v: "view p0 k b cs p" and J: "number_state (n, j) b cs"
    and R: "0 \<le> n \<Longrightarrow> n < 10 ^ j \<Longrightarrow> j \<le> 9 \<Longrightarrow> R (n, j) p"
  shows "wp (bindM (lookM 1 (\<lambda>b. (IS_DIGIT_AT b 0, AS_DIGIT_AT b 0))) (\<lambda>(isdigit, d).
        if isdigit then
          (if j + 1 > MAX_NUMBER_LENGTH
           then yaml_parser_set_scanner_error ''while scanning a %YAML directive'' m ''found extremely long version number''
           else seqM SKIP (seqM (CACHE 1) (againM (n * 10 + d, j + 1))))
        else breakM (n, j))) (looping p0 k number_state b R) (\<lambda>_. True) p"
  unfolding wp_bindM
proof (rule wp_lookM [OF v], unfold prod.case)
  show "avail 1 cs" using J by (simp add: number_state_def)
  show "wp (if IS_DIGIT_AT (enc cs) 0 then
          (if j + 1 > MAX_NUMBER_LENGTH
           then yaml_parser_set_scanner_error ''while scanning a %YAML directive'' m ''found extremely long version number''
           else seqM SKIP (seqM (CACHE 1) (againM (n * 10 + AS_DIGIT_AT (enc cs) 0, j + 1))))
        else breakM (n, j)) (looping p0 k number_state b R) (\<lambda>_. True) p"
  proof (intro wp_choiceI)
    show "wp (breakM (n, j)) (looping p0 k number_state b R) (\<lambda>_. True) p"
      unfolding wp_returnM by (rule breakI) (use J R in \<open>simp add: number_state_def\<close>)
    show "wp (yaml_parser_set_scanner_error ''while scanning a %YAML directive'' m ''found extremely long version number'')
        (looping p0 k number_state b R) (\<lambda>_. True) p" by (rule wp_scanner_error [OF v]) simp
    assume d: "IS_DIGIT_AT (enc cs) 0" and j: "\<not> j + 1 > MAX_NUMBER_LENGTH"
    have n: "0 \<le> n * 10 + AS_DIGIT_AT (enc cs) 0 \<and> n * 10 + AS_DIGIT_AT (enc cs) 0 < 10 ^ (j + 1)"
      by (rule next_digit) (use J d in \<open>simp_all add: number_state_def\<close>)
    show "wp (seqM SKIP (seqM (CACHE 1) (againM (n * 10 + AS_DIGIT_AT (enc cs) 0, j + 1)))) (looping p0 k number_state b R) (\<lambda>_. True) p"
      unfolding wp_seqM
    proof (rule wp_SKIP [OF v octet_nonzero(7) [OF d]], rule wp_CACHE)
      fix p1 cs2 and p2 :: "('h, 'z) yaml_scanner_scheme"
      assume p2: "0 < b" "view p0 k (b - 1) (tl cs @ cs2) p2" "avail 1 (tl cs @ cs2)"
      show "wp (againM (n * 10 + AS_DIGIT_AT (enc cs) 0, j + 1)) (looping p0 k number_state b R) (\<lambda>_. True) p2"
        unfolding wp_returnM
        by (rule againI [OF p2(2)]) (use p2(1,3) n j in \<open>simp_all add: number_state_def MAX_NUMBER_LENGTH_def\<close>)
    qed simp_all
  qed
qed

lemma wp_version_number_value:
  fixes p :: "('h, 'z) yaml_scanner_scheme"
  assumes v: "view p0 k b cs p"
  shows "wp (yaml_parser_scan_version_directive_number m) (\<lambda>v _. 0 \<le> v \<and> v < 10 ^ 9) (\<lambda>_. True) p"
  unfolding yaml_parser_scan_version_directive_number_def wp_seqM
proof (rule wp_CACHE [OF v])
  fix cs' and q :: "('h, 'z) yaml_scanner_scheme"
  assume q: "view p0 k b (cs @ cs') q" "avail 1 (cs @ cs')"
  let ?Q = "\<lambda>l. wp (case l of (v, n) \<Rightarrow> if n = 0 then yaml_parser_set_scanner_error ''while scanning a %YAML directive'' m
      ''did not find expected version number'' else returnM v) (\<lambda>v _. 0 \<le> v \<and> v < 10 ^ 9) (\<lambda>_. True)"
  have fin: "?Q (n, j) r" if "0 \<le> n" "n < 10 ^ j" "j \<le> 9" for n :: int and j and r :: "('h, 'z) yaml_scanner_scheme"
  proof -
    have "(10 :: int) ^ j \<le> 10 ^ 9" using that(3) by (intro power_increasing) simp_all
    with that show ?thesis by (simp add: yaml_parser_set_scanner_error_def wp_errorM wp_returnM)
  qed
  show "wp (bindM (loopM (\<lambda>(v, n). bindM (lookM 1 (\<lambda>b. (IS_DIGIT_AT b 0, AS_DIGIT_AT b 0))) (\<lambda>(isdigit, d).
        if isdigit then
          (if n + 1 > MAX_NUMBER_LENGTH
           then yaml_parser_set_scanner_error ''while scanning a %YAML directive'' m ''found extremely long version number''
           else seqM SKIP (seqM (CACHE 1) (againM (v * 10 + d, n + 1))))
        else breakM (v, n))) (0, 0)) (\<lambda>(v, n).
     if n = 0 then yaml_parser_set_scanner_error ''while scanning a %YAML directive'' m ''did not find expected version number''
     else returnM v)) (\<lambda>v _. 0 \<le> v \<and> v < 10 ^ 9) (\<lambda>_. True) q"
    unfolding wp_bindM
  proof (rule wp_scan_loop [where J = number_state, OF q(1)])
    show "number_state (0, 0) b (cs @ cs')" using q(2) by (simp add: number_state_def)
    fix l b2 cs2 and r :: "('h, 'z) yaml_scanner_scheme"
    assume r: "view p0 k b2 cs2 r" "number_state l b2 cs2"
    obtain n j where l: "l = (n, j)" by (cases l)
    show "wp (case l of (v, n) \<Rightarrow> bindM (lookM 1 (\<lambda>b. (IS_DIGIT_AT b 0, AS_DIGIT_AT b 0))) (\<lambda>(isdigit, d).
        if isdigit then
          (if n + 1 > MAX_NUMBER_LENGTH
           then yaml_parser_set_scanner_error ''while scanning a %YAML directive'' m ''found extremely long version number''
           else seqM SKIP (seqM (CACHE 1) (againM (v * 10 + d, n + 1))))
        else breakM (v, n))) (looping p0 k number_state b2 ?Q) (\<lambda>_. True) r"
      unfolding l prod.case using fin by (intro wp_version_number_round [OF r(1) r(2) [unfolded l]]) auto
  qed
qed simp_all

end

subsection \<open>Properties\<close>

text \<open>C23: The state of the scanner is well formed after every fetch that succeeds, whatever read handler the parser has, as
  long as the handler meets the contract \<open>byte_source\<close> (it gives some of the bytes to come, or none at their end): there is
  one simple key more than there are open flow collections; the indentation levels end at -1; a key that is possible has
  its place in the queue between the first token and the end and lies before the current position, and not at the head of
  the queue, whose token is thus final; the queue is not empty, and \<open>STREAM-END\<close> can only be its last token.  A fetch that
  fails loses no block either.\<close>

theorem fetch_keeps_scanner_state:
  fixes p :: "'h yaml_parser"
  assumes src: "byte_source handler pending src_ok"
    and p: "byte_source.scanner_inv handler pending src_ok p" "\<not> p_token_available p" "p_error p = YAML_NO_ERROR" "\<not> p_stream_end_produced p"
  shows "wp yaml_parser_fetch_more_tokens
     (\<lambda>_ p'. byte_source.scanner_inv handler pending src_ok p' \<and> p_token_available p' \<and> items (p_tokens p') \<noteq> [] \<and> balance p' = balance p
        \<and> p_flow_level p' + 1 = int (length (simple_keys p')) \<and> hd (elems (p_indents p') @ [p_indent p']) = -1
        \<and> (\<forall>k\<in>set (simple_keys p'). sk_possible k \<longrightarrow> mark_before (sk_mark k) (p_mark p')
              \<and> p_tokens_parsed p' < sk_token_number k \<and> sk_token_number k \<le> p_tokens_parsed p' + length (items (p_tokens p')))
        \<and> (\<forall>ts t us. items (p_tokens p') = ts @ t # us \<and> t_type t = YAML_STREAM_END_TOKEN \<longrightarrow> us = []))
     (\<lambda>p'. p_error p' \<noteq> YAML_COMPOSER_ERROR \<and> balance p' = balance p) p"
proof (rule byte_source.wp_fetch_more_tokens [OF src p])
  have c: "containers_ok p" using p(1) by (simp add: byte_source.scanner_inv_def [OF src])
  fix q :: "'h yaml_parser"
  assume "byte_source.settled handler pending src_ok p q"
  note s = byte_source.settled_scanner [OF src this]
  let ?q = "q\<lparr>p_token_available := True\<rparr>"
  have "balance ?q = balance p" using byte_source.balance_surplus [OF src s(7,8) c s(9)] by (simp add: balance_def parser_blocks_def)
  moreover have i: "shape ?q" "\<forall>k\<in>set (simple_keys ?q). key_ok True ?q k" "\<not> need_more_tokens ?q" "no_end ?q \<or> closing ?q"
    using s(1,5,6) p(4) by (simp_all add: byte_source.scanner_inv_def [OF src])
  moreover have "p_tokens_parsed ?q < sk_token_number k" if k: "k \<in> set (simple_keys ?q)" "sk_possible k" for k
  proof -
    have "p_tokens_parsed ?q \<le> sk_token_number k" using i(2) k by (simp add: key_ok_def)
    moreover have "sk_token_number k \<noteq> p_tokens_parsed ?q" using i(3) k unfolding need_more_tokens_def by blast
    ultimately show ?thesis by simp
  qed
  moreover have "us = []" if it: "items (p_tokens ?q) = ts @ t # us" "t_type t = YAML_STREAM_END_TOKEN" for ts t us
  proof -
    have "\<not> no_end ?q" using it by (simp add: no_end_def)
    with i(4) obtain vs v where "items (p_tokens ?q) = vs @ [v]" "YAML_STREAM_END_TOKEN \<notin> t_type ` set vs" by (auto simp: closing_def)
    with it show ?thesis by (cases us rule: rev_cases) auto
  qed
  ultimately show "byte_source.scanner_inv handler pending src_ok ?q \<and> p_token_available ?q \<and> items (p_tokens ?q) \<noteq> [] \<and> balance ?q = balance p
        \<and> p_flow_level ?q + 1 = int (length (simple_keys ?q)) \<and> hd (elems (p_indents ?q) @ [p_indent ?q]) = -1
        \<and> (\<forall>k\<in>set (simple_keys ?q). sk_possible k \<longrightarrow> mark_before (sk_mark k) (p_mark ?q)
              \<and> p_tokens_parsed ?q < sk_token_number k \<and> sk_token_number k \<le> p_tokens_parsed ?q + length (items (p_tokens ?q)))
        \<and> (\<forall>ts t us. items (p_tokens ?q) = ts @ t # us \<and> t_type t = YAML_STREAM_END_TOKEN \<longrightarrow> us = [])"
    using s(1,3) by (auto simp: shape_def key_ok_def)
next
  fix q :: "'h yaml_parser"
  assume b: "broken p 0 q"
  have c: "containers_ok p" using p(1) by (simp add: byte_source.scanner_inv_def [OF src])
  show "p_error q \<noteq> YAML_COMPOSER_ERROR \<and> balance q = balance p"
    using b byte_source.balance_surplus [OF src _ _ c, of q] by (simp add: broken_def)
qed

definition sample_file :: c_file where
  "sample_file = \<lparr>f_rest = [0x7B, 0x61, 0x3A, 0x62, 0x7D], f_fails_in = None, f_error = False\<rparr>"

theorem fetch_keeps_scanner_state_witness:
  "\<exists>p. parser_on_file YAML_ANY_ENCODING sample_file (blank_parser sample_file) = Return () p
     \<and> wp yaml_parser_fetch_more_tokens (\<lambda>_ p'. p_token_available p' \<and> items (p_tokens p') \<noteq> []) (\<lambda>_. True) p"
proof -
  obtain p where p: "parser_on_file YAML_ANY_ENCODING sample_file (blank_parser sample_file) = Return () p" using on_file_returns by blast
  have "file_ok sample_file" by (simp add: sample_file_def file_ok_def)
  from on_file_ready [OF p this] have r: "file_src.scanner_inv p" "\<not> p_token_available p" "p_error p = YAML_NO_ERROR" "\<not> p_stream_end_produced p"
    by (simp_all add: fresh_parser_def)
  have "wp yaml_parser_fetch_more_tokens (\<lambda>_ p'. p_token_available p' \<and> items (p_tokens p') \<noteq> []) (\<lambda>_. True) p"
    by (rule wp_mono [OF fetch_keeps_scanner_state [OF file_src.byte_source_axioms r]]) simp_all
  with p show ?thesis by blast
qed

text \<open>C6: Failures are reported, in whatever state the parser is and whatever its read handler does: a call of
  \<open>yaml_parser_parse\<close> or \<open>yaml_parser_scan\<close> that returns 0 has set the error, or an allocation was refused during the call
  (\<open>yaml_parser_scan_tag\<close> sets no error where its own allocations fail).  If no allocation is refused, every failure has
  set the error.\<close>

theorem parse_failure_reported:
  fixes p :: "'h yaml_parser"
  assumes "yaml_parser_parse yaml_parser_fetch_more_tokens p = Error p' \<or> yaml_parser_scan p = Error p'"
  shows "(p_error p' = YAML_NO_ERROR \<longrightarrow> refused (p_mem p) (p_mem p'))
    \<and> (False \<notin> set (outcomes (p_mem p)) \<longrightarrow> p_error p' \<noteq> YAML_NO_ERROR)"
proof -
  have "p_error p' = YAML_NO_ERROR \<longrightarrow> refused (p_mem p) (p_mem p')"
    using assms reportsD [OF reports_parse, of p] reportsD [OF reports_scan, of p] by (auto simp: reported_def)
  then show ?thesis by (auto simp: refused_def)
qed

definition bad_text_run :: "(string_input yaml_parser \<times> string_input yaml_parser) option" where
  "bad_text_run = (case parser_on_string YAML_UTF8_ENCODING [0x40] (blank_parser no_input) of
     Return _ p \<Rightarrow> (case yaml_parser_parse yaml_parser_fetch_more_tokens p of
        Return _ q \<Rightarrow> (case yaml_parser_parse yaml_parser_fetch_more_tokens q of Error q' \<Rightarrow> Some (q, q') | _ \<Rightarrow> None)
      | _ \<Rightarrow> None) | _ \<Rightarrow> None)"

lemma bad_text_run: "map_option (\<lambda>(q, q'). outcomes (p_mem q)) bad_text_run = Some []"
  by code_simp

theorem parse_failure_reported_witness:
  "\<exists>q q'. yaml_parser_parse yaml_parser_fetch_more_tokens (q :: string_input yaml_parser) = Error q' \<and> p_error q' \<noteq> YAML_NO_ERROR"
proof -
  obtain q q' where run: "bad_text_run = Some (q, q')" "outcomes (p_mem q) = []" using bad_text_run by auto
  then have "yaml_parser_parse yaml_parser_fetch_more_tokens q = Error q'"
    by (auto simp: bad_text_run_def split: result.splits)
  with parse_failure_reported [of q q'] run(2) show ?thesis by auto
qed

text \<open>C24: The limit on simple keys: after \<open>yaml_parser_stale_simple_keys\<close> every key that is still possible was possible before,
  began on the current line and at most 1024 characters back (exactly 1024 back is still in reach, where the comment in
  the source asks for less than 1024); the other keys only lost their \<open>possible\<close> flag.  The call fails exactly if a key that
  is required has become stale, and the error names the position of such a key.\<close>

theorem stale_keys_limit:
  fixes p :: "('h, 'z) yaml_scanner_scheme"
  shows "wp yaml_parser_stale_simple_keys
     (\<lambda>_ p'. (\<forall>k\<in>set (simple_keys p). sk_possible k \<and> sk_required k \<longrightarrow> \<not> stale (p_mark p) k)
        \<and> length (simple_keys p') = length (simple_keys p)
        \<and> (\<forall>i<length (simple_keys p). simple_keys p' ! i = (simple_keys p ! i)\<lparr>sk_possible := sk_possible (simple_keys p' ! i)\<rparr>
             \<and> (sk_possible (simple_keys p' ! i) \<longleftrightarrow> sk_possible (simple_keys p ! i)
                  \<and> mark_line (p_mark p) \<le> mark_line (sk_mark (simple_keys p ! i))
                  \<and> mark_index (p_mark p) \<le> mark_index (sk_mark (simple_keys p ! i)) + 1024)))
     (\<lambda>p'. p_error p' = YAML_SCANNER_ERROR
        \<and> (\<exists>k\<in>set (simple_keys p). sk_possible k \<and> sk_required k \<and> p_context_mark p' = sk_mark k
             \<and> (mark_line (sk_mark k) < mark_line (p_mark p) \<or> mark_index (sk_mark k) + 1024 < mark_index (p_mark p)))) p" (is "wp _ ?Q ?E p")
proof -
  let ?fatal = "\<lambda>k. stale (p_mark p) k \<and> sk_required k"
  let ?fine = "List.map (\<lambda>k. if stale (p_mark p) k then k\<lparr>sk_possible := False\<rparr> else k) (takeWhile (\<lambda>k. \<not> ?fatal k) (simple_keys p))"
  let ?rest = "dropWhile (\<lambda>k. \<not> ?fatal k) (simple_keys p)"
  have "wp (seqM (set_simple_keys (?fine @ ?rest)) (case ?rest of [] \<Rightarrow> returnM () | k # _ \<Rightarrow> missing_value k)) ?Q ?E p"
  proof (cases ?rest)
    case Nil
    then have all: "takeWhile (\<lambda>k. \<not> ?fatal k) (simple_keys p) = simple_keys p" "\<forall>k\<in>set (simple_keys p). \<not> ?fatal k"
      by (simp_all only: takeWhile_eq_all_conv dropWhile_eq_Nil_conv)
    show ?thesis unfolding Nil wp_seqM set_simple_keys_def wp_modifyM list.case wp_returnM append_Nil2 all(1)
      using all(2) by (auto simp: stale_def)
  next
    case (Cons k ks)
    then have "k \<in> set (simple_keys p)" "?fatal k"
      using hd_dropWhile [of "\<lambda>k. \<not> ?fatal k" "simple_keys p"] set_dropWhileD [of k "\<lambda>k. \<not> ?fatal k" "simple_keys p"] by auto
    then show ?thesis unfolding Cons wp_seqM set_simple_keys_def wp_modifyM list.case missing_value_def yaml_parser_set_scanner_error_def wp_errorM
      by (auto simp: stale_def)
  qed
  then show ?thesis unfolding yaml_parser_stale_simple_keys_def wp_readM Let_def .
qed

definition two_keys :: "string_input yaml_parser" where
  "two_keys = (blank_parser no_input)\<lparr>p_mark := \<lparr>mark_index = 1034, mark_line = 0, mark_column = 1034\<rparr>,
     p_simple_keys := \<lparr>elems = map (\<lambda>i. \<lparr>sk_possible = True, sk_required = False, sk_token_number = 1,
       sk_mark = \<lparr>mark_index = i, mark_line = 0, mark_column = i\<rparr>\<rparr>) [9, 10], cap = 16, esz = sizeof_simple_key\<rparr>\<rparr>"

theorem stale_keys_limit_witness:
  "wp yaml_parser_stale_simple_keys
     (\<lambda>_ p'. \<not> sk_possible (simple_keys p' ! 0) \<and> sk_possible (simple_keys p' ! 1)) (\<lambda>_. False) two_keys"
proof (rule wp_mono [OF stale_keys_limit])
  have n: "length (simple_keys two_keys) = 2" by (simp add: two_keys_def)
  fix p' :: "string_input yaml_parser"
  assume "(\<forall>k\<in>set (simple_keys two_keys). sk_possible k \<and> sk_required k \<longrightarrow> \<not> stale (p_mark two_keys) k)
        \<and> length (simple_keys p') = length (simple_keys two_keys)
        \<and> (\<forall>i<length (simple_keys two_keys). simple_keys p' ! i = (simple_keys two_keys ! i)\<lparr>sk_possible := sk_possible (simple_keys p' ! i)\<rparr>
             \<and> (sk_possible (simple_keys p' ! i) \<longleftrightarrow> sk_possible (simple_keys two_keys ! i)
                  \<and> mark_line (p_mark two_keys) \<le> mark_line (sk_mark (simple_keys two_keys ! i))
                  \<and> mark_index (p_mark two_keys) \<le> mark_index (sk_mark (simple_keys two_keys ! i)) + 1024))"
  then have "sk_possible (simple_keys p' ! i) \<longleftrightarrow> sk_possible (simple_keys two_keys ! i)
                  \<and> mark_line (p_mark two_keys) \<le> mark_line (sk_mark (simple_keys two_keys ! i))
                  \<and> mark_index (p_mark two_keys) \<le> mark_index (sk_mark (simple_keys two_keys ! i)) + 1024" if "i < 2" for i
    using that unfolding n by blast
  from this [of 0] this [of 1] show "\<not> sk_possible (simple_keys p' ! 0) \<and> sk_possible (simple_keys p' ! 1)"
    by (simp add: two_keys_def)
qed (simp add: two_keys_def)

text \<open>C25: The numbers of a \<open>%YAML\<close> directive fit an \<open>int\<close>: whatever digits the input holds, the scanner either reports an
  error or yields a number of at most nine digits, so that \<open>value*10 + digit\<close> never overflows.\<close>

theorem version_number_bound:
  fixes p :: "string_input yaml_parser"
  assumes "string_src.scanner_inv p" "p_error p = YAML_NO_ERROR"
  shows "wp (yaml_parser_scan_version_directive_number m) (\<lambda>v _. 0 \<le> v \<and> v < 10 ^ 9 \<and> v \<le> int INT_MAX) (\<lambda>_. True) p"
proof -
  obtain cs where "string_src.view p 0 (chars_bound string_pending p) cs p"
    using string_src.view_start assms by (auto simp: string_src.scanner_inv_def)
  from string_src.wp_version_number_value [OF this] show ?thesis
    by (rule wp_mono) (simp_all add: INT_MAX_def)
qed

theorem version_number_bound_witness:
  "\<exists>p. parser_on_string YAML_UTF8_ENCODING (replicate 20 0x39) (blank_parser no_input) = Return () p
     \<and> wp (yaml_parser_scan_version_directive_number null_mark) (\<lambda>v _. v < 10 ^ 9) (\<lambda>_. True) p"
proof -
  obtain p where p: "parser_on_string YAML_UTF8_ENCODING (replicate 20 0x39) (blank_parser no_input) = Return () p"
    using on_string_returns by blast
  from on_string_ready [OF p] have r: "string_src.scanner_inv p" "p_error p = YAML_NO_ERROR" by (simp_all add: fresh_parser_def)
  have "wp (yaml_parser_scan_version_directive_number null_mark) (\<lambda>v _. v < 10 ^ 9) (\<lambda>_. True) p"
    by (rule wp_mono [OF version_number_bound [OF r]]) simp_all
  with p show ?thesis by blast
qed

text \<open>Where memory runs out, \<open>yaml_parser_scan_tag\<close> fails without an error in the parser.\<close>

lemma scan_verbatim_tag_error_unset:
  assumes "outcomes (p_mem p) = False # bs" "p_error p = YAML_NO_ERROR"
  shows "\<exists>p'. scan_verbatim_tag m p = Error p' \<and> p_error p' = YAML_NO_ERROR"
  using assms by (simp add: scan_verbatim_tag_def malloc_unset_def prog_defs yaml_malloc_def malloc_def next_outcome.simps)

end
