(* ===== verification/Spec2Isabelle.thy ===== *)
theory Spec2Isabelle
  imports Reader_Correct Writer Document Objects Loader_Runs Dumper_Runs Emitter_Props Scanner_Props
begin

text \<open>
  A model of libyaml, the C library under \<open>src/original/\<close>, and the theorems that make it correct.

  \<^bold>\<open>The program.\<close>  libyaml reads and writes YAML in layers, each a C file with a structure in \<open>include/yaml.h\<close>.
  Reading: the reader (\<open>reader.c\<close>) turns the bytes of a read handler into a buffer of UTF-8 characters; the scanner
  (\<open>scanner.c\<close>) turns characters into a queue of tokens; the parser (\<open>parser.c\<close>) turns tokens into events; the loader
  (\<open>loader.c\<close>) turns the events of a document into a tree.  Writing is the way back: the dumper (\<open>dumper.c\<close>) turns a
  tree into events, the emitter (\<open>emitter.c\<close>) events into text, the writer (\<open>writer.c\<close>) text into the bytes that a
  write handler gets.  \<open>api.c\<close> holds memory management, the growing containers, constructors and destructors of
  objects, tokens, events and documents; \<open>yaml_private.h\<close> holds the macros all of them are written in.

  \<^bold>\<open>How C becomes HOL.\<close>  A C function that returns 1 or 0 is a value of type \<open>('s, 'a) prog\<close> (Prelude): a function of
  the state that yields \<open>Return a s\<close> (returned 1, with its output values), \<open>Error s\<close> (returned 0) or \<open>Fault\<close>, which is
  what C leaves undefined: a NULL or stale pointer, an access out of bounds, a pop of an empty stack, an \<open>assert\<close> that
  fails, a loop that does not end.  A theorem that a weakest precondition \<open>wp m Q E s\<close> holds therefore says that \<open>m\<close>
  returns, without undefined behaviour, in a state that \<open>Q\<close> (after 1) or \<open>E\<close> (after 0) describes.  The structure of the
  state is that of the code: \<open>yaml_parser_t\<close> is the record \<open>yaml_reader\<close>, extended by \<open>yaml_scanner\<close>, \<open>yaml_parser\<close>
  and the loader's fields, so that a function of a lower layer runs on the record of every higher one; in the same way
  \<open>yaml_emitter_t\<close> is \<open>yaml_writer\<close>, extended by \<open>yaml_emitter\<close> and the dumper's fields.  Where a layer calls the one
  below through a narrow interface, the lower layer is an argument of the model (\<open>fetch\<close> of parser
  and loader, \<open>emit\<close> of the dumper) with a contract as a definition, and the theory of the lower layer proves the contract
  for the code's own function.  Read and write handlers, which the caller supplies, are functions with documented
  contracts; the two standard ones, memory and C stream, are modelled and proved to satisfy them.

  Memory (Memory) is a list of outcomes that says which of the next allocations succeed and the number \<open>live\<close> of blocks
  that were allocated and not freed; a leak is a block too many, a double free a block too few, so that
  theorems state the exact number of blocks after an operation.  Strings are lists of octets (\<open>8 word\<close>), characters are \<open>32 word\<close>; sizes are those of a 64-bit platform.
  Stacks, queues and strings (Containers) carry their capacities and grow as the macros do, up to the C limits.

  \<^bold>\<open>The theories.\<close>
  \<^item> Prelude: programs, their weakest preconditions, the calculus \<open>keeps\<close> for fields that a program leaves alone.
  \<^item> Memory, Containers, Types: \<open>yaml_malloc\<close> to \<open>yaml_strdup\<close>, \<open>PUSH\<close>, \<open>ENQUEUE\<close>, \<open>STRING_EXTEND\<close>, \<open>yaml_string_join\<close>
    and the types of \<open>yaml.h\<close>.  Locales \<open>lifo\<close> and \<open>fifo\<close> are the interfaces of stacks and
    queues.
  \<^item> Unicode: UTF-8 and UTF-16 in both directions, \<open>yaml_check_utf8\<close> of \<open>api.c\<close>.
  \<^item> Reader, Reader_Correct: \<open>reader.c\<close>; locale \<open>byte_source\<close> is the contract of a read handler, in which
    \<open>yaml_parser_update_buffer\<close> is proved to deliver the characters of a reference decoder, whatever pieces the handler
    delivers.  The inner loop gets \<open>4 * length + 5\<close> rounds, which the proof shows to be enough.
  \<^item> Writer: \<open>writer.c\<close>; locale \<open>byte_sink\<close> is the contract of a write handler.  \<open>encoded\<close> gives the octets of a text
    by arithmetic: with \<open>low_surrogate\<close> those of the standard, with \<open>low_unit_written\<close> (\<open>output_bytes\<close>) those that the code
    writes, which differ for most supplementary characters in UTF-16; \<open>encoded_right\<close> says for which they agree.
  \<^item> Events, Document, Objects: the rest of \<open>api.c\<close>: tokens, events, documents, parser and emitter objects.  Locale
    \<open>heap_object\<close> is the contract of a constructor and its destructor.
  \<^item> Strings: the character macros of \<open>yaml_private.h\<close> (\<open>IS_BLANKZ\<close>, \<open>CHECK_AT\<close>, ...) on a string that starts at the
    pointer.
  \<^item> Scanner: \<open>scanner.c\<close> as a whole; its loops are \<open>loopM\<close>, for which not ending is a fault.
  \<^item> Scanner_Chars, Scanner_View: the characters in the buffer and rules for the scanner's macros.  \<open>view\<close> says what an
    operation on characters keeps, and counts the characters to come, which is the measure of every loop.
  \<^item> Scanner_Scan: for each function that scans a token, that it consumes a character at least and owns just the strings of
    its token.  Scanner_Fetch: the functions that put tokens into the queue, the keys and the indentation (\<open>stage\<close>).
  \<^item> Scanner_Contract: \<open>yaml_parser_fetch_more_tokens\<close>, the invariant \<open>scanner_inv\<close>, and the proof that the scanner meets
    the contract \<open>fetch_contract\<close> of the parser on every \<open>byte_source\<close>.
  \<^item> Scanner_Runs, Scanner_Props: runs of scanner, parser and loader on any byte string, and the scanner's properties.
  \<^item> Parser_Errors, Scanner_Errors: which failures are reported.  \<open>reports g\<close> follows a program through every branch; with
    \<open>g = True\<close> a missing error is excused by an allocation that was refused, which is all that holds of the scanner.
  \<^item> Parser, Parser_Correct, Parser_Runs: \<open>parser.c\<close>; the grammar of events as an acceptor, the
    invariant that ties it to the states and the stack of states, and whole runs.  An event consumes at least a sixteenth
    of a token, so 16 events per token bound every run.
  \<^item> Loader, Loader_Correct, Loader_Runs: \<open>loader.c\<close>; an abstract composer of events, which the loader refines.
  \<^item> Dumper, Dumper_Correct, Dumper_Runs: \<open>dumper.c\<close>; an abstract walk over the document.  The recursion has fuel
    \<open>number of nodes + 1\<close>: no path visits a node twice before it becomes an alias.
  \<^item> Emitter, Emitter_Safe, Emitter_Correct, Emitter_Runs, Emitter_Props: \<open>emitter.c\<close>; what the writing functions may do
    to the output (\<open>emitted\<close>: no character is lost, and the emitter's line and column are those of the text that was
    written, \<open>laid_out\<close>), the state machine against the grammar of events, and whole runs of a client.

  \<^bold>\<open>What the properties show.\<close>  Reading: whatever the bytes, their encoding and the outcomes of allocations, scanning,
  parsing and loading never fault, come to an end (at most \<open>4 * n + 6\<close> tokens and 16 events per token for \<open>n\<close> bytes), lose
  no block and yield events that the grammar accepts and documents that are well formed; the accounts include
  the call that ends a run, be it with the empty document or with a failure.  The one exception, blocks that
  the loader loses when memory runs out, is stated and proved.  A call of the parser or the scanner that fails reports an
  error unless an allocation was refused.  Writing: emitter and dumper never fault on valid events and
  documents, follow the grammar, deliver a complete stream completely and free the document.  The layers compute what they
  should: the reader's characters are those of a reference decoder, the writer's output reads back, a loaded document is
  what the abstract composer makes of its events, a dump is the walk over the document and composes back to it, document
  operations refine an abstract document, \<open>yaml_check_utf8\<close> accepts exactly the shortest encodings.  Where the code departs
  from what it means to do, a theorem states how.

  \<^bold>\<open>Bounds.\<close>  Tokens: each character yields four tokens and indentation levels at most (a key may open a mapping, and be
  inserted itself, before its value), and the stream three more.  The fuel of \<open>yaml_parser_update_buffer\<close> and of the dumper
  is shown to be enough; loops without fuel are proved to end.

  \<^bold>\<open>Not modelled.\<close>  Line, column and index of a mark, \<open>tokens_parsed\<close>, an anchor's number of references and the size of the
  input are not bounded by their C types, so that their overflow on inputs of that size is not visible.  What a string
  handed in by the caller that is not terminated would do, the inside of the allocator and of C streams, and handlers
  outside their contract are not described.  Error messages are kept as text, their formatting is up to the caller.
  \<open>yaml_get_version\<close> and \<open>yaml_get_version_string\<close> return constants of the build.  The drivers under
  \<open>tests\<close> are clients of the library, and \<open>src/safe\<close> is a port of it to Rust with copies of its C headers and tests.
\<close>

end
